(* ===== verification/Prelude.thy ===== *)
theory Prelude
  imports Main "HOL-Library.Word"
begin

unbundle bit_operations_syntax

text \<open>
  Shared vocabulary of the development: the machine integers of
  \<^verbatim>\<open>include/common/types.hpp\<close>, C++ exceptions as values, sequencing of operations
  that may throw, and the single-bit register updates
  (\<^verbatim>\<open>reg |= (1U << n)\<close>, \<^verbatim>\<open>reg &= ~(1U << n)\<close>, \<^verbatim>\<open>(reg & (1U << n)) != 0\<close>) that every peripheral uses.
\<close>

section \<open>Fact collections\<close>

named_theorems flag_simps \<open>tests of a bit after setting or clearing one\<close>
named_theorems frame_simps \<open>fields that an operation leaves alone\<close>
named_theorems inv_intros \<open>operations that keep an invariant\<close>

section \<open>Machine integers\<close>

type_synonym u8 = "8 word"
type_synonym u32 = "32 word"
type_synonym u64 = "64 word"

text \<open>\<^verbatim>\<open>common::Address\<close>, \<^verbatim>\<open>common::QWord\<close> and \<^verbatim>\<open>common::Size\<close> are 64 bits wide.\<close>

type_synonym address = u64

lemma unat_cancel [simp]: "unat a = unat b \<longleftrightarrow> a = b"
  by (simp add: word_unat_eq_iff)

lemma unat_of_nat_u64: "n < 2 ^ 64 \<Longrightarrow> unat (of_nat n :: u64) = n"
  by (simp add: unat_of_nat take_bit_nat_eq_self)

lemma unat_of_nat_u32: "n < 2 ^ 32 \<Longrightarrow> unat (of_nat n :: u32) = n"
  by (simp add: unat_of_nat take_bit_nat_eq_self)

lemma unat_plus_one: "(x :: u64) \<noteq> - 1 \<Longrightarrow> unat (x + 1) = Suc (unat x)"
  by (metis add.commute eq_neg_iff_add_eq_0 unatSuc)

lemma unat_u32_bound: "unat (x :: u32) < 2 ^ 32"
  by (rule order_less_le_trans [OF unsigned_less]) simp

lemma unat_u64_bound: "unat (x :: u64) < 2 ^ 64"
  by (rule order_less_le_trans [OF unsigned_less]) simp

lemma unat_minus_one_u64: "unat (- 1 :: u64) = 2 ^ 64 - 1"
  by (simp add: unsigned_minus_1_eq_mask mask_eq_exp_minus_1)

section \<open>Exceptions as values\<close>

text \<open>
  The exception classes the sources throw. An operation that may throw returns
  \<open>Inl e\<close> or \<open>Inr v\<close> together with the state at that moment, because
  a C++ exception keeps the effects made before it.
\<close>

datatype cpp_exception =
  OutOfRange | InvalidArgument | RuntimeError | LogicError | UnderflowError

type_synonym ('a, 's) outcome = "(cpp_exception + 'a) \<times> 's"

abbreviation throw :: "cpp_exception \<Rightarrow> 's \<Rightarrow> ('a, 's) outcome" where
  "throw e s \<equiv> (Inl e, s)"

abbreviation ret :: "'a \<Rightarrow> 's \<Rightarrow> ('a, 's) outcome" where
  "ret v s \<equiv> (Inr v, s)"

definition and_then ::
  "('a, 's) outcome \<Rightarrow> ('a \<Rightarrow> 's \<Rightarrow> ('b, 's) outcome) \<Rightarrow> ('b, 's) outcome" where
  "and_then m f = (case m of (Inl e, s) \<Rightarrow> throw e s | (Inr a, s) \<Rightarrow> f a s)"

fun for_each :: "('x \<Rightarrow> 's \<Rightarrow> (unit, 's) outcome) \<Rightarrow> 'x list \<Rightarrow> 's \<Rightarrow> (unit, 's) outcome" where
  "for_each f [] s = ret () s"
| "for_each f (x # xs) s = and_then (f x s) (\<lambda>_. for_each f xs)"

lemma and_then_simps [simp]:
  "and_then (Inl e, s) f = (Inl e, s)"
  "and_then (Inr a, s) f = f a s"
  by (simp_all add: and_then_def)

lemma and_then_cong:
  "m = m' \<Longrightarrow> (\<And>a s. m' = (Inr a, s) \<Longrightarrow> f a s = g a s) \<Longrightarrow> and_then m f = and_then m' g"
  by (auto simp: and_then_def split: prod.splits sum.splits)

lemma and_then_inv:
  assumes "I (snd m)" and "\<And>a s. I s \<Longrightarrow> I (snd (f a s))"
  shows "I (snd (and_then m f))"
  using assms by (auto simp: and_then_def split: prod.splits sum.splits)

lemma and_then_Inr_iff:
  "and_then m f = (Inr b, t) \<longleftrightarrow> (\<exists>a s. m = (Inr a, s) \<and> f a s = (Inr b, t))"
  by (auto simp: and_then_def split: prod.splits sum.splits)

lemma for_each_inv:
  assumes "\<And>x s. x \<in> set xs \<Longrightarrow> I s \<Longrightarrow> I (snd (f x s))" and "I s"
  shows "I (snd (for_each f xs s))"
  using assms
proof (induction xs arbitrary: s)
  case Nil
  then show ?case by simp
next
  case (Cons x xs)
  have head: "I (snd (f x s))" using Cons.prems by simp
  have tail: "I t \<Longrightarrow> I (snd (for_each f xs t))" for t using Cons by simp
  show ?case using head tail by (cases "f x s") (auto simp: and_then_def split: sum.splits)
qed

lemma for_each_total:
  assumes "\<And>x s. x \<in> set xs \<Longrightarrow> f x s = ret () (g x s)"
  shows "for_each f xs s = ret () (fold g xs s)"
  using assms by (induction xs arbitrary: s) simp_all

lemma for_each_append:
  "for_each f (xs @ ys) s = and_then (for_each f xs s) (\<lambda>_. for_each f ys)"
  by (induction xs arbitrary: s) (auto simp: and_then_def split: prod.splits sum.splits)

section \<open>Association lists\<close>

lemma find_SomeD: "find P xs = Some x \<Longrightarrow> x \<in> set xs \<and> P x"
  by (auto simp: find_Some_iff)

lemma map_of_filter_key:
  "map_of (filter (\<lambda>p. fst p \<noteq> a) xs) b = (if b = a then None else map_of xs b)"
  by (induction xs) auto

section \<open>Runs of a machine\<close>

text \<open>A component whose every step keeps an invariant keeps it over every run of steps.\<close>

locale stepper =
  fixes step :: "'e \<Rightarrow> 's \<Rightarrow> 's"
    and inv :: "'s \<Rightarrow> bool"
  assumes step_keeps: "inv s \<Longrightarrow> inv (step e s)"
begin

lemma run_keeps: "inv s \<Longrightarrow> inv (fold step es s)"
  by (induction es arbitrary: s) (auto intro: step_keeps)

lemma run_prefix_keeps: "inv s \<Longrightarrow> inv (fold step (take k es) s)"
  by (rule run_keeps)

end

section \<open>Single bits of a 32-bit register\<close>

definition set_flag :: "u32 \<Rightarrow> nat \<Rightarrow> u32" where
  "set_flag w n = w OR push_bit n 1"

definition clear_flag :: "u32 \<Rightarrow> nat \<Rightarrow> u32" where
  "clear_flag w n = w AND NOT (push_bit n 1)"

definition test_flag :: "u32 \<Rightarrow> nat \<Rightarrow> bool" where
  "test_flag w n \<longleftrightarrow> w AND push_bit n 1 \<noteq> 0"

definition put_flag :: "bool \<Rightarrow> u32 \<Rightarrow> nat \<Rightarrow> u32" where
  "put_flag b w n = (if b then set_flag w n else clear_flag w n)"

lemma test_flag_bit: "test_flag w n = bit w n"
  by (simp add: test_flag_def push_bit_of_1 and_exp_eq_0_iff_not_bit)

lemma bit_set_flag: "bit (set_flag w n) m \<longleftrightarrow> bit w m \<or> (m = n \<and> n < 32)"
  by (auto simp: set_flag_def bit_simps)

lemma bit_clear_flag: "bit (clear_flag w n) m \<longleftrightarrow> bit w m \<and> m \<noteq> n"
  by (auto simp: clear_flag_def bit_simps dest: bit_imp_le_length)

lemma test_set_flag [flag_simps]:
  "test_flag (set_flag w n) m \<longleftrightarrow> test_flag w m \<or> (m = n \<and> n < 32)"
  by (simp add: test_flag_bit bit_set_flag)

lemma test_clear_flag [flag_simps]:
  "test_flag (clear_flag w n) m \<longleftrightarrow> test_flag w m \<and> m \<noteq> n"
  by (simp add: test_flag_bit bit_clear_flag)

lemma test_put_flag [flag_simps]:
  "n < 32 \<Longrightarrow> test_flag (put_flag b w n) m \<longleftrightarrow> (if m = n then b else test_flag w m)"
  by (auto simp: put_flag_def flag_simps)

lemma test_flag_zero [simp, flag_simps]: "\<not> test_flag 0 n"
  by (simp add: test_flag_def)

lemma test_flag_and [flag_simps]: "test_flag (v AND w) n \<longleftrightarrow> test_flag v n \<and> test_flag w n"
  by (simp add: test_flag_bit bit_simps)

lemma test_flag_lt: "test_flag w n \<Longrightarrow> n < 32"
  by (auto simp: test_flag_bit dest: bit_imp_le_length)

lemma u32_eq_flagsI: "(\<And>n. n < 32 \<Longrightarrow> test_flag v n = test_flag w n) \<Longrightarrow> v = w"
  by (rule bit_word_eqI) (simp add: test_flag_bit)

lemma u32_nonzero_flag: "w \<noteq> 0 \<longleftrightarrow> (\<exists>n<32. test_flag w n)"
  using u32_eq_flagsI [of w 0] by auto

text \<open>The eight-bit index of a line or pin, read as a bit position.\<close>

lemma unat_u8_lt_iff: "(i :: u8) < 32 \<longleftrightarrow> unat i < 32"
  by (simp add: word_less_nat_alt)

end
