(* ===== verification/Mmio.thy ===== *)
theory Mmio
  imports Prelude
begin

text \<open>
  Memory-mapped registers and the bus that decodes their addresses
  (\<^verbatim>\<open>mmio/register.hpp\<close>, \<^verbatim>\<open>mmio/mmio_bus.hpp\<close> and their sources). Registers are shared
  objects: the bus and the peripheral that created a register point to the same one. The model
  keeps an explicit store of register objects, and a \<^verbatim>\<open>std::shared_ptr<Register>\<close> is an
  index into it.
\<close>

section \<open>Registers\<close>

record register =
  m_address :: address
  m_initialValue :: u32
  m_value :: u32

definition register_init :: "address \<Rightarrow> u32 \<Rightarrow> register" where
  "register_init addr v = \<lparr>m_address = addr, m_initialValue = v, m_value = v\<rparr>"

definition register_write :: "u32 \<Rightarrow> register \<Rightarrow> register" where
  "register_write v r = r\<lparr>m_value := v\<rparr>"

definition register_reset :: "register \<Rightarrow> register" where
  "register_reset r = r\<lparr>m_value := m_initialValue r\<rparr>"

section \<open>The store of register objects and the bus\<close>

text \<open>
  \<open>m_registers\<close> is the bus's \<^verbatim>\<open>unordered_map\<close> from addresses to register pointers, as
  an association list; \<open>next_ref\<close> is the next unused object index.
\<close>

record mmio_st =
  reg_objs :: "nat \<Rightarrow> register"
  next_ref :: nat
  m_registers :: "(address \<times> nat) list"

definition make_register :: "address \<Rightarrow> u32 \<Rightarrow> 'z mmio_st_scheme \<Rightarrow> nat \<times> 'z mmio_st_scheme" where
  "make_register addr v s =
     (next_ref s, s\<lparr>reg_objs := (reg_objs s)(next_ref s := register_init addr v),
                    next_ref := Suc (next_ref s)\<rparr>)"

definition reg_get :: "nat \<Rightarrow> 'z mmio_st_scheme \<Rightarrow> u32" where
  "reg_get r s = m_value (reg_objs s r)"

definition reg_put :: "nat \<Rightarrow> u32 \<Rightarrow> 'z mmio_st_scheme \<Rightarrow> 'z mmio_st_scheme" where
  "reg_put r v s = s\<lparr>reg_objs := (reg_objs s)(r := register_write v (reg_objs s r))\<rparr>"

definition reg_rst :: "nat \<Rightarrow> 'z mmio_st_scheme \<Rightarrow> 'z mmio_st_scheme" where
  "reg_rst r s = s\<lparr>reg_objs := (reg_objs s)(r := register_reset (reg_objs s r))\<rparr>"

section \<open>Operations of the bus\<close>

definition mmio_contains :: "address \<Rightarrow> 'z mmio_st_scheme \<Rightarrow> bool" where
  "mmio_contains addr s \<longleftrightarrow> map_of (m_registers s) addr \<noteq> None"

definition mmio_registerRegister ::
  "nat option \<Rightarrow> 'z mmio_st_scheme \<Rightarrow> bool \<times> 'z mmio_st_scheme" where
  "mmio_registerRegister reg s =
     (case reg of
        None \<Rightarrow> (False, s)
      | Some r \<Rightarrow>
          if mmio_contains (m_address (reg_objs s r)) s then (False, s)
          else (True, s\<lparr>m_registers := (m_address (reg_objs s r), r) # m_registers s\<rparr>))"

definition mmio_registerAddress ::
  "address \<Rightarrow> u32 \<Rightarrow> 'z mmio_st_scheme \<Rightarrow> bool \<times> 'z mmio_st_scheme" where
  "mmio_registerAddress addr v s =
     (let (r, s') = make_register addr v s in mmio_registerRegister (Some r) s')"

definition mmio_unregister :: "address \<Rightarrow> 'z mmio_st_scheme \<Rightarrow> bool \<times> 'z mmio_st_scheme" where
  "mmio_unregister addr s =
     (case map_of (m_registers s) addr of
        None \<Rightarrow> (False, s)
      | Some r \<Rightarrow> (True, s\<lparr>m_registers := filter (\<lambda>p. fst p \<noteq> addr) (m_registers s)\<rparr>))"

definition mmio_read :: "address \<Rightarrow> 'z mmio_st_scheme \<Rightarrow> (u32, 'z mmio_st_scheme) outcome" where
  "mmio_read addr s =
     (case map_of (m_registers s) addr of
        None \<Rightarrow> throw OutOfRange s
      | Some r \<Rightarrow> ret (reg_get r s) s)"

definition mmio_write ::
  "address \<Rightarrow> u32 \<Rightarrow> 'z mmio_st_scheme \<Rightarrow> (unit, 'z mmio_st_scheme) outcome" where
  "mmio_write addr v s =
     (case map_of (m_registers s) addr of
        None \<Rightarrow> throw OutOfRange s
      | Some r \<Rightarrow> ret () (reg_put r v s))"

definition mmio_registeredAddresses :: "'z mmio_st_scheme \<Rightarrow> address list" where
  "mmio_registeredAddresses s = sort (map fst (m_registers s))"

text \<open>
  The constructors of the peripherals register their registers with a chain of
  \<^verbatim>\<open>!registerRegister(a) || !registerRegister(b) || ...\<close>, which stops at the first failure
  and leaves the earlier registrations in place.
\<close>

fun register_chain :: "nat list \<Rightarrow> 'z mmio_st_scheme \<Rightarrow> bool \<times> 'z mmio_st_scheme" where
  "register_chain [] s = (True, s)"
| "register_chain (r # rs) s =
     (let (ok, s') = mmio_registerRegister (Some r) s
      in if ok then register_chain rs s' else (False, s'))"

fun unregister_all :: "address list \<Rightarrow> 'z mmio_st_scheme \<Rightarrow> 'z mmio_st_scheme" where
  "unregister_all [] s = s"
| "unregister_all (a # as) s = unregister_all as (snd (mmio_unregister a s))"

section \<open>Registers as a store: the interface the peripherals use\<close>

text \<open>
  A peripheral reads and writes its registers through their pointers. The laws of that interface,
  and what follows for the read-modify-write of one bit.
\<close>

locale register_store =
  fixes rd :: "'r \<Rightarrow> 's \<Rightarrow> u32"
    and wr :: "'r \<Rightarrow> u32 \<Rightarrow> 's \<Rightarrow> 's"
  assumes rd_wr_same: "rd r (wr r v s) = v"
    and rd_wr_other: "r \<noteq> r' \<Longrightarrow> rd r' (wr r v s) = rd r' s"
    and wr_wr: "wr r v (wr r u s) = wr r v s"
    and wr_rd: "wr r (rd r s) s = s"
begin

lemma rd_wr: "rd r' (wr r v s) = (if r = r' then v else rd r' s)"
  by (simp add: rd_wr_same rd_wr_other)

lemma put_then_test:
  "n < 32 \<Longrightarrow> test_flag (rd r (wr r (put_flag b (rd r s) n) s)) m
     = (if m = n then b else test_flag (rd r s) m)"
  by (simp add: rd_wr_same flag_simps)

lemma set_then_test:
  "n < 32 \<Longrightarrow> test_flag (rd r (wr r (set_flag (rd r s) n) s)) m
     \<longleftrightarrow> m = n \<or> test_flag (rd r s) m"
  by (auto simp: rd_wr_same flag_simps)

lemma clear_then_test:
  "test_flag (rd r (wr r (clear_flag (rd r s) n) s)) m \<longleftrightarrow> m \<noteq> n \<and> test_flag (rd r s) m"
  by (auto simp: rd_wr_same flag_simps)

lemma set_twice:
  "wr r (set_flag (rd r (wr r (set_flag (rd r s) n) s)) n) (wr r (set_flag (rd r s) n) s)
     = wr r (set_flag (rd r s) n) s"
  by (simp add: rd_wr_same wr_wr set_flag_def or.assoc)

lemma clear_after_set:
  assumes "\<not> test_flag (rd r s) n"
  shows "wr r (clear_flag (rd r (wr r (set_flag (rd r s) n) s)) n) (wr r (set_flag (rd r s) n) s) = s"
proof -
  have "clear_flag (set_flag (rd r s) n) n = rd r s"
    by (rule u32_eq_flagsI) (use assms in \<open>auto simp: flag_simps\<close>)
  then show ?thesis by (simp add: rd_wr_same wr_wr wr_rd)
qed

end

lemma reg_put_same: "reg_get r (reg_put r v s) = v"
  by (simp add: reg_get_def reg_put_def register_write_def)

interpretation regs: register_store reg_get reg_put
  by unfold_locales
    (auto simp: reg_get_def reg_put_def register_write_def intro!: mmio_st.equality)

lemma reg_get_put [simp]: "reg_get r' (reg_put r v s) = (if r = r' then v else reg_get r' s)"
  by (rule regs.rd_wr)

lemma reg_get_rst [simp]:
  "reg_get r' (reg_rst r s) = (if r = r' then m_initialValue (reg_objs s r) else reg_get r' s)"
  by (simp add: reg_get_def reg_rst_def register_reset_def)

lemma reg_put_frame [simp]:
  "m_registers (reg_put r v s) = m_registers s" "next_ref (reg_put r v s) = next_ref s"
  "m_address (reg_objs (reg_put r v s) q) = m_address (reg_objs s q)"
  "m_initialValue (reg_objs (reg_put r v s) q) = m_initialValue (reg_objs s q)"
  by (simp_all add: reg_put_def register_write_def)

lemma reg_rst_frame [simp]:
  "m_registers (reg_rst r s) = m_registers s" "next_ref (reg_rst r s) = next_ref s"
  "m_address (reg_objs (reg_rst r s) q) = m_address (reg_objs s q)"
  "m_initialValue (reg_objs (reg_rst r s) q) = m_initialValue (reg_objs s q)"
  by (simp_all add: reg_rst_def register_reset_def)

lemma reg_put_more [simp]: "mmio_st.more (reg_put r v s) = mmio_st.more s"
  by (simp add: reg_put_def)

lemma reg_rst_more [simp]: "mmio_st.more (reg_rst r s) = mmio_st.more s"
  by (simp add: reg_rst_def)

lemma mmio_contains_frame [simp]:
  "mmio_contains a (reg_put r v s) = mmio_contains a s"
  "mmio_contains a (reg_rst r s) = mmio_contains a s"
  by (simp_all add: mmio_contains_def)

section \<open>The bus invariant\<close>

text \<open>
  Addresses on the bus are distinct, every entry is filed under its register's own address, and
  every entry points to an existing object. It makes the objects on the bus pairwise different.
\<close>

definition mmio_inv :: "'z mmio_st_scheme \<Rightarrow> bool" where
  "mmio_inv s \<longleftrightarrow> distinct (map fst (m_registers s)) \<and>
     (\<forall>(a, r) \<in> set (m_registers s). m_address (reg_objs s r) = a \<and> r < next_ref s)"

lemma mmio_inv_entry:
  "mmio_inv s \<Longrightarrow> map_of (m_registers s) a = Some r \<Longrightarrow>
     m_address (reg_objs s r) = a \<and> r < next_ref s"
  by (auto simp: mmio_inv_def dest: map_of_SomeD)

lemma mmio_inv_put [inv_intros]: "mmio_inv s \<Longrightarrow> mmio_inv (reg_put r v s)"
  by (simp add: mmio_inv_def)

lemma mmio_inv_rst [inv_intros]: "mmio_inv s \<Longrightarrow> mmio_inv (reg_rst r s)"
  by (simp add: mmio_inv_def)

lemma mmio_inv_make:
  "mmio_inv s \<Longrightarrow> mmio_inv (snd (make_register a v s))"
  by (fastforce simp: mmio_inv_def make_register_def register_init_def)

lemma mmio_inv_register:
  assumes "mmio_inv s" and "\<And>r. reg = Some r \<Longrightarrow> r < next_ref s"
  shows "mmio_inv (snd (mmio_registerRegister reg s))"
  using assms
  by (auto simp: mmio_inv_def mmio_registerRegister_def mmio_contains_def map_of_eq_None_iff
      split: option.splits)

lemma mmio_inv_unregister: "mmio_inv s \<Longrightarrow> mmio_inv (snd (mmio_unregister a s))"
  by (auto simp: mmio_inv_def mmio_unregister_def distinct_map_filter split: option.splits)

lemma mmio_register_frame [simp]:
  "reg_objs (snd (mmio_registerRegister reg s)) = reg_objs s"
  "next_ref (snd (mmio_registerRegister reg s)) = next_ref s"
  by (auto simp: mmio_registerRegister_def split: option.splits)

lemma mmio_unregister_frame [simp]:
  "reg_objs (snd (mmio_unregister a s)) = reg_objs s"
  "next_ref (snd (mmio_unregister a s)) = next_ref s"
  by (auto simp: mmio_unregister_def split: option.splits)

lemma register_chain_frame [simp]:
  "reg_objs (snd (register_chain rs s)) = reg_objs s"
  "next_ref (snd (register_chain rs s)) = next_ref s"
proof (induction rs arbitrary: s)
  case (Cons r rs)
  { case 1 then show ?case
      using Cons mmio_register_frame(1) [of "Some r" s]
      by (cases "mmio_registerRegister (Some r) s") auto }
  { case 2 then show ?case
      using Cons mmio_register_frame(2) [of "Some r" s]
      by (cases "mmio_registerRegister (Some r) s") auto }
qed simp_all

lemma register_chain_fresh:
  "register_chain rs s = (ok, s') \<Longrightarrow> reg_objs s' = reg_objs s \<and> next_ref s' = next_ref s"
  using register_chain_frame [of rs s] by simp

lemma mmio_inv_chain [inv_intros]:
  "mmio_inv s \<Longrightarrow> \<forall>r \<in> set rs. r < next_ref s \<Longrightarrow> mmio_inv (snd (register_chain rs s))"
proof (induction rs arbitrary: s)
  case (Cons r rs)
  then have "mmio_inv (snd (mmio_registerRegister (Some r) s))"
    by (intro mmio_inv_register) simp_all
  with Cons mmio_register_frame(2) [of "Some r" s] show ?case
    by (cases "mmio_registerRegister (Some r) s") auto
qed simp

lemma mmio_inv_unregister_all [inv_intros]: "mmio_inv s \<Longrightarrow> mmio_inv (unregister_all as s)"
  by (induction as arbitrary: s) (auto intro: mmio_inv_unregister)

declare register_chain.simps [simp del]

section \<open>Abstract specification: the bus is a partial map from addresses to words\<close>

definition bus_view :: "'z mmio_st_scheme \<Rightarrow> address \<rightharpoonup> u32" where
  "bus_view s a = map_option (\<lambda>r. reg_get r s) (map_of (m_registers s) a)"

lemma bus_view_dom: "a \<in> dom (bus_view s) \<longleftrightarrow> mmio_contains a s"
  by (auto simp: bus_view_def mmio_contains_def)

lemma bus_view_put:
  assumes "mmio_inv s" and "map_of (m_registers s) a = Some r"
  shows "bus_view (reg_put r v s) = (bus_view s)(a \<mapsto> v)"
proof
  fix b
  have "r' \<noteq> r" if "map_of (m_registers s) b = Some r'" and "b \<noteq> a" for r'
    using that assms mmio_inv_entry by metis
  then show "bus_view (reg_put r v s) b = ((bus_view s)(a \<mapsto> v)) b"
    using assms(2) by (cases "map_of (m_registers s) b") (auto simp: bus_view_def)
qed

lemma bus_view_unregister: "bus_view (snd (mmio_unregister a s)) = (bus_view s)(a := None)"
  by (rule ext)
    (auto simp: bus_view_def mmio_unregister_def map_of_filter_key reg_get_def split: option.splits)

lemma bus_view_register:
  "bus_view (snd (mmio_registerRegister (Some r) s)) =
     (if mmio_contains (m_address (reg_objs s r)) s then bus_view s
      else (bus_view s)(m_address (reg_objs s r) \<mapsto> reg_get r s))"
  by (rule ext) (auto simp: bus_view_def mmio_registerRegister_def reg_get_def)

section \<open>Properties\<close>

text \<open>
  C15. The bus refines a partial map. On a bus that satisfies its invariant, a write to a mapped
  address updates exactly that address of the map and a read returns the map's value; reads and
  writes of an unmapped address throw \<^verbatim>\<open>std::out_of_range\<close> and change nothing.
\<close>

theorem mmio_refines_map:
  assumes "mmio_inv s"
  shows "fst (mmio_read a s) = (case bus_view s a of None \<Rightarrow> Inl OutOfRange | Some w \<Rightarrow> Inr w) \<and>
    snd (mmio_read a s) = s \<and>
    (case bus_view s a of
       None \<Rightarrow> mmio_write a v s = throw OutOfRange s
     | Some _ \<Rightarrow> fst (mmio_write a v s) = Inr () \<and>
         bus_view (snd (mmio_write a v s)) = (bus_view s)(a \<mapsto> v)) \<and>
    mmio_inv (snd (mmio_write a v s))"
  using assms bus_view_put [OF assms]
  by (cases "map_of (m_registers s) a")
    (auto simp: mmio_read_def mmio_write_def bus_view_def intro: inv_intros)

definition demo_bus :: "mmio_st" where
  "demo_bus = snd (mmio_registerAddress 0x40000004 7 (snd (mmio_registerAddress 0x40000000 0
     \<lparr>reg_objs = \<lambda>_. register_init 0 0, next_ref = 0, m_registers = []\<rparr>)))"

lemma demo_bus_unfold:
  "m_registers demo_bus = [(0x40000004, Suc 0), (0x40000000, 0)]" "next_ref demo_bus = Suc (Suc 0)"
  "reg_objs demo_bus 0 = register_init 0x40000000 0"
  "reg_objs demo_bus (Suc 0) = register_init 0x40000004 7"
  by (simp_all add: demo_bus_def mmio_registerAddress_def make_register_def
      mmio_registerRegister_def mmio_contains_def register_init_def)

lemma demo_bus_inv: "mmio_inv demo_bus"
  by (simp add: mmio_inv_def demo_bus_unfold register_init_def)

theorem mmio_refines_map_witness:
  "fst (mmio_read 0x40000004 demo_bus) = Inr 7 \<and>
   bus_view (snd (mmio_write 0x40000000 9 demo_bus)) = (bus_view demo_bus)(0x40000000 \<mapsto> 9)"
  using mmio_refines_map [OF demo_bus_inv, where a = "0x40000004" and v = 0]
    mmio_refines_map [OF demo_bus_inv, where a = "0x40000000" and v = 9]
  by (simp add: bus_view_def demo_bus_unfold reg_get_def register_init_def)

text \<open>
  \<^verbatim>\<open>registeredAddresses\<close> returns the mapped addresses, each once, in increasing order:
  the list depends on the set of mapped addresses only, not on the order of the hash map.
\<close>

lemma registeredAddresses_sorted_domain:
  assumes "mmio_inv s"
  shows "mmio_registeredAddresses s = sorted_list_of_set (dom (bus_view s)) \<and>
    sorted_wrt (<) (mmio_registeredAddresses s)"
proof -
  have "dom (bus_view s) = set (map fst (m_registers s))"
    by (auto simp: bus_view_def map_of_eq_None_iff dom_def)
  moreover have "distinct (map fst (m_registers s))"
    using assms by (simp add: mmio_inv_def)
  ultimately show ?thesis
    by (simp only: mmio_registeredAddresses_def sorted_list_of_set_sort_remdups
        distinct_remdups_id strict_sorted_iff sorted_sort distinct_sort simp_thms)
qed

end
