(* ===== verification/Gpio_Driver.thy ===== *)
theory Gpio_Driver
  imports Mmio
begin

text \<open>
  The 32-pin GPIO port of \<^verbatim>\<open>drivers/gpio/gpio.hpp\<close>: DIR, OUT and IN registers on the bus, and pin
  operations that throw for a pin above 31 or of the wrong direction.
\<close>

section \<open>State\<close>

datatype pin_direction = Input | Output
datatype pin_state = Low | High

definition MAX_PINS :: nat where
  "MAX_PINS = 32"

record gpio =
  g_base :: address
  g_dirRegister :: nat
  g_outRegister :: nat
  g_inRegister :: nat

definition gpio_init :: "address \<Rightarrow> 'z mmio_st_scheme \<Rightarrow> (gpio, 'z mmio_st_scheme) outcome" where
  "gpio_init base s =
     (let (di, s) = make_register (base + 0x00) 0 s;
          (ou, s) = make_register (base + 0x04) 0 s;
          (inn, s) = make_register (base + 0x08) 0 s;
          (ok, s) = register_chain [di, ou, inn] s
      in if \<not> ok then throw RuntimeError s
         else ret \<lparr>g_base = base, g_dirRegister = di, g_outRegister = ou, g_inRegister = inn\<rparr> s)"

text \<open>\<^verbatim>\<open>dirAddress\<close>, \<^verbatim>\<open>outAddress\<close> and \<^verbatim>\<open>inAddress\<close>.\<close>

definition gpio_addresses :: "gpio \<Rightarrow> address list" where
  "gpio_addresses g = [g_base g + 0x00, g_base g + 0x04, g_base g + 0x08]"

definition gpio_destroy :: "gpio \<Rightarrow> 'z mmio_st_scheme \<Rightarrow> 'z mmio_st_scheme" where
  "gpio_destroy g s = unregister_all (gpio_addresses g) s"

section \<open>Operations\<close>

definition gpio_validatePin :: "u8 \<Rightarrow> 'z mmio_st_scheme \<Rightarrow> (unit, 'z mmio_st_scheme) outcome" where
  "gpio_validatePin pin s = (if unat pin \<ge> MAX_PINS then throw OutOfRange s else ret () s)"

definition gpio_isOutputPin :: "gpio \<Rightarrow> u8 \<Rightarrow> 'z mmio_st_scheme \<Rightarrow> bool" where
  "gpio_isOutputPin g pin s = test_flag (reg_get (g_dirRegister g) s) (unat pin)"

definition gpio_configurePin ::
  "gpio \<Rightarrow> u8 \<Rightarrow> pin_direction \<Rightarrow> 'z mmio_st_scheme \<Rightarrow> (unit, 'z mmio_st_scheme) outcome" where
  "gpio_configurePin g pin d s =
     and_then (gpio_validatePin pin s) (\<lambda>_ s.
       let dir = reg_get (g_dirRegister g) s
       in ret () (reg_put (g_dirRegister g) (put_flag (d = Output) dir (unat pin)) s))"

definition gpio_writePin ::
  "gpio \<Rightarrow> u8 \<Rightarrow> pin_state \<Rightarrow> 'z mmio_st_scheme \<Rightarrow> (unit, 'z mmio_st_scheme) outcome" where
  "gpio_writePin g pin st s =
     and_then (gpio_validatePin pin s) (\<lambda>_ s.
       if \<not> gpio_isOutputPin g pin s then throw LogicError s
       else let out = reg_get (g_outRegister g) s;
                inn = reg_get (g_inRegister g) s;
                s = reg_put (g_outRegister g) (put_flag (st = High) out (unat pin)) s
            in ret () (reg_put (g_inRegister g) (put_flag (st = High) inn (unat pin)) s))"

definition gpio_readPin ::
  "gpio \<Rightarrow> u8 \<Rightarrow> 'z mmio_st_scheme \<Rightarrow> (pin_state, 'z mmio_st_scheme) outcome" where
  "gpio_readPin g pin s =
     and_then (gpio_validatePin pin s) (\<lambda>_ s.
       ret (if test_flag (reg_get (g_inRegister g) s) (unat pin) then High else Low) s)"

definition gpio_togglePin :: "gpio \<Rightarrow> u8 \<Rightarrow> 'z mmio_st_scheme \<Rightarrow> (unit, 'z mmio_st_scheme) outcome" where
  "gpio_togglePin g pin s =
     and_then (gpio_validatePin pin s) (\<lambda>_ s.
       if \<not> gpio_isOutputPin g pin s then throw LogicError s
       else and_then (gpio_readPin g pin s) (\<lambda>current s.
         gpio_writePin g pin (if current = High then Low else High) s))"

definition gpio_setExternalInput ::
  "gpio \<Rightarrow> u8 \<Rightarrow> pin_state \<Rightarrow> 'z mmio_st_scheme \<Rightarrow> (unit, 'z mmio_st_scheme) outcome" where
  "gpio_setExternalInput g pin st s =
     and_then (gpio_validatePin pin s) (\<lambda>_ s.
       if gpio_isOutputPin g pin s then throw LogicError s
       else let inn = reg_get (g_inRegister g) s
            in ret () (reg_put (g_inRegister g) (put_flag (st = High) inn (unat pin)) s))"

definition gpio_reset :: "gpio \<Rightarrow> 'z mmio_st_scheme \<Rightarrow> 'z mmio_st_scheme" where
  "gpio_reset g s = reg_rst (g_inRegister g) (reg_rst (g_outRegister g) (reg_rst (g_dirRegister g) s))"

section \<open>Abstract specification: an array of pins\<close>

record pin =
  p_output :: bool
  p_driven :: bool
  p_level :: bool

definition gpio_wf :: "gpio \<Rightarrow> 'z mmio_st_scheme \<Rightarrow> bool" where
  "gpio_wf g s \<longleftrightarrow> distinct [g_dirRegister g, g_outRegister g, g_inRegister g] \<and>
     (\<forall>r \<in> {g_dirRegister g, g_outRegister g, g_inRegister g}. m_initialValue (reg_objs s r) = 0)"

definition gpio_pins :: "gpio \<Rightarrow> 'z mmio_st_scheme \<Rightarrow> nat \<Rightarrow> pin" where
  "gpio_pins g s n =
     \<lparr>p_output = test_flag (reg_get (g_dirRegister g) s) n,
      p_driven = test_flag (reg_get (g_outRegister g) s) n,
      p_level = test_flag (reg_get (g_inRegister g) s) n\<rparr>"

text \<open>An operation on pin \<open>n\<close> of the port, or the exception it ends with.\<close>

datatype gpio_op =
  Configure u8 pin_direction | WritePin u8 pin_state | TogglePin u8 | ExternalInput u8 pin_state | ResetPort

fun gpio_apply :: "gpio \<Rightarrow> gpio_op \<Rightarrow> 'z mmio_st_scheme \<Rightarrow> (unit, 'z mmio_st_scheme) outcome" where
  "gpio_apply g (Configure n d) s = gpio_configurePin g n d s"
| "gpio_apply g (WritePin n v) s = gpio_writePin g n v s"
| "gpio_apply g (TogglePin n) s = gpio_togglePin g n s"
| "gpio_apply g (ExternalInput n v) s = gpio_setExternalInput g n v s"
| "gpio_apply g ResetPort s = ret () (gpio_reset g s)"

definition drive :: "nat \<Rightarrow> bool \<Rightarrow> (nat \<Rightarrow> pin) \<Rightarrow> nat \<Rightarrow> pin" where
  "drive n v P = P(n := (P n)\<lparr>p_driven := v, p_level := v\<rparr>)"

fun pins_apply :: "gpio_op \<Rightarrow> (nat \<Rightarrow> pin) \<Rightarrow> (unit, nat \<Rightarrow> pin) outcome" where
  "pins_apply (Configure n d) P =
     (if unat n \<ge> 32 then throw OutOfRange P
      else ret () (P(unat n := (P (unat n))\<lparr>p_output := (d = Output)\<rparr>)))"
| "pins_apply (WritePin n v) P =
     (if unat n \<ge> 32 then throw OutOfRange P
      else if \<not> p_output (P (unat n)) then throw LogicError P
      else ret () (drive (unat n) (v = High) P))"
| "pins_apply (TogglePin n) P =
     (if unat n \<ge> 32 then throw OutOfRange P
      else if \<not> p_output (P (unat n)) then throw LogicError P
      else ret () (drive (unat n) (\<not> p_level (P (unat n))) P))"
| "pins_apply (ExternalInput n v) P =
     (if unat n \<ge> 32 then throw OutOfRange P
      else if p_output (P (unat n)) then throw LogicError P
      else ret () (P(unat n := (P (unat n))\<lparr>p_level := (v = High)\<rparr>)))"
| "pins_apply ResetPort P = ret () (\<lambda>_. \<lparr>p_output = False, p_driven = False, p_level = False\<rparr>)"

lemmas gpio_op_defs =
  gpio_validatePin_def gpio_configurePin_def gpio_writePin_def gpio_togglePin_def gpio_readPin_def
  gpio_setExternalInput_def gpio_reset_def gpio_isOutputPin_def

lemma gpio_wf_neqs:
  assumes "gpio_wf g s"
  shows "g_dirRegister g \<noteq> g_outRegister g" "g_dirRegister g \<noteq> g_inRegister g"
    "g_outRegister g \<noteq> g_inRegister g"
  using assms by (simp_all add: gpio_wf_def)

lemma gpio_wf_apply [inv_intros]: "gpio_wf g s \<Longrightarrow> gpio_wf g (snd (gpio_apply g q s))"
  by (cases q) (auto simp: gpio_wf_def gpio_op_defs Let_def)

lemma gpio_pins_put:
  assumes "gpio_wf g s" and "n < 32"
  shows "gpio_pins g (reg_put (g_dirRegister g) (put_flag b (reg_get (g_dirRegister g) s) n) s) =
      (gpio_pins g s)(n := (gpio_pins g s n)\<lparr>p_output := b\<rparr>)"
    and "gpio_pins g (reg_put (g_outRegister g) (put_flag b (reg_get (g_outRegister g) s) n) s) =
      (gpio_pins g s)(n := (gpio_pins g s n)\<lparr>p_driven := b\<rparr>)"
    and "gpio_pins g (reg_put (g_inRegister g) (put_flag b (reg_get (g_inRegister g) s) n) s) =
      (gpio_pins g s)(n := (gpio_pins g s n)\<lparr>p_level := b\<rparr>)"
  using assms(2) gpio_wf_neqs [OF assms(1)]
  by (auto simp: gpio_pins_def fun_eq_iff flag_simps)

lemma gpio_pins_drive:
  assumes "gpio_wf g s" and "n < 32"
  shows "gpio_pins g
      (reg_put (g_inRegister g) (put_flag b (reg_get (g_inRegister g) s) n)
        (reg_put (g_outRegister g) (put_flag b (reg_get (g_outRegister g) s) n) s)) =
      drive n b (gpio_pins g s)"
  using assms(2) gpio_wf_neqs [OF assms(1)]
  by (auto simp: gpio_pins_def drive_def fun_eq_iff flag_simps)

lemma gpio_pins_reset:
  assumes "gpio_wf g s"
  shows "gpio_pins g (gpio_reset g s) = (\<lambda>_. \<lparr>p_output = False, p_driven = False, p_level = False\<rparr>)"
  using assms gpio_wf_neqs [OF assms] by (simp add: gpio_reset_def gpio_pins_def gpio_wf_def fun_eq_iff)

lemma gpio_apply_pins:
  assumes "gpio_wf g s"
  shows "map_prod id (gpio_pins g) (gpio_apply g q s) = pins_apply q (gpio_pins g s)"
proof (cases q)
  case (TogglePin n)
  then show ?thesis
    using gpio_pins_drive [OF assms, of "unat n"]
    by (simp add: gpio_op_defs MAX_PINS_def Let_def) (simp add: gpio_pins_def [of g s])
next
  case (WritePin n v)
  then show ?thesis
    using gpio_pins_drive [OF assms, of "unat n"]
    by (simp add: gpio_op_defs MAX_PINS_def Let_def) (simp add: gpio_pins_def [of g s])
next
  case (Configure n d)
  then show ?thesis
    using gpio_pins_put(1) [OF assms, of "unat n"]
    by (simp add: gpio_op_defs MAX_PINS_def Let_def)
next
  case (ExternalInput n v)
  then show ?thesis
    using gpio_pins_put(3) [OF assms, of "unat n"]
    by (simp add: gpio_op_defs MAX_PINS_def Let_def) (simp add: gpio_pins_def [of g s])
next
  case ResetPort
  then show ?thesis using gpio_pins_reset [OF assms] by simp
qed

lemma gpio_init_wf: "gpio_init base s = ret g s' \<Longrightarrow> gpio_wf g s'"
  by (auto simp: gpio_init_def make_register_def Let_def gpio_wf_def register_init_def
      split: prod.splits if_splits dest!: register_chain_fresh)

text \<open>An output pin reads back what was driven onto it.\<close>

definition gpio_consistent :: "gpio \<Rightarrow> 'z mmio_st_scheme \<Rightarrow> nat \<Rightarrow> bool" where
  "gpio_consistent g s n \<longleftrightarrow>
     (p_output (gpio_pins g s n) \<longrightarrow> p_driven (gpio_pins g s n) = p_level (gpio_pins g s n))"

definition demo_gpio :: "gpio \<times> mmio_st" where
  "demo_gpio = (let (r, s) = gpio_init 0x40003000
     \<lparr>reg_objs = \<lambda>_. register_init 0 0, next_ref = 0, m_registers = []\<rparr> in (projr r, s))"

lemma demo_gpio_wf: "gpio_wf (fst demo_gpio) (snd demo_gpio)"
  by code_simp

section \<open>Properties\<close>

text \<open>
  C16. The port refines an array of independent pins. Every operation acts on the registers as the
  corresponding operation on the pins acts on the array, with the same exception: out of range for a
  pin above 31, a logic error for driving an input or forcing an output. A write or toggle sets the
  driven and the read level together, an external input only the read level, and no operation on one
  pin touches another. The refinement holds along every sequence of operations.
\<close>

theorem gpio_refines_pins:
  assumes "gpio_wf g s"
  shows "gpio_pins g (fold (\<lambda>q s. snd (gpio_apply g q s)) ops s) =
      fold (\<lambda>q P. snd (pins_apply q P)) ops (gpio_pins g s) \<and>
    fst (gpio_apply g q s) = fst (pins_apply q (gpio_pins g s)) \<and>
    (fst (gpio_apply g q s) \<noteq> Inr () \<longrightarrow> snd (gpio_apply g q s) = s)"
proof (intro conjI impI)
  show "gpio_pins g (fold (\<lambda>q s. snd (gpio_apply g q s)) ops s) =
      fold (\<lambda>q P. snd (pins_apply q P)) ops (gpio_pins g s)"
    using assms
  proof (induction ops arbitrary: s)
    case (Cons q ops)
    from gpio_apply_pins [OF Cons.prems, of q]
    have "gpio_pins g (snd (gpio_apply g q s)) = snd (pins_apply q (gpio_pins g s))"
      by (metis snd_map_prod)
    with Cons gpio_wf_apply [OF Cons.prems, of q] show ?case by simp
  qed simp
  show "fst (gpio_apply g q s) = fst (pins_apply q (gpio_pins g s))"
    using gpio_apply_pins [OF assms, of q] by (metis fst_map_prod id_apply)
  show "snd (gpio_apply g q s) = s" if "fst (gpio_apply g q s) \<noteq> Inr ()"
    using that by (cases q) (auto simp: gpio_op_defs Let_def split: if_splits)
qed

theorem gpio_refines_pins_witness:
  "p_level (gpio_pins (fst demo_gpio)
     (fold (\<lambda>q s. snd (gpio_apply (fst demo_gpio) q s))
       [Configure 3 Output, WritePin 3 High, TogglePin 3, TogglePin 3, WritePin 4 High] (snd demo_gpio)) 3)"
  unfolding gpio_refines_pins [OF demo_gpio_wf, THEN conjunct1]
  by (simp add: drive_def)

text \<open>
  Toggling twice an output pin that is consistent (its driven and read level agree) restores
  the levels of every pin. A pin that was forced high from outside while it was an input and is
  then made an output is not consistent: its OUT bit is low, its level reads high, and toggling it
  twice leaves OUT high.
\<close>

lemma gpio_toggle_twice:
  assumes "gpio_wf g s" and "unat n < 32" and "p_output (gpio_pins g s (unat n))"
  shows "(gpio_pins g (snd (gpio_togglePin g n (snd (gpio_togglePin g n s)))) = gpio_pins g s)
      = gpio_consistent g s (unat n)"
proof -
  let ?P = "gpio_pins g s"
  have one: "gpio_pins g (snd (gpio_togglePin g n s)) = drive (unat n) (\<not> p_level (?P (unat n))) ?P"
    using gpio_apply_pins [OF assms(1), of "TogglePin n"] assms(2,3)
    by (cases "gpio_togglePin g n s") simp
  have wf: "gpio_wf g (snd (gpio_togglePin g n s))"
    using gpio_wf_apply [OF assms(1), of "TogglePin n"] by simp
  have two: "gpio_pins g (snd (gpio_togglePin g n (snd (gpio_togglePin g n s)))) =
      drive (unat n) (p_level (?P (unat n))) ?P"
    using gpio_apply_pins [OF wf, of "TogglePin n"] assms(2,3)
    by (cases "gpio_togglePin g n (snd (gpio_togglePin g n s))") (simp add: one, simp add: drive_def)
  have "drive k v P = P \<longleftrightarrow> p_driven (P k) = v \<and> p_level (P k) = v" for k v P
    by (cases "P k") (auto simp: drive_def fun_eq_iff)
  then show ?thesis using assms(3) by (auto simp: two gpio_consistent_def)
qed

end
