(* ===== verification/Spi_Driver.thy ===== *)
theory Spi_Driver
  imports Mmio
begin

text \<open>
  The SPI master of \<^verbatim>\<open>drivers/spi/spi_controller.hpp\<close> and the slave interface of
  \<^verbatim>\<open>drivers/spi/spi_device.hpp\<close>. The virtual \<^verbatim>\<open>SPIDevice::transfer\<close> is the argument
  \<open>xfer\<close> of the operations that call it; slaves live in a store of devices and a slave pointer
  is an index into it. The locale states what the master's clients rely on, and the simulated
  slave of the sources provides it.
\<close>

section \<open>The slave interface\<close>

text \<open>
  A slave takes every byte it is sent, in order; \<open>answers bs d\<close> are its answers to the bytes
  \<open>bs\<close>, one after the other.
\<close>

primrec answers :: "(u8 \<Rightarrow> 'd \<Rightarrow> u8 \<times> 'd) \<Rightarrow> u8 list \<Rightarrow> 'd \<Rightarrow> u8 list" where
  "answers xfer [] d = []"
| "answers xfer (b # bs) d = fst (xfer b d) # answers xfer bs (snd (xfer b d))"

primrec after :: "(u8 \<Rightarrow> 'd \<Rightarrow> u8 \<times> 'd) \<Rightarrow> u8 list \<Rightarrow> 'd \<Rightarrow> 'd" where
  "after xfer [] d = d"
| "after xfer (b # bs) d = after xfer bs (snd (xfer b d))"

lemma length_answers [simp]: "length (answers xfer bs d) = length bs"
  by (induction bs arbitrary: d) simp_all

locale spi_slave =
  fixes xfer :: "u8 \<Rightarrow> 'd \<Rightarrow> u8 \<times> 'd"
    and received :: "'d \<Rightarrow> u8 list"
    and queued :: "'d \<Rightarrow> u8 list"
    and dflt :: "'d \<Rightarrow> u8"
  assumes takes: "received (snd (xfer b d)) = received d @ [b]"
    and gives: "fst (xfer b d) = (if queued d = [] then dflt d else hd (queued d))"
    and spends: "queued (snd (xfer b d)) = tl (queued d)"
    and default_stays: "dflt (snd (xfer b d)) = dflt d"
begin

lemma after_received: "received (after xfer bs d) = received d @ bs"
  by (induction bs arbitrary: d) (simp_all add: takes)

lemma after_supply: "queued (after xfer bs d) = drop (length bs) (queued d)"
  by (induction bs arbitrary: d) (simp_all add: spends drop_Suc)

lemma answers_supply:
  "answers xfer bs d =
     take (length bs) (queued d) @ replicate (length bs - length (queued d)) (dflt d)"
proof (induction bs arbitrary: d)
  case (Cons b bs)
  then show ?case
    by (cases "queued d") (simp_all add: gives spends default_stays)
qed simp

end

section \<open>The simulated slave\<close>

record sim_spi =
  ss_defaultResponseByte :: u8
  ss_lastReceivedByte :: u8
  ss_responseQueue :: "u8 list"
  ss_receivedBytes :: "u8 list"

definition sim_spi_init :: "u8 \<Rightarrow> sim_spi" where
  "sim_spi_init b = \<lparr>ss_defaultResponseByte = b, ss_lastReceivedByte = 0, ss_responseQueue = [],
     ss_receivedBytes = []\<rparr>"

definition sim_spi_setDefaultResponseByte :: "u8 \<Rightarrow> sim_spi \<Rightarrow> sim_spi" where
  "sim_spi_setDefaultResponseByte b d = d\<lparr>ss_defaultResponseByte := b\<rparr>"

definition sim_spi_queueResponseByte :: "u8 \<Rightarrow> sim_spi \<Rightarrow> sim_spi" where
  "sim_spi_queueResponseByte b d = d\<lparr>ss_responseQueue := ss_responseQueue d @ [b]\<rparr>"

definition sim_spi_clearResponseQueue :: "sim_spi \<Rightarrow> sim_spi" where
  "sim_spi_clearResponseQueue d = d\<lparr>ss_responseQueue := []\<rparr>"

definition sim_spi_clearReceivedBytes :: "sim_spi \<Rightarrow> sim_spi" where
  "sim_spi_clearReceivedBytes d = d\<lparr>ss_receivedBytes := [], ss_lastReceivedByte := 0\<rparr>"

definition sim_spi_transfer :: "u8 \<Rightarrow> sim_spi \<Rightarrow> u8 \<times> sim_spi" where
  "sim_spi_transfer tx d =
     (let d = d\<lparr>ss_lastReceivedByte := tx\<rparr>;
          d = d\<lparr>ss_receivedBytes := ss_receivedBytes d @ [tx]\<rparr>
      in case ss_responseQueue d of
           [] \<Rightarrow> (ss_defaultResponseByte d, d)
         | b # bs \<Rightarrow> (b, d\<lparr>ss_responseQueue := bs\<rparr>))"

interpretation sim_spi: spi_slave sim_spi_transfer ss_receivedBytes ss_responseQueue ss_defaultResponseByte
  by unfold_locales (simp_all add: sim_spi_transfer_def Let_def split: list.splits)

section \<open>The master\<close>

record spi =
  s_base :: address
  s_dataRegister :: nat
  s_statusRegister :: nat
  s_controlRegister :: nat
  s_clockDivRegister :: nat
  s_slave :: "nat option"
  s_rxBuffer :: "u8 list"
  s_busy :: bool
  s_rxHasData :: bool

type_synonym ('d, 's) on_spi = "spi \<times> (nat \<Rightarrow> 'd) \<times> 's"

definition spi_enabled :: "spi \<Rightarrow> 'z mmio_st_scheme \<Rightarrow> bool" where
  "spi_enabled p s = test_flag (reg_get (s_controlRegister p) s) 0"

definition spi_hasData :: "spi \<Rightarrow> bool" where
  "spi_hasData p \<longleftrightarrow> s_rxBuffer p \<noteq> [] \<or> s_rxHasData p"

definition spi_status :: "bool \<Rightarrow> bool \<Rightarrow> bool \<Rightarrow> u32" where
  "spi_status en busy avail =
     (let st = 0;
          st = (if en then set_flag st 0 else st);
          st = (if busy then set_flag st 1 else st);
          st = (if avail then set_flag st 2 else st)
      in st)"

definition spi_updateStatusRegister :: "spi \<Rightarrow> 'z mmio_st_scheme \<Rightarrow> 'z mmio_st_scheme" where
  "spi_updateStatusRegister p s =
     reg_put (s_statusRegister p) (spi_status (spi_enabled p s) (s_busy p) (spi_hasData p)) s"

definition CTRL_MODE_MASK :: u32 where
  "CTRL_MODE_MASK = push_bit 1 3"

definition spi_setMode :: "spi \<Rightarrow> u8 \<Rightarrow> 'z mmio_st_scheme \<Rightarrow> (unit, 'z mmio_st_scheme) outcome" where
  "spi_setMode p mode s =
     (if mode > 3 then throw InvalidArgument s
      else let ctrl = reg_get (s_controlRegister p) s;
               ctrl = (ctrl AND NOT CTRL_MODE_MASK) OR push_bit 1 (ucast (mode AND 3))
           in ret () (reg_put (s_controlRegister p) ctrl s))"

definition spi_mode :: "spi \<Rightarrow> 'z mmio_st_scheme \<Rightarrow> u8" where
  "spi_mode p s = ucast (drop_bit 1 (reg_get (s_controlRegister p) s AND CTRL_MODE_MASK))"

definition spi_init ::
  "address \<Rightarrow> u32 \<Rightarrow> u8 \<Rightarrow> 'z mmio_st_scheme \<Rightarrow> (spi, 'z mmio_st_scheme) outcome" where
  "spi_init base clockDivider mode s =
     (let (da, s) = make_register (base + 0x00) 0 s;
          (st, s) = make_register (base + 0x04) 0 s;
          (co, s) = make_register (base + 0x08) 0 s;
          (di, s) = make_register (base + 0x0C) clockDivider s
      in if clockDivider = 0 then throw InvalidArgument s
         else if mode > 3 then throw InvalidArgument s
         else let (ok, s) = register_chain [da, st, co, di] s
         in if \<not> ok then throw RuntimeError s
            else let p = \<lparr>s_base = base, s_dataRegister = da, s_statusRegister = st,
                         s_controlRegister = co, s_clockDivRegister = di, s_slave = None,
                         s_rxBuffer = [], s_busy = False, s_rxHasData = False\<rparr>
                 in and_then (spi_setMode p mode s) (\<lambda>_ s. ret p (spi_updateStatusRegister p s)))"

text \<open>\<^verbatim>\<open>dataAddress\<close>, \<^verbatim>\<open>statusAddress\<close>, \<^verbatim>\<open>controlAddress\<close> and \<^verbatim>\<open>clockDivAddress\<close>.\<close>

definition spi_addresses :: "spi \<Rightarrow> address list" where
  "spi_addresses p = [s_base p + 0x00, s_base p + 0x04, s_base p + 0x08, s_base p + 0x0C]"

definition spi_destroy :: "spi \<Rightarrow> 'z mmio_st_scheme \<Rightarrow> 'z mmio_st_scheme" where
  "spi_destroy p s = unregister_all (spi_addresses p) s"

definition spi_enable :: "('d, 'z mmio_st_scheme) on_spi \<Rightarrow> ('d, 'z mmio_st_scheme) on_spi" where
  "spi_enable = (\<lambda>(p, ds, s).
     let r = s_controlRegister p; s = reg_put r (set_flag (reg_get r s) 0) s
     in (p, ds, spi_updateStatusRegister p s))"

definition spi_disable :: "('d, 'z mmio_st_scheme) on_spi \<Rightarrow> ('d, 'z mmio_st_scheme) on_spi" where
  "spi_disable = (\<lambda>(p, ds, s).
     let r = s_controlRegister p; s = reg_put r (clear_flag (reg_get r s) 0) s
     in (p, ds, spi_updateStatusRegister p s))"

text \<open>The byte the attached slave answers, \<^verbatim>\<open>0xFF\<close> without one.\<close>

definition slave_transfer ::
  "(u8 \<Rightarrow> 'd \<Rightarrow> u8 \<times> 'd) \<Rightarrow> nat option \<Rightarrow> u8 \<Rightarrow> (nat \<Rightarrow> 'd) \<Rightarrow> u8 \<times> (nat \<Rightarrow> 'd)" where
  "slave_transfer xfer slave b ds =
     (case slave of None \<Rightarrow> (0xFF, ds)
      | Some i \<Rightarrow> let (rx, d) = xfer b (ds i) in (rx, ds(i := d)))"

definition spi_transfer ::
  "(u8 \<Rightarrow> 'd \<Rightarrow> u8 \<times> 'd) \<Rightarrow> u8 \<Rightarrow> ('d, 'z mmio_st_scheme) on_spi \<Rightarrow>
   (u8, ('d, 'z mmio_st_scheme) on_spi) outcome" where
  "spi_transfer xfer b = (\<lambda>(p, ds, s).
     if \<not> spi_enabled p s then throw RuntimeError (p, ds, s)
     else let p = p\<lparr>s_busy := True\<rparr>;
              s = spi_updateStatusRegister p s;
              (rx, ds) = slave_transfer xfer (s_slave p) b ds;
              s = reg_put (s_dataRegister p) (ucast rx) s;
              p = p\<lparr>s_rxHasData := True\<rparr>;
              p = p\<lparr>s_busy := False\<rparr>
          in ret rx (p, ds, spi_updateStatusRegister p s))"

definition spi_writeByte ::
  "(u8 \<Rightarrow> 'd \<Rightarrow> u8 \<times> 'd) \<Rightarrow> u8 \<Rightarrow> ('d, 'z mmio_st_scheme) on_spi \<Rightarrow>
   (unit, ('d, 'z mmio_st_scheme) on_spi) outcome" where
  "spi_writeByte xfer b = (\<lambda>(p, ds, s).
     if \<not> spi_enabled p s then throw RuntimeError (p, ds, s)
     else let p = p\<lparr>s_busy := True\<rparr>;
              s = spi_updateStatusRegister p s;
              (rx, ds) = slave_transfer xfer (s_slave p) b ds;
              s = reg_put (s_dataRegister p) (ucast rx) s;
              p = p\<lparr>s_rxBuffer := s_rxBuffer p @ [rx]\<rparr>;
              p = p\<lparr>s_rxHasData := True\<rparr>;
              p = p\<lparr>s_busy := False\<rparr>
          in ret () (p, ds, spi_updateStatusRegister p s))"

definition spi_readByte ::
  "('d, 'z mmio_st_scheme) on_spi \<Rightarrow> (u8, ('d, 'z mmio_st_scheme) on_spi) outcome" where
  "spi_readByte = (\<lambda>(p, ds, s).
     if \<not> spi_enabled p s then throw RuntimeError (p, ds, s)
     else if s_rxBuffer p = [] \<and> \<not> s_rxHasData p then throw UnderflowError (p, ds, s)
     else let (rx, p) = (case s_rxBuffer p of
                b # bs \<Rightarrow> (b, p\<lparr>s_rxBuffer := bs\<rparr>)
              | [] \<Rightarrow> (ucast (reg_get (s_dataRegister p) s AND 0xFF), p\<lparr>s_rxHasData := False\<rparr>));
              p = (if s_rxBuffer p = [] then p\<lparr>s_rxHasData := False\<rparr> else p)
          in ret rx (p, ds, spi_updateStatusRegister p s))"

definition spi_setClockDivider ::
  "spi \<Rightarrow> u32 \<Rightarrow> 'z mmio_st_scheme \<Rightarrow> (unit, 'z mmio_st_scheme) outcome" where
  "spi_setClockDivider p v s =
     (if v = 0 then throw InvalidArgument s else ret () (reg_put (s_clockDivRegister p) v s))"

definition spi_clockDivider :: "spi \<Rightarrow> 'z mmio_st_scheme \<Rightarrow> u32" where
  "spi_clockDivider p s = reg_get (s_clockDivRegister p) s"

definition spi_attachSlave :: "nat option \<Rightarrow> spi \<Rightarrow> spi" where
  "spi_attachSlave d p = p\<lparr>s_slave := d\<rparr>"

definition spi_detachSlave :: "spi \<Rightarrow> spi" where
  "spi_detachSlave p = p\<lparr>s_slave := None\<rparr>"

definition spi_reset :: "('d, 'z mmio_st_scheme) on_spi \<Rightarrow> ('d, 'z mmio_st_scheme) on_spi" where
  "spi_reset st =
     (let (p, ds, s) = spi_disable st;
          p = p\<lparr>s_slave := None\<rparr>;
          p = p\<lparr>s_rxBuffer := []\<rparr>;
          p = p\<lparr>s_rxHasData := False\<rparr>;
          s = reg_rst (s_dataRegister p) s;
          s = reg_rst (s_controlRegister p) s;
          s = reg_rst (s_clockDivRegister p) s;
          p = p\<lparr>s_busy := False\<rparr>
      in (p, ds, spi_updateStatusRegister p s))"

section \<open>Well-formedness\<close>

definition spi_wf :: "spi \<Rightarrow> 'z mmio_st_scheme \<Rightarrow> bool" where
  "spi_wf p s \<longleftrightarrow>
     distinct [s_dataRegister p, s_statusRegister p, s_controlRegister p, s_clockDivRegister p] \<and>
     m_initialValue (reg_objs s (s_controlRegister p)) = 0"

lemma spi_wf_distinct:
  assumes "spi_wf p s"
  shows "s_dataRegister p \<noteq> s_statusRegister p" "s_dataRegister p \<noteq> s_controlRegister p"
    "s_dataRegister p \<noteq> s_clockDivRegister p" "s_statusRegister p \<noteq> s_controlRegister p"
    "s_statusRegister p \<noteq> s_clockDivRegister p" "s_controlRegister p \<noteq> s_clockDivRegister p"
  using assms by (simp_all add: spi_wf_def)

lemmas spi_wf_neqs = spi_wf_distinct spi_wf_distinct [symmetric]

text \<open>The master idles with a status register that tells the truth.\<close>

definition spi_idle :: "('d, 'z mmio_st_scheme) on_spi \<Rightarrow> bool" where
  "spi_idle = (\<lambda>(p, ds, s). spi_wf p s \<and> \<not> s_busy p \<and>
     reg_get (s_statusRegister p) s = spi_status (spi_enabled p s) False (spi_hasData p))"

lemmas spi_defs = spi_updateStatusRegister_def spi_enabled_def Let_def

lemma spi_writeByte_eq:
  assumes "spi_idle (p, ds, s)" and "spi_enabled p s"
  shows "\<exists>s'. spi_writeByte xfer b (p, ds, s) =
      ret () (p\<lparr>s_rxBuffer := s_rxBuffer p @ [fst (slave_transfer xfer (s_slave p) b ds)],
                s_rxHasData := True\<rparr>, snd (slave_transfer xfer (s_slave p) b ds), s') \<and>
    spi_enabled p s' \<and> spi_idle (p\<lparr>s_rxBuffer := s_rxBuffer p @ [fst (slave_transfer xfer (s_slave p) b ds)],
                s_rxHasData := True\<rparr>, snd (slave_transfer xfer (s_slave p) b ds), s') \<and>
    spi_mode p s' = spi_mode p s"
proof -
  have wf: "spi_wf p s" and nb: "\<not> s_busy p" using assms(1) by (simp_all add: spi_idle_def)
  have nb': "p\<lparr>s_busy := False, s_rxBuffer := x, s_rxHasData := y\<rparr> = p\<lparr>s_rxBuffer := x, s_rxHasData := y\<rparr>" for x y
    using nb by (cases p) simp
  show ?thesis
    using assms(2) wf nb spi_wf_neqs [OF wf]
    by (simp add: spi_writeByte_def spi_defs split_beta spi_idle_def spi_hasData_def spi_wf_def spi_mode_def nb')
qed

fun spi_writes ::
  "(u8 \<Rightarrow> 'd \<Rightarrow> u8 \<times> 'd) \<Rightarrow> u8 list \<Rightarrow> ('d, 'z mmio_st_scheme) on_spi \<Rightarrow>
   (unit, ('d, 'z mmio_st_scheme) on_spi) outcome" where
  "spi_writes xfer [] st = ret () st"
| "spi_writes xfer (b # bs) st = and_then (spi_writeByte xfer b st) (\<lambda>_. spi_writes xfer bs)"

fun spi_reads ::
  "nat \<Rightarrow> ('d, 'z mmio_st_scheme) on_spi \<Rightarrow> (u8 list, ('d, 'z mmio_st_scheme) on_spi) outcome" where
  "spi_reads 0 st = ret [] st"
| "spi_reads (Suc n) st =
     and_then (spi_readByte st) (\<lambda>b st. and_then (spi_reads n st) (\<lambda>bs. ret (b # bs)))"

lemma spi_writes_eq:
  assumes "spi_idle (p, ds, s)" and "spi_enabled p s" and "s_slave p = Some i"
  shows "\<exists>s'. spi_writes xfer bs (p, ds, s) =
      ret () (p\<lparr>s_rxBuffer := s_rxBuffer p @ answers xfer bs (ds i),
                s_rxHasData := (s_rxHasData p \<or> bs \<noteq> [])\<rparr>, ds(i := after xfer bs (ds i)), s') \<and>
    spi_enabled p s' \<and>
    spi_idle (p\<lparr>s_rxBuffer := s_rxBuffer p @ answers xfer bs (ds i),
                s_rxHasData := (s_rxHasData p \<or> bs \<noteq> [])\<rparr>, ds(i := after xfer bs (ds i)), s')"
  using assms
proof (induction bs arbitrary: p ds s)
  case Nil
  have "p\<lparr>s_rxBuffer := s_rxBuffer p, s_rxHasData := s_rxHasData p\<rparr> = p" by simp
  with Nil show ?case by simp
next
  case (Cons b bs)
  let ?rx = "fst (xfer b (ds i))" and ?ds = "ds(i := snd (xfer b (ds i)))"
  let ?p = "p\<lparr>s_rxBuffer := s_rxBuffer p @ [?rx], s_rxHasData := True\<rparr>"
  have "slave_transfer xfer (s_slave p) b ds = (?rx, ?ds)"
    using Cons.prems(3) by (simp add: slave_transfer_def split_beta)
  with spi_writeByte_eq [OF Cons.prems(1,2), of xfer b]
  obtain s1 where w: "spi_writeByte xfer b (p, ds, s) = ret () (?p, ?ds, s1)"
    and s1: "spi_enabled p s1" "spi_idle (?p, ?ds, s1)"
    by auto
  have "spi_enabled ?p s1" "s_slave ?p = Some i" using s1(1) Cons.prems(3) by (simp_all add: spi_enabled_def)
  from Cons.IH [of ?p ?ds s1, OF s1(2) this] w show ?case
    by (simp add: spi_enabled_def fun_upd_def cong: if_cong)
qed

lemma spi_readByte_eq:
  assumes "spi_idle (p, ds, s)" and "spi_enabled p s" and "s_rxBuffer p = b # bs"
  shows "\<exists>s'. spi_readByte (p, ds, s) =
      ret b (p\<lparr>s_rxBuffer := bs, s_rxHasData := (bs \<noteq> [] \<and> s_rxHasData p)\<rparr>, ds, s') \<and>
    spi_enabled p s' \<and>
    spi_idle (p\<lparr>s_rxBuffer := bs, s_rxHasData := (bs \<noteq> [] \<and> s_rxHasData p)\<rparr>, ds, s')"
proof -
  have wf: "spi_wf p s" and nb: "\<not> s_busy p" using assms(1) by (simp_all add: spi_idle_def)
  show ?thesis
    using assms(2,3) wf nb spi_wf_neqs [OF wf]
    by (cases "bs = []")
      (simp_all add: spi_readByte_def spi_defs split_beta spi_idle_def spi_hasData_def spi_wf_def)
qed

lemma spi_reads_eq:
  assumes "spi_idle (p, ds, s)" and "spi_enabled p s" and "s_rxBuffer p = bs" and "bs \<noteq> []"
  shows "\<exists>s'. spi_reads (length bs) (p, ds, s) =
      ret bs (p\<lparr>s_rxBuffer := [], s_rxHasData := False\<rparr>, ds, s') \<and> spi_enabled p s' \<and>
      spi_idle (p\<lparr>s_rxBuffer := [], s_rxHasData := False\<rparr>, ds, s')"
  using assms
proof (induction bs arbitrary: p s)
  case (Cons b bs)
  let ?p = "p\<lparr>s_rxBuffer := bs, s_rxHasData := (bs \<noteq> [] \<and> s_rxHasData p)\<rparr>"
  from spi_readByte_eq [OF Cons.prems(1-3)]
  obtain s1 where r: "spi_readByte (p, ds, s) = ret b (?p, ds, s1)"
    and s1: "spi_enabled p s1" "spi_idle (?p, ds, s1)"
    by blast
  show ?case
  proof (cases "bs = []")
    case True
    with r s1 show ?thesis by (intro exI [of _ s1]) simp
  next
    case False
    have "spi_enabled ?p s1" "s_rxBuffer ?p = bs" using s1(1) by (simp_all add: spi_enabled_def)
    from Cons.IH [OF s1(2) this False] obtain s2 where
      "spi_reads (length bs) (?p, ds, s1) = ret bs (?p\<lparr>s_rxBuffer := [], s_rxHasData := False\<rparr>, ds, s2)"
      "spi_enabled ?p s2" "spi_idle (?p\<lparr>s_rxBuffer := [], s_rxHasData := False\<rparr>, ds, s2)"
      by blast
    with r show ?thesis by (intro exI [of _ s2]) (simp add: spi_enabled_def)
  qed
qed simp

lemma mode_word_enable:
  fixes c m :: u32
  shows "test_flag ((c AND NOT CTRL_MODE_MASK) OR (m * 2)) 0 = test_flag c 0"
proof -
  have "\<not> bit (m * 2) 0" by (simp add: bit_0)
  then show ?thesis by (auto simp: test_flag_bit CTRL_MODE_MASK_def bit_simps)
qed

lemma mode_word_mode:
  "((c AND NOT CTRL_MODE_MASK) OR m) AND CTRL_MODE_MASK = m AND CTRL_MODE_MASK"
  by (rule bit_eqI) (auto simp: bit_simps)

lemma spi_mode_setMode:
  assumes "mode \<le> 3"
  shows "spi_mode p (snd (spi_setMode p mode s)) = mode"
proof -
  have "unat mode \<le> 3" using assms by (simp add: word_le_nat_alt)
  then have "unat mode = unat (0 :: u8) \<or> unat mode = unat (1 :: u8) \<or>
      unat mode = unat (2 :: u8) \<or> unat mode = unat (3 :: u8)" by fastforce
  then consider "mode = 0" | "mode = 1" | "mode = 2" | "mode = 3" by (simp only: unat_cancel) blast
  then show ?thesis
    by cases (simp_all add: spi_mode_def spi_setMode_def Let_def mode_word_mode, simp_all add: CTRL_MODE_MASK_def and.assoc)
qed

lemma spi_init_idle:
  assumes "spi_init base dv mode s = ret p s'"
  shows "spi_idle (p, ds, s')" and "\<not> spi_enabled p s'" and "s_slave p = None" and "s_rxBuffer p = []"
proof -
  have "spi_idle (p, ds, s') \<and> \<not> spi_enabled p s' \<and> s_slave p = None \<and> s_rxBuffer p = []"
    using assms
    by (auto simp: spi_init_def make_register_def Let_def spi_idle_def spi_wf_def spi_setMode_def
        register_init_def spi_updateStatusRegister_def spi_enabled_def spi_hasData_def
        mode_word_enable split: prod.splits if_splits dest!: register_chain_fresh)
      (simp add: reg_get_def)
  then show "spi_idle (p, ds, s')" and "\<not> spi_enabled p s'" and "s_slave p = None" and "s_rxBuffer p = []"
    by simp_all
qed

text \<open>A controller at \<^verbatim>\<open>0x40005000\<close>, enabled, with the simulated slave 0 attached.\<close>

definition demo_slave :: sim_spi where
  "demo_slave = sim_spi_queueResponseByte 0xA2 (sim_spi_queueResponseByte 0xA1 (sim_spi_init 0x00))"

definition demo_spi :: "(sim_spi, mmio_st) on_spi" where
  "demo_spi = (let (r, s) = spi_init 0x40005000 2 0
     \<lparr>reg_objs = \<lambda>_. register_init 0 0, next_ref = 0, m_registers = []\<rparr>
     in spi_enable (spi_attachSlave (Some 0) (projr r), \<lambda>_. demo_slave, s))"

lemma demo_spi_ok:
  "spi_idle demo_spi" "spi_enabled (fst demo_spi) (snd (snd demo_spi))"
  "s_slave (fst demo_spi) = Some 0" "s_rxBuffer (fst demo_spi) = []"
  by code_simp+

lemma demo_spi_slave: "fst (snd demo_spi) = (\<lambda>_. demo_slave)"
  by (simp add: demo_spi_def spi_enable_def Let_def split_beta)

section \<open>Properties\<close>

text \<open>
  C28. Full-duplex exchange is lossless and in order. On an enabled idle master with the simulated
  slave attached and an empty receive buffer, writing any bytes and reading as many returns the
  slave's queued answers in order, then its default byte; the slave has received exactly the bytes
  written, in order; and the master is idle again, with an empty buffer and a true status register.
\<close>

theorem spi_exchange_in_order:
  assumes "spi_idle (p, ds, s)" and "spi_enabled p s" and "s_slave p = Some i" and "s_rxBuffer p = []"
    and "bs \<noteq> []"
  shows "let (r, st) = and_then (spi_writes sim_spi_transfer bs (p, ds, s)) (\<lambda>_. spi_reads (length bs))
    in r = Inr (take (length bs) (ss_responseQueue (ds i)) @
          replicate (length bs - length (ss_responseQueue (ds i))) (ss_defaultResponseByte (ds i))) \<and>
       ss_receivedBytes (fst (snd st) i) = ss_receivedBytes (ds i) @ bs \<and>
       (\<forall>j. j \<noteq> i \<longrightarrow> fst (snd st) j = ds j) \<and>
       spi_idle st \<and> \<not> spi_hasData (fst st)"
proof -
  let ?as = "answers sim_spi_transfer bs (ds i)" and ?ds = "ds(i := after sim_spi_transfer bs (ds i))"
  let ?p = "p\<lparr>s_rxBuffer := ?as, s_rxHasData := True\<rparr>"
  from spi_writes_eq [OF assms(1-3), of sim_spi_transfer bs] assms(4,5)
  obtain s1 where w: "spi_writes sim_spi_transfer bs (p, ds, s) = ret () (?p, ?ds, s1)"
    and s1: "spi_enabled p s1" "spi_idle (?p, ?ds, s1)" by auto
  have "spi_enabled ?p s1" "s_rxBuffer ?p = ?as" using s1(1) by (simp_all add: spi_enabled_def)
  moreover have "?as \<noteq> []" using assms(5) length_answers [of sim_spi_transfer bs "ds i"] by (cases ?as) auto
  ultimately obtain s2 where
    r: "spi_reads (length ?as) (?p, ?ds, s1) = ret ?as (?p\<lparr>s_rxBuffer := [], s_rxHasData := False\<rparr>, ?ds, s2)"
    and s2: "spi_idle (?p\<lparr>s_rxBuffer := [], s_rxHasData := False\<rparr>, ?ds, s2)"
    using spi_reads_eq [OF s1(2)] by blast
  show ?thesis
    using w r s2 by (simp add: sim_spi.after_received spi_hasData_def) (simp add: sim_spi.answers_supply)
qed

theorem spi_exchange_in_order_witness:
  "fst (and_then (spi_writes sim_spi_transfer [1, 2, 3] demo_spi) (\<lambda>_. spi_reads 3)) =
     Inr [0xA1, 0xA2, 0]"
proof -
  let ?bs = "[1, 2, 3] :: u8 list" and ?d = "fst (snd demo_spi) 0"
  have "fst (and_then (spi_writes sim_spi_transfer ?bs demo_spi) (\<lambda>_. spi_reads (length ?bs))) =
      Inr (take (length ?bs) (ss_responseQueue ?d) @
        replicate (length ?bs - length (ss_responseQueue ?d)) (ss_defaultResponseByte ?d))"
    using spi_exchange_in_order [of "fst demo_spi" "fst (snd demo_spi)" "snd (snd demo_spi)" 0 ?bs] demo_spi_ok
    by (simp only: prod.collapse Let_def split_beta) simp
  then show ?thesis
    by (simp add: demo_spi_slave demo_slave_def sim_spi_queueResponseByte_def sim_spi_init_def numeral_3_eq_3)
qed

text \<open>
  \<^verbatim>\<open>transfer\<close> does not queue its answer. After a \<^verbatim>\<open>writeByte\<close> and then a
  \<^verbatim>\<open>transfer\<close> on a master with an empty buffer, one read returns the first answer, and the
  next one throws the underflow error although two bytes came in: the second is lost to readers.
\<close>

lemma spi_transfer_answer_lost:
  assumes "spi_idle (p, ds, s)" and "spi_enabled p s" and "s_slave p = Some i" and "s_rxBuffer p = []"
  shows "let st = snd (spi_transfer xfer c (snd (spi_writeByte xfer b (p, ds, s))))
    in fst (spi_readByte st) = Inr (fst (xfer b (ds i))) \<and>
       fst (spi_readByte (snd (spi_readByte st))) = Inl UnderflowError"
proof -
  have wf: "spi_wf p s" using assms(1) by (simp add: spi_idle_def)
  show ?thesis
    using assms(2-4) spi_wf_neqs [OF wf]
    by (simp add: spi_writeByte_def spi_transfer_def spi_readByte_def spi_defs slave_transfer_def split_beta)
qed

text \<open>
  The mode field of CONTROL. Setting a mode from 0 to 3 is read back and changes neither the
  enable bit nor any bit outside the field; a larger mode throws and changes nothing.
\<close>

lemma spi_mode_roundtrip:
  "if mode \<le> 3
   then fst (spi_setMode p mode s) = Inr () \<and> spi_mode p (snd (spi_setMode p mode s)) = mode \<and>
     spi_enabled p (snd (spi_setMode p mode s)) = spi_enabled p s \<and>
     reg_get (s_controlRegister p) (snd (spi_setMode p mode s)) AND NOT CTRL_MODE_MASK =
       reg_get (s_controlRegister p) s AND NOT CTRL_MODE_MASK
   else spi_setMode p mode s = throw InvalidArgument s"
proof (cases "mode \<le> 3")
  case True
  have "unat mode \<le> 3" using True by (simp add: word_le_nat_alt)
  then have "unat mode = unat (0 :: u8) \<or> unat mode = unat (1 :: u8) \<or>
      unat mode = unat (2 :: u8) \<or> unat mode = unat (3 :: u8)" by fastforce
  then consider "mode = 0" | "mode = 1" | "mode = 2" | "mode = 3" by (simp only: unat_cancel) blast
  then have field: "push_bit 1 (ucast (mode AND 3)) AND NOT CTRL_MODE_MASK = 0"
    by cases (simp_all add: CTRL_MODE_MASK_def)
  have "((c AND NOT CTRL_MODE_MASK) OR m) AND NOT CTRL_MODE_MASK = c AND NOT CTRL_MODE_MASK"
    if "m AND NOT CTRL_MODE_MASK = 0" for c m
    using that by (simp add: bit.conj_disj_distrib2 and.assoc)
  with field True spi_mode_setMode [OF True, of p s] mode_word_enable show ?thesis
    by (simp add: spi_setMode_def Let_def spi_enabled_def)
next
  case False
  then show ?thesis by (simp add: spi_setMode_def not_le)
qed

end
