(* ===== verification/I2c_Driver.thy ===== *)
theory I2c_Driver
  imports Mmio
begin

text \<open>
  The I2C master of \<^verbatim>\<open>drivers/i2c/i2c_controller.hpp\<close> and the slave interface of
  \<^verbatim>\<open>drivers/i2c/i2c_device.hpp\<close>. The virtual functions of a slave are a record of functions
  (its class); slaves live in a store of devices and a slave pointer is an index into it. The
  locale states what the master's clients rely on, and the simulated slave of the sources provides it.
\<close>

section \<open>The slave interface\<close>

record 'd i2c_class =
  dv_address :: "'d \<Rightarrow> u8"
  dv_onStart :: "bool \<Rightarrow> 'd \<Rightarrow> bool \<times> 'd"
  dv_onWrite :: "u8 \<Rightarrow> 'd \<Rightarrow> bool \<times> 'd"
  dv_onRead :: "'d \<Rightarrow> u8 \<times> 'd"
  dv_onStop :: "'d \<Rightarrow> 'd"

primrec write_all :: "(u8 \<Rightarrow> 'd \<Rightarrow> bool \<times> 'd) \<Rightarrow> u8 list \<Rightarrow> 'd \<Rightarrow> bool list \<times> 'd" where
  "write_all wr [] d = ([], d)"
| "write_all wr (b # bs) d =
     (let (a, d) = wr b d; (as, d) = write_all wr bs d in (a # as, d))"

primrec read_all :: "('d \<Rightarrow> u8 \<times> 'd) \<Rightarrow> nat \<Rightarrow> 'd \<Rightarrow> u8 list \<times> 'd" where
  "read_all rd 0 d = ([], d)"
| "read_all rd (Suc n) d = (let (b, d) = rd d; (bs, d) = read_all rd n d in (b # bs, d))"

text \<open>
  A slave acknowledges as long as it is willing, logs the bytes it acknowledges, and answers reads
  from a queue and then with its default byte.
\<close>

locale i2c_slave =
  fixes cls :: "'d i2c_class"
    and willing :: "'d \<Rightarrow> bool"
    and log :: "'d \<Rightarrow> u8 list"
    and queued :: "'d \<Rightarrow> u8 list"
    and dflt :: "'d \<Rightarrow> u8"
  assumes start_acks: "dv_onStart cls r d = (willing d, d)"
    and write_acks: "fst (dv_onWrite cls b d) = willing d"
    and write_logs: "log (snd (dv_onWrite cls b d)) = (if willing d then log d @ [b] else log d)"
    and write_keeps: "willing (snd (dv_onWrite cls b d)) = willing d"
      "queued (snd (dv_onWrite cls b d)) = queued d"
    and read_gives: "fst (dv_onRead cls d) = (if queued d = [] then dflt d else hd (queued d))"
    and read_keeps: "queued (snd (dv_onRead cls d)) = tl (queued d)"
      "dflt (snd (dv_onRead cls d)) = dflt d" "log (snd (dv_onRead cls d)) = log d"
    and stop_keeps: "log (dv_onStop cls d) = log d" "queued (dv_onStop cls d) = queued d"
begin

lemma write_all_willing:
  "willing d \<Longrightarrow>
     fst (write_all (dv_onWrite cls) bs d) = map (\<lambda>_. True) bs \<and>
     log (snd (write_all (dv_onWrite cls) bs d)) = log d @ bs"
proof (induction bs arbitrary: d)
  case (Cons b bs)
  obtain a d1 where w: "dv_onWrite cls b d = (a, d1)" by (cases "dv_onWrite cls b d")
  then have "a" "log d1 = log d @ [b]" "willing d1"
    using Cons.prems write_acks [of b d] write_logs [of b d] write_keeps(1) [of b d] by simp_all
  then show ?case using Cons.IH [of d1] w by (simp add: split_beta)
qed simp

lemma write_all_unwilling:
  "\<not> willing d \<Longrightarrow> fst (write_all (dv_onWrite cls) bs d) = map (\<lambda>_. False) bs \<and>
     log (snd (write_all (dv_onWrite cls) bs d)) = log d"
proof (induction bs arbitrary: d)
  case (Cons b bs)
  obtain a d1 where w: "dv_onWrite cls b d = (a, d1)" by (cases "dv_onWrite cls b d")
  then have "\<not> a" "log d1 = log d" "\<not> willing d1"
    using Cons.prems write_acks [of b d] write_logs [of b d] write_keeps(1) [of b d] by simp_all
  then show ?case using Cons.IH [of d1] w by (simp add: split_beta)
qed simp

lemma read_all_gives:
  "fst (read_all (dv_onRead cls) n d) = take n (queued d) @ replicate (n - length (queued d)) (dflt d)"
proof (induction n arbitrary: d)
  case (Suc n)
  obtain b d1 where r: "dv_onRead cls d = (b, d1)" by (cases "dv_onRead cls d")
  then have "b = (if queued d = [] then dflt d else hd (queued d))" "queued d1 = tl (queued d)"
    "dflt d1 = dflt d"
    using read_gives [of d] read_keeps [of d] by simp_all
  then show ?case using Suc.IH [of d1] r by (cases "queued d") (simp_all add: split_beta)
qed simp

lemma read_all_queue: "queued (snd (read_all (dv_onRead cls) n d)) = drop n (queued d)"
proof (induction n arbitrary: d)
  case (Suc n)
  obtain b d1 where r: "dv_onRead cls d = (b, d1)" by (cases "dv_onRead cls d")
  then have "queued d1 = tl (queued d)" using read_keeps(1) [of d] by simp
  then show ?case using Suc.IH [of d1] r by (simp add: split_beta drop_Suc)
qed simp

end

section \<open>The simulated slave\<close>

record sim_i2c =
  si_address :: u8
  si_defaultResponse :: u8
  si_ackEnabled :: bool
  si_responseQueue :: "u8 list"
  si_receivedBytes :: "u8 list"

definition sim_i2c_init :: "u8 \<Rightarrow> u8 \<Rightarrow> sim_i2c" where
  "sim_i2c_init a r = \<lparr>si_address = a, si_defaultResponse = r, si_ackEnabled = True,
     si_responseQueue = [], si_receivedBytes = []\<rparr>"

definition sim_i2c_setAddress :: "u8 \<Rightarrow> sim_i2c \<Rightarrow> sim_i2c" where
  "sim_i2c_setAddress a d = d\<lparr>si_address := a\<rparr>"

definition sim_i2c_setAcknowledge :: "bool \<Rightarrow> sim_i2c \<Rightarrow> sim_i2c" where
  "sim_i2c_setAcknowledge b d = d\<lparr>si_ackEnabled := b\<rparr>"

definition sim_i2c_queueResponseByte :: "u8 \<Rightarrow> sim_i2c \<Rightarrow> sim_i2c" where
  "sim_i2c_queueResponseByte b d = d\<lparr>si_responseQueue := si_responseQueue d @ [b]\<rparr>"

definition sim_i2c_clearResponseQueue :: "sim_i2c \<Rightarrow> sim_i2c" where
  "sim_i2c_clearResponseQueue d = d\<lparr>si_responseQueue := []\<rparr>"

definition sim_i2c_clearReceivedBytes :: "sim_i2c \<Rightarrow> sim_i2c" where
  "sim_i2c_clearReceivedBytes d = d\<lparr>si_receivedBytes := []\<rparr>"

definition sim_i2c_onStart :: "bool \<Rightarrow> sim_i2c \<Rightarrow> bool \<times> sim_i2c" where
  "sim_i2c_onStart isRead d = (si_ackEnabled d, d)"

definition sim_i2c_onWrite :: "u8 \<Rightarrow> sim_i2c \<Rightarrow> bool \<times> sim_i2c" where
  "sim_i2c_onWrite b d =
     (if \<not> si_ackEnabled d then (False, d)
      else (True, d\<lparr>si_receivedBytes := si_receivedBytes d @ [b]\<rparr>))"

definition sim_i2c_onRead :: "sim_i2c \<Rightarrow> u8 \<times> sim_i2c" where
  "sim_i2c_onRead d =
     (case si_responseQueue d of
        [] \<Rightarrow> (si_defaultResponse d, d)
      | b # bs \<Rightarrow> (b, d\<lparr>si_responseQueue := bs\<rparr>))"

definition sim_i2c_onStop :: "sim_i2c \<Rightarrow> sim_i2c" where
  "sim_i2c_onStop d = d"

definition sim_i2c_class :: "sim_i2c i2c_class" where
  "sim_i2c_class = \<lparr>dv_address = si_address, dv_onStart = sim_i2c_onStart,
     dv_onWrite = sim_i2c_onWrite, dv_onRead = sim_i2c_onRead, dv_onStop = sim_i2c_onStop\<rparr>"

interpretation sim_i2c: i2c_slave sim_i2c_class si_ackEnabled si_receivedBytes si_responseQueue si_defaultResponse
  by unfold_locales (simp_all add: sim_i2c_class_def sim_i2c_onStart_def sim_i2c_onWrite_def
      sim_i2c_onRead_def sim_i2c_onStop_def split: list.splits)

section \<open>The master\<close>

record i2c =
  i_base :: address
  i_dataRegister :: nat
  i_statusRegister :: nat
  i_controlRegister :: nat
  i_addrRegister :: nat
  i_devices :: "nat list"
  i_activeDevice :: "nat option"
  i_rxBuffer :: "u8 list"
  i_busy :: bool
  i_lastAck :: bool
  i_isReadMode :: bool

type_synonym ('d, 's) on_i2c = "i2c \<times> (nat \<Rightarrow> 'd) \<times> 's"

definition i2c_enabled :: "i2c \<Rightarrow> 'z mmio_st_scheme \<Rightarrow> bool" where
  "i2c_enabled c s = test_flag (reg_get (i_controlRegister c) s) 0"

definition i2c_status :: "bool \<Rightarrow> bool \<Rightarrow> bool \<Rightarrow> bool \<Rightarrow> u32" where
  "i2c_status en busy avail lastAck =
     (let st = 0;
          st = (if en then set_flag st 0 else st);
          st = (if busy then set_flag st 1 else st);
          st = (if avail then set_flag st 2 else st);
          st = (if \<not> lastAck \<and> busy then set_flag st 3 else st)
      in st)"

definition i2c_updateStatusRegister :: "i2c \<Rightarrow> 'z mmio_st_scheme \<Rightarrow> 'z mmio_st_scheme" where
  "i2c_updateStatusRegister c s =
     reg_put (i_statusRegister c)
       (i2c_status (i2c_enabled c s) (i_busy c) (i_rxBuffer c \<noteq> []) (i_lastAck c)) s"

definition i2c_init ::
  "address \<Rightarrow> u8 \<Rightarrow> 'z mmio_st_scheme \<Rightarrow> (i2c, 'z mmio_st_scheme) outcome" where
  "i2c_init base slaveAddr s =
     (let (da, s) = make_register (base + 0x00) 0 s;
          (st, s) = make_register (base + 0x04) 0 s;
          (co, s) = make_register (base + 0x08) 0 s;
          (ad, s) = make_register (base + 0x0C) (ucast (slaveAddr AND 0x7F)) s;
          (ok, s) = register_chain [da, st, co, ad] s
      in if \<not> ok then throw RuntimeError s
         else let c = \<lparr>i_base = base, i_dataRegister = da, i_statusRegister = st,
                       i_controlRegister = co, i_addrRegister = ad, i_devices = [],
                       i_activeDevice = None, i_rxBuffer = [], i_busy = False, i_lastAck = False,
                       i_isReadMode = False\<rparr>
              in ret c (i2c_updateStatusRegister c s))"

text \<open>\<^verbatim>\<open>dataAddress\<close>, \<^verbatim>\<open>statusAddress\<close>, \<^verbatim>\<open>controlAddress\<close> and \<^verbatim>\<open>slaveAddrAddress\<close>.\<close>

definition i2c_addresses :: "i2c \<Rightarrow> address list" where
  "i2c_addresses c = [i_base c + 0x00, i_base c + 0x04, i_base c + 0x08, i_base c + 0x0C]"

definition i2c_destroy :: "i2c \<Rightarrow> 'z mmio_st_scheme \<Rightarrow> 'z mmio_st_scheme" where
  "i2c_destroy c s = unregister_all (i2c_addresses c) s"

definition i2c_slaveAddress :: "i2c \<Rightarrow> 'z mmio_st_scheme \<Rightarrow> u8" where
  "i2c_slaveAddress c s = ucast (reg_get (i_addrRegister c) s AND 0x7F)"

definition i2c_setSlaveAddress :: "i2c \<Rightarrow> u8 \<Rightarrow> 'z mmio_st_scheme \<Rightarrow> 'z mmio_st_scheme" where
  "i2c_setSlaveAddress c a s = reg_put (i_addrRegister c) (ucast (a AND 0x7F)) s"

definition i2c_hasData :: "i2c \<Rightarrow> bool" where
  "i2c_hasData c \<longleftrightarrow> i_rxBuffer c \<noteq> []"

definition i2c_enable :: "('d, 'z mmio_st_scheme) on_i2c \<Rightarrow> ('d, 'z mmio_st_scheme) on_i2c" where
  "i2c_enable = (\<lambda>(c, ds, s).
     let r = i_controlRegister c; s = reg_put r (set_flag (reg_get r s) 0) s
     in (c, ds, i2c_updateStatusRegister c s))"

definition i2c_disable :: "('d, 'z mmio_st_scheme) on_i2c \<Rightarrow> ('d, 'z mmio_st_scheme) on_i2c" where
  "i2c_disable = (\<lambda>(c, ds, s).
     let r = i_controlRegister c;
         s = reg_put r (clear_flag (reg_get r s) 0) s;
         c = c\<lparr>i_busy := False\<rparr>;
         c = c\<lparr>i_activeDevice := None\<rparr>
     in (c, ds, i2c_updateStatusRegister c s))"

definition i2c_start ::
  "'d i2c_class \<Rightarrow> bool \<Rightarrow> ('d, 'z mmio_st_scheme) on_i2c \<Rightarrow>
   (bool, ('d, 'z mmio_st_scheme) on_i2c) outcome" where
  "i2c_start cls isRead = (\<lambda>(c, ds, s).
     if \<not> i2c_enabled c s then throw RuntimeError (c, ds, s)
     else let c = c\<lparr>i_busy := True\<rparr>;
              c = c\<lparr>i_isReadMode := isRead\<rparr>;
              target = i2c_slaveAddress c s;
              (c, ds) = (case find (\<lambda>i. dv_address cls (ds i) = target) (i_devices c) of
                  Some i \<Rightarrow>
                    (let (ack, d) = dv_onStart cls isRead (ds i)
                     in (c\<lparr>i_lastAck := ack, i_activeDevice := (if ack then Some i else None)\<rparr>, ds(i := d)))
                | None \<Rightarrow> (c\<lparr>i_lastAck := False, i_activeDevice := None\<rparr>, ds))
          in ret (i_lastAck c) (c, ds, i2c_updateStatusRegister c s))"

definition i2c_stop ::
  "'d i2c_class \<Rightarrow> ('d, 'z mmio_st_scheme) on_i2c \<Rightarrow> ('d, 'z mmio_st_scheme) on_i2c" where
  "i2c_stop cls = (\<lambda>(c, ds, s).
     let ds = (case i_activeDevice c of None \<Rightarrow> ds | Some i \<Rightarrow> ds(i := dv_onStop cls (ds i)));
         c = c\<lparr>i_activeDevice := None\<rparr>;
         c = c\<lparr>i_busy := False\<rparr>
     in (c, ds, i2c_updateStatusRegister c s))"

definition i2c_writeByte ::
  "'d i2c_class \<Rightarrow> u8 \<Rightarrow> ('d, 'z mmio_st_scheme) on_i2c \<Rightarrow>
   (bool, ('d, 'z mmio_st_scheme) on_i2c) outcome" where
  "i2c_writeByte cls b = (\<lambda>(c, ds, s).
     if \<not> i2c_enabled c s then throw RuntimeError (c, ds, s)
     else if \<not> i_busy c then throw RuntimeError (c, ds, s)
     else let (ack, ds) = (case i_activeDevice c of
                None \<Rightarrow> (False, ds)
              | Some i \<Rightarrow> (let (ack, d) = dv_onWrite cls b (ds i) in (ack, ds(i := d))));
              c = c\<lparr>i_lastAck := ack\<rparr>;
              s = reg_put (i_dataRegister c) (ucast b) s
          in ret ack (c, ds, i2c_updateStatusRegister c s))"

definition i2c_readByte ::
  "'d i2c_class \<Rightarrow> ('d, 'z mmio_st_scheme) on_i2c \<Rightarrow>
   (u8, ('d, 'z mmio_st_scheme) on_i2c) outcome" where
  "i2c_readByte cls = (\<lambda>(c, ds, s).
     if \<not> i2c_enabled c s then throw RuntimeError (c, ds, s)
     else case i_rxBuffer c of
       b # bs \<Rightarrow>
         let c = c\<lparr>i_rxBuffer := bs\<rparr> in ret b (c, ds, i2c_updateStatusRegister c s)
     | [] \<Rightarrow>
         (if \<not> i_busy c then throw UnderflowError (c, ds, s)
          else case i_activeDevice c of
            None \<Rightarrow> throw UnderflowError (c, ds, s)
          | Some i \<Rightarrow>
              let (b, d) = dv_onRead cls (ds i);
                  ds = ds(i := d);
                  s = reg_put (i_dataRegister c) (ucast b) s
              in ret b (c, ds, i2c_updateStatusRegister c s)))"

definition i2c_attachDevice :: "nat option \<Rightarrow> i2c \<Rightarrow> i2c" where
  "i2c_attachDevice dev c =
     (case dev of
        None \<Rightarrow> c
      | Some d \<Rightarrow> if d \<notin> set (i_devices c) then c\<lparr>i_devices := i_devices c @ [d]\<rparr> else c)"

definition i2c_detachDevice :: "nat option \<Rightarrow> i2c \<Rightarrow> i2c" where
  "i2c_detachDevice dev c =
     (case dev of
        None \<Rightarrow> c
      | Some d \<Rightarrow>
          let c = (if d \<in> set (i_devices c) then c\<lparr>i_devices := remove1 d (i_devices c)\<rparr> else c)
          in if i_activeDevice c = Some d then c\<lparr>i_activeDevice := None\<rparr> else c)"

definition i2c_reset :: "('d, 'z mmio_st_scheme) on_i2c \<Rightarrow> ('d, 'z mmio_st_scheme) on_i2c" where
  "i2c_reset st =
     (let (c, ds, s) = i2c_disable st;
          c = c\<lparr>i_devices := []\<rparr>;
          c = c\<lparr>i_activeDevice := None\<rparr>;
          c = c\<lparr>i_rxBuffer := []\<rparr>;
          s = reg_rst (i_dataRegister c) s;
          s = reg_rst (i_controlRegister c) s;
          s = reg_rst (i_addrRegister c) s;
          c = c\<lparr>i_busy := False\<rparr>;
          c = c\<lparr>i_lastAck := False\<rparr>
      in (c, ds, i2c_updateStatusRegister c s))"

section \<open>Invariant\<close>

datatype i2c_op =
  IEnable | IDisable | IStart bool | IStop | IWrite u8 | IRead | ISetAddress u8
| IAttach "nat option" | IDetach "nat option" | IReset

fun i2c_apply ::
  "'d i2c_class \<Rightarrow> i2c_op \<Rightarrow> ('d, 'z mmio_st_scheme) on_i2c \<Rightarrow> ('d, 'z mmio_st_scheme) on_i2c" where
  "i2c_apply cls IEnable st = i2c_enable st"
| "i2c_apply cls IDisable st = i2c_disable st"
| "i2c_apply cls (IStart r) st = snd (i2c_start cls r st)"
| "i2c_apply cls IStop st = i2c_stop cls st"
| "i2c_apply cls (IWrite b) st = snd (i2c_writeByte cls b st)"
| "i2c_apply cls IRead st = snd (i2c_readByte cls st)"
| "i2c_apply cls (ISetAddress a) st = (case st of (c, ds, s) \<Rightarrow> (c, ds, i2c_setSlaveAddress c a s))"
| "i2c_apply cls (IAttach d) st = (case st of (c, ds, s) \<Rightarrow> (i2c_attachDevice d c, ds, s))"
| "i2c_apply cls (IDetach d) st = (case st of (c, ds, s) \<Rightarrow> (i2c_detachDevice d c, ds, s))"
| "i2c_apply cls IReset st = i2c_reset st"

definition i2c_wf :: "i2c \<Rightarrow> 'z mmio_st_scheme \<Rightarrow> bool" where
  "i2c_wf c s \<longleftrightarrow>
     distinct [i_dataRegister c, i_statusRegister c, i_controlRegister c, i_addrRegister c] \<and>
     m_initialValue (reg_objs s (i_controlRegister c)) = 0"

text \<open>
  The bus is busy only while enabled, an active slave is attached and inside a transaction, no slave
  is attached twice, the receive buffer is empty and STATUS tells the truth.
\<close>

definition i2c_inv :: "('d, 'z mmio_st_scheme) on_i2c \<Rightarrow> bool" where
  "i2c_inv = (\<lambda>(c, ds, s).
     i2c_wf c s \<and> distinct (i_devices c) \<and> (i_busy c \<longrightarrow> i2c_enabled c s) \<and>
     (case i_activeDevice c of None \<Rightarrow> True | Some d \<Rightarrow> i_busy c \<and> d \<in> set (i_devices c)) \<and>
     i_rxBuffer c = [] \<and>
     reg_get (i_statusRegister c) s = i2c_status (i2c_enabled c s) (i_busy c) False (i_lastAck c))"

lemma i2c_wf_distinct:
  assumes "i2c_wf c s"
  shows "i_dataRegister c \<noteq> i_statusRegister c" "i_dataRegister c \<noteq> i_controlRegister c"
    "i_dataRegister c \<noteq> i_addrRegister c" "i_statusRegister c \<noteq> i_controlRegister c"
    "i_statusRegister c \<noteq> i_addrRegister c" "i_controlRegister c \<noteq> i_addrRegister c"
  using assms by (simp_all add: i2c_wf_def)

lemmas i2c_wf_neqs = i2c_wf_distinct i2c_wf_distinct [symmetric]

lemma i2c_inv_apply:
  assumes "i2c_inv st"
  shows "i2c_inv (i2c_apply cls q st)"
proof -
  obtain c ds s where st: "st = (c, ds, s)" by (cases st)
  have wf: "i2c_wf c s" using assms by (simp add: st i2c_inv_def)
  note neqs = i2c_wf_neqs [OF wf]
  have wf': "i2c_wf c (reg_put r v t) = i2c_wf c t" "i2c_wf c (reg_rst r t) = i2c_wf c t" for r v and t :: "'b mmio_st_scheme"
    by (simp_all add: i2c_wf_def)
  have ini: "m_initialValue (reg_objs s (i_controlRegister c)) = 0" using wf by (simp add: i2c_wf_def)
  show ?thesis
  proof (cases q)
    case (IStart r)
    then show ?thesis
      using assms neqs
      by (auto simp: st i2c_inv_def i2c_start_def i2c_updateStatusRegister_def Let_def
          i2c_enabled_def i2c_wf_def split_beta split: option.splits dest: find_SomeD)
  next
    case (IWrite b)
    then show ?thesis
      using assms neqs
      by (auto simp: st i2c_inv_def i2c_writeByte_def i2c_updateStatusRegister_def Let_def
          i2c_enabled_def i2c_wf_def split_beta split: option.splits)
  next
    case IRead
    then show ?thesis
      using assms neqs
      by (auto simp: st i2c_inv_def i2c_readByte_def i2c_updateStatusRegister_def Let_def
          i2c_enabled_def i2c_wf_def split_beta split: option.splits list.splits)
  next
    case IStop
    then show ?thesis
      using assms neqs
      by (auto simp: st i2c_inv_def i2c_stop_def i2c_updateStatusRegister_def Let_def
          i2c_enabled_def i2c_wf_def split: option.splits)
  next
    case (IAttach d)
    then show ?thesis
      using assms by (auto simp: st i2c_inv_def i2c_attachDevice_def i2c_enabled_def i2c_wf_def split: option.splits)
  next
    case (IDetach d)
    then show ?thesis
      using assms by (auto simp: st i2c_inv_def i2c_detachDevice_def i2c_enabled_def i2c_wf_def Let_def
          split: option.splits)
  next
    case IEnable
    then show ?thesis
      using assms neqs by (auto simp: st i2c_inv_def i2c_enable_def i2c_updateStatusRegister_def Let_def
          i2c_enabled_def i2c_wf_def flag_simps split: option.splits)
  next
    case IDisable
    then show ?thesis
      using assms neqs by (auto simp: st i2c_inv_def i2c_disable_def i2c_updateStatusRegister_def Let_def
          i2c_enabled_def i2c_wf_def split: option.splits)
  next
    case (ISetAddress a)
    then show ?thesis
      using assms neqs by (auto simp: st i2c_inv_def i2c_setSlaveAddress_def i2c_enabled_def i2c_wf_def split: option.splits)
  next
    case IReset
    then show ?thesis
      using assms neqs ini by (auto simp: st i2c_inv_def i2c_reset_def i2c_disable_def
          i2c_updateStatusRegister_def Let_def i2c_enabled_def i2c_wf_def)
  qed
qed

interpretation i2c_runs: stepper "i2c_apply cls" i2c_inv for cls
  by unfold_locales (rule i2c_inv_apply)

lemma i2c_init_inv: "i2c_init base a s = ret c s' \<Longrightarrow> i2c_inv (c, ds, s')"
  by (auto simp: i2c_init_def make_register_def Let_def i2c_inv_def i2c_wf_def register_init_def
      i2c_updateStatusRegister_def i2c_enabled_def split: prod.splits if_splits dest!: register_chain_fresh)

section \<open>Transactions\<close>

fun i2c_writes ::
  "'d i2c_class \<Rightarrow> u8 list \<Rightarrow> ('d, 'z mmio_st_scheme) on_i2c \<Rightarrow>
   (bool list, ('d, 'z mmio_st_scheme) on_i2c) outcome" where
  "i2c_writes cls [] st = ret [] st"
| "i2c_writes cls (b # bs) st =
     and_then (i2c_writeByte cls b st) (\<lambda>a st. and_then (i2c_writes cls bs st) (\<lambda>as. ret (a # as)))"

fun i2c_reads ::
  "'d i2c_class \<Rightarrow> nat \<Rightarrow> ('d, 'z mmio_st_scheme) on_i2c \<Rightarrow>
   (u8 list, ('d, 'z mmio_st_scheme) on_i2c) outcome" where
  "i2c_reads cls 0 st = ret [] st"
| "i2c_reads cls (Suc n) st =
     and_then (i2c_readByte cls st) (\<lambda>b st. and_then (i2c_reads cls n st) (\<lambda>bs. ret (b # bs)))"

text \<open>The master holds slave \<open>i\<close> in a running transaction.\<close>

definition i2c_holds :: "nat \<Rightarrow> ('d, 'z mmio_st_scheme) on_i2c \<Rightarrow> bool" where
  "i2c_holds i = (\<lambda>(c, ds, s). i2c_wf c s \<and> i2c_enabled c s \<and> i_busy c \<and> i_activeDevice c = Some i \<and>
     i_rxBuffer c = [])"

lemma i2c_writeByte_holds:
  assumes "i2c_holds i (c, ds, s)"
  shows "\<exists>c' s'. i2c_writeByte cls b (c, ds, s) =
      ret (fst (dv_onWrite cls b (ds i))) (c', ds(i := snd (dv_onWrite cls b (ds i))), s') \<and>
    i2c_holds i (c', ds(i := snd (dv_onWrite cls b (ds i))), s')"
proof -
  have wf: "i2c_wf c s" using assms by (simp add: i2c_holds_def)
  show ?thesis
    using assms i2c_wf_neqs [OF wf]
    by (simp add: i2c_writeByte_def i2c_holds_def i2c_enabled_def i2c_updateStatusRegister_def Let_def
        split_beta i2c_wf_def)
qed

lemma i2c_readByte_holds:
  assumes "i2c_holds i (c, ds, s)"
  shows "\<exists>s'. i2c_readByte cls (c, ds, s) =
      ret (fst (dv_onRead cls (ds i))) (c, ds(i := snd (dv_onRead cls (ds i))), s') \<and>
    i2c_holds i (c, ds(i := snd (dv_onRead cls (ds i))), s')"
proof -
  have wf: "i2c_wf c s" using assms by (simp add: i2c_holds_def)
  show ?thesis
    using assms i2c_wf_neqs [OF wf]
    by (simp add: i2c_readByte_def i2c_holds_def i2c_enabled_def i2c_updateStatusRegister_def Let_def
        split_beta i2c_wf_def)
qed

lemma i2c_writes_holds:
  assumes "i2c_holds i (c, ds, s)"
  shows "\<exists>c' s'. i2c_writes cls bs (c, ds, s) =
      ret (fst (write_all (dv_onWrite cls) bs (ds i)))
        (c', ds(i := snd (write_all (dv_onWrite cls) bs (ds i))), s') \<and>
    i2c_holds i (c', ds(i := snd (write_all (dv_onWrite cls) bs (ds i))), s')"
  using assms
proof (induction bs arbitrary: c ds s)
  case (Cons b bs)
  obtain a d where d: "dv_onWrite cls b (ds i) = (a, d)" by (cases "dv_onWrite cls b (ds i)")
  let ?ds = "ds(i := d)"
  from i2c_writeByte_holds [OF Cons.prems, of cls b] d
  obtain c1 s1 where w: "i2c_writeByte cls b (c, ds, s) = ret a (c1, ?ds, s1)"
    and h: "i2c_holds i (c1, ?ds, s1)" by auto
  from Cons.IH [of c1 ?ds s1, OF h] obtain c2 s2 where
    "i2c_writes cls bs (c1, ?ds, s1) = ret (fst (write_all (dv_onWrite cls) bs d))
        (c2, ds(i := snd (write_all (dv_onWrite cls) bs d)), s2)"
    "i2c_holds i (c2, ds(i := snd (write_all (dv_onWrite cls) bs d)), s2)"
    by (auto simp: fun_upd_def cong: if_cong)
  with w d show ?case by (intro exI [of _ c2] exI [of _ s2]) (simp add: split_beta fun_upd_def)
qed auto

lemma i2c_reads_holds:
  assumes "i2c_holds i (c, ds, s)"
  shows "\<exists>s'. i2c_reads cls n (c, ds, s) =
      ret (fst (read_all (dv_onRead cls) n (ds i)))
        (c, ds(i := snd (read_all (dv_onRead cls) n (ds i))), s') \<and>
    i2c_holds i (c, ds(i := snd (read_all (dv_onRead cls) n (ds i))), s')"
  using assms
proof (induction n arbitrary: ds s)
  case (Suc n)
  obtain b d where d: "dv_onRead cls (ds i) = (b, d)" by (cases "dv_onRead cls (ds i)")
  let ?ds = "ds(i := d)"
  from i2c_readByte_holds [OF Suc.prems, of cls] d
  obtain s1 where w: "i2c_readByte cls (c, ds, s) = ret b (c, ?ds, s1)"
    and h: "i2c_holds i (c, ?ds, s1)" by auto
  from Suc.IH [of ?ds s1, OF h] obtain s2 where
    "i2c_reads cls n (c, ?ds, s1) = ret (fst (read_all (dv_onRead cls) n d))
        (c, ds(i := snd (read_all (dv_onRead cls) n d)), s2)"
    "i2c_holds i (c, ds(i := snd (read_all (dv_onRead cls) n d)), s2)"
    by (auto simp: fun_upd_def cong: if_cong)
  with w d show ?case by (intro exI [of _ s2]) (simp add: split_beta fun_upd_def)
qed auto

text \<open>A START addresses the first attached slave of the target address.\<close>

lemma i2c_start_holds:
  assumes "i2c_inv (c, ds, s)" and "i2c_enabled c s"
    and "find (\<lambda>i. dv_address cls (ds i) = i2c_slaveAddress c s) (i_devices c) = Some i"
    and "dv_onStart cls r (ds i) = (True, ds i)"
  shows "\<exists>c' s'. i2c_start cls r (c, ds, s) = ret True (c', ds, s') \<and> i2c_holds i (c', ds, s')"
proof -
  have wf: "i2c_wf c s" and rx: "i_rxBuffer c = []" using assms(1) by (simp_all add: i2c_inv_def)
  have "i2c_slaveAddress (c\<lparr>i_busy := True, i_isReadMode := r\<rparr>) s = i2c_slaveAddress c s"
    by (simp add: i2c_slaveAddress_def)
  then show ?thesis
    using assms(2-4) rx wf i2c_wf_neqs [OF wf]
    by (simp add: i2c_start_def i2c_holds_def i2c_enabled_def i2c_updateStatusRegister_def Let_def
        split_beta i2c_wf_def)
qed

definition demo_eeprom :: "nat \<Rightarrow> sim_i2c" where
  "demo_eeprom i = (if i = 0 then sim_i2c_init 0x68 1
     else sim_i2c_queueResponseByte 0xBB (sim_i2c_queueResponseByte 0xAA (sim_i2c_init 0x50 7)))"

definition demo_i2c :: "(sim_i2c, mmio_st) on_i2c" where
  "demo_i2c = (let (r, s) = i2c_init 0x40006000 0x50
     \<lparr>reg_objs = \<lambda>_. register_init 0 0, next_ref = 0, m_registers = []\<rparr>
     in i2c_enable (i2c_attachDevice (Some 1) (i2c_attachDevice (Some 0) (projr r)), demo_eeprom, s))"

lemma demo_i2c_ok:
  "i2c_inv demo_i2c" "i2c_enabled (fst demo_i2c) (snd (snd demo_i2c))"
  "find (\<lambda>i. si_address (fst (snd demo_i2c) i) = i2c_slaveAddress (fst demo_i2c) (snd (snd demo_i2c)))
     (i_devices (fst demo_i2c)) = Some 1"
  by code_simp+

lemma demo_i2c_devs: "fst (snd demo_i2c) = demo_eeprom"
  by (simp add: demo_i2c_def i2c_enable_def Let_def split_beta)

section \<open>Properties\<close>

text \<open>
  C30. The bus discipline is an invariant of every sequence of operations and every class of slaves:
  the bus is busy only while the controller is enabled, a slave is active only inside a transaction
  and while attached, none is attached twice, and STATUS shows the truth. Since nothing ever fills
  the receive buffer, \<^verbatim>\<open>hasData\<close> is always false and a read outside a transaction throws.
\<close>

theorem i2c_discipline:
  assumes "i2c_inv st" and "fold (i2c_apply cls) ops st = (c, ds, s)"
  shows "i2c_inv (c, ds, s) \<and> \<not> i2c_hasData c \<and>
    (i_activeDevice c = None \<longrightarrow> i2c_readByte cls (c, ds, s) =
       throw (if i2c_enabled c s then UnderflowError else RuntimeError) (c, ds, s)) \<and>
    (\<not> i_busy c \<longrightarrow> i2c_writeByte cls b (c, ds, s) = throw RuntimeError (c, ds, s))"
proof -
  have "i2c_inv (c, ds, s)" using i2c_runs.run_keeps [OF assms(1), of cls ops] assms(2) by simp
  then show ?thesis
    by (simp add: i2c_hasData_def i2c_readByte_def i2c_writeByte_def) (simp add: i2c_inv_def)
qed

theorem i2c_discipline_witness:
  "i2c_inv (fold (i2c_apply sim_i2c_class) [IStart False, IWrite 3, IDetach (Some 1), IWrite 4, IStop] demo_i2c)"
proof -
  let ?st = "fold (i2c_apply sim_i2c_class) [IStart False, IWrite 3, IDetach (Some 1), IWrite 4, IStop] demo_i2c"
  have "?st = (fst ?st, fst (snd ?st), snd (snd ?st))" by simp
  from i2c_discipline [OF demo_i2c_ok(1) this] show ?thesis by simp
qed

text \<open>
  C29. A write transaction reaches the addressed slave and no other. On an enabled controller whose
  first attached slave with the target address acknowledges, START, any bytes and STOP report an
  acknowledge each, the slave has logged exactly those bytes in order, the other slaves are
  unchanged, and the bus is idle.
\<close>

theorem i2c_write_transaction:
  assumes "i2c_inv (c, ds, s)" and "i2c_enabled c s"
    and "find (\<lambda>i. si_address (ds i) = i2c_slaveAddress c s) (i_devices c) = Some i"
    and "si_ackEnabled (ds i)"
  shows "let (r, st) = and_then (i2c_start sim_i2c_class False (c, ds, s)) (\<lambda>_. i2c_writes sim_i2c_class bs);
      (c', ds', s') = i2c_stop sim_i2c_class st
    in r = Inr (map (\<lambda>_. True) bs) \<and> si_receivedBytes (ds' i) = si_receivedBytes (ds i) @ bs \<and>
       (\<forall>j. j \<noteq> i \<longrightarrow> ds' j = ds j) \<and> \<not> i_busy c' \<and> i_activeDevice c' = None"
proof -
  have "dv_address sim_i2c_class = si_address" by (simp add: sim_i2c_class_def)
  with i2c_start_holds [OF assms(1,2), of sim_i2c_class i False] assms(3,4) sim_i2c.start_acks
  obtain c1 s1 where st: "i2c_start sim_i2c_class False (c, ds, s) = ret True (c1, ds, s1)"
    and h: "i2c_holds i (c1, ds, s1)" by auto
  let ?w = "write_all (dv_onWrite sim_i2c_class) bs (ds i)"
  from i2c_writes_holds [OF h, of sim_i2c_class bs] obtain c2 s2 where
    w: "i2c_writes sim_i2c_class bs (c1, ds, s1) = ret (fst ?w) (c2, ds(i := snd ?w), s2)"
    and h2: "i2c_holds i (c2, ds(i := snd ?w), s2)" by blast
  show ?thesis
    using st w h2 sim_i2c.write_all_willing [OF assms(4), of bs]
    by (simp add: i2c_stop_def i2c_holds_def Let_def sim_i2c.stop_keeps)
qed

theorem i2c_write_transaction_witness:
  "si_receivedBytes (fst (snd (i2c_stop sim_i2c_class (snd (and_then (i2c_start sim_i2c_class False demo_i2c)
     (\<lambda>_. i2c_writes sim_i2c_class [1, 2]))))) 1) = [1, 2]"
  using i2c_write_transaction [of "fst demo_i2c" "fst (snd demo_i2c)" "snd (snd demo_i2c)" 1 "[1, 2]"] demo_i2c_ok
  by (simp only: prod.collapse Let_def split_beta)
    (simp add: demo_i2c_devs demo_eeprom_def sim_i2c_queueResponseByte_def sim_i2c_init_def)

text \<open>
  A read transaction returns the slave's queued bytes in order and then its default byte. A
  START to an address nobody has, or to an unwilling slave, is not acknowledged and leaves no slave
  active.
\<close>

lemma i2c_read_transaction:
  assumes "i2c_inv (c, ds, s)" and "i2c_enabled c s"
  shows "case find (\<lambda>i. si_address (ds i) = i2c_slaveAddress c s) (i_devices c) of
      None \<Rightarrow> fst (i2c_start sim_i2c_class True (c, ds, s)) = Inr False \<and>
        i_activeDevice (fst (snd (i2c_start sim_i2c_class True (c, ds, s)))) = None
    | Some i \<Rightarrow>
        if si_ackEnabled (ds i)
        then fst (and_then (i2c_start sim_i2c_class True (c, ds, s)) (\<lambda>_. i2c_reads sim_i2c_class n)) =
          Inr (take n (si_responseQueue (ds i)) @
            replicate (n - length (si_responseQueue (ds i))) (si_defaultResponse (ds i)))
        else fst (i2c_start sim_i2c_class True (c, ds, s)) = Inr False \<and>
          i_activeDevice (fst (snd (i2c_start sim_i2c_class True (c, ds, s)))) = None"
proof (cases "find (\<lambda>i. si_address (ds i) = i2c_slaveAddress c s) (i_devices c)")
  case None
  then show ?thesis
    using assms(2) by (simp add: i2c_start_def i2c_slaveAddress_def i2c_enabled_def Let_def sim_i2c_class_def)
next
  case (Some i)
  show ?thesis
  proof (cases "si_ackEnabled (ds i)")
    case True
    have "dv_address sim_i2c_class = si_address" by (simp add: sim_i2c_class_def)
    with i2c_start_holds [OF assms, of sim_i2c_class i True] Some True sim_i2c.start_acks
    obtain c1 s1 where st: "i2c_start sim_i2c_class True (c, ds, s) = ret True (c1, ds, s1)"
      and h: "i2c_holds i (c1, ds, s1)" by auto
    from i2c_reads_holds [OF h, of sim_i2c_class n] st Some True show ?thesis
      by (auto simp: sim_i2c.read_all_gives)
  next
    case False
    with Some show ?thesis
      using assms(2) by (simp add: i2c_start_def i2c_slaveAddress_def i2c_enabled_def Let_def
          sim_i2c_class_def sim_i2c_onStart_def)
  qed
qed

end
