(* ===== verification/Interrupts.thy ===== *)
theory Interrupts
  imports Mmio
begin

text \<open>
  The interrupt controller of \<^verbatim>\<open>kernel/interrupt_controller.hpp\<close>: 32 lines with an ENABLE and a
  PENDING register on the bus, private arrays of registrations, priorities and handlers, and
  \<^verbatim>\<open>dispatch\<close>, which serves the pending line of the best priority. An \<^verbatim>\<open>ISRHandler\<close> closure is
  a handler number; what it does is the argument \<open>run\<close> of \<open>ic_dispatch\<close>.
\<close>

section \<open>State\<close>

definition MAX_INTERRUPTS :: nat where
  "MAX_INTERRUPTS = 32"

record ic_ctl =
  ic_base :: address
  ic_enableRegister :: nat
  ic_pendingRegister :: nat
  ic_priorityRegister :: nat
  ic_registered :: "bool list"
  ic_priorities :: "u8 list"
  ic_handlers :: "nat option list"

record irq_st = mmio_st +
  ic :: ic_ctl

definition ic_init :: "address \<Rightarrow> 'z mmio_st_scheme \<Rightarrow> (ic_ctl, 'z mmio_st_scheme) outcome" where
  "ic_init base s =
     (let (en, s) = make_register (base + 0x00) 0 s;
          (pe, s) = make_register (base + 0x04) 0 s;
          (pr, s) = make_register (base + 0x08) 0 s;
          (ok, s) = register_chain [en, pe, pr] s
      in if \<not> ok then throw RuntimeError s
         else ret \<lparr>ic_base = base, ic_enableRegister = en, ic_pendingRegister = pe,
                   ic_priorityRegister = pr,
                   ic_registered = replicate MAX_INTERRUPTS False,
                   ic_priorities = replicate MAX_INTERRUPTS 128,
                   ic_handlers = replicate MAX_INTERRUPTS None\<rparr> s)"

text \<open>\<^verbatim>\<open>enableAddress\<close>, \<^verbatim>\<open>pendingAddress\<close> and \<^verbatim>\<open>priorityAddress\<close>.\<close>

definition ic_addresses :: "ic_ctl \<Rightarrow> address list" where
  "ic_addresses c = [ic_base c + 0x00, ic_base c + 0x04, ic_base c + 0x08]"

definition ic_destroy :: "ic_ctl \<Rightarrow> 'z mmio_st_scheme \<Rightarrow> 'z mmio_st_scheme" where
  "ic_destroy c s = unregister_all (ic_addresses c) s"

section \<open>Operations\<close>

definition ic_validId :: "u8 \<Rightarrow> bool" where
  "ic_validId i \<longleftrightarrow> unat i < MAX_INTERRUPTS"

definition ic_isRegistered :: "u8 \<Rightarrow> 'z irq_st_scheme \<Rightarrow> bool" where
  "ic_isRegistered i s = (if \<not> ic_validId i then False else ic_registered (ic s) ! unat i)"

definition ic_registerInterrupt :: "u8 \<Rightarrow> 'z irq_st_scheme \<Rightarrow> (bool, 'z irq_st_scheme) outcome" where
  "ic_registerInterrupt i s =
     (if \<not> ic_validId i then throw OutOfRange s
      else if ic_registered (ic s) ! unat i then ret False s
      else ret True (s\<lparr>ic := (ic s)\<lparr>ic_registered := (ic_registered (ic s))[unat i := True]\<rparr>\<rparr>))"

definition ic_enable :: "u8 \<Rightarrow> 'z irq_st_scheme \<Rightarrow> (unit, 'z irq_st_scheme) outcome" where
  "ic_enable i s =
     (if \<not> ic_validId i then throw OutOfRange s
      else if \<not> ic_registered (ic s) ! unat i then ret () s
      else let r = ic_enableRegister (ic s) in ret () (reg_put r (set_flag (reg_get r s) (unat i)) s))"

definition ic_disable :: "u8 \<Rightarrow> 'z irq_st_scheme \<Rightarrow> (unit, 'z irq_st_scheme) outcome" where
  "ic_disable i s =
     (if \<not> ic_validId i then throw OutOfRange s
      else if \<not> ic_registered (ic s) ! unat i then ret () s
      else let r = ic_enableRegister (ic s) in ret () (reg_put r (clear_flag (reg_get r s) (unat i)) s))"

definition ic_enabled :: "u8 \<Rightarrow> 'z irq_st_scheme \<Rightarrow> (bool, 'z irq_st_scheme) outcome" where
  "ic_enabled i s =
     (if \<not> ic_validId i then throw OutOfRange s
      else ret (test_flag (reg_get (ic_enableRegister (ic s)) s) (unat i)) s)"

definition ic_trigger :: "u8 \<Rightarrow> 'z irq_st_scheme \<Rightarrow> (unit, 'z irq_st_scheme) outcome" where
  "ic_trigger i s =
     (if \<not> ic_validId i then throw OutOfRange s
      else if \<not> ic_registered (ic s) ! unat i then ret () s
      else let r = ic_pendingRegister (ic s) in ret () (reg_put r (set_flag (reg_get r s) (unat i)) s))"

definition ic_clear :: "u8 \<Rightarrow> 'z irq_st_scheme \<Rightarrow> (unit, 'z irq_st_scheme) outcome" where
  "ic_clear i s =
     (if \<not> ic_validId i then throw OutOfRange s
      else if \<not> ic_registered (ic s) ! unat i then ret () s
      else let r = ic_pendingRegister (ic s) in ret () (reg_put r (clear_flag (reg_get r s) (unat i)) s))"

definition ic_pending :: "u8 \<Rightarrow> 'z irq_st_scheme \<Rightarrow> (bool, 'z irq_st_scheme) outcome" where
  "ic_pending i s =
     (if \<not> ic_validId i then throw OutOfRange s
      else ret (test_flag (reg_get (ic_pendingRegister (ic s)) s) (unat i)) s)"

definition ic_unregisterInterrupt :: "u8 \<Rightarrow> 'z irq_st_scheme \<Rightarrow> (bool, 'z irq_st_scheme) outcome" where
  "ic_unregisterInterrupt i s =
     (if \<not> ic_validId i then throw OutOfRange s
      else if \<not> ic_registered (ic s) ! unat i then ret False s
      else and_then (ic_disable i s) (\<lambda>_ s. and_then (ic_clear i s) (\<lambda>_ s.
        ret True (s\<lparr>ic := (ic s)
          \<lparr>ic_registered := (ic_registered (ic s))[unat i := False],
           ic_handlers := (ic_handlers (ic s))[unat i := None],
           ic_priorities := (ic_priorities (ic s))[unat i := 128]\<rparr>\<rparr>))))"

definition ic_setPriority :: "u8 \<Rightarrow> u8 \<Rightarrow> 'z irq_st_scheme \<Rightarrow> (unit, 'z irq_st_scheme) outcome" where
  "ic_setPriority i p s =
     (if \<not> ic_validId i then throw OutOfRange s
      else if \<not> ic_registered (ic s) ! unat i then ret () s
      else ret () (s\<lparr>ic := (ic s)\<lparr>ic_priorities := (ic_priorities (ic s))[unat i := p]\<rparr>\<rparr>))"

definition ic_getPriority :: "u8 \<Rightarrow> 'z irq_st_scheme \<Rightarrow> (u8, 'z irq_st_scheme) outcome" where
  "ic_getPriority i s =
     (if \<not> ic_validId i then throw OutOfRange s else ret (ic_priorities (ic s) ! unat i) s)"

definition ic_registerHandler ::
  "u8 \<Rightarrow> nat option \<Rightarrow> 'z irq_st_scheme \<Rightarrow> (bool, 'z irq_st_scheme) outcome" where
  "ic_registerHandler i h s =
     (if \<not> ic_validId i then throw OutOfRange s
      else if \<not> ic_registered (ic s) ! unat i \<or> h = None then ret False s
      else ret True (s\<lparr>ic := (ic s)\<lparr>ic_handlers := (ic_handlers (ic s))[unat i := h]\<rparr>\<rparr>))"

definition ic_unregisterHandler :: "u8 \<Rightarrow> 'z irq_st_scheme \<Rightarrow> (bool, 'z irq_st_scheme) outcome" where
  "ic_unregisterHandler i s =
     (if \<not> ic_validId i then throw OutOfRange s
      else if \<not> ic_registered (ic s) ! unat i then ret False s
      else ret True (s\<lparr>ic := (ic s)\<lparr>ic_handlers := (ic_handlers (ic s))[unat i := None]\<rparr>\<rparr>))"

definition ic_reset :: "'z irq_st_scheme \<Rightarrow> 'z irq_st_scheme" where
  "ic_reset s =
     (let s = reg_rst (ic_enableRegister (ic s)) s;
          s = reg_rst (ic_pendingRegister (ic s)) s;
          s = reg_rst (ic_priorityRegister (ic s)) s
      in s\<lparr>ic := (ic s)\<lparr>ic_registered := replicate MAX_INTERRUPTS False,
                        ic_priorities := replicate MAX_INTERRUPTS 128,
                        ic_handlers := replicate MAX_INTERRUPTS None\<rparr>\<rparr>)"

section \<open>Dispatch\<close>

text \<open>
  The scan over the 32 lines keeps the best line so far (\<open>None\<close> for the \<^verbatim>\<open>-1\<close> of the code) and
  its priority value.
\<close>

definition dispatch_scan ::
  "u32 \<Rightarrow> nat option list \<Rightarrow> u8 list \<Rightarrow> nat \<Rightarrow> nat option \<times> u8 \<Rightarrow> nat option \<times> u8" where
  "dispatch_scan active hs ps i best =
     (if test_flag active i \<and> hs ! i \<noteq> None
      then if fst best = None \<or> ps ! i < snd best then (Some i, ps ! i) else best
      else best)"

definition dispatch_pick :: "u32 \<Rightarrow> nat option list \<Rightarrow> u8 list \<Rightarrow> nat option" where
  "dispatch_pick active hs ps =
     fst (fold (dispatch_scan active hs ps) [0..<MAX_INTERRUPTS] (None, 255))"

definition ic_active :: "'z irq_st_scheme \<Rightarrow> u32" where
  "ic_active s = reg_get (ic_enableRegister (ic s)) s AND reg_get (ic_pendingRegister (ic s)) s"

definition ic_dispatch ::
  "(nat \<Rightarrow> 'z irq_st_scheme \<Rightarrow> (unit, 'z irq_st_scheme) outcome) \<Rightarrow>
   'z irq_st_scheme \<Rightarrow> (bool, 'z irq_st_scheme) outcome" where
  "ic_dispatch run s =
     (if ic_active s = 0 then ret False s
      else case dispatch_pick (ic_active s) (ic_handlers (ic s)) (ic_priorities (ic s)) of
        None \<Rightarrow> ret False s
      | Some t \<Rightarrow> and_then (ic_clear (of_nat t) s) (\<lambda>_ s.
          case ic_handlers (ic s) ! t of
            None \<Rightarrow> ret True s
          | Some h \<Rightarrow> and_then (run h s) (\<lambda>_. ret True)))"

section \<open>The scan picks the best candidate\<close>

definition candidate :: "u32 \<Rightarrow> nat option list \<Rightarrow> nat \<Rightarrow> bool" where
  "candidate active hs i \<longleftrightarrow> i < MAX_INTERRUPTS \<and> test_flag active i \<and> hs ! i \<noteq> None"

text \<open>Lower priority values win, and among equal values the lower line number.\<close>

definition beats :: "u8 list \<Rightarrow> nat \<Rightarrow> nat \<Rightarrow> bool" where
  "beats ps i j \<longleftrightarrow> ps ! i < ps ! j \<or> ps ! i = ps ! j \<and> i \<le> j"

definition scan_ok :: "u32 \<Rightarrow> nat option list \<Rightarrow> u8 list \<Rightarrow> nat \<Rightarrow> nat option \<times> u8 \<Rightarrow> bool" where
  "scan_ok active hs ps n b \<longleftrightarrow>
     (case fst b of
        None \<Rightarrow> \<forall>j<n. \<not> candidate active hs j
      | Some t \<Rightarrow> t < n \<and> candidate active hs t \<and> snd b = ps ! t \<and>
          (\<forall>j<n. candidate active hs j \<longrightarrow> beats ps t j))"

lemma scan_ok_step:
  "n < MAX_INTERRUPTS \<Longrightarrow> scan_ok active hs ps n b \<Longrightarrow>
     scan_ok active hs ps (Suc n) (dispatch_scan active hs ps n b)"
  by (cases b; cases "fst b")
    (auto simp: scan_ok_def dispatch_scan_def candidate_def beats_def less_Suc_eq)

lemma scan_ok_fold:
  "n \<le> MAX_INTERRUPTS \<Longrightarrow>
     scan_ok active hs ps n (fold (dispatch_scan active hs ps) [0..<n] (None, 255))"
  by (induction n) (simp add: scan_ok_def, simp add: scan_ok_step)

lemma dispatch_pick_None:
  "dispatch_pick active hs ps = None \<longleftrightarrow> (\<forall>j. \<not> candidate active hs j)"
  using scan_ok_fold [of MAX_INTERRUPTS active hs ps]
  by (auto simp: dispatch_pick_def scan_ok_def split: option.splits) (auto simp: candidate_def)

lemma dispatch_pick_Some:
  "dispatch_pick active hs ps = Some t \<longleftrightarrow>
     candidate active hs t \<and> (\<forall>j. candidate active hs j \<longrightarrow> beats ps t j)"
proof -
  have le: "beats ps t u \<Longrightarrow> beats ps u t \<Longrightarrow> t = u" for t u
    by (auto simp: beats_def)
  show ?thesis
    using scan_ok_fold [of MAX_INTERRUPTS active hs ps] le
    by (auto simp: dispatch_pick_def scan_ok_def candidate_def split: option.splits)
qed

section \<open>Invariants\<close>

lemma ic_reg_frame [simp]: "ic (reg_put r v s) = ic s" "ic (reg_rst r s) = ic s"
  by (simp_all add: reg_put_def reg_rst_def)

lemma reg_get_ic [simp]: "reg_get r (s\<lparr>ic := c\<rparr>) = reg_get r s"
  by (simp add: reg_get_def)

text \<open>
  The private arrays have 32 entries, the three registers are different objects with reset value
  zero, and an unregistered line has no handler and the default priority.
\<close>

definition ic_inv :: "'z irq_st_scheme \<Rightarrow> bool" where
  "ic_inv s \<longleftrightarrow>
     length (ic_registered (ic s)) = MAX_INTERRUPTS \<and>
     length (ic_priorities (ic s)) = MAX_INTERRUPTS \<and>
     length (ic_handlers (ic s)) = MAX_INTERRUPTS \<and>
     distinct [ic_enableRegister (ic s), ic_pendingRegister (ic s), ic_priorityRegister (ic s)] \<and>
     m_initialValue (reg_objs s (ic_enableRegister (ic s))) = 0 \<and>
     m_initialValue (reg_objs s (ic_pendingRegister (ic s))) = 0 \<and>
     (\<forall>i<MAX_INTERRUPTS. \<not> ic_registered (ic s) ! i \<longrightarrow>
        ic_handlers (ic s) ! i = None \<and> ic_priorities (ic s) ! i = 128)"

text \<open>Enable and pending bits are set on registered lines only.\<close>

definition ic_lines_ok :: "'z irq_st_scheme \<Rightarrow> bool" where
  "ic_lines_ok s \<longleftrightarrow>
     (\<forall>i<MAX_INTERRUPTS. \<not> ic_registered (ic s) ! i \<longrightarrow>
        \<not> test_flag (reg_get (ic_enableRegister (ic s)) s) i \<and>
        \<not> test_flag (reg_get (ic_pendingRegister (ic s)) s) i)"

datatype ic_op =
  RegisterIrq u8 | UnregisterIrq u8 | EnableIrq u8 | DisableIrq u8 | TriggerIrq u8 | ClearIrq u8
| SetPriority u8 u8 | RegisterHandler u8 "nat option" | UnregisterHandler u8
| ResetIc | BusWrite address u32

fun ic_apply :: "ic_op \<Rightarrow> 'z irq_st_scheme \<Rightarrow> 'z irq_st_scheme" where
  "ic_apply (RegisterIrq i) s = snd (ic_registerInterrupt i s)"
| "ic_apply (UnregisterIrq i) s = snd (ic_unregisterInterrupt i s)"
| "ic_apply (EnableIrq i) s = snd (ic_enable i s)"
| "ic_apply (DisableIrq i) s = snd (ic_disable i s)"
| "ic_apply (TriggerIrq i) s = snd (ic_trigger i s)"
| "ic_apply (ClearIrq i) s = snd (ic_clear i s)"
| "ic_apply (SetPriority i p) s = snd (ic_setPriority i p s)"
| "ic_apply (RegisterHandler i h) s = snd (ic_registerHandler i h s)"
| "ic_apply (UnregisterHandler i) s = snd (ic_unregisterHandler i s)"
| "ic_apply ResetIc s = ic_reset s"
| "ic_apply (BusWrite a v) s = snd (mmio_write a v s)"

lemmas ic_op_defs =
  ic_registerInterrupt_def ic_unregisterInterrupt_def ic_enable_def ic_disable_def ic_trigger_def
  ic_clear_def ic_setPriority_def ic_registerHandler_def ic_unregisterHandler_def ic_reset_def
  mmio_write_def

lemma ic_inv_apply [inv_intros]: "ic_inv s \<Longrightarrow> ic_inv (ic_apply q s)"
  by (cases q)
    (auto simp: ic_op_defs ic_inv_def Let_def nth_list_update ic_validId_def
      split: option.splits)

interpretation ic_runs: stepper ic_apply ic_inv
  by unfold_locales (rule ic_inv_apply)

lemma ic_lines_apply:
  assumes "ic_inv s" and "ic_lines_ok s" and "\<And>a v. q \<noteq> BusWrite a v"
  shows "ic_lines_ok (ic_apply q s)"
  using assms
  by (cases q)
    (auto simp: ic_op_defs ic_inv_def ic_lines_ok_def Let_def nth_list_update ic_validId_def
      flag_simps MAX_INTERRUPTS_def split: option.splits if_splits)

section \<open>Construction\<close>

lemma ic_init_establishes:
  assumes "ic_init base s = ret c s'"
  shows "ic_inv (s'\<lparr>ic := c\<rparr>)" and "ic_lines_ok (s'\<lparr>ic := c\<rparr>)"
proof -
  have "ic_inv (s'\<lparr>ic := c\<rparr>) \<and> ic_lines_ok (s'\<lparr>ic := c\<rparr>)"
    using assms
    by (auto simp: ic_init_def make_register_def Let_def ic_inv_def ic_lines_ok_def
        register_init_def reg_get_def split: prod.splits if_splits dest!: register_chain_fresh)
  then show "ic_inv (s'\<lparr>ic := c\<rparr>)" and "ic_lines_ok (s'\<lparr>ic := c\<rparr>)" by simp_all
qed

text \<open>A controller at \<^verbatim>\<open>0x40002000\<close> on an empty bus, for the concrete instances below.\<close>

definition blank_ic :: ic_ctl where
  "blank_ic = \<lparr>ic_base = 0, ic_enableRegister = 0, ic_pendingRegister = 0, ic_priorityRegister = 0,
     ic_registered = [], ic_priorities = [], ic_handlers = []\<rparr>"

definition demo_ic :: irq_st where
  "demo_ic =
     (let (r, s) = ic_init 0x40002000
            \<lparr>reg_objs = \<lambda>_. register_init 0 0, next_ref = 0, m_registers = [], ic = blank_ic\<rparr>
      in s\<lparr>ic := projr r\<rparr>)"

lemma demo_ic_ok: "ic_inv demo_ic" "ic_lines_ok demo_ic"
proof -
  let ?b = "\<lparr>reg_objs = \<lambda>_. register_init 0 0, next_ref = 0, m_registers = [], ic = blank_ic\<rparr>"
  obtain c s where "ic_init 0x40002000 ?b = ret c s"
    by (auto simp: ic_init_def make_register_def Let_def register_chain.simps
        mmio_registerRegister_def mmio_contains_def register_init_def split: prod.splits)
  with ic_init_establishes [of "0x40002000" ?b c s]
  show "ic_inv demo_ic" "ic_lines_ok demo_ic" by (simp_all add: demo_ic_def)
qed

definition demo_irqs :: "ic_op list" where
  "demo_irqs = [RegisterIrq 5, RegisterIrq 3, EnableIrq 5, EnableIrq 3, RegisterHandler 5 (Some 50),
     RegisterHandler 3 (Some 30), SetPriority 3 7, SetPriority 5 2, TriggerIrq 3, TriggerIrq 5]"

lemma demo_irqs_pick:
  "dispatch_pick (ic_active (fold ic_apply demo_irqs demo_ic))
     (ic_handlers (ic (fold ic_apply demo_irqs demo_ic)))
     (ic_priorities (ic (fold ic_apply demo_irqs demo_ic))) = Some 5"
  by code_simp

section \<open>Properties\<close>

text \<open>
  C7. Dispatch serves the right line. When some enabled and pending line has a handler, dispatch
  clears the pending bit of the one with the lowest priority value (the lowest number among equals)
  and no other bit, runs that line's handler on the resulting state, and reports \<^verbatim>\<open>true\<close>
  unless the handler throws; when there is none it reports \<^verbatim>\<open>false\<close> and changes nothing.
\<close>

theorem ic_dispatch_serves_best:
  assumes "ic_inv s"
  shows "case dispatch_pick (ic_active s) (ic_handlers (ic s)) (ic_priorities (ic s)) of
      None \<Rightarrow> (\<forall>i. \<not> candidate (ic_active s) (ic_handlers (ic s)) i) \<and> ic_dispatch run s = ret False s
    | Some t \<Rightarrow> candidate (ic_active s) (ic_handlers (ic s)) t \<and>
        (\<forall>j. candidate (ic_active s) (ic_handlers (ic s)) j \<longrightarrow> beats (ic_priorities (ic s)) t j) \<and>
        ic_dispatch run s =
          and_then (run (the (ic_handlers (ic s) ! t))
            (reg_put (ic_pendingRegister (ic s))
              (clear_flag (reg_get (ic_pendingRegister (ic s)) s) t) s)) (\<lambda>_. ret True)"
proof (cases "dispatch_pick (ic_active s) (ic_handlers (ic s)) (ic_priorities (ic s))")
  case None
  then show ?thesis by (simp add: dispatch_pick_None [THEN iffD1] ic_dispatch_def)
next
  case (Some t)
  then have t: "candidate (ic_active s) (ic_handlers (ic s)) t"
    and best: "\<forall>j. candidate (ic_active s) (ic_handlers (ic s)) j \<longrightarrow> beats (ic_priorities (ic s)) t j"
    by (simp_all add: dispatch_pick_Some)
  have t32: "t < 32" and active: "ic_active s \<noteq> 0"
    using t by (auto simp: candidate_def MAX_INTERRUPTS_def)
  have idx: "unat (of_nat t :: u8) = t" using t32 by (simp add: unat_of_nat take_bit_nat_eq_self)
  have reg: "ic_registered (ic s) ! t"
    using t assms by (auto simp: candidate_def ic_inv_def)
  have clear: "ic_clear (of_nat t) s = ret () (reg_put (ic_pendingRegister (ic s))
      (clear_flag (reg_get (ic_pendingRegister (ic s)) s) t) s)"
    using t32 reg by (simp add: ic_clear_def ic_validId_def MAX_INTERRUPTS_def idx Let_def)
  from t obtain h where "ic_handlers (ic s) ! t = Some h" by (auto simp: candidate_def)
  with Some t best active clear show ?thesis by (simp add: ic_dispatch_def)
qed

theorem ic_dispatch_serves_best_witness:
  "\<exists>s. fst (ic_dispatch (\<lambda>h s. if h = 50 then ret () s else throw LogicError s) s) = Inr True \<and>
     s = fold ic_apply demo_irqs demo_ic"
proof -
  let ?s = "fold ic_apply demo_irqs demo_ic"
  have "ic_inv ?s" by (rule ic_runs.run_keeps [OF demo_ic_ok(1)])
  note ic_dispatch_serves_best [OF this, where run = "\<lambda>h s. if h = 50 then ret () s else throw LogicError s"]
  moreover have "ic_handlers (ic ?s) ! 5 = Some 50" by code_simp
  ultimately show ?thesis using demo_irqs_pick by simp
qed

text \<open>
  C31. The controller's invariant survives every sequence of its operations, reset and arbitrary bus
  writes to its registers included, so that dispatch can only ever run the handler of a registered
  line.
\<close>

theorem ic_only_registered_run:
  assumes "ic_inv s" and "s' = fold ic_apply ops s"
    and "dispatch_pick (ic_active s') (ic_handlers (ic s')) (ic_priorities (ic s')) = Some t"
  shows "ic_inv s' \<and> t < MAX_INTERRUPTS \<and> ic_registered (ic s') ! t \<and> ic_handlers (ic s') ! t \<noteq> None"
proof -
  have inv: "ic_inv s'" using assms(1,2) ic_runs.run_keeps by blast
  with assms(3) show ?thesis by (auto simp: dispatch_pick_Some candidate_def ic_inv_def)
qed

theorem ic_only_registered_run_witness:
  "ic_registered (ic (fold ic_apply demo_irqs demo_ic)) ! 5"
  using ic_only_registered_run [OF demo_ic_ok(1) refl demo_irqs_pick] by simp

text \<open>
  Without forged bus writes, enable and pending bits appear on registered lines only: triggering
  or enabling an unregistered line has no effect, and unregistering a line withdraws both bits.
\<close>

lemma ic_lines_run:
  assumes "ic_inv s" and "ic_lines_ok s" and "\<forall>q \<in> set ops. \<forall>a v. q \<noteq> BusWrite a v"
  shows "ic_lines_ok (fold ic_apply ops s)"
  using assms
  by (induction ops arbitrary: s) (auto simp: ic_inv_apply ic_lines_apply)

end
