(* ===== verification/Sim_Clock.thy ===== *)
theory Sim_Clock
  imports Prelude
begin

text \<open>
  The simulation clock of \<^verbatim>\<open>system/clock/simulation_clock.hpp\<close>: a frequency, a 64-bit cycle counter
  and three conversions to elapsed time whose products wrap at 64 bits.
\<close>

record sim_clock =
  m_frequencyHz :: u64
  m_cycles :: u64

definition DEFAULT_FREQUENCY_HZ :: u64 where
  "DEFAULT_FREQUENCY_HZ = 1000000"

definition clock_init :: "u64 \<Rightarrow> cpp_exception + sim_clock" where
  "clock_init hz = (if hz = 0 then Inl InvalidArgument else Inr \<lparr>m_frequencyHz = hz, m_cycles = 0\<rparr>)"

definition clock_tick :: "u64 \<Rightarrow> sim_clock \<Rightarrow> sim_clock" where
  "clock_tick n c = c\<lparr>m_cycles := m_cycles c + n\<rparr>"

definition clock_reset :: "sim_clock \<Rightarrow> sim_clock" where
  "clock_reset c = c\<lparr>m_cycles := 0\<rparr>"

definition clock_setFrequency :: "u64 \<Rightarrow> sim_clock \<Rightarrow> (unit, sim_clock) outcome" where
  "clock_setFrequency hz c =
     (if hz = 0 then throw InvalidArgument c else ret () (c\<lparr>m_frequencyHz := hz\<rparr>))"

definition clock_elapsedNanoseconds :: "sim_clock \<Rightarrow> u64" where
  "clock_elapsedNanoseconds c =
     (if m_frequencyHz c = 0 then 0 else (m_cycles c * 1000000000) div m_frequencyHz c)"

definition clock_elapsedMicroseconds :: "sim_clock \<Rightarrow> u64" where
  "clock_elapsedMicroseconds c =
     (if m_frequencyHz c = 0 then 0 else (m_cycles c * 1000000) div m_frequencyHz c)"

definition clock_elapsedMilliseconds :: "sim_clock \<Rightarrow> u64" where
  "clock_elapsedMilliseconds c =
     (if m_frequencyHz c = 0 then 0 else (m_cycles c * 1000) div m_frequencyHz c)"

definition clock_inv :: "sim_clock \<Rightarrow> bool" where
  "clock_inv c \<longleftrightarrow> m_frequencyHz c \<noteq> 0"

lemma clock_inv_init [inv_intros]: "clock_init hz = Inr c \<Longrightarrow> clock_inv c"
  by (auto simp: clock_init_def clock_inv_def split: if_splits)

lemma clock_inv_tick [inv_intros]: "clock_inv c \<Longrightarrow> clock_inv (clock_tick n c)"
  by (simp add: clock_inv_def clock_tick_def)

lemma clock_inv_reset [inv_intros]: "clock_inv c \<Longrightarrow> clock_inv (clock_reset c)"
  by (simp add: clock_inv_def clock_reset_def)

lemma clock_inv_setFrequency [inv_intros]: "clock_inv c \<Longrightarrow> clock_inv (snd (clock_setFrequency hz c))"
  by (simp add: clock_inv_def clock_setFrequency_def)

lemma unat_scaled:
  "unat (x :: u64) * k < 2 ^ 64 \<Longrightarrow> unat (x * of_nat k) = unat x * k"
proof (cases "x = 0")
  case False
  assume bound: "unat x * k < 2 ^ 64"
  from False have "1 \<le> unat x" by (simp add: Suc_le_eq unat_gt_0)
  then have "k < 2 ^ 64" using bound by (metis le_less_trans mult_le_mono1 nat_mult_1)
  then have "unat (of_nat k :: u64) = k" by (simp add: unat_of_nat_u64)
  with bound show ?thesis by (simp add: unat_mult_lem [THEN iffD1])
qed simp

section \<open>Properties\<close>

text \<open>
  The elapsed times are exact as long as the 64-bit product does not wrap: with frequency
  \<open>f\<close> and \<open>c\<close> cycles they are the floors of \<open>c * 10^9 / f\<close>, \<open>c * 10^6 / f\<close> and
  \<open>c * 10^3 / f\<close>, and each coarser unit is the finer one divided by a thousand.
\<close>

lemma clock_elapsed_exact:
  assumes "clock_inv c" and "unat (m_cycles c) * 1000000000 < 2 ^ 64"
  shows "unat (clock_elapsedNanoseconds c) = unat (m_cycles c) * 1000000000 div unat (m_frequencyHz c) \<and>
    unat (clock_elapsedMicroseconds c) = unat (m_cycles c) * 1000000 div unat (m_frequencyHz c) \<and>
    unat (clock_elapsedMilliseconds c) = unat (m_cycles c) * 1000 div unat (m_frequencyHz c) \<and>
    clock_elapsedMicroseconds c = clock_elapsedNanoseconds c div 1000 \<and>
    clock_elapsedMilliseconds c = clock_elapsedMicroseconds c div 1000"
proof -
  have ns: "unat (clock_elapsedNanoseconds c) = unat (m_cycles c) * 1000000000 div unat (m_frequencyHz c)"
    and us: "unat (clock_elapsedMicroseconds c) = unat (m_cycles c) * 1000000 div unat (m_frequencyHz c)"
    and ms: "unat (clock_elapsedMilliseconds c) = unat (m_cycles c) * 1000 div unat (m_frequencyHz c)"
    using assms unat_scaled [of "m_cycles c" 1000000000] unat_scaled [of "m_cycles c" 1000000]
      unat_scaled [of "m_cycles c" 1000]
    by (simp_all add: clock_inv_def clock_elapsedNanoseconds_def clock_elapsedMicroseconds_def
        clock_elapsedMilliseconds_def unat_div)
  have scale: "a * (k * 1000) div f div 1000 = a * k div f" for a k f :: nat
    by (simp add: div_mult2_eq [symmetric] mult.commute [of f] mult.assoc [symmetric])
  have "unat (clock_elapsedNanoseconds c div 1000) = unat (clock_elapsedMicroseconds c)"
    using ns us scale [of "unat (m_cycles c)" 1000000 "unat (m_frequencyHz c)"] by (simp add: unat_div)
  moreover have "unat (clock_elapsedMicroseconds c div 1000) = unat (clock_elapsedMilliseconds c)"
    using us ms scale [of "unat (m_cycles c)" 1000 "unat (m_frequencyHz c)"] by (simp add: unat_div)
  ultimately show ?thesis using ns us ms by (metis unat_cancel)
qed

text \<open>
  Past the wrap the elapsed time is not the elapsed time: after 18446744074 cycles at one
  hertz, the nanosecond counter reads 0.29 seconds.
\<close>

lemma clock_elapsed_wraps:
  "clock_elapsedNanoseconds \<lparr>m_frequencyHz = 1, m_cycles = 18446744074\<rparr> = 290448384"
  by (simp add: clock_elapsedNanoseconds_def)

end
