(* ===== verification/Event_Scheduler.thy ===== *)
theory Event_Scheduler
  imports Interrupts Sim_Clock "HOL-Library.Product_Lexorder" "HOL-Library.Multiset"
begin

text \<open>
  The event scheduler of \<^verbatim>\<open>system/scheduler/event_scheduler.hpp\<close>: a vector of pending events, each
  with an identifier, a due cycle and a callback, and the interface a driver relies on when it posts
  and withdraws its events. A callback is a value of a type \<open>'c\<close>; running one is a parameter.
\<close>

section \<open>State\<close>

record 'c event =
  ev_id :: u64
  ev_cycle :: u64
  ev_callback :: "'c option"
  ev_description :: string

record 'c event_queue =
  m_nextId :: u64
  m_events :: "'c event list"

definition sched_init :: "'c event_queue" where
  "sched_init = \<lparr>m_nextId = 1, m_events = []\<rparr>"

text \<open>The clock and the scheduler are members of the system bus; the machine state carries them.\<close>

record 'c sched_st = irq_st +
  clock :: sim_clock
  esched :: "'c event_queue"

section \<open>Operations\<close>

definition sched_schedule ::
  "'c option \<Rightarrow> u64 \<Rightarrow> string \<Rightarrow> 'c event_queue \<Rightarrow> u64 \<times> 'c event_queue" where
  "sched_schedule cb cycle desc q =
     (if cb = None then (0, q)
      else (m_nextId q,
            q\<lparr>m_nextId := m_nextId q + 1,
              m_events := m_events q @
                [\<lparr>ev_id = m_nextId q, ev_cycle = cycle, ev_callback = cb, ev_description = desc\<rparr>]\<rparr>))"

fun erase_event :: "u64 \<Rightarrow> 'c event list \<Rightarrow> 'c event list" where
  "erase_event i [] = []"
| "erase_event i (e # es) = (if ev_id e = i then es else e # erase_event i es)"

definition sched_cancel :: "u64 \<Rightarrow> 'c event_queue \<Rightarrow> bool \<times> 'c event_queue" where
  "sched_cancel i q =
     (if i = 0 then (False, q)
      else if \<exists>e \<in> set (m_events q). ev_id e = i
      then (True, q\<lparr>m_events := erase_event i (m_events q)\<rparr>)
      else (False, q))"

definition sched_clear :: "'c event_queue \<Rightarrow> 'c event_queue" where
  "sched_clear q = q\<lparr>m_events := []\<rparr>"

text \<open>\<^verbatim>\<open>std::stable_sort\<close> by cycle, then by identifier.\<close>

definition sort_events :: "'c event list \<Rightarrow> 'c event list" where
  "sort_events es = sort_key (\<lambda>e. (ev_cycle e, ev_id e)) es"

definition sched_pendingEvents :: "'c event_queue \<Rightarrow> 'c event list" where
  "sched_pendingEvents q = sort_events (m_events q)"

definition sched_pendingCount :: "'c event_queue \<Rightarrow> nat" where
  "sched_pendingCount q = length (m_events q)"

fun run_ready ::
  "('c \<Rightarrow> 's \<Rightarrow> (unit, 's) outcome) \<Rightarrow> 'c event list \<Rightarrow> nat \<Rightarrow> 's \<Rightarrow> (nat, 's) outcome" where
  "run_ready run [] n s = ret n s"
| "run_ready run (e # es) n s =
     (case ev_callback e of
        None \<Rightarrow> run_ready run es n s
      | Some c \<Rightarrow> and_then (run c s) (\<lambda>_. run_ready run es (Suc n)))"

definition sched_executeReadyEvents ::
  "('c \<Rightarrow> ('c, 'z) sched_st_scheme \<Rightarrow> (unit, ('c, 'z) sched_st_scheme) outcome) \<Rightarrow>
   u64 \<Rightarrow> ('c, 'z) sched_st_scheme \<Rightarrow> (nat, ('c, 'z) sched_st_scheme) outcome" where
  "sched_executeReadyEvents run now s =
     (if m_events (esched s) = [] then ret 0 s
      else let es = m_events (esched s);
               ready = filter (\<lambda>e. ev_cycle e \<le> now) es;
               remaining = filter (\<lambda>e. \<not> ev_cycle e \<le> now) es
           in run_ready run (sort_events ready) 0 (s\<lparr>esched := (esched s)\<lparr>m_events := remaining\<rparr>\<rparr>))"

section \<open>The interface of an event service\<close>

text \<open>
  A driver keeps the identifier of the one event it has posted. The laws: a posted event gets an
  identifier that is not zero and not in use and enters the agenda; cancelling takes exactly that
  identifier out; both keep the service consistent while there is room for another identifier.
\<close>

locale event_service =
  fixes post :: "'c \<Rightarrow> u64 \<Rightarrow> string \<Rightarrow> 'q \<Rightarrow> u64 \<times> 'q"
    and cancel :: "u64 \<Rightarrow> 'q \<Rightarrow> bool \<times> 'q"
    and agenda :: "'q \<Rightarrow> u64 \<Rightarrow> (u64 \<times> 'c) option"
    and ok :: "'q \<Rightarrow> bool"
    and room :: "'q \<Rightarrow> bool"
  assumes zero_unused: "ok q \<Longrightarrow> agenda q 0 = None"
    and post_id: "ok q \<Longrightarrow> fst (post c t d q) \<noteq> 0 \<and> agenda q (fst (post c t d q)) = None"
    and post_agenda: "ok q \<Longrightarrow> agenda (snd (post c t d q)) = (agenda q)(fst (post c t d q) \<mapsto> (t, c))"
    and post_ok: "ok q \<Longrightarrow> room q \<Longrightarrow> ok (snd (post c t d q))"
    and cancel_agenda: "ok q \<Longrightarrow> agenda (snd (cancel i q)) = (agenda q)(i := None)"
    and cancel_ok: "ok q \<Longrightarrow> ok (snd (cancel i q))"
    and cancel_room: "room (snd (cancel i q)) = room q"
begin

lemma cancel_twice:
  "ok q \<Longrightarrow> agenda (snd (cancel j (snd (cancel i q)))) = (agenda q)(i := None, j := None)"
  by (simp add: cancel_agenda cancel_ok)

lemma cancel_zero: "ok q \<Longrightarrow> agenda (snd (cancel 0 q)) = agenda q"
  by (simp add: cancel_agenda zero_unused fun_upd_idem)

text \<open>Withdrawing the old event and posting a new one leaves the new one as the only change.\<close>

lemma repost:
  assumes "ok q" and "room q" and "(i', q') = post c t d (snd (cancel i q))"
  shows "ok q'" and "i' \<noteq> 0" and "agenda q' = ((agenda q)(i := None))(i' \<mapsto> (t, c))"
    and "agenda q i' = None \<or> i' = i"
proof -
  let ?q = "snd (cancel i q)"
  have okq: "ok ?q" and rq: "room ?q" using assms by (simp_all add: cancel_ok cancel_room)
  have i': "i' = fst (post c t d ?q)" and q': "q' = snd (post c t d ?q)"
    using assms(3) by (simp_all add: prod_eq_iff)
  show "ok q'" unfolding q' by (rule post_ok [OF okq rq])
  show "i' \<noteq> 0" unfolding i' using post_id [OF okq] by blast
  show "agenda q' = ((agenda q)(i := None))(i' \<mapsto> (t, c))"
    unfolding q' i' using post_agenda [OF okq] cancel_agenda [OF assms(1)] by simp
  have "agenda ?q i' = None" unfolding i' using post_id [OF okq] by blast
  then show "agenda q i' = None \<or> i' = i" using cancel_agenda [OF assms(1)] by (auto split: if_splits)
qed

text \<open>Posting and withdrawing at once restores the agenda.\<close>

lemma post_cancel:
  assumes "ok q" and "room q" and "(i, q') = post c t d q"
  shows "agenda (snd (cancel i q')) = agenda q"
proof -
  have i: "i = fst (post c t d q)" and q': "q' = snd (post c t d q)"
    using assms(3) by (simp_all add: prod_eq_iff)
  have "ok q'" unfolding q' by (rule post_ok [OF assms(1,2)])
  moreover have "agenda q' = (agenda q)(i \<mapsto> (t, c))"
    unfolding i q' by (rule post_agenda [OF assms(1)])
  moreover have "agenda q i = None" unfolding i using post_id [OF assms(1)] by blast
  ultimately show ?thesis by (simp add: cancel_agenda fun_upd_idem)
qed

end

definition sched_post :: "'c \<Rightarrow> u64 \<Rightarrow> string \<Rightarrow> 'c event_queue \<Rightarrow> u64 \<times> 'c event_queue" where
  "sched_post c = sched_schedule (Some c)"

definition sched_agenda :: "'c event_queue \<Rightarrow> u64 \<Rightarrow> (u64 \<times> 'c) option" where
  "sched_agenda q i =
     map_option (\<lambda>e. (ev_cycle e, the (ev_callback e))) (List.find (\<lambda>e. ev_id e = i) (m_events q))"

text \<open>
  Identifiers in use are distinct, not zero and below the next one, and no event has an empty
  callback; there is room until the 64-bit identifier counter is exhausted.
\<close>

definition sched_inv :: "'c event_queue \<Rightarrow> bool" where
  "sched_inv q \<longleftrightarrow> m_nextId q \<noteq> 0 \<and> distinct (map ev_id (m_events q)) \<and>
     (\<forall>e \<in> set (m_events q). ev_id e \<noteq> 0 \<and> ev_id e < m_nextId q \<and> ev_callback e \<noteq> None)"

definition sched_room :: "'c event_queue \<Rightarrow> bool" where
  "sched_room q \<longleftrightarrow> m_nextId q \<noteq> - 1"

lemma set_erase_event_subset: "set (erase_event i es) \<subseteq> set es"
  by (induction es) auto

lemma distinct_erase_event:
  "distinct (map ev_id es) \<Longrightarrow> distinct (map ev_id (erase_event i es))"
  by (induction es) (use set_erase_event_subset in \<open>auto simp: subset_iff\<close>)

lemma set_erase_event:
  "distinct (map ev_id es) \<Longrightarrow> set (erase_event i es) = {e \<in> set es. ev_id e \<noteq> i}"
  by (induction es) (auto simp: image_iff)

lemma erase_event_absent: "\<forall>e \<in> set es. ev_id e \<noteq> i \<Longrightarrow> erase_event i es = es"
  by (induction es) auto

lemma find_erase_event:
  "distinct (map ev_id es) \<Longrightarrow>
     List.find (\<lambda>e. ev_id e = j) (erase_event i es) =
       (if j = i then None else List.find (\<lambda>e. ev_id e = j) es)"
  by (induction es) (auto simp: find_None_iff image_iff)

lemma find_append:
  "List.find P (xs @ ys) = (case List.find P xs of None \<Rightarrow> List.find P ys | Some x \<Rightarrow> Some x)"
  by (induction xs) auto

lemma next_id_above:
  assumes "m_nextId q \<noteq> - 1" and "i < m_nextId q" shows "i < m_nextId q + (1 :: u64)"
  using assms by (simp add: word_less_nat_alt unat_plus_one)

lemma next_id_self: "m_nextId q \<noteq> - 1 \<Longrightarrow> m_nextId q < m_nextId q + (1 :: u64)"
  by (simp add: word_less_nat_alt unat_plus_one)

interpretation evs: event_service sched_post sched_cancel sched_agenda sched_inv sched_room
proof
  fix q :: "'c event_queue" and c t d i
  assume inv: "sched_inv q"
  have none: "List.find (\<lambda>e. ev_id e = m_nextId q) (m_events q) = None"
    using inv by (auto simp: sched_inv_def find_None_iff)
  show "sched_agenda q 0 = None"
    using inv by (auto simp: sched_agenda_def sched_inv_def find_None_iff)
  show "fst (sched_post c t d q) \<noteq> 0 \<and> sched_agenda q (fst (sched_post c t d q)) = None"
    using inv none by (simp add: sched_post_def sched_schedule_def sched_agenda_def sched_inv_def)
  show "sched_agenda (snd (sched_post c t d q)) = (sched_agenda q)(fst (sched_post c t d q) \<mapsto> (t, c))"
    by (rule ext) (use none in
      \<open>auto simp: sched_post_def sched_schedule_def sched_agenda_def find_append split: option.splits\<close>)
  show "sched_inv (snd (sched_post c t d q))" if "sched_room q"
    using inv that next_id_above [of q] next_id_self [of q]
    by (fastforce simp: sched_inv_def sched_room_def sched_post_def sched_schedule_def
        eq_neg_iff_add_eq_0)
  show "sched_agenda (snd (sched_cancel i q)) = (sched_agenda q)(i := None)"
    by (rule ext) (use inv in
      \<open>auto simp: sched_cancel_def sched_agenda_def find_erase_event set_erase_event
        sched_inv_def find_None_iff\<close>)
  show "sched_inv (snd (sched_cancel i q))"
    using inv by (auto simp: sched_inv_def sched_cancel_def distinct_erase_event set_erase_event)
next
  show "sched_room (snd (sched_cancel i q)) = sched_room q" for i and q :: "'c event_queue"
    by (simp add: sched_room_def sched_cancel_def)
qed

section \<open>Order of execution\<close>

lemma sort_events_mset: "mset (sort_events es) = mset es"
  by (simp add: sort_events_def)

lemma sort_events_set [simp]: "set (sort_events es) = set es"
  by (simp add: sort_events_def)

lemma sort_events_sorted: "sorted (map (\<lambda>e. (ev_cycle e, ev_id e)) (sort_events es))"
  by (simp add: sort_events_def)

lemma run_ready_steps:
  assumes "\<forall>e \<in> set es. ev_callback e \<noteq> None"
  shows "run_ready run es n s =
    and_then (for_each (\<lambda>e. run (the (ev_callback e))) es s) (\<lambda>_. ret (n + length es))"
  using assms
proof (induction es arbitrary: n s)
  case (Cons e es)
  then show ?case
    by (cases "run (the (ev_callback e)) s") (auto simp: and_then_def split: sum.splits prod.splits)
qed simp

lemma run_ready_inv:
  assumes "\<And>c s. I s \<Longrightarrow> I (snd (run c s))" and "I s"
  shows "I (snd (run_ready run es n s))"
  using assms(2)
proof (induction es arbitrary: n s)
  case (Cons e es)
  show ?case
  proof (cases "ev_callback e")
    case (Some c)
    have "I (snd (and_then (run c s) (\<lambda>_. run_ready run es (Suc n))))"
      by (rule and_then_inv) (use Cons assms(1) in blast)+
    with Some show ?thesis by simp
  qed (use Cons in simp)
qed simp

section \<open>Properties\<close>

definition due :: "u64 \<Rightarrow> 'c event_queue \<Rightarrow> 'c event list" where
  "due now q = sort_events (filter (\<lambda>e. ev_cycle e \<le> now) (m_events q))"

definition later :: "u64 \<Rightarrow> 'c event_queue \<Rightarrow> 'c event_queue" where
  "later now q = q\<lparr>m_events := filter (\<lambda>e. \<not> ev_cycle e \<le> now) (m_events q)\<rparr>"

text \<open>
  C6. Executing the ready events at a cycle runs exactly the callbacks of the pending events due by
  that cycle, in strictly increasing order of cycle and identifier (first come, first served within
  a cycle), each once, on a state whose queue holds exactly the events that are not yet due, in
  their old order; it returns how many ran, and an exception stops it where it is thrown.
\<close>

theorem executeReadyEvents_in_order:
  assumes "sched_inv (esched s)"
  shows "sched_executeReadyEvents run now s =
      and_then (for_each (\<lambda>e. run (the (ev_callback e))) (due now (esched s))
                 (s\<lparr>esched := later now (esched s)\<rparr>))
        (\<lambda>_. ret (length (due now (esched s)))) \<and>
    sorted_wrt (\<lambda>e e'. (ev_cycle e, ev_id e) < (ev_cycle e', ev_id e')) (due now (esched s)) \<and>
    mset (due now (esched s)) + mset (m_events (later now (esched s))) = mset (m_events (esched s)) \<and>
    (\<forall>e \<in> set (due now (esched s)). ev_cycle e \<le> now) \<and>
    (\<forall>e \<in> set (m_events (later now (esched s))). now < ev_cycle e)"
proof -
  let ?q = "esched s"
  have cb: "\<forall>e \<in> set (due now ?q). ev_callback e \<noteq> None"
    using assms by (auto simp: due_def sched_inv_def)
  have "sched_executeReadyEvents run now s = run_ready run (due now ?q) 0 (s\<lparr>esched := later now ?q\<rparr>)"
    by (auto simp: sched_executeReadyEvents_def due_def later_def sort_events_def Let_def)
  then have exec: "sched_executeReadyEvents run now s =
      and_then (for_each (\<lambda>e. run (the (ev_callback e))) (due now ?q) (s\<lparr>esched := later now ?q\<rparr>))
        (\<lambda>_. ret (length (due now ?q)))"
    by (simp add: run_ready_steps [OF cb])
  have "distinct (map ev_id (due now ?q))"
    using assms by (auto simp: sched_inv_def due_def sort_events_def distinct_map inj_on_def)
  then have "distinct (map (\<lambda>e. (ev_cycle e, ev_id e)) (due now ?q))"
    by (auto simp: distinct_map inj_on_def)
  then have "sorted_wrt (<) (map (\<lambda>e. (ev_cycle e, ev_id e)) (due now ?q))"
    using sort_events_sorted by (simp only: strict_sorted_iff due_def simp_thms)
  then have "sorted_wrt (\<lambda>e e'. (ev_cycle e, ev_id e) < (ev_cycle e', ev_id e')) (due now ?q)"
    by (simp only: sorted_wrt_map)
  moreover have "mset (due now ?q) + mset (m_events (later now ?q)) = mset (m_events ?q)"
    by (simp add: due_def later_def sort_events_mset)
  moreover have "\<forall>e \<in> set (due now ?q). ev_cycle e \<le> now"
    and "\<forall>e \<in> set (m_events (later now ?q)). now < ev_cycle e"
    by (auto simp: due_def later_def)
  ultimately show ?thesis using exec by blast
qed

definition demo_queue :: "nat event_queue" where
  "demo_queue =
     snd (sched_schedule (Some 3) 5 ''First at 5'' (snd (sched_schedule (Some 2) 10 ''Second at 10''
       (snd (sched_schedule (Some 1) 10 ''First at 10'' sched_init)))))"

definition demo_sched :: "nat sched_st" where
  "demo_sched = \<lparr>reg_objs = \<lambda>_. register_init 0 0, next_ref = 0, m_registers = [], ic = blank_ic,
     clock = \<lparr>m_frequencyHz = 1000000, m_cycles = 10\<rparr>, esched = demo_queue\<rparr>"

lemma demo_queue_inv: "sched_inv demo_queue"
  by (simp add: sched_inv_def demo_queue_def sched_schedule_def sched_init_def)

theorem executeReadyEvents_in_order_witness:
  "map ev_callback (due 10 (esched demo_sched)) = [Some 3, Some 1, Some 2] \<and>
   fst (sched_executeReadyEvents (\<lambda>c s. if c = 1 then throw LogicError s else ret () s) 10 demo_sched)
     = Inl LogicError"
proof -
  have due: "map ev_callback (due 10 (esched demo_sched)) = [Some 3, Some 1, Some 2]"
    by (simp add: demo_sched_def demo_queue_def due_def sort_events_def sched_schedule_def sched_init_def)
  have inv: "sched_inv (esched demo_sched)" by (simp add: demo_sched_def demo_queue_inv)
  obtain a b c where "due 10 (esched demo_sched) = [a, b, c]"
    and "ev_callback a = Some 3" and "ev_callback b = Some 1"
    using due by auto
  with due show ?thesis
    using executeReadyEvents_in_order [OF inv,
        where now = 10 and run = "\<lambda>c s. if c = 1 then throw LogicError s else ret () s"]
    by simp
qed

text \<open>
  Scheduling hands out a fresh identifier that is not zero and appends the event; cancelling
  that identifier removes exactly this event and reports \<^verbatim>\<open>true\<close>, a second cancel reports
  \<^verbatim>\<open>false\<close>; an empty callback is refused with identifier zero.
\<close>

lemma schedule_cancel_roundtrip:
  assumes "sched_inv q" and "sched_room q" and "sched_schedule (Some c) t d q = (i, q')"
  shows "i \<noteq> 0 \<and> i \<notin> ev_id ` set (m_events q) \<and> sched_inv q' \<and>
    sched_agenda q' = (sched_agenda q)(i \<mapsto> (t, c)) \<and>
    sched_cancel i q' = (True, q\<lparr>m_nextId := m_nextId q + 1\<rparr>) \<and>
    sched_cancel i (snd (sched_cancel i q')) = (False, snd (sched_cancel i q')) \<and>
    sched_schedule None t d q = (0, q)"
proof -
  have post: "sched_post c t d q = (i, q')" using assms(3) by (simp add: sched_post_def)
  have i: "i = m_nextId q" and i0: "i \<noteq> 0" and fresh: "i \<notin> ev_id ` set (m_events q)"
    using assms by (auto simp: sched_schedule_def sched_inv_def)
  have erase: "erase_event i (es @ [e]) = es"
    if "i \<notin> ev_id ` set es" and "ev_id e = i" for es and e :: "'a event"
    using that by (induction es) auto
  have cancel: "sched_cancel i q' = (True, q\<lparr>m_nextId := m_nextId q + 1\<rparr>)"
    using assms(3) i0 fresh erase by (auto simp: sched_schedule_def sched_cancel_def)
  moreover have "sched_cancel i (q\<lparr>m_nextId := m_nextId q + 1\<rparr>) = (False, q\<lparr>m_nextId := m_nextId q + 1\<rparr>)"
    using fresh by (auto simp: sched_cancel_def)
  moreover have "sched_inv q'" using evs.post_ok [OF assms(1,2), of c t d] post by simp
  moreover have "sched_agenda q' = (sched_agenda q)(i \<mapsto> (t, c))"
    using evs.post_agenda [OF assms(1), of c t d] post by simp
  ultimately show ?thesis using i0 fresh by (simp add: sched_schedule_def)
qed

end
