(* ===== verification/Timer_Driver.thy ===== *)
theory Timer_Driver
  imports Event_Scheduler
begin

text \<open>
  The hardware timer of \<^verbatim>\<open>drivers/timer/timer.hpp\<close>: CTRL, COUNT, COMPARE and STATUS registers, an
  optional interrupt line, and an optional clock and event scheduler. Timers are numbered; the
  callback a timer posts captures its number as the closure captures \<^verbatim>\<open>this\<close>. The machine has one
  interrupt controller, one clock and one scheduler, so a pointer to one of them is a flag that says
  whether it is set.
\<close>

section \<open>State\<close>

text \<open>
  The closures the sources schedule: a timer's compare match, the notice of a finished DMA transfer,
  and those of the embedding program.
\<close>

datatype callback = TimerMatch nat | DmaNotice | UserCallback nat

record timer =
  t_base :: address
  t_ctrlRegister :: nat
  t_countRegister :: nat
  t_compareRegister :: nat
  t_statusRegister :: nat
  t_interruptController :: bool
  t_interruptId :: u8
  t_clock :: bool
  t_scheduler :: bool
  t_scheduledEventId :: u64
  t_lastClockCycles :: u64

record timer_st = "callback sched_st" +
  timers :: "nat \<Rightarrow> timer"

definition timer_init :: "address \<Rightarrow> 'z mmio_st_scheme \<Rightarrow> (timer, 'z mmio_st_scheme) outcome" where
  "timer_init base s =
     (let (ct, s) = make_register (base + 0x00) 0 s;
          (cn, s) = make_register (base + 0x04) 0 s;
          (cm, s) = make_register (base + 0x08) 0 s;
          (st, s) = make_register (base + 0x0C) 0 s;
          (ok, s) = register_chain [ct, cn, cm, st] s
      in if \<not> ok then throw RuntimeError s
         else ret \<lparr>t_base = base, t_ctrlRegister = ct, t_countRegister = cn, t_compareRegister = cm,
                   t_statusRegister = st, t_interruptController = False, t_interruptId = 0,
                   t_clock = False, t_scheduler = False, t_scheduledEventId = 0,
                   t_lastClockCycles = 0\<rparr> s)"

definition upd_timer :: "nat \<Rightarrow> (timer \<Rightarrow> timer) \<Rightarrow> 'z timer_st_scheme \<Rightarrow> 'z timer_st_scheme" where
  "upd_timer i f s = s\<lparr>timers := (timers s)(i := f (timers s i))\<rparr>"

section \<open>Queries\<close>

definition timer_running :: "nat \<Rightarrow> 'z timer_st_scheme \<Rightarrow> bool" where
  "timer_running i s = test_flag (reg_get (t_ctrlRegister (timers s i)) s) 0"

definition timer_compare :: "nat \<Rightarrow> 'z timer_st_scheme \<Rightarrow> u32" where
  "timer_compare i s = reg_get (t_compareRegister (timers s i)) s"

definition timer_counter :: "nat \<Rightarrow> 'z timer_st_scheme \<Rightarrow> u32" where
  "timer_counter i s = reg_get (t_countRegister (timers s i)) s"

definition timer_hasMatch :: "nat \<Rightarrow> 'z timer_st_scheme \<Rightarrow> bool" where
  "timer_hasMatch i s = test_flag (reg_get (t_statusRegister (timers s i)) s) 0"

definition timer_interruptEnabled :: "nat \<Rightarrow> 'z timer_st_scheme \<Rightarrow> bool" where
  "timer_interruptEnabled i s = test_flag (reg_get (t_ctrlRegister (timers s i)) s) 1"

definition timer_autoReset :: "nat \<Rightarrow> 'z timer_st_scheme \<Rightarrow> bool" where
  "timer_autoReset i s = test_flag (reg_get (t_ctrlRegister (timers s i)) s) 2"

section \<open>Events\<close>

definition timer_cancelScheduledEvent :: "nat \<Rightarrow> 'z timer_st_scheme \<Rightarrow> 'z timer_st_scheme" where
  "timer_cancelScheduledEvent i s =
     (if t_scheduledEventId (timers s i) \<noteq> 0 \<and> t_scheduler (timers s i)
      then upd_timer i (\<lambda>t. t\<lparr>t_scheduledEventId := 0\<rparr>)
             (s\<lparr>esched := snd (sched_cancel (t_scheduledEventId (timers s i)) (esched s))\<rparr>)
      else s)"

definition timer_updateScheduledEvent :: "nat \<Rightarrow> 'z timer_st_scheme \<Rightarrow> 'z timer_st_scheme" where
  "timer_updateScheduledEvent i s =
     (let s = timer_cancelScheduledEvent i s
      in if \<not> timer_running i s \<or> \<not> t_scheduler (timers s i) then s
         else let currentCount = timer_counter i s;
                  targetCompare = timer_compare i s
              in if currentCount \<ge> targetCompare then s
                 else let delta = targetCompare - currentCount;
                          currentCycle = (if t_clock (timers s i) then m_cycles (clock s) else 0);
                          targetCycle = currentCycle + ucast delta;
                          (eid, q) = sched_schedule (Some (TimerMatch i)) targetCycle
                                       ''Timer Compare Match'' (esched s)
                      in upd_timer i (\<lambda>t. t\<lparr>t_scheduledEventId := eid\<rparr>) (s\<lparr>esched := q\<rparr>))"

section \<open>Control\<close>

definition timer_syncClock :: "nat \<Rightarrow> 'z timer_st_scheme \<Rightarrow> 'z timer_st_scheme" where
  "timer_syncClock i s =
     (if t_clock (timers s i)
      then upd_timer i (\<lambda>t. t\<lparr>t_lastClockCycles := m_cycles (clock s)\<rparr>) s else s)"

definition timer_start :: "nat \<Rightarrow> 'z timer_st_scheme \<Rightarrow> 'z timer_st_scheme" where
  "timer_start i s =
     (let r = t_ctrlRegister (timers s i);
          s = reg_put r (set_flag (reg_get r s) 0) s;
          s = timer_syncClock i s
      in timer_updateScheduledEvent i s)"

definition timer_stop :: "nat \<Rightarrow> 'z timer_st_scheme \<Rightarrow> 'z timer_st_scheme" where
  "timer_stop i s =
     (let r = t_ctrlRegister (timers s i);
          s = reg_put r (clear_flag (reg_get r s) 0) s
      in timer_cancelScheduledEvent i s)"

definition timer_reset :: "nat \<Rightarrow> 'z timer_st_scheme \<Rightarrow> 'z timer_st_scheme" where
  "timer_reset i s =
     (let s = timer_stop i s;
          s = reg_rst (t_countRegister (timers s i)) s;
          s = reg_rst (t_statusRegister (timers s i)) s;
          s = reg_rst (t_ctrlRegister (timers s i)) s
      in timer_syncClock i s)"

definition timer_attachInterruptController ::
  "nat \<Rightarrow> bool \<Rightarrow> u8 \<Rightarrow> 'z timer_st_scheme \<Rightarrow> 'z timer_st_scheme" where
  "timer_attachInterruptController i ptr irq s =
     upd_timer i (\<lambda>t. t\<lparr>t_interruptController := ptr, t_interruptId := irq\<rparr>) s"

definition timer_detachInterruptController :: "nat \<Rightarrow> 'z timer_st_scheme \<Rightarrow> 'z timer_st_scheme" where
  "timer_detachInterruptController i s =
     upd_timer i (\<lambda>t. t\<lparr>t_interruptController := False, t_interruptId := 0\<rparr>) s"

definition timer_attachClock :: "nat \<Rightarrow> bool \<Rightarrow> 'z timer_st_scheme \<Rightarrow> 'z timer_st_scheme" where
  "timer_attachClock i ptr s = timer_syncClock i (upd_timer i (\<lambda>t. t\<lparr>t_clock := ptr\<rparr>) s)"

definition timer_detachClock :: "nat \<Rightarrow> 'z timer_st_scheme \<Rightarrow> 'z timer_st_scheme" where
  "timer_detachClock i s = upd_timer i (\<lambda>t. t\<lparr>t_clock := False, t_lastClockCycles := 0\<rparr>) s"

definition timer_attachScheduler :: "nat \<Rightarrow> bool \<Rightarrow> 'z timer_st_scheme \<Rightarrow> 'z timer_st_scheme" where
  "timer_attachScheduler i ptr s =
     timer_updateScheduledEvent i (upd_timer i (\<lambda>t. t\<lparr>t_scheduler := ptr\<rparr>) s)"

definition timer_detachScheduler :: "nat \<Rightarrow> 'z timer_st_scheme \<Rightarrow> 'z timer_st_scheme" where
  "timer_detachScheduler i s =
     upd_timer i (\<lambda>t. t\<lparr>t_scheduler := False\<rparr>) (timer_cancelScheduledEvent i s)"

definition timer_setCompare :: "nat \<Rightarrow> u32 \<Rightarrow> 'z timer_st_scheme \<Rightarrow> 'z timer_st_scheme" where
  "timer_setCompare i v s =
     timer_updateScheduledEvent i (reg_put (t_compareRegister (timers s i)) v s)"

definition timer_clearMatch :: "nat \<Rightarrow> 'z timer_st_scheme \<Rightarrow> 'z timer_st_scheme" where
  "timer_clearMatch i s =
     (let r = t_statusRegister (timers s i) in reg_put r (clear_flag (reg_get r s) 0) s)"

definition timer_setInterruptEnabled :: "nat \<Rightarrow> bool \<Rightarrow> 'z timer_st_scheme \<Rightarrow> 'z timer_st_scheme" where
  "timer_setInterruptEnabled i on s =
     (let r = t_ctrlRegister (timers s i) in reg_put r (put_flag on (reg_get r s) 1) s)"

definition timer_setAutoReset :: "nat \<Rightarrow> bool \<Rightarrow> 'z timer_st_scheme \<Rightarrow> 'z timer_st_scheme" where
  "timer_setAutoReset i on s =
     (let r = t_ctrlRegister (timers s i) in reg_put r (put_flag on (reg_get r s) 2) s)"

text \<open>\<^verbatim>\<open>ctrlAddress\<close>, \<^verbatim>\<open>countAddress\<close>, \<^verbatim>\<open>compareAddress\<close> and \<^verbatim>\<open>statusAddress\<close>.\<close>

definition timer_addresses :: "timer \<Rightarrow> address list" where
  "timer_addresses t = [t_base t + 0x00, t_base t + 0x04, t_base t + 0x08, t_base t + 0x0C]"

definition timer_destroy :: "nat \<Rightarrow> 'z timer_st_scheme \<Rightarrow> 'z timer_st_scheme" where
  "timer_destroy i s =
     (let s = timer_cancelScheduledEvent i s in unregister_all (timer_addresses (timers s i)) s)"

section \<open>Counting\<close>

definition timer_handleCompareMatch ::
  "nat \<Rightarrow> 'z timer_st_scheme \<Rightarrow> (unit, 'z timer_st_scheme) outcome" where
  "timer_handleCompareMatch i s =
     (if \<not> timer_running i s then ret () s
      else let s = reg_put (t_countRegister (timers s i)) (timer_compare i s) s;
               r = t_statusRegister (timers s i);
               s = reg_put r (set_flag (reg_get r s) 0) s;
               s = timer_stop i s
           in if t_interruptController (timers s i)
              then ic_trigger (t_interruptId (timers s i)) s
              else ret () s)"

text \<open>The number of cycles to count: one without a clock, the clock's advance since the last tick otherwise.\<close>

definition timer_stepAmount :: "nat \<Rightarrow> 'z timer_st_scheme \<Rightarrow> u32" where
  "timer_stepAmount i s =
     (if t_clock (timers s i) \<and> m_cycles (clock s) > t_lastClockCycles (timers s i)
      then ucast (m_cycles (clock s) - t_lastClockCycles (timers s i)) else 1)"

definition timer_tick :: "nat \<Rightarrow> 'z timer_st_scheme \<Rightarrow> (unit, 'z timer_st_scheme) outcome" where
  "timer_tick i s =
     (if \<not> timer_running i s then ret () (timer_syncClock i s)
      else let stepAmount = timer_stepAmount i s;
               s = timer_syncClock i s;
               currentCount = reg_get (t_countRegister (timers s i)) s;
               targetCompare = reg_get (t_compareRegister (timers s i)) s;
               currentCount = currentCount + stepAmount;
               s = reg_put (t_countRegister (timers s i)) currentCount s
           in if \<not> t_scheduler (timers s i) \<and> currentCount \<ge> targetCompare
              then timer_handleCompareMatch i s
              else ret () s)"

section \<open>Frame facts\<close>

lemma reg_get_fields [simp]:
  "reg_get r (upd_timer i f s) = reg_get r s"
  "reg_get r (sched_st.esched_update qf s') = reg_get r s'"
  "reg_get r (sched_st.clock_update cf s') = reg_get r s'"
  by (simp_all add: reg_get_def upd_timer_def)

lemma reg_put_fields [simp]:
  "timers (reg_put r v s) = timers s" "esched (reg_put r v s') = esched s'"
  "clock (reg_put r v s') = clock s'"
  "timers (reg_rst r s) = timers s" "esched (reg_rst r s') = esched s'" "clock (reg_rst r s') = clock s'"
  by (simp_all add: reg_put_def reg_rst_def)

lemma upd_timer_fields [simp]:
  "timers (upd_timer i f s) = (timers s)(i := f (timers s i))"
  "esched (upd_timer i f s) = esched s" "clock (upd_timer i f s) = clock s" "ic (upd_timer i f s) = ic s"
  "reg_objs (upd_timer i f s) = reg_objs s" "m_registers (upd_timer i f s) = m_registers s"
  "next_ref (upd_timer i f s) = next_ref s"
  by (simp_all add: upd_timer_def)

text \<open>The registers of a timer, and that they are its own.\<close>

definition timer_regs :: "timer \<Rightarrow> nat list" where
  "timer_regs t = [t_ctrlRegister t, t_countRegister t, t_compareRegister t, t_statusRegister t]"

definition timer_wf :: "nat \<Rightarrow> 'z timer_st_scheme \<Rightarrow> bool" where
  "timer_wf i s \<longleftrightarrow>
     distinct (ic_pendingRegister (ic s) # timer_regs (timers s i)) \<and>
     (\<forall>r \<in> set (timer_regs (timers s i)). m_initialValue (reg_objs s r) = 0)"

lemma timer_regs_upd [simp]:
  "timer_regs (t\<lparr>t_scheduledEventId := e\<rparr>) = timer_regs t"
  "timer_regs (t\<lparr>t_lastClockCycles := c\<rparr>) = timer_regs t"
  "timer_regs (t\<lparr>t_clock := b\<rparr>) = timer_regs t" "timer_regs (t\<lparr>t_scheduler := b\<rparr>) = timer_regs t"
  by (simp_all add: timer_regs_def)

section \<open>Abstract specification of a timer\<close>

text \<open>
  What the driver promises: a counter that, while running, advances by one per cycle and, on
  reaching the compare value, stops there with the match flag set.
\<close>

record abs_timer =
  at_running :: bool
  at_count :: u32
  at_compare :: u32
  at_match :: bool

definition abs_tick :: "abs_timer \<Rightarrow> abs_timer" where
  "abs_tick a =
     (if \<not> at_running a then a
      else if at_compare a \<le> at_count a + 1
      then a\<lparr>at_running := False, at_count := at_compare a, at_match := True\<rparr>
      else a\<lparr>at_count := at_count a + 1\<rparr>)"

definition timer_view :: "nat \<Rightarrow> 'z timer_st_scheme \<Rightarrow> abs_timer" where
  "timer_view i s =
     \<lparr>at_running = timer_running i s, at_count = timer_counter i s,
      at_compare = timer_compare i s, at_match = timer_hasMatch i s\<rparr>"

lemmas timer_query_defs =
  timer_running_def timer_counter_def timer_compare_def timer_hasMatch_def

lemma abs_tick_counts:
  assumes "at_running a" and "unat (at_count a) + k < unat (at_compare a)"
  shows "(abs_tick ^^ k) a = a\<lparr>at_count := at_count a + of_nat k\<rparr>"
  using assms(2)
proof (induction k)
  case (Suc k)
  then have IH: "(abs_tick ^^ k) a = a\<lparr>at_count := at_count a + of_nat k\<rparr>" by simp
  note unat_u32_bound [of "at_compare a"]
  then have "unat (at_count a + of_nat k + 1) = unat (at_count a) + k + 1"
    using Suc.prems by (simp add: unat_word_ariths unat_of_nat take_bit_nat_eq_self)
  then have "\<not> at_compare a \<le> at_count a + of_nat k + 1"
    using Suc.prems by (simp add: word_le_nat_alt)
  then have "abs_tick (a\<lparr>at_count := at_count a + of_nat k\<rparr>) = a\<lparr>at_count := at_count a + of_nat (Suc k)\<rparr>"
    using assms(1) by (simp add: abs_tick_def ac_simps)
  with IH show ?case by simp
qed simp

lemma abs_tick_matches:
  assumes "at_running a" and "unat (at_count a) + k = unat (at_compare a)" and "0 < k"
  shows "(abs_tick ^^ k) a = a\<lparr>at_running := False, at_count := at_compare a, at_match := True\<rparr>"
proof -
  obtain j where k: "k = Suc j" using assms(3) by (cases k) auto
  have "(abs_tick ^^ j) a = a\<lparr>at_count := at_count a + of_nat j\<rparr>"
    by (rule abs_tick_counts) (use assms k in simp_all)
  moreover note unat_u32_bound [of "at_compare a"]
  then have "at_count a + of_nat j + 1 = at_compare a"
    using assms k by (intro unat_cancel [THEN iffD1])
      (simp add: unat_word_ariths unat_of_nat take_bit_nat_eq_self)
  then have "abs_tick (a\<lparr>at_count := at_count a + of_nat j\<rparr>)
      = a\<lparr>at_running := False, at_count := at_compare a, at_match := True\<rparr>"
    using assms(1) by (simp add: abs_tick_def)
  ultimately show ?thesis using k by simp
qed

lemma abs_tick_stopped: "\<not> at_running a \<Longrightarrow> (abs_tick ^^ k) a = a"
  by (induction k) (simp, simp add: abs_tick_def [of a])

section \<open>The driver refines the specification\<close>

lemma timer_view_frame [simp]:
  "timer_view j (timer_cancelScheduledEvent i s) = timer_view j s"
  "timer_view j (timer_syncClock i s) = timer_view j s"
  by (simp_all add: timer_view_def timer_query_defs timer_cancelScheduledEvent_def
      timer_syncClock_def)

lemma timer_view_update [simp]:
  "timer_view j (timer_updateScheduledEvent i s) = timer_view j s"
  using timer_view_frame(1) [of j i s]
  by (auto simp: timer_updateScheduledEvent_def Let_def timer_view_def timer_query_defs
      split: prod.splits)

lemma timer_cancel_fields [simp]:
  "ic (timer_cancelScheduledEvent i s) = ic s" "clock (timer_cancelScheduledEvent i s) = clock s"
  "timer_regs (timers (timer_cancelScheduledEvent i s) j) = timer_regs (timers s j)"
  "t_interruptController (timers (timer_cancelScheduledEvent i s) j) = t_interruptController (timers s j)"
  "t_interruptId (timers (timer_cancelScheduledEvent i s) j) = t_interruptId (timers s j)"
  "t_scheduler (timers (timer_cancelScheduledEvent i s) j) = t_scheduler (timers s j)"
  "t_clock (timers (timer_cancelScheduledEvent i s) j) = t_clock (timers s j)"
  "t_lastClockCycles (timers (timer_cancelScheduledEvent i s) j) = t_lastClockCycles (timers s j)"
  "t_ctrlRegister (timers (timer_cancelScheduledEvent i s) j) = t_ctrlRegister (timers s j)"
  "t_countRegister (timers (timer_cancelScheduledEvent i s) j) = t_countRegister (timers s j)"
  "t_compareRegister (timers (timer_cancelScheduledEvent i s) j) = t_compareRegister (timers s j)"
  "t_statusRegister (timers (timer_cancelScheduledEvent i s) j) = t_statusRegister (timers s j)"
  "reg_objs (timer_cancelScheduledEvent i s) = reg_objs s"
  "m_registers (timer_cancelScheduledEvent i s) = m_registers s"
  "reg_get r (timer_cancelScheduledEvent i s) = reg_get r s"
  by (simp_all add: timer_cancelScheduledEvent_def timer_regs_def reg_get_def)

lemma timer_sync_fields [simp]:
  "ic (timer_syncClock i s) = ic s" "clock (timer_syncClock i s) = clock s"
  "esched (timer_syncClock i s) = esched s"
  "timer_regs (timers (timer_syncClock i s) j) = timer_regs (timers s j)"
  "t_interruptController (timers (timer_syncClock i s) j) = t_interruptController (timers s j)"
  "t_interruptId (timers (timer_syncClock i s) j) = t_interruptId (timers s j)"
  "t_scheduler (timers (timer_syncClock i s) j) = t_scheduler (timers s j)"
  "t_clock (timers (timer_syncClock i s) j) = t_clock (timers s j)"
  "t_scheduledEventId (timers (timer_syncClock i s) j) = t_scheduledEventId (timers s j)"
  "t_ctrlRegister (timers (timer_syncClock i s) j) = t_ctrlRegister (timers s j)"
  "t_countRegister (timers (timer_syncClock i s) j) = t_countRegister (timers s j)"
  "t_compareRegister (timers (timer_syncClock i s) j) = t_compareRegister (timers s j)"
  "t_statusRegister (timers (timer_syncClock i s) j) = t_statusRegister (timers s j)"
  "reg_objs (timer_syncClock i s) = reg_objs s"
  "m_registers (timer_syncClock i s) = m_registers s"
  "reg_get r (timer_syncClock i s) = reg_get r s"
  by (simp_all add: timer_syncClock_def timer_regs_def reg_get_def)

lemma timer_wf_distinct:
  assumes "timer_wf i s"
  shows "ic_pendingRegister (ic s) \<noteq> t_ctrlRegister (timers s i)"
    and "ic_pendingRegister (ic s) \<noteq> t_countRegister (timers s i)"
    and "ic_pendingRegister (ic s) \<noteq> t_compareRegister (timers s i)"
    and "ic_pendingRegister (ic s) \<noteq> t_statusRegister (timers s i)"
    and "t_ctrlRegister (timers s i) \<noteq> t_countRegister (timers s i)"
    and "t_ctrlRegister (timers s i) \<noteq> t_compareRegister (timers s i)"
    and "t_ctrlRegister (timers s i) \<noteq> t_statusRegister (timers s i)"
    and "t_countRegister (timers s i) \<noteq> t_compareRegister (timers s i)"
    and "t_countRegister (timers s i) \<noteq> t_statusRegister (timers s i)"
    and "t_compareRegister (timers s i) \<noteq> t_statusRegister (timers s i)"
  using assms by (simp_all add: timer_wf_def timer_regs_def)

lemmas timer_wf_neqs = timer_wf_distinct timer_wf_distinct [symmetric]

text \<open>Writing one of the timer's registers changes one field of its view.\<close>

lemma timer_view_put:
  assumes "timer_wf i s"
  shows "timer_view i (reg_put (t_ctrlRegister (timers s i)) v s) = (timer_view i s)\<lparr>at_running := test_flag v 0\<rparr>"
    and "timer_view i (reg_put (t_countRegister (timers s i)) v s) = (timer_view i s)\<lparr>at_count := v\<rparr>"
    and "timer_view i (reg_put (t_compareRegister (timers s i)) v s) = (timer_view i s)\<lparr>at_compare := v\<rparr>"
    and "timer_view i (reg_put (t_statusRegister (timers s i)) v s) = (timer_view i s)\<lparr>at_match := test_flag v 0\<rparr>"
    and "timer_view i (reg_put (ic_pendingRegister (ic s)) v s) = timer_view i s"
  using timer_wf_neqs [OF assms]
  by (simp_all add: timer_view_def timer_query_defs)

lemma timer_view_rst:
  assumes "timer_wf i s"
  shows "timer_view i (reg_rst (t_ctrlRegister (timers s i)) s) = (timer_view i s)\<lparr>at_running := False\<rparr>"
    and "timer_view i (reg_rst (t_countRegister (timers s i)) s) = (timer_view i s)\<lparr>at_count := 0\<rparr>"
    and "timer_view i (reg_rst (t_statusRegister (timers s i)) s) = (timer_view i s)\<lparr>at_match := False\<rparr>"
  using timer_wf_neqs [OF assms] assms
  by (simp_all add: timer_view_def timer_query_defs) (simp_all add: timer_wf_def timer_regs_def)

lemma timer_wf_put [simp]:
  "timer_wf i (reg_put r v s) = timer_wf i s" "timer_wf i (reg_rst r s) = timer_wf i s"
  "timer_wf i (timer_syncClock j s) = timer_wf i s"
  "timer_wf i (timer_cancelScheduledEvent j s) = timer_wf i s"
  by (simp_all add: timer_wf_def)

lemma timer_wf_stop [simp]: "timer_wf i (timer_stop j s) = timer_wf i s"
  by (simp add: timer_stop_def Let_def)

lemma timer_wf_update [simp]: "timer_wf i (timer_updateScheduledEvent j s) = timer_wf i s"
  by (simp add: timer_wf_def timer_updateScheduledEvent_def Let_def split: prod.splits)

lemma timer_wf_ops [simp]:
  "timer_wf i (timer_start j s) = timer_wf i s"
  "timer_wf i (timer_setCompare j v s) = timer_wf i s"
  "timer_wf i (timer_setInterruptEnabled j b s) = timer_wf i s"
  by (simp_all add: timer_start_def timer_setCompare_def timer_setInterruptEnabled_def Let_def)

lemma timer_update_fields [simp]:
  "t_scheduler (timers (timer_updateScheduledEvent i s) j) = t_scheduler (timers s j)"
  "t_clock (timers (timer_updateScheduledEvent i s) j) = t_clock (timers s j)"
  "t_interruptController (timers (timer_updateScheduledEvent i s) j) = t_interruptController (timers s j)"
  "t_interruptId (timers (timer_updateScheduledEvent i s) j) = t_interruptId (timers s j)"
  "ic (timer_updateScheduledEvent i s) = ic s" "clock (timer_updateScheduledEvent i s) = clock s"
  by (simp_all add: timer_updateScheduledEvent_def Let_def split: prod.splits)

lemma timer_ops_fields [simp]:
  "t_scheduler (timers (timer_start i s) j) = t_scheduler (timers s j)"
  "t_clock (timers (timer_start i s) j) = t_clock (timers s j)"
  "t_interruptController (timers (timer_start i s) j) = t_interruptController (timers s j)"
  "t_interruptId (timers (timer_start i s) j) = t_interruptId (timers s j)" "ic (timer_start i s) = ic s"
  "t_scheduler (timers (timer_setCompare i v s) j) = t_scheduler (timers s j)"
  "t_clock (timers (timer_setCompare i v s) j) = t_clock (timers s j)"
  "timers (timer_setInterruptEnabled i b s) = timers s" "ic (timer_setInterruptEnabled i b s) = ic s"
  by (simp_all add: timer_start_def timer_setCompare_def timer_setInterruptEnabled_def Let_def)

lemma timer_stop_fields [simp]:
  "timers (timer_stop i s) j = timers (timer_cancelScheduledEvent i s) j"
  "ic (timer_stop i s) = ic s" "clock (timer_stop i s) = clock s"
  by (simp_all add: timer_stop_def Let_def timer_cancelScheduledEvent_def)

lemma timer_view_stop:
  "timer_wf i s \<Longrightarrow> timer_view i (timer_stop i s) = (timer_view i s)\<lparr>at_running := False\<rparr>"
  by (simp add: timer_stop_def Let_def timer_view_put flag_simps)

lemma timer_view_start:
  "timer_wf i s \<Longrightarrow> timer_view i (timer_start i s) = (timer_view i s)\<lparr>at_running := True\<rparr>"
  by (simp add: timer_start_def Let_def timer_view_put flag_simps)

lemma timer_view_setCompare:
  "timer_wf i s \<Longrightarrow> timer_view i (timer_setCompare i v s) = (timer_view i s)\<lparr>at_compare := v\<rparr>"
  by (simp add: timer_setCompare_def timer_view_put)

lemma timer_view_reset:
  assumes "timer_wf i s"
  shows "timer_view i (timer_reset i s) =
     \<lparr>at_running = False, at_count = 0, at_compare = timer_compare i s, at_match = False\<rparr>"
proof -
  let ?a = "timer_stop i s"
  let ?b = "reg_rst (t_countRegister (timers ?a i)) ?a"
  let ?c = "reg_rst (t_statusRegister (timers ?b i)) ?b"
  have "timer_view i (timer_reset i s) = timer_view i (reg_rst (t_ctrlRegister (timers ?c i)) ?c)"
    by (simp add: timer_reset_def Let_def)
  also have "\<dots> = (timer_view i ?c)\<lparr>at_running := False\<rparr>" by (rule timer_view_rst) (simp add: assms)
  also have "timer_view i ?c = (timer_view i ?b)\<lparr>at_match := False\<rparr>" by (rule timer_view_rst) (simp add: assms)
  also have "timer_view i ?b = (timer_view i ?a)\<lparr>at_count := 0\<rparr>" by (rule timer_view_rst) (simp add: assms)
  finally show ?thesis by (simp add: timer_view_stop [OF assms]) (simp add: timer_view_def)
qed

lemma timer_view_trigger:
  "timer_wf i s \<Longrightarrow> timer_view i (snd (ic_trigger q s)) = timer_view i s"
  by (simp add: ic_trigger_def Let_def timer_view_put)

lemma timer_wf_trigger [simp]: "timer_wf i (snd (ic_trigger q s)) = timer_wf i s"
  by (simp add: ic_trigger_def Let_def)

text \<open>The compare match stops the counter at the compare value and sets the flag.\<close>

lemma timer_view_match:
  assumes wf: "timer_wf i s" and run: "timer_running i s"
  shows "timer_view i (snd (timer_handleCompareMatch i s)) =
    (timer_view i s)\<lparr>at_running := False, at_count := timer_compare i s, at_match := True\<rparr>"
proof -
  let ?c = "reg_put (t_countRegister (timers s i)) (timer_compare i s) s"
  let ?m = "reg_put (t_statusRegister (timers ?c i))
    (set_flag (reg_get (t_statusRegister (timers ?c i)) ?c) 0) ?c"
  have "timer_view i (snd (timer_handleCompareMatch i s)) = timer_view i (timer_stop i ?m)"
    using run wf by (simp add: timer_handleCompareMatch_def Let_def timer_view_trigger)
  also have "\<dots> = (timer_view i ?m)\<lparr>at_running := False\<rparr>" by (rule timer_view_stop) (simp add: wf)
  also have "timer_view i ?m = (timer_view i ?c)\<lparr>at_match := True\<rparr>"
    using wf by (subst timer_view_put(4)) (simp_all add: flag_simps)
  also have "timer_view i ?c = (timer_view i s)\<lparr>at_count := timer_compare i s\<rparr>"
    using wf by (rule timer_view_put)
  finally show ?thesis by simp
qed

text \<open>
  The trigger at the end of a match is the only thing that can throw, for an interrupt number
  outside 0--31.
\<close>

definition timer_irq_ok :: "nat \<Rightarrow> 'z timer_st_scheme \<Rightarrow> bool" where
  "timer_irq_ok i s \<longleftrightarrow>
     (t_interruptController (timers s i) \<longrightarrow> ic_validId (t_interruptId (timers s i)))"

lemma timer_match_outcome:
  "fst (timer_handleCompareMatch i s) =
     (if timer_running i s \<and> \<not> timer_irq_ok i s then Inl OutOfRange else Inr ())"
  by (simp add: timer_handleCompareMatch_def Let_def timer_stop_def timer_irq_ok_def ic_trigger_def)

lemma timer_view_tick_plain:
  assumes "timer_wf i s" and "\<not> t_scheduler (timers s i)" and "timer_stepAmount i s = 1"
  shows "timer_view i (snd (timer_tick i s)) = abs_tick (timer_view i s)"
proof (cases "timer_running i s")
  case True
  let ?y = "timer_syncClock i s"
  let ?k = "reg_put (t_countRegister (timers ?y i)) (timer_counter i s + 1) ?y"
  have wf: "timer_wf i ?k" by (simp add: assms(1))
  have view: "timer_view i ?k = (timer_view i s)\<lparr>at_count := timer_counter i s + 1\<rparr>"
    using assms(1) by (subst timer_view_put(2)) simp_all
  then have run: "timer_running i ?k" and cmp: "timer_compare i ?k = timer_compare i s"
    using True by (simp_all add: timer_view_def)
  have "timer_view i (snd (timer_tick i s)) =
      (if timer_compare i s \<le> timer_counter i s + 1
       then timer_view i (snd (timer_handleCompareMatch i ?k)) else timer_view i ?k)"
    using True assms(2,3)
    by (simp add: timer_tick_def Let_def timer_counter_def timer_compare_def)
  then show ?thesis
    using True view cmp timer_view_match [OF wf run] by (simp add: abs_tick_def timer_view_def)
next
  case False
  then have "snd (timer_tick i s) = timer_syncClock i s" by (simp add: timer_tick_def)
  with False show ?thesis by (simp add: abs_tick_def [of "timer_view i s"]) (simp add: timer_view_def)
qed

section \<open>A timer owns at most one pending event\<close>

definition timer_owns :: "nat \<Rightarrow> 'z timer_st_scheme \<Rightarrow> bool" where
  "timer_owns i s \<longleftrightarrow> sched_inv (esched s) \<and>
     (\<forall>k t. sched_agenda (esched s) k = Some (t, TimerMatch i) \<longrightarrow>
        k = t_scheduledEventId (timers s i) \<and> t_scheduler (timers s i))"

lemma timer_cancel_owns:
  assumes "timer_owns i s"
  shows "timer_owns i (timer_cancelScheduledEvent i s)"
    and "sched_agenda (esched (timer_cancelScheduledEvent i s)) k \<noteq> Some (t, TimerMatch i)"
    and "sched_room (esched (timer_cancelScheduledEvent i s)) = sched_room (esched s)"
proof -
  let ?s = "timer_cancelScheduledEvent i s" and ?e = "t_scheduledEventId (timers s i)"
  have inv: "sched_inv (esched s)" using assms by (simp add: timer_owns_def)
  have none: "sched_agenda (esched ?s) k \<noteq> Some (t, TimerMatch i)" for k t
  proof (cases "?e \<noteq> 0 \<and> t_scheduler (timers s i)")
    case True
    then show ?thesis
      using assms evs.cancel_agenda [OF inv, of ?e]
      by (auto simp: timer_cancelScheduledEvent_def timer_owns_def)
  next
    case False
    then show ?thesis
      using assms evs.zero_unused [OF inv]
      by (auto simp: timer_cancelScheduledEvent_def timer_owns_def)
  qed
  have "sched_inv (esched ?s)" using inv by (simp add: timer_cancelScheduledEvent_def evs.cancel_ok)
  with none show "timer_owns i ?s" by (simp add: timer_owns_def)
  show "sched_agenda (esched ?s) k \<noteq> Some (t, TimerMatch i)" by (rule none)
  show "sched_room (esched ?s) = sched_room (esched s)"
    by (simp add: timer_cancelScheduledEvent_def evs.cancel_room)
qed

text \<open>The event a running timer asks for, if any: its due cycle.\<close>

definition timer_due :: "nat \<Rightarrow> 'z timer_st_scheme \<Rightarrow> u64 option" where
  "timer_due i s =
     (if timer_running i s \<and> t_scheduler (timers s i) \<and> timer_counter i s < timer_compare i s
      then Some ((if t_clock (timers s i) then m_cycles (clock s) else 0)
                 + ucast (timer_compare i s - timer_counter i s))
      else None)"

lemma timer_update_eq:
  "timer_updateScheduledEvent i s =
     (case timer_due i s of
        None \<Rightarrow> timer_cancelScheduledEvent i s
      | Some t \<Rightarrow>
          let s' = timer_cancelScheduledEvent i s;
              p = sched_post (TimerMatch i) t ''Timer Compare Match'' (esched s')
          in upd_timer i (\<lambda>t. t\<lparr>t_scheduledEventId := fst p\<rparr>) (s'\<lparr>esched := snd p\<rparr>))"
  by (cases "timer_running i s"; cases "timer_compare i s \<le> timer_counter i s")
    (simp_all add: timer_updateScheduledEvent_def Let_def timer_due_def timer_query_defs sched_post_def
      not_le split_beta)

lemma timer_update_owns:
  assumes "timer_owns i s" and "sched_room (esched s)"
  shows "timer_owns i (timer_updateScheduledEvent i s)"
    and "(\<exists>k. sched_agenda (esched (timer_updateScheduledEvent i s)) k = Some (t, TimerMatch i))
       \<longleftrightarrow> timer_due i s = Some t"
proof -
  let ?s = "timer_cancelScheduledEvent i s" and ?u = "timer_updateScheduledEvent i s"
  note cancel = timer_cancel_owns [OF assms(1)]
  have ok: "sched_inv (esched ?s)" and room: "sched_room (esched ?s)"
    using cancel(1,3) assms(2) by (simp_all add: timer_owns_def)
  have "timer_owns i ?u \<and> ((\<exists>k. sched_agenda (esched ?u) k = Some (t, TimerMatch i))
       \<longleftrightarrow> timer_due i s = Some t)"
  proof (cases "timer_due i s")
    case None
    then show ?thesis using cancel by (simp add: timer_update_eq)
  next
    case (Some d)
    then have "t_scheduler (timers s i)" by (simp add: timer_due_def split: if_splits)
    then show ?thesis
      using Some cancel evs.post_ok [OF ok room] evs.post_agenda [OF ok]
      by (auto simp: timer_update_eq timer_owns_def Let_def)
  qed
  then show "timer_owns i ?u"
    and "(\<exists>k. sched_agenda (esched ?u) k = Some (t, TimerMatch i)) \<longleftrightarrow> timer_due i s = Some t"
    by simp_all
qed

lemma timer_owns_frame [simp]:
  "timer_owns i (reg_put r v s) = timer_owns i s" "timer_owns i (reg_rst r s) = timer_owns i s"
  "timer_owns i (timer_syncClock i s) = timer_owns i s"
  "timer_owns i (snd (ic_trigger q s)) = timer_owns i s"
  by (simp_all add: timer_owns_def timer_syncClock_def ic_trigger_def Let_def)

lemma sched_room_frame [simp]:
  "sched_room (esched (timer_cancelScheduledEvent i s)) = sched_room (esched s)"
  by (simp add: timer_cancelScheduledEvent_def evs.cancel_room)

lemma timer_stop_owns [inv_intros]: "timer_owns i s \<Longrightarrow> timer_owns i (timer_stop i s)"
  by (simp add: timer_stop_def Let_def timer_cancel_owns)

lemma timer_match_owns [inv_intros]:
  "timer_owns i s \<Longrightarrow> timer_owns i (snd (timer_handleCompareMatch i s))"
  by (simp add: timer_handleCompareMatch_def Let_def timer_stop_owns)

text \<open>
  A timer whose pointer to the scheduler is set to null by \<^verbatim>\<open>attachScheduler\<close> leaves its event behind and keeps the
  identifier. This is what holds then, too.
\<close>

definition timer_one :: "nat \<Rightarrow> 'z timer_st_scheme \<Rightarrow> bool" where
  "timer_one i s \<longleftrightarrow> sched_inv (esched s) \<and>
     (\<forall>k t. sched_agenda (esched s) k = Some (t, TimerMatch i) \<longrightarrow> k = t_scheduledEventId (timers s i))"

lemma timer_one_owns: "timer_one i s \<Longrightarrow> t_scheduler (timers s i) \<Longrightarrow> timer_owns i s"
  by (simp add: timer_one_def timer_owns_def)

lemma timer_owns_one: "timer_owns i s \<Longrightarrow> timer_one i s"
  by (simp add: timer_one_def timer_owns_def)

lemma timer_one_frame [simp]:
  "timer_one i (reg_put r v s) = timer_one i s" "timer_one i (reg_rst r s) = timer_one i s"
  "timer_one i (timer_syncClock i s) = timer_one i s"
  "timer_one i (snd (ic_trigger q s)) = timer_one i s"
  by (simp_all add: timer_one_def timer_syncClock_def ic_trigger_def Let_def)

lemma timer_idle_update: "\<not> t_scheduler (timers s i) \<Longrightarrow> timer_cancelScheduledEvent i s = s \<and> timer_updateScheduledEvent i s = s"
  by (simp add: timer_updateScheduledEvent_def timer_cancelScheduledEvent_def Let_def)

lemma timer_cancel_one:
  assumes "timer_one i s"
  shows "timer_one i (timer_cancelScheduledEvent i s)"
proof (cases "t_scheduler (timers s i)")
  case True
  then show ?thesis using timer_owns_one [OF timer_cancel_owns(1) [OF timer_one_owns [OF assms True]]] by simp
qed (use assms in \<open>simp add: timer_idle_update\<close>)

lemma timer_update_one:
  assumes "timer_one i s" and "sched_room (esched s)"
  shows "timer_one i (timer_updateScheduledEvent i s)"
proof (cases "t_scheduler (timers s i)")
  case True
  then show ?thesis using timer_owns_one [OF timer_update_owns(1) [OF timer_one_owns [OF assms(1) True] assms(2)]] by simp
qed (use assms in \<open>simp add: timer_idle_update\<close>)

lemma timer_stop_one [inv_intros]: "timer_one i s \<Longrightarrow> timer_one i (timer_stop i s)"
  by (simp add: timer_stop_def Let_def timer_cancel_one)

lemma timer_match_one [inv_intros]:
  "timer_one i s \<Longrightarrow> timer_one i (snd (timer_handleCompareMatch i s))"
  by (simp add: timer_handleCompareMatch_def Let_def timer_stop_one)

text \<open>
  The operations of one timer, and what the rest of the program does to its scheduler: \<open>TTakeDue\<close> takes the events that
  are due out of the queue, \<open>TFire\<close> is the delivery of the timer's, and \<open>TPost\<close>, \<open>TCancel\<close> and \<open>TClear\<close> are the
  calls of others.
\<close>

datatype timer_op =
  TStart | TStop | TReset | TSetCompare u32 | TClearMatch | TIntEnable bool | TAutoReset bool
| TTick | TFire | TAttachClock bool | TDetachClock | TAttachScheduler bool | TDetachScheduler
| TTakeDue u64 | TPost nat u64 string | TCancel u64 | TClear

fun timer_apply :: "nat \<Rightarrow> timer_op \<Rightarrow> 'z timer_st_scheme \<Rightarrow> 'z timer_st_scheme" where
  "timer_apply i TStart s = timer_start i s"
| "timer_apply i TStop s = timer_stop i s"
| "timer_apply i TReset s = timer_reset i s"
| "timer_apply i (TSetCompare v) s = timer_setCompare i v s"
| "timer_apply i TClearMatch s = timer_clearMatch i s"
| "timer_apply i (TIntEnable b) s = timer_setInterruptEnabled i b s"
| "timer_apply i (TAutoReset b) s = timer_setAutoReset i b s"
| "timer_apply i TTick s = snd (timer_tick i s)"
| "timer_apply i TFire s = snd (timer_handleCompareMatch i s)"
| "timer_apply i (TAttachClock b) s = timer_attachClock i b s"
| "timer_apply i TDetachClock s = timer_detachClock i s"
| "timer_apply i (TAttachScheduler ptr) s = timer_attachScheduler i ptr s"
| "timer_apply i TDetachScheduler s = timer_detachScheduler i s"
| "timer_apply i (TTakeDue now) s = s\<lparr>esched := later now (esched s)\<rparr>"
| "timer_apply i (TPost f t d) s = s\<lparr>esched := snd (sched_post (UserCallback f) t d (esched s))\<rparr>"
| "timer_apply i (TCancel k) s = s\<lparr>esched := snd (sched_cancel k (esched s))\<rparr>"
| "timer_apply i TClear s = s\<lparr>esched := sched_clear (esched s)\<rparr>"

lemma later_agenda:
  assumes "sched_inv q"
  shows "sched_inv (later now q)" and "sched_agenda (later now q) k = Some x \<Longrightarrow> sched_agenda q k = Some x"
proof -
  have dist: "distinct (map ev_id (m_events q))" using assms by (simp add: sched_inv_def)
  then show "sched_inv (later now q)" using assms by (auto simp: sched_inv_def later_def distinct_map_filter)
  assume "sched_agenda (later now q) k = Some x"
  then obtain e where "List.find (\<lambda>e. ev_id e = k) (m_events (later now q)) = Some e" and x: "x = (ev_cycle e, the (ev_callback e))"
    by (auto simp: sched_agenda_def)
  then have e: "e \<in> set (m_events q)" "ev_id e = k" by (auto simp: later_def dest: find_SomeD)
  then have "List.find (\<lambda>e. ev_id e = k) (m_events q) \<noteq> None" by (auto simp: find_None_iff)
  then obtain e' where e': "List.find (\<lambda>e. ev_id e = k) (m_events q) = Some e'" by blast
  then have "e' \<in> set (m_events q)" "ev_id e' = k" by (auto dest: find_SomeD)
  then have "e' = e" using e dist by (auto simp: distinct_map dest: inj_onD)
  then show "sched_agenda q k = Some x" using x e' by (simp add: sched_agenda_def)
qed

lemma clear_agenda: "sched_inv q \<Longrightarrow> sched_inv (sched_clear q)" "sched_agenda (sched_clear q) k = None"
  by (simp_all add: sched_inv_def sched_clear_def sched_agenda_def)

lemma timer_one_apply:
  assumes one: "timer_one i s" and room: "sched_room (esched s)"
  shows "timer_one i (timer_apply i q s)"
proof -
  have inv: "sched_inv (esched s)" using one by (simp add: timer_one_def)
  have upd: "timer_one i (timer_updateScheduledEvent i t)"
    if "timer_one i t" and "esched t = esched s" for t
    using timer_update_one [OF that(1)] that(2) room by simp
  have flag: "timer_one i (upd_timer i (\<lambda>t. t\<lparr>t_scheduler := b\<rparr>) t) = timer_one i t" for b t
    by (simp add: timer_one_def)
  show ?thesis
  proof (cases q)
    case (TAttachScheduler b)
    then show ?thesis using one by (simp add: timer_attachScheduler_def upd flag)
  next
    case TDetachScheduler
    then show ?thesis using timer_cancel_one [OF one] by (simp add: timer_detachScheduler_def flag)
  next
    case (TAttachClock b)
    then show ?thesis using one by (simp add: timer_attachClock_def) (simp add: timer_one_def)
  next
    case TDetachClock
    then show ?thesis using one by (simp add: timer_detachClock_def timer_one_def)
  next
    case (TTakeDue now)
    then show ?thesis using one later_agenda [OF inv] by (auto simp: timer_one_def)
  next
    case (TPost f t d)
    then show ?thesis
      using one evs.post_ok [OF inv room] evs.post_agenda [OF inv] by (auto simp: timer_one_def split: if_splits)
  next
    case (TCancel k)
    then show ?thesis
      using one evs.cancel_ok [OF inv] evs.cancel_agenda [OF inv] by (auto simp: timer_one_def split: if_splits)
  next
    case TClear
    then show ?thesis using clear_agenda [of "esched s"] inv by (simp add: timer_one_def)
  qed (use one in \<open>simp_all add: timer_start_def timer_setCompare_def timer_reset_def timer_tick_def upd timer_stop_one
      timer_match_one timer_clearMatch_def Let_def timer_setInterruptEnabled_def timer_setAutoReset_def\<close>)
qed

text \<open>Each operation posts at most one event, so a run of operations needs that much room.\<close>

definition id_slack :: "nat \<Rightarrow> 'c event_queue \<Rightarrow> bool" where
  "id_slack n q \<longleftrightarrow> unat (m_nextId q) + n < 2 ^ 64"

lemma id_slack_room: "id_slack (Suc n) q \<Longrightarrow> sched_room q"
  by (auto simp: id_slack_def sched_room_def unat_minus_one_u64)

lemma id_slack_cancel [simp]: "id_slack n (snd (sched_cancel i q)) = id_slack n q"
  by (simp add: id_slack_def sched_cancel_def)

lemma id_slack_weaken: "id_slack (Suc n) q \<Longrightarrow> id_slack n q"
  by (simp add: id_slack_def)

lemma id_slack_post: "id_slack (Suc n) q \<Longrightarrow> id_slack n (snd (sched_post c t d q))"
  using id_slack_room [of n q]
  by (simp add: id_slack_def sched_post_def sched_schedule_def sched_room_def unat_plus_one)

lemma id_slack_timer_cancel [simp]:
  "id_slack n (esched (timer_cancelScheduledEvent i s)) = id_slack n (esched s)"
  by (simp add: timer_cancelScheduledEvent_def)

lemma id_slack_timer_update:
  "id_slack (Suc n) (esched s) \<Longrightarrow> id_slack n (esched (timer_updateScheduledEvent i s))"
  by (auto simp: timer_update_eq Let_def id_slack_post dest: id_slack_weaken split: option.splits)

lemma timer_stop_slack [simp]: "id_slack n (esched (timer_stop i s)) = id_slack n (esched s)"
  by (simp add: timer_stop_def Let_def)

lemma ic_trigger_fields [simp]:
  "timers (snd (ic_trigger q s)) = timers s" "esched (snd (ic_trigger q s')) = esched s'"
  "clock (snd (ic_trigger q s')) = clock s'"
  by (simp_all add: ic_trigger_def Let_def)

lemma timer_match_slack [simp]:
  "id_slack n (esched (snd (timer_handleCompareMatch i s))) = id_slack n (esched s)"
  by (simp add: timer_handleCompareMatch_def Let_def)

lemma id_slack_others [simp]: "id_slack n (later now q) = id_slack n q" "id_slack n (sched_clear q) = id_slack n q"
  by (simp_all add: id_slack_def later_def sched_clear_def)

lemma id_slack_apply:
  "id_slack (Suc n) (esched s) \<Longrightarrow> id_slack n (esched (timer_apply i q s))"
  by (cases q)
    (auto simp: timer_start_def timer_reset_def timer_setCompare_def timer_clearMatch_def
      timer_setInterruptEnabled_def timer_setAutoReset_def timer_tick_def timer_attachClock_def
      timer_detachClock_def timer_attachScheduler_def timer_detachScheduler_def Let_def
      intro: id_slack_timer_update id_slack_post dest: id_slack_weaken)

section \<open>Ticks of a polled timer\<close>

lemma timer_stop_flags [simp]:
  "t_scheduler (timers (timer_stop i s) j) = t_scheduler (timers s j)"
  "t_clock (timers (timer_stop i s) j) = t_clock (timers s j)"
  "t_interruptController (timers (timer_stop i s) j) = t_interruptController (timers s j)"
  "t_interruptId (timers (timer_stop i s) j) = t_interruptId (timers s j)"
  by (simp_all add: timer_stop_def Let_def)

lemma timer_match_flags [simp]:
  "t_scheduler (timers (snd (timer_handleCompareMatch i s)) j) = t_scheduler (timers s j)"
  "t_clock (timers (snd (timer_handleCompareMatch i s)) j) = t_clock (timers s j)"
  "timer_wf j (snd (timer_handleCompareMatch i s)) = timer_wf j s"
  by (simp_all add: timer_handleCompareMatch_def Let_def)

lemma timer_tick_flags [simp]:
  "t_scheduler (timers (snd (timer_tick i s)) j) = t_scheduler (timers s j)"
  "t_clock (timers (snd (timer_tick i s)) j) = t_clock (timers s j)"
  "timer_wf j (snd (timer_tick i s)) = timer_wf j s"
  by (simp_all add: timer_tick_def Let_def)

definition timer_ticks :: "nat \<Rightarrow> nat \<Rightarrow> 'z timer_st_scheme \<Rightarrow> 'z timer_st_scheme" where
  "timer_ticks i k s = ((\<lambda>s. snd (timer_tick i s)) ^^ k) s"

lemma timer_ticks_keeps:
  "t_scheduler (timers (timer_ticks i k s) j) = t_scheduler (timers s j)"
  "t_clock (timers (timer_ticks i k s) j) = t_clock (timers s j)"
  "timer_wf j (timer_ticks i k s) = timer_wf j s"
  by (induction k) (simp_all add: timer_ticks_def)

lemma timer_ticks_view:
  assumes "timer_wf i s" and "\<not> t_scheduler (timers s i)" and "\<not> t_clock (timers s i)"
  shows "timer_view i (timer_ticks i k s) = (abs_tick ^^ k) (timer_view i s)"
proof (induction k)
  case (Suc k)
  have "timer_view i (snd (timer_tick i (timer_ticks i k s))) = abs_tick (timer_view i (timer_ticks i k s))"
    by (rule timer_view_tick_plain) (simp_all add: timer_ticks_keeps assms timer_stepAmount_def)
  with Suc show ?case by (simp add: timer_ticks_def)
qed (simp add: timer_ticks_def)

section \<open>Ticks of an event-driven timer\<close>

lemma timer_tick_sched:
  assumes "timer_wf i s" and "t_scheduler (timers s i)"
  shows "timer_running i (snd (timer_tick i s)) = timer_running i s"
    and "timer_hasMatch i (snd (timer_tick i s)) = timer_hasMatch i s"
    and "timer_compare i (snd (timer_tick i s)) = timer_compare i s"
    and "esched (snd (timer_tick i s)) = esched s"
  using assms(2) timer_wf_neqs [OF assms(1)]
  by (simp_all add: timer_tick_def Let_def timer_query_defs)

lemma timer_ticks_sched:
  assumes "timer_wf i s" and "t_scheduler (timers s i)"
  shows "timer_running i (timer_ticks i k s) = timer_running i s \<and>
    timer_hasMatch i (timer_ticks i k s) = timer_hasMatch i s \<and>
    esched (timer_ticks i k s) = esched s"
proof (induction k)
  case (Suc k)
  then show ?case
    using timer_tick_sched [of i "timer_ticks i k s"] assms
    by (simp add: timer_ticks_keeps) (simp add: timer_ticks_def)
qed (simp add: timer_ticks_def)

section \<open>A concrete timer\<close>

text \<open>
  A timer at \<^verbatim>\<open>0x40000100\<close> beside the interrupt controller of \<open>demo_ic\<close>, wired to line 5.
\<close>

definition blank_timer :: timer where
  "blank_timer = \<lparr>t_base = 0, t_ctrlRegister = 0, t_countRegister = 0, t_compareRegister = 0,
     t_statusRegister = 0, t_interruptController = False, t_interruptId = 0, t_clock = False,
     t_scheduler = False, t_scheduledEventId = 0, t_lastClockCycles = 0\<rparr>"

definition demo_timer :: timer_st where
  "demo_timer =
     (let s0 = \<lparr>reg_objs = reg_objs demo_ic, next_ref = next_ref demo_ic,
                m_registers = m_registers demo_ic, ic = ic demo_ic,
                clock = \<lparr>m_frequencyHz = DEFAULT_FREQUENCY_HZ, m_cycles = 0\<rparr>,
                esched = sched_init, timers = \<lambda>_. blank_timer\<rparr>;
          (r, s) = timer_init 0x40000100 s0;
          s = upd_timer 0 (\<lambda>_. projr r) s
      in timer_attachInterruptController 0 True 5 (ic_apply (RegisterIrq 5) s))"

lemma demo_timer_wf: "timer_wf 0 demo_timer"
  by code_simp

lemma demo_timer_plain: "\<not> t_scheduler (timers demo_timer 0)" "\<not> t_clock (timers demo_timer 0)"
  "\<not> timer_running 0 demo_timer" "esched demo_timer = sched_init"
  "t_interruptController (timers demo_timer 0)" "t_interruptId (timers demo_timer 0) = 5"
  "ic_registered (ic demo_timer) ! 5"
  by code_simp+

lemma demo_timer_view:
  "timer_view 0 demo_timer = \<lparr>at_running = False, at_count = 0, at_compare = 0, at_match = False\<rparr>"
  by code_simp

lemma sched_init_inv: "sched_inv sched_init"
  by (simp add: sched_inv_def sched_init_def)

lemma demo_timer_owns: "timer_owns 0 demo_timer" "id_slack 100 (esched demo_timer)"
  by (simp_all add: timer_owns_def demo_timer_plain sched_init_inv sched_agenda_def)
    (simp_all add: sched_init_def id_slack_def)

section \<open>Properties\<close>

text \<open>
  C5. A polled timer implements its specification. Without clock and scheduler, any number of ticks
  drives the four registers through the abstract timer. A running timer at \<open>c\<close> below its compare
  value \<open>m\<close> counts one per tick without a match for fewer than \<open>m - c\<close> ticks; after exactly
  \<open>m - c\<close> ticks it has stopped at \<open>m\<close> with the match flag set, and it stays so.
\<close>

theorem timer_polled_refines:
  assumes "timer_wf i s" and "\<not> t_scheduler (timers s i)" and "\<not> t_clock (timers s i)"
  shows "timer_view i (timer_ticks i k s) = (abs_tick ^^ k) (timer_view i s) \<and>
    (timer_running i s \<and> unat (timer_counter i s) + k < unat (timer_compare i s) \<longrightarrow>
       timer_view i (timer_ticks i k s) = (timer_view i s)\<lparr>at_count := timer_counter i s + of_nat k\<rparr>) \<and>
    (timer_running i s \<and> timer_counter i s < timer_compare i s \<and>
       unat (timer_compare i s) \<le> unat (timer_counter i s) + k \<longrightarrow>
       timer_view i (timer_ticks i k s) =
         \<lparr>at_running = False, at_count = timer_compare i s, at_compare = timer_compare i s, at_match = True\<rparr>)"
proof (intro conjI impI)
  let ?a = "timer_view i s"
  have proj: "at_running ?a = timer_running i s" "at_count ?a = timer_counter i s"
    "at_compare ?a = timer_compare i s"
    by (simp_all add: timer_view_def)
  show view: "timer_view i (timer_ticks i k s) = (abs_tick ^^ k) ?a" by (rule timer_ticks_view [OF assms])
  show "timer_view i (timer_ticks i k s) = ?a\<lparr>at_count := timer_counter i s + of_nat k\<rparr>"
    if "timer_running i s \<and> unat (timer_counter i s) + k < unat (timer_compare i s)"
    using that abs_tick_counts [of ?a k] by (simp add: view proj)
  assume late: "timer_running i s \<and> timer_counter i s < timer_compare i s \<and>
       unat (timer_compare i s) \<le> unat (timer_counter i s) + k"
  define m where "m = unat (timer_compare i s) - unat (timer_counter i s)"
  have m: "unat (timer_counter i s) + m = unat (timer_compare i s)" "0 < m" "k = (k - m) + m"
    using late by (simp_all add: m_def word_less_nat_alt)
  have hit: "(abs_tick ^^ m) ?a = ?a\<lparr>at_running := False, at_count := timer_compare i s, at_match := True\<rparr>"
    using late m abs_tick_matches [of ?a m] by (simp add: proj)
  have "(abs_tick ^^ k) ?a = (abs_tick ^^ (k - m)) ((abs_tick ^^ m) ?a)"
    using m(3) by (metis funpow_add comp_apply)
  then show "timer_view i (timer_ticks i k s) =
      \<lparr>at_running = False, at_count = timer_compare i s, at_compare = timer_compare i s, at_match = True\<rparr>"
    by (simp add: view hit abs_tick_stopped) (simp add: timer_view_def)
qed

theorem timer_polled_refines_witness:
  "timer_view 0 (timer_ticks 0 3 (timer_start 0 (timer_setCompare 0 3 demo_timer))) =
     \<lparr>at_running = False, at_count = 3, at_compare = 3, at_match = True\<rparr>"
proof -
  let ?s = "timer_start 0 (timer_setCompare 0 3 demo_timer)"
  have "timer_wf 0 ?s" by (simp add: demo_timer_wf)
  moreover have "\<not> t_scheduler (timers ?s 0)" "\<not> t_clock (timers ?s 0)" by (simp_all add: demo_timer_plain)
  moreover have "timer_view 0 ?s = \<lparr>at_running = True, at_count = 0, at_compare = 3, at_match = False\<rparr>"
    by (simp add: timer_view_start timer_view_setCompare demo_timer_wf demo_timer_view)
  ultimately show ?thesis using timer_polled_refines [of 0 ?s 3] by (simp add: timer_view_def)
qed

text \<open>
  A compare match of a running timer stops it at the compare value, sets the match flag, withdraws
  its event and pends its interrupt line whenever a controller is attached and the line registered.
  The \<^verbatim>\<open>INT_ENABLE\<close> and \<^verbatim>\<open>AUTO_RESET\<close> bits of CTRL play no part: clearing the first does not
  mask the interrupt, and setting the second does not restart the counter. Only an interrupt number
  above 31 makes the match throw, after its effects on the registers.
\<close>

lemma timer_match_effects:
  assumes "timer_wf i s" and "timer_running i s"
  shows "timer_view i (snd (timer_handleCompareMatch i s)) =
      (timer_view i s)\<lparr>at_running := False, at_count := timer_compare i s, at_match := True\<rparr> \<and>
    esched (snd (timer_handleCompareMatch i s)) = esched (timer_cancelScheduledEvent i s) \<and>
    (t_interruptController (timers s i) \<and> ic_validId (t_interruptId (timers s i)) \<and>
       ic_registered (ic s) ! unat (t_interruptId (timers s i)) \<longrightarrow>
       fst (ic_pending (t_interruptId (timers s i)) (snd (timer_handleCompareMatch i s))) = Inr True) \<and>
    (fst (timer_handleCompareMatch i s) = Inl OutOfRange \<longleftrightarrow>
       t_interruptController (timers s i) \<and> \<not> ic_validId (t_interruptId (timers s i)))"
proof (intro conjI impI)
  show "timer_view i (snd (timer_handleCompareMatch i s)) =
      (timer_view i s)\<lparr>at_running := False, at_count := timer_compare i s, at_match := True\<rparr>"
    by (rule timer_view_match [OF assms])
  show "esched (snd (timer_handleCompareMatch i s)) = esched (timer_cancelScheduledEvent i s)"
    using assms(2) by (simp add: timer_handleCompareMatch_def timer_stop_def Let_def
        timer_cancelScheduledEvent_def)
  show "fst (ic_pending (t_interruptId (timers s i)) (snd (timer_handleCompareMatch i s))) = Inr True"
    if "t_interruptController (timers s i) \<and> ic_validId (t_interruptId (timers s i)) \<and>
       ic_registered (ic s) ! unat (t_interruptId (timers s i))"
    using that assms(2)
    by (simp add: timer_handleCompareMatch_def Let_def ic_trigger_def ic_pending_def ic_validId_def
        MAX_INTERRUPTS_def flag_simps)
  show "fst (timer_handleCompareMatch i s) = Inl OutOfRange \<longleftrightarrow>
       t_interruptController (timers s i) \<and> \<not> ic_validId (t_interruptId (timers s i))"
    using assms(2) by (simp add: timer_match_outcome timer_irq_ok_def)
qed

text \<open>
  The scheduler that a timer leaves by attaching another one keeps its event, of which the timer no longer knows the
  identifier: a timer started on one scheduler and attached to a second, of whatever events, is expected by both, and an
  event of the second that has the same identifier is lost.
\<close>

lemma timer_due_again:
  assumes "timer_due i u = Some t"
  shows "timer_due i (upd_timer i (\<lambda>t. t\<lparr>t_scheduler := True\<rparr>) ((timer_updateScheduledEvent i u)\<lparr>esched := q\<rparr>)) = Some t"
proof -
  have "timer_due i (upd_timer i (\<lambda>t. t\<lparr>t_scheduler := True\<rparr>) ((timer_updateScheduledEvent i u)\<lparr>esched := q\<rparr>)) =
      timer_due i (upd_timer i (\<lambda>t. t\<lparr>t_scheduler := True\<rparr>) u)"
    using assms
    by (simp add: timer_update_eq Let_def) (simp add: timer_due_def timer_query_defs timer_cancelScheduledEvent_def)
  also have "\<dots> = Some t"
    using assms by (simp add: timer_due_def timer_query_defs split: if_splits)
  finally show ?thesis .
qed

lemma timer_second_scheduler:
  fixes s :: "'z timer_st_scheme"
  assumes "timer_owns i s" and "sched_room (esched s)" and "sched_inv q" and "sched_room q"
    and due: "timer_due i (timer_syncClock i (reg_put (t_ctrlRegister (timers s i))
                (set_flag (reg_get (t_ctrlRegister (timers s i)) s) 0) s)) = Some t"
  defines "a \<equiv> timer_start i s"
  defines "b \<equiv> timer_attachScheduler i True (a\<lparr>esched := q\<rparr>)"
  shows "\<exists>k. sched_agenda (esched a) k = Some (t, TimerMatch i)"
    and "\<exists>k. sched_agenda (esched b) k = Some (t, TimerMatch i)"
    and "sched_agenda q (t_scheduledEventId (timers a i)) = Some (t', c) \<Longrightarrow>
      sched_agenda (esched b) (t_scheduledEventId (timers a i)) = None"
proof -
  let ?u = "timer_syncClock i (reg_put (t_ctrlRegister (timers s i)) (set_flag (reg_get (t_ctrlRegister (timers s i)) s) 0) s)"
  let ?e = "t_scheduledEventId (timers a i)" and ?q = "snd (sched_cancel (t_scheduledEventId (timers a i)) q)"
  have a: "a = timer_updateScheduledEvent i ?u" by (simp add: a_def timer_start_def Let_def)
  show "\<exists>k. sched_agenda (esched a) k = Some (t, TimerMatch i)"
    unfolding a using timer_update_owns(2) [of i ?u t] assms(1,2) due by simp
  have on: "t_scheduler (timers ?u i)" using due by (auto simp: timer_due_def split: if_splits)
  let ?v = "upd_timer i (\<lambda>t. t\<lparr>t_scheduler := True\<rparr>) (a\<lparr>esched := q\<rparr>)"
  have v: "timer_due i ?v = Some t" unfolding a by (rule timer_due_again [OF due])
  have "sched_inv (esched (timer_cancelScheduledEvent i ?u))"
    using timer_cancel_owns(1) [of i ?u] assms(1) by (simp add: timer_owns_def)
  from evs.post_id [OF this] have "?e \<noteq> 0" using due by (simp add: a timer_update_eq Let_def)
  then have b: "esched b = snd (sched_post (TimerMatch i) t ''Timer Compare Match'' ?q)"
    using v by (simp add: b_def timer_attachScheduler_def timer_update_eq Let_def) (simp add: timer_cancelScheduledEvent_def)
  have inv: "sched_inv ?q" by (rule evs.cancel_ok [OF assms(3)])
  note post = evs.post_agenda [OF inv, of "TimerMatch i" t "''Timer Compare Match''"]
  show "\<exists>k. sched_agenda (esched b) k = Some (t, TimerMatch i)"
    unfolding b post by (intro exI [of _ "fst (sched_post (TimerMatch i) t ''Timer Compare Match'' ?q)"]) simp
  show "sched_agenda (esched b) ?e = None" if old: "sched_agenda q ?e = Some (t', c)"
  proof -
    obtain e where "e \<in> set (m_events q)" "ev_id e = ?e"
      using old by (auto simp: sched_agenda_def dest!: find_SomeD)
    then have "?e \<noteq> m_nextId q" using assms(3) by (auto simp: sched_inv_def)
    moreover have "fst (sched_post (TimerMatch i) t ''Timer Compare Match'' ?q) = m_nextId q"
      by (simp add: sched_post_def sched_schedule_def sched_cancel_def)
    ultimately show ?thesis unfolding b post using evs.cancel_agenda [OF assms(3), of ?e] by simp
  qed
qed

text \<open>
  C24. One event per timer and scheduler. Through every sequence of operations of a timer, attaching no scheduler
  included, and of others on its scheduler, the scheduler holds no compare event of that timer but the one whose
  identifier the timer keeps. Starting the timer or changing its compare value leaves, with the scheduler attached, an event
  exactly when the timer then runs below its compare value, due when the clock will have advanced by the missing count;
  without it, the queue as it was.
\<close>

theorem timer_one_event:
  assumes "timer_one i s" and "id_slack (Suc (length ops)) (esched s)"
  shows "timer_one i (fold (timer_apply i) ops s) \<and>
    (let u = fold (timer_apply i) ops s;
         s1 = timer_syncClock i (reg_put (t_ctrlRegister (timers u i))
                (set_flag (reg_get (t_ctrlRegister (timers u i)) u) 0) u);
         s2 = reg_put (t_compareRegister (timers u i)) v u
     in if t_scheduler (timers u i)
        then (\<exists>k. sched_agenda (esched (timer_start i u)) k = Some (t, TimerMatch i)) = (timer_due i s1 = Some t) \<and>
          (\<exists>k. sched_agenda (esched (timer_setCompare i v u)) k = Some (t, TimerMatch i)) = (timer_due i s2 = Some t)
        else esched (timer_start i u) = esched u \<and> esched (timer_setCompare i v u) = esched u)"
proof -
  have run: "timer_one i (fold (timer_apply i) ops s) \<and> id_slack 1 (esched (fold (timer_apply i) ops s))"
    using assms
  proof (induction ops arbitrary: s)
    case (Cons q ops)
    then have "timer_one i (timer_apply i q s)"
      by (intro timer_one_apply id_slack_room [of "Suc (length ops)"]) simp_all
    with Cons.IH [of "timer_apply i q s"] id_slack_apply [of "Suc (length ops)" s i q] Cons.prems
    show ?case by simp
  qed simp
  let ?u = "fold (timer_apply i) ops s"
  have one: "timer_one i ?u" and room: "sched_room (esched ?u)"
    using run id_slack_room [of 0 "esched ?u"] by simp_all
  show ?thesis
  proof (cases "t_scheduler (timers ?u i)")
    case True
    then show ?thesis
      using one timer_one_owns [OF one] room by (simp add: timer_start_def timer_setCompare_def Let_def timer_update_owns(2))
  next
    case False
    then show ?thesis
      using one by (simp add: timer_start_def timer_setCompare_def Let_def timer_updateScheduledEvent_def timer_cancelScheduledEvent_def)
  qed
qed

text \<open>
  A timer that runs on its scheduler, is cut off from it and attached again, and whose event is taken out and delivered;
  started again, it is due at cycle 9.
\<close>

theorem timer_one_event_witness:
  "timer_one 0 (fold (timer_apply 0) [TAttachScheduler True, TSetCompare 9, TStart, TAttachScheduler False, TTick, TStart,
      TAttachScheduler True, TPost 3 5 [], TTakeDue 9, TFire, TReset] demo_timer) \<and>
   (\<exists>k. sched_agenda (esched (timer_start 0 (fold (timer_apply 0) [TAttachScheduler True, TSetCompare 9] demo_timer))) k =
      Some (9, TimerMatch 0))"
proof
  have one: "timer_one 0 demo_timer" by (rule timer_owns_one [OF demo_timer_owns(1)])
  have slack: "id_slack n (esched demo_timer)" if "n < 100" for n
    using that by (simp add: demo_timer_plain sched_init_def id_slack_def)
  show "timer_one 0 (fold (timer_apply 0) [TAttachScheduler True, TSetCompare 9, TStart, TAttachScheduler False, TTick, TStart,
      TAttachScheduler True, TPost 3 5 [], TTakeDue 9, TFire, TReset] demo_timer)"
    by (rule timer_one_event [THEN conjunct1]) (simp_all add: one slack)
  let ?u = "fold (timer_apply 0) [TAttachScheduler True, TSetCompare 9] demo_timer"
  have "t_scheduler (timers ?u 0)" by code_simp
  moreover have "timer_due 0 (timer_syncClock 0 (reg_put (t_ctrlRegister (timers ?u 0)) (set_flag (reg_get (t_ctrlRegister (timers ?u 0)) ?u) 0) ?u)) = Some 9"
    by code_simp
  ultimately show "\<exists>k. sched_agenda (esched (timer_start 0 ?u)) k = Some (9, TimerMatch 0)"
    using timer_one_event [OF one slack, of "[TAttachScheduler True, TSetCompare 9]" 9] unfolding Let_def
    by (simp only: if_True list.size)
qed

text \<open>
  C38. An event-driven timer that is started at or past its compare value never matches: it posts no
  event, and the ticks of a timer with a scheduler only count. The abstract timer, and the same
  timer without a scheduler, matches at the next tick.
\<close>

theorem timer_late_start_never_matches:
  assumes "timer_wf i s" and "timer_owns i s" and "sched_room (esched s)"
    and "t_scheduler (timers s i)" and "timer_compare i s \<le> timer_counter i s"
    and "timer_counter i s \<noteq> - 1"
  shows "timer_hasMatch i (timer_ticks i k (timer_start i s)) = timer_hasMatch i s \<and>
    timer_running i (timer_ticks i k (timer_start i s)) \<and>
    sched_agenda (esched (timer_ticks i k (timer_start i s))) e \<noteq> Some (t, TimerMatch i) \<and>
    at_match (abs_tick (timer_view i (timer_start i s)))"
proof -
  let ?s = "timer_start i s"
  have view: "timer_view i ?s = (timer_view i s)\<lparr>at_running := True\<rparr>"
    by (rule timer_view_start [OF assms(1)])
  let ?u = "timer_syncClock i (reg_put (t_ctrlRegister (timers s i))
      (set_flag (reg_get (t_ctrlRegister (timers s i)) s) 0) s)"
  have start: "?s = timer_updateScheduledEvent i ?u" by (simp add: timer_start_def Let_def)
  have "timer_counter i ?u = timer_counter i s" "timer_compare i ?u = timer_compare i s"
    using timer_wf_neqs [OF assms(1)] by (simp_all add: timer_query_defs)
  then have nodue: "timer_due i ?u = None" using assms(5) by (simp add: timer_due_def not_less)
  then have st: "?s = timer_cancelScheduledEvent i ?u" by (simp add: start timer_update_eq)
  have flags: "timer_wf i ?s" "t_scheduler (timers ?s i)" using assms by (simp_all add: st)
  note ticks = timer_ticks_sched [OF flags, of k]
  have "sched_agenda (esched ?s) e \<noteq> Some (t, TimerMatch i)"
    unfolding st by (rule timer_cancel_owns(2)) (simp add: assms)
  moreover have "at_match (abs_tick (timer_view i ?s))"
  proof -
    have "timer_counter i s \<le> timer_counter i s + 1"
      using assms(6) by (metis add.commute add_eq_0_iff word_le_nat_alt unatSuc le_SucI le_refl)
    then have "timer_compare i s \<le> timer_counter i s + 1" by (rule order_trans [OF assms(5)])
    then show ?thesis unfolding view by (simp add: abs_tick_def timer_view_def)
  qed
  ultimately show ?thesis using ticks view by (simp add: timer_view_def)
qed

theorem timer_late_start_never_matches_witness:
  "\<not> timer_hasMatch 0 (timer_ticks 0 1000 (timer_start 0 (timer_attachScheduler 0 True demo_timer)))"
proof -
  let ?s = "timer_attachScheduler 0 True demo_timer"
  have "timer_view 0 ?s = timer_view 0 demo_timer"
    by (simp add: timer_attachScheduler_def) (simp add: timer_view_def timer_query_defs)
  then have a: "timer_compare 0 ?s \<le> timer_counter 0 ?s" "timer_counter 0 ?s \<noteq> - 1" "\<not> timer_hasMatch 0 ?s"
    by (simp_all add: demo_timer_view) (simp_all add: timer_view_def)
  have wf: "timer_wf 0 ?s" using demo_timer_wf by (simp add: timer_attachScheduler_def) (simp add: timer_wf_def)
  have on: "t_scheduler (timers ?s 0)" by (simp add: timer_attachScheduler_def)
  have sroom: "sched_room (esched ?s)"
    using id_slack_apply [of 1 demo_timer 0 "TAttachScheduler True"] demo_timer_owns(2) id_slack_room [of 0 "esched ?s"]
    by (simp add: id_slack_def)
  have room: "sched_room (esched demo_timer)" by (simp add: demo_timer_plain sched_room_def sched_init_def)
  have "timer_owns 0 ?s"
    using timer_one_owns [OF timer_one_apply [OF timer_owns_one [OF demo_timer_owns(1)] room, of "TAttachScheduler True"]] on by simp
  from timer_late_start_never_matches [OF wf this sroom on a(1,2), of 1000] a(3) show ?thesis by simp
qed

end
