(* ===== verification/Pwm_Driver.thy ===== *)
theory Pwm_Driver
  imports Timer_Driver
begin

text \<open>
  The PWM controller of \<^verbatim>\<open>drivers/pwm/pwm_controller.hpp\<close>: CTRL, FREQ, DUTY and STATUS registers and
  a timer of its own, whose counter modulo the period is compared with the on-time. The timer is a
  numbered timer of the store of timers.
\<close>

section \<open>State\<close>

record pwm =
  w_base :: address
  w_systemClockHz :: u32
  w_controlRegister :: nat
  w_freqRegister :: nat
  w_dutyRegister :: nat
  w_statusRegister :: nat
  w_timer :: nat
  w_periodTicks :: u32
  w_onTicks :: u32

type_synonym 's on_pwm = "pwm \<times> 's"

definition pwm_enabled :: "pwm \<Rightarrow> 'z mmio_st_scheme \<Rightarrow> bool" where
  "pwm_enabled w s = test_flag (reg_get (w_controlRegister w) s) 0"

definition pwm_frequency :: "pwm \<Rightarrow> 'z mmio_st_scheme \<Rightarrow> u32" where
  "pwm_frequency w s = reg_get (w_freqRegister w) s"

definition pwm_dutyCycle :: "pwm \<Rightarrow> 'z mmio_st_scheme \<Rightarrow> u32" where
  "pwm_dutyCycle w s = reg_get (w_dutyRegister w) s"

definition pwm_outputState :: "pwm \<Rightarrow> 'z timer_st_scheme \<Rightarrow> bool" where
  "pwm_outputState w s =
     (if \<not> pwm_enabled w s then False
      else let duty = pwm_dutyCycle w s
      in if duty = 0 then False
         else if duty = 100 then True
         else let cnt = (if w_periodTicks w > 0 then timer_counter (w_timer w) s mod w_periodTicks w else 0)
              in cnt < w_onTicks w)"

definition pwm_status :: "bool \<Rightarrow> bool \<Rightarrow> u32" where
  "pwm_status en out =
     (let st = 0;
          st = (if en then set_flag st 0 else st);
          st = (if out then set_flag st 1 else st)
      in st)"

definition pwm_updateStatusRegister :: "pwm \<Rightarrow> 'z timer_st_scheme \<Rightarrow> 'z timer_st_scheme" where
  "pwm_updateStatusRegister w s =
     reg_put (w_statusRegister w) (pwm_status (pwm_enabled w s) (pwm_outputState w s)) s"

definition pwm_updatePeriodAndDuty :: "'z timer_st_scheme on_pwm \<Rightarrow> 'z timer_st_scheme on_pwm" where
  "pwm_updatePeriodAndDuty = (\<lambda>(w, s).
     let freq = pwm_frequency w s;
         duty = pwm_dutyCycle w s;
         freq = (if freq = 0 then 1 else freq);
         w = w\<lparr>w_periodTicks := w_systemClockHz w div freq\<rparr>;
         w = (if w_periodTicks w = 0 then w\<lparr>w_periodTicks := 1\<rparr> else w);
         w = w\<lparr>w_onTicks := ucast ((ucast (w_periodTicks w) * ucast duty :: u64) div 100)\<rparr>
     in (w, if pwm_enabled w s then timer_setCompare (w_timer w) (w_periodTicks w) s else s))"

text \<open>
  The constructor. \<open>i\<close> is the number of the inner timer, which is built before the arguments
  are checked; an exception after that destroys it.
\<close>

definition pwm_init ::
  "nat \<Rightarrow> address \<Rightarrow> u32 \<Rightarrow> u32 \<Rightarrow> u32 \<Rightarrow> 'z timer_st_scheme \<Rightarrow> (pwm, 'z timer_st_scheme) outcome" where
  "pwm_init i base frequencyHz duty systemClockHz s =
     (let (co, s) = make_register (base + 0x00) 0 s;
          (fr, s) = make_register (base + 0x04) frequencyHz s;
          (du, s) = make_register (base + 0x08) duty s;
          (st, s) = make_register (base + 0x0C) 0 s
      in and_then (timer_init (base + 0x10) s) (\<lambda>t s.
        let s = upd_timer i (\<lambda>_. t) s
        in if systemClockHz = 0 then throw InvalidArgument (timer_destroy i s)
           else if frequencyHz = 0 \<or> frequencyHz > systemClockHz
           then throw InvalidArgument (timer_destroy i s)
           else if duty > 100 then throw InvalidArgument (timer_destroy i s)
           else let (ok, s) = register_chain [co, fr, du, st] s
           in if \<not> ok then throw RuntimeError (timer_destroy i s)
              else let w = \<lparr>w_base = base, w_systemClockHz = systemClockHz, w_controlRegister = co,
                           w_freqRegister = fr, w_dutyRegister = du, w_statusRegister = st,
                           w_timer = i, w_periodTicks = 1000, w_onTicks = 500\<rparr>;
                       (w, s) = pwm_updatePeriodAndDuty (w, s)
                   in ret w (pwm_updateStatusRegister w s)))"

text \<open>\<^verbatim>\<open>controlAddress\<close>, \<^verbatim>\<open>freqAddress\<close>, \<^verbatim>\<open>dutyAddress\<close> and \<^verbatim>\<open>statusAddress\<close>.\<close>

definition pwm_addresses :: "pwm \<Rightarrow> address list" where
  "pwm_addresses w = [w_base w + 0x00, w_base w + 0x04, w_base w + 0x08, w_base w + 0x0C]"

text \<open>The destructor's body, then that of the member timer.\<close>

definition pwm_destroy :: "pwm \<Rightarrow> 'z timer_st_scheme \<Rightarrow> 'z timer_st_scheme" where
  "pwm_destroy w s = timer_destroy (w_timer w) (unregister_all (pwm_addresses w) s)"

section \<open>Operations\<close>

definition pwm_enable :: "'z timer_st_scheme on_pwm \<Rightarrow> 'z timer_st_scheme on_pwm" where
  "pwm_enable = (\<lambda>(w, s).
     let r = w_controlRegister w;
         s = reg_put r (set_flag (reg_get r s) 0) s;
         s = timer_setAutoReset (w_timer w) True s;
         s = timer_setCompare (w_timer w) (w_periodTicks w) s;
         s = timer_start (w_timer w) s
     in (w, pwm_updateStatusRegister w s))"

definition pwm_disable :: "'z timer_st_scheme on_pwm \<Rightarrow> 'z timer_st_scheme on_pwm" where
  "pwm_disable = (\<lambda>(w, s).
     let r = w_controlRegister w;
         s = reg_put r (clear_flag (reg_get r s) 0) s;
         s = timer_stop (w_timer w) s
     in (w, pwm_updateStatusRegister w s))"

definition pwm_setFrequency ::
  "u32 \<Rightarrow> 'z timer_st_scheme on_pwm \<Rightarrow> (unit, 'z timer_st_scheme on_pwm) outcome" where
  "pwm_setFrequency hz = (\<lambda>(w, s).
     if hz = 0 \<or> hz > w_systemClockHz w then throw InvalidArgument (w, s)
     else let s = reg_put (w_freqRegister w) hz s;
              (w, s) = pwm_updatePeriodAndDuty (w, s)
          in ret () (w, pwm_updateStatusRegister w s))"

definition pwm_setDutyCycle ::
  "u32 \<Rightarrow> 'z timer_st_scheme on_pwm \<Rightarrow> (unit, 'z timer_st_scheme on_pwm) outcome" where
  "pwm_setDutyCycle percent = (\<lambda>(w, s).
     if percent > 100 then throw InvalidArgument (w, s)
     else let s = reg_put (w_dutyRegister w) percent s;
              (w, s) = pwm_updatePeriodAndDuty (w, s)
          in ret () (w, pwm_updateStatusRegister w s))"

definition pwm_tick :: "'z timer_st_scheme on_pwm \<Rightarrow> (unit, 'z timer_st_scheme on_pwm) outcome" where
  "pwm_tick = (\<lambda>(w, s).
     if pwm_enabled w s
     then let s = (if \<not> timer_running (w_timer w) s then timer_start (w_timer w) s else s)
          in case timer_tick (w_timer w) s of
               (Inl e, s) \<Rightarrow> throw e (w, s)
             | (Inr _, s) \<Rightarrow> ret () (w, pwm_updateStatusRegister w s)
     else ret () (w, pwm_updateStatusRegister w s))"

definition pwm_reset :: "'z timer_st_scheme on_pwm \<Rightarrow> 'z timer_st_scheme on_pwm" where
  "pwm_reset ws =
     (let (w, s) = pwm_disable ws;
          s = reg_rst (w_controlRegister w) s;
          s = reg_rst (w_freqRegister w) s;
          s = reg_rst (w_dutyRegister w) s;
          s = timer_reset (w_timer w) s;
          (w, s) = pwm_updatePeriodAndDuty (w, s)
      in (w, pwm_updateStatusRegister w s))"

section \<open>Well-formedness and frames\<close>

definition pwm_regs :: "pwm \<Rightarrow> nat list" where
  "pwm_regs w = [w_controlRegister w, w_freqRegister w, w_dutyRegister w, w_statusRegister w]"

definition pwm_wf :: "'z timer_st_scheme on_pwm \<Rightarrow> bool" where
  "pwm_wf = (\<lambda>(w, s). timer_wf (w_timer w) s \<and> distinct (pwm_regs w) \<and>
     set (pwm_regs w) \<inter> set (ic_pendingRegister (ic s) # timer_regs (timers s (w_timer w))) = {})"

text \<open>The inner timer writes its own registers and, through its interrupt line, the pending register.\<close>

lemma timer_tick_other:
  assumes "r \<notin> set (ic_pendingRegister (ic s) # timer_regs (timers s i))"
  shows "reg_get r (snd (timer_tick i s)) = reg_get r s"
  using assms
  by (simp add: timer_tick_def timer_handleCompareMatch_def timer_stop_def ic_trigger_def Let_def timer_regs_def)

lemma timer_start_other:
  assumes "r \<noteq> t_ctrlRegister (timers s i)"
  shows "reg_get r (timer_start i s) = reg_get r s"
  using assms
  by (simp add: timer_start_def Let_def timer_update_eq split: option.splits)

lemma timer_start_regs [simp]: "timer_regs (timers (timer_start i s) j) = timer_regs (timers s j)"
  by (simp add: timer_start_def Let_def timer_update_eq split: option.splits)

lemma timer_tick_regs [simp]:
  "timer_regs (timers (snd (timer_tick i s)) j) = timer_regs (timers s j)" "ic (snd (timer_tick i s)) = ic s"
  by (simp_all add: timer_tick_def timer_handleCompareMatch_def timer_stop_def ic_trigger_def Let_def)

lemma timer_view_other:
  assumes "r \<notin> set (timer_regs (timers s i))"
  shows "timer_view i (reg_put r v s) = timer_view i s"
  using assms by (simp add: timer_view_def timer_query_defs timer_regs_def)

lemma pwm_wf_put [simp]: "pwm_wf (w, reg_put r v s) = pwm_wf (w, s)"
  by (simp add: pwm_wf_def)

lemma pwm_wf_regs:
  assumes "pwm_wf (w, s)"
  shows "timer_wf (w_timer w) s"
    and "r \<in> set (pwm_regs w) \<Longrightarrow> r \<notin> set (ic_pendingRegister (ic s) # timer_regs (timers s (w_timer w)))"
    and "r \<in> set (pwm_regs w) \<Longrightarrow> r \<noteq> t_ctrlRegister (timers s (w_timer w))"
    and "r \<in> set (pwm_regs w) \<Longrightarrow> r \<notin> set (timer_regs (timers s (w_timer w)))"
  using assms by (auto simp: pwm_wf_def timer_regs_def)

lemma pwm_wf_distinct:
  assumes "pwm_wf (w, s)"
  shows "w_controlRegister w \<noteq> w_freqRegister w" "w_controlRegister w \<noteq> w_dutyRegister w"
    "w_controlRegister w \<noteq> w_statusRegister w" "w_freqRegister w \<noteq> w_dutyRegister w"
    "w_freqRegister w \<noteq> w_statusRegister w" "w_dutyRegister w \<noteq> w_statusRegister w"
  using assms by (simp_all add: pwm_wf_def pwm_regs_def)

lemmas pwm_wf_neqs = pwm_wf_distinct pwm_wf_distinct [symmetric]

lemma timer_tick_outcome:
  "timer_irq_ok i s \<Longrightarrow> fst (timer_tick i s) = Inr ()"
  by (simp add: timer_tick_def Let_def timer_match_outcome timer_irq_ok_def)

lemma timer_irq_ok_keeps [simp]:
  "timer_irq_ok i (timer_start j s) = timer_irq_ok i s"
  "timer_irq_ok i (snd (timer_tick j s)) = timer_irq_ok i s"
  "timer_irq_ok i (reg_put r v s) = timer_irq_ok i s"
  by (simp_all add: timer_irq_ok_def timer_tick_def timer_handleCompareMatch_def ic_trigger_def Let_def)

section \<open>One tick of an enabled channel\<close>

text \<open>An enabled channel with a polled timer: the case the controller's own constructor sets up.\<close>

definition pwm_live :: "'z timer_st_scheme on_pwm \<Rightarrow> bool" where
  "pwm_live = (\<lambda>(w, s). pwm_wf (w, s) \<and> pwm_enabled w s \<and> timer_irq_ok (w_timer w) s \<and>
     \<not> t_scheduler (timers s (w_timer w)) \<and> \<not> t_clock (timers s (w_timer w)))"

lemma pwm_tick_live:
  assumes "pwm_live (w, s)"
  shows "\<exists>s'. pwm_tick (w, s) = ret () (w, s') \<and> pwm_live (w, s') \<and>
    pwm_dutyCycle w s' = pwm_dutyCycle w s \<and>
    timer_view (w_timer w) s' = abs_tick ((timer_view (w_timer w) s)\<lparr>at_running := True\<rparr>)"
proof -
  let ?i = "w_timer w"
  define a where "a = (if \<not> timer_running ?i s then timer_start ?i s else s)"
  define t where "t = snd (timer_tick ?i a)"
  let ?u = "pwm_updateStatusRegister w t"
  have wf: "pwm_wf (w, s)" and en: "pwm_enabled w s" and irq: "timer_irq_ok ?i s"
    and sch: "\<not> t_scheduler (timers s ?i)" and clk: "\<not> t_clock (timers s ?i)"
    using assms by (simp_all add: pwm_live_def)
  have aflags: "timer_wf ?i a" "timer_irq_ok ?i a" "\<not> t_scheduler (timers a ?i)" "\<not> t_clock (timers a ?i)"
    and aregs: "timer_regs (timers a ?i) = timer_regs (timers s ?i)" "ic a = ic s"
    using pwm_wf_regs(1) [OF wf] irq sch clk by (simp_all add: a_def)
  have aview: "timer_view ?i a = (timer_view ?i s)\<lparr>at_running := True\<rparr>"
    using timer_view_start [OF pwm_wf_regs(1) [OF wf]] by (simp add: a_def) (simp add: timer_view_def)
  have tick: "timer_tick ?i a = (Inr (), t)"
    using timer_tick_outcome [OF aflags(2)] by (simp add: t_def prod_eq_iff)
  have tview: "timer_view ?i t = abs_tick (timer_view ?i a)"
    unfolding t_def
    by (rule timer_view_tick_plain) (use aflags in \<open>simp_all add: timer_stepAmount_def\<close>)
  have same: "reg_get r t = reg_get r s" if "r \<in> set (pwm_regs w)" for r
    using timer_tick_other [of r a ?i] timer_start_other [of r s ?i] pwm_wf_regs [OF wf] that aregs
    by (cases "timer_running ?i s") (simp_all add: t_def, simp_all add: a_def)
  have wft: "pwm_wf (w, t)" using wf aregs aflags by (simp add: pwm_wf_def t_def)
  have tflags: "timer_irq_ok ?i t" "\<not> t_scheduler (timers t ?i)" "\<not> t_clock (timers t ?i)"
    using aflags by (simp_all add: t_def)
  have enabled: "pwm_enabled w ?u" and duty: "pwm_dutyCycle w ?u = pwm_dutyCycle w s"
    using en same pwm_wf_neqs [OF wf]
    by (simp_all add: pwm_updateStatusRegister_def pwm_enabled_def pwm_dutyCycle_def pwm_regs_def)
  have "timer_view ?i ?u = timer_view ?i t"
    unfolding pwm_updateStatusRegister_def
    by (rule timer_view_other) (use pwm_wf_regs(4) [OF wft] in \<open>simp add: pwm_regs_def\<close>)
  moreover have "pwm_tick (w, s) = ret () (w, ?u)"
    using en tick by (simp add: pwm_tick_def a_def [symmetric])
  moreover have "pwm_live (w, ?u)"
    using wft enabled tflags by (simp add: pwm_live_def) (simp add: pwm_updateStatusRegister_def)
  ultimately show ?thesis using aview tview duty by simp
qed

lemma timer_setCompare_other:
  "r \<noteq> t_compareRegister (timers s i) \<Longrightarrow> reg_get r (timer_setCompare i v s) = reg_get r s"
  by (simp add: timer_setCompare_def timer_update_eq Let_def split: option.splits)

lemma timer_setAutoReset_other:
  "r \<noteq> t_ctrlRegister (timers s i) \<Longrightarrow> reg_get r (timer_setAutoReset i b s) = reg_get r s"
  by (simp add: timer_setAutoReset_def Let_def)

lemma timer_setAutoReset_view:
  "timer_wf i s \<Longrightarrow> timer_view i (timer_setAutoReset i b s) = timer_view i s"
  by (simp add: timer_setAutoReset_def Let_def timer_view_put flag_simps put_flag_def)
    (simp add: timer_view_def timer_running_def)

lemma timer_set_fields [simp]:
  "timers (timer_setAutoReset i b s) = timers s" "ic (timer_setAutoReset i b s) = ic s"
  "timer_wf j (timer_setAutoReset i b s) = timer_wf j s"
  "timer_regs (timers (timer_setCompare i v s) j) = timer_regs (timers s j)"
  "ic (timer_setCompare i v s) = ic s"
  "t_interruptController (timers (timer_setCompare i v s) j) = t_interruptController (timers s j)"
  "t_interruptId (timers (timer_setCompare i v s) j) = t_interruptId (timers s j)"
  by (simp_all add: timer_setAutoReset_def timer_setCompare_def timer_update_eq Let_def split: option.splits)

lemma pwm_enable_live:
  assumes wf: "pwm_wf (w, s)" and irq: "timer_irq_ok (w_timer w) s"
    and sch: "\<not> t_scheduler (timers s (w_timer w))" and clk: "\<not> t_clock (timers s (w_timer w))"
  shows "\<exists>s'. pwm_enable (w, s) = (w, s') \<and> pwm_live (w, s') \<and> pwm_dutyCycle w s' = pwm_dutyCycle w s \<and>
    timer_view (w_timer w) s' = (timer_view (w_timer w) s)\<lparr>at_running := True, at_compare := w_periodTicks w\<rparr>"
proof -
  let ?i = "w_timer w"
  define a where "a = reg_put (w_controlRegister w) (set_flag (reg_get (w_controlRegister w) s) 0) s"
  define b where "b = timer_setCompare ?i (w_periodTicks w) (timer_setAutoReset ?i True a)"
  define t where "t = timer_start ?i b"
  let ?u = "pwm_updateStatusRegister w t"
  have awf: "timer_wf ?i a" "pwm_wf (w, a)" using wf pwm_wf_regs(1) [OF wf] by (simp_all add: a_def)
  have aview: "timer_view ?i a = timer_view ?i s"
    unfolding a_def by (rule timer_view_other) (use pwm_wf_regs(4) [OF wf] in \<open>simp add: pwm_regs_def\<close>)
  have tview: "timer_view ?i t = (timer_view ?i s)\<lparr>at_running := True, at_compare := w_periodTicks w\<rparr>"
    using awf by (simp add: t_def b_def timer_view_start timer_view_setCompare timer_setAutoReset_view aview)
  have tregs: "timer_regs (timers t ?i) = timer_regs (timers s ?i)" "ic t = ic s" "timer_wf ?i t"
    using awf by (simp_all add: t_def b_def) (simp_all add: a_def)
  have tflags: "timer_irq_ok ?i t" "\<not> t_scheduler (timers t ?i)" "\<not> t_clock (timers t ?i)"
    using irq sch clk by (simp_all add: t_def b_def timer_irq_ok_def) (simp_all add: a_def)
  have wft: "pwm_wf (w, t)" using wf tregs by (simp add: pwm_wf_def)
  have keep: "reg_get r t = reg_get r a" if "r \<in> set (pwm_regs w)" for r
  proof -
    have "r \<notin> set (timer_regs (timers a ?i))" by (rule pwm_wf_regs(4) [OF awf(2) that])
    moreover have "timer_regs (timers b ?i) = timer_regs (timers a ?i)" by (simp add: b_def)
    ultimately show ?thesis
      by (simp add: t_def b_def timer_regs_def timer_start_other timer_setCompare_other timer_setAutoReset_other)
  qed
  have ctl: "reg_get (w_controlRegister w) a = set_flag (reg_get (w_controlRegister w) s) 0"
    and dut: "reg_get (w_dutyRegister w) a = reg_get (w_dutyRegister w) s"
    using pwm_wf_neqs [OF wf] by (simp_all add: a_def)
  have enabled: "pwm_enabled w ?u" and duty: "pwm_dutyCycle w ?u = pwm_dutyCycle w s"
    using keep ctl dut pwm_wf_neqs [OF wf]
    by (simp_all add: pwm_updateStatusRegister_def pwm_enabled_def pwm_dutyCycle_def pwm_regs_def flag_simps)
  have "timer_view ?i ?u = timer_view ?i t"
    unfolding pwm_updateStatusRegister_def
    by (rule timer_view_other) (use pwm_wf_regs(4) [OF wft] in \<open>simp add: pwm_regs_def\<close>)
  moreover have "pwm_enable (w, s) = (w, ?u)" by (simp add: pwm_enable_def Let_def t_def b_def a_def)
  moreover have "pwm_live (w, ?u)"
    using wft enabled tflags by (simp add: pwm_live_def) (simp add: pwm_updateStatusRegister_def)
  ultimately show ?thesis using tview duty by simp
qed

definition pwm_ticks :: "nat \<Rightarrow> 'z timer_st_scheme on_pwm \<Rightarrow> 'z timer_st_scheme on_pwm" where
  "pwm_ticks k ws = ((\<lambda>ws. snd (pwm_tick ws)) ^^ k) ws"

text \<open>The counter climbs to the period, and the compare match of each later tick pins it there.\<close>

lemma pwm_ticks_count:
  assumes "pwm_live (w, s)" and "timer_view (w_timer w) s = \<lparr>at_running = r, at_count = 0, at_compare = n, at_match = m\<rparr>"
    and "0 < n" and "n \<noteq> - 1"
  shows "\<exists>s'. pwm_ticks k (w, s) = (w, s') \<and> pwm_live (w, s') \<and> pwm_dutyCycle w s' = pwm_dutyCycle w s \<and>
    at_count (timer_view (w_timer w) s') = (if k < unat n then of_nat k else n) \<and>
    at_compare (timer_view (w_timer w) s') = n"
proof (induction k)
  case 0
  then show ?case using assms by (simp add: pwm_ticks_def unat_gt_0)
next
  case (Suc k)
  then obtain s1 where k: "pwm_ticks k (w, s) = (w, s1)" and live: "pwm_live (w, s1)"
    and duty: "pwm_dutyCycle w s1 = pwm_dutyCycle w s"
    and cnt: "at_count (timer_view (w_timer w) s1) = (if k < unat n then of_nat k else n)"
    and cmp: "at_compare (timer_view (w_timer w) s1) = n"
    by blast
  from pwm_tick_live [OF live] obtain s2 where tick: "pwm_tick (w, s1) = ret () (w, s2)"
    and live2: "pwm_live (w, s2)" and duty2: "pwm_dutyCycle w s2 = pwm_dutyCycle w s1"
    and view: "timer_view (w_timer w) s2 = abs_tick ((timer_view (w_timer w) s1)\<lparr>at_running := True\<rparr>)"
    by blast
  note nb = unat_u32_bound [of n]
  have top: "n \<le> n + 1"
    using assms(4) by (metis add.commute eq_neg_iff_add_eq_0 unatSuc word_le_nat_alt le_SucI le_refl)
  have "at_count (timer_view (w_timer w) s2) = (if Suc k < unat n then of_nat (Suc k) else n)"
  proof (cases "k < unat n")
    case True
    then have "unat (of_nat k + 1 :: u32) = Suc k"
      using nb by (simp add: unat_word_ariths unat_of_nat take_bit_nat_eq_self)
    then have "n \<le> of_nat k + 1 \<longleftrightarrow> unat n \<le> Suc k" by (simp add: word_le_nat_alt)
    with True cnt cmp show ?thesis by (auto simp: view abs_tick_def add.commute)
  next
    case False
    with cnt cmp top show ?thesis by (simp add: view abs_tick_def)
  qed
  moreover have "at_compare (timer_view (w_timer w) s2) = n" using cmp by (simp add: view abs_tick_def)
  ultimately show ?case using k tick live2 duty duty2 by (simp add: pwm_ticks_def)
qed

section \<open>A concrete channel\<close>

text \<open>
  A disabled channel of 100 hertz and 30 percent on a 1000 hertz system clock, with its registers in
  objects 10 to 13 and those of its timer in objects 20 to 23.
\<close>

definition demo_pwm :: "timer_st on_pwm" where
  "demo_pwm =
     (\<lparr>w_base = 0x40007000, w_systemClockHz = 1000, w_controlRegister = 10, w_freqRegister = 11,
       w_dutyRegister = 12, w_statusRegister = 13, w_timer = 0, w_periodTicks = 10, w_onTicks = 3\<rparr>,
      \<lparr>reg_objs = (\<lambda>_. register_init 0 0)(11 := register_init 0x40007004 100, 12 := register_init 0x40007008 30),
       next_ref = 30, m_registers = [], ic = blank_ic,
       clock = \<lparr>m_frequencyHz = 1000, m_cycles = 0\<rparr>, esched = sched_init,
       timers = \<lambda>_. blank_timer\<lparr>t_base := 0x40007010, t_ctrlRegister := 20, t_countRegister := 21,
         t_compareRegister := 22, t_statusRegister := 23\<rparr>\<rparr>)"

lemma demo_pwm_ok:
  "pwm_wf demo_pwm" "timer_irq_ok 0 (snd demo_pwm)" "\<not> t_scheduler (timers (snd demo_pwm) 0)"
  "\<not> t_clock (timers (snd demo_pwm) 0)" "timer_counter 0 (snd demo_pwm) = 0"
  "pwm_dutyCycle (fst demo_pwm) (snd demo_pwm) = 30" "w_timer (fst demo_pwm) = 0"
  "w_periodTicks (fst demo_pwm) = 10" "w_onTicks (fst demo_pwm) = 3"
  by code_simp+

section \<open>Properties\<close>

text \<open>
  C35. The waveform has one period only. After \<open>k\<close> ticks of a freshly enabled channel of
  \<open>n\<close> ticks per period and a duty cycle strictly between 0 and 100 percent, the output is high
  for the first on-ticks of the first period and low for the rest of it; from the end of the first
  period on the inner timer sticks at its compare value, so the counter modulo the period is zero and
  the output stays high for ever. It does not repeat with the period.
\<close>

theorem pwm_sticks_after_first_period:
  assumes "pwm_wf (w, s)" and "timer_irq_ok (w_timer w) s"
    and "\<not> t_scheduler (timers s (w_timer w))" and "\<not> t_clock (timers s (w_timer w))"
    and "timer_counter (w_timer w) s = 0" and "w_periodTicks w \<noteq> 0" and "w_periodTicks w \<noteq> - 1"
    and "pwm_dutyCycle w s \<noteq> 0" and "pwm_dutyCycle w s \<noteq> 100"
  shows "pwm_outputState w (snd (pwm_ticks k (pwm_enable (w, s)))) =
    (if k < unat (w_periodTicks w) then k < unat (w_onTicks w) else 0 < w_onTicks w)"
proof -
  let ?n = "w_periodTicks w"
  from pwm_enable_live [OF assms(1-4)] obtain s1 where e: "pwm_enable (w, s) = (w, s1)"
    and live1: "pwm_live (w, s1)" and duty1: "pwm_dutyCycle w s1 = pwm_dutyCycle w s"
    and view: "timer_view (w_timer w) s1 = (timer_view (w_timer w) s)\<lparr>at_running := True, at_compare := ?n\<rparr>"
    by blast
  have "timer_view (w_timer w) s1 =
      \<lparr>at_running = True, at_count = 0, at_compare = ?n, at_match = timer_hasMatch (w_timer w) s\<rparr>"
    using assms(5) by (simp add: view) (simp add: timer_view_def)
  from pwm_ticks_count [OF live1 this _ assms(7), of k] assms(6) obtain s' where
    t: "pwm_ticks k (w, s1) = (w, s')" and live: "pwm_live (w, s')"
    and duty: "pwm_dutyCycle w s' = pwm_dutyCycle w s"
    and cnt: "timer_counter (w_timer w) s' = (if k < unat ?n then of_nat k else ?n)"
    using duty1 by (auto simp: timer_view_def word_gt_0)
  have en: "pwm_enabled w s'" using live by (simp add: pwm_live_def)
  show ?thesis
  proof (cases "k < unat ?n")
    case True
    then have "unat (of_nat k :: u32) = k"
      using unat_u32_bound [of ?n] by (simp add: unat_of_nat take_bit_nat_eq_self)
    then have "unat (of_nat k mod ?n) = k" using True by (simp add: unat_mod)
    then have "of_nat k mod ?n < w_onTicks w \<longleftrightarrow> k < unat (w_onTicks w)" by (simp add: word_less_nat_alt)
    with True en cnt duty assms show ?thesis by (simp add: e t pwm_outputState_def word_gt_0)
  next
    case False
    with en cnt duty assms show ?thesis by (simp add: e t pwm_outputState_def word_gt_0)
  qed
qed

theorem pwm_sticks_after_first_period_witness:
  "\<not> pwm_outputState (fst demo_pwm) (snd (pwm_ticks 5 (pwm_enable demo_pwm))) \<and>
   pwm_outputState (fst demo_pwm) (snd (pwm_ticks 15 (pwm_enable demo_pwm)))"
  using pwm_sticks_after_first_period [of "fst demo_pwm" "snd demo_pwm"] demo_pwm_ok
  by (simp add: word_gt_0)

section \<open>Duty and frequency\<close>

lemma on_ticks_exact:
  fixes p d :: u32
  assumes "d \<le> 100"
  shows "unat (ucast ((ucast p * ucast d :: u64) div 100) :: u32) = unat p * unat d div 100"
    and "unat p * unat d div 100 \<le> unat p"
proof -
  have d: "unat d \<le> 100" using assms by (simp add: word_le_nat_alt)
  show le: "unat p * unat d div 100 \<le> unat p"
    using mult_le_mono2 [OF d, of "unat p"] div_le_mono [of "unat p * unat d" "unat p * 100" 100] by simp
  have "unat p * unat d \<le> unat p * 100" by (rule mult_le_mono2 [OF d])
  then have "unat p * unat d < 2 ^ 64"
    by (rule le_less_trans) (use unat_u32_bound [of p] in simp)
  moreover have "unat (ucast x :: u64) = unat x" for x :: u32
    using unat_u32_bound [of x] by (simp add: unsigned_ucast_eq take_bit_nat_eq_self)
  ultimately have "unat (ucast p * ucast d :: u64) = unat p * unat d" by (simp add: unat_word_ariths)
  then have "unat ((ucast p * ucast d :: u64) div 100) = unat p * unat d div 100" by (simp add: unat_div)
  moreover have "unat p * unat d div 100 < 2 ^ 32" using le unat_u32_bound [of p] by simp
  ultimately show "unat (ucast ((ucast p * ucast d :: u64) div 100) :: u32) = unat p * unat d div 100"
    by (simp add: unsigned_ucast_eq take_bit_nat_eq_self)
qed

lemma unat_or_one: "unat (if x = 0 then 1 else x :: u32) = max 1 (unat x)"
proof (cases "x = 0")
  case False
  then have "0 < unat x" by (simp add: unat_gt_0)
  with False show ?thesis by simp
qed simp

lemma pwm_period_update:
  assumes "pwm_wf (w, s)" and "pwm_dutyCycle w s \<le> 100"
  shows "let (w', s') = pwm_updatePeriodAndDuty (w, s)
    in unat (w_periodTicks w') = max 1 (unat (w_systemClockHz w) div max 1 (unat (pwm_frequency w s))) \<and>
       unat (w_onTicks w') = unat (w_periodTicks w') * unat (pwm_dutyCycle w s) div 100 \<and>
       w_onTicks w' \<le> w_periodTicks w' \<and>
       (pwm_enabled w s \<longrightarrow> timer_compare (w_timer w) s' = w_periodTicks w')"
proof -
  define n where "n = (let f = (if pwm_frequency w s = 0 then 1 else pwm_frequency w s)
    in if w_systemClockHz w div f = 0 then 1 else w_systemClockHz w div f)"
  have n: "unat n = max 1 (unat (w_systemClockHz w) div max 1 (unat (pwm_frequency w s)))"
    unfolding n_def Let_def unat_or_one by (simp only: unat_div unat_or_one)
  have c: "timer_compare (w_timer w) (timer_setCompare (w_timer w) n s) = n"
    using timer_view_setCompare [OF pwm_wf_regs(1) [OF assms(1)], of n] by (simp add: timer_view_def)
  have "pwm_updatePeriodAndDuty (w, s) =
      (w\<lparr>w_periodTicks := n, w_onTicks := ucast ((ucast n * ucast (pwm_dutyCycle w s) :: u64) div 100)\<rparr>,
       if pwm_enabled w s then timer_setCompare (w_timer w) n s else s)"
    by (simp add: pwm_updatePeriodAndDuty_def n_def Let_def pwm_enabled_def)
  then show ?thesis
    using on_ticks_exact [OF assms(2), of n] c by (simp add: n word_le_nat_alt)
qed

text \<open>
  Duty and frequency settings. An accepted frequency or duty cycle is stored, sets the period to
  the quotient of the system clock by the frequency (at least one tick) and the on-time to the
  percentage of the period, computed without overflow and never longer than the period, and an enabled
  channel's timer compares with the new period; a frequency of zero or above the system clock and a
  duty cycle above 100 throw and change nothing.
\<close>

lemma pwm_settings:
  assumes "pwm_wf (w, s)" and "pwm_dutyCycle w s \<le> 100"
  shows "(if hz = 0 \<or> hz > w_systemClockHz w then pwm_setFrequency hz (w, s) = throw InvalidArgument (w, s)
     else let (w', s') = pwm_updatePeriodAndDuty (w, reg_put (w_freqRegister w) hz s)
       in pwm_setFrequency hz (w, s) = ret () (w', pwm_updateStatusRegister w' s') \<and>
          unat (w_periodTicks w') = unat (w_systemClockHz w) div unat hz \<and>
          unat (w_onTicks w') = unat (w_periodTicks w') * unat (pwm_dutyCycle w s) div 100 \<and>
          w_onTicks w' \<le> w_periodTicks w' \<and>
          (pwm_enabled w s \<longrightarrow> timer_compare (w_timer w) s' = w_periodTicks w')) \<and>
    (if percent > 100 then pwm_setDutyCycle percent (w, s) = throw InvalidArgument (w, s)
     else let (w', s') = pwm_updatePeriodAndDuty (w, reg_put (w_dutyRegister w) percent s)
       in pwm_setDutyCycle percent (w, s) = ret () (w', pwm_updateStatusRegister w' s') \<and>
          unat (w_onTicks w') = unat (w_periodTicks w') * unat percent div 100 \<and>
          w_onTicks w' \<le> w_periodTicks w')"
proof (rule conjI)
  have wf: "pwm_wf (w, reg_put r v s)" for r v using assms(1) by simp
  show "if hz = 0 \<or> hz > w_systemClockHz w then pwm_setFrequency hz (w, s) = throw InvalidArgument (w, s)
     else let (w', s') = pwm_updatePeriodAndDuty (w, reg_put (w_freqRegister w) hz s)
       in pwm_setFrequency hz (w, s) = ret () (w', pwm_updateStatusRegister w' s') \<and>
          unat (w_periodTicks w') = unat (w_systemClockHz w) div unat hz \<and>
          unat (w_onTicks w') = unat (w_periodTicks w') * unat (pwm_dutyCycle w s) div 100 \<and>
          w_onTicks w' \<le> w_periodTicks w' \<and>
          (pwm_enabled w s \<longrightarrow> timer_compare (w_timer w) s' = w_periodTicks w')"
  proof (cases "hz = 0 \<or> hz > w_systemClockHz w")
    case False
    let ?s = "reg_put (w_freqRegister w) hz s"
    have get: "pwm_dutyCycle w ?s = pwm_dutyCycle w s" "pwm_frequency w ?s = hz"
      "pwm_enabled w ?s = pwm_enabled w s"
      using pwm_wf_neqs [OF assms(1)] by (simp_all add: pwm_dutyCycle_def pwm_frequency_def pwm_enabled_def)
    have le: "unat hz \<le> unat (w_systemClockHz w)" and pos: "0 < unat hz"
      using False by (simp_all add: word_less_nat_alt not_less unat_gt_0)
    then have "max 1 (unat (w_systemClockHz w) div max 1 (unat hz)) = unat (w_systemClockHz w) div unat hz"
      by (simp add: max_def) (metis One_nat_def div_greater_zero_iff leI less_Suc0 not_less_eq_eq)
    with False pwm_period_update [OF wf [of "w_freqRegister w" hz]] assms(2) show ?thesis
      by (simp add: get pwm_setFrequency_def Let_def split_beta)
  qed (simp add: pwm_setFrequency_def)
  show "if percent > 100 then pwm_setDutyCycle percent (w, s) = throw InvalidArgument (w, s)
     else let (w', s') = pwm_updatePeriodAndDuty (w, reg_put (w_dutyRegister w) percent s)
       in pwm_setDutyCycle percent (w, s) = ret () (w', pwm_updateStatusRegister w' s') \<and>
          unat (w_onTicks w') = unat (w_periodTicks w') * unat percent div 100 \<and>
          w_onTicks w' \<le> w_periodTicks w'"
  proof (cases "percent > 100")
    case False
    have "pwm_dutyCycle w (reg_put (w_dutyRegister w) percent s) = percent" by (simp add: pwm_dutyCycle_def)
    with False pwm_period_update [OF wf [of "w_dutyRegister w" percent]] show ?thesis
      by (simp add: pwm_setDutyCycle_def Let_def split_beta)
  qed (simp add: pwm_setDutyCycle_def)
qed

end
