(* ===== verification/Uart_Driver.thy ===== *)
theory Uart_Driver
  imports Mmio
begin

text \<open>
  The UART of \<^verbatim>\<open>drivers/uart/uart.hpp\<close>: two byte queues behind DATA, STATUS, CONTROL and BAUD
  registers. A \<^verbatim>\<open>std::queue\<close> is the list of its elements, front first; every operation works on
  the device and the register store together.
\<close>

section \<open>State\<close>

record uart =
  u_base :: address
  u_dataRegister :: nat
  u_statusRegister :: nat
  u_controlRegister :: nat
  u_baudRegister :: nat
  u_txFifo :: "u8 list"
  u_rxFifo :: "u8 list"

type_synonym 's on_uart = "uart \<times> 's"

definition DEFAULT_BAUD_RATE :: u32 where
  "DEFAULT_BAUD_RATE = 115200"

definition uart_enabled :: "uart \<Rightarrow> 'z mmio_st_scheme \<Rightarrow> bool" where
  "uart_enabled u s = test_flag (reg_get (u_controlRegister u) s) 0"

definition uart_status :: "bool \<Rightarrow> bool \<Rightarrow> bool \<Rightarrow> u32" where
  "uart_status txEmpty rxAvail en =
     (let st = 0;
          st = (if txEmpty then set_flag st 0 else st);
          st = (if rxAvail then set_flag st 1 else st);
          st = (if en then set_flag st 2 else st)
      in st)"

definition uart_updateStatusRegister :: "uart \<Rightarrow> 'z mmio_st_scheme \<Rightarrow> 'z mmio_st_scheme" where
  "uart_updateStatusRegister u s =
     reg_put (u_statusRegister u) (uart_status (u_txFifo u = []) (u_rxFifo u \<noteq> []) (uart_enabled u s)) s"

definition uart_init ::
  "address \<Rightarrow> u32 \<Rightarrow> 'z mmio_st_scheme \<Rightarrow> (uart, 'z mmio_st_scheme) outcome" where
  "uart_init base baud s =
     (let (da, s) = make_register (base + 0x00) 0 s;
          (st, s) = make_register (base + 0x04) (set_flag 0 0) s;
          (co, s) = make_register (base + 0x08) 0 s;
          (ba, s) = make_register (base + 0x0C) baud s
      in if baud = 0 then throw InvalidArgument s
         else let (ok, s) = register_chain [da, st, co, ba] s
         in if \<not> ok then throw RuntimeError s
            else let u = \<lparr>u_base = base, u_dataRegister = da, u_statusRegister = st,
                         u_controlRegister = co, u_baudRegister = ba, u_txFifo = [], u_rxFifo = []\<rparr>
                 in ret u (uart_updateStatusRegister u s))"

text \<open>\<^verbatim>\<open>dataAddress\<close>, \<^verbatim>\<open>statusAddress\<close>, \<^verbatim>\<open>controlAddress\<close> and \<^verbatim>\<open>baudAddress\<close>.\<close>

definition uart_addresses :: "uart \<Rightarrow> address list" where
  "uart_addresses u = [u_base u + 0x00, u_base u + 0x04, u_base u + 0x08, u_base u + 0x0C]"

definition uart_destroy :: "uart \<Rightarrow> 'z mmio_st_scheme \<Rightarrow> 'z mmio_st_scheme" where
  "uart_destroy u s = unregister_all (uart_addresses u) s"

section \<open>Operations\<close>

definition uart_enable :: "'z mmio_st_scheme on_uart \<Rightarrow> 'z mmio_st_scheme on_uart" where
  "uart_enable = (\<lambda>(u, s).
     let r = u_controlRegister u; s = reg_put r (set_flag (reg_get r s) 0) s
     in (u, uart_updateStatusRegister u s))"

definition uart_disable :: "'z mmio_st_scheme on_uart \<Rightarrow> 'z mmio_st_scheme on_uart" where
  "uart_disable = (\<lambda>(u, s).
     let r = u_controlRegister u; s = reg_put r (clear_flag (reg_get r s) 0) s
     in (u, uart_updateStatusRegister u s))"

definition uart_writeByte ::
  "u8 \<Rightarrow> 'z mmio_st_scheme on_uart \<Rightarrow> (unit, 'z mmio_st_scheme on_uart) outcome" where
  "uart_writeByte b = (\<lambda>(u, s).
     if \<not> uart_enabled u s then throw RuntimeError (u, s)
     else let u = u\<lparr>u_txFifo := u_txFifo u @ [b]\<rparr>;
              s = reg_put (u_dataRegister u) (ucast b) s
          in ret () (u, uart_updateStatusRegister u s))"

definition uart_readByte ::
  "'z mmio_st_scheme on_uart \<Rightarrow> (u8, 'z mmio_st_scheme on_uart) outcome" where
  "uart_readByte = (\<lambda>(u, s).
     if \<not> uart_enabled u s then throw RuntimeError (u, s)
     else case u_rxFifo u of
       [] \<Rightarrow> throw UnderflowError (u, s)
     | b # bs \<Rightarrow>
         let u = u\<lparr>u_rxFifo := bs\<rparr>;
             s = reg_put (u_dataRegister u) (ucast b) s
         in ret b (u, uart_updateStatusRegister u s))"

definition uart_pushReceivedByte ::
  "u8 \<Rightarrow> 'z mmio_st_scheme on_uart \<Rightarrow> (unit, 'z mmio_st_scheme on_uart) outcome" where
  "uart_pushReceivedByte b = (\<lambda>(u, s).
     if \<not> uart_enabled u s then throw RuntimeError (u, s)
     else let u = u\<lparr>u_rxFifo := u_rxFifo u @ [b]\<rparr>
          in ret () (u, uart_updateStatusRegister u s))"

definition uart_hasReceivedData :: "uart \<Rightarrow> bool" where
  "uart_hasReceivedData u \<longleftrightarrow> u_rxFifo u \<noteq> []"

definition uart_txEmpty :: "uart \<Rightarrow> bool" where
  "uart_txEmpty u \<longleftrightarrow> u_txFifo u = []"

definition uart_setBaudRate ::
  "u32 \<Rightarrow> 'z mmio_st_scheme on_uart \<Rightarrow> (unit, 'z mmio_st_scheme on_uart) outcome" where
  "uart_setBaudRate baud = (\<lambda>(u, s).
     if baud = 0 then throw InvalidArgument (u, s) else ret () (u, reg_put (u_baudRegister u) baud s))"

definition uart_baudRate :: "uart \<Rightarrow> 'z mmio_st_scheme \<Rightarrow> u32" where
  "uart_baudRate u s = reg_get (u_baudRegister u) s"

definition uart_txFifoSize :: "uart \<Rightarrow> nat" where
  "uart_txFifoSize u = length (u_txFifo u)"

definition uart_rxFifoSize :: "uart \<Rightarrow> nat" where
  "uart_rxFifoSize u = length (u_rxFifo u)"

definition uart_popTxByte ::
  "'z mmio_st_scheme on_uart \<Rightarrow> (u8, 'z mmio_st_scheme on_uart) outcome" where
  "uart_popTxByte = (\<lambda>(u, s).
     case u_txFifo u of
       [] \<Rightarrow> throw UnderflowError (u, s)
     | b # bs \<Rightarrow> let u = u\<lparr>u_txFifo := bs\<rparr> in ret b (u, uart_updateStatusRegister u s))"

definition uart_reset :: "'z mmio_st_scheme on_uart \<Rightarrow> 'z mmio_st_scheme on_uart" where
  "uart_reset = (\<lambda>us.
     let (u, s) = uart_disable us;
         u = u\<lparr>u_txFifo := []\<rparr>;
         u = u\<lparr>u_rxFifo := []\<rparr>;
         s = reg_rst (u_dataRegister u) s;
         s = reg_rst (u_controlRegister u) s
     in (u, uart_updateStatusRegister u s))"

section \<open>Abstract specification\<close>

record abs_uart =
  au_on :: bool
  au_tx :: "u8 list"
  au_rx :: "u8 list"
  au_baud :: u32

datatype uart_op =
  UEnable | UDisable | UWrite u8 | URead | UPush u8 | UPop | UBaud u32 | UReset

text \<open>The byte a read returns, \<open>None\<close> for the operations that return nothing.\<close>

definition nothing :: "'s \<Rightarrow> (u8 option, 's) outcome" where
  "nothing s = ret None s"

fun uart_apply ::
  "uart_op \<Rightarrow> 'z mmio_st_scheme on_uart \<Rightarrow> (u8 option, 'z mmio_st_scheme on_uart) outcome" where
  "uart_apply UEnable us = nothing (uart_enable us)"
| "uart_apply UDisable us = nothing (uart_disable us)"
| "uart_apply (UWrite b) us = and_then (uart_writeByte b us) (\<lambda>_. nothing)"
| "uart_apply URead us = and_then (uart_readByte us) (\<lambda>b. ret (Some b))"
| "uart_apply (UPush b) us = and_then (uart_pushReceivedByte b us) (\<lambda>_. nothing)"
| "uart_apply UPop us = and_then (uart_popTxByte us) (\<lambda>b. ret (Some b))"
| "uart_apply (UBaud w) us = and_then (uart_setBaudRate w us) (\<lambda>_. nothing)"
| "uart_apply UReset us = nothing (uart_reset us)"

fun line_apply :: "uart_op \<Rightarrow> abs_uart \<Rightarrow> (u8 option, abs_uart) outcome" where
  "line_apply UEnable a = nothing (a\<lparr>au_on := True\<rparr>)"
| "line_apply UDisable a = nothing (a\<lparr>au_on := False\<rparr>)"
| "line_apply (UWrite b) a =
     (if au_on a then nothing (a\<lparr>au_tx := au_tx a @ [b]\<rparr>) else throw RuntimeError a)"
| "line_apply URead a =
     (if \<not> au_on a then throw RuntimeError a
      else case au_rx a of [] \<Rightarrow> throw UnderflowError a | b # bs \<Rightarrow> ret (Some b) (a\<lparr>au_rx := bs\<rparr>))"
| "line_apply (UPush b) a =
     (if au_on a then nothing (a\<lparr>au_rx := au_rx a @ [b]\<rparr>) else throw RuntimeError a)"
| "line_apply UPop a =
     (case au_tx a of [] \<Rightarrow> throw UnderflowError a | b # bs \<Rightarrow> ret (Some b) (a\<lparr>au_tx := bs\<rparr>))"
| "line_apply (UBaud w) a = (if w = 0 then throw InvalidArgument a else nothing (a\<lparr>au_baud := w\<rparr>))"
| "line_apply UReset a = nothing (a\<lparr>au_on := False, au_tx := [], au_rx := []\<rparr>)"

definition uart_view :: "'z mmio_st_scheme on_uart \<Rightarrow> abs_uart" where
  "uart_view = (\<lambda>(u, s). \<lparr>au_on = uart_enabled u s, au_tx = u_txFifo u, au_rx = u_rxFifo u,
     au_baud = uart_baudRate u s\<rparr>)"

section \<open>Well-formedness and the status register\<close>

definition uart_regs :: "uart \<Rightarrow> nat list" where
  "uart_regs u = [u_dataRegister u, u_statusRegister u, u_controlRegister u, u_baudRegister u]"

definition uart_wf :: "'z mmio_st_scheme on_uart \<Rightarrow> bool" where
  "uart_wf = (\<lambda>(u, s). distinct (uart_regs u) \<and>
     m_initialValue (reg_objs s (u_controlRegister u)) = 0)"

definition uart_status_ok :: "'z mmio_st_scheme on_uart \<Rightarrow> bool" where
  "uart_status_ok = (\<lambda>(u, s).
     reg_get (u_statusRegister u) s = uart_status (u_txFifo u = []) (u_rxFifo u \<noteq> []) (uart_enabled u s))"

lemma uart_regs_upd [simp]:
  "uart_regs (u\<lparr>u_txFifo := xs\<rparr>) = uart_regs u" "uart_regs (u\<lparr>u_rxFifo := xs\<rparr>) = uart_regs u"
  by (simp_all add: uart_regs_def)

lemma uart_wf_distinct:
  assumes "uart_wf (u, s)"
  shows "u_dataRegister u \<noteq> u_statusRegister u" "u_dataRegister u \<noteq> u_controlRegister u"
    "u_dataRegister u \<noteq> u_baudRegister u" "u_statusRegister u \<noteq> u_controlRegister u"
    "u_statusRegister u \<noteq> u_baudRegister u" "u_controlRegister u \<noteq> u_baudRegister u"
  using assms by (simp_all add: uart_wf_def uart_regs_def)

lemmas uart_wf_neqs = uart_wf_distinct uart_wf_distinct [symmetric]

lemmas uart_op_defs =
  uart_enable_def uart_disable_def uart_writeByte_def uart_readByte_def uart_pushReceivedByte_def
  uart_popTxByte_def uart_setBaudRate_def uart_reset_def nothing_def

lemmas uart_view_defs = uart_view_def uart_enabled_def uart_baudRate_def uart_updateStatusRegister_def

lemma uart_wf_apply: "uart_wf us \<Longrightarrow> uart_wf (snd (uart_apply q us))"
  by (cases us; cases q)
    (auto simp: uart_op_defs uart_updateStatusRegister_def Let_def uart_wf_def split: list.splits)

lemma uart_apply_view:
  assumes "uart_wf us"
  shows "map_prod id uart_view (uart_apply q us) = line_apply q (uart_view us)"
proof -
  obtain u s where us: "us = (u, s)" by (cases us)
  have ini: "m_initialValue (reg_objs s (u_controlRegister u)) = 0"
    using assms by (simp add: us uart_wf_def)
  note neqs = uart_wf_neqs [OF assms [unfolded us]]
  show ?thesis
    by (cases q) (simp_all add: us uart_op_defs uart_view_defs Let_def neqs flag_simps ini
        split: list.splits)
qed

lemma uart_status_apply:
  assumes "uart_wf us" and "uart_status_ok us"
  shows "uart_status_ok (snd (uart_apply q us))"
proof -
  obtain u s where us: "us = (u, s)" by (cases us)
  note neqs = uart_wf_neqs [OF assms(1) [unfolded us]]
  show ?thesis
    using assms(2)
    by (cases q) (simp_all add: us uart_op_defs uart_view_defs uart_status_ok_def Let_def neqs
        split: list.splits)
qed

lemma uart_init_ok:
  assumes "uart_init base baud s = ret u s'"
  shows "uart_wf (u, s')" and "uart_status_ok (u, s')"
proof -
  have "uart_wf (u, s') \<and> uart_status_ok (u, s')"
    using assms
    by (auto simp: uart_init_def make_register_def Let_def uart_wf_def uart_regs_def uart_status_ok_def
        register_init_def uart_updateStatusRegister_def uart_enabled_def
        split: prod.splits if_splits dest!: register_chain_fresh)
  then show "uart_wf (u, s')" and "uart_status_ok (u, s')" by simp_all
qed

fun uart_run ::
  "uart_op list \<Rightarrow> 'z mmio_st_scheme on_uart \<Rightarrow> (cpp_exception + u8 option) list \<times> 'z mmio_st_scheme on_uart" where
  "uart_run [] us = ([], us)"
| "uart_run (q # qs) us = (let (r, us) = uart_apply q us; (rs, us) = uart_run qs us in (r # rs, us))"

fun line_run ::
  "uart_op list \<Rightarrow> abs_uart \<Rightarrow> (cpp_exception + u8 option) list \<times> abs_uart" where
  "line_run [] a = ([], a)"
| "line_run (q # qs) a = (let (r, a) = line_apply q a; (rs, a) = line_run qs a in (r # rs, a))"

text \<open>Bytes come out of the transmit queue in the order they went in.\<close>

lemma line_run_append:
  "line_run (ps @ qs) a = (let (rs, a) = line_run ps a; (rs', a) = line_run qs a in (rs @ rs', a))"
  by (induction ps arbitrary: a) (auto simp: Let_def split: prod.splits)

lemma line_writes:
  "au_on a \<Longrightarrow> line_run (map UWrite bs) a = (map (\<lambda>_. Inr None) bs, a\<lparr>au_tx := au_tx a @ bs\<rparr>)"
  by (induction bs arbitrary: a) (simp_all add: nothing_def)

lemma line_pops:
  "au_tx a = bs @ rest \<Longrightarrow> line_run (map (\<lambda>_. UPop) bs) a = (map (Inr \<circ> Some) bs, a\<lparr>au_tx := rest\<rparr>)"
  by (induction bs arbitrary: a) simp_all

lemma line_pushes:
  "au_on a \<Longrightarrow> line_run (map UPush bs) a = (map (\<lambda>_. Inr None) bs, a\<lparr>au_rx := au_rx a @ bs\<rparr>)"
  by (induction bs arbitrary: a) (simp_all add: nothing_def)

lemma line_reads:
  "au_on a \<Longrightarrow> au_rx a = bs @ rest \<Longrightarrow>
     line_run (map (\<lambda>_. URead) bs) a = (map (Inr \<circ> Some) bs, a\<lparr>au_rx := rest\<rparr>)"
  by (induction bs arbitrary: a) simp_all

lemma uart_run_view:
  "uart_wf us \<Longrightarrow> map_prod id uart_view (uart_run qs us) = line_run qs (uart_view us)"
proof (induction qs arbitrary: us)
  case (Cons q qs)
  obtain r us1 where step: "uart_apply q us = (r, us1)" by (cases "uart_apply q us")
  obtain rs us2 where rest: "uart_run qs us1 = (rs, us2)" by (cases "uart_run qs us1")
  have "line_apply q (uart_view us) = (r, uart_view us1)"
    using uart_apply_view [OF Cons.prems, of q] step by simp
  moreover have "uart_wf us1" using uart_wf_apply [OF Cons.prems, of q] step by simp
  then have "line_run qs (uart_view us1) = (rs, uart_view us2)"
    using Cons.IH [of us1] rest by simp
  ultimately show ?case using step rest by simp
qed simp

lemma uart_run_status:
  "uart_wf us \<Longrightarrow> uart_status_ok us \<Longrightarrow> uart_wf (snd (uart_run qs us)) \<and> uart_status_ok (snd (uart_run qs us))"
proof (induction qs arbitrary: us)
  case (Cons q qs)
  then show ?case
    using uart_wf_apply [of us q] uart_status_apply [of us q]
    by (cases "uart_apply q us") (simp add: Let_def split_beta)
qed simp

definition demo_uart :: "mmio_st on_uart" where
  "demo_uart = (let (r, s) = uart_init 0x40000000 DEFAULT_BAUD_RATE
     \<lparr>reg_objs = \<lambda>_. register_init 0 0, next_ref = 0, m_registers = []\<rparr> in (projr r, s))"

lemma demo_uart_ok: "uart_wf demo_uart" "uart_status_ok demo_uart" "\<not> au_on (uart_view demo_uart)"
  "au_tx (uart_view demo_uart) = []" "au_rx (uart_view demo_uart) = []"
  by code_simp+

section \<open>Properties\<close>

text \<open>
  C9. The UART refines a pair of byte queues with an enable switch: every run of operations returns
  the values and exceptions of the specification (disabled, empty queue, zero baud rate) and ends in a
  state with its view. Throughout, STATUS shows exactly whether the transmit queue is empty, the
  receive queue is not, and the device is on.
\<close>

theorem uart_refines_queues:
  assumes "uart_wf us" and "uart_status_ok us"
  shows "map_prod id uart_view (uart_run qs us) = line_run qs (uart_view us) \<and>
    uart_status_ok (snd (uart_run qs us))"
  using uart_run_view [OF assms(1)] uart_run_status [OF assms] by blast

theorem uart_refines_queues_witness:
  "fst (uart_run [UWrite 1, UEnable, UPush 7, URead, URead, UPop, UBaud 0] demo_uart) =
     [Inl RuntimeError, Inr None, Inr None, Inr (Some 7), Inl UnderflowError, Inl UnderflowError, Inl InvalidArgument]"
proof -
  let ?qs = "[UWrite 1, UEnable, UPush 7, URead, URead, UPop, UBaud 0]"
  have "fst (uart_run ?qs demo_uart) = fst (map_prod id uart_view (uart_run ?qs demo_uart))" by simp
  also have "\<dots> = fst (line_run ?qs (uart_view demo_uart))"
    using uart_refines_queues [OF demo_uart_ok(1,2), of ?qs] by metis
  finally show ?thesis by (simp add: demo_uart_ok nothing_def)
qed

text \<open>
  C33. Bytes are delivered in order and none is lost: on an enabled UART with empty queues, the bytes
  written are popped from the transmit queue, and the bytes received are read, in the order they
  came, after which both queues are empty again.
\<close>

theorem uart_fifo_roundtrip:
  assumes "uart_wf us" and "au_on (uart_view us)"
    and "au_tx (uart_view us) = []" and "au_rx (uart_view us) = []"
  shows "let (rs, us') = uart_run (map UWrite bs @ map UPush cs @ map (\<lambda>_. UPop) bs @ map (\<lambda>_. URead) cs) us
    in rs = map (\<lambda>_. Inr None) (bs @ cs) @ map (Inr \<circ> Some) (bs @ cs) \<and> uart_view us' = uart_view us"
proof -
  let ?qs = "map UWrite bs @ map UPush cs @ map (\<lambda>_. UPop) bs @ map (\<lambda>_. URead) cs"
  have "line_run ?qs (uart_view us) =
      (map (\<lambda>_. Inr None) (bs @ cs) @ map (Inr \<circ> Some) (bs @ cs), uart_view us)"
    using assms by (simp add: line_run_append line_writes line_pushes
        line_pops [where rest = "[]"] line_reads [where rest = "[]"])
  then show ?thesis
    using uart_run_view [OF assms(1), of ?qs] by (auto split: prod.splits)
qed

theorem uart_fifo_roundtrip_witness:
  "fst (uart_run [UWrite 1, UWrite 2, UPush 9, UPop, UPop, URead] (snd (uart_apply UEnable demo_uart))) =
     [Inr None, Inr None, Inr None, Inr (Some 1), Inr (Some 2), Inr (Some 9)]"
proof -
  let ?us = "snd (uart_apply UEnable demo_uart)"
  have "map_prod id uart_view (uart_apply UEnable demo_uart) = line_apply UEnable (uart_view demo_uart)"
    by (rule uart_apply_view [OF demo_uart_ok(1)])
  then have "uart_view ?us = (uart_view demo_uart)\<lparr>au_on := True\<rparr>"
    by (simp add: nothing_def)
  moreover have "uart_wf ?us" by (rule uart_wf_apply [OF demo_uart_ok(1)])
  ultimately show ?thesis
    using uart_fifo_roundtrip [of ?us "[1, 2]" "[9]"] demo_uart_ok
    by (simp add: Let_def split_beta)
qed

end
