(* ===== verification/Ram.thy ===== *)
theory Ram
  imports Prelude
begin

text \<open>
  The byte-addressable memory of \<^verbatim>\<open>memory/memory.hpp\<close> and \<^verbatim>\<open>src/memory/memory.cpp\<close>, the interface of a
  byte store that a data mover relies on, and the byte-by-byte copy over that interface.
\<close>

section \<open>The memory\<close>

record memory =
  m_storage :: "u8 list"

definition memory_init :: "u64 \<Rightarrow> memory" where
  "memory_init sz = \<lparr>m_storage = replicate (unat sz) 0\<rparr>"

definition memory_isValidAddress :: "address \<Rightarrow> memory \<Rightarrow> bool" where
  "memory_isValidAddress a m \<longleftrightarrow> unat a < length (m_storage m)"

definition memory_read :: "address \<Rightarrow> memory \<Rightarrow> (u8, memory) outcome" where
  "memory_read a m =
     (if \<not> memory_isValidAddress a m then throw OutOfRange m
      else ret (m_storage m ! unat a) m)"

definition memory_write :: "address \<Rightarrow> u8 \<Rightarrow> memory \<Rightarrow> (unit, memory) outcome" where
  "memory_write a v m =
     (if \<not> memory_isValidAddress a m then throw OutOfRange m
      else ret () (m\<lparr>m_storage := (m_storage m)[unat a := v]\<rparr>))"

definition memory_size :: "memory \<Rightarrow> nat" where
  "memory_size m = length (m_storage m)"

definition memory_clear :: "memory \<Rightarrow> memory" where
  "memory_clear m = m\<lparr>m_storage := replicate (length (m_storage m)) 0\<rparr>"

text \<open>The values behind the checked accesses, total functions for the proofs.\<close>

definition memory_load :: "address \<Rightarrow> memory \<Rightarrow> u8" where
  "memory_load a m = m_storage m ! unat a"

definition memory_store :: "address \<Rightarrow> u8 \<Rightarrow> memory \<Rightarrow> memory" where
  "memory_store a v m = m\<lparr>m_storage := (m_storage m)[unat a := v]\<rparr>"

lemma memory_read_eq:
  "memory_isValidAddress a m \<Longrightarrow> memory_read a m = ret (memory_load a m) m"
  by (simp add: memory_read_def memory_load_def)

lemma memory_write_eq:
  "memory_isValidAddress a m \<Longrightarrow> memory_write a v m = ret () (memory_store a v m)"
  by (simp add: memory_write_def memory_store_def)

section \<open>The interface of a byte store\<close>

primrec copy_bytes ::
  "(address \<Rightarrow> 'm \<Rightarrow> u8) \<Rightarrow> (address \<Rightarrow> u8 \<Rightarrow> 'm \<Rightarrow> 'm) \<Rightarrow> nat \<Rightarrow> address \<Rightarrow> address \<Rightarrow> 'm \<Rightarrow> 'm"
where
  "copy_bytes ld st 0 src dst m = m"
| "copy_bytes ld st (Suc n) src dst m =
     copy_bytes ld st n (src + 1) (dst + 1) (st dst (ld src m) m)"

text \<open>
  What a mover may assume: a stored byte is read back, other bytes stay, and storing does not
  change which addresses are valid.
\<close>

locale byte_store =
  fixes valid :: "address \<Rightarrow> 'm \<Rightarrow> bool"
    and ld :: "address \<Rightarrow> 'm \<Rightarrow> u8"
    and st :: "address \<Rightarrow> u8 \<Rightarrow> 'm \<Rightarrow> 'm"
  assumes ld_st_same: "valid a m \<Longrightarrow> ld a (st a v m) = v"
    and ld_st_other: "a \<noteq> b \<Longrightarrow> ld b (st a v m) = ld b m"
    and valid_st: "valid b (st a v m) = valid b m"
begin

lemma valid_copy: "valid b (copy_bytes ld st n src dst m) = valid b m"
  by (induction n arbitrary: src dst m) (simp_all add: valid_st)

lemma copy_outside:
  "(\<And>i. i < n \<Longrightarrow> dst + of_nat i \<noteq> b) \<Longrightarrow> ld b (copy_bytes ld st n src dst m) = ld b m"
proof (induction n arbitrary: src dst m)
  case (Suc n)
  have "dst + 1 + of_nat i \<noteq> b" if "i < n" for i
    using Suc.prems [of "Suc i"] that by (simp add: add.assoc)
  then have "ld b (copy_bytes ld st n (src + 1) (dst + 1) (st dst (ld src m) m))
      = ld b (st dst (ld src m) m)"
    by (rule Suc.IH)
  also have "\<dots> = ld b m" using Suc.prems [of 0] by (simp add: ld_st_other)
  finally show ?case by simp
qed simp

text \<open>
  A forward copy moves every byte as it was before the copy, provided no write lands on a source
  address that is read later, which includes disjoint ranges and ranges that overlap with the
  destination below the source.
\<close>

lemma copy_moves:
  assumes "n \<le> 2 ^ 64"
    and "\<And>i. i < n \<Longrightarrow> valid (dst + of_nat i) m"
    and "\<And>i j. i < j \<Longrightarrow> j < n \<Longrightarrow> dst + of_nat i \<noteq> src + of_nat j"
    and "k < n"
  shows "ld (dst + of_nat k) (copy_bytes ld st n src dst m) = ld (src + of_nat k) m"
  using assms
proof (induction n arbitrary: src dst m k)
  case (Suc n)
  let ?m = "st dst (ld src m) m"
  show ?case
  proof (cases k)
    case 0
    have "dst + 1 + of_nat i \<noteq> dst" if "i < n" for i
    proof -
      have "unat (of_nat (Suc i) :: u64) = Suc i" using that Suc.prems(1) by (intro unat_of_nat_u64) simp
      then have "(of_nat (Suc i) :: u64) \<noteq> 0" by (metis Zero_not_Suc unat_0)
      then show ?thesis by (simp add: add.assoc)
    qed
    then have "ld dst (copy_bytes ld st n (src + 1) (dst + 1) ?m) = ld dst ?m"
      by (rule copy_outside)
    with 0 Suc.prems(2) [of 0] show ?thesis by (simp add: ld_st_same)
  next
    case (Suc k')
    have "ld (dst + 1 + of_nat k') (copy_bytes ld st n (src + 1) (dst + 1) ?m)
        = ld (src + 1 + of_nat k') ?m"
    proof (rule Suc.IH)
      show "valid (dst + 1 + of_nat i) ?m" if "i < n" for i
        using Suc.prems(2) [of "Suc i"] that by (simp add: valid_st add.assoc)
      show "dst + 1 + of_nat i \<noteq> src + 1 + of_nat j" if "i < j" "j < n" for i j
        using Suc.prems(3) [of "Suc i" "Suc j"] that by simp
    qed (use Suc.prems \<open>k = Suc k'\<close> in simp_all)
    moreover have "dst \<noteq> src + 1 + of_nat k'"
      using Suc.prems(3) [of 0 "Suc k'"] Suc.prems(4) \<open>k = Suc k'\<close> by (simp add: add.assoc)
    ultimately show ?thesis using \<open>k = Suc k'\<close> by (simp add: ld_st_other add.assoc)
  qed
qed simp

end

interpretation ram: byte_store memory_isValidAddress memory_load memory_store
  by unfold_locales
    (auto simp: memory_isValidAddress_def memory_load_def memory_store_def nth_list_update)

section \<open>Properties\<close>

text \<open>
  Reading, writing, clearing and bounds of the memory: an access is in bounds exactly below the
  size given at construction; in bounds a write is read back and leaves every other cell alone,
  out of bounds both throw \<^verbatim>\<open>std::out_of_range\<close> and the memory is unchanged; clearing zeroes
  every cell and keeps the size.
\<close>

lemma memory_read_write:
  shows "(memory_isValidAddress a (memory_init sz) \<longleftrightarrow> a < sz) \<and>
    (if memory_isValidAddress a m
     then fst (memory_write a v m) = Inr () \<and>
       (\<forall>b. fst (memory_read b (snd (memory_write a v m))) =
          (if b = a then Inr v else fst (memory_read b m)))
     else memory_write a v m = throw OutOfRange m \<and> memory_read a m = throw OutOfRange m) \<and>
    memory_size (snd (memory_write a v m)) = memory_size m \<and>
    memory_size (memory_clear m) = memory_size m \<and>
    fst (memory_read a (memory_clear m)) =
      (if memory_isValidAddress a m then Inr 0 else Inl OutOfRange)"
  by (auto simp: memory_init_def memory_isValidAddress_def memory_read_def memory_write_def
      memory_clear_def memory_size_def word_less_nat_alt nth_list_update)

end
