(* ===== verification/Dma_Driver.thy ===== *)
theory Dma_Driver
  imports Timer_Driver Uart_Driver Ram
begin

text \<open>
  The DMA controller of \<^verbatim>\<open>drivers/dma/dma_controller.hpp\<close>: one byte per step from a source to a
  destination, each of which is the UART's DATA register, a register on the bus or a memory cell, tried
  in this order. The machine state gains the memory and the UART; the controller's pointers to them are
  flags.
\<close>

section \<open>State\<close>

record dma_st = timer_st +
  mem0 :: memory
  uart0 :: uart

record dma =
  d_memory :: bool
  d_mmioBus :: bool
  d_interruptController :: bool
  d_scheduler :: bool
  d_uart :: bool
  d_interruptId :: u8
  d_sourceAddress :: address
  d_destinationAddress :: address
  d_length :: u64
  d_currentSrc :: address
  d_currentDst :: address
  d_transferredBytes :: u64
  d_srcIncrement :: bool
  d_dstIncrement :: bool
  d_userSetSrcIncrement :: bool
  d_userSetDstIncrement :: bool
  d_busy :: bool
  d_completed :: bool
  d_error :: bool

type_synonym 's on_dma = "dma \<times> 's"

definition dma_init :: "bool \<Rightarrow> bool \<Rightarrow> bool \<Rightarrow> bool \<Rightarrow> dma" where
  "dma_init memPtr mmioPtr icPtr uartPtr =
     \<lparr>d_memory = memPtr, d_mmioBus = mmioPtr, d_interruptController = icPtr, d_scheduler = False,
      d_uart = uartPtr, d_interruptId = 0, d_sourceAddress = 0, d_destinationAddress = 0,
      d_length = 0, d_currentSrc = 0, d_currentDst = 0, d_transferredBytes = 0,
      d_srcIncrement = True, d_dstIncrement = True, d_userSetSrcIncrement = False,
      d_userSetDstIncrement = False, d_busy = False, d_completed = False, d_error = False\<rparr>"

section \<open>Wiring and configuration\<close>

definition dma_attachMemory :: "bool \<Rightarrow> dma \<Rightarrow> dma" where
  "dma_attachMemory ptr d = d\<lparr>d_memory := ptr\<rparr>"

definition dma_attachMMIO :: "bool \<Rightarrow> dma \<Rightarrow> dma" where
  "dma_attachMMIO ptr d = d\<lparr>d_mmioBus := ptr\<rparr>"

definition dma_attachInterruptController :: "bool \<Rightarrow> u8 \<Rightarrow> dma \<Rightarrow> dma" where
  "dma_attachInterruptController ptr irq d = d\<lparr>d_interruptController := ptr, d_interruptId := irq\<rparr>"

definition dma_detachInterruptController :: "dma \<Rightarrow> dma" where
  "dma_detachInterruptController d = d\<lparr>d_interruptController := False, d_interruptId := 0\<rparr>"

definition dma_attachUART :: "bool \<Rightarrow> dma \<Rightarrow> dma" where
  "dma_attachUART ptr d = d\<lparr>d_uart := ptr\<rparr>"

definition dma_detachUART :: "dma \<Rightarrow> dma" where
  "dma_detachUART d = d\<lparr>d_uart := False\<rparr>"

definition dma_attachScheduler :: "bool \<Rightarrow> dma \<Rightarrow> dma" where
  "dma_attachScheduler ptr d = d\<lparr>d_scheduler := ptr\<rparr>"

definition dma_detachScheduler :: "dma \<Rightarrow> dma" where
  "dma_detachScheduler d = d\<lparr>d_scheduler := False\<rparr>"

text \<open>Where an address leads; the three tests the code makes for it.\<close>

definition dma_isUartData :: "dma \<Rightarrow> address \<Rightarrow> 'z dma_st_scheme \<Rightarrow> bool" where
  "dma_isUartData d a s \<longleftrightarrow> d_uart d \<and> a = u_base (uart0 s) + 0x00"

definition dma_isMmioReg :: "dma \<Rightarrow> address \<Rightarrow> 'z dma_st_scheme \<Rightarrow> bool" where
  "dma_isMmioReg d a s \<longleftrightarrow> d_mmioBus d \<and> mmio_contains a s"

definition dma_isMemory :: "dma \<Rightarrow> address \<Rightarrow> 'z dma_st_scheme \<Rightarrow> bool" where
  "dma_isMemory d a s \<longleftrightarrow> d_memory d \<and> memory_isValidAddress a (mem0 s)"

definition dma_configure ::
  "address \<Rightarrow> address \<Rightarrow> u64 \<Rightarrow> dma \<Rightarrow> 'z dma_st_scheme \<Rightarrow> bool \<times> dma" where
  "dma_configure src dst len d s =
     (if d_busy d then (False, d)
      else let d = d\<lparr>d_sourceAddress := src, d_destinationAddress := dst, d_length := len,
                     d_currentSrc := src, d_currentDst := dst, d_transferredBytes := 0,
                     d_busy := False, d_completed := False, d_error := False\<rparr>;
               d = (if \<not> d_userSetSrcIncrement d
                    then d\<lparr>d_srcIncrement := \<not> (dma_isUartData d src s \<or> dma_isMmioReg d src s)\<rparr> else d);
               d = (if \<not> d_userSetDstIncrement d
                    then d\<lparr>d_dstIncrement := \<not> (dma_isUartData d dst s \<or> dma_isMmioReg d dst s)\<rparr> else d)
           in (True, d))"

definition dma_setIncrements :: "bool \<Rightarrow> bool \<Rightarrow> dma \<Rightarrow> dma" where
  "dma_setIncrements si di d =
     d\<lparr>d_srcIncrement := si, d_dstIncrement := di, d_userSetSrcIncrement := True,
       d_userSetDstIncrement := True\<rparr>"

section \<open>Transfers\<close>

definition dma_trigger :: "dma \<Rightarrow> 'z dma_st_scheme \<Rightarrow> (unit, 'z dma_st_scheme on_dma) outcome" where
  "dma_trigger d s =
     (if d_interruptController d
      then case ic_trigger (d_interruptId d) s of (r, s) \<Rightarrow> (r, (d, s))
      else ret () (d, s))"

definition dma_start :: "'z dma_st_scheme on_dma \<Rightarrow> (bool, 'z dma_st_scheme on_dma) outcome" where
  "dma_start = (\<lambda>(d, s).
     if \<not> d_memory d \<and> \<not> d_mmioBus d \<and> \<not> d_uart d then ret False (d\<lparr>d_error := True\<rparr>, s)
     else if d_length d = 0
     then let d = d\<lparr>d_busy := False, d_completed := True, d_error := False\<rparr>
          in and_then (dma_trigger d s) (\<lambda>_. ret True)
     else let valid = (\<lambda>a. dma_isUartData d a s \<or> dma_isMmioReg d a s \<or> dma_isMemory d a s)
     in if \<not> valid (d_sourceAddress d) \<or> \<not> valid (d_destinationAddress d)
        then ret False (d\<lparr>d_error := True, d_busy := False, d_completed := False\<rparr>, s)
        else ret True (d\<lparr>d_currentSrc := d_sourceAddress d, d_currentDst := d_destinationAddress d,
                         d_transferredBytes := 0, d_busy := True, d_completed := False,
                         d_error := False\<rparr>, s))"

definition dma_stop :: "dma \<Rightarrow> dma" where
  "dma_stop d = d\<lparr>d_busy := False\<rparr>"

definition dma_reset :: "dma \<Rightarrow> dma" where
  "dma_reset d =
     (dma_stop d)\<lparr>d_sourceAddress := 0, d_destinationAddress := 0, d_length := 0, d_currentSrc := 0,
        d_currentDst := 0, d_transferredBytes := 0, d_srcIncrement := True, d_dstIncrement := True,
        d_userSetSrcIncrement := False, d_userSetDstIncrement := False, d_busy := False,
        d_completed := False, d_error := False\<rparr>"

text \<open>A UART operation on the machine's UART.\<close>

definition via_uart ::
  "('z dma_st_scheme on_uart \<Rightarrow> ('a, 'z dma_st_scheme on_uart) outcome) \<Rightarrow>
   'z dma_st_scheme \<Rightarrow> ('a, 'z dma_st_scheme) outcome" where
  "via_uart f s = (case f (uart0 s, s) of (r, (u, s)) \<Rightarrow> (r, s\<lparr>uart0 := u\<rparr>))"

text \<open>The byte at the source; \<open>None\<close> when the address leads nowhere.\<close>

definition dma_fetch :: "dma \<Rightarrow> 'z dma_st_scheme \<Rightarrow> (u8 option, 'z dma_st_scheme) outcome" where
  "dma_fetch d s =
     (if dma_isUartData d (d_currentSrc d) s
      then and_then (via_uart uart_readByte s) (\<lambda>b. ret (Some b))
      else if dma_isMmioReg d (d_currentSrc d) s
      then and_then (mmio_read (d_currentSrc d) s) (\<lambda>w. ret (Some (ucast (w AND 0xFF))))
      else if dma_isMemory d (d_currentSrc d) s
      then (case memory_read (d_currentSrc d) (mem0 s) of
              (Inl e, m) \<Rightarrow> throw e s | (Inr b, m) \<Rightarrow> ret (Some b) s)
      else ret None s)"

definition dma_store :: "dma \<Rightarrow> u8 \<Rightarrow> 'z dma_st_scheme \<Rightarrow> (bool, 'z dma_st_scheme) outcome" where
  "dma_store d v s =
     (if dma_isUartData d (d_currentDst d) s
      then and_then (via_uart (uart_writeByte v) s) (\<lambda>_. ret True)
      else if dma_isMmioReg d (d_currentDst d) s
      then and_then (mmio_write (d_currentDst d) (ucast v) s) (\<lambda>_. ret True)
      else if dma_isMemory d (d_currentDst d) s
      then (case memory_write (d_currentDst d) v (mem0 s) of
              (Inl e, m) \<Rightarrow> throw e s | (Inr _, m) \<Rightarrow> ret True (s\<lparr>mem0 := m\<rparr>))
      else ret False s)"

text \<open>The counters after a byte has been moved.\<close>

definition dma_advance :: "dma \<Rightarrow> dma" where
  "dma_advance d =
     (let d = d\<lparr>d_transferredBytes := d_transferredBytes d + 1\<rparr>;
          d = (if d_srcIncrement d then d\<lparr>d_currentSrc := d_currentSrc d + 1\<rparr> else d)
      in if d_dstIncrement d then d\<lparr>d_currentDst := d_currentDst d + 1\<rparr> else d)"

definition dma_finish :: "'z dma_st_scheme on_dma \<Rightarrow> (unit, 'z dma_st_scheme on_dma) outcome" where
  "dma_finish = (\<lambda>(d, s).
     if d_transferredBytes d \<ge> d_length d
     then let d = d\<lparr>d_busy := False, d_completed := True\<rparr>
          in and_then (dma_trigger d s) (\<lambda>_ (d, s).
               ret () (d, if d_scheduler d
                          then s\<lparr>esched := snd (sched_schedule (Some DmaNotice) 0
                                                  ''DMA Transfer Complete'' (esched s))\<rparr>
                          else s))
     else ret () (d, s))"

definition dma_step :: "'z dma_st_scheme on_dma \<Rightarrow> (unit, 'z dma_st_scheme on_dma) outcome" where
  "dma_step = (\<lambda>(d, s).
     if \<not> d_busy d then ret () (d, s)
     else if d_transferredBytes d \<ge> d_length d then ret () (d\<lparr>d_busy := False, d_completed := True\<rparr>, s)
     else case dma_fetch d s of
       (Inl e, s) \<Rightarrow> throw e (d, s)
     | (Inr None, s) \<Rightarrow> ret () (d\<lparr>d_error := True, d_busy := False\<rparr>, s)
     | (Inr (Some v), s) \<Rightarrow>
         (case dma_store d v s of
            (Inl e, s) \<Rightarrow> throw e (d, s)
          | (Inr False, s) \<Rightarrow> ret () (d\<lparr>d_error := True, d_busy := False\<rparr>, s)
          | (Inr True, s) \<Rightarrow> dma_finish (dma_advance d, s)))"

definition dma_tick :: "'z dma_st_scheme on_dma \<Rightarrow> (unit, 'z dma_st_scheme on_dma) outcome" where
  "dma_tick = dma_step"

fun dma_steps :: "nat \<Rightarrow> 'z dma_st_scheme on_dma \<Rightarrow> 'z dma_st_scheme on_dma" where
  "dma_steps 0 ds = ds"
| "dma_steps (Suc n) ds = dma_steps n (snd (dma_step ds))"

section \<open>Invariant\<close>

text \<open>
  No more bytes than configured are ever moved; a running transfer has bytes left and is not
  reported complete.
\<close>

definition dma_inv :: "dma \<Rightarrow> bool" where
  "dma_inv d \<longleftrightarrow> d_transferredBytes d \<le> d_length d \<and>
     (d_busy d \<longrightarrow> d_transferredBytes d < d_length d \<and> \<not> d_completed d)"

datatype dma_op =
  DConfigure address address u64 | DSetIncrements bool bool | DStart | DStop | DReset | DStep
| DAttachMemory bool | DAttachMMIO bool | DAttachIrq bool u8 | DAttachUart bool | DAttachSched bool

fun dma_apply :: "dma_op \<Rightarrow> 'z dma_st_scheme on_dma \<Rightarrow> 'z dma_st_scheme on_dma" where
  "dma_apply (DConfigure a b n) ds = (case ds of (d, s) \<Rightarrow> (snd (dma_configure a b n d s), s))"
| "dma_apply (DSetIncrements si di) ds = apfst (dma_setIncrements si di) ds"
| "dma_apply DStart ds = snd (dma_start ds)"
| "dma_apply DStop ds = apfst dma_stop ds"
| "dma_apply DReset ds = apfst dma_reset ds"
| "dma_apply DStep ds = snd (dma_step ds)"
| "dma_apply (DAttachMemory p) ds = apfst (dma_attachMemory p) ds"
| "dma_apply (DAttachMMIO p) ds = apfst (dma_attachMMIO p) ds"
| "dma_apply (DAttachIrq p i) ds = apfst (dma_attachInterruptController p i) ds"
| "dma_apply (DAttachUart p) ds = apfst (dma_attachUART p) ds"
| "dma_apply (DAttachSched p) ds = apfst (dma_attachScheduler p) ds"

lemma dma_trigger_fst [simp]: "fst (snd (dma_trigger d s)) = d"
  by (simp add: dma_trigger_def split: prod.splits)

lemma dma_trigger_dest: "dma_trigger d s = (r, (d', s')) \<Longrightarrow> d' = d"
  using dma_trigger_fst [of d s] by simp

lemma dma_advance_sel [simp]:
  "d_transferredBytes (dma_advance d) = d_transferredBytes d + 1"
  "d_length (dma_advance d) = d_length d" "d_busy (dma_advance d) = d_busy d"
  "d_completed (dma_advance d) = d_completed d" "d_error (dma_advance d) = d_error d"
  "d_srcIncrement (dma_advance d) = d_srcIncrement d" "d_dstIncrement (dma_advance d) = d_dstIncrement d"
  "d_memory (dma_advance d) = d_memory d" "d_mmioBus (dma_advance d) = d_mmioBus d"
  "d_uart (dma_advance d) = d_uart d" "d_scheduler (dma_advance d) = d_scheduler d"
  "d_interruptController (dma_advance d) = d_interruptController d"
  "d_interruptId (dma_advance d) = d_interruptId d"
  "d_currentSrc (dma_advance d) = (if d_srcIncrement d then d_currentSrc d + 1 else d_currentSrc d)"
  "d_currentDst (dma_advance d) = (if d_dstIncrement d then d_currentDst d + 1 else d_currentDst d)"
  by (simp_all add: dma_advance_def Let_def)

lemma dma_finish_fst:
  "fst (snd (dma_finish (d, s))) =
     (if d_transferredBytes d \<ge> d_length d then d\<lparr>d_busy := False, d_completed := True\<rparr> else d)"
proof -
  have "fst (snd (and_then (dma_trigger e s) (\<lambda>_ (d, s). ret () (d, g d s)))) = e" for e g
    by (auto simp: and_then_def split: prod.splits sum.splits dest: dma_trigger_dest)
  then show ?thesis by (simp add: dma_finish_def Let_def)
qed

lemma succ_le_iff: "(x :: u64) < n \<Longrightarrow> x + 1 \<le> n"
  by (metis add.commute inc_le)

lemma dma_step_inv:
  assumes "dma_inv (fst ds)"
  shows "dma_inv (fst (snd (dma_step ds)))"
proof -
  obtain d s where ds: "ds = (d, s)" by (cases ds)
  have adv: "dma_inv (fst (snd (dma_finish (dma_advance d, s'))))" if "d_busy d" for s'
    using assms that succ_le_iff [of "d_transferredBytes d" "d_length d"]
    by (auto simp: ds dma_finish_fst dma_inv_def not_le)
  show ?thesis
    using assms adv
    by (auto simp: ds dma_step_def dma_inv_def split: prod.splits sum.splits option.splits bool.splits)
qed

lemma dma_inv_apply: "dma_inv (fst ds) \<Longrightarrow> dma_inv (fst (dma_apply q ds))"
proof (cases q)
  case DStep
  then show "dma_inv (fst ds) \<Longrightarrow> ?thesis" using dma_step_inv by simp
next
  case DStart
  have "fst (snd (and_then (dma_trigger e s) (\<lambda>_. ret True))) = e" for e and s :: "'a dma_st_scheme"
    by (auto simp: and_then_def split: prod.splits sum.splits dest: dma_trigger_dest)
  then show "dma_inv (fst ds) \<Longrightarrow> ?thesis"
    using DStart by (cases ds) (auto simp: dma_start_def dma_inv_def Let_def word_gt_0)
qed (cases ds, auto simp: dma_inv_def dma_configure_def dma_setIncrements_def dma_stop_def dma_reset_def
    dma_attachMemory_def dma_attachMMIO_def dma_attachInterruptController_def dma_attachUART_def
    dma_attachScheduler_def Let_def)+

interpretation dma_runs: stepper dma_apply "\<lambda>ds. dma_inv (fst ds)"
  by unfold_locales (rule dma_inv_apply)

section \<open>Memory to memory\<close>

definition dma_plain :: "dma \<Rightarrow> address \<Rightarrow> 'z dma_st_scheme \<Rightarrow> bool" where
  "dma_plain d a s \<longleftrightarrow> \<not> dma_isUartData d a s \<and> \<not> dma_isMmioReg d a s \<and> dma_isMemory d a s"

definition dma_move :: "dma \<Rightarrow> 'z dma_st_scheme \<Rightarrow> 'z dma_st_scheme" where
  "dma_move d s = s\<lparr>mem0 := memory_store (d_currentDst d) (memory_load (d_currentSrc d) (mem0 s)) (mem0 s)\<rparr>"

lemma dma_step_plain:
  assumes "d_busy d" and "d_transferredBytes d < d_length d"
    and "dma_plain d (d_currentSrc d) s" and "dma_plain d (d_currentDst d) s"
  shows "dma_step (d, s) = dma_finish (dma_advance d, dma_move d s)"
proof -
  have "dma_fetch d s = ret (Some (memory_load (d_currentSrc d) (mem0 s))) s"
    using assms(3) by (simp add: dma_fetch_def dma_plain_def dma_isMemory_def memory_read_eq)
  moreover have "dma_store d v s = ret True (s\<lparr>mem0 := memory_store (d_currentDst d) v (mem0 s)\<rparr>)" for v
    using assms(4) by (simp add: dma_store_def dma_plain_def dma_isMemory_def memory_write_eq)
  ultimately show ?thesis using assms(1) not_le [THEN iffD2, OF assms(2)] by (simp add: dma_step_def dma_move_def)
qed

lemma dma_plain_frame [simp]:
  "dma_plain (dma_advance d) a s = dma_plain d a s" "dma_plain d a (dma_move d' s) = dma_plain d a s"
  by (simp_all add: dma_plain_def dma_isUartData_def dma_isMmioReg_def dma_isMemory_def dma_move_def
      mmio_contains_def ram.valid_st)

lemma dma_finish_running:
  "d_transferredBytes d < d_length d \<Longrightarrow> dma_finish (d, s) = ret () (d, s)"
  by (simp add: dma_finish_def not_le [symmetric])

lemma ic_trigger_mem [simp]: "mem0 (snd (ic_trigger q s)) = mem0 s"
  by (simp add: ic_trigger_def reg_put_def Let_def)

lemma dma_finish_mem: "mem0 (snd (snd (dma_finish (d, s)))) = mem0 s"
proof -
  have "mem0 (snd (snd (dma_trigger e t))) = mem0 t" for e and t :: "'a dma_st_scheme"
    by (simp add: dma_trigger_def split_beta)
  then have "mem0 s' = mem0 t" if "dma_trigger e t = (r, (e', s'))" for e e' r and t s' :: "'a dma_st_scheme"
    using that by (metis snd_conv)
  then show ?thesis
    by (auto simp: dma_finish_def and_then_def Let_def split: prod.splits sum.splits)
qed

text \<open>The completion interrupt is pended when the last byte has been moved.\<close>

lemma dma_finish_irq:
  assumes "d_length d \<le> d_transferredBytes d" and "d_interruptController d"
    and "ic_validId (d_interruptId d)" and "ic_registered (ic s) ! unat (d_interruptId d)"
  shows "fst (ic_pending (d_interruptId d) (snd (snd (dma_finish (d, s))))) = Inr True"
    and "fst (dma_finish (d, s)) = Inr ()"
proof -
  let ?d = "d\<lparr>d_busy := False, d_completed := True\<rparr>"
  have trig: "dma_trigger ?d s = ret () (?d, snd (ic_trigger (d_interruptId d) s))"
    using assms(2-4) by (simp add: dma_trigger_def ic_trigger_def Let_def)
  have "fst (ic_pending (d_interruptId d) (snd (ic_trigger (d_interruptId d) s))) = Inr True"
    using assms(3,4) by (simp add: ic_trigger_def ic_pending_def Let_def ic_validId_def MAX_INTERRUPTS_def flag_simps)
  then show "fst (ic_pending (d_interruptId d) (snd (snd (dma_finish (d, s))))) = Inr True"
    using assms(1,3) by (simp add: dma_finish_def trig Let_def ic_pending_def)
  show "fst (dma_finish (d, s)) = Inr ()" using assms(1) by (simp add: dma_finish_def trig Let_def)
qed

lemma dma_copy_run:
  assumes "d_busy d" and "d_srcIncrement d" and "d_dstIncrement d"
    and "unat (d_transferredBytes d) + Suc n = unat (d_length d)"
    and "\<And>i. i \<le> n \<Longrightarrow> dma_plain d (d_currentSrc d + of_nat i) s \<and> dma_plain d (d_currentDst d + of_nat i) s"
  shows "\<exists>e t. dma_steps (Suc n) (d, s) = snd (dma_finish (e, t)) \<and>
    mem0 t = copy_bytes memory_load memory_store (Suc n) (d_currentSrc d) (d_currentDst d) (mem0 s) \<and>
    ic t = ic s \<and> d_transferredBytes e = d_length d \<and> d_length e = d_length d \<and>
    d_error e = d_error d \<and> d_interruptController e = d_interruptController d \<and>
    d_interruptId e = d_interruptId d"
  using assms
proof (induction n arbitrary: d s)
  case 0
  note nb = unat_u64_bound [of "d_length d"]
  have lt: "d_transferredBytes d < d_length d" using 0 by (simp add: word_less_nat_alt)
  have "unat (d_transferredBytes d + 1) = unat (d_length d)"
    using 0 nb by (simp add: unat_word_ariths)
  then have "d_transferredBytes d + 1 = d_length d" by (simp only: unat_cancel)
  then show ?case
    using dma_step_plain [OF 0(1) lt, of s] 0(5) [of 0]
    by (intro exI [of _ "dma_advance d"] exI [of _ "dma_move d s"]) (simp add: dma_move_def)
next
  case (Suc n)
  note nb = unat_u64_bound [of "d_length d"]
  have lt: "d_transferredBytes d < d_length d" using Suc.prems(4) by (simp add: word_less_nat_alt)
  have next1: "unat (d_transferredBytes d + 1) = Suc (unat (d_transferredBytes d))"
    using Suc.prems(4) nb by (simp add: unat_word_ariths)
  then have "d_transferredBytes (dma_advance d) < d_length (dma_advance d)"
    using Suc.prems(4) by (simp add: word_less_nat_alt)
  then have step: "dma_step (d, s) = ret () (dma_advance d, dma_move d s)"
    using dma_step_plain [OF Suc.prems(1) lt, of s] Suc.prems(5) [of 0]
    by (simp add: dma_finish_running)
  have "\<exists>e t. dma_steps (Suc n) (dma_advance d, dma_move d s) = snd (dma_finish (e, t)) \<and>
    mem0 t = copy_bytes memory_load memory_store (Suc n) (d_currentSrc (dma_advance d))
      (d_currentDst (dma_advance d)) (mem0 (dma_move d s)) \<and>
    ic t = ic (dma_move d s) \<and> d_transferredBytes e = d_length (dma_advance d) \<and>
    d_length e = d_length (dma_advance d) \<and>
    d_error e = d_error (dma_advance d) \<and> d_interruptController e = d_interruptController (dma_advance d) \<and>
    d_interruptId e = d_interruptId (dma_advance d)"
  proof (rule Suc.IH)
    fix i assume "i \<le> n"
    with Suc.prems(5) [of "Suc i"] Suc.prems(2,3)
    show "dma_plain (dma_advance d) (d_currentSrc (dma_advance d) + of_nat i) (dma_move d s) \<and>
      dma_plain (dma_advance d) (d_currentDst (dma_advance d) + of_nat i) (dma_move d s)"
      by (simp add: add.assoc)
  qed (use Suc.prems next1 in simp_all)
  with step Suc.prems(2,3) show ?case by (simp add: dma_move_def)
qed

section \<open>Progress\<close>

text \<open>A step of a running transfer without a UART moves a byte, or stops; it never throws before the last byte.\<close>

lemma dma_fetch_no_uart:
  assumes "\<not> d_uart d"
  shows "\<exists>r. dma_fetch d s = ret r s"
  using assms
  by (auto simp: dma_fetch_def dma_isUartData_def dma_isMmioReg_def dma_isMemory_def mmio_read_def
      mmio_contains_def memory_read_eq split: option.splits)

lemma dma_store_no_uart:
  assumes "\<not> d_uart d"
  shows "\<exists>b s'. dma_store d v s = ret b s'"
  using assms
  by (auto simp: dma_store_def dma_isUartData_def dma_isMmioReg_def dma_isMemory_def mmio_write_def
      mmio_contains_def memory_write_eq split: option.splits)

lemma dma_step_progress:
  assumes "dma_inv d" and "d_busy d" and "\<not> d_uart d" and "dma_step (d, s) = (r, (d', s'))"
  shows "d_length d' = d_length d \<and> \<not> d_uart d' \<and> dma_inv d' \<and>
    (d_busy d' \<and> unat (d_transferredBytes d') = Suc (unat (d_transferredBytes d)) \<or>
     \<not> d_busy d' \<and> (d_error d' \<or> d_completed d'))"
proof -
  have lt: "d_transferredBytes d < d_length d" using assms(1,2) by (simp add: dma_inv_def)
  have inv: "dma_inv d'" using dma_step_inv [of "(d, s)"] assms(1,4) by simp
  obtain f where f: "dma_fetch d s = ret f s" using dma_fetch_no_uart [OF assms(3)] by blast
  have "d_transferredBytes d \<noteq> - 1" using lt by (metis word_order.extremum_strict)
  then have next1: "unat (d_transferredBytes d + 1) = Suc (unat (d_transferredBytes d))"
    by (rule unat_plus_one)
  show ?thesis
  proof (cases f)
    case None
    with f assms not_le [THEN iffD2, OF lt] inv show ?thesis by (auto simp: dma_step_def)
  next
    case (Some v)
    obtain b t where b: "dma_store d v s = ret b t" using dma_store_no_uart [OF assms(3)] by blast
    have step: "dma_step (d, s) = (if b then dma_finish (dma_advance d, t)
        else ret () (d\<lparr>d_error := True, d_busy := False\<rparr>, t))"
      using f b Some assms(2) not_le [THEN iffD2, OF lt] by (cases b) (simp_all add: dma_step_def)
    show ?thesis
    proof (cases b)
      case True
      then have "dma_finish (dma_advance d, t) = (r, (d', s'))" using step assms(4) by simp
      then have "d' = fst (snd (dma_finish (dma_advance d, t)))" by simp
      then show ?thesis using inv assms(2,3) next1 by (auto simp: dma_finish_fst)
    next
      case False
      then show ?thesis using step assms(3,4) inv by auto
    qed
  qed
qed

lemma dma_steps_idle: "\<not> d_busy d \<Longrightarrow> dma_steps k (d, s) = (d, s)"
  by (induction k) (simp_all add: dma_step_def)

lemma dma_run_ends:
  assumes "dma_inv d" and "d_busy d" and "\<not> d_uart d"
    and "unat (d_length d) \<le> unat (d_transferredBytes d) + k"
  shows "\<not> d_busy (fst (dma_steps k (d, s))) \<and>
    (d_error (fst (dma_steps k (d, s))) \<or> d_completed (fst (dma_steps k (d, s))))"
  using assms
proof (induction k arbitrary: d s)
  case 0
  then show ?case by (simp add: dma_inv_def word_less_nat_alt)
next
  case (Suc k)
  obtain r d' s' where step: "dma_step (d, s) = (r, (d', s'))" by (cases "dma_step (d, s)") auto
  note prog = dma_step_progress [OF Suc.prems(1-3) step]
  show ?case
  proof (cases "d_busy d'")
    case True
    with prog Suc.prems(4) have "unat (d_length d') \<le> unat (d_transferredBytes d') + k" by auto
    with True prog Suc.IH [of d' s'] step show ?thesis by auto
  next
    case False
    with prog step dma_steps_idle [of d' k s'] show ?thesis by auto
  qed
qed

section \<open>A concrete transfer\<close>

text \<open>
  Eight bytes of memory holding 1 to 8, one register on the bus at \<^verbatim>\<open>0x40000000\<close>, all interrupt
  lines registered, and a UART with registers 40 to 43; a controller wired to memory, the bus and
  interrupt line 5.
\<close>

definition demo_dma_st :: dma_st where
  "demo_dma_st =
     \<lparr>reg_objs = \<lambda>_. register_init 0 0, next_ref = 50, m_registers = [(0x40000000, 10)],
      ic = blank_ic\<lparr>ic_pendingRegister := 1, ic_registered := replicate MAX_INTERRUPTS True\<rparr>,
      clock = \<lparr>m_frequencyHz = 1000, m_cycles = 0\<rparr>, esched = sched_init, timers = \<lambda>_. blank_timer,
      mem0 = \<lparr>m_storage = [1, 2, 3, 4, 5, 6, 7, 8]\<rparr>,
      uart0 = \<lparr>u_base = 0x40001000, u_dataRegister = 40, u_statusRegister = 41, u_controlRegister = 42,
               u_baudRegister = 43, u_txFifo = [], u_rxFifo = []\<rparr>\<rparr>"

definition demo_dma :: dma where
  "demo_dma = dma_attachInterruptController True 5 (dma_init True True False False)"

lemma demo_dma_ok:
  "dma_inv demo_dma" "\<not> d_busy demo_dma" "\<not> d_userSetSrcIncrement demo_dma" "\<not> d_userSetDstIncrement demo_dma"
  "d_memory demo_dma" "\<not> d_uart demo_dma" "d_interruptController demo_dma" "d_interruptId demo_dma = 5"
  "m_storage (mem0 demo_dma_st) = [1, 2, 3, 4, 5, 6, 7, 8]" "ic_registered (ic demo_dma_st) ! 5"
  "\<forall>a \<in> set (map of_nat [0..<8]). \<not> mmio_contains a demo_dma_st"
  by code_simp+

section \<open>Properties\<close>

text \<open>
  C10. A memory-to-memory transfer moves the block. A controller that is idle, attached to memory and
  to an interrupt line, configured and started on a source and a destination range of memory that the
  bus and the UART do not claim, has after exactly as many steps as bytes copied the source to the
  destination byte by byte, is idle and complete without error, and has pended its interrupt; no
  other cell changed. When no write hits a source cell that is read later, each destination cell
  holds what its source cell held at the start.
\<close>

theorem dma_memory_transfer:
  assumes "\<not> d_busy d" and "\<not> d_userSetSrcIncrement d" and "\<not> d_userSetDstIncrement d"
    and "unat len = Suc n"
    and "\<And>i. i \<le> n \<Longrightarrow> dma_plain d (src + of_nat i) s \<and> dma_plain d (dst + of_nat i) s"
    and "d_interruptController d" and "ic_validId (d_interruptId d)"
    and "ic_registered (ic s) ! unat (d_interruptId d)"
  shows "let (ok, d1) = dma_configure src dst len d s;
      (r, ds) = dma_start (d1, s);
      (d', s') = dma_steps (Suc n) ds
    in ok \<and> r = Inr True \<and> \<not> d_busy d' \<and> d_completed d' \<and> \<not> d_error d' \<and> d_transferredBytes d' = len \<and>
      mem0 s' = copy_bytes memory_load memory_store (Suc n) src dst (mem0 s) \<and>
      fst (ic_pending (d_interruptId d) s') = Inr True \<and>
      (\<forall>a. (\<forall>i\<le>n. a \<noteq> dst + of_nat i) \<longrightarrow> memory_load a (mem0 s') = memory_load a (mem0 s)) \<and>
      ((\<forall>i j. i < j \<and> j \<le> n \<longrightarrow> dst + of_nat i \<noteq> src + of_nat j) \<longrightarrow>
        (\<forall>k\<le>n. memory_load (dst + of_nat k) (mem0 s') = memory_load (src + of_nat k) (mem0 s)))"
proof -
  let ?d = "d\<lparr>d_sourceAddress := src, d_destinationAddress := dst, d_length := len, d_currentSrc := src,
    d_currentDst := dst, d_transferredBytes := 0, d_busy := True, d_completed := False, d_error := False,
    d_srcIncrement := True, d_dstIncrement := True\<rparr>"
  have p0: "dma_plain d src s" "dma_plain d dst s" using assms(5) [of 0] by simp_all
  have conf: "dma_configure src dst len d s = (True, ?d\<lparr>d_busy := False\<rparr>)"
    using assms(1-3) p0
    by (simp add: dma_configure_def dma_plain_def dma_isUartData_def dma_isMmioReg_def Let_def)
  have "d_memory d" using p0 by (simp add: dma_plain_def dma_isMemory_def)
  then have start: "dma_start (?d\<lparr>d_busy := False\<rparr>, s) = ret True (?d, s)"
    using p0 assms(4) by (auto simp: dma_start_def dma_plain_def dma_isMemory_def Let_def)
  have plain: "dma_plain ?d (d_currentSrc ?d + of_nat i) s \<and> dma_plain ?d (d_currentDst ?d + of_nat i) s"
    if "i \<le> n" for i
    using assms(5) [OF that] by (simp add: dma_plain_def dma_isUartData_def dma_isMmioReg_def dma_isMemory_def)
  obtain e t where run: "dma_steps (Suc n) (?d, s) = snd (dma_finish (e, t))"
    and mem: "mem0 t = copy_bytes memory_load memory_store (Suc n) src dst (mem0 s)"
    and ict: "ic t = ic s" and e: "d_transferredBytes e = len" "d_length e = len" "\<not> d_error e"
      "d_interruptController e = d_interruptController d" "d_interruptId e = d_interruptId d"
    using dma_copy_run [of ?d n s] plain assms(4) by auto
  have irq: "fst (ic_pending (d_interruptId d) (snd (snd (dma_finish (e, t))))) = Inr True"
    using dma_finish_irq(1) [of e t] e assms(6-8) ict by simp
  have bound: "Suc n \<le> 2 ^ 64" using unat_u64_bound [of len] assms(4) by simp
  have valid: "memory_isValidAddress (dst + of_nat i) (mem0 s)" if "i < Suc n" for i
    using assms(5) [of i] that by (simp add: dma_plain_def dma_isMemory_def)
  have outside: "memory_load a (copy_bytes memory_load memory_store (Suc n) src dst (mem0 s)) = memory_load a (mem0 s)"
    if "\<forall>i\<le>n. a \<noteq> dst + of_nat i" for a
    using that by (intro ram.copy_outside) (simp add: less_Suc_eq_le eq_commute)
  have moves: "memory_load (dst + of_nat k) (copy_bytes memory_load memory_store (Suc n) src dst (mem0 s)) =
      memory_load (src + of_nat k) (mem0 s)"
    if "\<forall>i j. i < j \<and> j \<le> n \<longrightarrow> dst + of_nat i \<noteq> src + of_nat j" and "k \<le> n" for k
    using that by (intro ram.copy_moves [OF bound valid]) simp_all
  have "fst (snd (dma_finish (e, t))) = e\<lparr>d_busy := False, d_completed := True\<rparr>"
    using e by (simp add: dma_finish_fst)
  then show ?thesis
    using conf start run mem e irq outside moves dma_finish_mem [of e t] by (simp add: Let_def split_beta)
qed

lemma demo_dma_plain: "a < 8 \<Longrightarrow> dma_plain demo_dma a demo_dma_st"
  using demo_dma_ok
  by (auto simp: dma_plain_def dma_isUartData_def dma_isMmioReg_def dma_isMemory_def
      memory_isValidAddress_def mmio_contains_def demo_dma_st_def word_less_nat_alt)

theorem dma_memory_transfer_witness:
  "let (_, d1) = dma_configure 0 4 3 demo_dma demo_dma_st;
      (_, ds) = dma_start (d1, demo_dma_st)
   in mem0 (snd (dma_steps 3 ds)) = copy_bytes memory_load memory_store 3 0 4 (mem0 demo_dma_st) \<and>
      fst (ic_pending 5 (snd (dma_steps 3 ds))) = Inr True"
proof -
  have plain: "dma_plain demo_dma (0 + of_nat i) demo_dma_st \<and> dma_plain demo_dma (4 + of_nat i) demo_dma_st"
    if "i \<le> 2" for i
  proof -
    have "i = 0 \<or> i = 1 \<or> i = 2" using that by auto
    then show ?thesis by (auto intro!: demo_dma_plain)
  qed
  have len: "unat (3 :: u64) = Suc 2" and irq: "ic_validId (d_interruptId demo_dma)"
    "ic_registered (ic demo_dma_st) ! unat (d_interruptId demo_dma)"
    using demo_dma_ok by (simp_all add: ic_validId_def MAX_INTERRUPTS_def)
  from dma_memory_transfer [OF demo_dma_ok(2-4) len plain demo_dma_ok(7) irq] demo_dma_ok(8)
  show ?thesis by (simp add: Let_def split_beta numeral_3_eq_3)
qed

text \<open>
  Through every sequence of operations and exceptions, a controller never moves more bytes than
  configured, and a busy one has bytes left to move and is not reported complete.
\<close>

lemma dma_counts_bounded:
  assumes "dma_inv (fst ds)"
  shows "dma_inv (fst (fold dma_apply ops ds))"
  by (rule dma_runs.run_keeps [OF assms])

text \<open>
  C32. A transfer without a UART ends. From any running state it is over after at most as many steps
  as bytes are left, and then either an error or the completion is recorded; a later step changes
  nothing.
\<close>

theorem dma_transfer_ends:
  assumes "dma_inv d" and "d_busy d" and "\<not> d_uart d"
    and "unat (d_length d) \<le> unat (d_transferredBytes d) + k"
  shows "\<not> d_busy (fst (dma_steps k (d, s))) \<and>
    (d_error (fst (dma_steps k (d, s))) \<or> d_completed (fst (dma_steps k (d, s)))) \<and>
    dma_step (dma_steps k (d, s)) = ret () (dma_steps k (d, s))"
  using dma_run_ends [OF assms, of s] by (cases "dma_steps k (d, s)") (simp add: dma_step_def)

theorem dma_transfer_ends_witness:
  "\<not> d_busy (fst (dma_steps 9 (demo_dma\<lparr>d_busy := True, d_length := 9\<rparr>, demo_dma_st)))"
  by (rule dma_transfer_ends [THEN conjunct1])
    (simp_all add: demo_dma_def dma_init_def dma_attachInterruptController_def dma_inv_def)

text \<open>
  C40. A starved UART source is not an error of the transfer but an exception out of the step: while
  the UART is off or its receive queue empty, every step of a running transfer throws, and leaves the
  controller running, with no error recorded and nothing changed.
\<close>

theorem dma_uart_starved_throws:
  assumes "d_busy d" and "d_transferredBytes d < d_length d"
    and "dma_isUartData d (d_currentSrc d) s"
    and "\<not> uart_enabled (uart0 s) s \<or> u_rxFifo (uart0 s) = []"
  shows "dma_step (d, s) =
    throw (if uart_enabled (uart0 s) s then UnderflowError else RuntimeError) (d, s)"
  using assms not_le [THEN iffD2, OF assms(2)]
  by (auto simp: dma_step_def dma_fetch_def via_uart_def uart_readByte_def)

theorem dma_uart_starved_throws_witness:
  "fst (dma_step (demo_dma\<lparr>d_busy := True, d_length := 1, d_uart := True, d_currentSrc := 0x40001000\<rparr>, demo_dma_st)) =
     Inl RuntimeError"
  using dma_uart_starved_throws
    [of "demo_dma\<lparr>d_busy := True, d_length := 1, d_uart := True, d_currentSrc := 0x40001000\<rparr>" demo_dma_st]
  by (simp add: demo_dma_def dma_init_def dma_attachInterruptController_def dma_isUartData_def
      demo_dma_st_def uart_enabled_def reg_get_def register_init_def)

end
