(* ===== verification/Adc_Driver.thy ===== *)
theory Adc_Driver
  imports Complex_Main Mmio
begin

text \<open>
  The analog-to-digital converter of \<^verbatim>\<open>drivers/adc/adc_controller.hpp\<close>. A finite \<^verbatim>\<open>double\<close> is
  the real number it denotes, and every floating-point operation rounds its exact result with the
  argument \<open>rnd\<close>, the rounding of the machine; what the proofs use of it is stated where it is
  used. NaN and infinities are not modelled.
\<close>

section \<open>State\<close>

record adc =
  a_base :: address
  a_resolutionBits :: u8
  a_referenceVoltage :: real
  a_channels :: "real list"
  a_controlRegister :: nat
  a_statusRegister :: nat
  a_resRegister :: nat
  a_dataRegister :: nat
  a_lastSample :: u32

type_synonym 's on_adc = "adc \<times> 's"

definition adc_enabled :: "adc \<Rightarrow> 'z mmio_st_scheme \<Rightarrow> bool" where
  "adc_enabled a s = test_flag (reg_get (a_controlRegister a) s) 0"

definition adc_updateStatusRegister :: "adc \<Rightarrow> 'z mmio_st_scheme \<Rightarrow> 'z mmio_st_scheme" where
  "adc_updateStatusRegister a s =
     (let st = 0;
          st = (if adc_enabled a s then set_flag (set_flag st 0) 1 else st)
      in reg_put (a_statusRegister a) st s)"

definition adc_resolution_ok :: "u8 \<Rightarrow> bool" where
  "adc_resolution_ok bits \<longleftrightarrow> \<not> (bits \<noteq> 8 \<and> bits \<noteq> 10 \<and> bits \<noteq> 12)"

definition adc_init ::
  "address \<Rightarrow> u8 \<Rightarrow> real \<Rightarrow> nat \<Rightarrow> 'z mmio_st_scheme \<Rightarrow> (adc, 'z mmio_st_scheme) outcome" where
  "adc_init base bits vref channelCount s =
     (let (co, s) = make_register (base + 0x00) 0 s;
          (st, s) = make_register (base + 0x04) 0 s;
          (re, s) = make_register (base + 0x08) (ucast bits) s;
          (da, s) = make_register (base + 0x0C) 0 s
      in if channelCount = 0 then throw InvalidArgument s
         else if \<not> adc_resolution_ok bits then throw InvalidArgument s
         else if vref \<le> 0 then throw InvalidArgument s
         else let (ok, s) = register_chain [co, st, re, da] s
         in if \<not> ok then throw RuntimeError s
            else let a = \<lparr>a_base = base, a_resolutionBits = bits, a_referenceVoltage = vref,
                         a_channels = replicate channelCount 0, a_controlRegister = co,
                         a_statusRegister = st, a_resRegister = re, a_dataRegister = da,
                         a_lastSample = 0\<rparr>
                 in ret a (adc_updateStatusRegister a s))"

text \<open>\<^verbatim>\<open>controlAddress\<close>, \<^verbatim>\<open>statusAddress\<close>, \<^verbatim>\<open>resAddress\<close> and \<^verbatim>\<open>dataAddress\<close>.\<close>

definition adc_addresses :: "adc \<Rightarrow> address list" where
  "adc_addresses a = [a_base a + 0x00, a_base a + 0x04, a_base a + 0x08, a_base a + 0x0C]"

definition adc_destroy :: "adc \<Rightarrow> 'z mmio_st_scheme \<Rightarrow> 'z mmio_st_scheme" where
  "adc_destroy a s = unregister_all (adc_addresses a) s"

section \<open>Operations\<close>

definition adc_enable :: "'z mmio_st_scheme on_adc \<Rightarrow> 'z mmio_st_scheme on_adc" where
  "adc_enable = (\<lambda>(a, s).
     let r = a_controlRegister a; s = reg_put r (set_flag (reg_get r s) 0) s
     in (a, adc_updateStatusRegister a s))"

definition adc_disable :: "'z mmio_st_scheme on_adc \<Rightarrow> 'z mmio_st_scheme on_adc" where
  "adc_disable = (\<lambda>(a, s).
     let r = a_controlRegister a; s = reg_put r (clear_flag (reg_get r s) 0) s
     in (a, adc_updateStatusRegister a s))"

definition adc_setResolution ::
  "u8 \<Rightarrow> 'z mmio_st_scheme on_adc \<Rightarrow> (unit, 'z mmio_st_scheme on_adc) outcome" where
  "adc_setResolution bits = (\<lambda>(a, s).
     if \<not> adc_resolution_ok bits then throw InvalidArgument (a, s)
     else ret () (a\<lparr>a_resolutionBits := bits\<rparr>, reg_put (a_resRegister a) (ucast bits) s))"

definition adc_setReferenceVoltage ::
  "real \<Rightarrow> 'z mmio_st_scheme on_adc \<Rightarrow> (unit, 'z mmio_st_scheme on_adc) outcome" where
  "adc_setReferenceVoltage v = (\<lambda>(a, s).
     if v \<le> 0 then throw InvalidArgument (a, s) else ret () (a\<lparr>a_referenceVoltage := v\<rparr>, s))"

definition adc_setAnalogInput ::
  "nat \<Rightarrow> real \<Rightarrow> 'z mmio_st_scheme on_adc \<Rightarrow> (unit, 'z mmio_st_scheme on_adc) outcome" where
  "adc_setAnalogInput ch v = (\<lambda>(a, s).
     if ch \<ge> length (a_channels a) then throw OutOfRange (a, s)
     else if v < 0 then throw InvalidArgument (a, s)
     else ret () (a\<lparr>a_channels := (a_channels a)[ch := v]\<rparr>, s))"

definition adc_analogInput ::
  "nat \<Rightarrow> 'z mmio_st_scheme on_adc \<Rightarrow> (real, 'z mmio_st_scheme on_adc) outcome" where
  "adc_analogInput ch = (\<lambda>(a, s).
     if ch \<ge> length (a_channels a) then throw OutOfRange (a, s) else ret (a_channels a ! ch) (a, s))"

text \<open>
  The conversion. \<^verbatim>\<open>std::round\<close> of a number that is not negative is \<^const>\<open>round\<close>, and the cast
  to 32 bits of a number in range is the number.
\<close>

definition adc_convert :: "(real \<Rightarrow> real) \<Rightarrow> real \<Rightarrow> real \<Rightarrow> u8 \<Rightarrow> u32" where
  "adc_convert rnd vin vref bits =
     (let maxDigital = push_bit (unat bits) 1 - 1
      in if vin \<le> 0 then 0
         else if vin \<ge> vref then maxDigital
         else let ratio = rnd (vin / vref);
                  raw = of_int (round (rnd (ratio * real (unat maxDigital))))
              in if raw > maxDigital then maxDigital else raw)"

definition adc_sample ::
  "(real \<Rightarrow> real) \<Rightarrow> nat \<Rightarrow> 'z mmio_st_scheme on_adc \<Rightarrow> (u32, 'z mmio_st_scheme on_adc) outcome" where
  "adc_sample rnd ch = (\<lambda>(a, s).
     if \<not> adc_enabled a s then throw RuntimeError (a, s)
     else if ch \<ge> length (a_channels a) then throw OutOfRange (a, s)
     else let raw = adc_convert rnd (a_channels a ! ch) (a_referenceVoltage a) (a_resolutionBits a);
              a = a\<lparr>a_lastSample := raw\<rparr>;
              s = reg_put (a_dataRegister a) raw s
          in ret raw (a, adc_updateStatusRegister a s))"

definition adc_channelCount :: "adc \<Rightarrow> nat" where
  "adc_channelCount a = length (a_channels a)"

text \<open>The \<^verbatim>\<open>double\<close> that the literal 3.3 denotes.\<close>

definition default_reference :: real where
  "default_reference = 3715469692580659 / 2 ^ 50"

definition adc_reset :: "'z mmio_st_scheme on_adc \<Rightarrow> 'z mmio_st_scheme on_adc" where
  "adc_reset as =
     (let (a, s) = adc_disable as;
          a = a\<lparr>a_channels := replicate (length (a_channels a)) 0\<rparr>;
          a = a\<lparr>a_resolutionBits := 12\<rparr>;
          a = a\<lparr>a_referenceVoltage := default_reference\<rparr>;
          a = a\<lparr>a_lastSample := 0\<rparr>;
          s = reg_rst (a_controlRegister a) s;
          s = reg_put (a_resRegister a) 12 s;
          s = reg_rst (a_dataRegister a) s
      in (a, adc_updateStatusRegister a s))"

section \<open>The conversion\<close>

text \<open>
  What is used of the machine's rounding: it is monotone and leaves the small integers alone, as
  IEEE 754 rounding to nearest does.
\<close>

definition rounds_well :: "(real \<Rightarrow> real) \<Rightarrow> bool" where
  "rounds_well rnd \<longleftrightarrow> mono rnd \<and> (\<forall>n::nat. n \<le> 4095 \<longrightarrow> rnd (real n) = real n)"

definition adc_top :: "u8 \<Rightarrow> nat" where
  "adc_top bits = 2 ^ unat bits - 1"

lemma adc_bits_cases: "adc_resolution_ok bits \<Longrightarrow> bits = 8 \<or> bits = 10 \<or> bits = 12"
  by (auto simp: adc_resolution_ok_def)

lemma adc_top_cases:
  assumes "adc_resolution_ok bits"
  shows "unat (push_bit (unat bits) 1 - 1 :: u32) = adc_top bits" and "adc_top bits \<le> 4095" and "0 < adc_top bits"
  using adc_bits_cases [OF assms] by (auto simp: adc_top_def)

text \<open>The code before the clamp, as a number.\<close>

definition adc_code :: "(real \<Rightarrow> real) \<Rightarrow> real \<Rightarrow> real \<Rightarrow> nat \<Rightarrow> int" where
  "adc_code rnd vin vref mx = round (rnd (rnd (vin / vref) * real mx))"

lemma rounds_wellD:
  assumes "rounds_well rnd"
  shows "x \<le> y \<Longrightarrow> rnd x \<le> rnd y" and "n \<le> 4095 \<Longrightarrow> rnd (real n) = real n" and "rnd 0 = 0" and "rnd 1 = 1"
proof -
  show n: "rnd (real n) = real n" if "n \<le> 4095" for n using assms that by (simp add: rounds_well_def)
  show "x \<le> y \<Longrightarrow> rnd x \<le> rnd y" using assms by (simp add: rounds_well_def mono_def)
  show "rnd 0 = 0" using n [of 0] by simp
  show "rnd 1 = 1" using n [of 1] by simp
qed

lemma adc_code_range:
  assumes r: "rounds_well rnd" and mx: "mx \<le> 4095" and "0 < vin" and "vin < vref"
  shows "0 \<le> adc_code rnd vin vref mx" and "adc_code rnd vin vref mx \<le> int mx"
proof -
  have "0 \<le> vin / vref" "vin / vref \<le> 1" using assms(3,4) by simp_all
  then have q: "0 \<le> rnd (vin / vref)" "rnd (vin / vref) \<le> 1"
    using rounds_wellD(1) [OF r, of 0 "vin / vref"] rounds_wellD(1) [OF r, of "vin / vref" 1]
      rounds_wellD(3,4) [OF r] by simp_all
  let ?p = "rnd (vin / vref) * real mx"
  have p: "0 \<le> ?p" "?p \<le> real mx" using q by (simp_all add: mult_left_le_one_le)
  have "0 \<le> rnd ?p" "rnd ?p \<le> real mx"
    using rounds_wellD(1) [OF r p(1)] rounds_wellD(1) [OF r p(2)] rounds_wellD(2,3) [OF r] mx by simp_all
  from round_mono [OF this(1)] round_mono [OF this(2)]
  show "0 \<le> adc_code rnd vin vref mx" "adc_code rnd vin vref mx \<le> int mx"
    by (simp_all add: adc_code_def)
qed

lemma adc_code_mono:
  assumes r: "rounds_well rnd" and "v \<le> w" and "0 < vref"
  shows "adc_code rnd v vref mx \<le> adc_code rnd w vref mx"
proof -
  have "rnd (v / vref) \<le> rnd (w / vref)"
    by (rule rounds_wellD(1) [OF r]) (use assms(2,3) in \<open>simp add: divide_right_mono\<close>)
  then have "rnd (v / vref) * real mx \<le> rnd (w / vref) * real mx" by (simp add: mult_right_mono)
  then show ?thesis unfolding adc_code_def by (intro round_mono rounds_wellD(1) [OF r])
qed

text \<open>
  What the accuracy rests on, as IEEE 754 promises it of round-to-nearest on doubles: below the overflow, the result of an
  operation is off by at most half a unit in the last of its 53 digits, or by half of the smallest subnormal number.
\<close>

definition half_subnormal :: real where
  "half_subnormal = 1 / 2 ^ 1075"

definition rounds_double :: "(real \<Rightarrow> real) \<Rightarrow> bool" where
  "rounds_double rnd \<longleftrightarrow> rounds_well rnd \<and> (\<forall>x. \<bar>x\<bar> \<le> 2 ^ 1000 \<longrightarrow> \<bar>rnd x - x\<bar> \<le> \<bar>x\<bar> / 2 ^ 53 + half_subnormal)"

lemma rounds_doubleD:
  assumes "rounds_double rnd" and "0 \<le> x" and "x \<le> b" and "b \<le> 4095"
  shows "\<bar>rnd x - x\<bar> \<le> b / 2 ^ 53 + half_subnormal"
proof -
  have "\<bar>x\<bar> \<le> (2 :: real) ^ 12" using assms(2-4) by simp
  also have "(2 :: real) ^ 12 \<le> 2 ^ 1000" by (rule power_increasing) simp_all
  finally have "\<bar>rnd x - x\<bar> \<le> \<bar>x\<bar> / 2 ^ 53 + half_subnormal" using assms(1) by (simp only: rounds_double_def)
  also have "\<dots> \<le> b / 2 ^ 53 + half_subnormal" using assms(2,3) by (intro add_right_mono divide_right_mono) simp_all
  finally show ?thesis .
qed

text \<open>The code is the exact proportion up to the rounding to an integer and what the two operations lose.\<close>

lemma adc_code_near:
  assumes rnd: "rounds_double rnd" and mx: "mx \<le> 4095" and "0 < vin" and "vin < vref"
  shows "\<bar>real_of_int (adc_code rnd vin vref mx) - vin * real mx / vref\<bar> \<le> 1/2 + 1 / 10 ^ 12"
proof -
  have r: "rounds_well rnd" using rnd by (simp add: rounds_double_def)
  let ?x = "vin / vref" and ?m = "real mx" and ?q = "rnd (vin / vref)" and ?t = half_subnormal
  have m: "?m \<le> 4095" "0 \<le> ?m" using mx by simp_all
  have x: "0 \<le> ?x" "?x \<le> 1" using assms(3,4) by simp_all
  have q: "0 \<le> ?q" "?q \<le> 1"
    using rounds_wellD(1) [OF r x(1)] rounds_wellD(1) [OF r x(2)] rounds_wellD(3,4) [OF r] by simp_all
  have q_near: "\<bar>?q - ?x\<bar> \<le> 1 / 2 ^ 53 + ?t" using rounds_doubleD [OF rnd x] by simp
  have p: "0 \<le> ?q * ?m" "?q * ?m \<le> 4095" using q m mult_mono [of ?q 1 ?m 4095] by simp_all
  have p_near: "\<bar>rnd (?q * ?m) - ?q * ?m\<bar> \<le> 4095 / 2 ^ 53 + ?t" using rounds_doubleD [OF rnd p] by simp
  have "\<bar>?q * ?m - ?x * ?m\<bar> = \<bar>?q - ?x\<bar> * ?m" using m(2) by (simp only: left_diff_distrib [symmetric] abs_mult abs_of_nonneg)
  also have "\<dots> \<le> (1 / 2 ^ 53 + ?t) * 4095" using q_near m by (intro mult_mono) simp_all
  finally have s_near: "\<bar>?q * ?m - ?x * ?m\<bar> \<le> (1 / 2 ^ 53 + ?t) * 4095" .
  have "?t \<le> 1 / 2 ^ 80" unfolding half_subnormal_def by (intro divide_left_mono power_increasing) simp_all
  then have "4095 / 2 ^ 53 + ?t + (1 / 2 ^ 53 + ?t) * 4095 \<le> 1 / 10 ^ 12" by simp
  then have "\<bar>rnd (?q * ?m) - ?x * ?m\<bar> \<le> 1 / 10 ^ 12" using p_near s_near by linarith
  moreover have "\<bar>of_int (round (rnd (?q * ?m))) - rnd (?q * ?m)\<bar> \<le> 1/2" by (rule of_int_round_abs_le)
  moreover have "?x * ?m = vin * ?m / vref" by simp
  ultimately show ?thesis unfolding adc_code_def by linarith
qed

text \<open>The conversion as a number: the clamp never acts.\<close>

lemma adc_convert_nat:
  assumes r: "rounds_well rnd" and ok: "adc_resolution_ok bits"
  shows "int (unat (adc_convert rnd vin vref bits)) =
    (if vin \<le> 0 then 0 else if vref \<le> vin then int (adc_top bits) else adc_code rnd vin vref (adc_top bits))"
proof (cases "vin \<le> 0 \<or> vref \<le> vin")
  case True
  then show ?thesis
    using arg_cong [OF adc_top_cases(1) [OF ok], of int] by (auto simp: adc_convert_def Let_def)
next
  case False
  let ?k = "adc_code rnd vin vref (adc_top bits)"
  note mx = adc_top_cases [OF ok]
  have k: "0 \<le> ?k" "?k \<le> int (adc_top bits)"
    using adc_code_range [OF r mx(2), of vin vref] False by simp_all
  then have small: "nat ?k < 2 ^ 32" using mx(2) by simp
  then have u: "unat (of_int ?k :: u32) = nat ?k"
    using k(1) unat_of_nat_u32 [OF small] by (metis of_nat_nat)
  then have "\<not> (of_int ?k :: u32) > push_bit (unat bits) 1 - 1"
    using mx(1) k(2) by (simp add: word_less_nat_alt not_less)
  moreover have "adc_convert rnd vin vref bits =
      (if (of_int ?k :: u32) > push_bit (unat bits) 1 - 1 then push_bit (unat bits) 1 - 1 else of_int ?k)"
    using False mx(1) by (simp only: adc_convert_def adc_code_def Let_def if_False de_Morgan_disj)
  ultimately show ?thesis using False k(1) u by simp
qed

text \<open>Inputs above the reference count as the reference.\<close>

lemma adc_convert_near:
  assumes rnd: "rounds_double rnd" and ok: "adc_resolution_ok bits" and "0 \<le> vin" and "0 < vref"
  shows "\<bar>real (unat (adc_convert rnd vin vref bits)) - min vin vref * real (adc_top bits) / vref\<bar> \<le> 1/2 + 1 / 10 ^ 12"
proof -
  have r: "rounds_well rnd" using rnd by (simp add: rounds_double_def)
  let ?c = "adc_convert rnd vin vref bits"
  have c: "real (unat ?c) = of_int (if vin \<le> 0 then 0 else if vref \<le> vin then int (adc_top bits) else adc_code rnd vin vref (adc_top bits))"
    unfolding adc_convert_nat [OF r ok, of vin vref, symmetric] by simp
  consider "vin = 0" | "vref \<le> vin" | "0 < vin" "vin < vref" using assms(3) by linarith
  then show ?thesis
  proof cases
    case 3
    then show ?thesis unfolding c using adc_code_near [OF rnd adc_top_cases(2) [OF ok] 3] by simp
  next
    case 1
    then show ?thesis unfolding c using assms(4) by simp
  next
    case 2
    then show ?thesis unfolding c using assms(4) by simp
  qed
qed

section \<open>Invariant\<close>

datatype adc_op =
  AEnable | ADisable | ASetResolution u8 | ASetReference real | ASetInput nat real | ASample nat | AReset

fun adc_apply :: "(real \<Rightarrow> real) \<Rightarrow> adc_op \<Rightarrow> 'z mmio_st_scheme on_adc \<Rightarrow> 'z mmio_st_scheme on_adc" where
  "adc_apply rnd AEnable as = adc_enable as"
| "adc_apply rnd ADisable as = adc_disable as"
| "adc_apply rnd (ASetResolution b) as = snd (adc_setResolution b as)"
| "adc_apply rnd (ASetReference v) as = snd (adc_setReferenceVoltage v as)"
| "adc_apply rnd (ASetInput ch v) as = snd (adc_setAnalogInput ch v as)"
| "adc_apply rnd (ASample ch) as = snd (adc_sample rnd ch as)"
| "adc_apply rnd AReset as = adc_reset as"

definition adc_wf :: "adc \<Rightarrow> 'z mmio_st_scheme \<Rightarrow> bool" where
  "adc_wf a s \<longleftrightarrow>
     distinct [a_controlRegister a, a_statusRegister a, a_resRegister a, a_dataRegister a] \<and>
     m_initialValue (reg_objs s (a_dataRegister a)) = 0"

text \<open>
  The resolution is one of the supported three and shown in RES, the reference is positive and no
  channel negative, and DATA shows the last sample.
\<close>

definition adc_inv :: "'z mmio_st_scheme on_adc \<Rightarrow> bool" where
  "adc_inv = (\<lambda>(a, s). adc_wf a s \<and> adc_resolution_ok (a_resolutionBits a) \<and>
     0 < a_referenceVoltage a \<and> (\<forall>v \<in> set (a_channels a). 0 \<le> v) \<and>
     reg_get (a_resRegister a) s = ucast (a_resolutionBits a) \<and>
     reg_get (a_dataRegister a) s = a_lastSample a)"

lemma adc_inv_apply:
  assumes "adc_inv as"
  shows "adc_inv (adc_apply rnd q as)"
proof -
  obtain a s where as: "as = (a, s)" by (cases as)
  have wf: "adc_wf a s" using assms by (simp add: as adc_inv_def)
  then have neqs: "a_controlRegister a \<noteq> a_statusRegister a" "a_controlRegister a \<noteq> a_resRegister a"
    "a_controlRegister a \<noteq> a_dataRegister a" "a_statusRegister a \<noteq> a_resRegister a"
    "a_statusRegister a \<noteq> a_dataRegister a" "a_resRegister a \<noteq> a_dataRegister a"
    by (simp_all add: adc_wf_def)
  note neqs' = neqs neqs [symmetric]
  note defs = as adc_inv_def adc_wf_def adc_updateStatusRegister_def Let_def
  show ?thesis
  proof (cases q)
    case (ASetInput ch v)
    with assms show ?thesis
      by (auto simp: defs adc_setAnalogInput_def dest: set_update_subset_insert [THEN subsetD])
  next
    case (ASetResolution b)
    with assms neqs' show ?thesis by (simp add: defs adc_setResolution_def)
  next
    case (ASample ch)
    with assms neqs' show ?thesis by (simp add: defs adc_sample_def)
  next
    case AReset
    with assms neqs' show ?thesis by (simp add: defs adc_reset_def adc_disable_def adc_resolution_ok_def default_reference_def)
  next
    case AEnable
    with assms neqs' show ?thesis by (simp add: defs adc_enable_def)
  next
    case ADisable
    with assms neqs' show ?thesis by (simp add: defs adc_disable_def)
  next
    case (ASetReference v)
    with assms show ?thesis by (simp add: defs adc_setReferenceVoltage_def)
  qed
qed

interpretation adc_runs: stepper "adc_apply rnd" adc_inv for rnd
  by unfold_locales (rule adc_inv_apply)

lemma adc_init_inv: "adc_init base b v n s = ret a s' \<Longrightarrow> adc_inv (a, s')"
  by (auto simp: adc_init_def make_register_def Let_def adc_inv_def adc_wf_def register_init_def
      adc_updateStatusRegister_def reg_get_def reg_put_def register_write_def adc_resolution_ok_def
      split: prod.splits if_splits dest!: register_chain_fresh)

definition demo_adc :: "mmio_st on_adc" where
  "demo_adc = (let (r, s) = adc_init 0x40008000 8 1 2
     \<lparr>reg_objs = \<lambda>_. register_init 0 0, next_ref = 0, m_registers = []\<rparr> in (projr r, s))"

lemma demo_adc_inv: "adc_inv demo_adc"
proof -
  let ?b = "\<lparr>reg_objs = \<lambda>_. register_init 0 0, next_ref = 0, m_registers = []\<rparr>"
  obtain a s where "adc_init 0x40008000 8 1 2 ?b = ret a s"
    by (auto simp: adc_init_def make_register_def Let_def register_chain.simps adc_resolution_ok_def
        mmio_registerRegister_def mmio_contains_def register_init_def split: prod.splits)
  with adc_init_inv [of "0x40008000" 8 1 2 ?b a s] show ?thesis by (simp add: demo_adc_def)
qed

lemma rounds_well_id: "rounds_well (\<lambda>x. x)"
  by (simp add: rounds_well_def mono_def)

section \<open>Properties\<close>

text \<open>
  The conversion is a monotone map onto the codes of the resolution. With a rounding that is
  monotone and exact on small integers, every code lies between 0 and \<open>2^bits - 1\<close>, inputs at or
  below zero give 0, inputs at or above the reference give the highest code, a higher input never
  gives a lower code, and the final clamp never acts.
\<close>

lemma adc_convert_monotone:
  assumes "rounds_well rnd" and "adc_resolution_ok bits" and "0 < vref"
  shows "unat (adc_convert rnd v vref bits) \<le> adc_top bits \<and>
    (v \<le> 0 \<longrightarrow> adc_convert rnd v vref bits = 0) \<and>
    (vref \<le> v \<longrightarrow> unat (adc_convert rnd v vref bits) = adc_top bits) \<and>
    (v \<le> w \<longrightarrow> adc_convert rnd v vref bits \<le> adc_convert rnd w vref bits)"
proof (intro conjI impI)
  note val = adc_convert_nat [OF assms(1,2)]
  note mx = adc_top_cases [OF assms(2)]
  have code: "0 \<le> adc_code rnd x vref (adc_top bits) \<and> adc_code rnd x vref (adc_top bits) \<le> int (adc_top bits)"
    if "0 < x" "x < vref" for x
    using adc_code_range [OF assms(1) mx(2) that] by simp
  have top: "int (unat (adc_convert rnd x vref bits)) \<le> int (adc_top bits)" for x
    unfolding val using code [of x] by simp
  from top [of v] show "unat (adc_convert rnd v vref bits) \<le> adc_top bits" by linarith
  show "adc_convert rnd v vref bits = 0" if "v \<le> 0" using that by (simp add: adc_convert_def Let_def)
  show "unat (adc_convert rnd v vref bits) = adc_top bits" if "vref \<le> v"
  proof -
    have "int (unat (adc_convert rnd v vref bits)) = int (adc_top bits)"
      unfolding val using that assms(3) by auto
    then show ?thesis by (simp only: of_nat_eq_iff)
  qed
  show "adc_convert rnd v vref bits \<le> adc_convert rnd w vref bits" if "v \<le> w"
  proof -
    have "int (unat (adc_convert rnd v vref bits)) \<le> int (unat (adc_convert rnd w vref bits))"
    proof (cases "0 < v \<and> w < vref")
      case True
      with adc_code_mono [OF assms(1) that assms(3), of "adc_top bits"] that assms(3)
      show ?thesis by (simp only: val) auto
    next
      case False
      with code [of v] code [of w] that assms(3) show ?thesis unfolding val by auto
    qed
    then show ?thesis by (simp only: word_le_nat_alt zle_int)
  qed
qed

text \<open>A rounding that loses digits: to the multiples of the smallest subnormal number.\<close>

definition demo_rounding :: "real \<Rightarrow> real" where
  "demo_rounding x = of_int (round (x * 2 ^ 1074)) / 2 ^ 1074"

lemma demo_rounding_double: "rounds_double demo_rounding"
proof -
  define p where "p = (2 :: int) ^ 1074"
  have p: "0 < real_of_int p" unfolding p_def of_int_power by simp
  have r: "demo_rounding x = of_int (round (x * of_int p)) / of_int p" for x
    by (simp only: demo_rounding_def p_def of_int_power of_int_numeral)
  have half: "half_subnormal = (1/2) / of_int p"
    by (simp only: half_subnormal_def p_def of_int_power of_int_numeral) simp
  have "mono demo_rounding"
    using p by (auto simp: mono_def r intro!: divide_right_mono round_mono mult_right_mono)
  moreover have "demo_rounding (real n) = real n" for n
  proof -
    have "real n * of_int p = of_int (int n * p)" by simp
    then show ?thesis using p by (simp only: r round_of_int) simp
  qed
  moreover have "\<bar>demo_rounding x - x\<bar> \<le> \<bar>x\<bar> / 2 ^ 53 + half_subnormal" for x
  proof -
    have "demo_rounding x - x = (of_int (round (x * of_int p)) - x * of_int p) / of_int p"
      using p by (simp add: r diff_divide_distrib)
    then have "\<bar>demo_rounding x - x\<bar> = \<bar>of_int (round (x * of_int p)) - x * of_int p\<bar> / of_int p"
      using p by (simp only: abs_divide abs_of_pos)
    also have "\<dots> \<le> (1/2) / of_int p" using p by (intro divide_right_mono of_int_round_abs_le) simp
    finally show ?thesis unfolding half [symmetric] by (rule order_trans) simp
  qed
  ultimately show ?thesis by (simp add: rounds_double_def rounds_well_def)
qed

text \<open>
  C37. Sampling. On an enabled converter with its invariant, sampling an existing channel returns the
  conversion of that channel's input, shows it in DATA and as the last sample, and keeps the
  invariant; when the converter is disabled or the channel does not exist it throws and changes
  nothing. With any rounding of the error of double precision (\<^const>\<open>rounds_double\<close>) the code is within half a step and
  \<open>10^-12\<close> of a step of the input, where inputs above the reference count as the reference.
\<close>

theorem adc_sample_accurate:
  assumes "adc_inv (a, s)"
  shows "if \<not> adc_enabled a s then adc_sample rnd ch (a, s) = throw RuntimeError (a, s)
    else if ch \<ge> length (a_channels a) then adc_sample rnd ch (a, s) = throw OutOfRange (a, s)
    else let v = a_channels a ! ch; vref = a_referenceVoltage a; c = adc_convert rnd v vref (a_resolutionBits a);
             (r, (a', s')) = adc_sample rnd ch (a, s)
      in r = Inr c \<and> a_lastSample a' = c \<and> reg_get (a_dataRegister a) s' = c \<and> adc_inv (a', s') \<and>
         (rounds_double rnd \<longrightarrow>
           \<bar>real (unat c) - min v vref * real (adc_top (a_resolutionBits a)) / vref\<bar> \<le> 1/2 + 1 / 10 ^ 12)"
proof (cases "\<not> adc_enabled a s \<or> ch \<ge> length (a_channels a)")
  case True
  then show ?thesis by (auto simp: adc_sample_def)
next
  case False
  let ?v = "a_channels a ! ch" and ?r = "a_referenceVoltage a" and ?b = "a_resolutionBits a"
  have ok: "adc_resolution_ok ?b" and pos: "0 < ?r" and nn: "0 \<le> ?v"
    using assms False by (auto simp: adc_inv_def)
  have inv: "adc_inv (snd (adc_sample rnd ch (a, s)))"
    using adc_inv_apply [OF assms, of rnd "ASample ch"] by simp
  have neq: "a_dataRegister a \<noteq> a_statusRegister a" using assms by (auto simp: adc_inv_def adc_wf_def)
  show ?thesis
    using False inv adc_convert_near [OF _ ok nn pos, of rnd] neq
    by (simp add: adc_sample_def Let_def adc_updateStatusRegister_def split_beta del: of_nat_unat)
qed

text \<open>A quarter of the reference voltage, with eight bits.\<close>

theorem adc_sample_accurate_witness:
  "fst (adc_sample demo_rounding 0 (snd (adc_setAnalogInput 0 (1/4) (adc_enable demo_adc)))) = Inr 64 \<and>
   fst (adc_sample demo_rounding 5 (adc_enable demo_adc)) = Inl OutOfRange \<and>
   fst (adc_sample demo_rounding 0 demo_adc) = Inl RuntimeError"
proof -
  let ?as = "snd (adc_setAnalogInput 0 (1/4) (adc_enable demo_adc))"
  have en: "adc_enabled (fst (adc_enable demo_adc)) (snd (adc_enable demo_adc))"
    "length (a_channels (fst (adc_enable demo_adc))) = 2" "\<not> adc_enabled (fst demo_adc) (snd demo_adc)"
    "a_referenceVoltage (fst (adc_enable demo_adc)) = 1" "a_resolutionBits (fst (adc_enable demo_adc)) = 8"
    by (simp_all add: demo_adc_def adc_init_def make_register_def Let_def register_chain.simps
        adc_resolution_ok_def mmio_registerRegister_def mmio_contains_def register_init_def
        adc_enable_def adc_enabled_def adc_updateStatusRegister_def flag_simps) (simp add: reg_get_def)
  have inv: "adc_inv (adc_enable demo_adc)" using adc_inv_apply [OF demo_adc_inv, of _ AEnable] by simp
  obtain a s where as: "adc_enable demo_adc = (a, s)" by fastforce
  have set: "?as = (a\<lparr>a_channels := (a_channels a)[0 := 1/4]\<rparr>, s)" using en(2) by (simp add: as adc_setAnalogInput_def)
  have inv': "adc_inv ?as" using adc_inv_apply [OF inv, of _ "ASetInput 0 (1/4)"] by simp
  let ?a = "a\<lparr>a_channels := (a_channels a)[0 := 1/4]\<rparr>"
  let ?c = "adc_convert demo_rounding (1/4) 1 8"
  have run: "adc_enabled ?a s" "a_channels a \<noteq> []" "length (a_channels a) = 2" "a_channels ?a ! 0 = 1/4" "a_referenceVoltage ?a = 1"
    "a_resolutionBits ?a = 8" using en by (auto simp: as adc_enabled_def)
  have c: "fst (adc_sample demo_rounding 0 ?as) = Inr ?c" "\<bar>real (unat ?c) - 255 / 4\<bar> \<le> 1/2 + 1 / 10 ^ 12"
    using adc_sample_accurate [of ?a s demo_rounding 0] inv' run demo_rounding_double
    by (simp_all add: set adc_top_def Let_def split_beta del: of_nat_unat)
  define c where "c = ?c"
  note c = c [folded c_def]
  have "x < 65" "63 < x" if "\<bar>x - 255 / 4\<bar> \<le> 1/2 + 1 / 10 ^ 12" for x :: real
    using abs_le_D1 [OF that] abs_le_D2 [OF that] by simp_all
  from this [OF c(2)] have "unat c < 65 \<and> 63 < unat c" by (simp del: of_nat_unat)
  then have "unat c = unat (64 :: u32)" by simp
  then have "c = 64" by (simp only: word_unat_eq_iff)
  with c(1) adc_sample_accurate [of "fst (adc_enable demo_adc)" "snd (adc_enable demo_adc)" demo_rounding 5]
    adc_sample_accurate [of "fst demo_adc" "snd demo_adc" demo_rounding 0] en inv demo_adc_inv
  show ?thesis by simp
qed

end
