(* ===== verification/System_Bus.thy ===== *)
theory System_Bus
  imports Gpio_Driver Spi_Driver I2c_Driver Pwm_Driver Dma_Driver Adc_Driver
begin

text \<open>
  The system bus of \<^verbatim>\<open>system/system_bus.hpp\<close>: it owns the clock and the event scheduler, points to the
  memory, the MMIO bus, the interrupt controller and the peripherals, and keeps the attached DMA
  controllers and timers in the order of attachment. The machine has one object of each class except DMA
  controllers and timers, which are numbered; a pointer to a single object is a flag that says whether it
  is set.
\<close>

section \<open>State\<close>

record system_bus =
  sb_memory :: bool
  sb_mmioBus :: bool
  sb_interruptController :: bool
  sb_dmas :: "nat list"
  sb_timers :: "nat list"
  sb_gpio :: bool
  sb_uart :: bool
  sb_spi :: bool
  sb_i2c :: bool
  sb_pwm :: bool
  sb_adc :: bool

record bus_st = dma_st +
  gpio0 :: gpio
  spi0 :: spi
  spi_devs :: "nat \<Rightarrow> sim_spi"
  i2c0 :: i2c
  i2c_devs :: "nat \<Rightarrow> sim_i2c"
  pwm0 :: pwm
  adc0 :: adc
  dmas :: "nat \<Rightarrow> dma"
  sb :: system_bus

text \<open>Operations of a single peripheral, and of a DMA controller, on the machine.\<close>

definition via_dma ::
  "nat \<Rightarrow> ('z bus_st_scheme on_dma \<Rightarrow> ('a, 'z bus_st_scheme on_dma) outcome) \<Rightarrow>
   'z bus_st_scheme \<Rightarrow> ('a, 'z bus_st_scheme) outcome" where
  "via_dma i f s = (case f (dmas s i, s) of (r, (d, s)) \<Rightarrow> (r, s\<lparr>dmas := (dmas s)(i := d)\<rparr>))"

definition via_pwm ::
  "('z bus_st_scheme on_pwm \<Rightarrow> ('a, 'z bus_st_scheme on_pwm) outcome) \<Rightarrow>
   'z bus_st_scheme \<Rightarrow> ('a, 'z bus_st_scheme) outcome" where
  "via_pwm f s = (case f (pwm0 s, s) of (r, (w, s)) \<Rightarrow> (r, s\<lparr>pwm0 := w\<rparr>))"

definition via_adc ::
  "('z bus_st_scheme on_adc \<Rightarrow> ('a, 'z bus_st_scheme on_adc) outcome) \<Rightarrow>
   'z bus_st_scheme \<Rightarrow> ('a, 'z bus_st_scheme) outcome" where
  "via_adc f s = (case f (adc0 s, s) of (r, (a, s)) \<Rightarrow> (r, s\<lparr>adc0 := a\<rparr>))"

definition via_spi ::
  "((sim_spi, 'z bus_st_scheme) on_spi \<Rightarrow> ('a, (sim_spi, 'z bus_st_scheme) on_spi) outcome) \<Rightarrow>
   'z bus_st_scheme \<Rightarrow> ('a, 'z bus_st_scheme) outcome" where
  "via_spi f s = (case f (spi0 s, spi_devs s, s) of (r, (p, ds, s)) \<Rightarrow> (r, s\<lparr>spi0 := p, spi_devs := ds\<rparr>))"

definition via_i2c ::
  "((sim_i2c, 'z bus_st_scheme) on_i2c \<Rightarrow> ('a, (sim_i2c, 'z bus_st_scheme) on_i2c) outcome) \<Rightarrow>
   'z bus_st_scheme \<Rightarrow> ('a, 'z bus_st_scheme) outcome" where
  "via_i2c f s = (case f (i2c0 s, i2c_devs s, s) of (r, (c, ds, s)) \<Rightarrow> (r, s\<lparr>i2c0 := c, i2c_devs := ds\<rparr>))"

definition upd_dma :: "nat \<Rightarrow> (dma \<Rightarrow> dma) \<Rightarrow> 'z bus_st_scheme \<Rightarrow> 'z bus_st_scheme" where
  "upd_dma i f s = s\<lparr>dmas := (dmas s)(i := f (dmas s i))\<rparr>"

definition upd_sb :: "(system_bus \<Rightarrow> system_bus) \<Rightarrow> 'z bus_st_scheme \<Rightarrow> 'z bus_st_scheme" where
  "upd_sb f s = s\<lparr>sb := f (sb s)\<rparr>"

section \<open>Operations\<close>

definition sb_init :: "bool \<Rightarrow> bool \<Rightarrow> bool \<Rightarrow> 'z bus_st_scheme \<Rightarrow> 'z bus_st_scheme" where
  "sb_init mem bus irq s =
     s\<lparr>sb := \<lparr>sb_memory = mem, sb_mmioBus = bus, sb_interruptController = irq, sb_dmas = [], sb_timers = [],
               sb_gpio = False, sb_uart = False, sb_spi = False, sb_i2c = False, sb_pwm = False, sb_adc = False\<rparr>,
       clock := \<lparr>m_frequencyHz = DEFAULT_FREQUENCY_HZ, m_cycles = 0\<rparr>, esched := sched_init\<rparr>"

definition sb_destroy :: "'z bus_st_scheme \<Rightarrow> 'z bus_st_scheme" where
  "sb_destroy s =
     (let s = fold (\<lambda>t s. timer_detachScheduler t (timer_detachClock t s)) (sb_timers (sb s)) s
      in upd_sb (\<lambda>b. b\<lparr>sb_timers := [], sb_dmas := []\<rparr>) s)"

definition sb_setMemory :: "bool \<Rightarrow> 'z bus_st_scheme \<Rightarrow> 'z bus_st_scheme" where
  "sb_setMemory ptr s =
     (let s = upd_sb (\<lambda>b. b\<lparr>sb_memory := ptr\<rparr>) s
      in fold (\<lambda>d. upd_dma d (dma_attachMemory ptr)) (sb_dmas (sb s)) s)"

definition sb_setMMIO :: "bool \<Rightarrow> 'z bus_st_scheme \<Rightarrow> 'z bus_st_scheme" where
  "sb_setMMIO ptr s =
     (let s = upd_sb (\<lambda>b. b\<lparr>sb_mmioBus := ptr\<rparr>) s
      in fold (\<lambda>d. upd_dma d (dma_attachMMIO ptr)) (sb_dmas (sb s)) s)"

definition sb_setInterrupts :: "bool \<Rightarrow> 'z bus_st_scheme \<Rightarrow> 'z bus_st_scheme" where
  "sb_setInterrupts ptr s =
     (let s = upd_sb (\<lambda>b. b\<lparr>sb_interruptController := ptr\<rparr>) s
      in fold (\<lambda>d. upd_dma d (\<lambda>x. dma_attachInterruptController ptr (d_interruptId x) x)) (sb_dmas (sb s)) s)"

definition sb_attachDMA :: "nat option \<Rightarrow> 'z bus_st_scheme \<Rightarrow> bool \<times> 'z bus_st_scheme" where
  "sb_attachDMA ptr s =
     (case ptr of
        None \<Rightarrow> (False, s)
      | Some d \<Rightarrow>
          if d \<in> set (sb_dmas (sb s)) then (False, s)
          else let s = (if sb_memory (sb s) then upd_dma d (dma_attachMemory True) s else s);
                   s = (if sb_mmioBus (sb s) then upd_dma d (dma_attachMMIO True) s else s);
                   s = (if sb_interruptController (sb s)
                        then upd_dma d (\<lambda>x. dma_attachInterruptController True (d_interruptId x) x) s else s);
                   s = (if sb_uart (sb s) then upd_dma d (dma_attachUART True) s else s);
                   s = upd_dma d (dma_attachScheduler True) s
               in (True, upd_sb (\<lambda>b. b\<lparr>sb_dmas := sb_dmas b @ [d]\<rparr>) s))"

definition sb_detachDMA :: "nat option \<Rightarrow> 'z bus_st_scheme \<Rightarrow> bool \<times> 'z bus_st_scheme" where
  "sb_detachDMA ptr s =
     (case ptr of
        None \<Rightarrow> (False, s)
      | Some d \<Rightarrow>
          if d \<notin> set (sb_dmas (sb s)) then (False, s)
          else let s = upd_dma d dma_detachScheduler s
               in (True, upd_sb (\<lambda>b. b\<lparr>sb_dmas := remove1 d (sb_dmas b)\<rparr>) s))"

definition sb_dma :: "'z bus_st_scheme \<Rightarrow> nat option" where
  "sb_dma s = (case sb_dmas (sb s) of [] \<Rightarrow> None | d # _ \<Rightarrow> Some d)"

definition sb_attachTimer :: "nat option \<Rightarrow> 'z bus_st_scheme \<Rightarrow> bool \<times> 'z bus_st_scheme" where
  "sb_attachTimer ptr s =
     (case ptr of
        None \<Rightarrow> (False, s)
      | Some t \<Rightarrow>
          if t \<in> set (sb_timers (sb s)) then (False, s)
          else let s = timer_attachClock t True s;
                   s = timer_attachScheduler t True s
               in (True, upd_sb (\<lambda>b. b\<lparr>sb_timers := sb_timers b @ [t]\<rparr>) s))"

definition sb_detachTimer :: "nat option \<Rightarrow> 'z bus_st_scheme \<Rightarrow> bool \<times> 'z bus_st_scheme" where
  "sb_detachTimer ptr s =
     (case ptr of
        None \<Rightarrow> (False, s)
      | Some t \<Rightarrow>
          if t \<notin> set (sb_timers (sb s)) then (False, s)
          else let s = timer_detachClock t s;
                   s = timer_detachScheduler t s
               in (True, upd_sb (\<lambda>b. b\<lparr>sb_timers := remove1 t (sb_timers b)\<rparr>) s))"

definition sb_tickTimers :: "'z bus_st_scheme \<Rightarrow> (unit, 'z bus_st_scheme) outcome" where
  "sb_tickTimers s =
     (let s = s\<lparr>clock := clock_tick 1 (clock s)\<rparr>
      in and_then (for_each (\<lambda>d. via_dma d dma_tick) (sb_dmas (sb s)) s) (\<lambda>_ s.
           and_then (for_each timer_tick (sb_timers (sb s)) s) (\<lambda>_ s.
             if sb_pwm (sb s) then via_pwm pwm_tick s else ret () s)))"

definition sb_attachGPIO :: "bool \<Rightarrow> 'z bus_st_scheme \<Rightarrow> 'z bus_st_scheme" where
  "sb_attachGPIO ptr = upd_sb (\<lambda>b. b\<lparr>sb_gpio := ptr\<rparr>)"

definition sb_attachUART :: "bool \<Rightarrow> 'z bus_st_scheme \<Rightarrow> 'z bus_st_scheme" where
  "sb_attachUART ptr s =
     (let s = upd_sb (\<lambda>b. b\<lparr>sb_uart := ptr\<rparr>) s
      in fold (\<lambda>d. upd_dma d (dma_attachUART ptr)) (sb_dmas (sb s)) s)"

definition sb_attachSPI :: "bool \<Rightarrow> 'z bus_st_scheme \<Rightarrow> 'z bus_st_scheme" where
  "sb_attachSPI ptr = upd_sb (\<lambda>b. b\<lparr>sb_spi := ptr\<rparr>)"

definition sb_attachI2C :: "bool \<Rightarrow> 'z bus_st_scheme \<Rightarrow> 'z bus_st_scheme" where
  "sb_attachI2C ptr = upd_sb (\<lambda>b. b\<lparr>sb_i2c := ptr\<rparr>)"

definition sb_attachPWM :: "bool \<Rightarrow> 'z bus_st_scheme \<Rightarrow> 'z bus_st_scheme" where
  "sb_attachPWM ptr = upd_sb (\<lambda>b. b\<lparr>sb_pwm := ptr\<rparr>)"

definition sb_attachADC :: "bool \<Rightarrow> 'z bus_st_scheme \<Rightarrow> 'z bus_st_scheme" where
  "sb_attachADC ptr = upd_sb (\<lambda>b. b\<lparr>sb_adc := ptr\<rparr>)"

text \<open>A void operation that cannot throw, as one of the machine.\<close>

definition plainly :: "('s \<Rightarrow> 's) \<Rightarrow> 's \<Rightarrow> (unit, 's) outcome" where
  "plainly f s = ret () (f s)"

definition sb_reset :: "'z bus_st_scheme \<Rightarrow> 'z bus_st_scheme" where
  "sb_reset s =
     (let s = fold (\<lambda>d. upd_dma d dma_reset) (sb_dmas (sb s)) s;
          s = (if sb_gpio (sb s) then gpio_reset (gpio0 s) s else s);
          s = fold timer_reset (sb_timers (sb s)) s;
          s = (if sb_uart (sb s) then snd (via_uart (plainly uart_reset) s) else s);
          s = (if sb_spi (sb s) then snd (via_spi (plainly spi_reset) s) else s);
          s = (if sb_i2c (sb s) then snd (via_i2c (plainly i2c_reset) s) else s);
          s = (if sb_pwm (sb s) then snd (via_pwm (plainly pwm_reset) s) else s);
          s = (if sb_adc (sb s) then snd (via_adc (plainly adc_reset) s) else s);
          s = (if sb_interruptController (sb s) then ic_reset s else s);
          s = (if sb_memory (sb s) then s\<lparr>mem0 := memory_clear (mem0 s)\<rparr> else s);
          s = s\<lparr>clock := clock_reset (clock s)\<rparr>
      in s\<lparr>esched := sched_clear (esched s)\<rparr>)"

section \<open>A cycle of the bus\<close>

text \<open>
  What the closures do that the sources post: a timer's runs its compare match, that of a DMA controller
  does nothing, and those of the embedding program are a parameter.
\<close>

definition run_callback ::
  "(nat \<Rightarrow> 'z timer_st_scheme \<Rightarrow> (unit, 'z timer_st_scheme) outcome) \<Rightarrow>
   callback \<Rightarrow> 'z timer_st_scheme \<Rightarrow> (unit, 'z timer_st_scheme) outcome" where
  "run_callback user c =
     (case c of TimerMatch i \<Rightarrow> timer_handleCompareMatch i | DmaNotice \<Rightarrow> ret () | UserCallback n \<Rightarrow> user n)"

text \<open>The part of a processor step that concerns the bus: tick, run the due events, dispatch an interrupt.\<close>

definition sb_cycle ::
  "(nat \<Rightarrow> 'z bus_st_scheme \<Rightarrow> (unit, 'z bus_st_scheme) outcome) \<Rightarrow>
   (nat \<Rightarrow> 'z bus_st_scheme \<Rightarrow> (unit, 'z bus_st_scheme) outcome) \<Rightarrow>
   'z bus_st_scheme \<Rightarrow> (unit, 'z bus_st_scheme) outcome" where
  "sb_cycle user handler s =
     and_then (sb_tickTimers s) (\<lambda>_ s.
       and_then (sched_executeReadyEvents (run_callback user) (m_cycles (clock s)) s) (\<lambda>_ s.
         if sb_interruptController (sb s) then and_then (ic_dispatch handler s) (\<lambda>_. ret ()) else ret () s))"

section \<open>A concrete machine\<close>

text \<open>The machine of \<open>demo_timer\<close> with a bus and idle peripherals, and compare value 3.\<close>

definition demo_machine :: bus_st where
  "demo_machine =
     (let t = timer_setCompare 0 3 demo_timer
      in sb_init True True True
           \<lparr>reg_objs = reg_objs t, next_ref = next_ref t, m_registers = m_registers t, ic = ic t,
            clock = clock t, esched = esched t, timers = timers t, mem0 = mem0 demo_dma_st,
            uart0 = uart0 demo_dma_st,
            gpio0 = \<lparr>g_base = 0, g_dirRegister = 60, g_outRegister = 61, g_inRegister = 62\<rparr>,
            spi0 = \<lparr>s_base = 0, s_dataRegister = 63, s_statusRegister = 64, s_controlRegister = 65,
                    s_clockDivRegister = 66, s_slave = None, s_rxBuffer = [], s_busy = False, s_rxHasData = False\<rparr>,
            spi_devs = \<lambda>_. sim_spi_init 0,
            i2c0 = \<lparr>i_base = 0, i_dataRegister = 67, i_statusRegister = 68, i_controlRegister = 69,
                    i_addrRegister = 70, i_devices = [], i_activeDevice = None, i_rxBuffer = [],
                    i_busy = False, i_lastAck = False, i_isReadMode = False\<rparr>,
            i2c_devs = \<lambda>_. sim_i2c_init 0x50 0,
            pwm0 = \<lparr>w_base = 0, w_systemClockHz = 1000000, w_controlRegister = 71, w_freqRegister = 72,
                    w_dutyRegister = 73, w_statusRegister = 74, w_timer = 9, w_periodTicks = 1000, w_onTicks = 500\<rparr>,
            adc0 = \<lparr>a_base = 0, a_resolutionBits = 12, a_referenceVoltage = default_reference, a_channels = [0],
                    a_controlRegister = 75, a_statusRegister = 76, a_resRegister = 77, a_dataRegister = 78,
                    a_lastSample = 0\<rparr>,
            dmas = \<lambda>_. demo_dma,
            sb = \<lparr>sb_memory = False, sb_mmioBus = False, sb_interruptController = False, sb_dmas = [],
                  sb_timers = [], sb_gpio = False, sb_uart = False, sb_spi = False, sb_i2c = False,
                  sb_pwm = False, sb_adc = False\<rparr>\<rparr>)"

end
