(* ===== verification/Hal.thy ===== *)
theory Hal
  imports System_Bus
begin

text \<open>
  The hardware abstraction layer of \<^verbatim>\<open>include/hal\<close>: thin objects with a pointer to a driver. Those of
  GPIO, UART and the timer ignore calls without a driver, the others throw. A HAL object over a single
  peripheral is the flag that says whether its pointer is set, that over a timer an optional number; the
  I2C object also keeps the bytes of its last request.
\<close>

section \<open>GPIO\<close>

definition gpio_hal_attach :: "bool \<Rightarrow> bool \<Rightarrow> bool" where
  "gpio_hal_attach ptr h = ptr"

definition gpio_hal_configureOutput :: "bool \<Rightarrow> u8 \<Rightarrow> 'z bus_st_scheme \<Rightarrow> (unit, 'z bus_st_scheme) outcome" where
  "gpio_hal_configureOutput h pin s = (if \<not> h then ret () s else gpio_configurePin (gpio0 s) pin Output s)"

definition gpio_hal_configureInput :: "bool \<Rightarrow> u8 \<Rightarrow> 'z bus_st_scheme \<Rightarrow> (unit, 'z bus_st_scheme) outcome" where
  "gpio_hal_configureInput h pin s = (if \<not> h then ret () s else gpio_configurePin (gpio0 s) pin Input s)"

definition gpio_hal_write :: "bool \<Rightarrow> u8 \<Rightarrow> bool \<Rightarrow> 'z bus_st_scheme \<Rightarrow> (unit, 'z bus_st_scheme) outcome" where
  "gpio_hal_write h pin v s =
     (if \<not> h then ret () s else gpio_writePin (gpio0 s) pin (if v then High else Low) s)"

definition gpio_hal_read :: "bool \<Rightarrow> u8 \<Rightarrow> 'z bus_st_scheme \<Rightarrow> (bool, 'z bus_st_scheme) outcome" where
  "gpio_hal_read h pin s =
     (if \<not> h then ret False s else and_then (gpio_readPin (gpio0 s) pin s) (\<lambda>st. ret (st = High)))"

definition gpio_hal_toggle :: "bool \<Rightarrow> u8 \<Rightarrow> 'z bus_st_scheme \<Rightarrow> (unit, 'z bus_st_scheme) outcome" where
  "gpio_hal_toggle h pin s = (if \<not> h then ret () s else gpio_togglePin (gpio0 s) pin s)"

section \<open>UART\<close>

text \<open>Attaching a UART enables it.\<close>

definition uart_hal_attach :: "bool \<Rightarrow> 'z bus_st_scheme \<Rightarrow> bool \<times> 'z bus_st_scheme" where
  "uart_hal_attach ptr s = (ptr, if ptr then snd (via_uart (plainly uart_enable) s) else s)"

definition uart_hal_writeByte :: "bool \<Rightarrow> u8 \<Rightarrow> 'z bus_st_scheme \<Rightarrow> (unit, 'z bus_st_scheme) outcome" where
  "uart_hal_writeByte h b s = (if \<not> h then ret () s else via_uart (uart_writeByte b) s)"

definition uart_hal_readByte :: "bool \<Rightarrow> 'z bus_st_scheme \<Rightarrow> (u8, 'z bus_st_scheme) outcome" where
  "uart_hal_readByte h s = (if \<not> h then ret 0 s else via_uart uart_readByte s)"

definition uart_hal_hasData :: "bool \<Rightarrow> 'z bus_st_scheme \<Rightarrow> bool" where
  "uart_hal_hasData h s = (if \<not> h then False else uart_hasReceivedData (uart0 s))"

definition uart_hal_setBaudRate :: "bool \<Rightarrow> u32 \<Rightarrow> 'z bus_st_scheme \<Rightarrow> (unit, 'z bus_st_scheme) outcome" where
  "uart_hal_setBaudRate h rate s = (if \<not> h then ret () s else via_uart (uart_setBaudRate rate) s)"

definition uart_hal_enable :: "bool \<Rightarrow> 'z bus_st_scheme \<Rightarrow> (unit, 'z bus_st_scheme) outcome" where
  "uart_hal_enable h s = (if \<not> h then ret () s else via_uart (plainly uart_enable) s)"

definition uart_hal_disable :: "bool \<Rightarrow> 'z bus_st_scheme \<Rightarrow> (unit, 'z bus_st_scheme) outcome" where
  "uart_hal_disable h s = (if \<not> h then ret () s else via_uart (plainly uart_disable) s)"

definition uart_hal_enabled :: "bool \<Rightarrow> 'z bus_st_scheme \<Rightarrow> bool" where
  "uart_hal_enabled h s = (if \<not> h then False else uart_enabled (uart0 s) s)"

section \<open>Timer\<close>

definition timer_hal_attach :: "nat option \<Rightarrow> nat option \<Rightarrow> nat option" where
  "timer_hal_attach ptr h = ptr"

definition timer_hal_start :: "nat option \<Rightarrow> 'z timer_st_scheme \<Rightarrow> 'z timer_st_scheme" where
  "timer_hal_start h s = (case h of None \<Rightarrow> s | Some t \<Rightarrow> timer_start t s)"

definition timer_hal_stop :: "nat option \<Rightarrow> 'z timer_st_scheme \<Rightarrow> 'z timer_st_scheme" where
  "timer_hal_stop h s = (case h of None \<Rightarrow> s | Some t \<Rightarrow> timer_stop t s)"

definition timer_hal_reset :: "nat option \<Rightarrow> 'z timer_st_scheme \<Rightarrow> 'z timer_st_scheme" where
  "timer_hal_reset h s = (case h of None \<Rightarrow> s | Some t \<Rightarrow> timer_reset t s)"

definition timer_hal_counter :: "nat option \<Rightarrow> 'z timer_st_scheme \<Rightarrow> u32" where
  "timer_hal_counter h s = (case h of None \<Rightarrow> 0 | Some t \<Rightarrow> timer_counter t s)"

definition timer_hal_setCompare :: "nat option \<Rightarrow> u32 \<Rightarrow> 'z timer_st_scheme \<Rightarrow> 'z timer_st_scheme" where
  "timer_hal_setCompare h v s = (case h of None \<Rightarrow> s | Some t \<Rightarrow> timer_setCompare t v s)"

definition timer_hal_hasMatch :: "nat option \<Rightarrow> 'z timer_st_scheme \<Rightarrow> bool" where
  "timer_hal_hasMatch h s = (case h of None \<Rightarrow> False | Some t \<Rightarrow> timer_hasMatch t s)"

definition timer_hal_running :: "nat option \<Rightarrow> 'z timer_st_scheme \<Rightarrow> bool" where
  "timer_hal_running h s = (case h of None \<Rightarrow> False | Some t \<Rightarrow> timer_running t s)"

section \<open>SPI\<close>

definition spi_hal_attach :: "bool \<Rightarrow> bool \<Rightarrow> bool" where
  "spi_hal_attach ptr h = ptr"

definition spi_hal_writeByte :: "bool \<Rightarrow> u8 \<Rightarrow> 'z bus_st_scheme \<Rightarrow> (unit, 'z bus_st_scheme) outcome" where
  "spi_hal_writeByte h b s =
     (if \<not> h then throw RuntimeError s else via_spi (spi_writeByte sim_spi_transfer b) s)"

definition spi_hal_readByte :: "bool \<Rightarrow> 'z bus_st_scheme \<Rightarrow> (u8, 'z bus_st_scheme) outcome" where
  "spi_hal_readByte h s = (if \<not> h then throw RuntimeError s else via_spi spi_readByte s)"

definition spi_hal_transfer :: "bool \<Rightarrow> u8 \<Rightarrow> 'z bus_st_scheme \<Rightarrow> (u8, 'z bus_st_scheme) outcome" where
  "spi_hal_transfer h b s =
     (if \<not> h then throw RuntimeError s else via_spi (spi_transfer sim_spi_transfer b) s)"

definition spi_hal_configure :: "bool \<Rightarrow> u8 \<Rightarrow> u32 \<Rightarrow> 'z bus_st_scheme \<Rightarrow> (unit, 'z bus_st_scheme) outcome" where
  "spi_hal_configure h mode cdiv s =
     (if \<not> h then throw RuntimeError s
      else and_then (spi_setMode (spi0 s) mode s) (\<lambda>_ s. spi_setClockDivider (spi0 s) cdiv s))"

definition spi_hal_enable :: "bool \<Rightarrow> 'z bus_st_scheme \<Rightarrow> (unit, 'z bus_st_scheme) outcome" where
  "spi_hal_enable h s = (if \<not> h then throw RuntimeError s else via_spi (plainly spi_enable) s)"

definition spi_hal_disable :: "bool \<Rightarrow> 'z bus_st_scheme \<Rightarrow> (unit, 'z bus_st_scheme) outcome" where
  "spi_hal_disable h s = (if \<not> h then throw RuntimeError s else via_spi (plainly spi_disable) s)"

definition spi_hal_enabled :: "bool \<Rightarrow> 'z bus_st_scheme \<Rightarrow> bool" where
  "spi_hal_enabled h s = (if \<not> h then False else spi_enabled (spi0 s) s)"

section \<open>I2C\<close>

record i2c_hal =
  ih_controller :: bool
  ih_rxQueue :: "u8 list"

type_synonym 's on_i2c_hal = "i2c_hal \<times> 's"

definition i2c_hal_attach :: "bool \<Rightarrow> i2c_hal \<Rightarrow> i2c_hal" where
  "i2c_hal_attach ptr h = h\<lparr>ih_controller := ptr\<rparr>"

text \<open>A call on the driver from an object, which throws without one.\<close>

definition i2c_hal_call ::
  "('z bus_st_scheme \<Rightarrow> ('a, 'z bus_st_scheme) outcome) \<Rightarrow>
   'z bus_st_scheme on_i2c_hal \<Rightarrow> ('a, 'z bus_st_scheme on_i2c_hal) outcome" where
  "i2c_hal_call f = (\<lambda>(h, s).
     if \<not> ih_controller h then throw RuntimeError (h, s) else (case f s of (r, s) \<Rightarrow> (r, (h, s))))"

definition i2c_setAddress :: "u8 \<Rightarrow> 'z bus_st_scheme \<Rightarrow> 'z bus_st_scheme" where
  "i2c_setAddress a s = i2c_setSlaveAddress (i2c0 s) a s"

definition i2c_hal_beginTransmission ::
  "u8 \<Rightarrow> 'z bus_st_scheme on_i2c_hal \<Rightarrow> (bool, 'z bus_st_scheme on_i2c_hal) outcome" where
  "i2c_hal_beginTransmission a =
     i2c_hal_call (\<lambda>s. via_i2c (i2c_start sim_i2c_class False) (i2c_setAddress a s))"

definition i2c_hal_endTransmission ::
  "'z bus_st_scheme on_i2c_hal \<Rightarrow> (bool, 'z bus_st_scheme on_i2c_hal) outcome" where
  "i2c_hal_endTransmission =
     i2c_hal_call (\<lambda>s. let ack = i_lastAck (i2c0 s)
       in and_then (via_i2c (plainly (i2c_stop sim_i2c_class)) s) (\<lambda>_. ret ack))"

definition i2c_hal_writeByte ::
  "u8 \<Rightarrow> 'z bus_st_scheme on_i2c_hal \<Rightarrow> (bool, 'z bus_st_scheme on_i2c_hal) outcome" where
  "i2c_hal_writeByte b = i2c_hal_call (via_i2c (i2c_writeByte sim_i2c_class b))"

definition i2c_hal_readByte ::
  "'z bus_st_scheme on_i2c_hal \<Rightarrow> (u8, 'z bus_st_scheme on_i2c_hal) outcome" where
  "i2c_hal_readByte = (\<lambda>(h, s).
     case ih_rxQueue h of
       b # bs \<Rightarrow> ret b (h\<lparr>ih_rxQueue := bs\<rparr>, s)
     | [] \<Rightarrow> i2c_hal_call (via_i2c (i2c_readByte sim_i2c_class)) (h, s))"

text \<open>The loop of \<^verbatim>\<open>requestFrom\<close>; it returns the count.\<close>

fun i2c_hal_collect ::
  "nat \<Rightarrow> nat \<Rightarrow> 'z bus_st_scheme on_i2c_hal \<Rightarrow> (nat, 'z bus_st_scheme on_i2c_hal) outcome" where
  "i2c_hal_collect 0 cnt hs = ret cnt hs"
| "i2c_hal_collect (Suc n) cnt (h, s) =
     (case via_i2c (i2c_readByte sim_i2c_class) s of
        (Inl e, s) \<Rightarrow> throw e (h, s)
      | (Inr b, s) \<Rightarrow> i2c_hal_collect n (cnt + 1) (h\<lparr>ih_rxQueue := ih_rxQueue h @ [b]\<rparr>, s))"

definition i2c_hal_requestFrom ::
  "u8 \<Rightarrow> nat \<Rightarrow> 'z bus_st_scheme on_i2c_hal \<Rightarrow> (nat, 'z bus_st_scheme on_i2c_hal) outcome" where
  "i2c_hal_requestFrom a quantity = (\<lambda>(h, s).
     if \<not> ih_controller h then throw RuntimeError (h, s)
     else let h = h\<lparr>ih_rxQueue := []\<rparr>;
              s = i2c_setAddress a s
          in case via_i2c (i2c_start sim_i2c_class True) s of
               (Inl e, s) \<Rightarrow> throw e (h, s)
             | (Inr ack, s) \<Rightarrow>
                 if \<not> ack then ret 0 (h, snd (via_i2c (plainly (i2c_stop sim_i2c_class)) s))
                 else and_then (i2c_hal_collect quantity 0 (h, s)) (\<lambda>cnt (h, s).
                   ret cnt (h, snd (via_i2c (plainly (i2c_stop sim_i2c_class)) s))))"

definition i2c_hal_requestOne ::
  "u8 \<Rightarrow> 'z bus_st_scheme on_i2c_hal \<Rightarrow> (nat, 'z bus_st_scheme on_i2c_hal) outcome" where
  "i2c_hal_requestOne a = i2c_hal_requestFrom a 1"

definition i2c_hal_available :: "i2c_hal \<Rightarrow> nat" where
  "i2c_hal_available h = length (ih_rxQueue h)"

definition i2c_hal_enable :: "'z bus_st_scheme on_i2c_hal \<Rightarrow> (unit, 'z bus_st_scheme on_i2c_hal) outcome" where
  "i2c_hal_enable = i2c_hal_call (via_i2c (plainly i2c_enable))"

definition i2c_hal_disable :: "'z bus_st_scheme on_i2c_hal \<Rightarrow> (unit, 'z bus_st_scheme on_i2c_hal) outcome" where
  "i2c_hal_disable = i2c_hal_call (via_i2c (plainly i2c_disable))"

definition i2c_hal_enabled :: "'z bus_st_scheme on_i2c_hal \<Rightarrow> bool" where
  "i2c_hal_enabled = (\<lambda>(h, s). if \<not> ih_controller h then False else i2c_enabled (i2c0 s) s)"

section \<open>PWM\<close>

definition pwm_hal_attach :: "bool \<Rightarrow> bool \<Rightarrow> bool" where
  "pwm_hal_attach ptr h = ptr"

definition pwm_hal_enable :: "bool \<Rightarrow> 'z bus_st_scheme \<Rightarrow> (unit, 'z bus_st_scheme) outcome" where
  "pwm_hal_enable h s = (if \<not> h then throw RuntimeError s else via_pwm (plainly pwm_enable) s)"

definition pwm_hal_disable :: "bool \<Rightarrow> 'z bus_st_scheme \<Rightarrow> (unit, 'z bus_st_scheme) outcome" where
  "pwm_hal_disable h s = (if \<not> h then throw RuntimeError s else via_pwm (plainly pwm_disable) s)"

definition pwm_hal_enabled :: "bool \<Rightarrow> 'z bus_st_scheme \<Rightarrow> bool" where
  "pwm_hal_enabled h s = (if \<not> h then False else pwm_enabled (pwm0 s) s)"

definition pwm_hal_setDutyCycle :: "bool \<Rightarrow> u32 \<Rightarrow> 'z bus_st_scheme \<Rightarrow> (unit, 'z bus_st_scheme) outcome" where
  "pwm_hal_setDutyCycle h percent s = (if \<not> h then throw RuntimeError s else via_pwm (pwm_setDutyCycle percent) s)"

definition pwm_hal_dutyCycle :: "bool \<Rightarrow> 'z bus_st_scheme \<Rightarrow> (u32, 'z bus_st_scheme) outcome" where
  "pwm_hal_dutyCycle h s = (if \<not> h then throw RuntimeError s else ret (pwm_dutyCycle (pwm0 s) s) s)"

definition pwm_hal_setFrequency :: "bool \<Rightarrow> u32 \<Rightarrow> 'z bus_st_scheme \<Rightarrow> (unit, 'z bus_st_scheme) outcome" where
  "pwm_hal_setFrequency h hz s = (if \<not> h then throw RuntimeError s else via_pwm (pwm_setFrequency hz) s)"

definition pwm_hal_frequency :: "bool \<Rightarrow> 'z bus_st_scheme \<Rightarrow> (u32, 'z bus_st_scheme) outcome" where
  "pwm_hal_frequency h s = (if \<not> h then throw RuntimeError s else ret (pwm_frequency (pwm0 s) s) s)"

definition pwm_hal_outputState :: "bool \<Rightarrow> 'z bus_st_scheme \<Rightarrow> bool" where
  "pwm_hal_outputState h s = (if \<not> h then False else pwm_outputState (pwm0 s) s)"

section \<open>ADC\<close>

definition adc_hal_attach :: "bool \<Rightarrow> bool \<Rightarrow> bool" where
  "adc_hal_attach ptr h = ptr"

definition adc_hal_enable :: "bool \<Rightarrow> 'z bus_st_scheme \<Rightarrow> (unit, 'z bus_st_scheme) outcome" where
  "adc_hal_enable h s = (if \<not> h then throw RuntimeError s else via_adc (plainly adc_enable) s)"

definition adc_hal_disable :: "bool \<Rightarrow> 'z bus_st_scheme \<Rightarrow> (unit, 'z bus_st_scheme) outcome" where
  "adc_hal_disable h s = (if \<not> h then throw RuntimeError s else via_adc (plainly adc_disable) s)"

definition adc_hal_enabled :: "bool \<Rightarrow> 'z bus_st_scheme \<Rightarrow> bool" where
  "adc_hal_enabled h s = (if \<not> h then False else adc_enabled (adc0 s) s)"

definition adc_hal_read ::
  "(real \<Rightarrow> real) \<Rightarrow> bool \<Rightarrow> nat \<Rightarrow> 'z bus_st_scheme \<Rightarrow> (u32, 'z bus_st_scheme) outcome" where
  "adc_hal_read rnd h ch s = (if \<not> h then throw RuntimeError s else via_adc (adc_sample rnd ch) s)"

definition adc_hal_setReferenceVoltage :: "bool \<Rightarrow> real \<Rightarrow> 'z bus_st_scheme \<Rightarrow> (unit, 'z bus_st_scheme) outcome" where
  "adc_hal_setReferenceVoltage h v s =
     (if \<not> h then throw RuntimeError s else via_adc (adc_setReferenceVoltage v) s)"

definition adc_hal_referenceVoltage :: "bool \<Rightarrow> 'z bus_st_scheme \<Rightarrow> (real, 'z bus_st_scheme) outcome" where
  "adc_hal_referenceVoltage h s =
     (if \<not> h then throw RuntimeError s else ret (a_referenceVoltage (adc0 s)) s)"

section \<open>A read request through the whole stack\<close>

abbreviation i2c_of :: "'z bus_st_scheme \<Rightarrow> (sim_i2c, 'z bus_st_scheme) on_i2c" where
  "i2c_of s \<equiv> (i2c0 s, i2c_devs s, s)"

lemma i2c_holds_machine [simp]:
  "i2c_holds i (c, ds, s\<lparr>i2c0 := c', i2c_devs := ds'\<rparr>) = i2c_holds i (c, ds, s)"
  by (simp add: i2c_holds_def i2c_wf_def i2c_enabled_def reg_get_def)

text \<open>The loop reads what a run of reads reads.\<close>

lemma i2c_hal_collect_reads:
  assumes "i2c_holds i (i2c_of s)"
  shows "\<exists>s'. i2c_hal_collect n k (h, s) =
      ret (k + n) (h\<lparr>ih_rxQueue := ih_rxQueue h @ fst (read_all (dv_onRead sim_i2c_class) n (i2c_devs s i))\<rparr>, s') \<and>
    i2c_holds i (i2c_of s') \<and> i2c_devs s' = (i2c_devs s)(i := snd (read_all (dv_onRead sim_i2c_class) n (i2c_devs s i)))"
  using assms
proof (induction n arbitrary: k h s)
  case 0
  then show ?case by (cases h) (simp add: exI [of _ s])
next
  case (Suc n)
  obtain b d where d: "dv_onRead sim_i2c_class (i2c_devs s i) = (b, d)"
    by (cases "dv_onRead sim_i2c_class (i2c_devs s i)")
  let ?ds = "(i2c_devs s)(i := d)"
  from i2c_readByte_holds [OF Suc.prems, of sim_i2c_class] d obtain s0 where
    rd: "i2c_readByte sim_i2c_class (i2c_of s) = ret b (i2c0 s, ?ds, s0)"
    and h0: "i2c_holds i (i2c0 s, ?ds, s0)" by auto
  let ?s1 = "s0\<lparr>i2c0 := i2c0 s, i2c_devs := ?ds\<rparr>"
  let ?h1 = "h\<lparr>ih_rxQueue := ih_rxQueue h @ [b]\<rparr>"
  have v: "via_i2c (i2c_readByte sim_i2c_class) s = ret b ?s1" using rd by (simp add: via_i2c_def)
  have h1: "i2c_holds i (i2c_of ?s1)" using h0 by simp
  obtain s2 where "i2c_hal_collect n (k + 1) (?h1, ?s1) = ret (k + 1 + n)
       (?h1\<lparr>ih_rxQueue := ih_rxQueue ?h1 @ fst (read_all (dv_onRead sim_i2c_class) n (i2c_devs ?s1 i))\<rparr>, s2)"
    and "i2c_holds i (i2c_of s2)"
    and "i2c_devs s2 = (i2c_devs ?s1)(i := snd (read_all (dv_onRead sim_i2c_class) n (i2c_devs ?s1 i)))"
    using Suc.IH [of ?s1 "k + 1" ?h1, OF h1] by (elim exE conjE)
  then show ?case
    using v d by (intro exI [of _ s2]) (simp add: split_beta fun_upd_def cong: if_cong)
qed

lemma address_twice: "ucast (ucast ((a :: u8) AND 0x7F) AND (0x7F :: u32)) = a AND 0x7F"
  by (rule bit_word_eqI) (auto simp: bit_simps)

lemma i2c_setAddress_machine:
  assumes "i2c_inv (i2c_of s)" and "i2c_enabled (i2c0 s) s"
  shows "i2c_inv (i2c_of (i2c_setAddress a s))" and "i2c_enabled (i2c0 (i2c_setAddress a s)) (i2c_setAddress a s)"
    and "i2c_slaveAddress (i2c0 s) (i2c_setAddress a s) = a AND 0x7F"
    and "i2c0 (i2c_setAddress a s) = i2c0 s" and "i2c_devs (i2c_setAddress a s) = i2c_devs s"
proof -
  have wf: "i2c_wf (i2c0 s) s" using assms(1) by (simp add: i2c_inv_def)
  show f: "i2c0 (i2c_setAddress a s) = i2c0 s" "i2c_devs (i2c_setAddress a s) = i2c_devs s"
    by (simp_all add: i2c_setAddress_def i2c_setSlaveAddress_def reg_put_def)
  show "i2c_inv (i2c_of (i2c_setAddress a s))"
    using i2c_inv_apply [OF assms(1), of sim_i2c_class "ISetAddress a"] f by (simp add: i2c_setAddress_def)
  show "i2c_enabled (i2c0 (i2c_setAddress a s)) (i2c_setAddress a s)"
    using assms(2) i2c_wf_neqs [OF wf] f
    by (simp add: i2c_setAddress_def i2c_setSlaveAddress_def i2c_enabled_def)
  show "i2c_slaveAddress (i2c0 s) (i2c_setAddress a s) = a AND 0x7F"
    by (simp add: i2c_setAddress_def i2c_setSlaveAddress_def i2c_slaveAddress_def address_twice)
qed

lemma i2c_start_machine:
  assumes "i2c_inv (i2c_of s)" and "i2c_enabled (i2c0 s) s"
    and "find (\<lambda>i. si_address (i2c_devs s i) = i2c_slaveAddress (i2c0 s) s) (i_devices (i2c0 s)) = Some i"
    and "si_ackEnabled (i2c_devs s i)"
  shows "\<exists>s'. via_i2c (i2c_start sim_i2c_class True) s = ret True s' \<and> i2c_holds i (i2c_of s') \<and> i2c_devs s' = i2c_devs s"
proof -
  have "dv_address sim_i2c_class = si_address" by (simp add: sim_i2c_class_def)
  with i2c_start_holds [OF assms(1,2), of sim_i2c_class i True] assms(3,4) sim_i2c.start_acks
  obtain c1 s1 where "i2c_start sim_i2c_class True (i2c_of s) = ret True (c1, i2c_devs s, s1)"
    and "i2c_holds i (c1, i2c_devs s, s1)" by auto
  then show ?thesis
    by (intro exI [of _ "s1\<lparr>i2c0 := c1, i2c_devs := i2c_devs s\<rparr>"]) (simp add: via_i2c_def)
qed

text \<open>
  C14. A read request through the whole stack. With the controller enabled and in order, and a willing
  simulated slave the first attached one at the seven low bits of the address, \<^verbatim>\<open>requestFrom\<close> an
  address reports the quantity asked for, and its queue holds as many bytes: those queued in the slave,
  in order, then the slave's default byte. The slave has given them away, the other slaves are
  unchanged, the bus is idle again, and the bytes can be read from the object without the bus.
\<close>

theorem i2c_hal_request:
  assumes "i2c_inv (i2c_of s)" and "i2c_enabled (i2c0 s) s" and "ih_controller h"
    and "find (\<lambda>i. si_address (i2c_devs s i) = a AND 0x7F) (i_devices (i2c0 s)) = Some i"
    and "si_ackEnabled (i2c_devs s i)"
  shows "\<exists>h' s'. i2c_hal_requestFrom a n (h, s) = ret n (h', s') \<and>
    ih_rxQueue h' = take n (si_responseQueue (i2c_devs s i)) @
      replicate (n - length (si_responseQueue (i2c_devs s i))) (si_defaultResponse (i2c_devs s i)) \<and>
    si_responseQueue (i2c_devs s' i) = drop n (si_responseQueue (i2c_devs s i)) \<and>
    (\<forall>j. j \<noteq> i \<longrightarrow> i2c_devs s' j = i2c_devs s j) \<and> \<not> i_busy (i2c0 s') \<and>
    (0 < n \<longrightarrow> i2c_hal_readByte (h', s') =
       ret (hd (ih_rxQueue h')) (h'\<lparr>ih_rxQueue := tl (ih_rxQueue h')\<rparr>, s'))"
proof -
  let ?a = "i2c_setAddress a s" and ?h = "h\<lparr>ih_rxQueue := []\<rparr>"
  let ?r = "read_all (dv_onRead sim_i2c_class) n (i2c_devs s i)"
  note sa = i2c_setAddress_machine [OF assms(1,2), of a]
  obtain s1 where st: "via_i2c (i2c_start sim_i2c_class True) ?a = ret True s1"
    and h1: "i2c_holds i (i2c_of s1)" and d1: "i2c_devs s1 = i2c_devs s"
    using i2c_start_machine [OF sa(1,2), of i] assms(4,5) sa(3-5) by auto
  obtain s2 where col: "i2c_hal_collect n 0 (?h, s1) = ret (0 + n) (?h\<lparr>ih_rxQueue := ih_rxQueue ?h @
        fst (read_all (dv_onRead sim_i2c_class) n (i2c_devs s1 i))\<rparr>, s2)"
    and h2: "i2c_holds i (i2c_of s2)"
    and d2: "i2c_devs s2 = (i2c_devs s1)(i := snd (read_all (dv_onRead sim_i2c_class) n (i2c_devs s1 i)))"
    using i2c_hal_collect_reads [OF h1, of n 0 ?h] by (elim exE conjE)
  let ?h2 = "h\<lparr>ih_rxQueue := fst ?r\<rparr>" and ?s3 = "snd (via_i2c (plainly (i2c_stop sim_i2c_class)) s2)"
  have req: "i2c_hal_requestFrom a n (h, s) = ret n (?h2, ?s3)"
    using assms(3) st col d1 by (simp add: i2c_hal_requestFrom_def)
  have stop: "i2c_devs ?s3 = (i2c_devs s)(i := snd ?r)" "\<not> i_busy (i2c0 ?s3)"
    using h2 d2 d1
    by (simp_all add: via_i2c_def plainly_def i2c_stop_def i2c_holds_def Let_def sim_i2c_class_def
        sim_i2c_onStop_def)
  have queue: "si_responseQueue (snd ?r) = drop n (si_responseQueue (i2c_devs s i))"
    by (rule sim_i2c.read_all_queue)
  have len: "length (fst ?r) = n" by (simp add: sim_i2c.read_all_gives)
  have rd: "i2c_hal_readByte (?h2, ?s3) = ret (hd (fst ?r)) (?h2\<lparr>ih_rxQueue := tl (fst ?r)\<rparr>, ?s3)" if "0 < n"
    using that len by (cases "fst ?r") (auto simp: i2c_hal_readByte_def)
  show ?thesis
    using req stop queue rd by (intro exI [of _ ?h2] exI [of _ ?s3]) (simp add: sim_i2c.read_all_gives)
qed

text \<open>The machine with the controller and the two slaves of \<open>demo_i2c\<close>.\<close>

definition demo_hal :: bus_st where
  "demo_hal = demo_machine\<lparr>reg_objs := reg_objs (snd (snd demo_i2c)), i2c0 := fst demo_i2c, i2c_devs := demo_eeprom\<rparr>"

lemma demo_hal_ok:
  "i2c_inv (i2c_of demo_hal)" "i2c_enabled (i2c0 demo_hal) demo_hal"
  "find (\<lambda>i. si_address (i2c_devs demo_hal i) = 0x50 AND 0x7F) (i_devices (i2c0 demo_hal)) = Some 1"
  "i2c_devs demo_hal = demo_eeprom"
proof -
  obtain c ds s0 where demo: "demo_i2c = (c, ds, s0)" by (cases demo_i2c)
  have same: "reg_objs demo_hal = reg_objs s0" "i2c0 demo_hal = c"
    by (simp_all add: demo_hal_def demo)
  show d: "i2c_devs demo_hal = demo_eeprom" by (simp add: demo_hal_def)
  show "i2c_inv (i2c_of demo_hal)"
    using demo_i2c_ok(1) by (simp add: demo i2c_inv_def i2c_wf_def i2c_enabled_def reg_get_def same)
  show "i2c_enabled (i2c0 demo_hal) demo_hal"
    using demo_i2c_ok(2) by (simp add: demo i2c_enabled_def reg_get_def same)
  have "i_devices (fst demo_i2c) = [0, 1]" by code_simp
  then have "i_devices c = [0, 1]" by (simp add: demo)
  then show "find (\<lambda>i. si_address (i2c_devs demo_hal i) = 0x50 AND 0x7F) (i_devices (i2c0 demo_hal)) = Some 1"
    by (simp add: d same demo_eeprom_def sim_i2c_queueResponseByte_def sim_i2c_init_def)
qed

theorem i2c_hal_request_witness:
  "\<exists>h' s'. i2c_hal_requestFrom 0x50 3 (\<lparr>ih_controller = True, ih_rxQueue = [9]\<rparr>, demo_hal) = ret 3 (h', s') \<and>
     ih_rxQueue h' = [0xAA, 0xBB, 7]"
proof -
  have "si_ackEnabled (i2c_devs demo_hal 1)"
    by (simp add: demo_hal_ok demo_eeprom_def sim_i2c_queueResponseByte_def sim_i2c_init_def)
  from i2c_hal_request [OF demo_hal_ok(1,2) _ demo_hal_ok(3) this, of "\<lparr>ih_controller = True, ih_rxQueue = [9]\<rparr>" 3]
  obtain h' s' where "i2c_hal_requestFrom 0x50 3 (\<lparr>ih_controller = True, ih_rxQueue = [9]\<rparr>, demo_hal) = ret 3 (h', s')"
    and "ih_rxQueue h' = take 3 (si_responseQueue (i2c_devs demo_hal 1)) @
      replicate (3 - length (si_responseQueue (i2c_devs demo_hal 1))) (si_defaultResponse (i2c_devs demo_hal 1))"
    by auto
  moreover from this(2) have "ih_rxQueue h' = [0xAA, 0xBB, 7]"
    by (simp add: demo_hal_ok demo_eeprom_def sim_i2c_queueResponseByte_def sim_i2c_init_def)
  ultimately show ?thesis by blast
qed

end
