(* ===== verification/Firmware_Manager.thy ===== *)
theory Firmware_Manager
  imports Prelude "HOL-Library.List_Lexorder" "HOL-Library.Char_ord"
begin

text \<open>
  Firmware applications (\<^verbatim>\<open>firmware/firmware.hpp\<close>) and their manager (\<^verbatim>\<open>firmware/firmware_manager.hpp\<close>).
  An application is an object with a number; its four virtual functions are a record of functions on the
  state of the machine. The contract of an application is a locale, and what the manager guarantees of
  applications that meet it is proved there.
\<close>

section \<open>Applications\<close>

record 's fw_class =
  fw_initialize :: "nat \<Rightarrow> 's \<Rightarrow> (unit, 's) outcome"
  fw_update :: "nat \<Rightarrow> 's \<Rightarrow> (unit, 's) outcome"
  fw_shutdown :: "nat \<Rightarrow> 's \<Rightarrow> (unit, 's) outcome"
  fw_reset :: "nat \<Rightarrow> 's \<Rightarrow> (unit, 's) outcome"

text \<open>\<^verbatim>\<open>Firmware::execute\<close> forwards to \<^verbatim>\<open>update\<close>.\<close>

definition fw_execute :: "'s fw_class \<Rightarrow> nat \<Rightarrow> 's \<Rightarrow> (unit, 's) outcome" where
  "fw_execute cls = fw_update cls"

section \<open>The manager\<close>

text \<open>The registry is an ordered map from names to applications.\<close>

record fw_manager =
  fm_registry :: "(string \<times> nat) list"
  fm_activeName :: string

type_synonym 's on_fm = "fw_manager \<times> 's"

definition fm_init :: fw_manager where
  "fm_init = \<lparr>fm_registry = [], fm_activeName = []\<rparr>"

fun reg_insert :: "string \<Rightarrow> nat \<Rightarrow> (string \<times> nat) list \<Rightarrow> (string \<times> nat) list" where
  "reg_insert n f [] = [(n, f)]"
| "reg_insert n f ((m, g) # rest) =
     (if n < m then (n, f) # (m, g) # rest else if n = m then (n, f) # rest else (m, g) # reg_insert n f rest)"

definition fm_hasFirmware :: "string \<Rightarrow> fw_manager \<Rightarrow> bool" where
  "fm_hasFirmware n fm \<longleftrightarrow> map_of (fm_registry fm) n \<noteq> None"

definition fm_activeFirmware :: "fw_manager \<Rightarrow> nat option" where
  "fm_activeFirmware fm = map_of (fm_registry fm) (fm_activeName fm)"

definition fm_count :: "fw_manager \<Rightarrow> nat" where
  "fm_count fm = length (fm_registry fm)"

definition fm_registeredNames :: "fw_manager \<Rightarrow> string list" where
  "fm_registeredNames fm = map fst (fm_registry fm)"

definition fm_registerFirmware :: "string \<Rightarrow> nat option \<Rightarrow> fw_manager \<Rightarrow> bool \<times> fw_manager" where
  "fm_registerFirmware n fw fm =
     (case fw of
        None \<Rightarrow> (False, fm)
      | Some f \<Rightarrow>
          if n = [] then (False, fm)
          else if map_of (fm_registry fm) n \<noteq> None then (False, fm)
          else let fm = fm\<lparr>fm_registry := reg_insert n f (fm_registry fm)\<rparr>;
                   fm = (if fm_activeName fm = [] then fm\<lparr>fm_activeName := n\<rparr> else fm)
               in (True, fm))"

text \<open>A call of a virtual function of the active application, if there is one.\<close>

definition fm_call :: "(nat \<Rightarrow> 's \<Rightarrow> (unit, 's) outcome) \<Rightarrow> 's on_fm \<Rightarrow> (unit, 's on_fm) outcome" where
  "fm_call op = (\<lambda>(fm, s).
     case fm_activeFirmware fm of
       None \<Rightarrow> ret () (fm, s)
     | Some f \<Rightarrow> (case op f s of (r, s) \<Rightarrow> (r, (fm, s))))"

definition fm_initialize :: "'s fw_class \<Rightarrow> 's on_fm \<Rightarrow> (unit, 's on_fm) outcome" where
  "fm_initialize cls = fm_call (fw_initialize cls)"

definition fm_update :: "'s fw_class \<Rightarrow> 's on_fm \<Rightarrow> (unit, 's on_fm) outcome" where
  "fm_update cls = fm_call (fw_update cls)"

definition fm_shutdown :: "'s fw_class \<Rightarrow> 's on_fm \<Rightarrow> (unit, 's on_fm) outcome" where
  "fm_shutdown cls = fm_call (fw_shutdown cls)"

definition fm_reset :: "'s fw_class \<Rightarrow> 's on_fm \<Rightarrow> (unit, 's on_fm) outcome" where
  "fm_reset cls = fm_call (fw_reset cls)"

definition fm_destroy :: "'s fw_class \<Rightarrow> 's on_fm \<Rightarrow> (unit, 's on_fm) outcome" where
  "fm_destroy cls = fm_shutdown cls"

definition fm_unregisterFirmware :: "'s fw_class \<Rightarrow> string \<Rightarrow> 's on_fm \<Rightarrow> (bool, 's on_fm) outcome" where
  "fm_unregisterFirmware cls n = (\<lambda>(fm, s).
     case map_of (fm_registry fm) n of
       None \<Rightarrow> ret False (fm, s)
     | Some f \<Rightarrow>
         and_then (if fm_activeName fm = n
                   then (case fw_shutdown cls f s of
                           (Inl e, s) \<Rightarrow> throw e (fm, s)
                         | (Inr _, s) \<Rightarrow> ret () (fm\<lparr>fm_activeName := []\<rparr>, s))
                   else ret () (fm, s)) (\<lambda>_ (fm, s).
           let fm = fm\<lparr>fm_registry := filter (\<lambda>x. fst x \<noteq> n) (fm_registry fm)\<rparr>;
               fm = (if fm_activeName fm = [] \<and> fm_registry fm \<noteq> []
                     then fm\<lparr>fm_activeName := fst (hd (fm_registry fm))\<rparr> else fm)
           in ret True (fm, s)))"

definition fm_setActiveFirmware :: "'s fw_class \<Rightarrow> string \<Rightarrow> 's on_fm \<Rightarrow> (bool, 's on_fm) outcome" where
  "fm_setActiveFirmware cls n = (\<lambda>(fm, s).
     if map_of (fm_registry fm) n = None then ret False (fm, s)
     else if fm_activeName fm = n then ret True (fm, s)
     else and_then (fm_shutdown cls (fm, s)) (\<lambda>_ (fm, s). ret True (fm\<lparr>fm_activeName := n\<rparr>, s)))"

section \<open>The registry\<close>

definition fm_ok :: "fw_manager \<Rightarrow> bool" where
  "fm_ok fm \<longleftrightarrow>
     sorted_wrt (<) (map fst (fm_registry fm)) \<and> [] \<notin> fst ` set (fm_registry fm) \<and>
     (if fm_registry fm = [] then fm_activeName fm = [] else fm_activeName fm \<in> fst ` set (fm_registry fm))"

lemma reg_insert_keys: "fst ` set (reg_insert n f r) = insert n (fst ` set r)"
  by (induction r rule: reg_insert.induct [of _ n f]) auto

lemma reg_insert_sorted:
  "sorted_wrt (<) (map fst r) \<Longrightarrow> sorted_wrt (<) (map fst (reg_insert n f r))"
proof (induction r)
  case (Cons x r)
  obtain m g where x: "x = (m, g)" by (cases x)
  have keys: "set (map fst (reg_insert n f r)) = insert n (set (map fst r))"
    using reg_insert_keys [of n f r] by simp
  show ?case using Cons keys by (auto simp: x)
qed simp

lemma reg_insert_map: "sorted_wrt (<) (map fst r) \<Longrightarrow> map_of (reg_insert n f r) = (map_of r)(n \<mapsto> f)"
proof (induction r)
  case (Cons x r)
  obtain m g where x: "x = (m, g)" by (cases x)
  show ?case using Cons by (auto simp: x fun_eq_iff)
qed simp

lemma fm_ok_active: "fm_ok fm \<Longrightarrow> fm_registry fm \<noteq> [] \<Longrightarrow> \<exists>f. fm_activeFirmware fm = Some f"
  by (auto simp: fm_ok_def fm_activeFirmware_def map_of_eq_None_iff split: if_splits)
    (metis image_eqI fst_conv map_of_eq_None_iff not_None_eq)

lemma fm_ok_names:
  "fm_ok fm \<longleftrightarrow>
     sorted_wrt (<) (map fst (fm_registry fm)) \<and> [] \<notin> fst ` set (fm_registry fm) \<and>
     (fm_activeName fm \<in> fst ` set (fm_registry fm) \<or> fm_registry fm = [] \<and> fm_activeName fm = [])"
  by (auto simp: fm_ok_def)

lemma fm_ok_active_name: "fm_ok fm \<Longrightarrow> fm_registry fm \<noteq> [] \<Longrightarrow> fm_activeName fm \<noteq> []"
  by (metis fm_ok_names)

lemma fm_ok_init [simp]: "fm_ok fm_init"
  by (simp add: fm_ok_def fm_init_def)

lemma fm_ok_register: "fm_ok fm \<Longrightarrow> fm_ok (snd (fm_registerFirmware n fw fm))"
  by (cases fw) (auto simp: fm_registerFirmware_def Let_def fm_ok_names reg_insert_sorted reg_insert_keys)

lemma fm_ok_erase:
  assumes "fm_ok fm" "a = fm_activeName fm \<or> a = []" "a \<noteq> n"
  shows "fm_ok (let fm = fm\<lparr>fm_activeName := a, fm_registry := filter (\<lambda>x. fst x \<noteq> n) (fm_registry fm)\<rparr>
     in if fm_activeName fm = [] \<and> fm_registry fm \<noteq> [] then fm\<lparr>fm_activeName := fst (hd (fm_registry fm))\<rparr> else fm)"
proof -
  let ?r = "filter (\<lambda>x. fst x \<noteq> n) (fm_registry fm)"
  have "sorted_wrt (<) (map fst ?r)"
    using assms(1) by (auto simp: fm_ok_names sorted_wrt_map intro: sorted_wrt_filter)
  moreover have "[] \<notin> fst ` set ?r" using assms(1) by (auto simp: fm_ok_names)
  moreover have "fst (hd ?r) \<in> fst ` set ?r" if "?r \<noteq> []" using that by (intro imageI hd_in_set)
  moreover have "a \<noteq> [] \<Longrightarrow> a \<in> fst ` set ?r" using assms by (auto simp: fm_ok_names)
  ultimately show ?thesis by (auto simp: fm_ok_names Let_def simp del: filter_empty_conv)
qed

section \<open>Operations in sequence\<close>

datatype fm_op =
  FRegister string "nat option" | FUnregister string | FActivate string |
  FInitialize | FUpdate | FShutdown | FReset

fun fm_apply :: "'s fw_class \<Rightarrow> fm_op \<Rightarrow> 's on_fm \<Rightarrow> 's on_fm" where
  "fm_apply cls (FRegister n fw) (fm, s) = (snd (fm_registerFirmware n fw fm), s)"
| "fm_apply cls (FUnregister n) ms = snd (fm_unregisterFirmware cls n ms)"
| "fm_apply cls (FActivate n) ms = snd (fm_setActiveFirmware cls n ms)"
| "fm_apply cls FInitialize ms = snd (fm_initialize cls ms)"
| "fm_apply cls FUpdate ms = snd (fm_update cls ms)"
| "fm_apply cls FShutdown ms = snd (fm_shutdown cls ms)"
| "fm_apply cls FReset ms = snd (fm_reset cls ms)"

text \<open>An application that runs is the selected one; the registry is in order.\<close>

definition only_active_live :: "(nat \<Rightarrow> 's \<Rightarrow> bool) \<Rightarrow> 's on_fm \<Rightarrow> bool" where
  "only_active_live live = (\<lambda>(fm, s). fm_ok fm \<and> (\<forall>g. live g s \<longrightarrow> fm_activeFirmware fm = Some g))"

lemma fm_active_register:
  assumes "fm_ok fm" "fm_activeFirmware fm = Some g"
  shows "fm_activeFirmware (snd (fm_registerFirmware n fw fm)) = Some g"
proof (cases "snd (fm_registerFirmware n fw fm) = fm")
  case False
  then obtain f where f: "fw = Some f" "map_of (fm_registry fm) n = None"
    by (auto simp: fm_registerFirmware_def split: option.splits if_splits)
  have "fm_registry fm \<noteq> []" using assms(2) by (auto simp: fm_activeFirmware_def)
  with assms(1) have "fm_activeName fm \<noteq> []" by (rule fm_ok_active_name)
  moreover have "fm_activeName fm \<noteq> n" using assms(2) f(2) by (auto simp: fm_activeFirmware_def)
  moreover have "map_of (reg_insert n f (fm_registry fm)) = (map_of (fm_registry fm))(n \<mapsto> f)"
    using assms(1) by (simp add: fm_ok_def reg_insert_map)
  ultimately show ?thesis using assms(2) f False
    by (auto simp: fm_registerFirmware_def Let_def fm_activeFirmware_def)
qed (use assms in simp)

section \<open>What the manager promises of well-behaved applications\<close>

text \<open>
  \<open>live f s\<close>: application \<open>f\<close> is initialized and not shut down. No operation of one application starts
  another, a shutdown or reset that returns stops it, and an application that is not live does nothing on update.
\<close>

locale firmware_app =
  fixes cls :: "'s fw_class" and live :: "nat \<Rightarrow> 's \<Rightarrow> bool"
  assumes initialize_only: "live g (snd (fw_initialize cls f s)) \<Longrightarrow> g \<noteq> f \<Longrightarrow> live g s"
    and update_only: "live g (snd (fw_update cls f s)) \<Longrightarrow> live g s"
    and shutdown_only: "live g (snd (fw_shutdown cls f s)) \<Longrightarrow> live g s"
    and reset_only: "live g (snd (fw_reset cls f s)) \<Longrightarrow> live g s"
    and shutdown_stops: "fw_shutdown cls f s = ret () s' \<Longrightarrow> \<not> live f s'"
    and reset_stops: "fw_reset cls f s = ret () s' \<Longrightarrow> \<not> live f s'"
    and update_idle: "\<not> live f s \<Longrightarrow> fw_update cls f s = ret () s"
begin

lemma call_keeps:
  assumes "only_active_live live (fm, s)"
    and "\<And>f g. fm_activeFirmware fm = Some f \<Longrightarrow> live g (snd (op f s)) \<Longrightarrow> g \<noteq> f \<Longrightarrow> live g s"
  shows "only_active_live live (snd (fm_call op (fm, s)))"
proof (cases "fm_activeFirmware fm")
  case None
  then show ?thesis using assms(1) by (simp add: fm_call_def)
next
  case (Some f)
  then show ?thesis using assms(1) assms(2) [OF Some]
    by (cases "op f s") (auto simp: only_active_live_def fm_call_def)
qed

lemma call_stops:
  assumes "only_active_live live (fm, s)" "fm_call op (fm, s) = ret () (fm', s')"
    and "\<And>f. live g (snd (op f s)) \<Longrightarrow> live g s" "\<And>f t. op f s = ret () t \<Longrightarrow> \<not> live f t"
  shows "fm' = fm \<and> \<not> live g s'"
proof (cases "fm_activeFirmware fm")
  case None
  then show ?thesis using assms(1,2) by (auto simp: only_active_live_def fm_call_def)
next
  case (Some f)
  with assms(2) have step: "op f s = ret () s'" "fm' = fm" by (auto simp: fm_call_def split: prod.splits)
  have "\<not> live g s'"
  proof
    assume "live g s'"
    with step(1) assms(3) [of f] have "live g s" by simp
    with assms(1) Some have "g = f" by (auto simp: only_active_live_def)
    with \<open>live g s'\<close> assms(4) [OF step(1)] show False by simp
  qed
  with step(2) show ?thesis by simp
qed

lemma shutdown_none:
  "only_active_live live (fm, s) \<Longrightarrow> fm_shutdown cls (fm, s) = ret () (fm', s') \<Longrightarrow> fm' = fm \<and> \<not> live g s'"
  unfolding fm_shutdown_def by (rule call_stops) (auto dest: shutdown_only shutdown_stops)

lemma reset_none:
  "only_active_live live (fm, s) \<Longrightarrow> fm_reset cls (fm, s) = ret () (fm', s') \<Longrightarrow> fm' = fm \<and> \<not> live g s'"
  unfolding fm_reset_def by (rule call_stops) (auto dest: reset_only reset_stops)

lemma none_idle: "(\<And>g. \<not> live g s) \<Longrightarrow> fm_update cls (fm, s) = ret () (fm, s)"
  by (auto simp: fm_update_def fm_call_def update_idle split: option.splits)

lemma register_keeps:
  "only_active_live live (fm, s) \<Longrightarrow> only_active_live live (snd (fm_registerFirmware n fw fm), s)"
  using fm_ok_register [of fm] fm_active_register [of fm] by (auto simp: only_active_live_def)

lemma activate_keeps:
  assumes "only_active_live live (fm, s)"
  shows "only_active_live live (snd (fm_setActiveFirmware cls n (fm, s)))"
proof (cases "map_of (fm_registry fm) n = None \<or> fm_activeName fm = n")
  case True
  then show ?thesis using assms by (auto simp: fm_setActiveFirmware_def)
next
  case False
  obtain r fm' s' where step: "fm_shutdown cls (fm, s) = (r, fm', s')" by (metis prod.exhaust)
  have "only_active_live live (fm', s')"
    using call_keeps [OF assms, of "fw_shutdown cls"] shutdown_only step by (simp add: fm_shutdown_def)
  moreover have "only_active_live live (fm'\<lparr>fm_activeName := n\<rparr>, s')" if "r = Inr ()"
    using shutdown_none [OF assms] step that calculation False
    by (fastforce simp: only_active_live_def fm_ok_names map_of_eq_None_iff)
  ultimately show ?thesis using False step by (cases r) (auto simp: fm_setActiveFirmware_def)
qed

lemma unregister_keeps:
  assumes "only_active_live live (fm, s)"
  shows "only_active_live live (snd (fm_unregisterFirmware cls n (fm, s)))"
proof (cases "map_of (fm_registry fm) n")
  case (Some f)
  have ok: "fm_ok fm" using assms by (simp add: only_active_live_def)
  then have n: "n \<noteq> []" using map_of_SomeD [OF Some] by (force simp: fm_ok_names)
  show ?thesis
  proof (cases "fm_activeName fm = n")
    case True
    obtain r s' where step: "fw_shutdown cls f s = (r, s')" by (cases "fw_shutdown cls f s")
    have whole: "fm_shutdown cls (fm, s) = (r, fm, s')"
      using True Some step by (simp add: fm_shutdown_def fm_call_def fm_activeFirmware_def)
    have "only_active_live live (fm, s')"
      using call_keeps [OF assms, of "fw_shutdown cls"] shutdown_only whole by (simp add: fm_shutdown_def)
    moreover have "\<not> live g s'" if "r = Inr ()" for g using shutdown_none [OF assms] whole that by auto
    ultimately show ?thesis
      using Some True step fm_ok_erase [OF ok, of "[]" n] n
      by (cases r) (auto simp: fm_unregisterFirmware_def Let_def only_active_live_def)
  next
    case False
    have "fm_registry fm \<noteq> []" using Some by auto
    with ok have "fm_activeName fm \<noteq> []" by (rule fm_ok_active_name)
    then show ?thesis
      using assms Some False fm_ok_erase [OF ok, of "fm_activeName fm" n]
      by (auto simp: fm_unregisterFirmware_def Let_def only_active_live_def fm_activeFirmware_def map_of_filter_key)
  qed
qed (use assms in \<open>simp add: fm_unregisterFirmware_def\<close>)

lemma apply_keeps: "only_active_live live ms \<Longrightarrow> only_active_live live (fm_apply cls q ms)"
  by (cases ms; cases q)
    (auto simp: register_keeps activate_keeps unregister_keeps fm_initialize_def fm_update_def fm_shutdown_def
      fm_reset_def intro!: call_keeps dest: initialize_only update_only shutdown_only reset_only)

text \<open>After a switch nothing runs, so updates do nothing until the new application is initialized.\<close>

lemma switch_idle:
  assumes "only_active_live live (fm, s)" "fm_setActiveFirmware cls n (fm, s) = ret True (fm', s')"
    "fm_activeName fm \<noteq> n"
  shows "fm_activeName fm' = n \<and> fm_update cls (fm', s') = ret () (fm', s')"
proof -
  from assms(2,3) obtain t where t: "fm_shutdown cls (fm, s) = ret () (t, s')" "fm' = t\<lparr>fm_activeName := n\<rparr>"
    by (auto simp: fm_setActiveFirmware_def and_then_Inr_iff split: if_splits)
  with shutdown_none [OF assms(1) t(1)] show ?thesis by (simp add: none_idle)
qed

end

sublocale firmware_app \<subseteq> manager: stepper "fm_apply cls" "only_active_live live"
  by unfold_locales (rule apply_keeps)

lemma only_active_live_init: "(\<And>g. \<not> live g s) \<Longrightarrow> only_active_live live (fm_init, s)"
  by (simp add: only_active_live_def)

end
