(* ===== verification/Firmware_Apps.thy ===== *)
theory Firmware_Apps
  imports Hal Firmware_Manager
begin

text \<open>
  The three firmware applications of \<^verbatim>\<open>src/firmware\<close> on the hardware abstraction layer: the blinker that
  counts its updates, the blinker that watches a timer, and the serial echo. A basic firmware owns its GPIO
  object, the others refer to the HAL objects of the embedding program.
\<close>

section \<open>Objects\<close>

record basic_fw =
  bf_gpioHAL :: bool
  bf_pin :: u8
  bf_toggleInterval :: u64
  bf_cycleCounter :: u64
  bf_executionCount :: u64
  bf_initialized :: bool
  bf_shutdown :: bool

record blink_fw =
  tb_pin :: u8
  tb_compareValue :: u32
  tb_toggleCount :: u64
  tb_initialized :: bool
  tb_shutdown :: bool

record echo_fw =
  ue_baudRate :: u32
  ue_echoCount :: u64
  ue_initialized :: bool
  ue_shutdown :: bool

type_synonym ('f, 's) on_fw = "'f \<times> 's"

text \<open>A call of the HAL from an application.\<close>

definition hal_call :: "('s \<Rightarrow> ('a, 's) outcome) \<Rightarrow> ('f, 's) on_fw \<Rightarrow> ('a, ('f, 's) on_fw) outcome" where
  "hal_call m = (\<lambda>(f, s). case m s of (r, s) \<Rightarrow> (r, (f, s)))"

section \<open>Basic firmware\<close>

definition basic_init :: "bool \<Rightarrow> u8 \<Rightarrow> u64 \<Rightarrow> basic_fw" where
  "basic_init h pin interval =
     \<lparr>bf_gpioHAL = h, bf_pin = pin, bf_toggleInterval = (if interval = 0 then 1 else interval),
      bf_cycleCounter = 0, bf_executionCount = 0, bf_initialized = False, bf_shutdown = False\<rparr>"

definition basic_initialize ::
  "(basic_fw, 'z bus_st_scheme) on_fw \<Rightarrow> (unit, (basic_fw, 'z bus_st_scheme) on_fw) outcome" where
  "basic_initialize = (\<lambda>(f, s).
     let f = f\<lparr>bf_initialized := True, bf_shutdown := False, bf_cycleCounter := 0, bf_executionCount := 0\<rparr>
     in and_then (hal_call (gpio_hal_configureOutput (bf_gpioHAL f) (bf_pin f)) (f, s)) (\<lambda>_.
          hal_call (gpio_hal_write (bf_gpioHAL f) (bf_pin f) False)))"

definition basic_update ::
  "(basic_fw, 'z bus_st_scheme) on_fw \<Rightarrow> (unit, (basic_fw, 'z bus_st_scheme) on_fw) outcome" where
  "basic_update = (\<lambda>(f, s).
     if \<not> bf_initialized f \<or> bf_shutdown f then ret () (f, s)
     else let f = f\<lparr>bf_executionCount := bf_executionCount f + 1\<rparr>;
              f = f\<lparr>bf_cycleCounter := bf_cycleCounter f + 1\<rparr>
          in if bf_cycleCounter f \<ge> bf_toggleInterval f
             then and_then (hal_call (gpio_hal_toggle (bf_gpioHAL f) (bf_pin f)) (f, s)) (\<lambda>_ (f, s).
                    ret () (f\<lparr>bf_cycleCounter := 0\<rparr>, s))
             else ret () (f, s))"

definition basic_shutdown ::
  "(basic_fw, 'z bus_st_scheme) on_fw \<Rightarrow> (unit, (basic_fw, 'z bus_st_scheme) on_fw) outcome" where
  "basic_shutdown = (\<lambda>(f, s).
     if bf_initialized f \<and> \<not> bf_shutdown f
     then and_then (hal_call (gpio_hal_write (bf_gpioHAL f) (bf_pin f) False) (f, s)) (\<lambda>_ (f, s).
            ret () (f\<lparr>bf_shutdown := True\<rparr>, s))
     else ret () (f, s))"

definition basic_reset ::
  "(basic_fw, 'z bus_st_scheme) on_fw \<Rightarrow> (unit, (basic_fw, 'z bus_st_scheme) on_fw) outcome" where
  "basic_reset = (\<lambda>(f, s).
     and_then (if bf_initialized f \<and> \<not> bf_shutdown f
               then hal_call (gpio_hal_write (bf_gpioHAL f) (bf_pin f) False) (f, s) else ret () (f, s)) (\<lambda>_ (f, s).
       ret () (f\<lparr>bf_initialized := False, bf_shutdown := False, bf_cycleCounter := 0, bf_executionCount := 0\<rparr>, s)))"

section \<open>Timer blink firmware\<close>

definition blink_init :: "u8 \<Rightarrow> u32 \<Rightarrow> blink_fw" where
  "blink_init pin cmp =
     \<lparr>tb_pin = pin, tb_compareValue = (if cmp = 0 then 1 else cmp), tb_toggleCount = 0,
      tb_initialized = False, tb_shutdown = False\<rparr>"

text \<open>\<open>gh\<close> and \<open>th\<close> are the HAL objects the firmware refers to.\<close>

definition blink_initialize ::
  "bool \<Rightarrow> nat option \<Rightarrow>
   (blink_fw, 'z bus_st_scheme) on_fw \<Rightarrow> (unit, (blink_fw, 'z bus_st_scheme) on_fw) outcome" where
  "blink_initialize gh th = (\<lambda>(f, s).
     let f = f\<lparr>tb_initialized := True, tb_shutdown := False, tb_toggleCount := 0\<rparr>
     in and_then (hal_call (gpio_hal_configureOutput gh (tb_pin f)) (f, s)) (\<lambda>_ fs.
          and_then (hal_call (gpio_hal_write gh (tb_pin f) False) fs) (\<lambda>_ (f, s).
            let s = timer_hal_stop th s;
                s = timer_hal_reset th s;
                s = timer_hal_setCompare th (tb_compareValue f) s
            in ret () (f, timer_hal_start th s))))"

definition blink_update ::
  "bool \<Rightarrow> nat option \<Rightarrow>
   (blink_fw, 'z bus_st_scheme) on_fw \<Rightarrow> (unit, (blink_fw, 'z bus_st_scheme) on_fw) outcome" where
  "blink_update gh th = (\<lambda>(f, s).
     if \<not> tb_initialized f \<or> tb_shutdown f then ret () (f, s)
     else if timer_hal_hasMatch th s \<or> timer_hal_counter th s \<ge> tb_compareValue f
     then and_then (hal_call (gpio_hal_toggle gh (tb_pin f)) (f, s)) (\<lambda>_ (f, s).
            let f = f\<lparr>tb_toggleCount := tb_toggleCount f + 1\<rparr>;
                s = timer_hal_reset th s
            in ret () (f, timer_hal_start th s))
     else ret () (f, s))"

definition blink_shutdown ::
  "bool \<Rightarrow> nat option \<Rightarrow>
   (blink_fw, 'z bus_st_scheme) on_fw \<Rightarrow> (unit, (blink_fw, 'z bus_st_scheme) on_fw) outcome" where
  "blink_shutdown gh th = (\<lambda>(f, s).
     if tb_initialized f \<and> \<not> tb_shutdown f
     then and_then (hal_call (gpio_hal_write gh (tb_pin f) False) (f, timer_hal_stop th s)) (\<lambda>_ (f, s).
            ret () (f\<lparr>tb_shutdown := True\<rparr>, s))
     else ret () (f, s))"

definition blink_reset ::
  "bool \<Rightarrow> nat option \<Rightarrow>
   (blink_fw, 'z bus_st_scheme) on_fw \<Rightarrow> (unit, (blink_fw, 'z bus_st_scheme) on_fw) outcome" where
  "blink_reset gh th = (\<lambda>(f, s).
     and_then (if tb_initialized f \<and> \<not> tb_shutdown f
               then hal_call (gpio_hal_write gh (tb_pin f) False) (f, timer_hal_stop th s)
               else ret () (f, s)) (\<lambda>_ (f, s).
       ret () (f\<lparr>tb_initialized := False, tb_shutdown := False, tb_toggleCount := 0\<rparr>, s)))"

section \<open>Serial echo firmware\<close>

definition echo_init :: "u32 \<Rightarrow> echo_fw" where
  "echo_init baud = \<lparr>ue_baudRate = baud, ue_echoCount = 0, ue_initialized = False, ue_shutdown = False\<rparr>"

definition echo_initialize ::
  "bool \<Rightarrow> (echo_fw, 'z bus_st_scheme) on_fw \<Rightarrow> (unit, (echo_fw, 'z bus_st_scheme) on_fw) outcome" where
  "echo_initialize uh = (\<lambda>(f, s).
     let f = f\<lparr>ue_initialized := True, ue_shutdown := False, ue_echoCount := 0\<rparr>
     in and_then (hal_call (uart_hal_setBaudRate uh (ue_baudRate f)) (f, s)) (\<lambda>_. hal_call (uart_hal_enable uh)))"

text \<open>The echo loop ends because every round takes a byte from the receive queue.\<close>

abbreviation rx_length :: "'z bus_st_scheme \<Rightarrow> nat" where
  "rx_length s \<equiv> length (u_rxFifo (uart0 s))"

lemma hal_readByte_rx:
  "uart_hal_readByte uh s = ret b s' \<Longrightarrow> uart_hal_hasData uh s \<Longrightarrow> Suc (rx_length s') = rx_length s"
  by (cases "u_rxFifo (uart0 s)")
    (auto simp: uart_hal_readByte_def uart_hal_hasData_def via_uart_def uart_readByte_def uart_hasReceivedData_def
      Let_def split: if_splits)

lemma hal_writeByte_rx: "uart_hal_writeByte uh b s = ret v s' \<Longrightarrow> rx_length s' = rx_length s"
  by (auto simp: uart_hal_writeByte_def via_uart_def uart_writeByte_def Let_def split: if_splits)

function echo_loop ::
  "bool \<Rightarrow> (echo_fw, 'z bus_st_scheme) on_fw \<Rightarrow> (unit, (echo_fw, 'z bus_st_scheme) on_fw) outcome" where
  "echo_loop uh (f, s) =
     (if \<not> uart_hal_hasData uh s then ret () (f, s)
      else case uart_hal_readByte uh s of
        (Inl e, s1) \<Rightarrow> throw e (f, s1)
      | (Inr rxByte, s1) \<Rightarrow>
          (case uart_hal_writeByte uh rxByte s1 of
             (Inl e, s2) \<Rightarrow> throw e (f, s2)
           | (Inr _, s2) \<Rightarrow> echo_loop uh (f\<lparr>ue_echoCount := ue_echoCount f + 1\<rparr>, s2)))"
  by pat_completeness auto
termination
  by (relation "measure (\<lambda>(_, _, s). rx_length s)")
    (auto dest!: hal_readByte_rx [OF sym] hal_writeByte_rx [OF sym] prod_eqI)

declare echo_loop.simps [simp del]

definition echo_update ::
  "bool \<Rightarrow> (echo_fw, 'z bus_st_scheme) on_fw \<Rightarrow> (unit, (echo_fw, 'z bus_st_scheme) on_fw) outcome" where
  "echo_update uh = (\<lambda>(f, s).
     if \<not> ue_initialized f \<or> ue_shutdown f then ret () (f, s) else echo_loop uh (f, s))"

definition echo_shutdown ::
  "bool \<Rightarrow> (echo_fw, 'z bus_st_scheme) on_fw \<Rightarrow> (unit, (echo_fw, 'z bus_st_scheme) on_fw) outcome" where
  "echo_shutdown uh = (\<lambda>(f, s).
     if ue_initialized f \<and> \<not> ue_shutdown f
     then and_then (hal_call (uart_hal_disable uh) (f, s)) (\<lambda>_ (f, s). ret () (f\<lparr>ue_shutdown := True\<rparr>, s))
     else ret () (f, s))"

definition echo_reset ::
  "bool \<Rightarrow> (echo_fw, 'z bus_st_scheme) on_fw \<Rightarrow> (unit, (echo_fw, 'z bus_st_scheme) on_fw) outcome" where
  "echo_reset uh = (\<lambda>(f, s).
     and_then (if ue_initialized f \<and> \<not> ue_shutdown f then hal_call (uart_hal_disable uh) (f, s)
               else ret () (f, s)) (\<lambda>_ (f, s).
       ret () (f\<lparr>ue_initialized := False, ue_shutdown := False, ue_echoCount := 0\<rparr>, s)))"

section \<open>The class of applications\<close>

datatype app = Basic basic_fw | TimerBlink blink_fw | UARTEcho echo_fw

record app_world =
  aw_apps :: "nat \<Rightarrow> app"
  aw_gpioHAL :: bool
  aw_timerHAL :: "nat option"
  aw_uartHAL :: bool

type_synonym 's on_apps = "app_world \<times> 's"

definition put_app :: "nat \<Rightarrow> app \<Rightarrow> app_world \<Rightarrow> app_world" where
  "put_app i a w = w\<lparr>aw_apps := (aw_apps w)(i := a)\<rparr>"

definition via_app ::
  "nat \<Rightarrow> ('f \<Rightarrow> app) \<Rightarrow> (unit, ('f, 's) on_fw) outcome \<Rightarrow> app_world \<Rightarrow> (unit, 's on_apps) outcome" where
  "via_app i C m w = (case m of (r, (f, s)) \<Rightarrow> (r, (put_app i (C f) w, s)))"

definition app_initialize :: "nat \<Rightarrow> 'z bus_st_scheme on_apps \<Rightarrow> (unit, 'z bus_st_scheme on_apps) outcome" where
  "app_initialize i = (\<lambda>(w, s). case aw_apps w i of
     Basic f \<Rightarrow> via_app i Basic (basic_initialize (f, s)) w
   | TimerBlink f \<Rightarrow> via_app i TimerBlink (blink_initialize (aw_gpioHAL w) (aw_timerHAL w) (f, s)) w
   | UARTEcho f \<Rightarrow> via_app i UARTEcho (echo_initialize (aw_uartHAL w) (f, s)) w)"

definition app_update :: "nat \<Rightarrow> 'z bus_st_scheme on_apps \<Rightarrow> (unit, 'z bus_st_scheme on_apps) outcome" where
  "app_update i = (\<lambda>(w, s). case aw_apps w i of
     Basic f \<Rightarrow> via_app i Basic (basic_update (f, s)) w
   | TimerBlink f \<Rightarrow> via_app i TimerBlink (blink_update (aw_gpioHAL w) (aw_timerHAL w) (f, s)) w
   | UARTEcho f \<Rightarrow> via_app i UARTEcho (echo_update (aw_uartHAL w) (f, s)) w)"

definition app_shutdown :: "nat \<Rightarrow> 'z bus_st_scheme on_apps \<Rightarrow> (unit, 'z bus_st_scheme on_apps) outcome" where
  "app_shutdown i = (\<lambda>(w, s). case aw_apps w i of
     Basic f \<Rightarrow> via_app i Basic (basic_shutdown (f, s)) w
   | TimerBlink f \<Rightarrow> via_app i TimerBlink (blink_shutdown (aw_gpioHAL w) (aw_timerHAL w) (f, s)) w
   | UARTEcho f \<Rightarrow> via_app i UARTEcho (echo_shutdown (aw_uartHAL w) (f, s)) w)"

definition app_reset :: "nat \<Rightarrow> 'z bus_st_scheme on_apps \<Rightarrow> (unit, 'z bus_st_scheme on_apps) outcome" where
  "app_reset i = (\<lambda>(w, s). case aw_apps w i of
     Basic f \<Rightarrow> via_app i Basic (basic_reset (f, s)) w
   | TimerBlink f \<Rightarrow> via_app i TimerBlink (blink_reset (aw_gpioHAL w) (aw_timerHAL w) (f, s)) w
   | UARTEcho f \<Rightarrow> via_app i UARTEcho (echo_reset (aw_uartHAL w) (f, s)) w)"

definition app_class :: "'z bus_st_scheme on_apps fw_class" where
  "app_class = \<lparr>fw_initialize = app_initialize, fw_update = app_update, fw_shutdown = app_shutdown,
     fw_reset = app_reset\<rparr>"

section \<open>An application runs only when it is initialized and not shut down\<close>

fun app_on :: "app \<Rightarrow> bool" where
  "app_on (Basic f) \<longleftrightarrow> bf_initialized f \<and> \<not> bf_shutdown f"
| "app_on (TimerBlink f) \<longleftrightarrow> tb_initialized f \<and> \<not> tb_shutdown f"
| "app_on (UARTEcho f) \<longleftrightarrow> ue_initialized f \<and> \<not> ue_shutdown f"

definition app_live :: "nat \<Rightarrow> 's on_apps \<Rightarrow> bool" where
  "app_live i = (\<lambda>(w, s). app_on (aw_apps w i))"

lemma app_live_via [simp]:
  "app_live g (snd (via_app i C m w)) = (if g = i then app_on (C (fst (snd m))) else app_on (aw_apps w g))"
  by (auto simp: app_live_def via_app_def put_app_def split: prod.splits)

lemma via_app_ret: "via_app i C m w = ret v (w', s') \<longleftrightarrow> (\<exists>f. m = ret v (f, s') \<and> w' = put_app i (C f) w)"
  by (auto simp: via_app_def split: prod.splits)

lemma hal_call_object [simp]: "fst (snd (hal_call m (f, s))) = f"
  by (simp add: hal_call_def split: prod.splits)

text \<open>The object of a call passes through.\<close>

lemma hal_call_then:
  "fst (snd (and_then (hal_call m (f, s)) k)) =
     (case m s of (Inl e, s) \<Rightarrow> f | (Inr v, s) \<Rightarrow> fst (snd (k v (f, s))))"
  by (simp add: hal_call_def and_then_def split: prod.splits sum.splits)

lemma echo_loop_object:
  "ue_initialized (fst (snd (echo_loop uh fs))) = ue_initialized (fst fs) \<and>
   ue_shutdown (fst (snd (echo_loop uh fs))) = ue_shutdown (fst fs)"
proof (induction uh fs rule: echo_loop.induct)
  case (1 uh f s)
  then show ?case
    by (auto simp: echo_loop.simps [of uh f s] split: prod.splits sum.splits)
qed

lemmas basic_defs = basic_initialize_def basic_update_def basic_shutdown_def basic_reset_def
lemmas blink_defs = blink_initialize_def blink_update_def blink_shutdown_def blink_reset_def
lemmas echo_defs = echo_initialize_def echo_update_def echo_shutdown_def echo_reset_def

lemma basic_live:
  "app_on (Basic (fst (snd (basic_update (f, s))))) \<longleftrightarrow> app_on (Basic f)"
  "app_on (Basic (fst (snd (basic_shutdown (f, s))))) \<Longrightarrow> app_on (Basic f)"
  "app_on (Basic (fst (snd (basic_reset (f, s))))) \<Longrightarrow> app_on (Basic f)"
  by (auto simp: basic_defs Let_def hal_call_then split: prod.splits sum.splits if_splits)

lemma blink_live:
  "app_on (TimerBlink (fst (snd (blink_update gh th (f, s))))) \<longleftrightarrow> app_on (TimerBlink f)"
  "app_on (TimerBlink (fst (snd (blink_shutdown gh th (f, s))))) \<Longrightarrow> app_on (TimerBlink f)"
  "app_on (TimerBlink (fst (snd (blink_reset gh th (f, s))))) \<Longrightarrow> app_on (TimerBlink f)"
  by (auto simp: blink_defs Let_def hal_call_then split: prod.splits sum.splits if_splits)

lemma echo_live:
  "app_on (UARTEcho (fst (snd (echo_update uh (f, s))))) \<longleftrightarrow> app_on (UARTEcho f)"
  "app_on (UARTEcho (fst (snd (echo_shutdown uh (f, s))))) \<Longrightarrow> app_on (UARTEcho f)"
  "app_on (UARTEcho (fst (snd (echo_reset uh (f, s))))) \<Longrightarrow> app_on (UARTEcho f)"
  using echo_loop_object [of uh "(f, s)"]
  by (auto simp: echo_defs Let_def hal_call_then split: prod.splits sum.splits if_splits)

lemma stopped:
  "basic_shutdown fs = ret () (f', s') \<Longrightarrow> \<not> app_on (Basic f')"
  "blink_shutdown gh th gs = ret () (g', s') \<Longrightarrow> \<not> app_on (TimerBlink g')"
  "echo_shutdown uh es = ret () (e', s') \<Longrightarrow> \<not> app_on (UARTEcho e')"
  by (cases fs, auto simp: basic_defs and_then_Inr_iff split: if_splits)
    (cases gs, auto simp: blink_defs and_then_Inr_iff split: if_splits,
     cases es, auto simp: echo_defs and_then_Inr_iff split: if_splits)

lemma put_app_same [simp]: "aw_apps w i = a \<Longrightarrow> put_app i a w = w"
  by (auto simp: put_app_def)

lemma app_live_pair [simp]: "app_live g (w, s) = app_on (aw_apps w g)"
  by (simp add: app_live_def)

interpretation apps: firmware_app app_class app_live
proof
  fix g f :: nat and ws :: "'z bus_st_scheme on_apps"
  obtain w s where ws: "ws = (w, s)" by (cases ws)
  show "app_live g ws" if "app_live g (snd (fw_initialize app_class f ws))" "g \<noteq> f"
    using that by (auto simp: ws app_class_def app_initialize_def split: app.splits)
  show "app_live g ws" if "app_live g (snd (fw_update app_class f ws))"
    using that by (auto simp: ws app_class_def app_update_def basic_live(1) blink_live(1) echo_live(1)
        simp del: app_on.simps split: app.splits if_splits)
  show "app_live g ws" if "app_live g (snd (fw_shutdown app_class f ws))"
    using that by (auto simp: ws app_class_def app_shutdown_def simp del: app_on.simps split: app.splits if_splits
        dest: basic_live(2) blink_live(2) echo_live(2))
  show "app_live g ws" if "app_live g (snd (fw_reset app_class f ws))"
    using that by (auto simp: ws app_class_def app_reset_def simp del: app_on.simps split: app.splits if_splits
        dest: basic_live(3) blink_live(3) echo_live(3))
  show "\<not> app_live f ws'" if "fw_shutdown app_class f ws = ret () ws'" for ws'
    using that by (cases ws') (auto simp: ws app_class_def app_shutdown_def via_app_ret put_app_def
        simp del: app_on.simps split: app.splits dest: stopped)
  show "\<not> app_live f ws'" if "fw_reset app_class f ws = ret () ws'" for ws'
    using that by (cases ws') (auto simp: ws app_class_def app_reset_def via_app_ret put_app_def
        basic_reset_def blink_reset_def echo_reset_def and_then_Inr_iff split: app.splits)
  show "fw_update app_class f ws = ret () ws" if "\<not> app_live f ws"
    using that by (auto simp: ws app_class_def app_update_def via_app_def basic_update_def blink_update_def
        echo_update_def split: app.splits)
qed

lemma manager_reaches:
  assumes "\<And>g. \<not> app_live g ws" and "fold (fm_apply app_class) qs (fm_init, ws) = ms"
  shows "only_active_live app_live ms"
proof -
  have "only_active_live app_live (fm_init, ws)" by (rule only_active_live_init) (rule assms(1))
  from apps.manager.run_keeps [OF this, of qs] show ?thesis by (simp add: assms(2))
qed

text \<open>Two applications on the demonstration machine.\<close>

definition demo_world :: app_world where
  "demo_world = \<lparr>aw_apps = \<lambda>i. if i = 0 then Basic (basic_init True 3 2) else UARTEcho (echo_init 9600),
     aw_gpioHAL = True, aw_timerHAL = Some 0, aw_uartHAL = True\<rparr>"

lemma demo_world_idle: "\<not> app_live g (demo_world, s)"
  by (simp add: demo_world_def basic_init_def echo_init_def)

definition demo_managed :: "bus_st on_apps on_fm" where
  "demo_managed = fold (fm_apply app_class)
     [FRegister ''echo'' (Some 5), FRegister ''blink'' (Some 0), FInitialize] (fm_init, demo_world, demo_machine)"

lemma echo_initialize_ok:
  "ue_baudRate f \<noteq> 0 \<Longrightarrow> \<exists>s'. echo_initialize True (f, s) =
     ret () (f\<lparr>ue_initialized := True, ue_shutdown := False, ue_echoCount := 0\<rparr>, s')"
  by (simp add: echo_initialize_def Let_def hal_call_def uart_hal_setBaudRate_def uart_hal_enable_def via_uart_def
      uart_setBaudRate_def plainly_def uart_enable_def)

lemma demo_managed_is:
  "\<exists>s. demo_managed = (\<lparr>fm_registry = [(''blink'', 0), (''echo'', 5)], fm_activeName = ''echo''\<rparr>,
     put_app 5 (UARTEcho \<lparr>ue_baudRate = 9600, ue_echoCount = 0, ue_initialized = True, ue_shutdown = False\<rparr>) demo_world, s)"
proof -
  have "''blink'' < ''echo''" by code_simp
  then have reg: "fm_apply app_class (FRegister ''blink'' (Some 0)) (fm_apply app_class (FRegister ''echo'' (Some 5)) (fm_init, ws)) =
      (\<lparr>fm_registry = [(''blink'', 0), (''echo'', 5)], fm_activeName = ''echo''\<rparr>, ws)" for ws :: "bus_st on_apps"
    by (simp add: fm_registerFirmware_def fm_init_def)
  have "\<exists>s. echo_initialize True (echo_init 9600, demo_machine) =
      ret () (\<lparr>ue_baudRate = 9600, ue_echoCount = 0, ue_initialized = True, ue_shutdown = False\<rparr>, s)"
    using echo_initialize_ok [of "echo_init 9600" demo_machine] by (simp add: echo_init_def)
  moreover have "demo_managed = snd (fm_initialize app_class
      (\<lparr>fm_registry = [(''blink'', 0), (''echo'', 5)], fm_activeName = ''echo''\<rparr>, demo_world, demo_machine))"
    unfolding demo_managed_def fold_simps reg by simp
  ultimately show ?thesis
    by (auto simp: fm_initialize_def fm_call_def fm_activeFirmware_def app_class_def
        app_initialize_def demo_world_def via_app_def)
qed

section \<open>The echo loop on the queues of the line\<close>

lemma uart_machine [simp]:
  "uart_view (u, s\<lparr>uart0 := u'\<rparr>) = uart_view (u, s)" "uart_wf (u, s\<lparr>uart0 := u'\<rparr>) = uart_wf (u, s)"
  "uart_enabled u (s\<lparr>uart0 := u'\<rparr>) = uart_enabled u s"
  by (simp_all add: uart_view_def uart_wf_def uart_enabled_def uart_baudRate_def reg_get_def)

text \<open>One operation of the UART on the machine.\<close>

lemma uart_on_machine:
  assumes "uart_wf (uart0 s, s)" and "f (uart0 s, s) = (r, us)"
    and "uart_apply q (uart0 s, s) = (r', us)"
  shows "\<exists>s'. via_uart f s = (r, s') \<and> uart_wf (uart0 s', s') \<and>
    uart_view (uart0 s', s') = snd (line_apply q (uart_view (uart0 s, s)))"
proof -
  obtain u t where us: "us = (u, t)" by (cases us)
  have "uart_wf (u, t)" using uart_wf_apply [OF assms(1), of q] assms(3) us by simp
  moreover have "uart_view (u, t) = snd (line_apply q (uart_view (uart0 s, s)))"
    using uart_apply_view [OF assms(1), of q, symmetric] assms(3) us by simp
  ultimately show ?thesis
    using assms(2) us by (intro exI [of _ "t\<lparr>uart0 := u\<rparr>"]) (simp add: via_uart_def)
qed

lemma uart_view_fields:
  "au_on (uart_view (u, s)) = uart_enabled u s" "au_rx (uart_view (u, s)) = u_rxFifo u"
  "au_tx (uart_view (u, s)) = u_txFifo u"
  by (simp_all add: uart_view_def)

lemma echo_round:
  assumes wf: "uart_wf (uart0 s, s)" and on: "uart_enabled (uart0 s) s" and rx: "u_rxFifo (uart0 s) = b # bs"
  shows "\<exists>s1 s2. uart_hal_readByte True s = ret b s1 \<and> uart_hal_writeByte True b s1 = ret () s2 \<and>
    uart_wf (uart0 s2, s2) \<and>
    uart_view (uart0 s2, s2) = (uart_view (uart0 s, s))\<lparr>au_rx := bs, au_tx := u_txFifo (uart0 s) @ [b]\<rparr>"
proof -
  obtain us where rd: "uart_readByte (uart0 s, s) = ret b us"
    using on rx by (simp add: uart_readByte_def Let_def)
  then have "uart_apply URead (uart0 s, s) = ret (Some b) us" by simp
  from uart_on_machine [where f = uart_readByte, OF wf rd this] obtain s1 where s1: "via_uart uart_readByte s = ret b s1"
    and wf1: "uart_wf (uart0 s1, s1)"
    and v1: "uart_view (uart0 s1, s1) = (uart_view (uart0 s, s))\<lparr>au_rx := bs\<rparr>"
    using on rx by (auto simp: uart_view_fields)
  have on1: "uart_enabled (uart0 s1) s1" and tx1: "u_txFifo (uart0 s1) = u_txFifo (uart0 s)"
    using on arg_cong [OF v1, of au_on] arg_cong [OF v1, of au_tx] by (simp_all add: uart_view_fields)
  obtain vs where wr: "uart_writeByte b (uart0 s1, s1) = ret () vs"
    using on1 by (simp add: uart_writeByte_def Let_def)
  then have "uart_apply (UWrite b) (uart0 s1, s1) = ret None vs" by (simp add: nothing_def)
  from uart_on_machine [where f = "uart_writeByte b", OF wf1 wr this] obtain s2 where "via_uart (uart_writeByte b) s1 = ret () s2"
    and "uart_wf (uart0 s2, s2)"
    and "uart_view (uart0 s2, s2) = (uart_view (uart0 s, s))\<lparr>au_rx := bs, au_tx := u_txFifo (uart0 s) @ [b]\<rparr>"
    using on on1 tx1 v1 by (auto simp: uart_view_fields nothing_def)
  then show ?thesis using s1 by (auto simp: uart_hal_readByte_def uart_hal_writeByte_def)
qed

lemma echo_loop_all:
  assumes "uart_wf (uart0 s, s)" "uart_enabled (uart0 s) s"
  shows "\<exists>s'. echo_loop True (f, s) = ret () (f\<lparr>ue_echoCount := ue_echoCount f + of_nat (rx_length s)\<rparr>, s') \<and>
    uart_view (uart0 s', s') =
      (uart_view (uart0 s, s))\<lparr>au_rx := [], au_tx := u_txFifo (uart0 s) @ u_rxFifo (uart0 s)\<rparr>"
  using assms
proof (induction "u_rxFifo (uart0 s)" arbitrary: f s)
  case Nil
  from Nil(1) [symmetric] show ?case
    by (simp add: echo_loop.simps [of True f s] uart_hal_hasData_def uart_hasReceivedData_def uart_view_def)
next
  case (Cons b bs)
  from echo_round [OF Cons(3,4) Cons(2) [symmetric]] obtain s1 s2
    where r: "uart_hal_readByte True s = ret b s1" "uart_hal_writeByte True b s1 = ret () s2"
    and wf: "uart_wf (uart0 s2, s2)"
    and v: "uart_view (uart0 s2, s2) = (uart_view (uart0 s, s))\<lparr>au_rx := bs, au_tx := u_txFifo (uart0 s) @ [b]\<rparr>"
    by (elim exE conjE)
  have f: "bs = u_rxFifo (uart0 s2)" "u_txFifo (uart0 s2) = u_txFifo (uart0 s) @ [b]"
    and on: "uart_enabled (uart0 s2) s2"
    using arg_cong [OF v, of au_rx] arg_cong [OF v, of au_tx] arg_cong [OF v, of au_on] Cons(4)
    by (simp_all add: uart_view_fields)
  have has: "uart_hal_hasData True s" using Cons(2) [symmetric] by (simp add: uart_hal_hasData_def uart_hasReceivedData_def)
  let ?f = "f\<lparr>ue_echoCount := ue_echoCount f + 1\<rparr>"
  from Cons(1) [OF f(1) wf on, of ?f] obtain s'
    where "echo_loop True (?f, s2) = ret () (?f\<lparr>ue_echoCount := ue_echoCount ?f + of_nat (rx_length s2)\<rparr>, s')"
    and "uart_view (uart0 s', s') =
      (uart_view (uart0 s2, s2))\<lparr>au_rx := [], au_tx := u_txFifo (uart0 s2) @ u_rxFifo (uart0 s2)\<rparr>"
    by (elim exE conjE)
  then show ?case
    using r has v f Cons(2) [symmetric]
    by (intro exI [of _ s']) (simp add: echo_loop.simps [of True f s] ac_simps)
qed

section \<open>The blinker on the pins\<close>

fun basic_updates ::
  "nat \<Rightarrow> (basic_fw, 'z bus_st_scheme) on_fw \<Rightarrow> (unit, (basic_fw, 'z bus_st_scheme) on_fw) outcome" where
  "basic_updates 0 fs = ret () fs"
| "basic_updates (Suc n) fs = and_then (basic_update fs) (\<lambda>_. basic_updates n)"

abbreviation pins_of :: "'z bus_st_scheme \<Rightarrow> nat \<Rightarrow> pin" where
  "pins_of s \<equiv> gpio_pins (gpio0 s) s"

text \<open>One operation of the port on the machine.\<close>

lemma gpio_machine:
  assumes "gpio_wf (gpio0 s) s" and "pins_apply q (pins_of s) = ret () P"
  shows "\<exists>s'. gpio_apply (gpio0 s) q s = ret () s' \<and> gpio_wf (gpio0 s') s' \<and> pins_of s' = P"
proof -
  obtain r s' where s': "gpio_apply (gpio0 s) q s = (r, s')" by (cases "gpio_apply (gpio0 s) q s")
  have "gpio0 s' = gpio0 s"
    using s' by (cases q) (auto simp: gpio_op_defs Let_def and_then_def reg_put_def reg_rst_def split: if_splits)
  then show ?thesis
    using gpio_apply_pins [OF assms(1), of q] gpio_wf_apply [OF assms(1), of q] assms(2) s' by auto
qed

lemma drive_drive [simp]: "drive n a (drive n b P) = drive n a P"
  by (simp add: drive_def)

lemma basic_toggle:
  assumes "gpio_wf (gpio0 s) s" "unat pin < 32" "p_output (pins_of s (unat pin))"
  shows "\<exists>s'. gpio_hal_toggle True pin s = ret () s' \<and> gpio_wf (gpio0 s') s' \<and>
    pins_of s' = drive (unat pin) (\<not> p_level (pins_of s (unat pin))) (pins_of s)"
  using gpio_machine [OF assms(1), of "TogglePin pin"] assms(2,3) by (simp add: gpio_hal_toggle_def)

lemma basic_step:
  assumes "bf_gpioHAL f" "bf_initialized f" "\<not> bf_shutdown f"
    and "gpio_wf (gpio0 s) s" "unat (bf_pin f) < 32" "p_output (pins_of s (unat (bf_pin f)))"
    and "unat (bf_cycleCounter f) < unat (bf_toggleInterval f)"
  shows "\<exists>s'. basic_update (f, s) = ret ()
      (f\<lparr>bf_executionCount := bf_executionCount f + 1,
         bf_cycleCounter := of_nat (Suc (unat (bf_cycleCounter f)) mod unat (bf_toggleInterval f))\<rparr>, s') \<and>
    gpio_wf (gpio0 s') s' \<and>
    pins_of s' = (if Suc (unat (bf_cycleCounter f)) < unat (bf_toggleInterval f) then pins_of s
      else drive (unat (bf_pin f)) (\<not> p_level (pins_of s (unat (bf_pin f)))) (pins_of s))"
proof -
  have "bf_cycleCounter f \<noteq> - 1"
    using assms(7) unat_u64_bound [of "bf_toggleInterval f"] by (auto simp: unat_minus_one_u64)
  then have up: "unat (bf_cycleCounter f + 1) = Suc (unat (bf_cycleCounter f))" by (rule unat_plus_one)
  show ?thesis
  proof (cases "Suc (unat (bf_cycleCounter f)) < unat (bf_toggleInterval f)")
    case True
    then have "\<not> bf_cycleCounter f + 1 \<ge> bf_toggleInterval f" by (simp add: word_le_nat_alt up)
    then show ?thesis using True assms by (intro exI [of _ s]) (simp add: basic_update_def Let_def up [symmetric])
  next
    case False
    then have last: "bf_cycleCounter f + 1 \<ge> bf_toggleInterval f" "Suc (unat (bf_cycleCounter f)) = unat (bf_toggleInterval f)"
      using assms(7) by (simp_all add: word_le_nat_alt up)
    from basic_toggle [OF assms(4-6)] obtain s' where "gpio_hal_toggle True (bf_pin f) s = ret () s'"
      "gpio_wf (gpio0 s') s'"
      "pins_of s' = drive (unat (bf_pin f)) (\<not> p_level (pins_of s (unat (bf_pin f)))) (pins_of s)" by auto
    with last assms show ?thesis
      by (intro exI [of _ s']) (simp add: basic_update_def Let_def hal_call_def)
  qed
qed


lemma basic_updates_pins:
  assumes "bf_gpioHAL f" "bf_initialized f" "\<not> bf_shutdown f"
    and "gpio_wf (gpio0 s) s" "unat (bf_pin f) < 32" "p_output (pins_of s (unat (bf_pin f)))"
    and "unat (bf_cycleCounter f) < unat (bf_toggleInterval f)"
  shows "\<exists>f' s'. basic_updates n (f, s) = ret () (f', s') \<and>
    bf_executionCount f' = bf_executionCount f + of_nat n \<and>
    pins_of s' =
      (let k = (unat (bf_cycleCounter f) + n) div unat (bf_toggleInterval f)
       in if k = 0 then pins_of s
          else drive (unat (bf_pin f)) (p_level (pins_of s (unat (bf_pin f))) \<noteq> odd k) (pins_of s))"
  using assms
proof (induction n arbitrary: f s)
  case 0
  then show ?case by simp
next
  case (Suc n)
  let ?c = "unat (bf_cycleCounter f)" and ?i = "unat (bf_toggleInterval f)" and ?p = "unat (bf_pin f)"
  let ?f1 = "f\<lparr>bf_executionCount := bf_executionCount f + 1, bf_cycleCounter := of_nat (Suc ?c mod ?i)\<rparr>"
  from basic_step [OF Suc.prems] obtain s1 where step: "basic_update (f, s) = ret () (?f1, s1)"
    and wf: "gpio_wf (gpio0 s1) s1"
    and p1: "pins_of s1 = (if Suc ?c < ?i then pins_of s else drive ?p (\<not> p_level (pins_of s ?p)) (pins_of s))"
    by (elim exE conjE)
  have i: "0 < ?i" "Suc ?c mod ?i < ?i" "Suc ?c mod ?i < 2 ^ 64"
    using Suc.prems(7) order_less_trans [OF mod_less_divisor unat_u64_bound] by auto
  then have c1: "unat (bf_cycleCounter ?f1) = Suc ?c mod ?i" by (simp add: unat_of_nat_u64)
  have out: "p_output (pins_of s1 ?p)" using p1 Suc.prems(6) by (simp add: drive_def)
  obtain f' s' where rest: "basic_updates n (?f1, s1) = ret () (f', s')"
    "bf_executionCount f' = bf_executionCount ?f1 + of_nat n"
    and p2: "pins_of s' =
      (let k = (unat (bf_cycleCounter ?f1) + n) div unat (bf_toggleInterval ?f1)
       in if k = 0 then pins_of s1
          else drive (unat (bf_pin ?f1)) (p_level (pins_of s1 (unat (bf_pin ?f1))) \<noteq> odd k) (pins_of s1))"
    using Suc.IH [of ?f1 s1] Suc.prems wf out i(2) c1 by (auto simp del: of_nat_Suc)
  have "pins_of s' = (let k = (?c + Suc n) div ?i
       in if k = 0 then pins_of s else drive ?p (p_level (pins_of s ?p) \<noteq> odd k) (pins_of s))"
  proof (cases "Suc ?c < ?i")
    case True
    then show ?thesis using p2 p1 c1 by (simp add: Let_def)
  next
    case False
    then have "Suc ?c = ?i" using Suc.prems(7) by simp
    then have "(?c + Suc n) div ?i = Suc (n div ?i)" "Suc ?c mod ?i = 0"
      using i(1) by (metis Suc_eq_plus1 add.commute add_Suc_right div_add_self1 neq0_conv, simp)
    then show ?thesis using p2 p1 c1 False by (simp add: Let_def drive_def)
  qed
  then show ?case using step rest by (intro exI [of _ f'] exI [of _ s']) (simp add: ac_simps)
qed

section \<open>Properties\<close>

text \<open>
  C13. Only the selected application runs. From an empty manager and applications none of which is live,
  after every sequence of manager operations, exceptions included, the names are in strict order,
  some application is selected exactly when one is registered, and an application that is initialized
  and not shut down is the selected one.
\<close>

theorem fm_only_active_runs:
  assumes "\<And>g. \<not> app_live g ws" and "fold (fm_apply app_class) qs (fm_init, ws) = (fm, ws')"
  shows "sorted_wrt (<) (fm_registeredNames fm) \<and> (fm_activeFirmware fm = None \<longleftrightarrow> fm_count fm = 0) \<and>
    (\<forall>g. app_live g ws' \<longrightarrow> fm_activeFirmware fm = Some g)"
proof -
  have "only_active_live app_live (fm, ws')"
    using assms by (rule manager_reaches)
  moreover from this have "fm_activeFirmware fm = None \<longleftrightarrow> fm_registry fm = []"
    using fm_ok_active [of fm] by (cases "fm_registry fm = []") (auto simp: only_active_live_def fm_activeFirmware_def)
  ultimately show ?thesis
    by (simp add: only_active_live_def fm_ok_def fm_registeredNames_def fm_count_def)
qed

theorem fm_only_active_runs_witness:
  "fm_activeFirmware (fst demo_managed) = Some 5 \<and> app_live 5 (snd demo_managed) \<and> \<not> app_live 0 (snd demo_managed)"
proof -
  obtain t where m: "demo_managed = (\<lparr>fm_registry = [(''blink'', 0), (''echo'', 5)], fm_activeName = ''echo''\<rparr>,
     put_app 5 (UARTEcho \<lparr>ue_baudRate = 9600, ue_echoCount = 0, ue_initialized = True, ue_shutdown = False\<rparr>) demo_world, t)"
    using demo_managed_is by blast
  then have "app_live 5 (snd demo_managed)" by (simp add: m put_app_def)
  with fm_only_active_runs [where ws = "(demo_world, demo_machine)" and fm = "fst demo_managed" and ws' = "snd demo_managed",
      OF demo_world_idle, unfolded prod.collapse, OF demo_managed_def [symmetric]]
  have "\<forall>g. app_live g (snd demo_managed) \<longrightarrow> fm_activeFirmware (fst demo_managed) = Some g" by blast
  with \<open>app_live 5 (snd demo_managed)\<close> show ?thesis by (metis option.inject zero_neq_numeral)
qed

text \<open>
  Selecting another application leaves the machine without a running one. In a state the manager
  reaches, a selection of a different name that returns makes that name the active one, and updates
  change nothing from then on until the new application is initialized, which the manager itself
  does not do.
\<close>

lemma fm_switch_idle:
  assumes "\<And>g. \<not> app_live g ws" and "fold (fm_apply app_class) qs (fm_init, ws) = (fm, ws')"
    and "fm_setActiveFirmware app_class n (fm, ws') = ret True ms" and "fm_activeName fm \<noteq> n"
  shows "fm_activeName (fst ms) = n \<and> fold (fm_apply app_class) (replicate k FUpdate) ms = ms"
proof -
  have "only_active_live app_live (fm, ws')"
    using assms(1,2) by (rule manager_reaches)
  from apps.switch_idle [OF this, of n "fst ms" "snd ms"] assms(3,4)
  have "fm_activeName (fst ms) = n" "fm_apply app_class FUpdate ms = ms" by simp_all
  then show ?thesis by (induction k) simp_all
qed

text \<open>
  C17. The echo firmware sends back what was received. An update of a running echo firmware on an enabled
  UART with well-formed registers returns; the bytes of the receive queue stand in order behind what
  waited in the transmit queue, the receive queue is empty, the baud rate and the enable bit are
  unchanged, and the echo counter has advanced by the number of bytes.
\<close>

theorem echo_sends_back:
  assumes "ue_initialized f" "\<not> ue_shutdown f" "uart_wf (uart0 s, s)" "uart_enabled (uart0 s) s"
  shows "\<exists>s'. echo_update True (f, s) =
      ret () (f\<lparr>ue_echoCount := ue_echoCount f + of_nat (uart_rxFifoSize (uart0 s))\<rparr>, s') \<and>
    uart_view (uart0 s', s') =
      (uart_view (uart0 s, s))\<lparr>au_rx := [], au_tx := u_txFifo (uart0 s) @ u_rxFifo (uart0 s)\<rparr>"
  using echo_loop_all [OF assms(3,4), of f] assms(1,2) by (simp add: echo_update_def uart_rxFifoSize_def)

text \<open>The demonstration machine with an enabled UART and two bytes received.\<close>

definition demo_serial :: bus_st where
  "demo_serial = reg_put 42 1 (demo_machine\<lparr>uart0 := (uart0 demo_machine)\<lparr>u_rxFifo := [7, 9]\<rparr>\<rparr>)"

lemma demo_serial_ok:
  "uart_wf (uart0 demo_serial, demo_serial)" "uart_enabled (uart0 demo_serial) demo_serial"
  "uart0 demo_serial = (uart0 demo_machine)\<lparr>u_rxFifo := [7, 9]\<rparr>" "u_txFifo (uart0 demo_machine) = []"
proof -
  have d: "uart_wf (uart0 demo_machine, demo_machine)" "u_controlRegister (uart0 demo_machine) = 42"
    and "u_txFifo (uart0 demo_machine) = []" by code_simp+
  then show "u_txFifo (uart0 demo_machine) = []" by simp
  show u: "uart0 demo_serial = (uart0 demo_machine)\<lparr>u_rxFifo := [7, 9]\<rparr>"
    by (simp add: demo_serial_def reg_put_def)
  show "uart_enabled (uart0 demo_serial) demo_serial"
    by (simp add: u) (simp add: demo_serial_def uart_enabled_def d(2), simp add: test_flag_def)
  show "uart_wf (uart0 demo_serial, demo_serial)"
    using d by (simp add: u uart_wf_def) (simp add: demo_serial_def reg_put_def register_write_def)
qed

theorem echo_sends_back_witness:
  "\<exists>s'. echo_update True ((echo_init 9600)\<lparr>ue_initialized := True\<rparr>, demo_serial) =
      ret () (\<lparr>ue_baudRate = 9600, ue_echoCount = 2, ue_initialized = True, ue_shutdown = False\<rparr>, s') \<and>
    u_txFifo (uart0 s') = [7, 9]"
proof -
  note demo_serial_ok
  with echo_sends_back [of "(echo_init 9600)\<lparr>ue_initialized := True\<rparr>" demo_serial] obtain s' where
    "echo_update True ((echo_init 9600)\<lparr>ue_initialized := True\<rparr>, demo_serial) =
      ret () (\<lparr>ue_baudRate = 9600, ue_echoCount = 2, ue_initialized = True, ue_shutdown = False\<rparr>, s')"
    and v: "uart_view (uart0 s', s') = (uart_view (uart0 demo_serial, demo_serial))\<lparr>au_rx := [], au_tx := [7, 9]\<rparr>"
    by (auto simp: echo_init_def uart_rxFifoSize_def)
  moreover have "u_txFifo (uart0 s') = [7, 9]" using arg_cong [OF v, of au_tx] by (simp add: uart_view_fields)
  ultimately show ?thesis by auto
qed

text \<open>
  The basic firmware blinks. Built on an attached GPIO with well-formed registers for one of the
  thirty-two pins and initialized, after any number \<open>n\<close> of updates it has thrown nothing, has counted
  them, and its pin is an output that is high exactly when the number of complete intervals among the
  updates is odd, an interval of zero counting as one; the other pins are as before.
\<close>

lemma basic_firmware_blinks:
  assumes "gpio_wf (gpio0 s) s" and "unat pin < 32"
  shows "\<exists>f' s'. and_then (basic_initialize (basic_init True pin interval, s)) (\<lambda>_. basic_updates n) = ret () (f', s') \<and>
    bf_executionCount f' = of_nat n \<and>
    (let high = odd (n div max 1 (unat interval))
     in pins_of s' = (pins_of s)(unat pin := \<lparr>p_output = True, p_driven = high, p_level = high\<rparr>))"
proof -
  let ?f = "(basic_init True pin interval)\<lparr>bf_initialized := True, bf_shutdown := False, bf_cycleCounter := 0,
      bf_executionCount := 0\<rparr>"
  have i: "unat (bf_toggleInterval ?f) = max 1 (unat interval)"
    using unat_gt_0 [of interval] by (auto simp: basic_init_def max_def)
  obtain s1 where s1: "gpio_configurePin (gpio0 s) pin Output s = ret () s1" "gpio_wf (gpio0 s1) s1"
    "pins_of s1 = (pins_of s)(unat pin := (pins_of s (unat pin))\<lparr>p_output := True\<rparr>)"
    using gpio_machine [OF assms(1), of "Configure pin Output"] assms(2) by auto
  obtain s2 where s2: "gpio_writePin (gpio0 s1) pin Low s1 = ret () s2" "gpio_wf (gpio0 s2) s2"
    "pins_of s2 = drive (unat pin) False (pins_of s1)"
    using gpio_machine [OF s1(2), of "WritePin pin Low"] assms(2) s1(3) by auto
  have p: "pins_of s2 = (pins_of s)(unat pin := \<lparr>p_output = True, p_driven = False, p_level = False\<rparr>)"
    using s2(3) s1(3) by (cases "pins_of s (unat pin)") (simp add: drive_def)
  have start: "basic_initialize (basic_init True pin interval, s) = ret () (?f, s2)"
    using s1(1) s2(1)
    by (simp add: basic_initialize_def basic_init_def Let_def hal_call_def gpio_hal_configureOutput_def gpio_hal_write_def)
  have "bf_pin ?f = pin" "bf_gpioHAL ?f" by (simp_all add: basic_init_def)
  with basic_updates_pins [of ?f s2 n] s2(2) assms(2) p
  have "\<exists>f' s'. basic_updates n (?f, s2) = ret () (f', s') \<and> bf_executionCount f' = of_nat n \<and>
    pins_of s' = (let k = n div unat (bf_toggleInterval ?f)
       in if k = 0 then pins_of s2 else drive (unat pin) (odd k) (pins_of s2))"
    using i by (simp add: basic_init_def Let_def cong: if_cong)
  then obtain f' s' where "basic_updates n (?f, s2) = ret () (f', s')" "bf_executionCount f' = of_nat n"
    "pins_of s' = (let k = n div unat (bf_toggleInterval ?f)
       in if k = 0 then pins_of s2 else drive (unat pin) (odd k) (pins_of s2))" by (elim exE conjE)
  note run = this(1,2) this(3) [unfolded i]
  show ?thesis using run start p by (intro exI [of _ f'] exI [of _ s']) (auto simp: Let_def drive_def)
qed

end
