(* ===== verification/Rtos.thy ===== *)
theory Rtos
  imports Prelude "HOL-Library.AList"
begin

text \<open>
  The task scheduler of \<^verbatim>\<open>rtos/rtos_scheduler.hpp\<close> and the tasks of \<^verbatim>\<open>rtos/task.hpp\<close>. A task body is
  user code: it is identified by a number, and the argument \<open>prog\<close> gives, for that number and the
  world it runs in, the scheduler calls it makes, in order, and the world it leaves. The scheduler runs
  a body inside \<^verbatim>\<open>schedule\<close>, and a body may call the scheduler again, so \<^verbatim>\<open>schedule\<close> is
  recursive; the model bounds the depth of that recursion by fuel, and \<open>None\<close> means that the depth
  was not enough.
\<close>

section \<open>Tasks\<close>

datatype task_state = READY | RUNNING | BLOCKED | SUSPENDED | TERMINATED

datatype task_fn = IdleLoop | UserTask nat

record tcb =
  tc_id :: u32
  tc_name :: string
  tc_function :: "task_fn option"
  tc_priority :: u8
  tc_state :: task_state
  tc_delayUntilTick :: u64
  tc_stackSize :: u64
  tc_executionCount :: u64

definition task_init :: "u32 \<Rightarrow> string \<Rightarrow> task_fn option \<Rightarrow> u8 \<Rightarrow> u64 \<Rightarrow> tcb" where
  "task_init i name fn prio stack =
     \<lparr>tc_id = i, tc_name = name, tc_function = fn, tc_priority = prio, tc_state = READY,
      tc_delayUntilTick = 0, tc_stackSize = stack, tc_executionCount = 0\<rparr>"

definition task_setState :: "task_state \<Rightarrow> tcb \<Rightarrow> tcb" where
  "task_setState st t = t\<lparr>tc_state := st\<rparr>"

definition task_setDelayUntilTick :: "u64 \<Rightarrow> tcb \<Rightarrow> tcb" where
  "task_setDelayUntilTick k t = t\<lparr>tc_delayUntilTick := k\<rparr>"

definition task_setPriority :: "u8 \<Rightarrow> tcb \<Rightarrow> tcb" where
  "task_setPriority p t = t\<lparr>tc_priority := p\<rparr>"

definition task_incrementExecutionCount :: "tcb \<Rightarrow> tcb" where
  "task_incrementExecutionCount t = t\<lparr>tc_executionCount := tc_executionCount t + 1\<rparr>"

section \<open>The ready queue\<close>

text \<open>
  \<^verbatim>\<open>std::map\<close> from priorities to vectors of tasks, ordered by \<^verbatim>\<open>std::greater\<close>: the larger
  number comes first.
\<close>

type_synonym ready_queue = "(u8 \<times> u32 list) list"

fun rq_add :: "u8 \<Rightarrow> u32 \<Rightarrow> ready_queue \<Rightarrow> ready_queue" where
  "rq_add p i [] = [(p, [i])]"
| "rq_add p i ((q, v) # rest) =
     (if q = p then (q, if i \<in> set v then v else v @ [i]) # rest
      else if p > q then (p, [i]) # (q, v) # rest
      else (q, v) # rq_add p i rest)"

fun rq_remove :: "u8 \<Rightarrow> u32 \<Rightarrow> ready_queue \<Rightarrow> ready_queue" where
  "rq_remove p i [] = []"
| "rq_remove p i ((q, v) # rest) =
     (if q = p then (if remove1 i v = [] then rest else (q, remove1 i v) # rest)
      else (q, v) # rq_remove p i rest)"

definition IDLE_TASK_ID :: u32 where
  "IDLE_TASK_ID = 0"

definition IDLE_TASK_PRIORITY :: u8 where
  "IDLE_TASK_PRIORITY = 0"

fun rq_pick :: "ready_queue \<Rightarrow> u32 \<times> ready_queue" where
  "rq_pick [] = (IDLE_TASK_ID, [])"
| "rq_pick ((q, v) # rest) =
     (case v of
        [] \<Rightarrow> (let (i, rest) = rq_pick rest in (i, (q, v) # rest))
      | i # is \<Rightarrow> (i, (q, is @ [i]) # rest))"

section \<open>The scheduler\<close>

record rtos =
  r_running :: bool
  r_tickCount :: u64
  r_nextTaskId :: u32
  r_currentTaskId :: u32
  r_tasks :: "(u32 \<times> tcb) list"
  r_readyQueue :: ready_queue
  r_delayQueue :: "u32 list"

type_synonym 'w rtos_st = "rtos \<times> 'w"

definition rtos_task :: "u32 \<Rightarrow> rtos \<Rightarrow> tcb option" where
  "rtos_task i r = map_of (r_tasks r) i"

definition rtos_currentTask :: "rtos \<Rightarrow> tcb option" where
  "rtos_currentTask r = rtos_task (r_currentTaskId r) r"

definition rtos_taskCount :: "rtos \<Rightarrow> nat" where
  "rtos_taskCount r = length (r_tasks r)"

definition upd_task :: "u32 \<Rightarrow> (tcb \<Rightarrow> tcb) \<Rightarrow> rtos \<Rightarrow> rtos" where
  "upd_task i f r =
     (case rtos_task i r of None \<Rightarrow> r | Some t \<Rightarrow> r\<lparr>r_tasks := AList.update i (f t) (r_tasks r)\<rparr>)"

definition rtos_addToReadyQueue :: "u32 \<Rightarrow> rtos \<Rightarrow> rtos" where
  "rtos_addToReadyQueue i r =
     (case rtos_task i r of
        None \<Rightarrow> r
      | Some t \<Rightarrow> r\<lparr>r_readyQueue := rq_add (tc_priority t) i (r_readyQueue r)\<rparr>)"

definition rtos_removeFromReadyQueue :: "u32 \<Rightarrow> rtos \<Rightarrow> rtos" where
  "rtos_removeFromReadyQueue i r =
     (case rtos_task i r of
        None \<Rightarrow> r
      | Some t \<Rightarrow> r\<lparr>r_readyQueue := rq_remove (tc_priority t) i (r_readyQueue r)\<rparr>)"

definition rtos_ensureIdleTask :: "rtos \<Rightarrow> rtos" where
  "rtos_ensureIdleTask r =
     (case rtos_task IDLE_TASK_ID r of
        Some _ \<Rightarrow> r
      | None \<Rightarrow>
          rtos_addToReadyQueue IDLE_TASK_ID (r\<lparr>r_tasks := AList.update IDLE_TASK_ID
            (task_init IDLE_TASK_ID ''IdleTask'' (Some IdleLoop) IDLE_TASK_PRIORITY 512) (r_tasks r)\<rparr>))"

definition rtos_init :: rtos where
  "rtos_init = rtos_ensureIdleTask
     \<lparr>r_running = False, r_tickCount = 0, r_nextTaskId = 1, r_currentTaskId = IDLE_TASK_ID,
      r_tasks = [], r_readyQueue = [], r_delayQueue = []\<rparr>"

definition rtos_createTask ::
  "string \<Rightarrow> task_fn option \<Rightarrow> u8 \<Rightarrow> u64 \<Rightarrow> rtos \<Rightarrow> (u32, rtos) outcome" where
  "rtos_createTask name fn prio stack r =
     (if fn = None then throw InvalidArgument r
      else let i = r_nextTaskId r;
               r = r\<lparr>r_nextTaskId := r_nextTaskId r + 1\<rparr>;
               r = r\<lparr>r_tasks := AList.update i (task_init i name fn prio stack) (r_tasks r)\<rparr>
           in ret i (rtos_addToReadyQueue i r))"

definition rtos_start :: "rtos \<Rightarrow> rtos" where
  "rtos_start r = (rtos_ensureIdleTask r)\<lparr>r_running := True\<rparr>"

definition rtos_stop :: "rtos \<Rightarrow> rtos" where
  "rtos_stop r = r\<lparr>r_running := False\<rparr>"

definition rtos_destroy :: "rtos \<Rightarrow> rtos" where
  "rtos_destroy r = (rtos_stop r)\<lparr>r_tasks := [], r_readyQueue := [], r_delayQueue := []\<rparr>"

definition rtos_reset :: "rtos \<Rightarrow> rtos" where
  "rtos_reset r =
     rtos_ensureIdleTask ((rtos_stop r)\<lparr>r_tasks := [], r_readyQueue := [], r_delayQueue := [],
       r_tickCount := 0, r_nextTaskId := 1, r_currentTaskId := IDLE_TASK_ID\<rparr>)"

text \<open>The walk over the delay queue: what stays in it, and the scheduler with the others woken.\<close>

fun rtos_wake :: "u32 list \<Rightarrow> rtos \<Rightarrow> u32 list \<times> rtos" where
  "rtos_wake [] r = ([], r)"
| "rtos_wake (i # is) r =
     (case rtos_task i r of
        None \<Rightarrow> apfst ((#) i) (rtos_wake is r)
      | Some t \<Rightarrow>
          if tc_delayUntilTick t \<le> r_tickCount r
          then rtos_wake is (rtos_addToReadyQueue i (upd_task i (task_setState READY) r))
          else apfst ((#) i) (rtos_wake is r))"

definition rtos_processDelayQueue :: "rtos \<Rightarrow> rtos" where
  "rtos_processDelayQueue r =
     (let (dq, r) = rtos_wake (r_delayQueue r) r in r\<lparr>r_delayQueue := dq\<rparr>)"

definition rtos_tick :: "rtos \<Rightarrow> rtos" where
  "rtos_tick r = rtos_processDelayQueue (r\<lparr>r_tickCount := r_tickCount r + 1\<rparr>)"

definition rtos_pickNextTask :: "rtos \<Rightarrow> u32 \<times> rtos" where
  "rtos_pickNextTask r = (let (i, q) = rq_pick (r_readyQueue r) in (i, r\<lparr>r_readyQueue := q\<rparr>))"

definition rtos_resumeTask :: "u32 \<Rightarrow> rtos \<Rightarrow> bool \<times> rtos" where
  "rtos_resumeTask i r =
     (case rtos_task i r of
        None \<Rightarrow> (False, r)
      | Some t \<Rightarrow>
          if tc_state t = SUSPENDED
          then (True, rtos_addToReadyQueue i (upd_task i (task_setState READY) r))
          else (False, r))"

section \<open>Scheduling\<close>

text \<open>
  The part of \<^verbatim>\<open>schedule\<close> before the chosen task runs: wake the due tasks, choose, and put the
  preempted task back to ready.
\<close>

definition rtos_switch :: "rtos \<Rightarrow> rtos" where
  "rtos_switch r =
     (let r = rtos_processDelayQueue r;
          (nextId, r) = rtos_pickNextTask r;
          r = (if r_currentTaskId r \<noteq> nextId
               then (case rtos_currentTask r of
                       None \<Rightarrow> r
                     | Some t \<Rightarrow> if tc_state t = RUNNING
                                 then upd_task (r_currentTaskId r) (task_setState READY) r else r)
               else r)
      in r\<lparr>r_currentTaskId := nextId\<rparr>)"

text \<open>The parts of the other operations before they call \<^verbatim>\<open>schedule\<close>.\<close>

definition rtos_yield_prepare :: "rtos \<Rightarrow> rtos" where
  "rtos_yield_prepare r =
     (if r_currentTaskId r \<noteq> IDLE_TASK_ID
      then (case rtos_currentTask r of
              None \<Rightarrow> r
            | Some t \<Rightarrow>
                if tc_state t = RUNNING
                then rtos_addToReadyQueue (r_currentTaskId r)
                       (rtos_removeFromReadyQueue (r_currentTaskId r)
                         (upd_task (r_currentTaskId r) (task_setState READY) r))
                else r)
      else r)"

definition rtos_delay_prepare :: "u64 \<Rightarrow> rtos \<Rightarrow> rtos" where
  "rtos_delay_prepare ticks r =
     (case rtos_currentTask r of
        None \<Rightarrow> r
      | Some t \<Rightarrow>
          let i = r_currentTaskId r;
              r = upd_task i (task_setState BLOCKED) r;
              r = upd_task i (task_setDelayUntilTick (r_tickCount r + ticks)) r;
              r = rtos_removeFromReadyQueue i r
          in r\<lparr>r_delayQueue := r_delayQueue r @ [i]\<rparr>)"

definition rtos_suspend_prepare :: "u32 \<Rightarrow> rtos \<Rightarrow> rtos" where
  "rtos_suspend_prepare i r =
     (let r = upd_task i (task_setState SUSPENDED) r;
          r = rtos_removeFromReadyQueue i r
      in r\<lparr>r_delayQueue := remove1 i (r_delayQueue r)\<rparr>)"

definition rtos_delete_prepare :: "u32 \<Rightarrow> rtos \<Rightarrow> rtos" where
  "rtos_delete_prepare i r =
     (let r = rtos_removeFromReadyQueue i r;
          r = r\<lparr>r_delayQueue := remove1 i (r_delayQueue r)\<rparr>
      in r\<lparr>r_tasks := AList.delete i (r_tasks r)\<rparr>)"

text \<open>
  The operations, over the scheduling function they call.
\<close>

type_synonym 'w sched_fn = "'w rtos_st \<Rightarrow> 'w rtos_st option"

definition rtos_yield :: "'w sched_fn \<Rightarrow> 'w sched_fn" where
  "rtos_yield sch = (\<lambda>(r, w).
     if \<not> r_running r then Some (r, w) else sch (rtos_yield_prepare r, w))"

definition rtos_delay :: "'w sched_fn \<Rightarrow> u64 \<Rightarrow> 'w sched_fn" where
  "rtos_delay sch ticks = (\<lambda>(r, w).
     if \<not> r_running r \<or> r_currentTaskId r = IDLE_TASK_ID then Some (r, w)
     else sch (rtos_delay_prepare ticks r, w))"

definition rtos_suspendTask :: "'w sched_fn \<Rightarrow> u32 \<Rightarrow> 'w rtos_st \<Rightarrow> (bool \<times> 'w rtos_st) option" where
  "rtos_suspendTask sch i = (\<lambda>(r, w).
     case rtos_task i r of
       None \<Rightarrow> Some (False, (r, w))
     | Some _ \<Rightarrow>
         let r = rtos_suspend_prepare i r
         in if i = r_currentTaskId r \<and> r_running r
            then map_option (Pair True) (sch (r, w)) else Some (True, (r, w)))"

definition rtos_deleteTask :: "'w sched_fn \<Rightarrow> u32 \<Rightarrow> 'w rtos_st \<Rightarrow> (bool \<times> 'w rtos_st) option" where
  "rtos_deleteTask sch i = (\<lambda>(r, w).
     if i = IDLE_TASK_ID then Some (False, (r, w))
     else case rtos_task i r of
       None \<Rightarrow> Some (False, (r, w))
     | Some _ \<Rightarrow>
         let r = rtos_delete_prepare i r
         in if r_currentTaskId r = i
            then map_option (Pair True) (sch (r\<lparr>r_currentTaskId := IDLE_TASK_ID\<rparr>, w))
            else Some (True, (r, w)))"

text \<open>
  What a task body, or the program around the scheduler, may ask of it. A body does not reset the scheduler, and one
  that deletes its own task, or that of a body around it, ends there: the erased task holds the function that is running.
\<close>

datatype rtos_call =
  Yield | Delay u64 | Suspend u32 | Resume u32 | Delete u32 | Create string nat u8 u64 | StartRtos | StopRtos | TickRtos | Schedule

fun rtos_do :: "'w sched_fn \<Rightarrow> rtos_call \<Rightarrow> 'w sched_fn" where
  "rtos_do sch Yield s = rtos_yield sch s"
| "rtos_do sch (Delay k) s = rtos_delay sch k s"
| "rtos_do sch (Suspend i) s = map_option snd (rtos_suspendTask sch i s)"
| "rtos_do sch (Resume i) s = (case s of (r, w) \<Rightarrow> Some (snd (rtos_resumeTask i r), w))"
| "rtos_do sch (Delete i) s = map_option snd (rtos_deleteTask sch i s)"
| "rtos_do sch (Create name f prio stack) s =
     (case s of (r, w) \<Rightarrow> Some (snd (rtos_createTask name (Some (UserTask f)) prio stack r), w))"
| "rtos_do sch StartRtos s = (case s of (r, w) \<Rightarrow> Some (rtos_start r, w))"
| "rtos_do sch StopRtos s = (case s of (r, w) \<Rightarrow> Some (rtos_stop r, w))"
| "rtos_do sch TickRtos s = (case s of (r, w) \<Rightarrow> Some (rtos_tick r, w))"
| "rtos_do sch Schedule s = sch s"

fun rtos_calls :: "'w sched_fn \<Rightarrow> rtos_call list \<Rightarrow> 'w sched_fn" where
  "rtos_calls sch [] s = Some s"
| "rtos_calls sch (c # cs) s = Option.bind (rtos_do sch c s) (rtos_calls sch cs)"

text \<open>\<^verbatim>\<open>Task::execute\<close> of the current task.\<close>

definition task_execute ::
  "(nat \<Rightarrow> 'w \<Rightarrow> rtos_call list \<times> 'w) \<Rightarrow> 'w sched_fn \<Rightarrow> u32 \<Rightarrow> 'w sched_fn" where
  "task_execute prog sch i = (\<lambda>(r, w).
     case Option.bind (rtos_task i r) tc_function of
       None \<Rightarrow> Some (r, w)
     | Some fn \<Rightarrow>
         let r = upd_task i task_incrementExecutionCount r
         in case fn of
              IdleLoop \<Rightarrow> Some (r, w)
            | UserTask f \<Rightarrow> (case prog f w of (cs, w) \<Rightarrow> rtos_calls sch cs (r, w)))"

text \<open>
  The chosen task exists, by the invariant below: otherwise \<^verbatim>\<open>m_tasks[nextId]\<close> would also make an empty entry.
\<close>

fun rtos_schedule :: "nat \<Rightarrow> (nat \<Rightarrow> 'w \<Rightarrow> rtos_call list \<times> 'w) \<Rightarrow> 'w sched_fn" where
  "rtos_schedule 0 prog s = (if \<not> r_running (fst s) then Some s else None)"
| "rtos_schedule (Suc n) prog s =
     (case s of (r, w) \<Rightarrow>
        if \<not> r_running r then Some (r, w)
        else let r = rtos_switch r
             in case rtos_currentTask r of
                  None \<Rightarrow> Some (r, w)
                | Some t \<Rightarrow>
                    if tc_state t = READY \<or> tc_state t = RUNNING
                    then task_execute prog (rtos_schedule n prog) (r_currentTaskId r)
                           (upd_task (r_currentTaskId r) (task_setState RUNNING) r, w)
                    else Some (r, w))"

section \<open>The ready queue as a family of lists\<close>

definition rq_at :: "ready_queue \<Rightarrow> u8 \<Rightarrow> u32 list" where
  "rq_at q p = (case map_of q p of None \<Rightarrow> [] | Some v \<Rightarrow> v)"

definition rq_ok :: "ready_queue \<Rightarrow> bool" where
  "rq_ok q \<longleftrightarrow> sorted_wrt (\<lambda>a b. fst b < fst a) q \<and> (\<forall>x \<in> set q. snd x \<noteq> [])"

lemma rq_ok_Nil [simp]: "rq_ok []"
  by (simp add: rq_ok_def)

lemma rq_ok_Cons: "rq_ok ((q, v) # rest) \<longleftrightarrow> (\<forall>x \<in> set rest. fst x < q) \<and> v \<noteq> [] \<and> rq_ok rest"
  by (auto simp: rq_ok_def)

lemma rq_at_Nil [simp]: "rq_at [] p = []"
  by (simp add: rq_at_def)

lemma rq_at_Cons: "rq_at ((q, v) # rest) p = (if p = q then v else rq_at rest p)"
  by (simp add: rq_at_def)

lemma rq_at_above: "\<forall>x \<in> set rest. fst x < p \<Longrightarrow> rq_at rest p = []"
  by (induction rest) (auto simp: rq_at_Cons)

lemma set_rq_add: "x \<in> set (rq_add p i q) \<Longrightarrow> fst x = p \<or> (\<exists>y \<in> set q. fst y = fst x)"
  by (induction q rule: rq_add.induct [of _ p i]) (auto split: if_splits)

lemma set_rq_remove: "x \<in> set (rq_remove p i q) \<Longrightarrow> \<exists>y \<in> set q. fst y = fst x"
  by (induction q rule: rq_remove.induct [of _ p i]) (auto split: if_splits)

lemma rq_ok_add: "rq_ok q \<Longrightarrow> rq_ok (rq_add p i q)"
proof (induction q)
  case (Cons x q)
  obtain a v where x: "x = (a, v)" by (cases x)
  show ?case
    using Cons set_rq_add [of _ p i q]
    by (fastforce simp: x rq_ok_Cons intro: less_trans)
qed (simp add: rq_ok_Cons)

lemma rq_ok_remove: "rq_ok q \<Longrightarrow> rq_ok (rq_remove p i q)"
proof (induction q)
  case (Cons x q)
  obtain a v where x: "x = (a, v)" by (cases x)
  show ?case using Cons set_rq_remove [of _ p i q] by (fastforce simp: x rq_ok_Cons)
qed simp

lemma rq_at_add:
  "rq_ok q \<Longrightarrow> rq_at (rq_add p i q) =
     (rq_at q)(p := if i \<in> set (rq_at q p) then rq_at q p else rq_at q p @ [i])"
proof (induction q)
  case (Cons x q)
  obtain a v where x: "x = (a, v)" by (cases x)
  have "rq_at q p = []" if "a < p" using Cons.prems that by (intro rq_at_above) (auto simp: x rq_ok_Cons)
  then show ?case using Cons by (auto simp: x rq_ok_Cons rq_at_Cons fun_eq_iff)
qed (simp add: rq_at_Cons fun_eq_iff)

lemma rq_at_remove:
  "rq_ok q \<Longrightarrow> rq_at (rq_remove p i q) = (rq_at q)(p := remove1 i (rq_at q p))"
proof (induction q)
  case (Cons x q)
  obtain a v where x: "x = (a, v)" by (cases x)
  have "rq_at q a = []" using Cons.prems by (intro rq_at_above) (auto simp: x rq_ok_Cons)
  then show ?case using Cons by (auto simp: x rq_ok_Cons rq_at_Cons fun_eq_iff)
qed (simp add: fun_eq_iff)

text \<open>The pick takes the front of the highest non-empty priority and rotates that list.\<close>

lemma rq_pick_spec:
  assumes "rq_ok q" and "rq_pick q = (i, q')"
  shows "rq_ok q' \<and>
    (q = [] \<and> i = IDLE_TASK_ID \<and> q' = [] \<or>
     (\<exists>p. rq_at q p \<noteq> [] \<and> (\<forall>p'>p. rq_at q p' = []) \<and> i = hd (rq_at q p) \<and>
          rq_at q' = (rq_at q)(p := rotate1 (rq_at q p))))"
proof (cases q)
  case (Cons x rest)
  obtain a v where x: "x = (a, v)" by (cases x)
  obtain j js where v: "v = j # js" using assms(1) Cons x by (cases v) (auto simp: rq_ok_Cons)
  have "rq_at rest p' = []" if "a < p'" for p'
    using assms(1) that by (intro rq_at_above) (auto simp: Cons x rq_ok_Cons intro: less_trans)
  then show ?thesis
    using assms by (auto simp: Cons x v rq_ok_Cons rq_at_Cons fun_eq_iff intro!: exI [of _ a])
qed (use assms in simp)

lemma rq_pick_member: "rq_ok q \<Longrightarrow> rq_pick q = (i, q') \<Longrightarrow> i = IDLE_TASK_ID \<or> (\<exists>p. i \<in> set (rq_at q p))"
  using rq_pick_spec [of q i q'] by (metis list.set_sel(1))

lemma rq_pick_mset:
  assumes "rq_ok q" and "rq_pick q = (i, q')"
  shows "set (rq_at q' p) = set (rq_at q p)" and "distinct (rq_at q' p) = distinct (rq_at q p)"
proof -
  have "rq_at q' p = rq_at q p \<or> rq_at q' p = rotate1 (rq_at q p)"
    using rq_pick_spec [OF assms] by (metis fun_upd_apply rq_at_Nil)
  then show "set (rq_at q' p) = set (rq_at q p)" and "distinct (rq_at q' p) = distinct (rq_at q p)"
    by auto
qed

section \<open>Invariant of the scheduler\<close>

text \<open>
  With delay queue \<open>D\<close>: identifiers are unique and below the next one, the idle task exists and is
  never delayed, a task is in the ready queue of its priority, once, exactly while it is ready or
  running, it is in the delay queue, once, exactly while it is blocked, and only the current task is
  running. So no task is ever lost and none is queued twice.
\<close>

definition rtos_ok :: "u32 list \<Rightarrow> rtos \<Rightarrow> bool" where
  "rtos_ok D r \<longleftrightarrow>
     distinct (map fst (r_tasks r)) \<and> rtos_task IDLE_TASK_ID r \<noteq> None \<and>
     rq_ok (r_readyQueue r) \<and> (\<forall>p. distinct (rq_at (r_readyQueue r) p)) \<and>
     (\<forall>p i. i \<in> set (rq_at (r_readyQueue r) p) \<longleftrightarrow>
        (\<exists>t. rtos_task i r = Some t \<and> tc_priority t = p \<and> (tc_state t = READY \<or> tc_state t = RUNNING))) \<and>
     distinct D \<and> IDLE_TASK_ID \<notin> set D \<and>
     (\<forall>i. i \<in> set D \<longleftrightarrow> (\<exists>t. rtos_task i r = Some t \<and> tc_state t = BLOCKED)) \<and>
     (\<forall>i t. rtos_task i r = Some t \<longrightarrow>
        i < r_nextTaskId r \<and> tc_state t \<noteq> TERMINATED \<and> (tc_state t = RUNNING \<longrightarrow> i = r_currentTaskId r))"

definition rtos_inv :: "rtos \<Rightarrow> bool" where
  "rtos_inv r \<longleftrightarrow> rtos_ok (r_delayQueue r) r"

text \<open>Between operations the current task is not blocked.\<close>

definition rtos_settled :: "rtos \<Rightarrow> bool" where
  "rtos_settled r \<longleftrightarrow> rtos_inv r \<and> r_currentTaskId r \<notin> set (r_delayQueue r)"

lemma upd_task_fields [simp]:
  "r_running (upd_task i f r) = r_running r" "r_tickCount (upd_task i f r) = r_tickCount r"
  "r_nextTaskId (upd_task i f r) = r_nextTaskId r" "r_currentTaskId (upd_task i f r) = r_currentTaskId r"
  "r_readyQueue (upd_task i f r) = r_readyQueue r" "r_delayQueue (upd_task i f r) = r_delayQueue r"
  by (simp_all add: upd_task_def split: option.splits)

lemma upd_task_task [simp]:
  "rtos_task j (upd_task i f r) = (if j = i then map_option f (rtos_task i r) else rtos_task j r)"
  by (simp add: upd_task_def rtos_task_def update_conv' split: option.splits)

lemma upd_task_distinct [simp]:
  "distinct (map fst (r_tasks (upd_task i f r))) = distinct (map fst (r_tasks r))"
proof (cases "rtos_task i r")
  case (Some t)
  then have "i \<in> fst ` set (r_tasks r)"
    by (metis map_of_eq_None_iff option.distinct(1) rtos_task_def)
  then have "map fst (AList.update i (f t) (r_tasks r)) = map fst (r_tasks r)"
    by (simp add: update_keys)
  with Some show ?thesis by (simp add: upd_task_def)
qed (simp add: upd_task_def)

lemma rtos_queue_fields [simp]:
  "r_running (rtos_addToReadyQueue i r) = r_running r" "r_tickCount (rtos_addToReadyQueue i r) = r_tickCount r"
  "r_nextTaskId (rtos_addToReadyQueue i r) = r_nextTaskId r" "r_tasks (rtos_addToReadyQueue i r) = r_tasks r"
  "r_currentTaskId (rtos_addToReadyQueue i r) = r_currentTaskId r"
  "r_delayQueue (rtos_addToReadyQueue i r) = r_delayQueue r"
  "r_running (rtos_removeFromReadyQueue i r) = r_running r"
  "r_tickCount (rtos_removeFromReadyQueue i r) = r_tickCount r"
  "r_nextTaskId (rtos_removeFromReadyQueue i r) = r_nextTaskId r"
  "r_tasks (rtos_removeFromReadyQueue i r) = r_tasks r"
  "r_currentTaskId (rtos_removeFromReadyQueue i r) = r_currentTaskId r"
  "r_delayQueue (rtos_removeFromReadyQueue i r) = r_delayQueue r"
  "rtos_task j (rtos_addToReadyQueue i r) = rtos_task j r"
  "rtos_task j (rtos_removeFromReadyQueue i r) = rtos_task j r"
  by (simp_all add: rtos_addToReadyQueue_def rtos_removeFromReadyQueue_def rtos_task_def split: option.splits)

lemma rtos_task_fields [simp]:
  "rtos_task i (r\<lparr>r_readyQueue := q\<rparr>) = rtos_task i r" "rtos_task i (r\<lparr>r_delayQueue := d\<rparr>) = rtos_task i r"
  "rtos_task i (r\<lparr>r_currentTaskId := c\<rparr>) = rtos_task i r" "rtos_task i (r\<lparr>r_running := b\<rparr>) = rtos_task i r"
  "rtos_task i (r\<lparr>r_tickCount := n\<rparr>) = rtos_task i r" "rtos_task i (r\<lparr>r_nextTaskId := k\<rparr>) = rtos_task i r"
  by (simp_all add: rtos_task_def)

lemma rtos_add_queue:
  "rtos_task i r = Some t \<Longrightarrow> r_readyQueue (rtos_addToReadyQueue i r) = rq_add (tc_priority t) i (r_readyQueue r)"
  by (simp add: rtos_addToReadyQueue_def)

lemma rtos_remove_queue:
  "rtos_task i r = Some t \<Longrightarrow> r_readyQueue (rtos_removeFromReadyQueue i r) = rq_remove (tc_priority t) i (r_readyQueue r)"
  by (simp add: rtos_removeFromReadyQueue_def)

lemma task_set_sel [simp]:
  "tc_state (task_setState st t) = st" "tc_priority (task_setState st t) = tc_priority t"
  "tc_function (task_setState st t) = tc_function t"
  "tc_delayUntilTick (task_setState st t) = tc_delayUntilTick t"
  "tc_state (task_setDelayUntilTick k t) = tc_state t"
  "tc_priority (task_setDelayUntilTick k t) = tc_priority t"
  "tc_delayUntilTick (task_setDelayUntilTick k t) = k"
  "tc_state (task_incrementExecutionCount t) = tc_state t"
  "tc_priority (task_incrementExecutionCount t) = tc_priority t"
  "tc_delayUntilTick (task_incrementExecutionCount t) = tc_delayUntilTick t"
  by (simp_all add: task_setState_def task_setDelayUntilTick_def task_incrementExecutionCount_def)

text \<open>One task changes, and with it its place in the ready queue.\<close>

lemma rtos_ok_change:
  assumes ok: "rtos_ok D r" and t: "rtos_task i r = Some t" and prio: "tc_priority t' = tc_priority t"
    and tasks: "\<And>j. rtos_task j r' = (if j = i then Some t' else rtos_task j r)"
    and keys: "distinct (map fst (r_tasks r'))"
    and fields: "r_nextTaskId r' = r_nextTaskId r" "r_currentTaskId r' = r_currentTaskId r"
    and queue: "rq_ok (r_readyQueue r')" "\<And>p. p \<noteq> tc_priority t \<Longrightarrow> rq_at (r_readyQueue r') p = rq_at (r_readyQueue r) p"
    and here: "distinct (rq_at (r_readyQueue r') (tc_priority t))"
      "set (rq_at (r_readyQueue r') (tc_priority t)) =
         (if tc_state t' = READY \<or> tc_state t' = RUNNING then insert i (set (rq_at (r_readyQueue r) (tc_priority t)))
          else set (rq_at (r_readyQueue r) (tc_priority t)) - {i})"
    and delay: "distinct D'" "IDLE_TASK_ID \<notin> set D'"
      "set D' = (if tc_state t' = BLOCKED then insert i (set D) else set D - {i})"
    and state: "tc_state t' \<noteq> TERMINATED" "tc_state t' = RUNNING \<Longrightarrow> i = r_currentTaskId r"
  shows "rtos_ok D' r'"
proof -
  have member: "j \<in> set (rq_at (r_readyQueue r') p) \<longleftrightarrow>
      (\<exists>u. rtos_task j r' = Some u \<and> tc_priority u = p \<and> (tc_state u = READY \<or> tc_state u = RUNNING))" for p j
  proof -
    have old: "j \<in> set (rq_at (r_readyQueue r) p) \<longleftrightarrow>
        (\<exists>u. rtos_task j r = Some u \<and> tc_priority u = p \<and> (tc_state u = READY \<or> tc_state u = RUNNING))"
      using ok unfolding rtos_ok_def by blast
    show ?thesis
    proof (cases "j = i")
      case True
      then show ?thesis
        using old t prio tasks here(2) queue(2) [of p] by (cases "p = tc_priority t") auto
    next
      case False
      then show ?thesis
        using old tasks here(2) queue(2) [of p] by (cases "p = tc_priority t") auto
    qed
  qed
  have blocked: "j \<in> set D' \<longleftrightarrow> (\<exists>u. rtos_task j r' = Some u \<and> tc_state u = BLOCKED)" for j
  proof -
    have "j \<in> set D \<longleftrightarrow> (\<exists>u. rtos_task j r = Some u \<and> tc_state u = BLOCKED)"
      using ok unfolding rtos_ok_def by blast
    then show ?thesis using tasks delay(3) by (cases "j = i") auto
  qed
  have others: "rtos_task j r' = Some u \<Longrightarrow>
      j < r_nextTaskId r' \<and> tc_state u \<noteq> TERMINATED \<and> (tc_state u = RUNNING \<longrightarrow> j = r_currentTaskId r')" for j u
  proof -
    have "rtos_task j r = Some u' \<Longrightarrow>
      j < r_nextTaskId r \<and> tc_state u' \<noteq> TERMINATED \<and> (tc_state u' = RUNNING \<longrightarrow> j = r_currentTaskId r)" for u'
      using ok unfolding rtos_ok_def by blast
    then show "rtos_task j r' = Some u \<Longrightarrow>
      j < r_nextTaskId r' \<and> tc_state u \<noteq> TERMINATED \<and> (tc_state u = RUNNING \<longrightarrow> j = r_currentTaskId r')"
      using tasks t fields state by (auto split: if_splits)
  qed
  have dist: "distinct (rq_at (r_readyQueue r') p)" for p
    using ok here(1) queue(2) [of p] by (cases "p = tc_priority t") (auto simp: rtos_ok_def)
  have idle: "rtos_task IDLE_TASK_ID r' \<noteq> None" using ok tasks by (simp add: rtos_ok_def)
  show ?thesis
    unfolding rtos_ok_def using keys idle queue(1) dist member delay(1,2) blocked others by blast
qed

lemma rtos_okD:
  assumes "rtos_ok D r"
  shows "rq_ok (r_readyQueue r)" "distinct (rq_at (r_readyQueue r) p)" "distinct (map fst (r_tasks r))"
    "distinct D" "IDLE_TASK_ID \<notin> set D"
    "i \<in> set (rq_at (r_readyQueue r) p) \<longleftrightarrow>
       (\<exists>t. rtos_task i r = Some t \<and> tc_priority t = p \<and> (tc_state t = READY \<or> tc_state t = RUNNING))"
    "i \<in> set D \<longleftrightarrow> (\<exists>t. rtos_task i r = Some t \<and> tc_state t = BLOCKED)"
    "rtos_task i r = Some t \<Longrightarrow> i < r_nextTaskId r \<and> tc_state t \<noteq> TERMINATED \<and>
       (tc_state t = RUNNING \<longrightarrow> i = r_currentTaskId r)"
    "rtos_task IDLE_TASK_ID r \<noteq> None"
  using assms unfolding rtos_ok_def by blast+

lemma rtos_ok_frame:
  assumes ok: "rtos_ok D r" and "r_tasks r' = r_tasks r" and "r_nextTaskId r' = r_nextTaskId r"
    and "rq_ok (r_readyQueue r')" and "\<And>p. distinct (rq_at (r_readyQueue r') p)"
    and "\<And>p. set (rq_at (r_readyQueue r') p) = set (rq_at (r_readyQueue r) p)"
    and "\<And>i t. rtos_task i r = Some t \<Longrightarrow> tc_state t = RUNNING \<Longrightarrow> i = r_currentTaskId r'"
  shows "rtos_ok D r'"
proof -
  have tasks: "rtos_task i r' = rtos_task i r" for i using assms(2) by (simp add: rtos_task_def)
  have last: "\<forall>i t. rtos_task i r = Some t \<longrightarrow> i < r_nextTaskId r \<and> tc_state t \<noteq> TERMINATED \<and>
      (tc_state t = RUNNING \<longrightarrow> i = r_currentTaskId r')"
    using rtos_okD(8) [OF ok] assms(7) by blast
  have dist: "\<forall>p. distinct (rq_at (r_readyQueue r') p)" using assms(5) by blast
  show ?thesis
    using ok assms(4) dist last unfolding rtos_ok_def tasks assms(2,3,6)
    by (elim conjE) (intro conjI; assumption)
qed

lemma rtos_ok_to_ready:
  assumes ok: "rtos_ok D r" and t: "rtos_task i r = Some t"
  shows "rtos_ok (remove1 i D) (rtos_addToReadyQueue i (upd_task i (task_setState READY) r))"
proof -
  let ?r = "rtos_addToReadyQueue i (upd_task i (task_setState READY) r)"
  have q: "r_readyQueue ?r = rq_add (tc_priority t) i (r_readyQueue r)"
    using t rtos_add_queue [of i "upd_task i (task_setState READY) r" "task_setState READY t"] by simp
  show ?thesis
    by (rule rtos_ok_change [OF ok t, where t' = "task_setState READY t"])
      (use t rtos_okD(1-5) [OF ok] in \<open>auto simp: q rq_ok_add rq_at_add set_remove1_eq notin_set_remove1\<close>)
qed

lemma rtos_ok_leave:
  assumes ok: "rtos_ok D r" and t: "rtos_task i r = Some t"
    and f: "tc_priority (f t) = tc_priority t" "tc_state (f t) = st" "st = SUSPENDED \<or> st = BLOCKED \<and> i \<noteq> IDLE_TASK_ID"
  shows "rtos_ok (if st = BLOCKED then remove1 i D @ [i] else remove1 i D)
    (rtos_removeFromReadyQueue i (upd_task i f r))"
proof -
  let ?r = "rtos_removeFromReadyQueue i (upd_task i f r)"
  have q: "r_readyQueue ?r = rq_remove (tc_priority t) i (r_readyQueue r)"
    using t f rtos_remove_queue [of i "upd_task i f r" "f t"] by simp
  show ?thesis
    by (rule rtos_ok_change [OF ok t, where t' = "f t"])
      (use t f rtos_okD(1-5) [OF ok] in \<open>auto simp: q rq_ok_remove rq_at_remove set_remove1_eq notin_set_remove1\<close>)
qed

lemma rtos_ok_same:
  assumes ok: "rtos_ok D r" and t: "rtos_task i r = Some t" and "tc_state t = READY \<or> tc_state t = RUNNING"
    and f: "tc_priority (f t) = tc_priority t"
      "tc_state (f t) = READY \<or> tc_state (f t) = RUNNING \<and> i = r_currentTaskId r"
  shows "rtos_ok D (upd_task i f r)"
proof -
  have "i \<in> set (rq_at (r_readyQueue r) (tc_priority t))" using rtos_okD(6) [OF ok] t assms(3) by blast
  moreover have "i \<notin> set D" using rtos_okD(7) [OF ok] t assms(3) by auto
  ultimately show ?thesis
    by (intro rtos_ok_change [OF ok t, where t' = "f t"])
      (use t f rtos_okD(1-5) [OF ok] in \<open>auto simp: insert_absorb\<close>)
qed

section \<open>Waking, choosing and switching keep the invariant\<close>

lemma rtos_wake_fields:
  "rtos_wake is r = (dq, r') \<Longrightarrow> r_running r' = r_running r \<and> r_tickCount r' = r_tickCount r \<and>
     r_nextTaskId r' = r_nextTaskId r \<and> r_currentTaskId r' = r_currentTaskId r \<and> set dq \<subseteq> set is"
proof (induction "is" arbitrary: r dq)
  case (Cons i "is")
  show ?case
  proof (cases "rtos_task i r")
    case None
    with Cons show ?thesis by (cases "rtos_wake is r") fastforce
  next
    case (Some t)
    with Cons show ?thesis by (cases "rtos_wake is r") (fastforce split: if_splits)
  qed
qed simp

lemma rtos_wake_ok:
  "rtos_ok (pre @ is) r \<Longrightarrow> rtos_wake is r = (dq, r') \<Longrightarrow> rtos_ok (pre @ dq) r'"
proof (induction "is" arbitrary: pre r dq)
  case (Cons i "is")
  have "i \<in> set (pre @ i # is)" by simp
  then obtain t where t: "rtos_task i r = Some t"
    using rtos_okD(7) [OF Cons.prems(1)] by blast
  have dist: "i \<notin> set pre" using rtos_okD(4) [OF Cons.prems(1)] by simp
  show ?case
  proof (cases "tc_delayUntilTick t \<le> r_tickCount r")
    case True
    have "rtos_ok (pre @ is) (rtos_addToReadyQueue i (upd_task i (task_setState READY) r))"
      using rtos_ok_to_ready [OF Cons.prems(1) t] dist by (simp add: remove1_append)
    with Cons.IH [of pre] Cons.prems(2) t True show ?thesis by simp
  next
    case False
    obtain dq' r'' where w: "rtos_wake is r = (dq', r'')" by (cases "rtos_wake is r")
    with Cons.prems(2) t False have "dq = i # dq'" "r' = r''" by simp_all
    with Cons.IH [of "pre @ [i]" r dq'] Cons.prems(1) w show ?thesis by simp
  qed
qed simp

lemma rtos_ok_delayQueue [simp]: "rtos_ok D (r\<lparr>r_delayQueue := X\<rparr>) = rtos_ok D r"
  by (simp add: rtos_ok_def)

lemma rtos_process_inv:
  assumes "rtos_inv r"
  shows "rtos_inv (rtos_processDelayQueue r)"
    and "r_running (rtos_processDelayQueue r) = r_running r"
    and "r_tickCount (rtos_processDelayQueue r) = r_tickCount r"
    and "r_nextTaskId (rtos_processDelayQueue r) = r_nextTaskId r"
    and "r_currentTaskId (rtos_processDelayQueue r) = r_currentTaskId r"
    and "set (r_delayQueue (rtos_processDelayQueue r)) \<subseteq> set (r_delayQueue r)"
proof -
  obtain dq r' where w: "rtos_wake (r_delayQueue r) r = (dq, r')" by (cases "rtos_wake (r_delayQueue r) r")
  then have p: "rtos_processDelayQueue r = r'\<lparr>r_delayQueue := dq\<rparr>" by (simp add: rtos_processDelayQueue_def)
  have "rtos_ok dq r'" using rtos_wake_ok [of "[]" "r_delayQueue r" r dq r'] assms w by (simp add: rtos_inv_def)
  then show "rtos_inv (rtos_processDelayQueue r)" by (simp add: p rtos_inv_def)
  note f = rtos_wake_fields [OF w]
  show "r_running (rtos_processDelayQueue r) = r_running r"
    and "r_tickCount (rtos_processDelayQueue r) = r_tickCount r"
    and "r_nextTaskId (rtos_processDelayQueue r) = r_nextTaskId r"
    and "r_currentTaskId (rtos_processDelayQueue r) = r_currentTaskId r"
    and "set (r_delayQueue (rtos_processDelayQueue r)) \<subseteq> set (r_delayQueue r)"
    using f by (simp_all add: p)
qed

lemma rtos_ticked_inv:
  assumes "rtos_inv r"
  shows "rtos_inv (r\<lparr>r_tickCount := r_tickCount r + 1\<rparr>)"
proof -
  have ok: "rtos_ok (r_delayQueue r) r" using assms by (simp add: rtos_inv_def)
  have "rtos_ok (r_delayQueue r) (r\<lparr>r_tickCount := r_tickCount r + 1\<rparr>)"
    by (rule rtos_ok_frame [OF ok]) (use rtos_okD(1,2,8) [OF ok] in auto)
  then show ?thesis by (simp add: rtos_inv_def)
qed

lemma rtos_tick_inv: "rtos_inv r \<Longrightarrow> rtos_inv (rtos_tick r)"
  unfolding rtos_tick_def by (rule rtos_process_inv(1) [OF rtos_ticked_inv])

lemma rtos_tick_fields:
  assumes "rtos_inv r"
  shows "r_currentTaskId (rtos_tick r) = r_currentTaskId r" and "r_running (rtos_tick r) = r_running r"
    and "r_tickCount (rtos_tick r) = r_tickCount r + 1"
    and "set (r_delayQueue (rtos_tick r)) \<subseteq> set (r_delayQueue r)"
  using rtos_process_inv [OF rtos_ticked_inv [OF assms]] by (simp_all add: rtos_tick_def)

lemma rtos_pick_inv:
  assumes "rtos_inv r" and "rtos_pickNextTask r = (i, r')"
  shows "rtos_inv r'" and "r' = r\<lparr>r_readyQueue := r_readyQueue r'\<rparr>"
    and "\<exists>t. rtos_task i r = Some t \<and> (tc_state t = READY \<or> tc_state t = RUNNING \<or> i = IDLE_TASK_ID)"
    and "i \<notin> set (r_delayQueue r)"
proof -
  have ok: "rtos_ok (r_delayQueue r) r" using assms(1) by (simp add: rtos_inv_def)
  obtain q where p: "rq_pick (r_readyQueue r) = (i, q)" and r': "r' = r\<lparr>r_readyQueue := q\<rparr>"
    using assms(2) by (auto simp: rtos_pickNextTask_def split: prod.splits)
  note q = rq_pick_mset [OF rtos_okD(1) [OF ok] p]
  have "rq_ok q" using rq_pick_spec [OF rtos_okD(1) [OF ok] p] by blast
  then have "rtos_ok (r_delayQueue r) r'"
    by (intro rtos_ok_frame [OF ok]) (use q rtos_okD(2,8) [OF ok] in \<open>auto simp: r'\<close>)
  then show "rtos_inv r'" by (simp add: r' rtos_inv_def)
  show "r' = r\<lparr>r_readyQueue := r_readyQueue r'\<rparr>" by (simp add: r')
  show "\<exists>t. rtos_task i r = Some t \<and> (tc_state t = READY \<or> tc_state t = RUNNING \<or> i = IDLE_TASK_ID)"
    using rq_pick_member [OF rtos_okD(1) [OF ok] p] rtos_okD(6) [OF ok] rtos_okD(9) [OF ok] by blast
  show "i \<notin> set (r_delayQueue r)"
    using rq_pick_member [OF rtos_okD(1) [OF ok] p] rtos_okD(5,6,7) [OF ok] by fastforce
qed

lemma rtos_ok_current:
  assumes "rtos_ok D r" and "\<And>i t. rtos_task i r = Some t \<Longrightarrow> tc_state t = RUNNING \<Longrightarrow> i = c"
  shows "rtos_ok D (r\<lparr>r_currentTaskId := c\<rparr>)"
  by (rule rtos_ok_frame [OF assms(1)]) (use rtos_okD(1,2) [OF assms(1)] assms(2) in auto)

lemma rtos_demote:
  assumes "rtos_inv r" and "rtos_currentTask r = Some t" and "tc_state t = RUNNING"
  shows "rtos_inv (upd_task (r_currentTaskId r) (task_setState READY) r)"
    and "rtos_task i (upd_task (r_currentTaskId r) (task_setState READY) r) = Some u \<Longrightarrow> tc_state u \<noteq> RUNNING"
proof -
  have t: "rtos_task (r_currentTaskId r) r = Some t" using assms(2) by (simp add: rtos_currentTask_def)
  have ok: "rtos_ok (r_delayQueue r) r" using assms(1) by (simp add: rtos_inv_def)
  show "rtos_inv (upd_task (r_currentTaskId r) (task_setState READY) r)"
    using rtos_ok_same [OF ok t, of "task_setState READY"] assms(3) by (simp add: rtos_inv_def)
  show "rtos_task i (upd_task (r_currentTaskId r) (task_setState READY) r) = Some u \<Longrightarrow> tc_state u \<noteq> RUNNING"
    using rtos_okD(8) [OF ok] t by (auto split: if_splits)
qed

lemma rtos_switch_settled:
  assumes "rtos_inv r"
  shows "rtos_settled (rtos_switch r)" and "r_running (rtos_switch r) = r_running r"
proof -
  let ?a = "rtos_processDelayQueue r"
  obtain i b where pick: "rtos_pickNextTask ?a = (i, b)" by (cases "rtos_pickNextTask ?a")
  have a: "rtos_inv ?a" by (rule rtos_process_inv(1) [OF assms])
  note b = rtos_pick_inv [OF a pick]
  have same: "r_delayQueue b = r_delayQueue ?a" "r_running b = r_running r" "r_currentTaskId b = r_currentTaskId r"
    using b(2) rtos_process_inv(2,5) [OF assms] by (metis rtos.select_convs rtos.surjective rtos.update_convs)+
  define c where "c = (if r_currentTaskId b \<noteq> i
    then (case rtos_currentTask b of None \<Rightarrow> b
      | Some t \<Rightarrow> if tc_state t = RUNNING then upd_task (r_currentTaskId b) (task_setState READY) b else b)
    else b)"
  have sw: "rtos_switch r = c\<lparr>r_currentTaskId := i\<rparr>"
    by (simp add: rtos_switch_def pick c_def Let_def)
  have c: "rtos_inv c" "r_delayQueue c = r_delayQueue b" "r_running c = r_running b"
    using b(1) rtos_demote(1) [OF b(1)] by (auto simp: c_def split: option.splits)
  have run: "j = i" if "rtos_task j c = Some t" "tc_state t = RUNNING" for j t
  proof (cases "r_currentTaskId b = i")
    case True
    then have "c = b" by (simp add: c_def)
    with that rtos_okD(8) [OF b(1) [unfolded rtos_inv_def]] True show ?thesis by blast
  next
    case False
    show ?thesis
    proof (cases "\<exists>u. rtos_currentTask b = Some u \<and> tc_state u = RUNNING")
      case True
      with False have "c = upd_task (r_currentTaskId b) (task_setState READY) b" by (auto simp: c_def)
      with that rtos_demote(2) [OF b(1)] True show ?thesis by blast
    next
      case no: False
      then have "c = b" by (auto simp: c_def split: option.splits)
      with that rtos_okD(8) [OF b(1) [unfolded rtos_inv_def]] no show ?thesis
        by (auto simp: rtos_currentTask_def)
    qed
  qed
  have "rtos_ok (r_delayQueue c) (c\<lparr>r_currentTaskId := i\<rparr>)"
    using rtos_ok_current [OF c(1) [unfolded rtos_inv_def]] run by blast
  then show "rtos_settled (rtos_switch r)"
    using b(4) c(2) same(1) by (simp add: sw rtos_settled_def rtos_inv_def)
  show "r_running (rtos_switch r) = r_running r" using c(3) same(2) by (simp add: sw)
qed

section \<open>The operations keep the invariant\<close>

lemma rtos_yield_prepare_inv:
  assumes "rtos_inv r"
  shows "rtos_inv (rtos_yield_prepare r)" and "r_running (rtos_yield_prepare r) = r_running r"
proof -
  let ?c = "r_currentTaskId r"
  have ok: "rtos_ok (r_delayQueue r) r" using assms by (simp add: rtos_inv_def)
  have run: "rtos_inv (rtos_addToReadyQueue ?c (rtos_removeFromReadyQueue ?c (upd_task ?c (task_setState READY) r)))"
    if t: "rtos_currentTask r = Some t" and st: "tc_state t = RUNNING" for t
  proof -
    let ?u = "upd_task ?c (task_setState READY) r"
    let ?v = "rtos_addToReadyQueue ?c (rtos_removeFromReadyQueue ?c ?u)"
    have u: "rtos_ok (r_delayQueue r) ?u" using rtos_demote(1) [OF assms t st] by (simp add: rtos_inv_def)
    have tu: "rtos_task ?c ?u = Some (task_setState READY t)" using t by (simp add: rtos_currentTask_def)
    have nd: "?c \<notin> set (r_delayQueue r)"
      using rtos_okD(7) [OF ok] t st by (auto simp: rtos_currentTask_def)
    have mem: "?c \<in> set (rq_at (r_readyQueue ?u) (tc_priority t))" using rtos_okD(6) [OF u] tu by auto
    have q: "r_readyQueue ?v = rq_add (tc_priority t) ?c (rq_remove (tc_priority t) ?c (r_readyQueue r))"
      using tu rtos_add_queue [of ?c "rtos_removeFromReadyQueue ?c ?u"] rtos_remove_queue [of ?c ?u] by simp
    have "rtos_ok (r_delayQueue r) ?v"
      by (rule rtos_ok_change [OF u tu, where t' = "task_setState READY t"])
        (use tu nd mem rtos_okD(1-5) [OF u] in
          \<open>auto simp: q rq_ok_add rq_at_add rq_ok_remove rq_at_remove set_remove1_eq insert_absorb\<close>)
    then show ?thesis by (simp add: rtos_inv_def)
  qed
  then show "rtos_inv (rtos_yield_prepare r)"
    using assms by (auto simp: rtos_yield_prepare_def split: option.splits)
  show "r_running (rtos_yield_prepare r) = r_running r"
    by (simp add: rtos_yield_prepare_def split: option.splits)
qed

lemma AList_update_twice: "AList.update k v (AList.update k w xs) = AList.update k v xs"
  by (induction xs) auto

lemma upd_task_twice: "upd_task i g (upd_task i f r) = upd_task i (g \<circ> f) r"
proof (cases "rtos_task i r")
  case (Some t)
  then have "rtos_task i (upd_task i f r) = Some (f t)" by simp
  with Some show ?thesis by (simp add: upd_task_def AList_update_twice)
qed (simp add: upd_task_def)

lemma rtos_delay_prepare_inv:
  assumes "rtos_settled r" and "r_currentTaskId r \<noteq> IDLE_TASK_ID"
  shows "rtos_inv (rtos_delay_prepare k r)" and "r_running (rtos_delay_prepare k r) = r_running r"
proof -
  let ?c = "r_currentTaskId r" and ?D = "r_delayQueue r"
  let ?f = "task_setDelayUntilTick (r_tickCount r + k) \<circ> task_setState BLOCKED"
  have ok: "rtos_ok ?D r" and nd: "?c \<notin> set ?D" using assms(1) by (simp_all add: rtos_settled_def rtos_inv_def)
  have "rtos_ok (?D @ [?c]) (rtos_removeFromReadyQueue ?c (upd_task ?c ?f r))" if "rtos_task ?c r = Some t" for t
    using rtos_ok_leave [OF ok that, of ?f BLOCKED] assms(2) nd by (simp add: remove1_idem)
  then show "rtos_inv (rtos_delay_prepare k r)"
    using ok by (auto simp: rtos_delay_prepare_def rtos_inv_def Let_def upd_task_twice rtos_currentTask_def
        split: option.splits)
  show "r_running (rtos_delay_prepare k r) = r_running r"
    by (simp add: rtos_delay_prepare_def Let_def split: option.splits)
qed

lemma rtos_suspend_prepare_inv:
  assumes "rtos_inv r" and "rtos_task i r = Some t"
  shows "rtos_inv (rtos_suspend_prepare i r)" and "r_running (rtos_suspend_prepare i r) = r_running r"
    and "r_currentTaskId (rtos_suspend_prepare i r) = r_currentTaskId r"
    and "set (r_delayQueue (rtos_suspend_prepare i r)) \<subseteq> set (r_delayQueue r)"
proof -
  have ok: "rtos_ok (r_delayQueue r) r" using assms(1) by (simp add: rtos_inv_def)
  show "rtos_inv (rtos_suspend_prepare i r)"
    using rtos_ok_leave [OF ok assms(2), of "task_setState SUSPENDED" SUSPENDED]
    by (simp add: rtos_suspend_prepare_def rtos_inv_def)
qed (auto simp: rtos_suspend_prepare_def Let_def dest: notin_set_remove1 set_remove1_subset [THEN subsetD])

lemma rtos_delete_prepare_inv:
  assumes "rtos_inv r" and "rtos_task i r = Some t" and "i \<noteq> IDLE_TASK_ID"
  shows "rtos_inv (rtos_delete_prepare i r)" and "rtos_task i (rtos_delete_prepare i r) = None"
    and "r_running (rtos_delete_prepare i r) = r_running r"
    and "r_currentTaskId (rtos_delete_prepare i r) = r_currentTaskId r"
    and "set (r_delayQueue (rtos_delete_prepare i r)) \<subseteq> set (r_delayQueue r)"
proof -
  let ?d = "rtos_delete_prepare i r"
  have ok: "rtos_ok (r_delayQueue r) r" using assms(1) by (simp add: rtos_inv_def)
  have task: "rtos_task j ?d = (if j = i then None else rtos_task j r)" for j
    by (simp add: rtos_delete_prepare_def rtos_task_def delete_conv')
  have q: "r_readyQueue ?d = rq_remove (tc_priority t) i (r_readyQueue r)"
    using assms(2) by (simp add: rtos_delete_prepare_def rtos_remove_queue)
  have f: "r_delayQueue ?d = remove1 i (r_delayQueue r)" "r_nextTaskId ?d = r_nextTaskId r"
    "r_currentTaskId ?d = r_currentTaskId r" "r_running ?d = r_running r"
    "r_tasks ?d = AList.delete i (r_tasks r)"
    by (simp_all add: rtos_delete_prepare_def)
  have dist: "distinct (rq_at (r_readyQueue ?d) p)" for p
    using rtos_okD(1,2) [OF ok] by (auto simp: q rq_at_remove)
  have member: "j \<in> set (rq_at (r_readyQueue ?d) p) \<longleftrightarrow>
      (\<exists>u. rtos_task j ?d = Some u \<and> tc_priority u = p \<and> (tc_state u = READY \<or> tc_state u = RUNNING))" for p j
    using rtos_okD(1,2) [OF ok] rtos_okD(6) [OF ok, of j p] assms(2)
    by (cases "j = i") (auto simp: q rq_at_remove task)
  have blocked: "j \<in> set (remove1 i (r_delayQueue r)) \<longleftrightarrow> (\<exists>u. rtos_task j ?d = Some u \<and> tc_state u = BLOCKED)" for j
    using rtos_okD(4) [OF ok] rtos_okD(7) [OF ok, of j] by (auto simp: task set_remove1_eq)
  have rest: "rtos_task j ?d = Some u \<longrightarrow> j < r_nextTaskId ?d \<and> tc_state u \<noteq> TERMINATED \<and>
      (tc_state u = RUNNING \<longrightarrow> j = r_currentTaskId ?d)" for j u
    using rtos_okD(8) [OF ok] by (simp add: task f)
  have idle: "rtos_task IDLE_TASK_ID ?d \<noteq> None" using rtos_okD(9) [OF ok] assms(3) by (simp add: task)
  have keys: "distinct (map fst (r_tasks ?d))"
    using rtos_okD(3) [OF ok] by (simp add: f distinct_delete)
  have delay: "distinct (remove1 i (r_delayQueue r))" "IDLE_TASK_ID \<notin> set (remove1 i (r_delayQueue r))"
    using rtos_okD(4,5) [OF ok] by (auto dest: notin_set_remove1)
  show "rtos_inv ?d"
    unfolding rtos_inv_def rtos_ok_def f(1)
    using keys idle dist member delay blocked rest rq_ok_remove [OF rtos_okD(1) [OF ok]] q by (intro conjI allI) simp_all
  show "rtos_task i ?d = None" by (simp add: task)
  show "set (r_delayQueue ?d) \<subseteq> set (r_delayQueue r)" by (simp add: f set_remove1_subset)
qed (simp_all add: rtos_delete_prepare_def)

lemma rtos_resume_settled:
  assumes "rtos_settled r"
  shows "rtos_settled (snd (rtos_resumeTask i r))"
proof (cases "rtos_task i r")
  case (Some t)
  have ok: "rtos_ok (r_delayQueue r) r" using assms by (simp add: rtos_settled_def rtos_inv_def)
  have "i \<notin> set (r_delayQueue r)" if "tc_state t = SUSPENDED" using rtos_okD(7) [OF ok] Some that by auto
  then show ?thesis
    using assms rtos_ok_to_ready [OF ok Some]
    by (auto simp: rtos_resumeTask_def Some rtos_settled_def rtos_inv_def remove1_idem)
qed (use assms in \<open>simp add: rtos_resumeTask_def\<close>)

lemma rtos_ok_new:
  assumes ok: "rtos_ok D r" and fresh: "rtos_task i r = None" "\<And>p. i \<notin> set (rq_at (r_readyQueue r) p)"
    and i: "i < n" "r_nextTaskId r \<le> n"
  shows "rtos_ok D (rtos_addToReadyQueue i (r\<lparr>r_nextTaskId := n,
    r_tasks := AList.update i (task_init i name fn prio stack) (r_tasks r)\<rparr>))"
proof -
  let ?t = "task_init i name fn prio stack"
  let ?a = "r\<lparr>r_nextTaskId := n, r_tasks := AList.update i ?t (r_tasks r)\<rparr>"
  let ?r = "rtos_addToReadyQueue i ?a"
  have task: "rtos_task j ?a = (if j = i then Some ?t else rtos_task j r)" for j
    by (simp add: rtos_task_def update_conv')
  then have ta: "rtos_task i ?a = Some ?t" by simp
  have t: "tc_priority ?t = prio" "tc_state ?t = READY" by (simp_all add: task_init_def)
  have q: "r_readyQueue ?r = rq_add prio i (r_readyQueue r)" using rtos_add_queue [OF ta] t by simp
  have f: "r_nextTaskId ?r = n" "r_currentTaskId ?r = r_currentTaskId r"
    "r_tasks ?r = AList.update i ?t (r_tasks r)"
    by simp_all
  have notD: "i \<notin> set D" using rtos_okD(7) [OF ok] fresh(1) by simp
  have at: "rq_at (r_readyQueue ?r) = (rq_at (r_readyQueue r))(prio := rq_at (r_readyQueue r) prio @ [i])"
    using rq_at_add [OF rtos_okD(1) [OF ok], of prio i] fresh(2) by (simp add: q)
  have dist: "distinct (rq_at (r_readyQueue ?r) p)" for p
    using rtos_okD(2) [OF ok] fresh(2) by (simp add: at)
  have member: "j \<in> set (rq_at (r_readyQueue ?r) p) \<longleftrightarrow>
      (\<exists>u. rtos_task j ?r = Some u \<and> tc_priority u = p \<and> (tc_state u = READY \<or> tc_state u = RUNNING))" for p j
    using rtos_okD(6) [OF ok, of j p] fresh(2) [of p] t by (cases "j = i") (auto simp: at task)
  have blocked: "j \<in> set D \<longleftrightarrow> (\<exists>u. rtos_task j ?r = Some u \<and> tc_state u = BLOCKED)" for j
    using rtos_okD(7) [OF ok, of j] notD t by (cases "j = i") (simp_all add: task)
  have rest: "rtos_task j ?r = Some u \<longrightarrow> j < r_nextTaskId ?r \<and> tc_state u \<noteq> TERMINATED \<and>
      (tc_state u = RUNNING \<longrightarrow> j = r_currentTaskId ?r)" for j u
    using rtos_okD(8) [OF ok, of j u] i t by (auto simp: task f)
  have idle: "rtos_task IDLE_TASK_ID ?r \<noteq> None" using rtos_okD(9) [OF ok] by (simp add: task)
  have keys: "distinct (map fst (r_tasks ?r))"
    using rtos_okD(3) [OF ok] by (simp add: f distinct_update)
  show ?thesis
    unfolding rtos_ok_def
    using keys idle dist member rtos_okD(4,5) [OF ok] blocked rest rq_ok_add [OF rtos_okD(1) [OF ok]] q
    by (intro conjI allI) simp_all
qed

lemma rtos_create_settled:
  assumes "rtos_settled r" and "r_nextTaskId r + 1 \<noteq> 0"
  shows "rtos_settled (snd (rtos_createTask name fn prio stack r))"
proof -
  let ?i = "r_nextTaskId r"
  have ok: "rtos_ok (r_delayQueue r) r" using assms by (simp add: rtos_settled_def rtos_inv_def)
  have fresh: "rtos_task ?i r = None" using rtos_okD(8) [OF ok, of ?i] by (cases "rtos_task ?i r") auto
  then have nq: "?i \<notin> set (rq_at (r_readyQueue r) p)" for p using rtos_okD(6) [OF ok] by simp
  have lt: "?i < ?i + 1" using assms(2) unatSuc [of ?i] by (simp add: word_less_nat_alt add.commute)
  then have le: "?i \<le> ?i + 1" by simp
  show ?thesis
    using assms(1) rtos_ok_new [OF ok fresh nq lt le]
    by (simp add: rtos_createTask_def Let_def rtos_settled_def rtos_inv_def)
qed

lemma rtos_ensureIdle_id: "rtos_settled r \<Longrightarrow> rtos_ensureIdleTask r = r"
  using rtos_okD(9) [of "r_delayQueue r" r]
  by (auto simp: rtos_ensureIdleTask_def rtos_settled_def rtos_inv_def split: option.splits)

lemma rtos_settled_running [simp]: "rtos_settled (r\<lparr>r_running := b\<rparr>) = rtos_settled r"
  by (simp add: rtos_settled_def rtos_inv_def rtos_ok_def)

lemma rtos_fresh_settled:
  assumes "r_tasks r = []" and "r_readyQueue r = []" and "r_delayQueue r = []" and "r_nextTaskId r = 1"
  shows "rtos_settled (rtos_ensureIdleTask r)"
proof -
  have "rtos_ensureIdleTask r = r\<lparr>r_tasks := [(IDLE_TASK_ID,
      task_init IDLE_TASK_ID ''IdleTask'' (Some IdleLoop) IDLE_TASK_PRIORITY 512)],
      r_readyQueue := [(IDLE_TASK_PRIORITY, [IDLE_TASK_ID])]\<rparr>"
    using assms by (simp add: rtos_ensureIdleTask_def rtos_task_def rtos_addToReadyQueue_def task_init_def)
  then show ?thesis
    using assms
    by (auto simp: rtos_settled_def rtos_inv_def rtos_ok_def rtos_task_def rq_ok_Cons rq_at_Cons
        task_init_def IDLE_TASK_ID_def split: if_splits)
qed

lemma rtos_init_settled: "rtos_settled rtos_init"
  unfolding rtos_init_def by (rule rtos_fresh_settled) simp_all

lemma rtos_reset_settled: "rtos_settled (rtos_reset r)"
  unfolding rtos_reset_def by (rule rtos_fresh_settled) (simp_all add: rtos_stop_def)

section \<open>Runs within the identifiers\<close>

text \<open>
  \<^verbatim>\<open>m_nextTaskId\<close> has 32 bits and is not checked: the creation of task number \<open>2^32 - 1\<close> makes it wrap around, to the
  idle task. The same runs as above, up to there: \<open>None\<close> also when a task is created with the last identifier.
\<close>

definition id_left :: "rtos_call \<Rightarrow> rtos \<Rightarrow> bool" where
  "id_left c r = (case c of Create _ _ _ _ \<Rightarrow> r_nextTaskId r + 1 \<noteq> 0 | _ \<Rightarrow> True)"

fun rtos_calls_ids :: "'w sched_fn \<Rightarrow> rtos_call list \<Rightarrow> 'w sched_fn" where
  "rtos_calls_ids sch [] s = Some s"
| "rtos_calls_ids sch (c # cs) s =
     (if id_left c (fst s) then Option.bind (rtos_do sch c s) (rtos_calls_ids sch cs) else None)"

definition task_execute_ids ::
  "(nat \<Rightarrow> 'w \<Rightarrow> rtos_call list \<times> 'w) \<Rightarrow> 'w sched_fn \<Rightarrow> u32 \<Rightarrow> 'w sched_fn" where
  "task_execute_ids prog sch i = (\<lambda>(r, w).
     case Option.bind (rtos_task i r) tc_function of
       None \<Rightarrow> Some (r, w)
     | Some fn \<Rightarrow>
         let r = upd_task i task_incrementExecutionCount r
         in case fn of
              IdleLoop \<Rightarrow> Some (r, w)
            | UserTask f \<Rightarrow> (case prog f w of (cs, w) \<Rightarrow> rtos_calls_ids sch cs (r, w)))"

fun rtos_schedule_ids :: "nat \<Rightarrow> (nat \<Rightarrow> 'w \<Rightarrow> rtos_call list \<times> 'w) \<Rightarrow> 'w sched_fn" where
  "rtos_schedule_ids 0 prog s = (if \<not> r_running (fst s) then Some s else None)"
| "rtos_schedule_ids (Suc n) prog s =
     (case s of (r, w) \<Rightarrow>
        if \<not> r_running r then Some (r, w)
        else let r = rtos_switch r
             in case rtos_currentTask r of
                  None \<Rightarrow> Some (r, w)
                | Some t \<Rightarrow>
                    if tc_state t = READY \<or> tc_state t = RUNNING
                    then task_execute_ids prog (rtos_schedule_ids n prog) (r_currentTaskId r)
                           (upd_task (r_currentTaskId r) (task_setState RUNNING) r, w)
                    else Some (r, w))"

text \<open>What they return is what the scheduler returns.\<close>

lemma rtos_do_mono:
  assumes "\<And>s x. f s = Some x \<Longrightarrow> g s = Some x" and "rtos_do f c s = Some x"
  shows "rtos_do g c s = Some x"
  using assms by (cases c; cases s)
    (auto simp: rtos_yield_def rtos_delay_def rtos_suspendTask_def rtos_deleteTask_def Let_def split: option.splits if_splits)

lemma rtos_calls_ids_same:
  assumes "\<And>s x. f s = Some x \<Longrightarrow> g s = Some x" and "rtos_calls_ids f cs s = Some x"
  shows "rtos_calls g cs s = Some x"
  using assms(2)
proof (induction cs arbitrary: s)
  case (Cons c cs)
  then obtain y where "rtos_do f c s = Some y" "rtos_calls_ids f cs y = Some x"
    by (auto simp: bind_eq_Some_conv split: if_splits)
  then show ?case using rtos_do_mono [OF assms(1)] Cons.IH by (auto simp: bind_eq_Some_conv)
qed simp

lemma rtos_schedule_ids_same: "rtos_schedule_ids n prog s = Some x \<Longrightarrow> rtos_schedule n prog s = Some x"
proof (induction n arbitrary: s x)
  case (Suc n)
  have "task_execute_ids prog (rtos_schedule_ids n prog) i s = Some x \<Longrightarrow> task_execute prog (rtos_schedule n prog) i s = Some x" for i s x
    using rtos_calls_ids_same [OF Suc.IH]
    by (cases s) (auto simp: task_execute_ids_def task_execute_def Let_def split: option.splits task_fn.splits prod.splits)
  with Suc.prems show ?case by (cases s) (auto simp: Let_def split: option.splits if_splits)
qed simp

definition rtos_ids_suffice ::
  "nat \<Rightarrow> (nat \<Rightarrow> 'w \<Rightarrow> rtos_call list \<times> 'w) \<Rightarrow> rtos_call \<Rightarrow> 'w rtos_st \<Rightarrow> bool" where
  "rtos_ids_suffice n prog c s \<longleftrightarrow> id_left c (fst s) \<and> rtos_do (rtos_schedule_ids n prog) c s \<noteq> None"

section \<open>What the operations need of \<open>schedule\<close>\<close>

text \<open>
  The operations call \<open>schedule\<close>, and \<open>schedule\<close> runs tasks that call the operations. The contract
  between them: handed a scheduler in order, whose current task may be delayed already if it is running,
  \<open>schedule\<close> gives back a settled one.
\<close>

locale scheduling =
  fixes sch :: "'w rtos_st \<Rightarrow> 'w rtos_st option"
  assumes settles:
    "rtos_inv r \<Longrightarrow> r_running r \<or> rtos_settled r \<Longrightarrow> sch (r, w) = Some (r', w') \<Longrightarrow> rtos_settled r'"
begin

lemma yield_settled:
  assumes "rtos_settled r" and "rtos_yield sch (r, w) = Some (r', w')"
  shows "rtos_settled r'"
proof (cases "r_running r")
  case True
  have inv: "rtos_inv r" using assms(1) by (simp add: rtos_settled_def)
  show ?thesis
    using assms(2) True rtos_yield_prepare_inv [OF inv]
    by (intro settles [of "rtos_yield_prepare r" w r' w']) (simp_all add: rtos_yield_def)
qed (use assms in \<open>simp add: rtos_yield_def\<close>)

lemma delay_settled:
  assumes "rtos_settled r" and "rtos_delay sch k (r, w) = Some (r', w')"
  shows "rtos_settled r'"
proof (cases "r_running r \<and> r_currentTaskId r \<noteq> IDLE_TASK_ID")
  case True
  then show ?thesis
    using assms(2) rtos_delay_prepare_inv [OF assms(1), of k]
    by (intro settles [of "rtos_delay_prepare k r" w r' w']) (simp_all add: rtos_delay_def)
qed (use assms in \<open>auto simp: rtos_delay_def split: if_splits\<close>)

lemma suspend_settled:
  assumes "rtos_settled r" and "rtos_suspendTask sch i (r, w) = Some (b, r', w')"
  shows "rtos_settled r'"
proof (cases "rtos_task i r")
  case (Some t)
  let ?p = "rtos_suspend_prepare i r"
  have inv: "rtos_inv r" using assms(1) by (simp add: rtos_settled_def)
  note p = rtos_suspend_prepare_inv [OF inv Some]
  have s: "rtos_settled ?p" using assms(1) p by (auto simp: rtos_settled_def)
  have "sch (?p, w) = Some (r', w') \<or> r' = ?p"
    using assms(2) Some by (auto simp: rtos_suspendTask_def Let_def split: if_splits)
  then show ?thesis using s settles [OF p(1), of w r' w'] by blast
qed (use assms in \<open>simp add: rtos_suspendTask_def\<close>)

lemma delete_settled:
  assumes "rtos_settled r" and "rtos_deleteTask sch i (r, w) = Some (b, r', w')"
  shows "rtos_settled r'"
proof (cases "i = IDLE_TASK_ID \<or> rtos_task i r = None")
  case False
  then obtain t where t: "rtos_task i r = Some t" and i: "i \<noteq> IDLE_TASK_ID" by auto
  let ?p = "rtos_delete_prepare i r"
  have inv: "rtos_inv r" using assms(1) by (simp add: rtos_settled_def)
  note p = rtos_delete_prepare_inv [OF inv t i]
  have s: "rtos_settled ?p" using assms(1) p by (auto simp: rtos_settled_def)
  have ok: "rtos_ok (r_delayQueue ?p) ?p" using p(1) by (simp add: rtos_inv_def)
  show ?thesis
  proof (cases "r_currentTaskId r = i")
    case True
    let ?q = "?p\<lparr>r_currentTaskId := IDLE_TASK_ID\<rparr>"
    have "rtos_ok (r_delayQueue ?p) ?q"
      using rtos_okD(8) [OF ok] p(2,4) True by (intro rtos_ok_current [OF ok]) fastforce
    then have q: "rtos_settled ?q" using rtos_okD(5) [OF ok] by (simp add: rtos_settled_def rtos_inv_def)
    have "sch (?q, w) = Some (r', w')" using assms(2) t i True by (simp add: rtos_deleteTask_def Let_def p(4))
    then show ?thesis using q settles [of ?q w r' w'] by (simp add: rtos_settled_def)
  next
    case False
    then show ?thesis using assms(2) t i s p(4) by (simp add: rtos_deleteTask_def)
  qed
qed (use assms in \<open>auto simp: rtos_deleteTask_def split: if_splits\<close>)

lemma do_settled:
  assumes "rtos_settled r" and "rtos_do sch c (r, w) = Some (r', w')" and "id_left c r"
  shows "rtos_settled r'"
proof (cases c)
  case TickRtos
  then have r': "r' = rtos_tick r" using assms(2) by simp
  have inv: "rtos_inv r" using assms(1) by (simp add: rtos_settled_def)
  show ?thesis
    using rtos_tick_inv [OF inv] rtos_tick_fields(1,4) [OF inv] assms(1) by (auto simp: r' rtos_settled_def)
next
  case Yield
  then show ?thesis using assms(1,2) yield_settled by simp
next
  case (Delay k)
  then show ?thesis using assms(1,2) delay_settled by simp
next
  case (Suspend i)
  then obtain b where "rtos_suspendTask sch i (r, w) = Some (b, r', w')" using assms(2) by auto
  then show ?thesis by (rule suspend_settled [OF assms(1)])
next
  case (Resume i)
  then show ?thesis using assms(1,2) rtos_resume_settled by auto
next
  case (Delete i)
  then obtain b where "rtos_deleteTask sch i (r, w) = Some (b, r', w')" using assms(2) by auto
  then show ?thesis by (rule delete_settled [OF assms(1)])
next
  case (Create name f p k)
  then show ?thesis using assms rtos_create_settled [of r name "Some (UserTask f)" p k] by (auto simp: id_left_def)
next
  case StartRtos
  then show ?thesis using assms(1,2) by (auto simp: rtos_start_def rtos_ensureIdle_id)
next
  case StopRtos
  then show ?thesis using assms(1,2) by (auto simp: rtos_stop_def)
next
  case Schedule
  then show ?thesis using assms(1,2) settles by (auto simp: rtos_settled_def)
qed

lemma calls_settled:
  assumes "rtos_settled r" and "rtos_calls_ids sch cs (r, w) = Some (r', w')"
  shows "rtos_settled r'"
  using assms
proof (induction cs arbitrary: r w)
  case (Cons c cs)
  obtain r1 w1 where c: "id_left c r" "rtos_do sch c (r, w) = Some (r1, w1)" and cs: "rtos_calls_ids sch cs (r1, w1) = Some (r', w')"
    using Cons.prems(2) by (auto simp: bind_eq_Some_conv split: if_splits)
  have "rtos_settled r1" by (rule do_settled [OF Cons.prems(1) c(2,1)])
  with Cons.IH cs show ?case by blast
qed simp

end

section \<open>\<open>schedule\<close> keeps the contract\<close>

lemma rtos_schedule_settles:
  fixes prog :: "nat \<Rightarrow> 'w \<Rightarrow> rtos_call list \<times> 'w"
  shows "scheduling (rtos_schedule_ids n prog)"
proof (induction n)
  case 0
  show ?case by unfold_locales (auto split: if_splits)
next
  case (Suc n)
  show ?case
  proof unfold_locales
    fix r :: rtos and w :: 'w and r' w'
    assume inv: "rtos_inv r" and ready: "r_running r \<or> rtos_settled r"
      and run: "rtos_schedule_ids (Suc n) prog (r, w) = Some (r', w')"
    show "rtos_settled r'"
    proof (cases "r_running r")
      case True
      let ?s = "rtos_switch r"
      let ?c = "r_currentTaskId ?s"
      have s: "rtos_settled ?s" by (rule rtos_switch_settled(1) [OF inv])
      have ok: "rtos_ok (r_delayQueue ?s) ?s" using s by (simp add: rtos_settled_def rtos_inv_def)
      show ?thesis
      proof (cases "\<exists>t. rtos_currentTask ?s = Some t \<and> (tc_state t = READY \<or> tc_state t = RUNNING)")
        case True
        then obtain t where t: "rtos_task ?c ?s = Some t" and st: "tc_state t = READY \<or> tc_state t = RUNNING"
          by (auto simp: rtos_currentTask_def)
        let ?a = "upd_task ?c (task_setState RUNNING) ?s"
        let ?b = "upd_task ?c task_incrementExecutionCount ?a"
        have a: "rtos_ok (r_delayQueue ?s) ?a" by (rule rtos_ok_same [OF ok t st]) simp_all
        have ta: "rtos_task ?c ?a = Some (task_setState RUNNING t)" using t by simp
        have "rtos_ok (r_delayQueue ?s) ?b" by (rule rtos_ok_same [OF a ta]) simp_all
        then have b: "rtos_settled ?b" and a': "rtos_settled ?a"
          using s a by (simp_all add: rtos_settled_def rtos_inv_def)
        have exec: "task_execute_ids prog (rtos_schedule_ids n prog) ?c (?a, w) = Some (r', w')"
          using run \<open>r_running r\<close> t st by (simp add: Let_def rtos_currentTask_def)
        show ?thesis
        proof (cases "tc_function t")
          case None
          then show ?thesis using exec t a' by (simp add: task_execute_ids_def)
        next
          case (Some fn)
          then have fn: "Option.bind (rtos_task ?c ?a) tc_function = Some fn" using t by simp
          show ?thesis
          proof (cases fn)
            case IdleLoop
            then show ?thesis using exec fn b by (simp add: task_execute_ids_def Let_def)
          next
            case (UserTask f)
            then have "rtos_calls_ids (rtos_schedule_ids n prog) (fst (prog f w)) (?b, snd (prog f w)) = Some (r', w')"
              using exec fn by (simp add: task_execute_ids_def Let_def split: prod.splits)
            then show ?thesis
              by (rule scheduling.calls_settled [OF Suc.IH b])
          qed
        qed
      next
        case False
        then show ?thesis
          using run \<open>r_running r\<close> s by (auto simp: Let_def split: option.splits if_splits)
      qed
    next
      case False
      then show ?thesis using run ready by simp
    qed
  qed
qed

text \<open>Bodies held to some of the calls, as a restriction of arbitrary ones.\<close>

definition restrict_calls ::
  "(rtos_call \<Rightarrow> bool) \<Rightarrow> (nat \<Rightarrow> 'w \<Rightarrow> rtos_call list \<times> 'w) \<Rightarrow> nat \<Rightarrow> 'w \<Rightarrow> rtos_call list \<times> 'w" where
  "restrict_calls ok prog f w = apfst (filter ok) (prog f w)"

lemma restrict_calls_id: "(\<And>f w c. c \<in> set (fst (prog f w)) \<Longrightarrow> ok c) \<Longrightarrow> restrict_calls ok prog = prog"
  by (intro ext, unfold restrict_calls_def) (metis apfst_conv filter_True prod.collapse)

interpretation sched: scheduling "rtos_schedule_ids n prog" for n prog
  by (rule rtos_schedule_settles)

section \<open>Reachable schedulers\<close>

text \<open>
  One step of the program around the scheduler: an operation on it, with the tasks \<open>prog\<close>, that returns at some depth.
  Tasks can be created, by the program and by the bodies, as long as identifiers are left.
\<close>

inductive rtos_step ::
  "(nat \<Rightarrow> 'w \<Rightarrow> rtos_call list \<times> 'w) \<Rightarrow> 'w rtos_st \<Rightarrow> 'w rtos_st \<Rightarrow> bool" for prog where
  step_create: "r_nextTaskId r + 1 \<noteq> 0 \<Longrightarrow>
     rtos_step prog (r, w) (snd (rtos_createTask name fn prio stack r), w)"
| step_start: "rtos_step prog (r, w) (rtos_start r, w)"
| step_reset: "rtos_step prog (r, w) (rtos_reset r, w)"
| step_call: "rtos_do (rtos_schedule n prog) c s = Some s' \<Longrightarrow> rtos_ids_suffice n prog c s \<Longrightarrow> rtos_step prog s s'"

inductive rtos_reach :: "(nat \<Rightarrow> 'w \<Rightarrow> rtos_call list \<times> 'w) \<Rightarrow> 'w rtos_st \<Rightarrow> bool" for prog where
  reach_init: "rtos_reach prog (rtos_init, w)"
| reach_step: "rtos_reach prog s \<Longrightarrow> rtos_step prog s s' \<Longrightarrow> rtos_reach prog s'"

lemma rtos_step_settled:
  assumes "rtos_step prog s s'" and "rtos_settled (fst s)"
  shows "rtos_settled (fst s')"
  using assms
proof cases
  case (step_create r name fn prio stack w)
  then show ?thesis using assms(2) rtos_create_settled by simp
next
  case (step_start r w)
  then show ?thesis using assms(2) by (simp add: rtos_start_def rtos_ensureIdle_id)
next
  case (step_reset r w)
  then show ?thesis by (simp add: rtos_reset_settled)
next
  case (step_call n c)
  then obtain s1 where s1: "rtos_do (rtos_schedule_ids n prog) c s = Some s1" and c: "id_left c (fst s)"
    by (auto simp: rtos_ids_suffice_def)
  then have "s1 = s'" using rtos_do_mono [OF rtos_schedule_ids_same s1] step_call by simp
  with s1 c assms(2) show ?thesis
    using sched.do_settled [of "fst s" n prog c "snd s" "fst s'" "snd s'"] by simp
qed

lemma rtos_reach_settled: "rtos_reach prog s \<Longrightarrow> rtos_settled (fst s)"
  by (induction rule: rtos_reach.induct) (simp_all add: rtos_init_settled rtos_step_settled)

text \<open>
  C8. Scheduler bookkeeping. In every scheduler reachable from a new one by starting, stopping and resetting it, by
  creating, deleting, suspending, resuming and delaying tasks, by ticks, yields and schedules that return, and by all
  calls of these, resets apart, that the task bodies make inside a schedule, the creation of tasks included, while fewer
  than \<open>2^32 - 1\<close> tasks are created between resets: the idle task exists and is never delayed; a task is in the ready queue of its
  priority exactly while it is ready or running, and only once; it is in the delay queue exactly while it
  is blocked, and only once; and at most one task, the current one, is running.
\<close>

theorem rtos_no_task_lost:
  assumes "rtos_reach prog (r, w)"
  shows "rtos_task IDLE_TASK_ID r \<noteq> None \<and> IDLE_TASK_ID \<notin> set (r_delayQueue r) \<and>
    (\<forall>i p. i \<in> set (rq_at (r_readyQueue r) p) \<longleftrightarrow>
       (\<exists>t. rtos_task i r = Some t \<and> tc_priority t = p \<and> (tc_state t = READY \<or> tc_state t = RUNNING))) \<and>
    (\<forall>i. i \<in> set (r_delayQueue r) \<longleftrightarrow> (\<exists>t. rtos_task i r = Some t \<and> tc_state t = BLOCKED)) \<and>
    (\<forall>p. distinct (rq_at (r_readyQueue r) p)) \<and> distinct (r_delayQueue r) \<and>
    (\<forall>i t. rtos_task i r = Some t \<longrightarrow> tc_state t = RUNNING \<longrightarrow> i = r_currentTaskId r)"
proof -
  have "rtos_ok (r_delayQueue r) r"
    using rtos_reach_settled [OF assms] by (simp add: rtos_settled_def rtos_inv_def)
  then show ?thesis unfolding rtos_ok_def by (elim conjE) (intro conjI; blast)
qed

text \<open>A task that creates another one and then delays itself, and so runs it.\<close>

definition demo_parent :: "nat \<Rightarrow> unit \<Rightarrow> rtos_call list \<times> unit" where
  "demo_parent f w = (if f = 0 then [Create ''child'' 1 1 512, Delay 5] else [], w)"

definition demo_parent_start :: rtos where
  "demo_parent_start = rtos_start (snd (rtos_createTask ''parent'' (Some (UserTask 0)) 1 512 rtos_init))"

definition demo_parent_end :: rtos where
  "demo_parent_end = fst (the (rtos_schedule 2 demo_parent (demo_parent_start, ())))"

lemma demo_parent_reach: "rtos_reach demo_parent (demo_parent_end, ())"
proof -
  have "r_nextTaskId rtos_init + 1 \<noteq> 0" by code_simp
  then have "rtos_reach demo_parent (snd (rtos_createTask ''parent'' (Some (UserTask 0)) 1 512 rtos_init), ())"
    by (rule rtos_reach.reach_step [OF rtos_reach.reach_init rtos_step.step_create])
  then have start: "rtos_reach demo_parent (demo_parent_start, ())"
    unfolding demo_parent_start_def by (rule rtos_reach.reach_step [OF _ rtos_step.step_start])
  have "rtos_schedule_ids 2 demo_parent (demo_parent_start, ()) \<noteq> None" by code_simp
  then obtain s where s: "rtos_schedule_ids 2 demo_parent (demo_parent_start, ()) = Some s" by blast
  then have run: "rtos_schedule 2 demo_parent (demo_parent_start, ()) = Some s" by (rule rtos_schedule_ids_same)
  then have "s = (demo_parent_end, ())" by (simp add: demo_parent_end_def prod_eq_iff)
  moreover have "rtos_step demo_parent (demo_parent_start, ()) s"
    by (rule rtos_step.step_call [where c = Schedule and n = 2]) (simp_all add: run rtos_ids_suffice_def s id_left_def)
  ultimately show ?thesis using rtos_reach.reach_step [OF start] by simp
qed

theorem rtos_no_task_lost_witness:
  "2 \<in> set (rq_at (r_readyQueue demo_parent_end) 1) \<and> 1 \<in> set (r_delayQueue demo_parent_end) \<and>
   r_currentTaskId demo_parent_end = 2"
proof -
  have "map_option (\<lambda>t. (tc_priority t, tc_state t)) (rtos_task 2 demo_parent_end) = Some (1, RUNNING)"
    "map_option tc_state (rtos_task 1 demo_parent_end) = Some BLOCKED" by code_simp+
  then obtain t u where t: "rtos_task 2 demo_parent_end = Some t" "tc_priority t = 1" "tc_state t = RUNNING"
    and u: "rtos_task 1 demo_parent_end = Some u" "tc_state u = BLOCKED" by auto
  show ?thesis
    using rtos_no_task_lost [OF demo_parent_reach] t u by metis
qed

end
