(* ===== verification/Text_Format.thy ===== *)
theory Text_Format
  imports Prelude
begin

text \<open>
  The parts of the C++ standard library that the monitor prints and parses with, in the C locale: white
  space, lower case, an output stream with its base and fill character, \<^verbatim>\<open>std::to_string\<close>,
  \<^verbatim>\<open>std::stoull\<close>, and extraction of words and unsigned numbers from a string stream.
\<close>

section \<open>Characters\<close>

definition nl :: string where
  "nl = [CHR 0x0A]"

text \<open>\<^verbatim>\<open>isspace\<close>: blank and the characters from tab to carriage return.\<close>

definition is_space :: "char \<Rightarrow> bool" where
  "is_space c \<longleftrightarrow> c = CHR '' '' \<or> (9 \<le> (of_char c :: nat) \<and> (of_char c :: nat) \<le> 13)"

definition is_blank :: "char \<Rightarrow> bool" where
  "is_blank c \<longleftrightarrow> c = CHR '' '' \<or> c = CHR 0x09"

definition is_digit :: "char \<Rightarrow> bool" where
  "is_digit c \<longleftrightarrow> 48 \<le> (of_char c :: nat) \<and> (of_char c :: nat) \<le> 57"

definition lower_char :: "char \<Rightarrow> char" where
  "lower_char c = (if 65 \<le> (of_char c :: nat) \<and> (of_char c :: nat) \<le> 90 then char_of ((of_char c :: nat) + 32) else c)"

definition trim :: "string \<Rightarrow> string" where
  "trim s = rev (dropWhile is_space (rev (dropWhile is_space s)))"

section \<open>Numbers\<close>

definition digit_char :: "nat \<Rightarrow> char" where
  "digit_char d = (if d < 10 then char_of (48 + d) else char_of (87 + d))"

definition digit_value :: "char \<Rightarrow> nat option" where
  "digit_value c =
     (let n = (of_char c :: nat)
      in if 48 \<le> n \<and> n \<le> 57 then Some (n - 48)
         else if 97 \<le> n \<and> n \<le> 122 then Some (n - 87)
         else if 65 \<le> n \<and> n \<le> 90 then Some (n - 55) else None)"

text \<open>The digits of a number, most significant first.\<close>

fun show_base :: "nat \<Rightarrow> nat \<Rightarrow> string" where
  "show_base b n = (if b < 2 \<or> n < b then [digit_char n] else show_base b (n div b) @ [digit_char (n mod b)])"

declare show_base.simps [simp del]

abbreviation show_dec :: "nat \<Rightarrow> string" where
  "show_dec \<equiv> show_base 10"

text \<open>The digits a number begins with: their value and what follows.\<close>

fun scan_digits :: "nat \<Rightarrow> nat \<Rightarrow> string \<Rightarrow> nat \<times> string" where
  "scan_digits b acc [] = (acc, [])"
| "scan_digits b acc (c # cs) =
     (case digit_value c of
        None \<Rightarrow> (acc, c # cs)
      | Some d \<Rightarrow> if d < b then scan_digits b (acc * b + d) cs else (acc, c # cs))"

definition starts_digit :: "nat \<Rightarrow> string \<Rightarrow> bool" where
  "starts_digit b s = (case s of [] \<Rightarrow> False | c # _ \<Rightarrow> (case digit_value c of None \<Rightarrow> False | Some d \<Rightarrow> d < b))"

text \<open>A sign, if there is one.\<close>

definition scan_sign :: "string \<Rightarrow> bool \<times> string" where
  "scan_sign s =
     (case s of
        c # cs \<Rightarrow> if c = CHR ''-'' then (True, cs) else if c = CHR ''+'' then (False, cs) else (False, s)
      | [] \<Rightarrow> (False, s))"

definition hex_prefix :: "string \<Rightarrow> bool" where
  "hex_prefix s \<longleftrightarrow> (case s of a # x # rest \<Rightarrow> a = CHR ''0'' \<and> (x = CHR ''x'' \<or> x = CHR ''X'') \<and> starts_digit 16 rest | _ \<Rightarrow> False)"

text \<open>
  \<^verbatim>\<open>strtoull\<close>: white space, a sign, for base 0 a prefix that chooses the base, digits. The result is the value,
  negated modulo the word size after a minus sign, and the rest of the text; no digits at all are an
  invalid argument, a value beyond the word is out of range.
\<close>

definition stoull :: "nat \<Rightarrow> string \<Rightarrow> cpp_exception + (u64 \<times> string)" where
  "stoull base s =
     (let (minus, t) = scan_sign (dropWhile is_space s);
          (b, t) = (if base \<noteq> 0 then (base, t)
                    else if hex_prefix t then (16, drop 2 t)
                    else if t \<noteq> [] \<and> hd t = CHR ''0'' then (8, t) else (10, t))
      in if \<not> starts_digit b t then Inl InvalidArgument
         else let (v, rest) = scan_digits b 0 t
              in if v \<ge> 2 ^ 64 then Inl OutOfRange
                 else Inr (if minus then - of_nat v else of_nat v, rest))"

text \<open>Extraction of a word from a string stream, and of an unsigned number in base ten.\<close>

definition extract_word :: "string \<Rightarrow> (string \<times> string) option" where
  "extract_word s =
     (let t = dropWhile is_space s
      in if t = [] then None else Some (takeWhile (\<lambda>c. \<not> is_space c) t, dropWhile (\<lambda>c. \<not> is_space c) t))"

definition extract_size :: "string \<Rightarrow> u64 option" where
  "extract_size s = (case stoull 10 s of Inl _ \<Rightarrow> None | Inr (v, _) \<Rightarrow> Some v)"

section \<open>Output streams\<close>

record ostream =
  os_text :: string
  os_hex :: bool
  os_fill :: char
  os_left :: bool

text \<open>What is sent to a stream: text and numbers, also of a minimal width, and manipulators.\<close>

datatype out = Str string | Num nat | StrW nat string | NumW nat nat | Hex | Dec | Fill char | LeftAdjust

definition os_number :: "nat \<Rightarrow> ostream \<Rightarrow> string" where
  "os_number n os = show_base (if os_hex os then 16 else 10) n"

definition pad :: "nat \<Rightarrow> string \<Rightarrow> ostream \<Rightarrow> string" where
  "pad w s os =
     (let padding = replicate (w - length s) (os_fill os) in if os_left os then s @ padding else padding @ s)"

fun put :: "out \<Rightarrow> ostream \<Rightarrow> ostream" where
  "put (Str s) os = os\<lparr>os_text := os_text os @ s\<rparr>"
| "put (Num n) os = os\<lparr>os_text := os_text os @ os_number n os\<rparr>"
| "put (StrW w s) os = os\<lparr>os_text := os_text os @ pad w s os\<rparr>"
| "put (NumW w n) os = os\<lparr>os_text := os_text os @ pad w (os_number n os) os\<rparr>"
| "put Hex os = os\<lparr>os_hex := True\<rparr>"
| "put Dec os = os\<lparr>os_hex := False\<rparr>"
| "put (Fill c) os = os\<lparr>os_fill := c\<rparr>"
| "put LeftAdjust os = os\<lparr>os_left := True\<rparr>"

definition puts :: "out list \<Rightarrow> ostream \<Rightarrow> ostream" where
  "puts = fold put"

section \<open>Printing and parsing\<close>

lemma of_char_char_of: "n < 256 \<Longrightarrow> (of_char (char_of n) :: nat) = n"
  by simp

lemma digit_value_char: "d < 16 \<Longrightarrow> digit_value (digit_char d) = Some d"
  by (auto simp: digit_value_def digit_char_def of_char_char_of Let_def)

lemma scan_digits_append:
  "snd (scan_digits b a xs) = [] \<Longrightarrow> scan_digits b a (xs @ ys) = scan_digits b (fst (scan_digits b a xs)) ys"
  by (induction b a xs rule: scan_digits.induct) (auto split: option.splits if_splits)

lemma show_base_scan: "2 \<le> b \<Longrightarrow> b \<le> 16 \<Longrightarrow> scan_digits b 0 (show_base b n) = (n, [])"
proof (induction b n rule: show_base.induct)
  case (1 b n)
  show ?case
  proof (cases "n < b")
    case True
    then show ?thesis using 1(2,3) by (simp add: show_base.simps [of b n] digit_value_char)
  next
    case False
    then have ih: "scan_digits b 0 (show_base b (n div b)) = (n div b, [])" using 1 by simp
    have "n mod b < b" using 1(2) by simp
    then have "n mod b < 16" using 1(3) by simp
    then show ?thesis
      using False 1(2) ih \<open>n mod b < b\<close> scan_digits_append [of b 0 "show_base b (n div b)" "[digit_char (n mod b)]"]
      by (simp add: show_base.simps [of b n] digit_value_char)
  qed
qed

lemma show_base_starts: "2 \<le> b \<Longrightarrow> b \<le> 16 \<Longrightarrow> show_base b n \<noteq> [] \<and> starts_digit b (show_base b n)"
proof (induction b n rule: show_base.induct)
  case (1 b n)
  then show ?case
    by (cases "n < b"; cases "show_base b (n div b)")
      (auto simp: show_base.simps [of b n] starts_digit_def digit_value_char split: option.splits)
qed

lemma show_dec_digits: "list_all is_digit (show_dec n)"
proof (induction "10 :: nat" n rule: show_base.induct)
  case (1 n)
  have d: "k < 10 \<Longrightarrow> is_digit (digit_char k)" for k
    by (simp add: is_digit_def digit_char_def of_char_char_of)
  have "n mod 10 < 10" by simp
  then show ?case using 1 d by (cases "n < 10") (auto simp: show_base.simps [of 10 n])
qed

lemma digit_not_space: "is_digit c \<Longrightarrow> \<not> is_space c"
  by (auto simp: is_digit_def is_space_def)

lemma digit_no_sign: "is_digit c \<Longrightarrow> c \<noteq> CHR ''-'' \<and> c \<noteq> CHR ''+''"
  by (auto simp: is_digit_def)

lemma show_dec_stoull: "n < 2 ^ 64 \<Longrightarrow> stoull 10 (show_dec n) = Inr (of_nat n, [])"
proof -
  assume n: "n < 2 ^ 64"
  obtain c cs where s: "show_dec n = c # cs" using show_base_starts [of 10 n] by (cases "show_dec n") auto
  have "is_digit c" using show_dec_digits [of n] by (simp add: s)
  then have "dropWhile is_space (c # cs) = c # cs" "scan_sign (c # cs) = (False, c # cs)"
    using digit_not_space digit_no_sign by (auto simp: scan_sign_def)
  then show ?thesis
    using n show_base_starts [of 10 n] show_base_scan [of 10 n] by (simp add: stoull_def s)
qed

end
