(* ===== verification/Logger.thy ===== *)
theory Logger
  imports Text_Format
begin

text \<open>
  The logger of \<^verbatim>\<open>common/logger.hpp\<close>: a line with the mark of its level on the standard output, errors on
  the standard error stream. The power and the reset controller log in normal operation, and their models carry
  the streams; the models of the other classes leave out the lines that they log on misuse.
\<close>

datatype log_level = Debug | Info | Warning | Error

record std_streams =
  std_out :: string
  std_err :: string

definition logger_log :: "log_level \<Rightarrow> string \<Rightarrow> std_streams \<Rightarrow> std_streams" where
  "logger_log level message st =
     (case level of
        Debug \<Rightarrow> st\<lparr>std_out := std_out st @ ''[DEBUG] '' @ message @ nl\<rparr>
      | Info \<Rightarrow> st\<lparr>std_out := std_out st @ ''[INFO] '' @ message @ nl\<rparr>
      | Warning \<Rightarrow> st\<lparr>std_out := std_out st @ ''[WARN] '' @ message @ nl\<rparr>
      | Error \<Rightarrow> st\<lparr>std_err := std_err st @ ''[ERROR] '' @ message @ nl\<rparr>)"

definition logger_debug :: "string \<Rightarrow> std_streams \<Rightarrow> std_streams" where
  "logger_debug = logger_log Debug"

definition logger_info :: "string \<Rightarrow> std_streams \<Rightarrow> std_streams" where
  "logger_info = logger_log Info"

definition logger_warning :: "string \<Rightarrow> std_streams \<Rightarrow> std_streams" where
  "logger_warning = logger_log Warning"

definition logger_error :: "string \<Rightarrow> std_streams \<Rightarrow> std_streams" where
  "logger_error = logger_log Error"

definition no_output :: std_streams where
  "no_output = \<lparr>std_out = [], std_err = []\<rparr>"

lemmas logger_defs = logger_info_def logger_warning_def logger_error_def logger_debug_def logger_log_def

text \<open>An operation that does not log, beside the streams.\<close>

type_synonym 's logged = "std_streams \<times> 's"

definition beside_log :: "std_streams \<Rightarrow> ('a, 's) outcome \<Rightarrow> ('a, 's logged) outcome" where
  "beside_log st = (\<lambda>(r, s). (r, (st, s)))"

lemma beside_log_simps [simp]:
  "beside_log st (ret a s) = ret a (st, s)" "beside_log st (throw e s) = throw e (st, s)"
  by (simp_all add: beside_log_def)

end
