(* ===== verification/Cpu_Core.thy ===== *)
theory Cpu_Core
  imports Firmware_Apps Rtos Logger
begin

text \<open>
  The processor of \<^verbatim>\<open>cpu/cpu.hpp\<close> with its register file, the power controllers and the reset controller
  of \<^verbatim>\<open>system/power\<close>. A computer is the processor, the power controllers by number (0 is the one the
  processor owns), the task scheduler, and the world: what the applications keep, and the machine behind
  the bus. The callbacks, interrupt handlers and task bodies of the embedding program are an environment.
\<close>

section \<open>Register file\<close>

definition NUM_GPRS :: nat where
  "NUM_GPRS = 16"

record register_file =
  m_gpr :: "u32 list"
  m_pc :: u32
  m_sp :: u32
  m_sr :: u32

definition rf_reset :: "register_file \<Rightarrow> register_file" where
  "rf_reset rf = rf\<lparr>m_gpr := replicate NUM_GPRS 0, m_pc := 0, m_sp := 0, m_sr := 0\<rparr>"

definition rf_init :: register_file where
  "rf_init = rf_reset \<lparr>m_gpr = replicate NUM_GPRS 0, m_pc = 0, m_sp = 0, m_sr = 0\<rparr>"

definition rf_validateIndex :: "u64 \<Rightarrow> 's \<Rightarrow> (unit, 's) outcome" where
  "rf_validateIndex i s = (if unat i \<ge> NUM_GPRS then throw OutOfRange s else ret () s)"

definition rf_readRegister :: "u64 \<Rightarrow> register_file \<Rightarrow> (u32, register_file) outcome" where
  "rf_readRegister i rf = and_then (rf_validateIndex i rf) (\<lambda>_. ret (m_gpr rf ! unat i))"

definition rf_writeRegister :: "u64 \<Rightarrow> u32 \<Rightarrow> register_file \<Rightarrow> (unit, register_file) outcome" where
  "rf_writeRegister i v rf =
     and_then (rf_validateIndex i rf) (\<lambda>_ rf. ret () (rf\<lparr>m_gpr := (m_gpr rf)[unat i := v]\<rparr>))"

definition rf_writePC :: "u32 \<Rightarrow> register_file \<Rightarrow> register_file" where
  "rf_writePC v rf = rf\<lparr>m_pc := v\<rparr>"

definition rf_writeSP :: "u32 \<Rightarrow> register_file \<Rightarrow> register_file" where
  "rf_writeSP v rf = rf\<lparr>m_sp := v\<rparr>"

definition rf_writeStatus :: "u32 \<Rightarrow> register_file \<Rightarrow> register_file" where
  "rf_writeStatus v rf = rf\<lparr>m_sr := v\<rparr>"

section \<open>Power\<close>

datatype power_state = OFF | ON | SLEEP

text \<open>The operations on the state, which log what they do.\<close>

definition power_powerOn :: "power_state logged \<Rightarrow> power_state logged" where
  "power_powerOn = (\<lambda>(st, p). if p \<noteq> ON then (logger_info ''PowerController: Power ON'' st, ON) else (st, p))"

definition power_powerOff :: "power_state logged \<Rightarrow> power_state logged" where
  "power_powerOff = (\<lambda>(st, p). if p \<noteq> OFF then (logger_info ''PowerController: Power OFF'' st, OFF) else (st, p))"

definition power_sleep :: "power_state logged \<Rightarrow> power_state logged" where
  "power_sleep = (\<lambda>(st, p).
     if p = ON then (logger_info ''PowerController: Entering SLEEP mode'' st, SLEEP)
     else (logger_warning ''PowerController: Cannot sleep unless in ON state'' st, p))"

definition power_wake :: "power_state logged \<Rightarrow> power_state logged" where
  "power_wake = (\<lambda>(st, p).
     if p = SLEEP then (logger_info ''PowerController: Waking up from SLEEP mode'' st, ON)
     else (logger_warning ''PowerController: Cannot wake unless in SLEEP state'' st, p))"

definition power_isPowerOn :: "power_state \<Rightarrow> bool" where
  "power_isPowerOn p \<longleftrightarrow> p = ON"

definition power_isSleep :: "power_state \<Rightarrow> bool" where
  "power_isSleep p \<longleftrightarrow> p = SLEEP"

definition power_isPowerOff :: "power_state \<Rightarrow> bool" where
  "power_isPowerOff p \<longleftrightarrow> p = OFF"

section \<open>The processor and its surroundings\<close>

record cpu =
  c_systemBus :: bool
  c_ownedSystemBus :: bool
  c_powerController :: nat
  c_firmwareManager :: fw_manager
  c_rtosScheduler :: bool
  c_registerFile :: register_file
  c_running :: bool
  c_cycleCount :: u64

record ('w, 'b) computer =
  cpu0 :: cpu
  powers :: "nat \<Rightarrow> power_state"
  rtos0 :: rtos
  world :: "'w \<times> 'b"

text \<open>The closures and objects of the embedding program.\<close>

record ('w, 'b) environment =
  e_class :: "('w \<times> 'b) fw_class"
  e_callback :: "nat \<Rightarrow> 'b \<Rightarrow> (unit, 'b) outcome"
  e_handler :: "nat \<Rightarrow> 'b \<Rightarrow> (unit, 'b) outcome"
  e_tasks :: "nat \<Rightarrow> 'w \<times> 'b \<Rightarrow> rtos_call list \<times> ('w \<times> 'b)"

definition upd_cpu :: "(cpu \<Rightarrow> cpu) \<Rightarrow> ('w, 'b) computer \<Rightarrow> ('w, 'b) computer" where
  "upd_cpu f c = c\<lparr>cpu0 := f (cpu0 c)\<rparr>"

definition via_bus :: "('b \<Rightarrow> ('a, 'b) outcome) \<Rightarrow> ('w, 'b) computer \<Rightarrow> ('a, ('w, 'b) computer) outcome" where
  "via_bus f c = (case f (snd (world c)) of (r, s) \<Rightarrow> (r, c\<lparr>world := (fst (world c), s)\<rparr>))"

definition via_fm ::
  "(('w \<times> 'b) on_fm \<Rightarrow> ('a, ('w \<times> 'b) on_fm) outcome) \<Rightarrow> ('w, 'b) computer \<Rightarrow> ('a, ('w, 'b) computer) outcome" where
  "via_fm f c = (case f (c_firmwareManager (cpu0 c), world c) of (r, (fm, ws)) \<Rightarrow>
     (r, (upd_cpu (\<lambda>p. p\<lparr>c_firmwareManager := fm\<rparr>) c)\<lparr>world := ws\<rparr>))"

text \<open>Without a bus the processor makes its own.\<close>

definition blank_cpu :: cpu where
  "blank_cpu = \<lparr>c_systemBus = True, c_ownedSystemBus = False, c_powerController = 0, c_firmwareManager = fm_init,
     c_rtosScheduler = False, c_registerFile = rf_init, c_running = False, c_cycleCount = 0\<rparr>"

definition cpu_init :: "bool \<Rightarrow> ('w, 'z bus_st_scheme) computer \<Rightarrow> ('w, 'z bus_st_scheme) computer" where
  "cpu_init bus c =
     (let c = c\<lparr>cpu0 := blank_cpu, powers := (powers c)(0 := ON)\<rparr>
      in if bus then c
         else upd_cpu (\<lambda>p. p\<lparr>c_ownedSystemBus := True\<rparr>)
                (snd (via_bus (plainly (sb_init False False False)) c)))"

definition cpu_initIrq :: "bool \<Rightarrow> ('w, 'z bus_st_scheme) computer \<Rightarrow> ('w, 'z bus_st_scheme) computer" where
  "cpu_initIrq irq c =
     (let c = c\<lparr>cpu0 := blank_cpu, powers := (powers c)(0 := ON)\<rparr>
      in upd_cpu (\<lambda>p. p\<lparr>c_ownedSystemBus := True\<rparr>) (snd (via_bus (plainly (sb_init False False irq)) c)))"

definition cpu_isPowerOn :: "('w, 'b) computer \<Rightarrow> bool" where
  "cpu_isPowerOn c = power_isPowerOn (powers c (c_powerController (cpu0 c)))"

definition cpu_setPowerController :: "nat option \<Rightarrow> ('w, 'b) computer \<Rightarrow> ('w, 'b) computer" where
  "cpu_setPowerController ptr =
     upd_cpu (\<lambda>p. p\<lparr>c_powerController := (case ptr of Some k \<Rightarrow> k | None \<Rightarrow> 0)\<rparr>)"

text \<open>
  The machine has one bus. A processor that owns it destroys it here; handing the processor its own bus
  leaves a dangling pointer, for which the model has no state.
\<close>

definition cpu_setSystemBus ::
  "bool \<Rightarrow> ('w, 'z bus_st_scheme) computer \<Rightarrow> ('w, 'z bus_st_scheme) computer option" where
  "cpu_setSystemBus ptr c =
     (if c_ownedSystemBus (cpu0 c) \<and> ptr then None
      else let owned = c_ownedSystemBus (cpu0 c);
               c = upd_cpu (\<lambda>p. p\<lparr>c_systemBus := ptr\<rparr>) c;
               c = (if owned then snd (via_bus (plainly sb_destroy) c) else c)
           in Some (upd_cpu (\<lambda>p. p\<lparr>c_ownedSystemBus := False\<rparr>) c))"

definition cpu_attachRTOSScheduler :: "bool \<Rightarrow> ('w, 'b) computer \<Rightarrow> ('w, 'b) computer" where
  "cpu_attachRTOSScheduler ptr = upd_cpu (\<lambda>p. p\<lparr>c_rtosScheduler := ptr\<rparr>)"

definition cpu_start :: "('w, 'b) environment \<Rightarrow> ('w, 'b) computer \<Rightarrow> (unit, ('w, 'b) computer) outcome" where
  "cpu_start e c =
     (if \<not> c_running (cpu0 c)
      then let c = upd_cpu (\<lambda>p. p\<lparr>c_running := True\<rparr>) c
           in and_then (via_fm (fm_initialize (e_class e)) c) (\<lambda>_ c.
                ret () (if c_rtosScheduler (cpu0 c) then c\<lparr>rtos0 := rtos_start (rtos0 c)\<rparr> else c))
      else ret () c)"

definition cpu_stop :: "('w, 'b) environment \<Rightarrow> ('w, 'b) computer \<Rightarrow> (unit, ('w, 'b) computer) outcome" where
  "cpu_stop e c =
     (if c_running (cpu0 c)
      then let c = upd_cpu (\<lambda>p. p\<lparr>c_running := False\<rparr>) c
           in and_then (via_fm (fm_shutdown (e_class e)) c) (\<lambda>_ c.
                ret () (if c_rtosScheduler (cpu0 c) then c\<lparr>rtos0 := rtos_stop (rtos0 c)\<rparr> else c))
      else ret () c)"

definition cpu_destroy :: "('w, 'b) environment \<Rightarrow> ('w, 'b) computer \<Rightarrow> (unit, ('w, 'b) computer) outcome" where
  "cpu_destroy e = cpu_stop e"

definition cpu_reset ::
  "('w, 'z bus_st_scheme) environment \<Rightarrow> ('w, 'z bus_st_scheme) computer \<Rightarrow>
   (unit, ('w, 'z bus_st_scheme) computer) outcome" where
  "cpu_reset e c =
     (let c = upd_cpu (\<lambda>p. p\<lparr>c_cycleCount := 0\<rparr>) c;
          c = upd_cpu (\<lambda>p. p\<lparr>c_registerFile := rf_reset (c_registerFile p)\<rparr>) c
      in and_then (via_fm (fm_reset (e_class e)) c) (\<lambda>_ c.
           let c = (if c_rtosScheduler (cpu0 c) then c\<lparr>rtos0 := rtos_reset (rtos0 c)\<rparr> else c)
           in if c_systemBus (cpu0 c) then via_bus (plainly sb_reset) c else ret () c))"

section \<open>Execution\<close>

text \<open>
  A step. The depth bounds the recursion of the task scheduler, as in \<open>rtos_schedule\<close>: \<open>None\<close> means that it
  was not enough.
\<close>

definition cpu_step ::
  "('w, 'z bus_st_scheme) environment \<Rightarrow> nat \<Rightarrow> ('w, 'z bus_st_scheme) computer \<Rightarrow>
   (unit, ('w, 'z bus_st_scheme) computer) outcome option" where
  "cpu_step e n c =
     (if \<not> cpu_isPowerOn c then Some (ret () c)
      else let c = upd_cpu (\<lambda>p. p\<lparr>c_cycleCount := c_cycleCount p + 1\<rparr>) c
           in case (if c_systemBus (cpu0 c) then via_bus (sb_cycle (e_callback e) (e_handler e)) c else ret () c) of
                (Inl ex, c) \<Rightarrow> Some (throw ex c)
              | (Inr _, c) \<Rightarrow>
                  if c_rtosScheduler (cpu0 c) \<and> r_running (rtos0 c)
                  then map_option (\<lambda>(r, ws). ret () (c\<lparr>rtos0 := r, world := ws\<rparr>))
                         (rtos_schedule n (e_tasks e) (rtos_tick (rtos0 c), world c))
                  else if c_running (cpu0 c) then Some (via_fm (fm_update (e_class e)) c)
                  else Some (ret () c))"

text \<open>The loop of \<^verbatim>\<open>run\<close>.\<close>

fun cpu_loop ::
  "('w, 'z bus_st_scheme) environment \<Rightarrow> nat \<Rightarrow> nat \<Rightarrow> ('w, 'z bus_st_scheme) computer \<Rightarrow>
   (unit, ('w, 'z bus_st_scheme) computer) outcome option" where
  "cpu_loop e n 0 c = Some (ret () c)"
| "cpu_loop e n (Suc k) c =
     (if \<not> c_running (cpu0 c) then Some (ret () c)
      else if \<not> cpu_isPowerOn c then Some (ret () c)
      else case cpu_step e n c of
             None \<Rightarrow> None
           | Some (Inl ex, c) \<Rightarrow> Some (throw ex c)
           | Some (Inr _, c) \<Rightarrow> cpu_loop e n k c)"

definition cpu_run ::
  "('w, 'z bus_st_scheme) environment \<Rightarrow> nat \<Rightarrow> u64 \<Rightarrow> ('w, 'z bus_st_scheme) computer \<Rightarrow>
   (unit, ('w, 'z bus_st_scheme) computer) outcome option" where
  "cpu_run e n cycles c =
     (case cpu_start e c of
        (Inl ex, c) \<Rightarrow> Some (throw ex c)
      | (Inr _, c) \<Rightarrow> cpu_loop e n (unat cycles) c)"

section \<open>Firmware and attachments\<close>

definition cpu_loadFirmware ::
  "('w, 'b) environment \<Rightarrow> nat option \<Rightarrow> string \<Rightarrow> ('w, 'b) computer \<Rightarrow> (bool, ('w, 'b) computer) outcome" where
  "cpu_loadFirmware e fw name c =
     (case fw of
        None \<Rightarrow> ret False c
      | Some f \<Rightarrow>
          and_then (if c_running (cpu0 c) then cpu_stop e c else ret () c) (\<lambda>_ c.
            let fm = snd (fm_registerFirmware name (Some f) (c_firmwareManager (cpu0 c)));
                c = upd_cpu (\<lambda>p. p\<lparr>c_firmwareManager := fm\<rparr>) c
            in and_then (via_fm (fm_setActiveFirmware (e_class e) name) c) (\<lambda>_. ret True)))"

definition cpu_unloadFirmware ::
  "('w, 'b) environment \<Rightarrow> ('w, 'b) computer \<Rightarrow> (unit, ('w, 'b) computer) outcome" where
  "cpu_unloadFirmware e c =
     and_then (if c_running (cpu0 c) then cpu_stop e c else ret () c) (\<lambda>_ c.
       let activeName = fm_activeName (c_firmwareManager (cpu0 c))
       in if activeName \<noteq> []
          then and_then (via_fm (fm_unregisterFirmware (e_class e) activeName) c) (\<lambda>_. ret ())
          else ret () c)"

definition cpu_firmware :: "('w, 'b) computer \<Rightarrow> nat option" where
  "cpu_firmware c = fm_activeFirmware (c_firmwareManager (cpu0 c))"

definition cpu_firmwareLoaded :: "('w, 'b) computer \<Rightarrow> bool" where
  "cpu_firmwareLoaded c \<longleftrightarrow> fm_activeFirmware (c_firmwareManager (cpu0 c)) \<noteq> None"

text \<open>A call forwarded to the bus, false without one.\<close>

definition on_bus ::
  "('z bus_st_scheme \<Rightarrow> bool \<times> 'z bus_st_scheme) \<Rightarrow> ('w, 'z bus_st_scheme) computer \<Rightarrow>
   bool \<times> ('w, 'z bus_st_scheme) computer" where
  "on_bus f c =
     (if c_systemBus (cpu0 c) then (case f (snd (world c)) of (r, s) \<Rightarrow> (r, c\<lparr>world := (fst (world c), s)\<rparr>))
      else (False, c))"

definition cpu_attachDMA ::
  "nat option \<Rightarrow> ('w, 'z bus_st_scheme) computer \<Rightarrow> bool \<times> ('w, 'z bus_st_scheme) computer" where
  "cpu_attachDMA d = on_bus (sb_attachDMA d)"

definition cpu_detachDMA ::
  "nat option \<Rightarrow> ('w, 'z bus_st_scheme) computer \<Rightarrow> bool \<times> ('w, 'z bus_st_scheme) computer" where
  "cpu_detachDMA d = on_bus (sb_detachDMA d)"

definition cpu_dmaController :: "('w, 'z bus_st_scheme) computer \<Rightarrow> nat option" where
  "cpu_dmaController c = (if c_systemBus (cpu0 c) then sb_dma (snd (world c)) else None)"

definition cpu_attachTimer ::
  "nat option \<Rightarrow> ('w, 'z bus_st_scheme) computer \<Rightarrow> bool \<times> ('w, 'z bus_st_scheme) computer" where
  "cpu_attachTimer t = on_bus (sb_attachTimer t)"

definition cpu_detachTimer ::
  "nat option \<Rightarrow> ('w, 'z bus_st_scheme) computer \<Rightarrow> bool \<times> ('w, 'z bus_st_scheme) computer" where
  "cpu_detachTimer t = on_bus (sb_detachTimer t)"

definition cpu_setInterruptController ::
  "bool \<Rightarrow> ('w, 'z bus_st_scheme) computer \<Rightarrow> ('w, 'z bus_st_scheme) computer" where
  "cpu_setInterruptController ptr c =
     (if c_systemBus (cpu0 c) then c\<lparr>world := (fst (world c), sb_setInterrupts ptr (snd (world c)))\<rparr> else c)"

definition cpu_interruptController :: "('w, 'z bus_st_scheme) computer \<Rightarrow> bool" where
  "cpu_interruptController c \<longleftrightarrow> c_systemBus (cpu0 c) \<and> sb_interruptController (sb (snd (world c)))"

section \<open>The reset controller\<close>

text \<open>Its pointers to the processor, to the bus and to the firmware manager (that of the processor).\<close>

record reset_controller =
  rc_cpu :: bool
  rc_systemBus :: bool
  rc_firmwareManager :: bool

definition rc_init :: "bool \<Rightarrow> bool \<Rightarrow> bool \<Rightarrow> reset_controller" where
  "rc_init cpu bus fm = \<lparr>rc_cpu = cpu, rc_systemBus = bus, rc_firmwareManager = fm\<rparr>"

definition rc_setCPU :: "bool \<Rightarrow> reset_controller \<Rightarrow> reset_controller" where
  "rc_setCPU ptr rc = rc\<lparr>rc_cpu := ptr\<rparr>"

definition rc_setSystemBus :: "bool \<Rightarrow> reset_controller \<Rightarrow> reset_controller" where
  "rc_setSystemBus ptr rc = rc\<lparr>rc_systemBus := ptr\<rparr>"

definition rc_setFirmwareManager :: "bool \<Rightarrow> reset_controller \<Rightarrow> reset_controller" where
  "rc_setFirmwareManager ptr rc = rc\<lparr>rc_firmwareManager := ptr\<rparr>"

text \<open>Each reset logs first.\<close>

definition rc_resetCPU ::
  "('w, 'z bus_st_scheme) environment \<Rightarrow> reset_controller \<Rightarrow> ('w, 'z bus_st_scheme) computer logged \<Rightarrow>
   (unit, ('w, 'z bus_st_scheme) computer logged) outcome" where
  "rc_resetCPU e rc = (\<lambda>(st, c).
     let st = logger_info ''ResetController: Resetting CPU'' st
     in beside_log st (if rc_cpu rc then cpu_reset e c else ret () c))"

definition rc_resetPeripherals ::
  "reset_controller \<Rightarrow> ('w, 'z bus_st_scheme) computer logged \<Rightarrow>
   (unit, ('w, 'z bus_st_scheme) computer logged) outcome" where
  "rc_resetPeripherals rc = (\<lambda>(st, c).
     let st = logger_info ''ResetController: Resetting Peripherals'' st
     in beside_log st (if rc_systemBus rc then via_bus (plainly sb_reset) c else ret () c))"

definition rc_resetFirmware ::
  "('w, 'b) environment \<Rightarrow> reset_controller \<Rightarrow> ('w, 'b) computer logged \<Rightarrow>
   (unit, ('w, 'b) computer logged) outcome" where
  "rc_resetFirmware e rc = (\<lambda>(st, c).
     let st = logger_info ''ResetController: Resetting Firmware'' st
     in beside_log st
          (if rc_firmwareManager rc \<or> rc_cpu rc
           then and_then (via_fm (fm_reset (e_class e)) c) (\<lambda>_. via_fm (fm_initialize (e_class e)))
           else ret () c))"

definition rc_resetSystem ::
  "('w, 'z bus_st_scheme) environment \<Rightarrow> reset_controller \<Rightarrow> ('w, 'z bus_st_scheme) computer logged \<Rightarrow>
   (unit, ('w, 'z bus_st_scheme) computer logged) outcome" where
  "rc_resetSystem e rc = (\<lambda>(st, c).
     let st = logger_info ''ResetController: Performing Full System Reset'' st
     in and_then (rc_resetCPU e rc (st, c)) (\<lambda>_ sc. and_then (rc_resetPeripherals rc sc) (\<lambda>_. rc_resetFirmware e rc)))"

end
