(* ===== verification/Cpu_Runs.thy ===== *)
theory Cpu_Runs
  imports Cpu_Core
begin

text \<open>
  What the processor guarantees: a run is its steps, nothing executes without power, a reset leaves the
  firmware stopped, and the basic firmware blinks by the cycle of the clock.
\<close>

section \<open>What a call leaves alone\<close>

definition cpu_same :: "('w, 'b) computer \<Rightarrow> ('w, 'b) computer \<Rightarrow> bool" where
  "cpu_same c c' \<longleftrightarrow> c_running (cpu0 c') = c_running (cpu0 c) \<and> c_rtosScheduler (cpu0 c') = c_rtosScheduler (cpu0 c) \<and>
     c_systemBus (cpu0 c') = c_systemBus (cpu0 c) \<and> c_powerController (cpu0 c') = c_powerController (cpu0 c) \<and>
     powers c' = powers c"

lemma cpu_same_refl [simp]: "cpu_same c c"
  by (simp add: cpu_same_def)

lemma cpu_same_trans: "cpu_same a b \<Longrightarrow> cpu_same b c \<Longrightarrow> cpu_same a c"
  by (simp add: cpu_same_def)

lemma cpu_same_via_fm: "via_fm f c = (r, c') \<Longrightarrow> cpu_same c c'"
  by (auto simp: via_fm_def cpu_same_def upd_cpu_def split: prod.splits)

lemma cpu_same_via_bus: "via_bus f c = (r, c') \<Longrightarrow> cpu_same c c'"
  by (auto simp: via_bus_def cpu_same_def split: prod.splits)

lemma cpu_same_step: "cpu_step e n c = Some (r, c') \<Longrightarrow> cpu_same c c'"
proof -
  assume step: "cpu_step e n c = Some (r, c')"
  let ?c = "upd_cpu (\<lambda>p. p\<lparr>c_cycleCount := c_cycleCount p + 1\<rparr>) c"
  let ?b = "if c_systemBus (cpu0 ?c) then via_bus (sb_cycle (e_callback e) (e_handler e)) ?c else ret () ?c"
  obtain q b where b: "?b = (q, b)" by (cases ?b)
  have "cpu_same c ?c" by (simp add: cpu_same_def upd_cpu_def)
  moreover have "cpu_same ?c b" using b by (auto split: if_splits dest: cpu_same_via_bus)
  ultimately have cb: "cpu_same c b" by (rule cpu_same_trans)
  show ?thesis
  proof (cases "cpu_isPowerOn c")
    case True
    with step b have "c' = b \<or> (\<exists>r ws. c' = b\<lparr>rtos0 := r, world := ws\<rparr>) \<or> (\<exists>v. via_fm (fm_update (e_class e)) b = (v, c'))"
      by (auto simp: cpu_step_def Let_def split: sum.splits if_splits)
    then show ?thesis
      using cb cpu_same_via_fm [of "fm_update (e_class e)" b _ c'] cpu_same_trans [OF cb] by (auto simp: cpu_same_def)
  qed (use step in \<open>simp add: cpu_step_def\<close>)
qed

lemma cpu_same_power: "cpu_same c c' \<Longrightarrow> cpu_isPowerOn c' = cpu_isPowerOn c"
  by (simp add: cpu_same_def cpu_isPowerOn_def)

section \<open>A run is its steps\<close>

text \<open>Sequencing of operations that may throw or not return.\<close>

definition then_next ::
  "('a, 's) outcome option \<Rightarrow> ('a \<Rightarrow> 's \<Rightarrow> ('b, 's) outcome option) \<Rightarrow> ('b, 's) outcome option" where
  "then_next m f = (case m of None \<Rightarrow> None | Some (Inl e, s) \<Rightarrow> Some (throw e s) | Some (Inr a, s) \<Rightarrow> f a s)"

lemma then_next_simps [simp]:
  "then_next None f = None" "then_next (Some (Inl e, s)) f = Some (throw e s)" "then_next (Some (Inr a, s)) f = f a s"
  by (simp_all add: then_next_def)

lemma then_next_assoc: "then_next (then_next m f) g = then_next m (\<lambda>a s. then_next (f a s) g)"
  by (auto simp: then_next_def split: option.splits prod.splits sum.splits)

fun cpu_steps ::
  "('w, 'z bus_st_scheme) environment \<Rightarrow> nat \<Rightarrow> nat \<Rightarrow> ('w, 'z bus_st_scheme) computer \<Rightarrow>
   (unit, ('w, 'z bus_st_scheme) computer) outcome option" where
  "cpu_steps e n 0 c = Some (ret () c)"
| "cpu_steps e n (Suc k) c = then_next (cpu_step e n c) (\<lambda>_. cpu_steps e n k)"

lemma cpu_steps_add: "cpu_steps e n (j + k) c = then_next (cpu_steps e n j c) (\<lambda>_. cpu_steps e n k)"
proof (induction j arbitrary: c)
  case (Suc j)
  have "cpu_steps e n (j + k) = (\<lambda>c. then_next (cpu_steps e n j c) (\<lambda>_. cpu_steps e n k))"
    by (rule ext) (rule Suc.IH)
  then show ?case by (simp add: then_next_assoc)
qed simp

lemma cpu_steps_off: "\<not> cpu_isPowerOn c \<Longrightarrow> cpu_steps e n k c = Some (ret () c)"
  by (induction k) (simp_all add: cpu_step_def)

lemma cpu_same_steps: "cpu_steps e n k c = Some (r, c') \<Longrightarrow> cpu_same c c'"
  by (induction k arbitrary: c)
    (auto simp: then_next_def split: option.splits sum.splits dest!: cpu_same_step intro: cpu_same_trans)

lemma cpu_loop_steps: "c_running (cpu0 c) \<Longrightarrow> cpu_loop e n k c = cpu_steps e n k c"
proof (induction k arbitrary: c)
  case (Suc k)
  show ?case
  proof (cases "cpu_isPowerOn c")
    case True
    have "c_running (cpu0 c')" if "cpu_step e n c = Some (r, c')" for r c'
      using cpu_same_step [OF that] Suc.prems by (simp add: cpu_same_def)
    then show ?thesis using Suc True
      by (auto simp: then_next_def split: option.splits sum.splits prod.splits)
  qed (use Suc.prems cpu_steps_off [of c e n "Suc k"] in simp)
qed simp

lemma cpu_start_running: "cpu_start e c = ret () c' \<Longrightarrow> c_running (cpu0 c')"
  by (auto simp: cpu_start_def Let_def and_then_Inr_iff upd_cpu_def cpu_same_def split: if_splits
      dest!: cpu_same_via_fm)

lemma cpu_run_steps: "cpu_run e n k c = then_next (Some (cpu_start e c)) (\<lambda>_. cpu_steps e n (unat k))"
  using cpu_start_running [of e c]
  by (cases "cpu_start e c") (auto simp: cpu_run_def cpu_loop_steps split: sum.splits)

lemma cpu_start_again: "c_running (cpu0 c) \<Longrightarrow> cpu_start e c = ret () c"
  by (simp add: cpu_start_def)

section \<open>Commands to a processor without power\<close>

datatype cpu_cmd = CStep | CRun u64 | CSleep | CWake | CPowerOff | CPowerOn

text \<open>An operation of the processor's power controller.\<close>

definition upd_power ::
  "(power_state logged \<Rightarrow> power_state logged) \<Rightarrow> ('w, 'b) computer logged \<Rightarrow> ('w, 'b) computer logged" where
  "upd_power f = (\<lambda>(st, c).
     let k = c_powerController (cpu0 c); (st, p) = f (st, powers c k) in (st, c\<lparr>powers := (powers c)(k := p)\<rparr>))"

fun cpu_command ::
  "('w, 'z bus_st_scheme) environment \<Rightarrow> nat \<Rightarrow> cpu_cmd \<Rightarrow> ('w, 'z bus_st_scheme) computer logged \<Rightarrow>
   (unit, ('w, 'z bus_st_scheme) computer logged) outcome option" where
  "cpu_command e n CStep (st, c) = map_option (beside_log st) (cpu_step e n c)"
| "cpu_command e n (CRun k) (st, c) = map_option (beside_log st) (cpu_run e n k c)"
| "cpu_command e n CSleep sc = Some (ret () (upd_power power_sleep sc))"
| "cpu_command e n CWake sc = Some (ret () (upd_power power_wake sc))"
| "cpu_command e n CPowerOff sc = Some (ret () (upd_power power_powerOff sc))"
| "cpu_command e n CPowerOn sc = Some (ret () (upd_power power_powerOn sc))"

fun cpu_commands ::
  "('w, 'z bus_st_scheme) environment \<Rightarrow> nat \<Rightarrow> cpu_cmd list \<Rightarrow> ('w, 'z bus_st_scheme) computer logged \<Rightarrow>
   (unit, ('w, 'z bus_st_scheme) computer logged) outcome option" where
  "cpu_commands e n [] sc = Some (ret () sc)"
| "cpu_commands e n (q # qs) sc = then_next (cpu_command e n q sc) (\<lambda>_. cpu_commands e n qs)"

fun is_run :: "cpu_cmd \<Rightarrow> bool" where
  "is_run (CRun k) = True"
| "is_run q = False"

text \<open>What a command logs while the power is off.\<close>

fun off_logs :: "cpu_cmd \<Rightarrow> std_streams \<Rightarrow> std_streams" where
  "off_logs CSleep st = logger_warning ''PowerController: Cannot sleep unless in ON state'' st"
| "off_logs CWake st = logger_warning ''PowerController: Cannot wake unless in SLEEP state'' st"
| "off_logs q st = st"

definition power_off :: "('w, 'b) computer \<Rightarrow> bool" where
  "power_off c \<longleftrightarrow> powers c (c_powerController (cpu0 c)) = OFF"

lemma power_off_steps: "power_off c \<Longrightarrow> cpu_steps e n k c = Some (ret () c)" "power_off c \<Longrightarrow> cpu_step e n c = Some (ret () c)"
  by (rule cpu_steps_off) (simp_all add: power_off_def cpu_step_def cpu_isPowerOn_def power_isPowerOn_def)

lemma power_off_start: "power_off c \<Longrightarrow> cpu_start e c = (r, c') \<Longrightarrow> power_off c'"
  by (auto simp: cpu_start_def Let_def and_then_def power_off_def upd_cpu_def cpu_same_def split: if_splits prod.splits sum.splits
      dest!: cpu_same_via_fm)

lemma power_off_run: "power_off c \<Longrightarrow> cpu_run e n k c = Some (cpu_start e c)"
  using power_off_start [of c e] power_off_steps(1)
  by (cases "cpu_start e c") (auto simp: cpu_run_steps then_next_def split: sum.splits)

lemma power_off_command:
  assumes "power_off c" and "q \<noteq> CPowerOn"
  shows "cpu_command e n q (st, c) =
    (if is_run q then Some (beside_log st (cpu_start e c)) else Some (ret () (off_logs q st, c)))"
  using assms power_off_steps(2) [OF assms(1)] power_off_run [OF assms(1)]
  by (cases q) (simp_all add: upd_power_def power_off_def power_sleep_def power_wake_def power_powerOff_def fun_upd_idem)

lemma power_off_running:
  assumes "power_off c" and "c_running (cpu0 c)" and "CPowerOn \<notin> set qs"
  shows "cpu_commands e n qs (st, c) = Some (ret () (fold off_logs qs st, c))"
  using assms(3)
proof (induction qs arbitrary: st)
  case (Cons q qs)
  have "off_logs q st = st" if "is_run q" using that by (cases q) simp_all
  then show ?case
    using Cons power_off_command [OF assms(1), of q e n st] by (auto simp: cpu_start_again [OF assms(2)])
qed simp

section \<open>A processor that was reset\<close>

text \<open>No application is live and the task scheduler does not run, so a step concerns the bus only.\<close>

lemma via_bus_fields:
  "via_bus f c = (r, c') \<Longrightarrow> cpu0 c' = cpu0 c \<and> rtos0 c' = rtos0 c \<and> fst (world c') = fst (world c)"
  by (auto simp: via_bus_def split: prod.splits)

lemma app_live_world: "app_live g ws = app_on (aw_apps (fst ws) g)"
  by (cases ws) simp

definition apps_stopped :: "(app_world, 'z bus_st_scheme) computer \<Rightarrow> bool" where
  "apps_stopped c \<longleftrightarrow> (\<forall>g. \<not> app_on (aw_apps (fst (world c)) g)) \<and>
     (c_rtosScheduler (cpu0 c) \<longrightarrow> \<not> r_running (rtos0 c))"

lemma stopped_update:
  assumes "apps_stopped c"
  shows "via_fm (fm_update app_class) c = ret () c"
proof -
  have "\<not> app_live g (world c)" for g using assms by (simp add: apps_stopped_def app_live_world)
  then have "fm_update app_class (c_firmwareManager (cpu0 c), world c) = ret () (c_firmwareManager (cpu0 c), world c)"
    by (rule apps.none_idle)
  then show ?thesis by (simp add: via_fm_def upd_cpu_def)
qed

lemma stopped_step:
  assumes "apps_stopped c" and "e_class e = app_class"
  shows "\<exists>r c'. cpu_step e n c = Some (r, c') \<and> apps_stopped c' \<and> fst (world c') = fst (world c) \<and> rtos0 c' = rtos0 c"
proof (cases "cpu_isPowerOn c")
  case True
  let ?c = "upd_cpu (\<lambda>p. p\<lparr>c_cycleCount := c_cycleCount p + 1\<rparr>) c"
  let ?b = "if c_systemBus (cpu0 ?c) then via_bus (sb_cycle (e_callback e) (e_handler e)) ?c else ret () ?c"
  obtain q b where b: "?b = (q, b)" by (cases ?b)
  then have f: "rtos0 b = rtos0 c \<and> fst (world b) = fst (world c)" and p: "c_rtosScheduler (cpu0 b) = c_rtosScheduler (cpu0 c)"
    by (auto simp: upd_cpu_def split: if_splits dest: via_bus_fields)
  from p have st: "apps_stopped b" using f assms(1) by (simp add: apps_stopped_def)
  then have "\<not> (c_rtosScheduler (cpu0 b) \<and> r_running (rtos0 b))" by (simp add: apps_stopped_def)
  then have "\<exists>r. cpu_step e n c = Some (r, b)"
    using True b stopped_update [OF st] assms(2) by (cases q) (auto simp: cpu_step_def Let_def)
  then show ?thesis using st f by blast
qed (use assms(1) in \<open>simp add: cpu_step_def\<close>)

lemma stopped_steps:
  assumes "apps_stopped c" and "e_class e = app_class"
  shows "\<exists>r c'. cpu_steps e n k c = Some (r, c') \<and> fst (world c') = fst (world c) \<and> rtos0 c' = rtos0 c"
  using assms(1)
proof (induction k arbitrary: c)
  case (Suc k)
  obtain r c1 where s: "cpu_step e n c = Some (r, c1)" "apps_stopped c1"
    "fst (world c1) = fst (world c)" "rtos0 c1 = rtos0 c"
    using stopped_step [OF Suc.prems assms(2), of n] by (elim exE conjE)
  from Suc.IH [OF s(2)] s(1,3,4) show ?case by (cases r) auto
qed simp

lemma rtos_reset_stops: "\<not> r_running (rtos_reset r)"
  by (simp add: rtos_reset_def rtos_stop_def rtos_ensureIdleTask_def rtos_addToReadyQueue_def split: option.splits)

lemma cpu_reset_stops:
  assumes "e_class e = app_class" and "only_active_live app_live (c_firmwareManager (cpu0 c), world c)"
    and "cpu_reset e c = ret () c'"
  shows "apps_stopped c' \<and> c_running (cpu0 c') = c_running (cpu0 c) \<and> c_cycleCount (cpu0 c') = 0"
proof -
  let ?c = "upd_cpu (\<lambda>p. p\<lparr>c_registerFile := rf_reset (c_registerFile p)\<rparr>) (upd_cpu (\<lambda>p. p\<lparr>c_cycleCount := 0\<rparr>) c)"
  from assms(1,3) obtain d where d: "via_fm (fm_reset app_class) ?c = ret () d"
    and rest: "(let c = (if c_rtosScheduler (cpu0 d) then d\<lparr>rtos0 := rtos_reset (rtos0 d)\<rparr> else d)
       in if c_systemBus (cpu0 c) then via_bus (plainly sb_reset) c else ret () c) = ret () c'"
    by (auto simp: cpu_reset_def Let_def and_then_Inr_iff)
  from d obtain fm ws where fm: "fm_reset app_class (c_firmwareManager (cpu0 c), world c) = ret () (fm, ws)"
    and dd: "d = (upd_cpu (\<lambda>p. p\<lparr>c_firmwareManager := fm\<rparr>) ?c)\<lparr>world := ws\<rparr>"
    by (auto simp: via_fm_def upd_cpu_def split: prod.splits)
  have "\<not> app_live g ws" for g using apps.reset_none [OF assms(2) fm] by simp
  then have "\<forall>g. \<not> app_on (aw_apps (fst (world d)) g)" by (simp add: dd app_live_world)
  moreover have "c_running (cpu0 d) = c_running (cpu0 c)" "c_cycleCount (cpu0 d) = 0"
    by (simp_all add: dd upd_cpu_def)
  ultimately show ?thesis
    using rest by (auto simp: apps_stopped_def Let_def rtos_reset_stops split: if_splits dest!: via_bus_fields)
qed

section \<open>The basic firmware on the processor\<close>

text \<open>A bus on which nothing but the clock moves.\<close>

definition bus_quiet :: "'z bus_st_scheme \<Rightarrow> bool" where
  "bus_quiet s \<longleftrightarrow> sb_dmas (sb s) = [] \<and> sb_timers (sb s) = [] \<and> \<not> sb_pwm (sb s) \<and>
     \<not> sb_interruptController (sb s) \<and> m_events (esched s) = []"

lemma quiet_cycle: "bus_quiet s \<Longrightarrow> sb_cycle u h s = ret () (s\<lparr>clock := clock_tick 1 (clock s)\<rparr>)"
  by (simp add: bus_quiet_def sb_cycle_def sb_tickTimers_def Let_def sched_executeReadyEvents_def)

lemma reg_clock [simp]:
  "reg_get r (s\<lparr>clock := x\<rparr>) = reg_get r s" "reg_put r v (s\<lparr>clock := x\<rparr>) = (reg_put r v s)\<lparr>clock := x\<rparr>"
  by (simp_all add: reg_get_def reg_put_def)

lemma toggle_clock:
  "gpio_hal_toggle h pin (s\<lparr>clock := x\<rparr>) = (case gpio_hal_toggle h pin s of (r, s) \<Rightarrow> (r, s\<lparr>clock := x\<rparr>))"
  by (simp add: gpio_hal_toggle_def gpio_op_defs Let_def)

lemma toggle_frame:
  "gpio_hal_toggle h pin s = (r, s') \<Longrightarrow> bus_quiet s' = bus_quiet s \<and> clock s' = clock s"
  by (auto simp: gpio_hal_toggle_def gpio_op_defs Let_def and_then_def bus_quiet_def reg_put_def split: if_splits)

lemma basic_update_clock:
  "basic_update (f, s) = ret () (f', s') \<Longrightarrow> basic_update (f, s\<lparr>clock := x\<rparr>) = ret () (f', s'\<lparr>clock := x\<rparr>)"
  by (auto simp: basic_update_def Let_def hal_call_def toggle_clock and_then_Inr_iff split: if_splits prod.splits)

lemma basic_update_frame:
  "basic_update (f, s) = ret () (f', s') \<Longrightarrow> bus_quiet s' = bus_quiet s \<and> clock s' = clock s"
  by (auto simp: basic_update_def Let_def hal_call_def and_then_Inr_iff split: if_splits prod.splits dest!: toggle_frame)

lemma basic_initialize_frame:
  "basic_initialize (f, s) = ret () (f', s') \<Longrightarrow> bus_quiet s' = bus_quiet s \<and> clock s' = clock s"
  by (auto simp: basic_initialize_def Let_def hal_call_def and_then_Inr_iff gpio_hal_configureOutput_def
      gpio_hal_write_def gpio_op_defs bus_quiet_def reg_put_def split: if_splits prod.splits)

lemma pins_clock: "gpio_pins g (s\<lparr>clock := x\<rparr>) = gpio_pins g s"
  by (simp add: gpio_pins_def fun_eq_iff)

lemma basic_updates_clock:
  "basic_updates k (f, s) = ret () (f', s') \<Longrightarrow> basic_updates k (f, s\<lparr>clock := x\<rparr>) = ret () (f', s'\<lparr>clock := x\<rparr>)"
proof (induction k arbitrary: f s)
  case (Suc k)
  then obtain g t where "basic_update (f, s) = ret () (g, t)" "basic_updates k (g, t) = ret () (f', s')"
    by (auto simp: and_then_Inr_iff)
  with Suc.IH [of g t] show ?case by (simp add: basic_update_clock)
qed simp

text \<open>A running, powered processor without task scheduler whose active application is a basic firmware.\<close>

definition blinking ::
  "(app_world, 'z bus_st_scheme) environment \<Rightarrow> nat \<Rightarrow> basic_fw \<Rightarrow> (app_world, 'z bus_st_scheme) computer \<Rightarrow> bool" where
  "blinking e i f c \<longleftrightarrow> e_class e = app_class \<and> c_running (cpu0 c) \<and> cpu_isPowerOn c \<and> \<not> c_rtosScheduler (cpu0 c) \<and>
     c_systemBus (cpu0 c) \<and> cpu_firmware c = Some i \<and> aw_apps (fst (world c)) i = Basic f \<and> bus_quiet (snd (world c))"

lemma blinking_step:
  assumes "blinking e i f c" and "basic_update (f, snd (world c)) = ret () (f', s')"
  shows "\<exists>c'. cpu_step e n c = Some (ret () c') \<and> blinking e i f' c' \<and>
    c_cycleCount (cpu0 c') = c_cycleCount (cpu0 c) + 1 \<and>
    snd (world c') = s'\<lparr>clock := clock_tick 1 (clock (snd (world c)))\<rparr>"
proof -
  obtain w s where ws: "world c = (w, s)" by (cases "world c")
  let ?x = "clock_tick 1 (clock s)"
  let ?c = "(upd_cpu (\<lambda>p. p\<lparr>c_cycleCount := c_cycleCount p + 1\<rparr>) c)\<lparr>world := (w, s\<lparr>clock := ?x\<rparr>)\<rparr>"
  let ?d = "?c\<lparr>world := (put_app i (Basic f') w, s'\<lparr>clock := ?x\<rparr>)\<rparr>"
  have b: "e_class e = app_class" "c_running (cpu0 c)" "cpu_isPowerOn c" "\<not> c_rtosScheduler (cpu0 c)"
    "c_systemBus (cpu0 c)" "cpu_firmware c = Some i" "aw_apps w i = Basic f" "bus_quiet s"
    using assms(1) by (simp_all add: blinking_def ws)
  have up: "basic_update (f, s\<lparr>clock := ?x\<rparr>) = ret () (f', s'\<lparr>clock := ?x\<rparr>)"
    using assms(2) by (simp add: ws basic_update_clock)
  have "via_fm (fm_update app_class) ?c = ret () ?d"
    using b(6,7) up
    by (simp add: via_fm_def fm_update_def fm_call_def app_class_def app_update_def via_app_def upd_cpu_def cpu_firmware_def)
  then have "cpu_step e n c = Some (ret () ?d)"
    using b quiet_cycle [OF b(8), of "e_callback e" "e_handler e"]
    by (simp add: cpu_step_def Let_def via_bus_def ws upd_cpu_def)
  moreover have "bus_quiet s'" using basic_update_frame [OF assms(2)] b(8) ws by simp
  then have "blinking e i f' ?d"
    using b by (simp add: blinking_def cpu_isPowerOn_def upd_cpu_def cpu_firmware_def put_app_def bus_quiet_def)
  ultimately show ?thesis using ws by (intro exI [of _ ?d]) (simp add: upd_cpu_def)
qed

lemma blinking_steps:
  assumes "blinking e i f c" and "basic_updates k (f, snd (world c)) = ret () (f', s')"
  shows "\<exists>c'. cpu_steps e n k c = Some (ret () c') \<and> c_cycleCount (cpu0 c') = c_cycleCount (cpu0 c) + of_nat k \<and>
    snd (world c') = s'\<lparr>clock := clock_tick (of_nat k) (clock (snd (world c)))\<rparr> \<and> aw_apps (fst (world c')) i = Basic f'"
  using assms
proof (induction k arbitrary: f c s')
  case 0
  then show ?case by (auto simp: clock_tick_def blinking_def)
next
  case (Suc k)
  from Suc.prems(2) obtain f1 s1 where u: "basic_update (f, snd (world c)) = ret () (f1, s1)"
    and us: "basic_updates k (f1, s1) = ret () (f', s')" by (auto simp: and_then_Inr_iff)
  from blinking_step [OF Suc.prems(1) u, of n] obtain c1 where c1: "cpu_step e n c = Some (ret () c1)" "blinking e i f1 c1"
    "c_cycleCount (cpu0 c1) = c_cycleCount (cpu0 c) + 1" "snd (world c1) = s1\<lparr>clock := clock_tick 1 (clock (snd (world c)))\<rparr>"
    by (elim exE conjE)
  let ?x = "clock_tick 1 (clock (snd (world c)))"
  have "basic_updates k (f1, snd (world c1)) = ret () (f', s'\<lparr>clock := ?x\<rparr>)"
    using basic_updates_clock [OF us] c1(4) by simp
  from Suc.IH [OF c1(2) this] obtain c' where "cpu_steps e n k c1 = Some (ret () c')"
    "c_cycleCount (cpu0 c') = c_cycleCount (cpu0 c1) + of_nat k" "aw_apps (fst (world c')) i = Basic f'"
    "snd (world c') = s'\<lparr>clock := clock_tick (of_nat k) ?x\<rparr>" using c1(4) by auto
  then show ?case using c1(1,3) by (intro exI [of _ c']) (simp add: clock_tick_def ac_simps)
qed


section \<open>Loading and registers\<close>

text \<open>
  Loading an application under the name of the selected one, of a stopped processor, reports success and
  changes nothing: the application that was given is dropped.
\<close>

lemma cpu_load_same_name:
  assumes "\<not> c_running (cpu0 c)" "fm_activeName (c_firmwareManager (cpu0 c)) = n" "n \<noteq> []" "cpu_firmware c = Some f"
  shows "cpu_loadFirmware e (Some g) n c = ret True c \<and> cpu_firmware c = Some f"
  using assms
  by (simp add: cpu_loadFirmware_def fm_registerFirmware_def via_fm_def fm_setActiveFirmware_def cpu_firmware_def
      fm_activeFirmware_def upd_cpu_def Let_def)

lemma rf_read_write:
  assumes "length (m_gpr rf) = NUM_GPRS"
  shows "and_then (rf_writeRegister i v rf) (\<lambda>_. rf_readRegister j) =
     (if unat i \<ge> NUM_GPRS then throw OutOfRange rf
      else and_then (rf_validateIndex j (rf\<lparr>m_gpr := (m_gpr rf)[unat i := v]\<rparr>)) (\<lambda>_ rf'.
        ret (if i = j then v else m_gpr rf ! unat j) rf'))"
  using assms by (auto simp: rf_writeRegister_def rf_readRegister_def rf_validateIndex_def)

section \<open>A demonstration computer\<close>

definition demo_env :: "(app_world, bus_st) environment" where
  "demo_env = \<lparr>e_class = app_class, e_callback = \<lambda>_. ret (), e_handler = \<lambda>_. ret (), e_tasks = \<lambda>_ ws. ([], ws)\<rparr>"

definition demo_computer :: "(app_world, bus_st) computer" where
  "demo_computer = \<lparr>cpu0 = blank_cpu\<lparr>c_firmwareManager := \<lparr>fm_registry = [(''blink'', 0)], fm_activeName = ''blink''\<rparr>\<rparr>,
     powers = \<lambda>_. ON, rtos0 = rtos_init,
     world = (demo_world, upd_sb (\<lambda>b. b\<lparr>sb_interruptController := False\<rparr>) demo_machine)\<rparr>"

lemma demo_machine_quiet: "bus_quiet (upd_sb (\<lambda>b. b\<lparr>sb_interruptController := False\<rparr>) demo_machine)"
  by (simp add: bus_quiet_def upd_sb_def demo_machine_def Let_def sb_init_def sched_init_def)

lemma demo_computer_ok:
  "bus_quiet (snd (world demo_computer))" "gpio_wf (gpio0 (snd (world demo_computer))) (snd (world demo_computer))"
  "cpu_firmware demo_computer = Some 0" "cpu_isPowerOn demo_computer" "\<not> c_running (cpu0 demo_computer)"
  "\<not> c_rtosScheduler (cpu0 demo_computer)" "c_systemBus (cpu0 demo_computer)"
proof -
  have "gpio_wf (gpio0 demo_machine) demo_machine" by code_simp
  then show "gpio_wf (gpio0 (snd (world demo_computer))) (snd (world demo_computer))"
    by (simp add: demo_computer_def upd_sb_def gpio_wf_def)
  show "bus_quiet (snd (world demo_computer))"
    using demo_machine_quiet by (simp add: demo_computer_def)
qed (simp_all add: demo_computer_def cpu_firmware_def fm_activeFirmware_def cpu_isPowerOn_def power_isPowerOn_def blank_cpu_def)

text \<open>The same computer running the echo firmware.\<close>

definition demo_echoing :: "(app_world, bus_st) computer" where
  "demo_echoing = demo_computer\<lparr>cpu0 := (cpu0 demo_computer)\<lparr>c_running := True, c_firmwareManager := fst demo_managed\<rparr>,
     world := snd demo_managed\<rparr>"

section \<open>Properties\<close>

text \<open>
  C12. Running is stepping. A run of some number of cycles is a start followed by as many single steps, with
  the same state, exception or failure to return; and a run of
  \<open>a + b\<close> cycles is a run of \<open>a\<close> followed by a run of \<open>b\<close>, as long as the sum does not wrap.
\<close>

theorem cpu_run_is_steps:
  "cpu_run e n k c = then_next (Some (cpu_start e c)) (\<lambda>_. cpu_steps e n (unat k)) \<and>
   (unat a + unat b < 2 ^ 64 \<longrightarrow> cpu_run e n (a + b) c = then_next (cpu_run e n a c) (\<lambda>_. cpu_run e n b))"
proof (intro conjI impI)
  show "cpu_run e n k c = then_next (Some (cpu_start e c)) (\<lambda>_. cpu_steps e n (unat k))" by (rule cpu_run_steps)
next
  assume "unat a + unat b < 2 ^ 64"
  then have sum: "unat (a + b) = unat a + unat b" by (simp add: unat_word_ariths)
  show "cpu_run e n (a + b) c = then_next (cpu_run e n a c) (\<lambda>_. cpu_run e n b)"
  proof (cases "cpu_start e c")
    case (Pair r c1)
    show ?thesis
    proof (cases r)
      case (Inr u)
      then have on: "c_running (cpu0 c1)" using Pair cpu_start_running [of e c c1] by simp
      have "cpu_run e n b c2 = cpu_steps e n (unat b) c2" if "cpu_steps e n (unat a) c1 = Some (q, c2)" for q c2
        using cpu_same_steps [OF that] on by (simp add: cpu_same_def cpu_run_steps cpu_start_again)
      then show ?thesis using Pair Inr
        by (cases "cpu_steps e n (unat a) c1") (auto simp: cpu_run_steps sum cpu_steps_add then_next_def split: sum.splits)
    qed (simp add: cpu_run_steps Pair)
  qed
qed

theorem cpu_run_is_steps_witness:
  "cpu_run demo_env 5 (3 + 4) demo_computer = then_next (cpu_run demo_env 5 3 demo_computer) (\<lambda>_. cpu_run demo_env 5 4)"
  using cpu_run_is_steps [of demo_env 5 0 demo_computer 3 4] by simp

text \<open>
  C26. Without power nothing executes. While the power controller of a processor is off, a sequence of steps, runs,
  sleeps, wake-ups and further power-offs leaves the whole computer, processor, scheduler, applications and
  machine, exactly as it was, and only logs that it can neither sleep nor wake; only powering on brings it back. A run
  is the exception when the processor is stopped: the first one starts it, power or not, which initializes the
  firmware, and if that returns everything after it is as inert.
\<close>

theorem cpu_off_inert:
  assumes "power_off c" and "CPowerOn \<notin> set qs"
  shows "cpu_commands e n qs (st, c) =
    (if c_running (cpu0 c) \<or> \<not> (\<exists>q \<in> set qs. is_run q) then Some (ret () (fold off_logs qs st, c))
     else case cpu_start e c of
            (Inr _, c') \<Rightarrow> Some (ret () (fold off_logs qs st, c'))
          | (Inl ex, c') \<Rightarrow> Some (throw ex (fold off_logs (takeWhile (\<lambda>q. \<not> is_run q) qs) st, c')))"
proof (cases "c_running (cpu0 c)")
  case True
  then show ?thesis using power_off_running [OF assms(1) True assms(2)] by simp
next
  case False
  show ?thesis
    using assms(2)
  proof (induction qs arbitrary: st)
    case (Cons q qs)
    have q: "cpu_command e n q (st, c) =
        (if is_run q then Some (beside_log st (cpu_start e c)) else Some (ret () (off_logs q st, c)))"
      by (rule power_off_command [OF assms(1)]) (use Cons.prems in auto)
    show ?case
    proof (cases "is_run q")
      case True
      obtain r c' where start: "cpu_start e c = (r, c')" by (cases "cpu_start e c")
      have "off_logs q st = st" using True by (cases q) simp_all
      moreover have "cpu_commands e n qs (st, c') = Some (ret () (fold off_logs qs st, c'))" if "r = Inr ()"
        using power_off_running [OF power_off_start [OF assms(1) start]] cpu_start_running [of e c c'] start that Cons.prems
        by simp
      ultimately show ?thesis using False True start q by (cases r) simp_all
    next
      case no: False
      then show ?thesis using Cons False q by (auto split: prod.splits sum.splits)
    qed
  qed (use False in simp)
qed

theorem cpu_off_inert_witness:
  "cpu_commands demo_env 0 [CStep, CWake, CRun 1000, CPowerOff]
      (no_output, upd_cpu (\<lambda>p. p\<lparr>c_running := True\<rparr>) (demo_computer\<lparr>powers := \<lambda>_. OFF\<rparr>)) =
   Some (ret () (no_output\<lparr>std_out := ''[WARN] PowerController: Cannot wake unless in SLEEP state'' @ nl\<rparr>,
     upd_cpu (\<lambda>p. p\<lparr>c_running := True\<rparr>) (demo_computer\<lparr>powers := \<lambda>_. OFF\<rparr>)))"
  by (subst cpu_off_inert) (simp_all add: upd_cpu_def power_off_def no_output_def logger_defs)

text \<open>So a run of a stopped processor sets up the pin of its firmware although its power is off.\<close>

lemma cpu_run_without_power:
  "\<exists>c. cpu_run demo_env 0 1 (demo_computer\<lparr>powers := \<lambda>_. OFF\<rparr>) = Some (ret () c) \<and> c_running (cpu0 c) \<and>
     p_output (pins_of (snd (world c)) 3)"
proof -
  let ?c = "demo_computer\<lparr>powers := \<lambda>_. OFF\<rparr>"
  obtain w s where ws: "world demo_computer = (w, s)" by (cases "world demo_computer")
  have wf: "gpio_wf (gpio0 s) s" and app: "aw_apps w 0 = Basic (basic_init True 3 2)"
    using demo_computer_ok(2) ws by (auto simp: demo_computer_def demo_world_def)
  obtain f1 s1 where ini: "basic_initialize (basic_init True 3 2, s) = ret () (f1, s1)"
    and pins: "pins_of s1 = (pins_of s)(3 := \<lparr>p_output = True, p_driven = False, p_level = False\<rparr>)"
    using basic_firmware_blinks [of s 3 2 0] wf by (auto simp: and_then_Inr_iff Let_def)
  have "cpu_start demo_env ?c = ret () ((upd_cpu (\<lambda>p. p\<lparr>c_running := True\<rparr>) ?c)\<lparr>world := (put_app 0 (Basic f1) w, s1)\<rparr>)"
    using ini app ws demo_computer_ok(3,5,6)
    by (simp add: cpu_start_def Let_def via_fm_def fm_initialize_def fm_call_def app_class_def app_initialize_def demo_env_def
        via_app_def upd_cpu_def cpu_firmware_def)
  moreover have "power_off ?c" by (simp add: power_off_def)
  ultimately show ?thesis using pins by (simp add: power_off_run upd_cpu_def)
qed

text \<open>
  C25. A reset leaves a running processor without firmware. After a reset that returns, of a processor
  that was running and whose manager is in order, the processor still counts as running, so that a
  start does nothing; every run returns or ends with an exception of the bus, and neither an
  application nor the task scheduler changes in it: no firmware executes any more.
\<close>

theorem cpu_reset_stalls:
  assumes "e_class e = app_class" and "only_active_live app_live (c_firmwareManager (cpu0 c), world c)"
    and "c_running (cpu0 c)" and "cpu_reset e c = ret () c'"
  shows "c_running (cpu0 c') \<and> c_cycleCount (cpu0 c') = 0 \<and>
    (\<exists>r c''. cpu_run e n k c' = Some (r, c'') \<and> fst (world c'') = fst (world c') \<and> rtos0 c'' = rtos0 c')"
proof -
  note st = cpu_reset_stops [OF assms(1,2,4)]
  then have "cpu_run e n k c' = cpu_steps e n (unat k) c'"
    using assms(3) by (simp add: cpu_run_steps cpu_start_again)
  then show ?thesis using st assms(3) stopped_steps [OF _ assms(1), of c' n "unat k"] by simp
qed

theorem cpu_reset_stalls_witness:
  "\<exists>c' r c''. cpu_reset demo_env demo_echoing = ret () c' \<and> cpu_run demo_env 0 100 c' = Some (r, c'') \<and>
     fst (world c'') = fst (world c')"
proof -
  have live: "only_active_live app_live (c_firmwareManager (cpu0 demo_echoing), world demo_echoing)"
    using manager_reaches [OF demo_world_idle demo_managed_def [symmetric]]
    by (simp add: demo_echoing_def)
  obtain t where m: "demo_managed = (\<lparr>fm_registry = [(''blink'', 0), (''echo'', 5)], fm_activeName = ''echo''\<rparr>,
     put_app 5 (UARTEcho \<lparr>ue_baudRate = 9600, ue_echoCount = 0, ue_initialized = True, ue_shutdown = False\<rparr>) demo_world, t)"
    using demo_managed_is by blast
  have "aw_uartHAL demo_world" by (simp add: demo_world_def)
  then have "\<exists>c'. cpu_reset demo_env demo_echoing = ret () c'"
    by (simp add: cpu_reset_def Let_def demo_echoing_def demo_computer_def demo_env_def m via_fm_def fm_reset_def fm_call_def
        fm_activeFirmware_def app_class_def app_reset_def put_app_def via_app_def echo_reset_def hal_call_def
        uart_hal_disable_def via_uart_def plainly_def uart_disable_def upd_cpu_def via_bus_def blank_cpu_def)
  then obtain c' where "cpu_reset demo_env demo_echoing = ret () c'" by blast
  moreover have "e_class demo_env = app_class" "c_running (cpu0 demo_echoing)"
    by (simp_all add: demo_env_def demo_echoing_def)
  ultimately show ?thesis using cpu_reset_stalls [OF _ live, of demo_env c' 0 100] by blast
qed

text \<open>
  C3. The basic firmware blinks by the clock. A powered, stopped processor on a bus where nothing else
  moves, whose selected application is a freshly built basic firmware for one of the thirty-two pins,
  runs any number of cycles without an exception, whatever the depth allowed to the absent task
  scheduler; its cycle counter and the clock have advanced by that number, the pin is an output that is
  high exactly when an odd number of intervals has passed, and the other pins are as before.
\<close>

theorem cpu_basic_blinks:
  assumes "e_class e = app_class" "\<not> c_running (cpu0 c)" "cpu_isPowerOn c" "\<not> c_rtosScheduler (cpu0 c)"
    and "c_systemBus (cpu0 c)" "cpu_firmware c = Some i" "aw_apps (fst (world c)) i = Basic (basic_init True pin interval)"
    and "bus_quiet (snd (world c))" "gpio_wf (gpio0 (snd (world c))) (snd (world c))" "unat pin < 32"
  shows "\<exists>c'. cpu_run e n k c = Some (ret () c') \<and> c_cycleCount (cpu0 c') = c_cycleCount (cpu0 c) + k \<and>
    m_cycles (clock (snd (world c'))) = m_cycles (clock (snd (world c))) + k \<and>
    (let high = odd (unat k div max 1 (unat interval))
     in pins_of (snd (world c')) = (pins_of (snd (world c)))
          (unat pin := \<lparr>p_output = True, p_driven = high, p_level = high\<rparr>))"
proof -
  obtain w s where ws: "world c = (w, s)" by (cases "world c")
  obtain f1 s1 f' s' where ini: "basic_initialize (basic_init True pin interval, s) = ret () (f1, s1)"
    and us: "basic_updates (unat k) (f1, s1) = ret () (f', s')"
    and pins: "let high = odd (unat k div max 1 (unat interval))
      in pins_of s' = (pins_of s)(unat pin := \<lparr>p_output = True, p_driven = high, p_level = high\<rparr>)"
    using basic_firmware_blinks [of s pin interval "unat k"] assms(9,10) by (auto simp: ws and_then_Inr_iff)
  let ?c = "(upd_cpu (\<lambda>p. p\<lparr>c_running := True\<rparr>) c)\<lparr>world := (put_app i (Basic f1) w, s1)\<rparr>"
  have frame: "bus_quiet s1 = bus_quiet s \<and> clock s1 = clock s" by (rule basic_initialize_frame [OF ini])
  have start: "cpu_start e c = ret () ?c"
    using assms(1-7) ini
    by (simp add: cpu_start_def Let_def via_fm_def fm_initialize_def fm_call_def app_class_def app_initialize_def
        via_app_def upd_cpu_def cpu_firmware_def ws)
  have "blinking e i f1 ?c"
    using assms frame by (simp add: blinking_def cpu_isPowerOn_def upd_cpu_def cpu_firmware_def put_app_def ws)
  from blinking_steps [OF this, of "unat k" f' s' n] us obtain c' where "cpu_steps e n (unat k) ?c = Some (ret () c')"
    "c_cycleCount (cpu0 c') = c_cycleCount (cpu0 ?c) + of_nat (unat k)"
    "snd (world c') = s'\<lparr>clock := clock_tick (of_nat (unat k)) (clock s1)\<rparr>" by auto
  then show ?thesis using start pins frame
    by (intro exI [of _ c']) (simp add: cpu_run_steps upd_cpu_def clock_tick_def ws pins_clock Let_def)
qed

theorem cpu_basic_blinks_witness:
  "\<exists>c'. cpu_run demo_env 0 7 demo_computer = Some (ret () c') \<and> c_cycleCount (cpu0 c') = 7 \<and>
     p_level (pins_of (snd (world c')) 3)"
proof -
  have "odd (7 div max 1 (unat (2 :: u64)))" by code_simp
  moreover have "c_cycleCount (cpu0 demo_computer) = 0" by (simp add: demo_computer_def blank_cpu_def)
  moreover have "aw_apps (fst (world demo_computer)) 0 = Basic (basic_init True 3 2)"
    by (simp add: demo_computer_def demo_world_def)
  ultimately show ?thesis
    using cpu_basic_blinks [of demo_env demo_computer 0 3 2 0 7] demo_computer_ok
    by (auto simp: demo_env_def Let_def simp del: max_def)
qed

end
