(* ===== verification/Monitor.thy ===== *)
theory Monitor
  imports Cpu_Runs Text_Format
begin

text \<open>
  The interactive monitor of \<^verbatim>\<open>monitor/monitor.hpp\<close>. It points to the parts of one computer. A printing function
  acts on the stream and the computer, and ends with the exception of a part that it asks for something it does not
  have; where it only uses accessors that cannot throw, it is the list of what it sends to the stream. A command
  returns whether the session goes on, with the stream and the computer it leaves.
\<close>

section \<open>The monitor\<close>

record monitor =
  mo_cpu :: bool
  mo_memory :: bool
  mo_mmioBus :: bool
  mo_gpio :: bool
  mo_timer :: "nat option"
  mo_interruptController :: bool
  mo_uart :: bool
  mo_clock :: bool
  mo_scheduler :: bool

definition mon_init ::
  "bool \<Rightarrow> bool \<Rightarrow> bool \<Rightarrow> bool \<Rightarrow> nat option \<Rightarrow> bool \<Rightarrow> bool \<Rightarrow> bool \<Rightarrow> bool \<Rightarrow> monitor" where
  "mon_init has_cpu has_mem has_bus has_gpio tm has_irq has_uart has_clk has_sched =
     \<lparr>mo_cpu = has_cpu, mo_memory = has_mem, mo_mmioBus = has_bus, mo_gpio = has_gpio, mo_timer = tm,
      mo_interruptController = has_irq, mo_uart = has_uart, mo_clock = has_clk, mo_scheduler = has_sched\<rparr>"

definition mon_setCPU :: "bool \<Rightarrow> monitor \<Rightarrow> monitor" where
  "mon_setCPU ptr m = m\<lparr>mo_cpu := ptr\<rparr>"

definition mon_setMemory :: "bool \<Rightarrow> monitor \<Rightarrow> monitor" where
  "mon_setMemory ptr m = m\<lparr>mo_memory := ptr\<rparr>"

definition mon_setMMIOBus :: "bool \<Rightarrow> monitor \<Rightarrow> monitor" where
  "mon_setMMIOBus ptr m = m\<lparr>mo_mmioBus := ptr\<rparr>"

definition mon_setGPIO :: "bool \<Rightarrow> monitor \<Rightarrow> monitor" where
  "mon_setGPIO ptr m = m\<lparr>mo_gpio := ptr\<rparr>"

definition mon_setTimer :: "nat option \<Rightarrow> monitor \<Rightarrow> monitor" where
  "mon_setTimer ptr m = m\<lparr>mo_timer := ptr\<rparr>"

definition mon_setInterruptController :: "bool \<Rightarrow> monitor \<Rightarrow> monitor" where
  "mon_setInterruptController ptr m = m\<lparr>mo_interruptController := ptr\<rparr>"

definition mon_setUART :: "bool \<Rightarrow> monitor \<Rightarrow> monitor" where
  "mon_setUART ptr m = m\<lparr>mo_uart := ptr\<rparr>"

definition mon_setClock :: "bool \<Rightarrow> monitor \<Rightarrow> monitor" where
  "mon_setClock ptr m = m\<lparr>mo_clock := ptr\<rparr>"

definition mon_setScheduler :: "bool \<Rightarrow> monitor \<Rightarrow> monitor" where
  "mon_setScheduler ptr m = m\<lparr>mo_scheduler := ptr\<rparr>"

section \<open>Printing\<close>

type_synonym ('w, 'b) session = "ostream \<times> ('w, 'b) computer"

type_synonym ('a, 'w, 'b) printing = "('w, 'b) session \<Rightarrow> ('a, ('w, 'b) session) outcome"

definition emit :: "out list \<Rightarrow> (unit, 'w, 'b) printing" where
  "emit outs = (\<lambda>(os, c). ret () (puts outs os, c))"

text \<open>A call of a part of the machine, of its memory, and of the register file, while printing.\<close>

definition look :: "('b \<Rightarrow> ('a, 'b) outcome) \<Rightarrow> ('a, 'w, 'b) printing" where
  "look f = (\<lambda>(os, c). case via_bus f c of (r, c) \<Rightarrow> (r, (os, c)))"

definition look_memory :: "(memory \<Rightarrow> ('a, memory) outcome) \<Rightarrow> ('a, 'w, 'z bus_st_scheme) printing" where
  "look_memory f = look (\<lambda>s. case f (mem0 s) of (r, m) \<Rightarrow> (r, s\<lparr>mem0 := m\<rparr>))"

definition look_registers :: "(register_file \<Rightarrow> ('a, register_file) outcome) \<Rightarrow> ('a, 'w, 'b) printing" where
  "look_registers f = (\<lambda>(os, c). case f (c_registerFile (cpu0 c)) of
     (r, rf) \<Rightarrow> (r, (os, upd_cpu (\<lambda>p. p\<lparr>c_registerFile := rf\<rparr>) c)))"

definition yes_no :: "bool \<Rightarrow> string" where
  "yes_no b = (if b then ''YES'' else ''NO'')"

definition mon_help :: "out list" where
  "mon_help = map (\<lambda>l. Str (l @ nl))
     [''Supported commands:'',
      ''  help                  Display all supported commands.'',
      ''  exit                  Exit the monitor.'',
      ''  reset                 Reset the simulator.'',
      ''  step                  Execute exactly one CPU cycle.'',
      ''  run <cycles>          Execute N CPU cycles.'',
      ''  regs                  Display PC, SP, Status, and R0-R15.'',
      ''  gpio                  Display GPIO peripheral state.'',
      ''  timer                 Display timer peripheral state.'',
      ''  interrupts            Display interrupt controller status.'',
      ''  memory <addr> <cnt>   Display memory bytes in hex.'',
      ''  mmio                  Display all registered MMIO addresses.'',
      ''  uart                  Display UART peripheral state.'',
      ''  clock                 Display simulation clock state.'',
      ''  events                Display pending scheduled events.'']"

definition hex8 :: "u32 \<Rightarrow> out list" where
  "hex8 v = [Hex, Fill (CHR ''0''), NumW 8 (unat v)]"

definition mon_regs :: "monitor \<Rightarrow> (unit, 'w, 'b) printing" where
  "mon_regs m = (\<lambda>(os, c).
     if \<not> mo_cpu m then emit [Str (''No CPU attached.'' @ nl)] (os, c)
     else let rf = c_registerFile (cpu0 c)
          in and_then (emit ([Str (''=== CPU Registers ==='' @ nl)] @
               [Str ''PC:     0x''] @ hex8 (m_pc rf) @ [Str nl] @
               [Str ''SP:     0x''] @ hex8 (m_sp rf) @ [Str nl] @
               [Str ''Status: 0x''] @ hex8 (m_sr rf) @ [Str nl]) (os, c)) (\<lambda>_ sc.
             and_then (for_each (\<lambda>i sc.
               and_then (emit [Str ''R'', Dec, Num i, Str (if i < 10 then '':  '' else '': ''), Str ''0x''] sc) (\<lambda>_ sc.
               and_then (look_registers (rf_readRegister (of_nat i)) sc) (\<lambda>v.
                 emit (hex8 v @ [Str (if i mod 4 = 3 then nl else [CHR 0x09])])))) [0..<NUM_GPRS] sc) (\<lambda>_.
             emit [Dec, Fill (CHR '' '')])))"

definition mon_gpio :: "monitor \<Rightarrow> (unit, 'w, 'z bus_st_scheme) printing" where
  "mon_gpio m = (\<lambda>(os, c).
     if \<not> mo_gpio m then emit [Str (''No GPIO attached.'' @ nl)] (os, c)
     else and_then (emit [Str (''=== GPIO Peripheral State ==='' @ nl), Str ''Base Address: 0x'', Hex,
              Num (unat (g_base (gpio0 (snd (world c))))), Dec, Str nl] (os, c)) (\<lambda>_.
            for_each (\<lambda>i sc.
              and_then (look (\<lambda>s. gpio_readPin (gpio0 s) (of_nat i) s) sc) (\<lambda>state.
                emit [Str ''  Pin '', Num i, Str '': '', Str (if state = High then ''HIGH'' else ''LOW''), Str nl])) [0..<8]))"

definition mon_timer :: "monitor \<Rightarrow> 'z bus_st_scheme \<Rightarrow> out list" where
  "mon_timer m s =
     (case mo_timer m of
        None \<Rightarrow> [Str (''No Timer attached.'' @ nl)]
      | Some t \<Rightarrow>
          [Str (''=== Timer Peripheral State ==='' @ nl),
           Str ''Base Address: 0x'', Hex, Num (unat (t_base (timers s t))), Dec, Str nl,
           Str ''Running:      '', Str (yes_no (timer_running t s)), Str nl,
           Str ''Counter:      '', Num (unat (timer_counter t s)), Str nl,
           Str ''Compare:      '', Num (unat (timer_compare t s)), Str nl,
           Str ''Match Flag:   '', Str (if timer_hasMatch t s then ''SET'' else ''CLEARED''), Str nl])"

definition mon_interrupts :: "monitor \<Rightarrow> (unit, 'w, 'z bus_st_scheme) printing" where
  "mon_interrupts m = (\<lambda>(os, c).
     if \<not> mo_interruptController m then emit [Str (''No Interrupt Controller attached.'' @ nl)] (os, c)
     else and_then (emit [Str (''=== Interrupt Controller Status ==='' @ nl), Str ''Base Address: 0x'', Hex,
              Num (unat (ic_base (ic (snd (world c))))), Dec, Str nl] (os, c)) (\<lambda>_.
            for_each (\<lambda>i (os, c).
              if ic_isRegistered (of_nat i) (snd (world c))
              then and_then (emit [Str ''  IRQ '', Num i, Str '' | Enabled: ''] (os, c)) (\<lambda>_ sc.
                   and_then (look (ic_enabled (of_nat i)) sc) (\<lambda>b sc.
                   and_then (emit [Str (yes_no b), Str '' | Pending: ''] sc) (\<lambda>_ sc.
                   and_then (look (ic_pending (of_nat i)) sc) (\<lambda>b sc.
                   and_then (emit [Str (yes_no b), Str '' | Priority: ''] sc) (\<lambda>_ sc.
                   and_then (look (ic_getPriority (of_nat i)) sc) (\<lambda>p.
                     emit [Num (unat p), Str nl]))))))
              else ret () (os, c)) [0..<MAX_INTERRUPTS]))"

text \<open>The bytes of a dump from the one with index \<open>i\<close>, until the memory ends.\<close>

fun mon_dump :: "address \<Rightarrow> nat \<Rightarrow> nat \<Rightarrow> (unit, 'w, 'z bus_st_scheme) printing" where
  "mon_dump start i 0 sc = ret () sc"
| "mon_dump start i (Suc n) (os, c) =
     (let addr = start + of_nat i
      in if \<not> memory_isValidAddress addr (mem0 (snd (world c)))
         then emit [Str (nl @ ''Memory read out of bounds at address 0x''), Hex, Num (unat addr), Str nl] (os, c)
         else and_then (emit ((if i mod 16 = 0
                 then (if i > 0 then [Str nl] else []) @ [Str ''0x'', Hex, Fill (CHR ''0''), NumW 8 (unat addr), Str '': '']
                 else []) @ [Hex, Fill (CHR ''0'')]) (os, c)) (\<lambda>_ sc.
              and_then (look_memory (memory_read addr) sc) (\<lambda>v sc.
              and_then (emit [NumW 2 (unat v), Str '' ''] sc) (\<lambda>_.
                mon_dump start (Suc i) n))))"

definition mon_memory :: "monitor \<Rightarrow> string \<Rightarrow> (unit, 'w, 'z bus_st_scheme) printing" where
  "mon_memory m args =
     (let usage = emit [Str (''Usage: memory <address> <count>'' @ nl)]
      in if \<not> mo_memory m then emit [Str (''No Memory attached.'' @ nl)]
         else if args = [] then usage
         else case extract_word args of
                None \<Rightarrow> usage
              | Some (addrStr, rest) \<Rightarrow>
                  (case extract_size rest of
                     None \<Rightarrow> usage
                   | Some cnt \<Rightarrow>
                       if cnt = 0 then usage
                       else (case stoull 0 addrStr of
                               Inl _ \<Rightarrow> emit [Str ''Invalid memory address format: '', Str ([CHR 0x27] @ addrStr @ [CHR 0x27] @ nl)]
                             | Inr (startAddr, _) \<Rightarrow> (\<lambda>sc.
                                 and_then (emit [Str ''=== Memory Dump (0x'', Hex, Num (unat startAddr), Str '' - '', Num (unat cnt),
                                   Str ('' bytes) ==='' @ nl)] sc) (\<lambda>_ sc.
                                 and_then (mon_dump startAddr 0 (unat cnt) sc) (\<lambda>_.
                                 emit [Dec, Fill (CHR '' ''), Str nl]))))))"

definition mon_mmio :: "monitor \<Rightarrow> (unit, 'w, 'z bus_st_scheme) printing" where
  "mon_mmio m = (\<lambda>(os, c).
     if \<not> mo_mmioBus m then emit [Str (''No MMIO Bus attached.'' @ nl)] (os, c)
     else let addrs = mmio_registeredAddresses (snd (world c))
          in and_then (emit [Str ''=== Registered MMIO Addresses ('', Num (length addrs), Str ('' entries) ==='' @ nl)] (os, c)) (\<lambda>_ sc.
             and_then (for_each (\<lambda>a sc.
               and_then (emit [Str ''  0x'', Hex, Fill (CHR ''0''), NumW 8 (unat a), Str '' (Value: 0x''] sc) (\<lambda>_ sc.
               and_then (look (mmio_read a) sc) (\<lambda>v.
                 emit [NumW 8 (unat v), Str ('')'' @ nl)]))) addrs sc) (\<lambda>_.
             emit [Dec, Fill (CHR '' '')])))"

definition bytes_of :: "nat \<Rightarrow> out list" where
  "bytes_of n = [Num n, Str (if n = 1 then '' byte'' else '' bytes''), Str (nl @ nl)]"

definition mon_uart :: "monitor \<Rightarrow> 'z bus_st_scheme \<Rightarrow> out list" where
  "mon_uart m s =
     (if \<not> mo_uart m then [Str (''No UART attached.'' @ nl)]
      else [Str (''UART'' @ nl), Str (''----------------------'' @ nl),
            Str ''Enabled : '', Str (yes_no (uart_enabled (uart0 s) s)), Str (nl @ nl),
            Str ''Baud : '', Num (unat (uart_baudRate (uart0 s) s)), Str (nl @ nl),
            Str ''TX FIFO : ''] @ bytes_of (uart_txFifoSize (uart0 s)) @
           [Str ''RX FIFO : ''] @ bytes_of (uart_rxFifoSize (uart0 s)) @
           [Str (''STATUS :'' @ nl @ nl),
            Str ''TX Empty : '', Str (yes_no (uart_txEmpty (uart0 s))), Str (nl @ nl),
            Str ''RX Available : '', Str (yes_no (uart_hasReceivedData (uart0 s))), Str nl])"

definition frequency_text :: "u64 \<Rightarrow> string" where
  "frequency_text freq =
     (if freq mod 1000000 = 0 then show_dec (unat (freq div 1000000)) @ '' MHz''
      else if freq mod 1000 = 0 then show_dec (unat (freq div 1000)) @ '' kHz''
      else show_dec (unat freq) @ '' Hz'')"

text \<open>The clock and the events of the bus stand in for an own pointer that is not set.\<close>

definition mon_clock :: "monitor \<Rightarrow> ('w, 'z bus_st_scheme) computer \<Rightarrow> out list" where
  "mon_clock m c =
     (if \<not> (mo_clock m \<or> mo_cpu m \<and> c_systemBus (cpu0 c)) then [Str (''No Simulation Clock attached.'' @ nl)]
      else let clk = clock (snd (world c))
           in [Str (''Clock'' @ nl), Str (''---------------------'' @ nl @ nl),
               Str ''Frequency : '', Str (frequency_text (m_frequencyHz clk)), Str (nl @ nl),
               Str ''Cycles : '', Num (unat (m_cycles clk)), Str (nl @ nl),
               Str ''Elapsed : '', Num (unat (clock_elapsedMicroseconds clk)), Str ('' us'' @ nl)])"

definition mon_events :: "monitor \<Rightarrow> ('w, 'z bus_st_scheme) computer \<Rightarrow> out list" where
  "mon_events m c =
     (if \<not> (mo_scheduler m \<or> mo_cpu m \<and> c_systemBus (cpu0 c)) then [Str (''No Event Scheduler attached.'' @ nl)]
      else let events = sched_pendingEvents (esched (snd (world c)))
           in if events = [] then [Str (''No pending events.'' @ nl)]
              else [Str (''Pending Events'' @ nl), Str (''----------------------------'' @ nl),
                    Str (''ID   Cycle   Description'' @ nl @ nl)] @
                   concat (map (\<lambda>ev. [Num (unat (ev_id ev)), Str ''    '', Num (unat (ev_cycle ev)), Str ''     '',
                     Str (if ev_description ev = [] then ''Unnamed Event'' else ev_description ev), Str (nl @ nl)]) events))"

section \<open>Commands\<close>

text \<open>A command that prints.\<close>

definition show_with :: "(unit, 'w, 'b) printing \<Rightarrow> ('w, 'b) session \<Rightarrow> (bool, ('w, 'b) session) outcome option" where
  "show_with p sc = Some (and_then (p sc) (\<lambda>_. ret True))"

definition show_out :: "out list \<Rightarrow> ('w, 'b) session \<Rightarrow> (bool, ('w, 'b) session) outcome option" where
  "show_out outs = show_with (emit outs)"

lemma show_out_eq [simp]: "show_out outs (os, c) = Some (ret True (puts outs os, c))"
  by (simp add: show_out_def show_with_def emit_def)

text \<open>An operation of the computer, after which the computer it left is printed from.\<close>

definition do_cpu ::
  "(('w, 'b) computer \<Rightarrow> (unit, ('w, 'b) computer) outcome option) \<Rightarrow> (('w, 'b) computer \<Rightarrow> out list) \<Rightarrow>
   ('w, 'b) session \<Rightarrow> (bool, ('w, 'b) session) outcome option" where
  "do_cpu f outs = (\<lambda>(os, c).
     case f c of
       None \<Rightarrow> None
     | Some (Inl e, c) \<Rightarrow> Some (throw e (os, c))
     | Some (Inr _, c) \<Rightarrow> Some (ret True (puts (outs c) os, c)))"

text \<open>The cycle count of \<^verbatim>\<open>run\<close>.\<close>

definition parse_cycles :: "string \<Rightarrow> u64 option" where
  "parse_cycles args =
     (let s = dropWhile is_blank args
      in if s = [] \<or> \<not> is_digit (hd s) then None
         else case stoull 10 args of
                Inl _ \<Rightarrow> None
              | Inr (cycles, rest) \<Rightarrow> if rest \<noteq> [] \<or> cycles = 0 then None else Some cycles)"

definition mon_handleRun ::
  "monitor \<Rightarrow> ('w, 'z bus_st_scheme) environment \<Rightarrow> nat \<Rightarrow> string \<Rightarrow>
   ('w, 'z bus_st_scheme) session \<Rightarrow> (bool, ('w, 'z bus_st_scheme) session) outcome option" where
  "mon_handleRun m e n args =
     (if \<not> mo_cpu m then show_out [Str (''No CPU attached to run.'' @ nl)]
      else if args = [] then show_out [Str (''Usage: run <cycles>'' @ nl)]
      else case parse_cycles args of
             None \<Rightarrow> show_out [Str (''Invalid cycle count: '' @ [CHR 0x27]), Str args,
                                Str ([CHR 0x27] @ ''. Must be a positive integer.'' @ nl)]
           | Some cycles \<Rightarrow>
               do_cpu (cpu_run e n cycles) (\<lambda>c. [Str ''Ran '', Num (unat cycles), Str '' cycles. Total cycle count: '',
                 Num (unat (c_cycleCount (cpu0 c))), Str nl]))"

text \<open>The command word, in lower case, and the arguments.\<close>

definition split_command :: "string \<Rightarrow> string \<times> string \<times> string" where
  "split_command trimmed =
     (let cmdWord = takeWhile (\<lambda>c. \<not> is_blank c) trimmed
      in (map lower_char cmdWord, cmdWord, trim (dropWhile (\<lambda>c. \<not> is_blank c) trimmed)))"

definition mon_executeCommand ::
  "monitor \<Rightarrow> ('w, 'z bus_st_scheme) environment \<Rightarrow> nat \<Rightarrow> string \<Rightarrow>
   ('w, 'z bus_st_scheme) session \<Rightarrow> (bool, ('w, 'z bus_st_scheme) session) outcome option" where
  "mon_executeCommand m e n line = (\<lambda>(os, c).
     if trim line = [] then Some (ret True (os, c))
     else let (cmd, cmdWord, args) = split_command (trim line); s = snd (world c)
          in if cmd = ''help'' then show_out mon_help (os, c)
             else if cmd = ''exit'' \<or> cmd = ''quit'' then Some (ret False (puts [Str (''Exiting monitor.'' @ nl)] os, c))
             else if cmd = ''reset''
             then (if mo_cpu m then do_cpu (\<lambda>c. Some (cpu_reset e c)) (\<lambda>_. [Str (''Simulator reset.'' @ nl)]) (os, c)
                   else show_out [Str (''No CPU attached to reset.'' @ nl)] (os, c))
             else if cmd = ''step''
             then (if mo_cpu m
                   then do_cpu (cpu_step e n) (\<lambda>c. [Str ''Stepped 1 cycle. Current cycle: '',
                          Num (unat (c_cycleCount (cpu0 c))), Str nl]) (os, c)
                   else show_out [Str (''No CPU attached to step.'' @ nl)] (os, c))
             else if cmd = ''run'' then mon_handleRun m e n args (os, c)
             else if cmd = ''regs'' then show_with (mon_regs m) (os, c)
             else if cmd = ''gpio'' then show_with (mon_gpio m) (os, c)
             else if cmd = ''timer'' then show_out (mon_timer m s) (os, c)
             else if cmd = ''interrupts'' then show_with (mon_interrupts m) (os, c)
             else if cmd = ''memory'' then show_with (mon_memory m args) (os, c)
             else if cmd = ''mmio'' then show_with (mon_mmio m) (os, c)
             else if cmd = ''uart'' then show_out (mon_uart m s) (os, c)
             else if cmd = ''clock'' then show_out (mon_clock m c) (os, c)
             else if cmd = ''events'' then show_out (mon_events m c) (os, c)
             else show_out [Str (''Unknown command: '' @ [CHR 0x27]), Str cmdWord,
                            Str ([CHR 0x27] @ ''. Type '' @ [CHR 0x27] @ ''help'' @ [CHR 0x27] @ '' for supported commands.'' @ nl)] (os, c))"

definition mon_processCommand ::
  "monitor \<Rightarrow> ('w, 'z bus_st_scheme) environment \<Rightarrow> nat \<Rightarrow> string \<Rightarrow>
   ('w, 'z bus_st_scheme) session \<Rightarrow> (bool, ('w, 'z bus_st_scheme) session) outcome option" where
  "mon_processCommand = mon_executeCommand"

text \<open>The interactive session on the lines of its input.\<close>

definition prompt :: "out list" where
  "prompt = [Str ''> '']"

fun mon_lines ::
  "monitor \<Rightarrow> ('w, 'z bus_st_scheme) environment \<Rightarrow> nat \<Rightarrow> string list \<Rightarrow>
   ('w, 'z bus_st_scheme) session \<Rightarrow> (unit, ('w, 'z bus_st_scheme) session) outcome option" where
  "mon_lines m e n [] oc = Some (ret () oc)"
| "mon_lines m e n (l # ls) oc =
     (case mon_executeCommand m e n l oc of
        None \<Rightarrow> None
      | Some (Inl ex, oc) \<Rightarrow> Some (throw ex oc)
      | Some (Inr go, (os, c)) \<Rightarrow> if \<not> go then Some (ret () (os, c)) else mon_lines m e n ls (puts prompt os, c))"

definition mon_runInteractiveSession ::
  "monitor \<Rightarrow> ('w, 'z bus_st_scheme) environment \<Rightarrow> nat \<Rightarrow> string list \<Rightarrow>
   ('w, 'z bus_st_scheme) session \<Rightarrow> (unit, ('w, 'z bus_st_scheme) session) outcome option" where
  "mon_runInteractiveSession m e n ls = (\<lambda>(os, c).
     mon_lines m e n ls (puts ([Str (''Embedded Firmware Simulator Monitor (v1.0)'' @ nl),
       Str (''Type '' @ [CHR 0x27] @ ''help'' @ [CHR 0x27] @ '' for a list of commands.'' @ nl)] @ prompt) os, c))"

section \<open>What commands do\<close>

lemma puts_append: "puts (xs @ ys) os = puts ys (puts xs os)"
  by (simp add: puts_def)

lemma puts_extends: "\<exists>t. os_text (puts outs os) = os_text os @ t"
proof (induction outs arbitrary: os)
  case (Cons q qs)
  obtain t where "os_text (put q os) = os_text os @ t" by (cases q) auto
  then show ?case using Cons [of "put q os"] by (auto simp: puts_def)
qed (simp add: puts_def)

definition acting_words :: "string list" where
  "acting_words = [''reset'', ''step'', ''run'']"

definition command_word :: "string \<Rightarrow> string" where
  "command_word line = fst (split_command (trim line))"

text \<open>A command that leaves the computer alone and reports whether to go on.\<close>

definition only_prints ::
  "(bool, ('w, 'b) session) outcome option \<Rightarrow> bool \<Rightarrow> ostream \<Rightarrow> ('w, 'b) computer \<Rightarrow> bool" where
  "only_prints r b os c \<longleftrightarrow> (\<exists>outs. r = Some (ret b (puts outs os, c)))"

lemma only_prints_if:
  "(P \<Longrightarrow> only_prints r b os c) \<Longrightarrow> (\<not> P \<Longrightarrow> only_prints r' b os c) \<Longrightarrow> only_prints (if P then r else r') b os c"
  by simp

text \<open>What prints without an exception and leaves the computer alone.\<close>

definition quiet :: "('a, 'w, 'b) printing \<Rightarrow> ('w, 'b) computer \<Rightarrow> bool" where
  "quiet p c \<longleftrightarrow> (\<forall>os. \<exists>a outs. p (os, c) = ret a (puts outs os, c))"

lemma quiet_emit: "quiet (emit outs) c"
  by (auto simp: quiet_def emit_def)

lemma quiet_ret: "quiet (ret a) c"
  unfolding quiet_def by (intro allI exI [of _ a] exI [of _ "[]"]) (simp add: puts_def)

lemma quiet_look: "f (snd (world c)) = ret v (snd (world c)) \<Longrightarrow> quiet (look f) c"
  unfolding quiet_def by (intro allI exI [of _ v] exI [of _ "[]"]) (simp add: puts_def look_def via_bus_def)

lemma quiet_look_memory: "f (mem0 (snd (world c))) = ret v (mem0 (snd (world c))) \<Longrightarrow> quiet (look_memory f) c"
  unfolding look_memory_def by (rule quiet_look) simp

lemma quiet_look_registers:
  "f (c_registerFile (cpu0 c)) = ret v (c_registerFile (cpu0 c)) \<Longrightarrow> quiet (look_registers f) c"
  unfolding quiet_def
  by (intro allI exI [of _ v] exI [of _ "[]"]) (simp add: puts_def look_registers_def upd_cpu_def)

lemma quiet_then:
  assumes "quiet p c" and "\<And>a. quiet (q a) c"
  shows "quiet (\<lambda>sc. and_then (p sc) q) c"
  unfolding quiet_def
proof
  fix os
  obtain a outs where p: "p (os, c) = ret a (puts outs os, c)" using assms(1) unfolding quiet_def by blast
  obtain b more where "q a (puts outs os, c) = ret b (puts more (puts outs os), c)"
    using assms(2) [of a] unfolding quiet_def by blast
  then show "\<exists>b outs. and_then (p (os, c)) q = ret b (puts outs os, c)"
    by (intro exI [of _ b] exI [of _ "outs @ more"]) (simp add: p puts_append)
qed

lemma quiet_each: "(\<And>x. x \<in> set xs \<Longrightarrow> quiet (f x) c) \<Longrightarrow> quiet (for_each f xs) c"
proof (induction xs)
  case (Cons x xs)
  have "quiet (\<lambda>sc. and_then (f x sc) (\<lambda>_. for_each f xs)) c" by (rule quiet_then) (use Cons in auto)
  then show ?case by (simp add: quiet_def)
next
  case Nil
  then show ?case using quiet_ret [of "()" c] by (simp add: quiet_def)
qed

lemma quiet_if: "(P \<Longrightarrow> quiet p c) \<Longrightarrow> (\<not> P \<Longrightarrow> quiet q c) \<Longrightarrow> quiet (\<lambda>sc. if P then p sc else q sc) c"
  by (cases P) simp_all

lemma quiet_here: "quiet (p c) c \<Longrightarrow> quiet (\<lambda>(os, c'). p c' (os, c')) c"
  by (simp add: quiet_def)

lemmas quiet_rules = quiet_then quiet_each quiet_emit quiet_ret

text \<open>Each printing function asks the parts only for what they have.\<close>

lemma quiet_regs: "quiet (mon_regs m) c"
proof -
  have "quiet (look_registers (rf_readRegister (of_nat i))) c" if "i < NUM_GPRS" for i
    using that by (intro quiet_look_registers) (simp add: rf_readRegister_def rf_validateIndex_def NUM_GPRS_def unat_of_nat)
  then show ?thesis
    unfolding mon_regs_def Let_def by (intro quiet_here quiet_if quiet_rules) auto
qed

lemma quiet_gpio: "quiet (mon_gpio m) c"
proof -
  have "quiet (look (\<lambda>s. gpio_readPin (gpio0 s) (of_nat i) s)) c" if "i < 8" for i
    using that by (intro quiet_look) (simp add: gpio_readPin_def gpio_validatePin_def MAX_PINS_def unat_of_nat)
  then show ?thesis
    unfolding mon_gpio_def by (intro quiet_here quiet_if quiet_rules) auto
qed

lemma quiet_interrupts: "quiet (mon_interrupts m) c"
proof -
  have "ic_validId (of_nat i)" if "i < MAX_INTERRUPTS" for i
    using that by (simp add: ic_validId_def MAX_INTERRUPTS_def unat_of_nat)
  then have "quiet (look (ic_enabled (of_nat i))) c" "quiet (look (ic_pending (of_nat i))) c"
    "quiet (look (ic_getPriority (of_nat i))) c" if "i < MAX_INTERRUPTS" for i
    using that by (auto intro!: quiet_look simp: ic_enabled_def ic_pending_def ic_getPriority_def)
  then show ?thesis
    unfolding mon_interrupts_def by (intro quiet_here quiet_if quiet_rules) auto
qed

lemma quiet_dump: "quiet (mon_dump start i n) c"
proof (induction n arbitrary: i)
  case 0
  then show ?case using quiet_ret [of "()" c] by (simp add: quiet_def)
next
  case (Suc n)
  let ?a = "start + of_nat i"
  have "quiet (look_memory (memory_read ?a)) c" if "memory_isValidAddress ?a (mem0 (snd (world c)))"
    using that by (intro quiet_look_memory) (simp add: memory_read_def)
  then have "quiet (\<lambda>(os, c). mon_dump start i (Suc n) (os, c)) c"
    unfolding mon_dump.simps Let_def by (intro quiet_here quiet_if quiet_rules Suc) auto
  then show ?case by (simp add: quiet_def Let_def)
qed

lemma quiet_memory: "quiet (mon_memory m args) c"
  unfolding mon_memory_def Let_def
  by (auto intro!: quiet_emit quiet_then quiet_dump split: option.split sum.split)

lemma quiet_mmio: "quiet (mon_mmio m) c"
proof -
  have "quiet (look (mmio_read a)) c" if a: "a \<in> set (mmio_registeredAddresses (snd (world c)))" for a
  proof -
    obtain r where "map_of (m_registers (snd (world c))) a = Some r"
      using a by (cases "map_of (m_registers (snd (world c))) a") (auto simp: mmio_registeredAddresses_def map_of_eq_None_iff)
    then show ?thesis by (intro quiet_look) (simp add: mmio_read_def)
  qed
  then show ?thesis
    unfolding mon_mmio_def Let_def by (intro quiet_here quiet_if quiet_rules) auto
qed

lemma only_prints_show: "b \<Longrightarrow> only_prints (show_out outs (os, c)) b os c"
  by (auto simp: only_prints_def)

lemma only_prints_with:
  assumes "b" and "quiet p c"
  shows "only_prints (show_with p (os, c)) b os c"
proof -
  obtain a outs where "p (os, c) = ret a (puts outs os, c)" using assms(2) unfolding quiet_def by blast
  then show ?thesis using assms(1) by (auto simp: only_prints_def show_with_def)
qed

lemma only_prints_stop: "\<not> b \<Longrightarrow> only_prints (Some (ret False (puts outs os, c))) b os c"
  by (auto simp: only_prints_def)

lemma mon_inspects:
  assumes "command_word line \<notin> set acting_words"
  shows "\<exists>outs. mon_executeCommand m e n line (os, c) =
    Some (ret (command_word line \<notin> {''exit'', ''quit''}) (puts outs os, c))"
proof (cases "trim line = []")
  case True
  have "command_word line = []" by (simp add: True command_word_def split_command_def)
  then show ?thesis using True by (intro exI [of _ "[]"]) (simp add: mon_executeCommand_def puts_def)
next
  case False
  obtain cmd w args where sp: "split_command (trim line) = (cmd, w, args)" by (metis prod.exhaust)
  then have cw: "command_word line = cmd" by (simp add: command_word_def)
  have "cmd \<noteq> ''reset''" "cmd \<noteq> ''step''" "cmd \<noteq> ''run''" using assms by (auto simp: cw acting_words_def)
  then have "only_prints (mon_executeCommand m e n line (os, c)) (cmd \<notin> {''exit'', ''quit''}) os c"
    using False unfolding mon_executeCommand_def prod.case sp Let_def
    by (intro only_prints_if only_prints_show only_prints_stop only_prints_with
        quiet_regs quiet_gpio quiet_interrupts quiet_memory quiet_mmio) simp_all
  then show ?thesis by (simp only: only_prints_def cw)
qed

lemma mon_session_inspects:
  assumes "\<And>l. l \<in> set ls \<Longrightarrow> command_word l \<notin> set acting_words"
  shows "\<exists>outs. mon_lines m e n ls (os, c) = Some (ret () (puts outs os, c))"
  using assms
proof (induction ls arbitrary: os)
  case Nil
  then show ?case by (intro exI [of _ "[]"]) (simp add: puts_def)
next
  case (Cons l ls)
  obtain outs where l: "mon_executeCommand m e n l (os, c) =
      Some (ret (command_word l \<notin> {''exit'', ''quit''}) (puts outs os, c))"
    using mon_inspects [of l m e n os c] Cons.prems by auto
  obtain rest where "mon_lines m e n ls (puts prompt (puts outs os), c) = Some (ret () (puts rest (puts prompt (puts outs os)), c))"
    using Cons by (metis list.set_intros(2))
  then show ?case using l by (auto simp: puts_append [symmetric])
qed

section \<open>The cycle count\<close>

lemma show_dec_head: "\<exists>d ds. show_dec n = d # ds \<and> is_digit d"
  using show_base_starts [of 10 n] show_dec_digits [of n] by (cases "show_dec n") auto

lemma digit_not_blank: "is_digit c \<Longrightarrow> \<not> is_blank c"
  by (auto simp: is_digit_def is_blank_def)

lemma parse_cycles_show: "0 < k \<Longrightarrow> parse_cycles (show_dec (unat k)) = Some k"
proof -
  assume k: "0 < k"
  obtain d ds where s: "show_dec (unat k) = d # ds" "is_digit d" using show_dec_head by blast
  have "stoull 10 (d # ds) = Inr (k, [])"
    using show_dec_stoull [of "unat k"] unat_u64_bound [of k] by (simp add: s(1))
  then show ?thesis using k s(2) digit_not_blank [OF s(2)] by (auto simp: parse_cycles_def s(1))
qed

lemma scan_digits_all: "snd (scan_digits 10 a s) = [] \<Longrightarrow> list_all is_digit s"
  by (induction "10 :: nat" a s rule: scan_digits.induct)
    (auto simp: digit_value_def is_digit_def Let_def split: option.splits if_splits)

text \<open>Only digits are accepted, and they denote the count.\<close>

lemma parse_cycles_digits:
  assumes "parse_cycles s = Some k" and "\<not> is_blank (hd s)"
  shows "list_all is_digit s \<and> fst (scan_digits 10 0 s) = unat k \<and> 0 < k"
proof (cases s)
  case Nil
  then show ?thesis using assms(1) by (simp add: parse_cycles_def)
next
  case (Cons d ds)
  have dr: "dropWhile is_blank s = s" using assms(2) by (simp add: Cons)
  have d: "is_digit d" using assms(1) unfolding parse_cycles_def dr by (simp add: Cons split: if_splits)
  have sign: "scan_sign s = (False, s)" "dropWhile is_space s = s"
    using digit_no_sign [OF d] digit_not_space [OF d] by (auto simp: scan_sign_def Cons)
  obtain v rest where v: "scan_digits 10 0 s = (v, rest)" by (cases "scan_digits 10 0 s")
  have "v < 2 ^ 64 \<and> k = of_nat v \<and> rest = [] \<and> k \<noteq> 0"
    using assms(1) unfolding parse_cycles_def dr stoull_def sign
    by (auto simp: Let_def v split: if_splits)
  then show ?thesis using scan_digits_all [of 0 s] v by (auto simp: unat_of_nat_u64 word_neq_0_conv)
qed

lemma run_line:
  fixes k :: u64
  defines "line \<equiv> ''run '' @ show_dec (unat k)"
  shows "trim line = line" and "split_command line = (''run'', ''run'', show_dec (unat k))"
proof -
  let ?s = "show_dec (unat k)"
  have all: "\<forall>c \<in> set ?s. \<not> is_space c" using show_dec_digits [of "unat k"] by (auto simp: list_all_iff digit_not_space)
  have ne: "?s \<noteq> []" using show_dec_head [of "unat k"] by auto
  have r: "\<not> is_space (CHR ''r'')" by (simp add: is_space_def)
  have lastc: "\<not> is_space (hd (rev ?s))" using all ne by (metis hd_rev last_in_set)
  have id: "dropWhile is_space (rev ?s @ ys) = rev ?s @ ys" for ys using lastc ne by (cases "rev ?s") auto
  have plain: "trim ?s = ?s"
    using all ne id [of "[]"] by (cases ?s) (auto simp: trim_def)
  show "trim line = line" using r id [of "rev ''run ''"] by (simp add: trim_def line_def)
  have b: "\<not> is_blank (CHR ''r'')" "\<not> is_blank (CHR ''u'')" "\<not> is_blank (CHR ''n'')" "is_blank (CHR '' '')"
    "lower_char (CHR ''r'') = CHR ''r''" "lower_char (CHR ''u'') = CHR ''u''" "lower_char (CHR ''n'') = CHR ''n''"
    by (simp_all add: is_blank_def lower_char_def)
  have "trim (CHR '' '' # ?s) = trim ?s" by (simp add: trim_def is_space_def)
  then show "split_command line = (''run'', ''run'', ?s)" using b plain by (simp add: split_command_def line_def Let_def)
qed

lemma run_command:
  assumes "mo_cpu m" and "0 < k"
  shows "mon_executeCommand m e n (''run '' @ show_dec (unat k)) (os, c) =
      do_cpu (cpu_run e n k) (\<lambda>c. [Str ''Ran '', Num (unat k), Str '' cycles. Total cycle count: '',
        Num (unat (c_cycleCount (cpu0 c))), Str nl]) (os, c)"
proof -
  have ne: "show_dec (unat k) \<noteq> []" using show_dec_head [of "unat k"] by auto
  show ?thesis
    unfolding mon_executeCommand_def prod.case run_line Let_def
    using assms ne by (simp add: mon_handleRun_def parse_cycles_show)
qed

text \<open>A monitor, an empty stream, and the demonstration computer running without power.\<close>

definition demo_monitor :: monitor where
  "demo_monitor = \<lparr>mo_cpu = True, mo_memory = True, mo_mmioBus = True, mo_gpio = True, mo_timer = Some 0,
     mo_interruptController = False, mo_uart = True, mo_clock = False, mo_scheduler = False\<rparr>"

definition demo_stream :: ostream where
  "demo_stream = \<lparr>os_text = [], os_hex = False, os_fill = CHR '' '', os_left = False\<rparr>"

definition demo_off :: "(app_world, bus_st) computer" where
  "demo_off = upd_cpu (\<lambda>p. p\<lparr>c_running := True\<rparr>) (demo_computer\<lparr>powers := \<lambda>_. OFF\<rparr>)"

text \<open>The header of a memory dump names the number of bytes in hexadecimal, without a mark of the base.\<close>

lemma mon_memory_counts_in_hex:
  "\<exists>os t. mon_memory demo_monitor ''0 16'' (demo_stream, c) = ret () (os, c) \<and>
     os_text os = ''=== Memory Dump (0x0 - 10 bytes) ==='' @ nl @ t"
proof -
  let ?h = "[Str ''=== Memory Dump (0x'', Hex, Num (unat (0 :: u64)), Str '' - '', Num (unat (16 :: u64)), Str ('' bytes) ==='' @ nl)]"
  let ?rest = "\<lambda>sc. and_then (mon_dump 0 0 (unat (16 :: u64)) sc) (\<lambda>_. emit [Dec, Fill (CHR '' ''), Str nl])"
  have "extract_word ''0 16'' = Some (''0'', '' 16'')" "extract_size '' 16'' = Some 16" "stoull 0 ''0'' = Inr (0, [])"
    by (simp_all add: extract_word_def extract_size_def stoull_def scan_sign_def is_space_def hex_prefix_def starts_digit_def
        digit_value_def Let_def)
  then have m: "mon_memory demo_monitor ''0 16'' (demo_stream, c) = ?rest (puts ?h demo_stream, c)"
    by (simp add: mon_memory_def demo_monitor_def Let_def emit_def)
  have h: "os_text (puts ?h demo_stream) = ''=== Memory Dump (0x0 - 10 bytes) ==='' @ nl" by code_simp
  have "quiet ?rest c" by (intro quiet_rules quiet_dump)
  then obtain a outs where "?rest (puts ?h demo_stream, c) = ret a (puts outs (puts ?h demo_stream), c)"
    unfolding quiet_def by blast
  moreover obtain t where "os_text (puts outs (puts ?h demo_stream)) = os_text (puts ?h demo_stream) @ t"
    using puts_extends by blast
  ultimately show ?thesis unfolding m using h by simp
qed

section \<open>Properties\<close>

text \<open>
  C34. Looking at the computer does not touch it. A session none of whose command words, in lower case, is
  reset, step or run returns, whatever its lines contain, with the computer exactly as it was and the
  output stream only added to; so it is for arguments that do not parse, addresses beyond the memory,
  parts that are not attached and unknown commands.
\<close>

theorem monitor_inspection_harmless:
  assumes "\<And>l. l \<in> set ls \<Longrightarrow> command_word l \<notin> set acting_words"
  shows "\<exists>os' t. mon_runInteractiveSession m e n ls (os, c) = Some (ret () (os', c)) \<and> os_text os' = os_text os @ t"
proof -
  let ?os = "puts ([Str (''Embedded Firmware Simulator Monitor (v1.0)'' @ nl),
       Str (''Type '' @ [CHR 0x27] @ ''help'' @ [CHR 0x27] @ '' for a list of commands.'' @ nl)] @ prompt) os"
  obtain outs where o: "mon_lines m e n ls (?os, c) = Some (ret () (puts outs ?os, c))"
    using mon_session_inspects [OF assms] by blast
  obtain t where "os_text (puts outs ?os) = os_text os @ t"
    using puts_extends by (metis puts_append)
  then show ?thesis using o unfolding mon_runInteractiveSession_def prod.case by blast
qed

theorem monitor_inspection_harmless_witness:
  "\<exists>os'. mon_runInteractiveSession demo_monitor demo_env 0
      [''  Regs'', ''memory 0x10 zzz'', ''memory 0 9999999'', ''frobnicate'', '''', ''quit''] (demo_stream, demo_computer) =
    Some (ret () (os', demo_computer))"
proof -
  have "\<forall>l \<in> set [''  Regs'', ''memory 0x10 zzz'', ''memory 0 9999999'', ''frobnicate'', '''', ''quit'']. command_word l \<notin> set acting_words"
    by code_simp
  then show ?thesis using monitor_inspection_harmless by blast
qed

text \<open>
  C27. The cycle count of \<^verbatim>\<open>run\<close> is read as it is written. The line \<^verbatim>\<open>run\<close> with any positive 64-bit number in
  decimal calls \<^verbatim>\<open>CPU::run\<close> with exactly that count and reports that number; and whatever argument
  text is accepted consists of digits only and denotes the count that is passed on.
\<close>

theorem monitor_run_roundtrip:
  assumes "mo_cpu m" and "0 < k"
  shows "mon_executeCommand m e n (''run '' @ show_dec (unat k)) (os, c) =
      do_cpu (cpu_run e n k) (\<lambda>c. [Str ''Ran '', Num (unat k), Str '' cycles. Total cycle count: '',
        Num (unat (c_cycleCount (cpu0 c))), Str nl]) (os, c) \<and>
    (parse_cycles s = Some j \<and> \<not> is_blank (hd s) \<longrightarrow>
      list_all is_digit s \<and> fst (scan_digits 10 0 s) = unat j \<and> 0 < j)"
proof (intro conjI impI)
  show "mon_executeCommand m e n (''run '' @ show_dec (unat k)) (os, c) =
      do_cpu (cpu_run e n k) (\<lambda>c. [Str ''Ran '', Num (unat k), Str '' cycles. Total cycle count: '',
        Num (unat (c_cycleCount (cpu0 c))), Str nl]) (os, c)"
    by (rule run_command [OF assms])
next
  assume "parse_cycles s = Some j \<and> \<not> is_blank (hd s)"
  then show "list_all is_digit s" "fst (scan_digits 10 0 s) = unat j" "0 < j"
    using parse_cycles_digits [of s j] by simp_all
qed

theorem monitor_run_roundtrip_witness:
  "\<exists>os'. mon_executeCommand demo_monitor demo_env 0 ''run 7'' (demo_stream, demo_off) = Some (ret True (os', demo_off)) \<and>
     os_text os' = ''Ran 7 cycles. Total cycle count: 0'' @ nl"
proof -
  have seven: "show_dec 7 = ''7''" "show_dec 0 = ''0''" "unat (7 :: u64) = 7" by code_simp+
  have "cpu_run demo_env 0 7 demo_off = Some (ret () demo_off)"
    by (subst power_off_run) (simp_all add: power_off_def cpu_start_again demo_off_def upd_cpu_def)
  moreover have "c_cycleCount (cpu0 demo_off) = 0"
    by (simp add: demo_off_def upd_cpu_def demo_computer_def blank_cpu_def)
  moreover have "mo_cpu demo_monitor" by (simp add: demo_monitor_def)
  ultimately show ?thesis
    using monitor_run_roundtrip [of demo_monitor 7 demo_env 0 demo_stream demo_off] seven
    by (simp add: do_cpu_def puts_def demo_stream_def os_number_def)
qed

end
