(* ===== verification/Bus_Timing.thy ===== *)
theory Bus_Timing
  imports System_Bus
begin

text \<open>
  Time on the system bus: a timer attached to it, with the clock and the event scheduler, counts exactly
  like the abstract timer, one step per bus cycle. No further code is modelled here.
\<close>

section \<open>A timer in step with the clock\<close>

definition timer_synced :: "nat \<Rightarrow> 'z timer_st_scheme \<Rightarrow> bool" where
  "timer_synced i s \<longleftrightarrow>
     timer_wf i s \<and> timer_irq_ok i s \<and> t_scheduler (timers s i) \<and> t_clock (timers s i) \<and>
     t_lastClockCycles (timers s i) = m_cycles (clock s) \<and>
     (if timer_running i s
      then timer_counter i s < timer_compare i s \<and>
           (\<exists>e. m_events (esched s) = [e] \<and> ev_callback e = Some (TimerMatch i) \<and>
                ev_cycle e = m_cycles (clock s) + ucast (timer_compare i s - timer_counter i s))
      else m_events (esched s) = [])"

lemma timer_view_sels:
  "timer_running i s = at_running (timer_view i s)" "timer_counter i s = at_count (timer_view i s)"
  "timer_compare i s = at_compare (timer_view i s)" "timer_hasMatch i s = at_match (timer_view i s)"
  by (simp_all add: timer_view_def)

lemma timer_synced_iff:
  "timer_synced i s \<longleftrightarrow>
     timer_wf i s \<and> timer_irq_ok i s \<and> t_scheduler (timers s i) \<and> t_clock (timers s i) \<and>
     t_lastClockCycles (timers s i) = m_cycles (clock s) \<and>
     (if at_running (timer_view i s) then at_count (timer_view i s) < at_compare (timer_view i s) \<and>
        (\<exists>e. m_events (esched s) = [e] \<and> ev_callback e = Some (TimerMatch i) \<and>
             ev_cycle e = m_cycles (clock s) + ucast (at_compare (timer_view i s) - at_count (timer_view i s)))
      else m_events (esched s) = [])"
  by (simp add: timer_synced_def timer_view_def)

lemma ucast_pred: "(x :: u32) \<noteq> 0 \<Longrightarrow> (ucast x :: u64) = 1 + ucast (x - 1)"
proof -
  assume "x \<noteq> 0"
  then have "unat x = unat (x - 1) + 1" by (metis diff_add_cancel add.commute unatSuc Suc_eq_plus1)
  moreover have "unat (x - 1) < 2 ^ 32" by (rule unat_u32_bound)
  ultimately show ?thesis
    by (intro unat_cancel [THEN iffD1]) (simp add: unat_word_ariths unsigned_ucast_eq take_bit_nat_eq_self)
qed

lemma due_not_yet:
  fixes c :: u64 and x :: u32
  assumes "unat c + 2 ^ 32 < 2 ^ 64" and "x \<noteq> 0"
  shows "c + ucast x \<le> c + 1 \<longleftrightarrow> x = 1"
proof -
  have b: "unat x < 2 ^ 32" by (rule unat_u32_bound)
  have "unat (c + ucast x) = unat c + unat x" "unat (c + 1) = unat c + 1"
    using assms(1) b by (simp_all add: unat_word_ariths unsigned_ucast_eq take_bit_nat_eq_self)
  moreover have "unat x \<noteq> 0" using assms(2) by (simp add: unat_eq_0)
  moreover have "unat x = 1 \<longleftrightarrow> x = 1" by (metis unat_1 unat_cancel)
  ultimately show ?thesis by (auto simp: word_le_nat_alt)
qed

lemma clock_tick_fields [simp]:
  "timers (sched_st.clock_update cf s) = timers s" "ic (sched_st.clock_update cf s') = ic s'"
  "timer_regs (timers (sched_st.clock_update cf s) i) = timer_regs (timers s i)"
  "reg_objs (sched_st.clock_update cf s'') = reg_objs s''"
  by simp_all

text \<open>One tick of the clock, then of the timer.\<close>

lemma timer_synced_tick:
  assumes sync: "timer_synced i s" and nowrap: "unat (m_cycles (clock s)) + 2 ^ 32 < 2 ^ 64"
  defines "s1 \<equiv> s\<lparr>clock := clock_tick 1 (clock s)\<rparr>"
  obtains s2 where "timer_tick i s1 = ret () s2" and "timer_wf i s2" and "timer_irq_ok i s2"
    and "t_scheduler (timers s2 i)" and "t_clock (timers s2 i)"
    and "m_cycles (clock s2) = m_cycles (clock s) + 1"
    and "t_lastClockCycles (timers s2 i) = m_cycles (clock s2)" and "esched s2 = esched s"
    and "timer_view i s2 =
      (if timer_running i s then (timer_view i s)\<lparr>at_count := timer_counter i s + 1\<rparr> else timer_view i s)"
proof -
  have wf: "timer_wf i s" and irq: "timer_irq_ok i s" and sch: "t_scheduler (timers s i)"
    and clk: "t_clock (timers s i)" and last: "t_lastClockCycles (timers s i) = m_cycles (clock s)"
    using sync by (simp_all add: timer_synced_def)
  have one: "m_cycles (clock s1) = m_cycles (clock s) + 1" by (simp add: s1_def clock_tick_def)
  have view1: "timer_view i s1 = timer_view i s"
    by (simp add: s1_def timer_view_def timer_query_defs)
  have wf1: "timer_wf i s1" using wf by (simp add: s1_def timer_wf_def)
  have irq1: "timer_irq_ok i s1" using irq by (simp add: s1_def timer_irq_ok_def)
  have flags: "t_scheduler (timers s1 i)" "t_clock (timers s1 i)" "esched s1 = esched s"
    "t_lastClockCycles (timers s1 i) = m_cycles (clock s)"
    using sch clk last by (simp_all add: s1_def)
  let ?y = "timer_syncClock i s1"
  have y: "timer_wf i ?y" "timer_view i ?y = timer_view i s" "timer_irq_ok i ?y" "t_scheduler (timers ?y i)"
    "t_clock (timers ?y i)" "clock ?y = clock s1" "esched ?y = esched s"
    "t_lastClockCycles (timers ?y i) = m_cycles (clock s) + 1"
    using wf1 view1 irq1 flags one
    by (simp_all add: timer_irq_ok_def) (simp add: timer_syncClock_def)
  show ?thesis
  proof (cases "timer_running i s")
    case False
    then have "\<not> timer_running i s1" using view1 by (simp add: timer_view_def)
    then have "timer_tick i s1 = ret () ?y" by (simp add: timer_tick_def)
    then show ?thesis using that [of ?y] y one False by simp
  next
    case True
    then have run: "timer_running i s1" and cnt: "reg_get (t_countRegister (timers s1 i)) s1 = timer_counter i s"
      using view1 by (simp_all add: timer_view_def timer_counter_def)
    have "unat (m_cycles (clock s) + 1) = unat (m_cycles (clock s)) + 1"
      using nowrap by (simp add: unat_word_ariths)
    then have step: "timer_stepAmount i s1 = 1"
      using flags one by (simp add: timer_stepAmount_def word_less_nat_alt)
    let ?k = "reg_put (t_countRegister (timers ?y i)) (timer_counter i s + 1) ?y"
    have tick: "timer_tick i s1 = ret () ?k"
      using run step cnt flags by (simp add: timer_tick_def Let_def)
    have view: "timer_view i ?k = (timer_view i s)\<lparr>at_count := timer_counter i s + 1\<rparr>"
      using timer_view_put(2) [OF y(1), of "timer_counter i s + 1"] y(2) by simp
    show ?thesis
      by (rule that [OF tick]) (use y one view True in \<open>simp_all add: timer_irq_ok_def\<close>)
  qed
qed

lemma timer_match_fields:
  assumes "timer_running i q" and "m_events (esched q) = []"
  shows "clock (snd (timer_handleCompareMatch i q)) = clock q"
    and "m_events (esched (snd (timer_handleCompareMatch i q))) = []"
    and "t_lastClockCycles (timers (snd (timer_handleCompareMatch i q)) i) = t_lastClockCycles (timers q i)"
    and "t_interruptController (timers (snd (timer_handleCompareMatch i q)) i) = t_interruptController (timers q i)"
    and "t_interruptId (timers (snd (timer_handleCompareMatch i q)) i) = t_interruptId (timers q i)"
  using assms
  by (simp_all add: timer_handleCompareMatch_def Let_def timer_stop_def timer_cancelScheduledEvent_def
      sched_cancel_def)

text \<open>The event scheduler then runs the compare match exactly when the count has reached the compare value.\<close>

lemma timer_synced_events:
  assumes s2: "timer_wf i s2" "timer_irq_ok i s2" "t_scheduler (timers s2 i)" "t_clock (timers s2 i)"
      "t_lastClockCycles (timers s2 i) = m_cycles (clock s2)"
    and now: "m_cycles (clock s2) = c + 1" and nowrap: "unat c + 2 ^ 32 < 2 ^ 64"
    and view: "timer_view i s2 = (if at_running a then a\<lparr>at_count := at_count a + 1\<rparr> else a)"
    and events: "if at_running a then at_count a < at_compare a \<and>
        (\<exists>e. m_events (esched s2) = [e] \<and> ev_callback e = Some (TimerMatch i) \<and>
             ev_cycle e = c + ucast (at_compare a - at_count a))
      else m_events (esched s2) = []"
  obtains n s3 where "sched_executeReadyEvents (run_callback user) (m_cycles (clock s2)) s2 = ret n s3"
    and "timer_synced i s3" and "timer_view i s3 = abs_tick a" and "clock s3 = clock s2"
proof (cases "at_running a")
  case False
  have "m_events (esched s2) = []" using events False by simp
  then have run: "sched_executeReadyEvents (run_callback user) (m_cycles (clock s2)) s2 = ret 0 s2"
    by (simp add: sched_executeReadyEvents_def)
  have v: "timer_view i s2 = abs_tick a" using view False by (simp add: abs_tick_def)
  have "\<not> at_running (timer_view i s2)" using view False by simp
  then have "\<not> timer_running i s2" by (simp add: timer_view_def)
  then have "timer_synced i s2" using s2 \<open>m_events (esched s2) = []\<close> by (simp add: timer_synced_def)
  then show ?thesis using that [of 0 s2] run v by simp
next
  case True
  let ?x = "at_compare a - at_count a"
  obtain e where e: "m_events (esched s2) = [e]" "ev_callback e = Some (TimerMatch i)" "ev_cycle e = c + ucast ?x"
    and lt: "at_count a < at_compare a"
    using events True by auto
  have x0: "?x \<noteq> 0" using lt by auto
  have v: "timer_view i s2 = a\<lparr>at_count := at_count a + 1\<rparr>" using view True by simp
  then have run: "timer_running i s2" and cnt: "timer_counter i s2 = at_count a + 1"
    and cmp: "timer_compare i s2 = at_compare a"
    using True by (simp_all add: timer_view_sels v)
  have le: "at_count a + 1 \<le> at_compare a" using lt by (simp add: inc_le)
  show ?thesis
  proof (cases "?x = 1")
    case False
    then have wait: "\<not> ev_cycle e \<le> m_cycles (clock s2)"
      using e(3) now due_not_yet [OF nowrap x0] by simp
    have ne: "at_count a + 1 \<noteq> at_compare a" using False by (metis add_diff_cancel_left')
    with le have less: "at_count a + 1 < at_compare a" by simp
    have "sched_executeReadyEvents (run_callback user) (m_cycles (clock s2)) s2 =
        ret 0 (s2\<lparr>esched := (esched s2)\<lparr>m_events := [e]\<rparr>\<rparr>)"
      using e(1) wait by (simp add: sched_executeReadyEvents_def sort_events_def)
    moreover have "s2\<lparr>esched := (esched s2)\<lparr>m_events := [e]\<rparr>\<rparr> = s2"
      using e(1) by (cases s2, cases "esched s2") simp
    ultimately have exec: "sched_executeReadyEvents (run_callback user) (m_cycles (clock s2)) s2 = ret 0 s2" by simp
    have tick: "timer_view i s2 = abs_tick a" using True v less by (simp add: abs_tick_def not_le)
    have "ev_cycle e = m_cycles (clock s2) + ucast (timer_compare i s2 - timer_counter i s2)"
      using e(3) now cnt cmp ucast_pred [OF x0] by (simp add: algebra_simps)
    then have "timer_synced i s2" using s2 run less e cnt cmp by (simp add: timer_synced_def)
    then show ?thesis using that [of 0 s2] exec tick by simp
  next
    case True
    then have hit: "at_count a + 1 = at_compare a" by (simp add: diff_eq_eq add.commute)
    let ?q = "s2\<lparr>esched := (esched s2)\<lparr>m_events := []\<rparr>\<rparr>"
    have q: "timer_wf i ?q" "timer_running i ?q" "timer_view i ?q = timer_view i s2"
      using s2(1) run by (simp_all add: timer_wf_def timer_view_def timer_query_defs)
    obtain s3 where m: "timer_handleCompareMatch i ?q = ret () s3"
      using timer_match_outcome [of i ?q] s2(2)
      by (cases "timer_handleCompareMatch i ?q") (auto simp: timer_irq_ok_def split: if_splits)
    have s3: "s3 = snd (timer_handleCompareMatch i ?q)" by (simp add: m)
    have due: "ev_cycle e \<le> m_cycles (clock s2)" using e(3) now due_not_yet [OF nowrap x0] True by simp
    have exec: "sched_executeReadyEvents (run_callback user) (m_cycles (clock s2)) s2 = ret 1 s3"
      using e(1,2) due m by (simp add: sched_executeReadyEvents_def sort_events_def run_callback_def)
    have view3: "timer_view i s3 = a\<lparr>at_running := False, at_count := at_compare a, at_match := True\<rparr>"
      using timer_view_match [OF q(1,2)] v cmp by (simp add: s3 q(3)) (simp add: q(3) timer_query_defs)
    have tick: "timer_view i s3 = abs_tick a"
      using \<open>at_running a\<close> hit view3 by (simp add: abs_tick_def)
    have not_running: "\<not> timer_running i s3" by (simp add: timer_view_sels view3)
    note f = timer_match_fields [OF q(2), folded s3, simplified]
    have "timer_synced i s3"
      using s2 q(1) f not_running by (simp add: timer_synced_def timer_irq_ok_def s3)
    then show ?thesis using that [of 1 s3] exec tick f(1) by simp
  qed
qed

section \<open>The bus around the timer\<close>

lemma sb_frames [simp]:
  "sb (reg_put r v s) = sb s" "sb (reg_rst r s) = sb s" "sb (upd_timer i f s) = sb s"
  "sb (timer_syncClock i s) = sb s" "sb (timer_cancelScheduledEvent i s) = sb s"
  "sb (timer_stop i s) = sb s" "sb (snd (ic_trigger q s)) = sb s"
  by (simp_all add: reg_put_def reg_rst_def upd_timer_def timer_syncClock_def timer_cancelScheduledEvent_def
      timer_stop_def ic_trigger_def Let_def)

lemma sb_match [simp]: "sb (snd (timer_handleCompareMatch i s)) = sb s"
  by (simp add: timer_handleCompareMatch_def Let_def)

lemma sb_tick [simp]: "sb (snd (timer_tick i s)) = sb s"
  by (simp add: timer_tick_def Let_def)

lemma sb_events:
  assumes "m_events (esched s) = [] \<or> (\<exists>e. m_events (esched s) = [e] \<and> ev_callback e = Some (TimerMatch i))"
  shows "sb (snd (sched_executeReadyEvents (run_callback user) now s)) = sb s"
proof -
  let ?q = "s\<lparr>esched := (esched s)\<lparr>m_events := []\<rparr>\<rparr>"
  consider "m_events (esched s) = []"
    | e where "m_events (esched s) = [e]" "ev_callback e = Some (TimerMatch i)" "ev_cycle e \<le> now"
    | e where "m_events (esched s) = [e]" "\<not> ev_cycle e \<le> now"
    using assms by blast
  then show ?thesis
  proof cases
    case 2
    then have "snd (sched_executeReadyEvents (run_callback user) now s) = snd (timer_handleCompareMatch i ?q)"
      by (simp add: sched_executeReadyEvents_def sort_events_def run_callback_def and_then_def
          split: prod.splits sum.splits)
    then show ?thesis by simp
  qed (simp_all add: sched_executeReadyEvents_def sort_events_def)
qed

text \<open>A bus with one timer, in step with the clock, and nothing else that ticks.\<close>

definition bus_of_timer :: "nat \<Rightarrow> 'z bus_st_scheme \<Rightarrow> bool" where
  "bus_of_timer i s \<longleftrightarrow>
     sb_timers (sb s) = [i] \<and> sb_dmas (sb s) = [] \<and> \<not> sb_pwm (sb s) \<and> timer_synced i s"

text \<open>Interrupt handlers that return and leave the timer and the wiring alone.\<close>

definition spares_timer :: "nat \<Rightarrow> ('z bus_st_scheme \<Rightarrow> (unit, 'z bus_st_scheme) outcome) \<Rightarrow> bool" where
  "spares_timer i f \<longleftrightarrow> (\<forall>s. bus_of_timer i s \<longrightarrow>
     (\<exists>s'. f s = ret () s' \<and> bus_of_timer i s' \<and> timer_view i s' = timer_view i s \<and> clock s' = clock s))"

lemma timer_synced_pending:
  "timer_synced i s \<Longrightarrow> timer_synced i (reg_put (ic_pendingRegister (ic s)) v s)"
  using timer_view_put(5) [of i s v]
  by (simp add: timer_synced_iff timer_irq_ok_def)

lemma dispatch_spares:
  assumes s: "bus_of_timer i s" and spares: "\<And>n. spares_timer i (handler n)"
  obtains b s' where "ic_dispatch handler s = ret b s'" and "bus_of_timer i s'"
    and "timer_view i s' = timer_view i s" and "clock s' = clock s"
proof (cases "ic_active s = 0 \<or> dispatch_pick (ic_active s) (ic_handlers (ic s)) (ic_priorities (ic s)) = None")
  case True
  then have "ic_dispatch handler s = ret False s" by (auto simp: ic_dispatch_def)
  then show ?thesis using that s by blast
next
  case False
  then obtain t where pick: "dispatch_pick (ic_active s) (ic_handlers (ic s)) (ic_priorities (ic s)) = Some t"
    by auto
  then have "candidate (ic_active s) (ic_handlers (ic s)) t" by (simp add: dispatch_pick_Some)
  then have t32: "t < 32" by (simp add: candidate_def MAX_INTERRUPTS_def)
  define c where "c = snd (ic_clear (of_nat t) s)"
  have valid: "ic_validId (of_nat t)"
    using t32 by (simp add: ic_validId_def MAX_INTERRUPTS_def unat_of_nat take_bit_nat_eq_self)
  then have clear: "ic_clear (of_nat t) s = ret () c" by (simp add: c_def ic_clear_def Let_def)
  have wf: "timer_wf i s" using s by (simp add: bus_of_timer_def timer_synced_def)
  have c: "bus_of_timer i c" "timer_view i c = timer_view i s" "clock c = clock s" "ic c = ic s"
    using s timer_synced_pending [of i s] timer_view_put(5) [OF wf] valid
    by (simp_all add: c_def ic_clear_def Let_def bus_of_timer_def)
  show ?thesis
  proof (cases "ic_handlers (ic c) ! t")
    case None
    then have "ic_dispatch handler s = ret True c" using False pick clear by (simp add: ic_dispatch_def)
    then show ?thesis using that c by blast
  next
    case (Some h)
    obtain s' where "handler h c = ret () s'" "bus_of_timer i s'" "timer_view i s' = timer_view i c"
      "clock s' = clock c"
      using spares [of h] c(1) unfolding spares_timer_def by blast
    then show ?thesis using that [of True s'] False pick clear Some c by (simp add: ic_dispatch_def)
  qed
qed

lemma bus_cycle_timer:
  assumes s: "bus_of_timer i s" and nowrap: "unat (m_cycles (clock s)) + 2 ^ 32 < 2 ^ 64"
    and spares: "\<And>n. spares_timer i (handler n)"
  obtains s' where "sb_cycle user handler s = ret () s'" and "bus_of_timer i s'"
    and "timer_view i s' = abs_tick (timer_view i s)" and "m_cycles (clock s') = m_cycles (clock s) + 1"
proof -
  have sync: "timer_synced i s" and sb: "sb_timers (sb s) = [i]" "sb_dmas (sb s) = []" "\<not> sb_pwm (sb s)"
    using s by (simp_all add: bus_of_timer_def)
  let ?s1 = "s\<lparr>clock := clock_tick 1 (clock s)\<rparr>"
  obtain s2 where tick: "timer_tick i ?s1 = ret () s2"
    and s2: "timer_wf i s2" "timer_irq_ok i s2" "t_scheduler (timers s2 i)" "t_clock (timers s2 i)"
      "t_lastClockCycles (timers s2 i) = m_cycles (clock s2)"
    and now: "m_cycles (clock s2) = m_cycles (clock s) + 1" and ev: "esched s2 = esched s"
    and view: "timer_view i s2 =
      (if timer_running i s then (timer_view i s)\<lparr>at_count := timer_counter i s + 1\<rparr> else timer_view i s)"
    by (rule timer_synced_tick [OF sync nowrap]) blast
  have sb2: "sb s2 = sb s" using tick sb_tick [of i ?s1] by simp
  have view': "timer_view i s2 = (if at_running (timer_view i s)
      then (timer_view i s)\<lparr>at_count := at_count (timer_view i s) + 1\<rparr> else timer_view i s)"
    using view by (simp add: timer_view_sels)
  have events: "if at_running (timer_view i s) then at_count (timer_view i s) < at_compare (timer_view i s) \<and>
        (\<exists>e. m_events (esched s2) = [e] \<and> ev_callback e = Some (TimerMatch i) \<and>
             ev_cycle e = m_cycles (clock s) + ucast (at_compare (timer_view i s) - at_count (timer_view i s)))
      else m_events (esched s2) = []"
    using sync ev by (simp add: timer_synced_iff)
  obtain n s3 where run: "sched_executeReadyEvents (run_callback user) (m_cycles (clock s2)) s2 = ret n s3"
    and s3: "timer_synced i s3" "timer_view i s3 = abs_tick (timer_view i s)" "clock s3 = clock s2"
    by (rule timer_synced_events [OF s2 now nowrap view' events]) blast
  have "m_events (esched s2) = [] \<or> (\<exists>e. m_events (esched s2) = [e] \<and> ev_callback e = Some (TimerMatch i))"
    using events by (auto split: if_splits)
  then have sb3: "sb s3 = sb s" using sb_events [of s2 i user "m_cycles (clock s2)"] run sb2 by simp
  have bus3: "bus_of_timer i s3" using s3(1) sb sb3 by (simp add: bus_of_timer_def)
  have ticks: "sb_tickTimers s = ret () s2" using sb sb2 tick by (simp add: sb_tickTimers_def)
  show ?thesis
  proof (cases "sb_interruptController (sb s)")
    case False
    then show ?thesis using that [of s3] ticks run sb3 bus3 s3 now by (simp add: sb_cycle_def)
  next
    case True
    obtain b s4 where "ic_dispatch handler s3 = ret b s4" "bus_of_timer i s4" "timer_view i s4 = timer_view i s3"
      "clock s4 = clock s3"
      by (rule dispatch_spares [where handler = handler, OF bus3 spares]) blast
    then show ?thesis using that [of s4] ticks run sb3 s3 now True by (simp add: sb_cycle_def)
  qed
qed

fun sb_cycles ::
  "(nat \<Rightarrow> 'z bus_st_scheme \<Rightarrow> (unit, 'z bus_st_scheme) outcome) \<Rightarrow>
   (nat \<Rightarrow> 'z bus_st_scheme \<Rightarrow> (unit, 'z bus_st_scheme) outcome) \<Rightarrow>
   nat \<Rightarrow> 'z bus_st_scheme \<Rightarrow> (unit, 'z bus_st_scheme) outcome" where
  "sb_cycles user handler 0 s = ret () s"
| "sb_cycles user handler (Suc k) s = and_then (sb_cycles user handler k s) (\<lambda>_. sb_cycle user handler)"

lemma bus_cycles_timer:
  assumes s: "bus_of_timer i s" and nowrap: "unat (m_cycles (clock s)) + k + 2 ^ 32 < 2 ^ 64"
    and spares: "\<And>n. spares_timer i (handler n)"
  shows "\<exists>s'. sb_cycles user handler k s = ret () s' \<and> bus_of_timer i s' \<and>
     timer_view i s' = (abs_tick ^^ k) (timer_view i s) \<and>
     unat (m_cycles (clock s')) = unat (m_cycles (clock s)) + k"
  using nowrap
proof (induction k)
  case (Suc k)
  then obtain s1 where s1: "sb_cycles user handler k s = ret () s1" "bus_of_timer i s1"
    "timer_view i s1 = (abs_tick ^^ k) (timer_view i s)"
    "unat (m_cycles (clock s1)) = unat (m_cycles (clock s)) + k"
    by auto
  have nowrap1: "unat (m_cycles (clock s1)) + 2 ^ 32 < 2 ^ 64" using Suc.prems s1(4) by simp
  obtain s2 where "sb_cycle user handler s1 = ret () s2" "bus_of_timer i s2"
    "timer_view i s2 = abs_tick (timer_view i s1)" "m_cycles (clock s2) = m_cycles (clock s1) + 1"
    by (rule bus_cycle_timer [where user = user and handler = handler, OF s1(2) nowrap1 spares]) blast
  moreover from this have "unat (m_cycles (clock s2)) = unat (m_cycles (clock s1)) + 1"
    using nowrap1 by (simp add: unat_word_ariths)
  ultimately show ?case using s1 by (intro exI [of _ s2]) simp
qed (use s in simp)

section \<open>Attaching and starting a timer\<close>

lemma timer_cancel_empty:
  assumes "m_events (esched s) = []"
  shows "m_events (esched (timer_cancelScheduledEvent i s)) = []"
    and "t_lastClockCycles (timers (timer_cancelScheduledEvent i s) i) = t_lastClockCycles (timers s i)"
  using assms by (simp_all add: timer_cancelScheduledEvent_def sched_cancel_def)

lemma timer_update_idle:
  "\<not> timer_running i s \<Longrightarrow> timer_updateScheduledEvent i s = timer_cancelScheduledEvent i s"
  by (simp add: timer_update_eq timer_due_def)

lemma timer_update_posts:
  assumes "timer_running i s" "t_scheduler (timers s i)" "t_clock (timers s i)"
    and "timer_counter i s < timer_compare i s" and "m_events (esched s) = []"
  shows "\<exists>e. m_events (esched (timer_updateScheduledEvent i s)) = [e] \<and> ev_callback e = Some (TimerMatch i) \<and>
      ev_cycle e = m_cycles (clock s) + ucast (timer_compare i s - timer_counter i s)"
    and "t_lastClockCycles (timers (timer_updateScheduledEvent i s) i) = t_lastClockCycles (timers s i)"
  using assms timer_cancel_empty [OF assms(5), of i]
  by (simp_all add: timer_update_eq timer_due_def Let_def sched_post_def sched_schedule_def)

lemma timer_start_synced:
  assumes wf: "timer_wf i s" and irq: "timer_irq_ok i s" and sch: "t_scheduler (timers s i)" and clk: "t_clock (timers s i)"
    and empty: "m_events (esched s) = []" and lt: "timer_counter i s < timer_compare i s"
  shows "timer_synced i (timer_start i s)"
proof -
  let ?u = "timer_syncClock i (reg_put (t_ctrlRegister (timers s i))
      (set_flag (reg_get (t_ctrlRegister (timers s i)) s) 0) s)"
  have st: "timer_start i s = timer_updateScheduledEvent i ?u" by (simp add: timer_start_def Let_def)
  have put: "timer_view i (reg_put (t_ctrlRegister (timers s i))
      (set_flag (reg_get (t_ctrlRegister (timers s i)) s) 0) s) = (timer_view i s)\<lparr>at_running := True\<rparr>"
    using timer_view_put(1) [OF wf] by (simp add: flag_simps)
  have f: "timer_running i ?u" "t_scheduler (timers ?u i)" "t_clock (timers ?u i)"
    "timer_counter i ?u < timer_compare i ?u" "m_events (esched ?u) = []" "clock ?u = clock s"
    "t_lastClockCycles (timers ?u i) = m_cycles (clock s)"
    using sch clk empty lt
    by (simp_all add: timer_view_sels put) (simp add: timer_syncClock_def)
  note p = timer_update_posts [OF f(1-5), folded st]
  have irq': "timer_irq_ok i (timer_start i s)" using irq by (simp add: timer_irq_ok_def)
  have clock: "clock (timer_start i s) = clock s" by (simp add: timer_start_def Let_def)
  show ?thesis
    using p f(6,7) wf irq' sch clk lt clock
    unfolding timer_synced_iff timer_view_start [OF wf]
    by (simp add: timer_view_sels put)
qed

lemma upd_sb_fields [simp]:
  "timer_view i (upd_sb f s) = timer_view i s" "timer_wf i (upd_sb f s) = timer_wf i s"
  "timer_irq_ok i (upd_sb f s) = timer_irq_ok i s" "timers (upd_sb f s) = timers s"
  "esched (upd_sb f s) = esched s" "clock (upd_sb f s) = clock s" "sb (upd_sb f s) = f (sb s)"
  by (simp_all add: upd_sb_def timer_view_def timer_query_defs timer_wf_def timer_irq_ok_def
      reg_get_def)

lemma timer_attach_fields:
  assumes "\<not> timer_running i s" and "m_events (esched s) = []"
  defines "b \<equiv> timer_attachScheduler i True (timer_attachClock i True s)"
  shows "timer_view i b = timer_view i s" and "timer_wf i b = timer_wf i s"
    and "timer_irq_ok i b = timer_irq_ok i s" and "t_scheduler (timers b i)" and "t_clock (timers b i)"
    and "m_events (esched b) = []" and "clock b = clock s" and "sb b = sb s"
proof -
  let ?u = "upd_timer i (\<lambda>t. t\<lparr>t_scheduler := True\<rparr>) (timer_attachClock i True s)"
  have "\<not> timer_running i ?u" using assms(1) by (simp add: timer_attachClock_def timer_running_def)
  then have b: "b = timer_cancelScheduledEvent i ?u"
    by (simp add: b_def timer_attachScheduler_def timer_update_idle)
  have ev: "m_events (esched ?u) = []" using assms(2) by (simp add: timer_attachClock_def)
  show "m_events (esched b) = []" unfolding b by (rule timer_cancel_empty(1) [OF ev])
  show "timer_view i b = timer_view i s"
    unfolding b by (simp add: timer_attachClock_def) (simp add: timer_view_def timer_query_defs)
  show "timer_wf i b = timer_wf i s" "timer_irq_ok i b = timer_irq_ok i s"
    "t_scheduler (timers b i)" "t_clock (timers b i)" "clock b = clock s" "sb b = sb s"
    unfolding b by (simp_all add: timer_attachClock_def timer_irq_ok_def) (simp add: timer_wf_def)
qed

text \<open>
  C4. A timer on the bus keeps time. Attach a stopped timer to a bus on which nothing else ticks and no
  event is pending, and start it below its compare value. As long as the cycle counter does not wrap,
  any number of bus cycles (tick, due events, interrupt dispatch) runs without an exception and takes
  its registers through as many steps of the abstract timer, although the match is delivered by the
  event scheduler and the counting follows the clock. Interrupt handlers may run, if they leave the
  timer alone.
\<close>

theorem bus_event_timer_refines:
  assumes "timer_wf i s" and "timer_irq_ok i s" and "\<not> timer_running i s"
    and "timer_counter i s < timer_compare i s" and "m_events (esched s) = []"
    and "sb_timers (sb s) = []" and "sb_dmas (sb s) = []" and "\<not> sb_pwm (sb s)"
    and "unat (m_cycles (clock s)) + k + 2 ^ 32 < 2 ^ 64"
    and "\<And>n. spares_timer i (handler n)"
  shows "\<exists>s'. sb_cycles user handler k (timer_start i (snd (sb_attachTimer (Some i) s))) = ret () s' \<and>
     timer_view i s' = (abs_tick ^^ k) ((timer_view i s)\<lparr>at_running := True\<rparr>)"
proof -
  let ?a = "timer_attachClock i True s"
  let ?b = "timer_attachScheduler i True ?a"
  let ?c = "upd_sb (\<lambda>b. b\<lparr>sb_timers := sb_timers b @ [i]\<rparr>) ?b"
  have attach: "snd (sb_attachTimer (Some i) s) = ?c" using assms(6) by (simp add: sb_attachTimer_def Let_def)
  note b = timer_attach_fields [OF assms(3,5)]
  have view: "timer_view i ?c = timer_view i s" and wf: "timer_wf i ?c" and irq: "timer_irq_ok i ?c"
    and sch: "t_scheduler (timers ?c i)" "t_clock (timers ?c i)"
    and empty: "m_events (esched ?c) = []" and cyc: "clock ?c = clock s"
    using b assms(1,2) by simp_all
  have lt: "timer_counter i ?c < timer_compare i ?c" using assms(4) by (simp add: timer_view_sels b(1))
  have sync: "timer_synced i (timer_start i ?c)" by (rule timer_start_synced [OF wf irq sch empty lt])
  have sbc: "sb (timer_start i ?c) = (sb s)\<lparr>sb_timers := [i]\<rparr>"
    using assms(6) b(8)
    by (simp add: timer_start_def Let_def timer_update_eq upd_timer_def split: option.splits)
  have bus: "bus_of_timer i (timer_start i ?c)" using sync sbc assms(7,8) by (simp add: bus_of_timer_def)
  have "clock (timer_start i ?c) = clock s" using cyc by (simp add: timer_start_def Let_def)
  then show ?thesis
    using bus_cycles_timer [where user = user and handler = handler and k = k, OF bus _ assms(10)] assms(9)
    by (auto simp: attach timer_view_start [OF wf] b(1))
qed

lemma demo_machine_timer:
  "timer_wf 0 demo_machine" "timer_irq_ok 0 demo_machine"
  "timer_view 0 demo_machine = \<lparr>at_running = False, at_count = 0, at_compare = 3, at_match = False\<rparr>"
  "m_events (esched demo_machine) = []" "sb_timers (sb demo_machine) = []" "sb_dmas (sb demo_machine) = []"
  "\<not> sb_pwm (sb demo_machine)" "m_cycles (clock demo_machine) = 0"
proof -
  let ?t = "timer_setCompare 0 3 demo_timer"
  have same: "timers demo_machine = timers ?t" "reg_objs demo_machine = reg_objs ?t" "ic demo_machine = ic ?t"
    by (simp_all add: demo_machine_def Let_def sb_init_def)
  have t: "timer_wf 0 ?t" by (simp add: demo_timer_wf)
  show "timer_wf 0 demo_machine" using t by (simp add: timer_wf_def same)
  have "timer_view 0 ?t = \<lparr>at_running = False, at_count = 0, at_compare = 3, at_match = False\<rparr>"
    by (simp add: timer_view_setCompare demo_timer_wf demo_timer_view)
  then show "timer_view 0 demo_machine = \<lparr>at_running = False, at_count = 0, at_compare = 3, at_match = False\<rparr>"
    by (simp add: timer_view_def timer_query_defs reg_get_def same)
  have "t_interruptId (timers ?t 0) = 5"
    by (simp add: timer_setCompare_def demo_timer_plain)
  then show "timer_irq_ok 0 demo_machine" by (simp add: timer_irq_ok_def same ic_validId_def MAX_INTERRUPTS_def)
qed (simp_all add: demo_machine_def Let_def sb_init_def sched_init_def)

theorem bus_event_timer_refines_witness:
  "\<exists>s'. sb_cycles (\<lambda>_. ret ()) (\<lambda>_. ret ()) 3 (timer_start 0 (snd (sb_attachTimer (Some 0) demo_machine))) = ret () s' \<and>
     timer_view 0 s' = \<lparr>at_running = False, at_count = 3, at_compare = 3, at_match = True\<rparr>"
proof -
  have spare: "spares_timer 0 (ret ())" by (simp add: spares_timer_def)
  have "\<not> timer_running 0 demo_machine" "timer_counter 0 demo_machine < timer_compare 0 demo_machine"
    by (simp_all add: timer_view_sels demo_machine_timer)
  with bus_event_timer_refines [of 0 demo_machine 3 "\<lambda>_. ret ()" "\<lambda>_. ret ()"] spare
  have "\<exists>s'. sb_cycles (\<lambda>_. ret ()) (\<lambda>_. ret ()) 3 (timer_start 0 (snd (sb_attachTimer (Some 0) demo_machine))) = ret () s' \<and>
     timer_view 0 s' = (abs_tick ^^ 3) ((timer_view 0 demo_machine)\<lparr>at_running := True\<rparr>)"
    by (simp add: demo_machine_timer)
  moreover have "(abs_tick ^^ 3) \<lparr>at_running = True, at_count = 0, at_compare = 3, at_match = False\<rparr> =
      \<lparr>at_running = False, at_count = 3, at_compare = 3, at_match = True\<rparr>"
    by code_simp
  ultimately show ?thesis by (simp add: demo_machine_timer)
qed

end
