(* ===== verification/Bus_Frames.thy ===== *)
theory Bus_Frames
  imports Bus_Timing
begin

text \<open>
  What a bus cycle leaves alone when its only ticking part is a timer and no interrupt has a handler: all
  registers but those of the timer and the pending register. No further code is modelled here.
\<close>

lemma gpio0_put [simp]: "gpio0 (reg_put r v s) = gpio0 s"
  by (simp add: reg_put_def)

lemma uart_mem_put [simp]:
  "uart0 (reg_put r v s) = uart0 s" "mem0 (reg_put r v s) = mem0 s"
  "uart0 (upd_timer i f s) = uart0 s" "mem0 (upd_timer i f s) = mem0 s"
  by (simp_all add: reg_put_def upd_timer_def)

section \<open>What a timer leaves alone\<close>

definition timer_spares :: "nat \<Rightarrow> 'z bus_st_scheme \<Rightarrow> 'z bus_st_scheme \<Rightarrow> bool" where
  "timer_spares i s s' \<longleftrightarrow> gpio0 s' = gpio0 s \<and> ic s' = ic s \<and> sb s' = sb s \<and>
     uart0 s' = uart0 s \<and> mem0 s' = mem0 s \<and>
     timer_regs (timers s' i) = timer_regs (timers s i) \<and>
     t_interruptController (timers s' i) = t_interruptController (timers s i) \<and>
     t_interruptId (timers s' i) = t_interruptId (timers s i) \<and>
     (\<forall>r. r \<notin> set (timer_regs (timers s i)) \<and> r \<noteq> ic_pendingRegister (ic s) \<longrightarrow> reg_get r s' = reg_get r s) \<and>
     (\<forall>r. m_initialValue (reg_objs s' r) = m_initialValue (reg_objs s r))"

lemma timer_spares_refl [simp]: "timer_spares i s s"
  by (simp add: timer_spares_def)

lemma timer_spares_trans [trans]: "timer_spares i a b \<Longrightarrow> timer_spares i b c \<Longrightarrow> timer_spares i a c"
  by (simp add: timer_spares_def)

lemma timer_spares_put:
  "r \<in> set (timer_regs (timers s i)) \<or> r = ic_pendingRegister (ic s) \<Longrightarrow> timer_spares i s (reg_put r v s)"
  by (auto simp: timer_spares_def)

lemma timer_spares_clock: "timer_spares i s (s\<lparr>clock := x\<rparr>)" "timer_spares i s (s\<lparr>esched := q\<rparr>)"
  by (simp_all add: timer_spares_def reg_get_def)

lemma timer_spares_sync: "timer_spares i s (timer_syncClock i s)"
  by (simp add: timer_spares_def) (simp add: timer_syncClock_def upd_timer_def)

lemma timer_spares_cancel: "timer_spares i s (timer_cancelScheduledEvent i s)"
  by (simp add: timer_spares_def reg_get_def) (simp add: timer_cancelScheduledEvent_def upd_timer_def)

lemma timer_spares_update: "timer_spares i s (timer_updateScheduledEvent i s)"
proof -
  have "timer_spares i s' (upd_timer i (\<lambda>t. t\<lparr>t_scheduledEventId := e\<rparr>) (s'\<lparr>esched := q\<rparr>))" for e q s'
    by (simp add: timer_spares_def upd_timer_def reg_get_def)
  then show ?thesis
    using timer_spares_cancel [of i s]
    by (auto simp: timer_updateScheduledEvent_def Let_def intro: timer_spares_trans split: prod.splits)
qed

lemma timer_regs_in [simp]:
  "t_ctrlRegister t \<in> set (timer_regs t)" "t_countRegister t \<in> set (timer_regs t)"
  "t_compareRegister t \<in> set (timer_regs t)" "t_statusRegister t \<in> set (timer_regs t)"
  by (simp_all add: timer_regs_def)

lemma timer_spares_start: "timer_spares i s (timer_start i s)"
proof -
  let ?r = "reg_put (t_ctrlRegister (timers s i)) (set_flag (reg_get (t_ctrlRegister (timers s i)) s) 0) s"
  have "timer_spares i s ?r" by (simp add: timer_spares_put)
  also have "timer_spares i \<dots> (timer_syncClock i ?r)" by (rule timer_spares_sync)
  also have "timer_spares i \<dots> (timer_updateScheduledEvent i (timer_syncClock i ?r))" by (rule timer_spares_update)
  finally show ?thesis by (simp add: timer_start_def Let_def)
qed

lemma timer_spares_stop: "timer_spares i s (timer_stop i s)"
proof -
  let ?r = "reg_put (t_ctrlRegister (timers s i)) (clear_flag (reg_get (t_ctrlRegister (timers s i)) s) 0) s"
  have "timer_spares i s ?r" by (simp add: timer_spares_put)
  also have "timer_spares i \<dots> (timer_cancelScheduledEvent i ?r)" by (rule timer_spares_cancel)
  finally show ?thesis by (simp add: timer_stop_def Let_def)
qed

lemma timer_spares_trigger: "timer_spares i s (snd (ic_trigger q s))"
  by (simp add: ic_trigger_def Let_def timer_spares_put)

lemma timer_spares_match: "timer_spares i s (snd (timer_handleCompareMatch i s))"
proof (cases "timer_running i s")
  case True
  let ?a = "reg_put (t_countRegister (timers s i)) (timer_compare i s) s"
  let ?r = "t_statusRegister (timers ?a i)"
  let ?b = "reg_put ?r (set_flag (reg_get ?r ?a) 0) ?a"
  let ?c = "timer_stop i ?b"
  have "timer_spares i s ?a" by (simp add: timer_spares_put)
  also have "timer_spares i \<dots> ?b" by (simp add: timer_spares_put)
  also have "timer_spares i \<dots> ?c" by (rule timer_spares_stop)
  finally have "timer_spares i s ?c" .
  then show ?thesis
    using True timer_spares_trans [OF _ timer_spares_trigger, of i s ?c "t_interruptId (timers ?c i)"]
    by (simp add: timer_handleCompareMatch_def Let_def)
qed (simp add: timer_handleCompareMatch_def)

lemma timer_spares_tick: "timer_spares i s (snd (timer_tick i s))"
proof -
  let ?s = "timer_syncClock i s"
  have put: "timer_spares i s (reg_put (t_countRegister (timers ?s i)) v ?s)" for v
    by (rule timer_spares_trans [OF timer_spares_sync]) (simp add: timer_spares_put)
  have "timer_spares i s (snd (timer_handleCompareMatch i (reg_put (t_countRegister (timers ?s i)) v ?s)))" for v
    by (rule timer_spares_trans [OF put timer_spares_match])
  then show ?thesis
    using put timer_spares_sync [of i s] by (simp add: timer_tick_def Let_def del: timer_sync_fields)
qed

text \<open>The events of the bus are at most the compare match of the timer.\<close>

definition only_match :: "nat \<Rightarrow> 'z bus_st_scheme \<Rightarrow> bool" where
  "only_match i s \<longleftrightarrow> m_events (esched s) = [] \<or> (\<exists>e. m_events (esched s) = [e] \<and> ev_callback e = Some (TimerMatch i))"

lemma only_match_cases:
  assumes "only_match i s"
  shows "snd (sched_executeReadyEvents (run_callback user) now s) = s \<or>
    snd (sched_executeReadyEvents (run_callback user) now s) =
      snd (timer_handleCompareMatch i (s\<lparr>esched := (esched s)\<lparr>m_events := []\<rparr>\<rparr>))"
proof -
  consider "m_events (esched s) = []"
    | e where "m_events (esched s) = [e]" "ev_callback e = Some (TimerMatch i)" "ev_cycle e \<le> now"
    | e where "m_events (esched s) = [e]" "\<not> ev_cycle e \<le> now"
    using assms unfolding only_match_def by blast
  then show ?thesis
  proof cases
    case 2
    then show ?thesis
      by (simp add: sched_executeReadyEvents_def sort_events_def run_callback_def and_then_def
          split: prod.splits sum.splits)
  next
    case 3
    then have "s\<lparr>esched := (esched s)\<lparr>m_events := [e]\<rparr>\<rparr> = s" by (cases s, cases "esched s") simp
    with 3 show ?thesis by (simp add: sched_executeReadyEvents_def sort_events_def)
  qed (simp add: sched_executeReadyEvents_def)
qed

lemma timer_spares_events:
  assumes "only_match i s"
  shows "timer_spares i s (snd (sched_executeReadyEvents (run_callback user) now s))"
proof -
  have "timer_spares i s (snd (timer_handleCompareMatch i (s\<lparr>esched := q\<rparr>)))" for q
    by (rule timer_spares_trans [OF timer_spares_clock(2) timer_spares_match])
  then show ?thesis using only_match_cases [OF assms, of user now] by (elim disjE) simp_all
qed

text \<open>The timer drives a registered line, which is pending exactly when the match flag is set.\<close>

definition line_agrees :: "nat \<Rightarrow> 'z bus_st_scheme \<Rightarrow> bool" where
  "line_agrees i s \<longleftrightarrow> t_interruptController (timers s i) \<and> ic_validId (t_interruptId (timers s i)) \<and>
     ic_registered (ic s) ! unat (t_interruptId (timers s i)) \<and>
     test_flag (reg_get (ic_pendingRegister (ic s)) s) (unat (t_interruptId (timers s i))) = timer_hasMatch i s"

lemma line_agrees_frame:
  assumes "line_agrees i s" "timer_spares i s s'"
    and "reg_get (ic_pendingRegister (ic s)) s' = reg_get (ic_pendingRegister (ic s)) s"
    and "timer_hasMatch i s' = timer_hasMatch i s"
  shows "line_agrees i s'"
  using assms by (simp add: line_agrees_def timer_spares_def)

lemma line_agrees_match:
  assumes "line_agrees i s" and "timer_wf i s"
  shows "line_agrees i (snd (timer_handleCompareMatch i s))"
proof (cases "timer_running i s")
  case True
  let ?m = "snd (timer_handleCompareMatch i s)"
  have f: "timer_spares i s ?m" by (rule timer_spares_match)
  have "fst (ic_pending (t_interruptId (timers s i)) ?m) = Inr True"
    using timer_match_effects [OF assms(2) True] assms(1) unfolding line_agrees_def by blast
  moreover have "timer_hasMatch i ?m" using timer_view_match [OF assms(2) True] by (simp add: timer_view_sels)
  ultimately show ?thesis
    using f assms(1) by (simp add: line_agrees_def timer_spares_def ic_pending_def split: if_splits)
qed (use assms(1) in \<open>simp add: timer_handleCompareMatch_def\<close>)

lemma reg_get_sync: "reg_get r (timer_syncClock j s) = reg_get r s"
  by (simp add: reg_get_def)

lemma reg_get_cancel: "reg_get r (timer_cancelScheduledEvent j s) = reg_get r s"
  by (simp add: reg_get_def)

lemma reg_get_event: "reg_get r (upd_timer j f (s\<lparr>esched := q\<rparr>)) = reg_get r s"
  by (simp add: reg_get_def upd_timer_def)

lemma line_agrees_tick:
  assumes "line_agrees i s" and "timer_wf i s" and "t_scheduler (timers s i)"
  shows "line_agrees i (snd (timer_tick i s))"
proof (rule line_agrees_frame [OF assms(1) timer_spares_tick])
  note ne = timer_wf_neqs [OF assms(2)]
  show "reg_get (ic_pendingRegister (ic s)) (snd (timer_tick i s)) = reg_get (ic_pendingRegister (ic s)) s"
    using assms(3) ne by (simp add: timer_tick_def Let_def reg_get_sync)
  show "timer_hasMatch i (snd (timer_tick i s)) = timer_hasMatch i s"
    using assms(3) ne by (simp add: timer_tick_def Let_def timer_query_defs reg_get_sync)
qed

lemma reg_get_start: "r \<noteq> t_ctrlRegister (timers s i) \<Longrightarrow> reg_get r (timer_start i s) = reg_get r s"
  by (simp add: timer_start_def Let_def timer_updateScheduledEvent_def reg_get_sync reg_get_cancel reg_get_event
      split: prod.splits)

lemma clock_start: "clock (timer_start i s) = clock s"
  by (simp add: timer_start_def Let_def)

lemma line_agrees_start:
  assumes "line_agrees i s" and "timer_wf i s"
  shows "line_agrees i (timer_start i s)"
  using assms timer_view_start [OF assms(2)] timer_wf_neqs [OF assms(2)]
  by (intro line_agrees_frame [OF assms(1) timer_spares_start]) (simp_all add: reg_get_start timer_view_sels)

section \<open>A cycle without interrupt handlers\<close>

lemma dispatch_no_handlers:
  assumes "ic_handlers (ic s) = replicate MAX_INTERRUPTS None"
  shows "snd (ic_dispatch handler s) = s"
proof -
  have "dispatch_pick (ic_active s) (ic_handlers (ic s)) (ic_priorities (ic s)) = None"
    using assms by (simp add: dispatch_pick_None candidate_def MAX_INTERRUPTS_def)
  then show ?thesis by (auto simp: ic_dispatch_def)
qed

lemma bus_cycle_frame:
  assumes bus: "bus_of_timer i s" and nowrap: "unat (m_cycles (clock s)) + 2 ^ 32 < 2 ^ 64"
    and none: "ic_handlers (ic s) = replicate MAX_INTERRUPTS None" and line: "line_agrees i s"
  obtains s' where "sb_cycle user (\<lambda>_. ret ()) s = ret () s'" and "bus_of_timer i s'"
    and "timer_view i s' = abs_tick (timer_view i s)" and "m_cycles (clock s') = m_cycles (clock s) + 1"
    and "timer_spares i s s'" and "line_agrees i s'"
proof -
  have spare: "spares_timer i (ret ())" by (simp add: spares_timer_def)
  obtain s' where cyc: "sb_cycle user (\<lambda>_. ret ()) s = ret () s'" and s': "bus_of_timer i s'"
    "timer_view i s' = abs_tick (timer_view i s)" "m_cycles (clock s') = m_cycles (clock s) + 1"
    by (rule bus_cycle_timer [where user = user and handler = "\<lambda>_. ret ()", OF bus nowrap spare]) blast
  have sync: "timer_synced i s" and sbs: "sb_timers (sb s) = [i]" "sb_dmas (sb s) = []" "\<not> sb_pwm (sb s)"
    using bus by (simp_all add: bus_of_timer_def)
  let ?s1 = "s\<lparr>clock := clock_tick 1 (clock s)\<rparr>"
  obtain s2 where tick: "timer_tick i ?s1 = ret () s2" and wf2: "timer_wf i s2" and ev: "esched s2 = esched s"
    by (rule timer_synced_tick [OF sync nowrap]) blast
  have f2: "timer_spares i s s2"
    using timer_spares_trans [OF timer_spares_clock(1) timer_spares_tick, of i s "clock_tick 1 (clock s)"] tick by simp
  have "line_agrees i ?s1" "timer_wf i ?s1" "t_scheduler (timers ?s1 i)"
    using line sync by (simp_all add: line_agrees_def timer_query_defs timer_synced_def timer_wf_def reg_get_def)
  from line_agrees_tick [OF this] have l2: "line_agrees i s2" using tick by simp
  have only: "only_match i s2"
    using sync ev by (auto simp: only_match_def timer_synced_def split: if_splits)
  obtain n s3 where run: "sched_executeReadyEvents (run_callback user) (m_cycles (clock s2)) s2 = (n, s3)"
    by (cases "sched_executeReadyEvents (run_callback user) (m_cycles (clock s2)) s2")
  have f3: "timer_spares i s s3"
    using timer_spares_trans [OF f2 timer_spares_events [OF only, of user "m_cycles (clock s2)"]] run by simp
  have q: "line_agrees i (s2\<lparr>esched := x\<rparr>)" "timer_wf i (s2\<lparr>esched := x\<rparr>)" for x
    using l2 wf2 by (simp_all add: line_agrees_def timer_query_defs timer_wf_def reg_get_def)
  have l3: "line_agrees i s3"
    using only_match_cases [OF only, of user "m_cycles (clock s2)"] run l2 line_agrees_match [OF q] by auto
  have "sb s2 = sb s" "ic_handlers (ic s3) = replicate MAX_INTERRUPTS None"
    using f2 f3 none by (simp_all add: timer_spares_def)
  then have "snd (sb_cycle user (\<lambda>_. ret ()) s) = s3 \<or> fst (sb_cycle user (\<lambda>_. ret ()) s) \<noteq> Inr ()"
    using tick run sbs dispatch_no_handlers [of s3 "\<lambda>_. ret ()"]
    by (cases n) (auto simp: sb_cycle_def sb_tickTimers_def Let_def and_then_def split: prod.splits sum.splits)
  then have "s' = s3" using cyc by simp
  with s' cyc f3 l3 show ?thesis using that by blast
qed

end
