(* ===== verification/Main_Program.thy ===== *)
theory Main_Program
  imports Monitor Bus_Frames
begin

text \<open>
  The program of \<^verbatim>\<open>main.cpp\<close>: it builds one machine out of the classes of the library, loads the basic
  firmware for pin 1 and hands the machine to an interactive monitor. The storage the objects are built in
  is arbitrary. The destructors that run when \<^verbatim>\<open>main\<close> returns are not part of the model.
\<close>

section \<open>The program\<close>

definition main_devices :: "'z bus_st_scheme \<Rightarrow> (unit, 'z bus_st_scheme) outcome" where
  "main_devices s =
     (let s = s\<lparr>mem0 := memory_init 65536, next_ref := 0, m_registers := []\<rparr>
      in and_then (ic_init 0x40002000 s) (\<lambda>c s.
           let s = sb_init True True True (s\<lparr>ic := c\<rparr>)
           in and_then (gpio_init 0x40000000 s) (\<lambda>g s.
             and_then (timer_init 0x40001000 (s\<lparr>gpio0 := g\<rparr>)) (\<lambda>t s.
             and_then (uart_init 0x40003000 DEFAULT_BAUD_RATE (upd_timer 0 (\<lambda>_. t) s)) (\<lambda>u s.
             ret () (s\<lparr>uart0 := u\<rparr>))))))"

definition main_wiring :: "'z bus_st_scheme \<Rightarrow> (unit, 'z bus_st_scheme) outcome" where
  "main_wiring s =
     (let s = sb_attachGPIO True s;
          s = snd (sb_attachTimer (Some 0) s);
          s = sb_attachUART True s;
          s = snd (via_uart (plainly uart_enable) s)
      in and_then (ic_registerInterrupt 0 s) (\<lambda>_ s.
           and_then (ic_enable 0 s) (\<lambda>_ s.
           let s = timer_attachInterruptController 0 True 0 s;
               s = timer_setCompare 0 10 s
           in ret () (timer_start 0 s))))"

text \<open>No closure is scheduled, no interrupt handler registered and no task created by the program.\<close>

definition main_env :: "(app_world, 'z bus_st_scheme) environment" where
  "main_env = \<lparr>e_class = app_class, e_callback = \<lambda>_. ret (), e_handler = \<lambda>_. ret (), e_tasks = \<lambda>_ ws. ([], ws)\<rparr>"

definition main_computer ::
  "(app_world, 'z bus_st_scheme) computer \<Rightarrow> (unit, (app_world, 'z bus_st_scheme) computer) outcome" where
  "main_computer c =
     and_then (via_bus (\<lambda>s. and_then (main_devices s) (\<lambda>_. main_wiring)) c) (\<lambda>_ c.
       let c = cpu_init True c;
           c = c\<lparr>world := (put_app 0 (Basic (basic_init True 1 2)) (fst (world c)), snd (world c))\<rparr>
       in and_then (cpu_loadFirmware main_env (Some 0) ''default'' c) (\<lambda>_. ret ()))"

definition main_monitor :: "'z bus_st_scheme \<Rightarrow> monitor" where
  "main_monitor s =
     mon_init True (sb_memory (sb s)) (sb_mmioBus (sb s)) (sb_gpio (sb s)) (Some 0)
       (sb_interruptController (sb s)) (sb_uart (sb s)) False False"

definition std_cout :: ostream where
  "std_cout = \<lparr>os_text = [], os_hex = False, os_fill = CHR '' '', os_left = False\<rparr>"

definition main_program ::
  "nat \<Rightarrow> string list \<Rightarrow> (app_world, 'z bus_st_scheme) computer \<Rightarrow>
   (unit, (app_world, 'z bus_st_scheme) session) outcome option" where
  "main_program n input c =
     (let os = puts [Str (''Embedded Firmware Simulator initialized.'' @ nl)] std_cout
      in case main_computer c of
           (Inl e, c) \<Rightarrow> Some (throw e (os, c))
         | (Inr _, c) \<Rightarrow> mon_runInteractiveSession (main_monitor (snd (world c))) main_env n input (os, c))"

section \<open>The machine that is built\<close>

text \<open>A block of registers at fresh addresses.\<close>

definition placed :: "(address \<times> u32) list \<Rightarrow> 'z mmio_st_scheme \<Rightarrow> 'z mmio_st_scheme" where
  "placed rs s =
     (let n = next_ref s
      in s\<lparr>reg_objs := (\<lambda>r. if n \<le> r \<and> r < n + length rs then register_init (fst (rs ! (r - n))) (snd (rs ! (r - n)))
                             else reg_objs s r),
           next_ref := n + length rs,
           m_registers := rev (zip (map fst rs) [n..<n + length rs]) @ m_registers s\<rparr>)"

definition fresh_at :: "address list \<Rightarrow> 'z mmio_st_scheme \<Rightarrow> bool" where
  "fresh_at as s \<longleftrightarrow> distinct as \<and> set as \<inter> fst ` set (m_registers s) = {}"

lemma placed_fields [simp]:
  "next_ref (placed rs s) = next_ref s + length rs"
  "reg_objs (placed rs s) r = (if next_ref s \<le> r \<and> r < next_ref s + length rs
     then register_init (fst (rs ! (r - next_ref s))) (snd (rs ! (r - next_ref s))) else reg_objs s r)"
  "fst ` set (m_registers (placed rs s)) = set (map fst rs) \<union> fst ` set (m_registers s)"
  by (simp_all add: placed_def Let_def image_Un set_zip_leftD) (force simp: set_zip image_iff in_set_conv_nth)

lemma chain_placed:
  assumes "distinct as" and "set as \<inter> fst ` set (m_registers s) = {}" and "length as = length rs"
    and "\<And>i. i < length rs \<Longrightarrow> m_address (reg_objs s (rs ! i)) = as ! i"
  shows "register_chain rs s = (True, s\<lparr>m_registers := rev (zip as rs) @ m_registers s\<rparr>)"
  using assms
proof (induction rs arbitrary: as s)
  case Nil
  then show ?case by (simp add: register_chain.simps)
next
  case (Cons r rs)
  obtain a as' where as: "as = a # as'" using Cons.prems(3) by (cases as) auto
  have a: "m_address (reg_objs s r) = a" using Cons.prems(4) [of 0] by (simp add: as)
  let ?s = "s\<lparr>m_registers := (a, r) # m_registers s\<rparr>"
  have "mmio_registerRegister (Some r) s = (True, ?s)"
    using Cons.prems(2) a by (auto simp: mmio_registerRegister_def mmio_contains_def map_of_eq_None_iff as)
  moreover have "register_chain rs ?s = (True, ?s\<lparr>m_registers := rev (zip as' rs) @ m_registers ?s\<rparr>)"
    using Cons.prems(1-3) Cons.prems(4) [of "Suc i" for i] by (intro Cons.IH) (auto simp: as)
  ultimately show ?case by (simp add: register_chain.simps as)
qed


text \<open>The constructors at fresh addresses: registers numbered from the first free index.\<close>

fun make_registers :: "(address \<times> u32) list \<Rightarrow> 'z mmio_st_scheme \<Rightarrow> 'z mmio_st_scheme" where
  "make_registers [] s = s"
| "make_registers ((a, v) # rs) s = make_registers rs (snd (make_register a v s))"

lemma make_registers_placed:
  "make_registers rs s = (placed rs s)\<lparr>m_registers := m_registers s\<rparr>"
proof (induction rs s rule: make_registers.induct)
  case (1 s)
  show ?case by (cases s) (auto simp: placed_def fun_eq_iff)
next
  case (2 a v rs s)
  then show ?case
    by (simp add: make_register_def placed_def Let_def fun_eq_iff nth_Cons' Suc_diff_Suc)
qed

lemma placed_chain:
  assumes "fresh_at (map fst rs) s"
  shows "register_chain [next_ref s..<next_ref s + length rs] (make_registers rs s) = (True, placed rs s)"
proof -
  let ?m = "make_registers rs s" and ?ns = "[next_ref s..<next_ref s + length rs]"
  have m: "?m = (placed rs s)\<lparr>m_registers := m_registers s\<rparr>" by (rule make_registers_placed)
  have "register_chain ?ns ?m = (True, ?m\<lparr>m_registers := rev (zip (map fst rs) ?ns) @ m_registers ?m\<rparr>)"
    using assms by (intro chain_placed) (simp_all add: m fresh_at_def register_init_def)
  also have "?m\<lparr>m_registers := rev (zip (map fst rs) ?ns) @ m_registers ?m\<rparr> = placed rs s"
    by (simp add: m placed_def Let_def)
  finally show ?thesis .
qed

lemma make_registers_append: "make_registers (rs @ qs) s = make_registers qs (make_registers rs s)"
  by (induction rs s rule: make_registers.induct) simp_all

lemma make_chain:
  "make_register a v s = (next_ref s, make_registers [(a, v)] s)"
  "make_registers qs (make_registers rs s) = make_registers (rs @ qs) s"
  "next_ref (make_registers rs s) = next_ref s + length rs"
  by (simp_all add: make_registers_append) (simp_all add: make_register_def make_registers_placed)

declare make_registers.simps [simp del]

lemma placed_chains:
  "fresh_at [a, b, c] s \<Longrightarrow>
     register_chain [next_ref s, next_ref s + 1, next_ref s + 2] (make_registers [(a, u), (b, v), (c, w)] s) =
       (True, placed [(a, u), (b, v), (c, w)] s)"
  "fresh_at [a, b, c, d] s \<Longrightarrow>
     register_chain [next_ref s, next_ref s + 1, next_ref s + 2, next_ref s + 3]
       (make_registers [(a, u), (b, v), (c, w), (d, x)] s) = (True, placed [(a, u), (b, v), (c, w), (d, x)] s)"
  using placed_chain [of "[(a, u), (b, v), (c, w)]" s] placed_chain [of "[(a, u), (b, v), (c, w), (d, x)]" s]
  by (simp_all add: upt_rec numeral_3_eq_3 numeral_2_eq_2)

lemma gpio_init_builds:
  assumes "fresh_at [base, base + 4, base + 8] s"
  shows "gpio_init base s = ret \<lparr>g_base = base, g_dirRegister = next_ref s, g_outRegister = next_ref s + 1,
    g_inRegister = next_ref s + 2\<rparr> (placed [(base, 0), (base + 4, 0), (base + 8, 0)] s)"
  using placed_chains(1) [OF assms, of 0 0 0]
  by (simp add: gpio_init_def make_chain numeral_2_eq_2)

lemma ic_init_builds:
  assumes "fresh_at [base, base + 4, base + 8] s"
  shows "ic_init base s = ret \<lparr>ic_base = base, ic_enableRegister = next_ref s, ic_pendingRegister = next_ref s + 1,
    ic_priorityRegister = next_ref s + 2, ic_registered = replicate MAX_INTERRUPTS False,
    ic_priorities = replicate MAX_INTERRUPTS 128, ic_handlers = replicate MAX_INTERRUPTS None\<rparr>
    (placed [(base, 0), (base + 4, 0), (base + 8, 0)] s)"
  using placed_chains(1) [OF assms, of 0 0 0]
  by (simp add: ic_init_def make_chain numeral_2_eq_2)

lemma timer_init_builds:
  assumes "fresh_at [base, base + 4, base + 8, base + 12] s"
  shows "timer_init base s = ret \<lparr>t_base = base, t_ctrlRegister = next_ref s, t_countRegister = next_ref s + 1,
    t_compareRegister = next_ref s + 2, t_statusRegister = next_ref s + 3, t_interruptController = False, t_interruptId = 0,
    t_clock = False, t_scheduler = False, t_scheduledEventId = 0, t_lastClockCycles = 0\<rparr>
    (placed [(base, 0), (base + 4, 0), (base + 8, 0), (base + 12, 0)] s)"
  using placed_chains(2) [OF assms, of 0 0 0 0]
  by (simp add: timer_init_def make_chain numeral_2_eq_2 numeral_3_eq_3)

lemma uart_init_builds:
  assumes "fresh_at [base, base + 4, base + 8, base + 12] s" and "baud \<noteq> 0"
  shows "\<exists>u. uart_init base baud s = ret u (uart_updateStatusRegister u
      (placed [(base, 0), (base + 4, set_flag 0 0), (base + 8, 0), (base + 12, baud)] s)) \<and>
    u_base u = base \<and> u_dataRegister u = next_ref s \<and> u_statusRegister u = next_ref s + 1 \<and>
    u_controlRegister u = next_ref s + 2 \<and> u_baudRegister u = next_ref s + 3 \<and> u_txFifo u = [] \<and> u_rxFifo u = []"
  using placed_chains(2) [OF assms(1), of 0 "set_flag 0 0" 0 baud] assms(2)
  by (simp add: uart_init_def make_chain Let_def numeral_2_eq_2 numeral_3_eq_3)


lemma placed_frame [simp]:
  "ic (placed rs s1) = ic s1" "clock (placed rs s2) = clock s2" "esched (placed rs s2) = esched s2"
  "timers (placed rs s3) = timers s3" "mem0 (placed rs s4) = mem0 s4" "uart0 (placed rs s4) = uart0 s4"
  "gpio0 (placed rs s5) = gpio0 s5" "sb (placed rs s5) = sb s5"
  by (simp_all add: placed_def Let_def)

text \<open>After construction: where the registers of the parts are, and that they hold their reset values.\<close>

definition main_layout :: "'z bus_st_scheme \<Rightarrow> bool" where
  "main_layout s \<longleftrightarrow>
     ic_enableRegister (ic s) = 0 \<and> ic_pendingRegister (ic s) = 1 \<and> ic_priorityRegister (ic s) = 2 \<and> ic_handlers (ic s) = replicate MAX_INTERRUPTS None \<and>
     g_dirRegister (gpio0 s) = 3 \<and> g_outRegister (gpio0 s) = 4 \<and> g_inRegister (gpio0 s) = 5 \<and>
     timer_regs (timers s 0) = [6, 7, 8, 9] \<and> t_interruptId (timers s 0) = 0"

text \<open>What the program never rewires or fills: the bus, the zeroed memory, the serial line and its registers.\<close>

definition main_parts :: "'z bus_st_scheme \<Rightarrow> bool" where
  "main_parts s \<longleftrightarrow>
     sb s = \<lparr>sb_memory = True, sb_mmioBus = True, sb_interruptController = True, sb_dmas = [], sb_timers = [0],
       sb_gpio = True, sb_uart = True, sb_spi = False, sb_i2c = False, sb_pwm = False, sb_adc = False\<rparr> \<and>
     mem0 s = memory_init 65536 \<and> u_txFifo (uart0 s) = [] \<and> u_rxFifo (uart0 s) = [] \<and>
     u_dataRegister (uart0 s) = 10 \<and> u_statusRegister (uart0 s) = 11 \<and> u_controlRegister (uart0 s) = 12 \<and>
     m_frequencyHz (clock s) = DEFAULT_FREQUENCY_HZ"

lemma main_devices_builds:
  obtains s where "main_devices s0 = ret () s" and "main_layout s"
    and "u_statusRegister (uart0 s) = 11" and "u_controlRegister (uart0 s) = 12"
    and "u_dataRegister (uart0 s) = 10" and "u_txFifo (uart0 s) = []" and "u_rxFifo (uart0 s) = []"
    and "mem0 s = memory_init 65536" and "m_frequencyHz (clock s) = DEFAULT_FREQUENCY_HZ"
    and "\<And>r. r < 10 \<Longrightarrow> reg_get r s = 0 \<and> m_initialValue (reg_objs s r) = 0"
    and "ic_registered (ic s) = replicate MAX_INTERRUPTS False"
    and "timers s 0 = \<lparr>t_base = 0x40001000, t_ctrlRegister = 6, t_countRegister = 7, t_compareRegister = 8,
       t_statusRegister = 9, t_interruptController = False, t_interruptId = 0, t_clock = False, t_scheduler = False,
       t_scheduledEventId = 0, t_lastClockCycles = 0\<rparr>"
    and "sb s = \<lparr>sb_memory = True, sb_mmioBus = True, sb_interruptController = True, sb_dmas = [], sb_timers = [],
       sb_gpio = False, sb_uart = False, sb_spi = False, sb_i2c = False, sb_pwm = False, sb_adc = False\<rparr>"
    and "m_cycles (clock s) = 0" and "m_events (esched s) = []"
proof -
  let ?s1 = "s0\<lparr>mem0 := memory_init 65536, next_ref := 0, m_registers := []\<rparr>"
  have f1: "fresh_at [0x40002000, 0x40002000 + 4, 0x40002000 + 8] ?s1" by (simp add: fresh_at_def)
  let ?p1 = "placed [(0x40002000, 0), (0x40002000 + 4, 0), (0x40002000 + 8, 0)] ?s1"
  obtain c where ic: "ic_init 0x40002000 ?s1 = ret c ?p1" and c: "ic_enableRegister c = 0" "ic_pendingRegister c = 1" "ic_priorityRegister c = 2"
    "ic_handlers c = replicate MAX_INTERRUPTS None" "ic_registered c = replicate MAX_INTERRUPTS False"
    using ic_init_builds [OF f1] by simp
  let ?s2 = "sb_init True True True (?p1\<lparr>ic := c\<rparr>)"
  have f2: "fresh_at [0x40000000, 0x40000000 + 4, 0x40000000 + 8] ?s2" by (simp add: fresh_at_def sb_init_def)
  let ?p2 = "placed [(0x40000000, 0), (0x40000000 + 4, 0), (0x40000000 + 8, 0)] ?s2"
  obtain g where g: "gpio_init 0x40000000 ?s2 = ret g ?p2" "g_dirRegister g = 3" "g_outRegister g = 4" "g_inRegister g = 5"
    using gpio_init_builds [OF f2] by (simp add: sb_init_def)
  let ?s3 = "?p2\<lparr>gpio0 := g\<rparr>"
  have f3: "fresh_at [0x40001000, 0x40001000 + 4, 0x40001000 + 8, 0x40001000 + 12] ?s3"
    by (simp add: fresh_at_def sb_init_def)
  let ?p3 = "placed [(0x40001000, 0), (0x40001000 + 4, 0), (0x40001000 + 8, 0), (0x40001000 + 12, 0)] ?s3"
  obtain t where t: "timer_init 0x40001000 ?s3 = ret t ?p3"
    and teq: "t = \<lparr>t_base = 0x40001000, t_ctrlRegister = 6, t_countRegister = 7, t_compareRegister = 8,
       t_statusRegister = 9, t_interruptController = False, t_interruptId = 0, t_clock = False, t_scheduler = False,
       t_scheduledEventId = 0, t_lastClockCycles = 0\<rparr>"
    using timer_init_builds [OF f3] by (simp add: sb_init_def)
  let ?s4 = "upd_timer 0 (\<lambda>_. t) ?p3"
  have f4: "fresh_at [0x40003000, 0x40003000 + 4, 0x40003000 + 8, 0x40003000 + 12] ?s4"
    by (simp add: fresh_at_def sb_init_def upd_timer_def)
  let ?p4 = "placed [(0x40003000, 0), (0x40003000 + 4, set_flag 0 0), (0x40003000 + 8, 0),
    (0x40003000 + 12, DEFAULT_BAUD_RATE)] ?s4"
  have b: "DEFAULT_BAUD_RATE \<noteq> 0" by (simp add: DEFAULT_BAUD_RATE_def)
  obtain u where u: "uart_init 0x40003000 DEFAULT_BAUD_RATE ?s4 = ret u (uart_updateStatusRegister u ?p4)"
    "u_statusRegister u = 11" "u_controlRegister u = 12" "u_dataRegister u = 10" "u_txFifo u = []" "u_rxFifo u = []"
    using uart_init_builds [OF f4 b] by (auto simp: sb_init_def upd_timer_def)
  let ?s = "(uart_updateStatusRegister u ?p4)\<lparr>uart0 := u\<rparr>"
  have built: "main_devices s0 = ret () ?s"
    unfolding main_devices_def Let_def and_then_simps ic g(1) t u(1) ..
  obtain v where up: "uart_updateStatusRegister u ?p4 = reg_put 11 v ?p4"
    using u(2) by (simp add: uart_updateStatusRegister_def)
  have fields: "ic ?s = c" "gpio0 ?s = g" "timers ?s 0 = t" "uart0 ?s = u" "m_cycles (clock ?s) = 0"
    "m_events (esched ?s) = []" "sb ?s = sb ?s2" "mem0 ?s = memory_init 65536"
    "m_frequencyHz (clock ?s) = DEFAULT_FREQUENCY_HZ"
    unfolding up by (simp_all add: upd_timer_def sb_init_def sched_init_def)
  have regs: "reg_get r ?s = 0 \<and> m_initialValue (reg_objs ?s r) = 0" if "r < 10" for r
  proof -
    have "r \<in> {0, 1, 2, 3, 4, 5, 6, 7, 8, 9}" using that by auto
    then show ?thesis
      unfolding up
      by (auto simp: reg_put_def reg_get_def upd_timer_def sb_init_def register_init_def numeral_3_eq_3 numeral_2_eq_2)
  qed
  show ?thesis
    by (rule that [OF built _ _ _ _ _ _ _ _ regs])
      (use fields c g(2-4) u(2-6) teq in \<open>simp_all add: main_layout_def timer_regs_def sb_init_def\<close>)
qed


lemma via_uart_enable:
  "u_statusRegister (uart0 s) = 11 \<Longrightarrow> u_controlRegister (uart0 s) = 12 \<Longrightarrow>
   \<exists>v w. snd (via_uart (plainly uart_enable) s) = reg_put 11 v (reg_put 12 w s)"
proof -
  assume "u_statusRegister (uart0 s) = 11" "u_controlRegister (uart0 s) = 12"
  then obtain v w where "snd (via_uart (plainly uart_enable) s) = (reg_put 11 v (reg_put 12 w s))\<lparr>uart0 := uart0 s\<rparr>"
    by (simp add: via_uart_def plainly_def uart_enable_def Let_def uart_updateStatusRegister_def)
  moreover have "(reg_put 11 v (reg_put 12 w s))\<lparr>uart0 := uart0 s\<rparr> = reg_put 11 v (reg_put 12 w s)"
    by (cases s) (simp add: reg_put_def)
  ultimately show ?thesis by auto
qed

lemma timer_setCompare_idle:
  "\<not> timer_running i (reg_put (t_compareRegister (timers s i)) v s) \<Longrightarrow> t_scheduledEventId (timers s i) = 0 \<Longrightarrow>
   timer_setCompare i v s = reg_put (t_compareRegister (timers s i)) v s"
  by (simp add: timer_setCompare_def timer_update_idle timer_cancelScheduledEvent_def)

text \<open>
  The machine while the program runs: one timer in step with the clock, with line 0 of an interrupt
  controller without handlers, and a port whose registers the timer does not touch. The line is pending
  once the timer has matched.
\<close>

definition main_inv :: "'z bus_st_scheme \<Rightarrow> bool" where
  "main_inv s \<longleftrightarrow> main_layout s \<and> bus_of_timer 0 s \<and> gpio_wf (gpio0 s) s \<and> line_agrees 0 s"

lemma main_wiring_ready:
  assumes lay: "main_layout s" and uart: "u_statusRegister (uart0 s) = 11" "u_controlRegister (uart0 s) = 12"
    and regs: "\<And>r. r < 10 \<Longrightarrow> reg_get r s = 0 \<and> m_initialValue (reg_objs s r) = 0"
    and irq: "ic_registered (ic s) = replicate MAX_INTERRUPTS False"
    and t: "timers s 0 = \<lparr>t_base = 0x40001000, t_ctrlRegister = 6, t_countRegister = 7, t_compareRegister = 8,
       t_statusRegister = 9, t_interruptController = False, t_interruptId = 0, t_clock = False, t_scheduler = False,
       t_scheduledEventId = 0, t_lastClockCycles = 0\<rparr>"
    and bus: "sb s = \<lparr>sb_memory = True, sb_mmioBus = True, sb_interruptController = True, sb_dmas = [], sb_timers = [],
       sb_gpio = False, sb_uart = False, sb_spi = False, sb_i2c = False, sb_pwm = False, sb_adc = False\<rparr>"
    and cyc: "m_cycles (clock s) = 0" and ev: "m_events (esched s) = []"
  obtains s' where "main_wiring s = ret () s'" and "main_inv s'" and "m_cycles (clock s') = 0"
    and "timer_view 0 s' = \<lparr>at_running = True, at_count = 0, at_compare = 10, at_match = False\<rparr>"
    and "pins_of s' = pins_of s" and "sb_memory (sb s')" and "sb_mmioBus (sb s')" and "sb_gpio (sb s')" and "sb_uart (sb s')"
    and "sb_interruptController (sb s')"
    and "sb s' = (sb s)\<lparr>sb_gpio := True, sb_uart := True, sb_timers := [0]\<rparr>" and "uart0 s' = uart0 s" and "mem0 s' = mem0 s"
    and "clock s' = clock s"
proof -
  let ?a = "snd (sb_attachTimer (Some 0) (sb_attachGPIO True s))"
  have a: "?a = s\<lparr>timers := (timers s)(0 := (timers s 0)\<lparr>t_clock := True, t_scheduler := True\<rparr>),
      sb := (sb s)\<lparr>sb_gpio := True, sb_timers := [0]\<rparr>\<rparr>"
    using regs [of 6, unfolded reg_get_def]
    by (simp add: sb_attachTimer_def sb_attachGPIO_def upd_sb_def timer_attachClock_def timer_attachScheduler_def Let_def
        bus upd_timer_def timer_updateScheduledEvent_def timer_cancelScheduledEvent_def timer_query_defs t cyc
        timer_syncClock_def reg_get_def)
  let ?b = "sb_attachUART True ?a"
  have b: "?b = s\<lparr>timers := (timers s)(0 := (timers s 0)\<lparr>t_clock := True, t_scheduler := True\<rparr>),
      sb := (sb s)\<lparr>sb_gpio := True, sb_uart := True, sb_timers := [0]\<rparr>\<rparr>"
    unfolding a by (simp add: sb_attachUART_def upd_sb_def bus)
  let ?c = "snd (via_uart (plainly uart_enable) ?b)"
  have "u_statusRegister (uart0 ?b) = 11" "u_controlRegister (uart0 ?b) = 12"
    using uart unfolding b by simp_all
  then obtain v w where c: "?c = reg_put 11 v (reg_put 12 w ?b)" using via_uart_enable by blast
  have c0: "ic_validId 0" by (simp add: ic_validId_def MAX_INTERRUPTS_def)
  let ?e = "?c\<lparr>ic := (ic s)\<lparr>ic_registered := (ic_registered (ic s))[0 := True]\<rparr>\<rparr>"
  let ?f = "reg_put 0 (set_flag (reg_get 0 ?e) 0) ?e"
  let ?g = "timer_attachInterruptController 0 True 0 ?f"
  let ?h = "timer_setCompare 0 10 ?g"
  have ics: "ic ?c = ic s" unfolding c unfolding b by simp
  have e: "ic_registerInterrupt 0 ?c = ret True ?e" "ic_enable 0 ?e = ret () ?f"
    using lay irq c0 by (simp_all add: ic_registerInterrupt_def ic_enable_def ics MAX_INTERRUPTS_def main_layout_def)
  have run: "main_wiring s = ret () (timer_start 0 ?h)"
    unfolding main_wiring_def Let_def e and_then_simps ..
  have tg: "timers ?g 0 = (timers s 0)\<lparr>t_clock := True, t_scheduler := True, t_interruptController := True, t_interruptId := 0\<rparr>"
    unfolding timer_attachInterruptController_def c unfolding b by (simp add: upd_timer_def)
  have rg: "r \<notin> {0, 11, 12} \<Longrightarrow> reg_get r ?g = reg_get r s" "m_initialValue (reg_objs ?g r) = m_initialValue (reg_objs s r)" for r
    unfolding timer_attachInterruptController_def c unfolding b
    by (simp_all add: upd_timer_def reg_get_def reg_put_def register_write_def)
  have fg: "sb ?g = (sb s)\<lparr>sb_gpio := True, sb_uart := True, sb_timers := [0]\<rparr>" "gpio0 ?g = gpio0 s"
    "ic ?g = (ic s)\<lparr>ic_registered := (ic_registered (ic s))[0 := True]\<rparr>" "clock ?g = clock s" "esched ?g = esched s"
    "uart0 ?g = uart0 s" "mem0 ?g = mem0 s"
    unfolding timer_attachInterruptController_def c unfolding b
    by (simp_all add: upd_timer_def)
  obtain g where g: "?g = g" by simp
  note run = run [unfolded g] and tg = tg [unfolded g] and rg = rg [unfolded g] and fg = fg [unfolded g]
  let ?h = "timer_setCompare 0 10 g"
  have hg: "?h = reg_put 8 10 g"
    using regs [of 6] timer_setCompare_idle [of 0 g 10] by (simp add: tg t timer_query_defs rg)
  let ?s' = "timer_start 0 ?h"
  have lay_h: "main_layout ?h" using lay by (simp add: hg main_layout_def fg tg timer_regs_def t)
  have wf: "timer_wf 0 ?h" "timer_irq_ok 0 ?h" "t_scheduler (timers ?h 0)" "t_clock (timers ?h 0)"
    "m_events (esched ?h) = []"
    using regs rg(2) lay c0 ev
    by (simp_all add: hg timer_wf_def timer_irq_ok_def fg tg t timer_regs_def main_layout_def ics)
  have view: "timer_view 0 ?h = \<lparr>at_running = False, at_count = 0, at_compare = 10, at_match = False\<rparr>"
    using regs by (simp add: timer_view_def timer_query_defs hg tg t rg flag_simps)
  have sync: "timer_synced 0 ?s'"
    by (rule timer_start_synced [OF wf]) (simp add: timer_view_sels view)
  have f: "timer_spares 0 ?h ?s'" by (rule timer_spares_start)
  have bus_ok: "bus_of_timer 0 ?s'" using sync f by (simp add: bus_of_timer_def timer_spares_def hg fg bus)
  have "line_agrees 0 ?h"
    using view c0 irq lay regs [of 1]
    by (simp add: line_agrees_def timer_view_sels hg fg tg rg MAX_INTERRUPTS_def main_layout_def)
  then have line: "line_agrees 0 ?s'" using wf(1) by (rule line_agrees_start)
  have g_regs: "g_dirRegister (gpio0 s) = 3" "g_outRegister (gpio0 s) = 4" "g_inRegister (gpio0 s) = 5"
    using lay by (simp_all add: main_layout_def)
  have lay': "main_layout ?s'" using f lay_h by (simp add: main_layout_def timer_spares_def)
  have gp: "gpio0 ?s' = gpio0 s" using f by (simp add: timer_spares_def hg fg)
  have "gpio_wf (gpio0 ?s') ?s'"
    unfolding gpio_wf_def gp g_regs using regs f by (simp add: timer_spares_def hg rg(2))
  then have inv: "main_inv ?s'" using lay' bus_ok line by (simp add: main_inv_def)
  have "pins_of ?s' = pins_of s"
    unfolding gpio_pins_def gp g_regs
    using f lay by (simp add: fun_eq_iff timer_spares_def hg fg tg t rg timer_regs_def main_layout_def)
  then show ?thesis
    by (intro that [OF run inv])
      (use f view wf(1) cyc in \<open>simp_all add: timer_view_start timer_spares_def hg fg bus clock_start\<close>)
qed

section \<open>A cycle of the machine\<close>

lemma main_inv_pins:
  assumes "main_inv s" and "timer_spares 0 s s'"
  shows "pins_of s' = pins_of s"
  using assms by (auto simp: main_inv_def main_layout_def timer_spares_def gpio_pins_def fun_eq_iff)

lemma main_inv_put:
  assumes inv: "main_inv s" and r: "r = 3 \<or> r = 4 \<or> r = 5"
  shows "main_inv (reg_put r v s)" and "timer_view 0 (reg_put r v s) = timer_view 0 s"
proof -
  have lay: "main_layout s" and bus: "bus_of_timer 0 s" and line: "line_agrees 0 s" and wf: "gpio_wf (gpio0 s) s"
    using inv by (simp_all add: main_inv_def)
  have t: "t_ctrlRegister (timers s 0) = 6" "t_countRegister (timers s 0) = 7" "t_compareRegister (timers s 0) = 8"
    "t_statusRegister (timers s 0) = 9" "ic_pendingRegister (ic s) = 1"
    using lay by (simp_all add: main_layout_def timer_regs_def)
  show view: "timer_view 0 (reg_put r v s) = timer_view 0 s"
    using r t by (auto simp: timer_view_def timer_query_defs)
  have "main_layout (reg_put r v s)" using lay by (simp add: main_layout_def)
  moreover have "bus_of_timer 0 (reg_put r v s)"
    using bus by (simp add: bus_of_timer_def timer_synced_iff view timer_irq_ok_def)
  moreover have "line_agrees 0 (reg_put r v s)"
    using line r t by (auto simp: line_agrees_def timer_query_defs)
  moreover have "gpio_wf (gpio0 (reg_put r v s)) (reg_put r v s)" using wf by (simp add: gpio_wf_def)
  ultimately show "main_inv (reg_put r v s)" by (simp add: main_inv_def)
qed

lemma main_toggle:
  assumes "main_inv s" and "gpio_hal_toggle True pin s = ret () s'"
  shows "main_inv s' \<and> timer_view 0 s' = timer_view 0 s \<and> clock s' = clock s"
proof -
  have g: "g_outRegister (gpio0 s) = 4" "g_inRegister (gpio0 s) = 5" using assms(1) by (simp_all add: main_inv_def main_layout_def)
  obtain v w where "s' = reg_put 5 w (reg_put 4 v s)"
    using assms(2) by (auto simp: gpio_hal_toggle_def gpio_op_defs Let_def and_then_Inr_iff g split: if_splits)
  then show ?thesis using main_inv_put [of s 4 v] main_inv_put [of "reg_put 4 v s" 5 w] assms(1) by simp
qed

lemma main_update:
  assumes "main_inv s" and "basic_update (f, s) = ret () (f', s')" and "bf_gpioHAL f"
  shows "main_inv s' \<and> timer_view 0 s' = timer_view 0 s \<and> clock s' = clock s"
proof -
  have "s' = s \<or> gpio_hal_toggle True (bf_pin f) s = ret () s'"
    using assms(2,3) by (auto simp: basic_update_def Let_def hal_call_def and_then_Inr_iff split: if_splits prod.splits)
  then show ?thesis using main_toggle [OF assms(1)] assms(1) by blast
qed

text \<open>The computer after \<open>k\<close> cycles.\<close>

definition main_app :: "nat \<Rightarrow> basic_fw \<Rightarrow> bool" where
  "main_app k f \<longleftrightarrow> bf_gpioHAL f \<and> bf_initialized f \<and> \<not> bf_shutdown f \<and> bf_pin f = 1 \<and> bf_toggleInterval f = 2 \<and>
     unat (bf_cycleCounter f) = k mod 2"

definition main_at :: "nat \<Rightarrow> (app_world, 'z bus_st_scheme) computer \<Rightarrow> bool" where
  "main_at k c \<longleftrightarrow> c_running (cpu0 c) \<and> cpu_isPowerOn c \<and> \<not> c_rtosScheduler (cpu0 c) \<and> c_systemBus (cpu0 c) \<and>
     cpu_firmware c = Some 0 \<and> (\<exists>f. aw_apps (fst (world c)) 0 = Basic f \<and> main_app k f) \<and>
     main_inv (snd (world c)) \<and> m_cycles (clock (snd (world c))) = of_nat k \<and> c_cycleCount (cpu0 c) = of_nat k \<and>
     timer_view 0 (snd (world c)) =
       (abs_tick ^^ k) \<lparr>at_running = True, at_count = 0, at_compare = 10, at_match = False\<rparr> \<and>
     pins_of (snd (world c)) 1 = \<lparr>p_output = True, p_driven = odd (k div 2), p_level = odd (k div 2)\<rparr>"

lemma main_app_update:
  assumes "main_app k f" and "main_inv s"
    and "pins_of s 1 = \<lparr>p_output = True, p_driven = odd (k div 2), p_level = odd (k div 2)\<rparr>"
  obtains f' s' where "basic_update (f, s) = ret () (f', s')" and "main_app (Suc k) f'"
    and "pins_of s' 1 = \<lparr>p_output = True, p_driven = odd (Suc k div 2), p_level = odd (Suc k div 2)\<rparr>"
    and "main_inv s'" and "timer_view 0 s' = timer_view 0 s" and "clock s' = clock s"
proof -
  have f: "bf_gpioHAL f" "bf_initialized f" "\<not> bf_shutdown f" "bf_pin f = 1" "bf_toggleInterval f = 2"
    "unat (bf_cycleCounter f) = k mod 2"
    using assms(1) by (simp_all add: main_app_def)
  have wf: "gpio_wf (gpio0 s) s" using assms(2) by (simp add: main_inv_def)
  have two: "unat (2 :: u64) = 2" "unat (1 :: u8) = 1" by simp_all
  let ?f = "f\<lparr>bf_executionCount := bf_executionCount f + 1, bf_cycleCounter := of_nat (Suc (k mod 2) mod 2)\<rparr>"
  obtain s' where s': "basic_update (f, s) = ret () (?f, s')"
    "pins_of s' = (if Suc (k mod 2) < 2 then pins_of s else drive 1 (\<not> p_level (pins_of s 1)) (pins_of s))"
    using basic_step [OF f(1-3) wf] f(4-6) assms(3) two by auto
  have "main_app (Suc k) ?f" using f by (auto simp: main_app_def mod_Suc)
  moreover have "pins_of s' 1 = \<lparr>p_output = True, p_driven = odd (Suc k div 2), p_level = odd (Suc k div 2)\<rparr>"
    using s'(2) assms(3) by (cases "even k") (auto simp: drive_def elim!: evenE oddE)
  ultimately show ?thesis using that s'(1) main_update [OF assms(2) s'(1) f(1)] by blast
qed

lemma main_step:
  assumes at: "main_at k c" and nowrap: "k + 2 ^ 32 < 2 ^ 64"
  shows "\<exists>c'. cpu_step main_env n c = Some (ret () c') \<and> main_at (Suc k) c'"
proof -
  obtain w s where ws: "world c = (w, s)" by (cases "world c")
  obtain f where c: "c_running (cpu0 c)" "cpu_isPowerOn c" "\<not> c_rtosScheduler (cpu0 c)" "c_systemBus (cpu0 c)"
    "cpu_firmware c = Some 0" "aw_apps w 0 = Basic f" "main_app k f" and inv: "main_inv s"
    and cyc: "m_cycles (clock s) = of_nat k" "c_cycleCount (cpu0 c) = of_nat k"
    and view: "timer_view 0 s = (abs_tick ^^ k) \<lparr>at_running = True, at_count = 0, at_compare = 10, at_match = False\<rparr>"
    and pin: "pins_of s 1 = \<lparr>p_output = True, p_driven = odd (k div 2), p_level = odd (k div 2)\<rparr>"
    using at by (auto simp: main_at_def ws)
  have lay: "main_layout s" and bus: "bus_of_timer 0 s" and line: "line_agrees 0 s" and wf: "gpio_wf (gpio0 s) s"
    using inv by (simp_all add: main_inv_def)
  have "unat (m_cycles (clock s)) + 2 ^ 32 < 2 ^ 64"
    using nowrap by (simp add: cyc unat_of_nat_u64)
  moreover have "ic_handlers (ic s) = replicate MAX_INTERRUPTS None" using lay by (simp add: main_layout_def)
  ultimately obtain s1 where s1: "sb_cycle (\<lambda>_. ret ()) (\<lambda>_. ret ()) s = ret () s1" "bus_of_timer 0 s1"
    "timer_view 0 s1 = abs_tick (timer_view 0 s)" "m_cycles (clock s1) = m_cycles (clock s) + 1"
    "timer_spares 0 s s1" "line_agrees 0 s1"
    using bus_cycle_frame [where user = "\<lambda>_. ret ()", OF bus _ _ line] by blast
  have inv1: "main_inv s1"
    using s1(2,5,6) lay wf by (simp add: main_inv_def main_layout_def timer_spares_def gpio_wf_def)
  have pin1: "pins_of s1 1 = \<lparr>p_output = True, p_driven = odd (k div 2), p_level = odd (k div 2)\<rparr>"
    using main_inv_pins [OF inv s1(5)] pin by simp
  obtain f2 s2 where up: "basic_update (f, s1) = ret () (f2, s2)" "main_app (Suc k) f2"
    "pins_of s2 1 = \<lparr>p_output = True, p_driven = odd (Suc k div 2), p_level = odd (Suc k div 2)\<rparr>"
    and s2: "main_inv s2" "timer_view 0 s2 = timer_view 0 s1" "clock s2 = clock s1"
    by (rule main_app_update [OF c(7) inv1 pin1])
  let ?c = "(upd_cpu (\<lambda>p. p\<lparr>c_cycleCount := c_cycleCount p + 1\<rparr>) c)\<lparr>world := (w, s1)\<rparr>"
  let ?d = "?c\<lparr>world := (put_app 0 (Basic f2) w, s2)\<rparr>"
  have "via_fm (fm_update app_class) ?c = ret () ?d"
    using c(5,6) up(1)
    by (simp add: via_fm_def fm_update_def fm_call_def app_class_def app_update_def via_app_def upd_cpu_def cpu_firmware_def)
  then have "cpu_step main_env n c = Some (ret () ?d)"
    using c s1(1) by (simp add: cpu_step_def Let_def via_bus_def ws upd_cpu_def main_env_def)
  moreover have "main_at (Suc k) ?d"
    using c(1-5) cyc view up(2,3) s2 s1(3,4)
    by (simp add: main_at_def cpu_isPowerOn_def upd_cpu_def cpu_firmware_def put_app_def add.commute)
  ultimately show ?thesis by blast
qed

lemma main_steps:
  assumes "main_at j c" and "j + k + 2 ^ 32 < 2 ^ 64"
  shows "\<exists>c'. cpu_steps main_env n k c = Some (ret () c') \<and> main_at (j + k) c'"
  using assms
proof (induction k arbitrary: j c)
  case (Suc k)
  then obtain c1 where "cpu_step main_env n c = Some (ret () c1)" "main_at (Suc j) c1"
    using main_step [OF Suc.prems(1), of n] by auto
  with Suc.IH [of "Suc j" c1] Suc.prems(2) show ?case by auto
qed auto

section \<open>From construction to the first cycle\<close>

lemma main_initialize:
  assumes "main_inv s"
  obtains f s' where "basic_initialize (basic_init True 1 2, s) = ret () (f, s')" and "main_app 0 f" and "main_inv s'"
    and "timer_view 0 s' = timer_view 0 s" and "clock s' = clock s"
    and "pins_of s' 1 = \<lparr>p_output = True, p_driven = False, p_level = False\<rparr>"
proof -
  have g: "g_dirRegister (gpio0 s) = 3" "g_outRegister (gpio0 s) = 4" "g_inRegister (gpio0 s) = 5"
    and wf: "gpio_wf (gpio0 s) s"
    using assms by (simp_all add: main_inv_def main_layout_def)
  obtain f s' where ini: "basic_initialize (basic_init True 1 2, s) = ret () (f, s')"
    and pins: "pins_of s' = (pins_of s)(1 := \<lparr>p_output = True, p_driven = False, p_level = False\<rparr>)"
    using basic_firmware_blinks [of s 1 2 0, OF wf] by (auto simp: and_then_Inr_iff)
  have "main_app 0 f"
    using ini by (auto simp: basic_initialize_def basic_init_def Let_def hal_call_def and_then_Inr_iff main_app_def
        split: prod.splits)
  moreover have "\<exists>u v w. s' = reg_put 5 w (reg_put 4 v (reg_put 3 u s))"
    using ini by (auto simp: basic_initialize_def basic_init_def Let_def hal_call_def and_then_Inr_iff
        gpio_hal_configureOutput_def gpio_hal_write_def gpio_op_defs g split: prod.splits if_splits)
  then obtain u v w where "s' = reg_put 5 w (reg_put 4 v (reg_put 3 u s))" by blast
  then have "main_inv s' \<and> timer_view 0 s' = timer_view 0 s \<and> clock s' = clock s"
    using main_inv_put [of s 3 u] main_inv_put [of "reg_put 3 u s" 4 v] main_inv_put [of "reg_put 4 v (reg_put 3 u s)" 5 w]
      assms by simp
  ultimately show ?thesis using that ini pins by simp
qed

definition main_ready :: "(app_world, 'z bus_st_scheme) computer \<Rightarrow> bool" where
  "main_ready c \<longleftrightarrow> \<not> c_running (cpu0 c) \<and> cpu_isPowerOn c \<and> \<not> c_rtosScheduler (cpu0 c) \<and> c_systemBus (cpu0 c) \<and>
     cpu_firmware c = Some 0 \<and> aw_apps (fst (world c)) 0 = Basic (basic_init True 1 2) \<and>
     main_inv (snd (world c)) \<and> m_cycles (clock (snd (world c))) = 0 \<and> c_cycleCount (cpu0 c) = 0 \<and>
     timer_view 0 (snd (world c)) = \<lparr>at_running = True, at_count = 0, at_compare = 10, at_match = False\<rparr> \<and>
     main_monitor (snd (world c)) = mon_init True True True True (Some 0) True True False False \<and>
     main_parts (snd (world c)) \<and> c_registerFile (cpu0 c) = rf_init \<and>
     pins_of (snd (world c)) = (\<lambda>_. \<lparr>p_output = False, p_driven = False, p_level = False\<rparr>)"

lemma main_start:
  assumes "main_ready c"
  shows "\<exists>c'. cpu_start main_env c = ret () c' \<and> main_at 0 c'"
proof -
  obtain w s where ws: "world c = (w, s)" by (cases "world c")
  have c: "\<not> c_running (cpu0 c)" "cpu_isPowerOn c" "\<not> c_rtosScheduler (cpu0 c)" "c_systemBus (cpu0 c)"
    "cpu_firmware c = Some 0" "aw_apps w 0 = Basic (basic_init True 1 2)" "main_inv s"
    and z: "m_cycles (clock s) = 0" "c_cycleCount (cpu0 c) = 0"
      "timer_view 0 s = \<lparr>at_running = True, at_count = 0, at_compare = 10, at_match = False\<rparr>"
    using assms by (simp_all add: main_ready_def ws)
  obtain f s' where ini: "basic_initialize (basic_init True 1 2, s) = ret () (f, s')" and f: "main_app 0 f" "main_inv s'"
    "timer_view 0 s' = timer_view 0 s" "clock s' = clock s"
    "pins_of s' 1 = \<lparr>p_output = True, p_driven = False, p_level = False\<rparr>"
    by (rule main_initialize [OF c(7)])
  let ?d = "(upd_cpu (\<lambda>p. p\<lparr>c_running := True\<rparr>) c)\<lparr>world := (put_app 0 (Basic f) w, s')\<rparr>"
  have "cpu_start main_env c = ret () ?d"
    using c(1-6) ini
    by (simp add: cpu_start_def Let_def via_fm_def fm_initialize_def fm_call_def app_class_def app_initialize_def
        via_app_def upd_cpu_def cpu_firmware_def main_env_def ws)
  moreover have "main_at 0 ?d"
    using c f z by (simp add: main_at_def cpu_isPowerOn_def upd_cpu_def cpu_firmware_def put_app_def)
  ultimately show ?thesis by blast
qed

lemma main_computer_ready: "\<exists>c. main_computer c0 = ret () c \<and> main_ready c"
proof -
  obtain w s0 where ws: "world c0 = (w, s0)" by (cases "world c0")
  obtain s1 where dev: "main_devices s0 = ret () s1" and lay: "main_layout s1" and
    "u_statusRegister (uart0 s1) = 11" "u_controlRegister (uart0 s1) = 12"
    "u_dataRegister (uart0 s1) = 10" "u_txFifo (uart0 s1) = []" "u_rxFifo (uart0 s1) = []"
    "mem0 s1 = memory_init 65536" "m_frequencyHz (clock s1) = DEFAULT_FREQUENCY_HZ"
    and r1: "\<And>r. r < 10 \<Longrightarrow> reg_get r s1 = 0 \<and> m_initialValue (reg_objs s1 r) = 0"
    and "ic_registered (ic s1) = replicate MAX_INTERRUPTS False"
    "timers s1 0 = \<lparr>t_base = 0x40001000, t_ctrlRegister = 6, t_countRegister = 7, t_compareRegister = 8,
       t_statusRegister = 9, t_interruptController = False, t_interruptId = 0, t_clock = False, t_scheduler = False,
       t_scheduledEventId = 0, t_lastClockCycles = 0\<rparr>"
    "sb s1 = \<lparr>sb_memory = True, sb_mmioBus = True, sb_interruptController = True, sb_dmas = [], sb_timers = [],
       sb_gpio = False, sb_uart = False, sb_spi = False, sb_i2c = False, sb_pwm = False, sb_adc = False\<rparr>"
    "m_cycles (clock s1) = 0" "m_events (esched s1) = []"
    by (rule main_devices_builds) blast
  then obtain s where wire: "main_wiring s1 = ret () s" and s: "main_inv s" "m_cycles (clock s) = 0"
    "timer_view 0 s = \<lparr>at_running = True, at_count = 0, at_compare = 10, at_match = False\<rparr>"
    "sb_memory (sb s)" "sb_mmioBus (sb s)" "sb_gpio (sb s)" "sb_uart (sb s)" "sb_interruptController (sb s)"
    "main_parts s" and pins: "pins_of s = pins_of s1"
    using main_wiring_ready [of s1] by (force simp: main_parts_def)
  have "pins_of s1 n = \<lparr>p_output = False, p_driven = False, p_level = False\<rparr>" for n
    using lay r1 by (simp add: gpio_pins_def main_layout_def)
  then have "pins_of s = (\<lambda>_. \<lparr>p_output = False, p_driven = False, p_level = False\<rparr>)" by (simp add: pins fun_eq_iff)
  note s = this s
  let ?c = "(cpu_init True (c0\<lparr>world := (w, s)\<rparr>))\<lparr>world := (put_app 0 (Basic (basic_init True 1 2)) w, s)\<rparr>"
  let ?d = "upd_cpu (\<lambda>p. p\<lparr>c_firmwareManager := \<lparr>fm_registry = [(''default'', 0)], fm_activeName = ''default''\<rparr>\<rparr>) ?c"
  have "cpu_loadFirmware main_env (Some 0) ''default'' ?c = ret True ?d"
    by (simp add: cpu_loadFirmware_def cpu_init_def blank_cpu_def Let_def via_fm_def upd_cpu_def fm_registerFirmware_def
        fm_setActiveFirmware_def fm_init_def)
  then have "main_computer c0 = ret () ?d"
    using dev wire by (simp add: main_computer_def via_bus_def ws Let_def cpu_init_def)
  moreover have "main_ready ?d"
    using s by (simp add: main_ready_def cpu_init_def blank_cpu_def Let_def upd_cpu_def cpu_isPowerOn_def
        power_isPowerOn_def cpu_firmware_def fm_activeFirmware_def put_app_def main_monitor_def)
  ultimately show ?thesis by blast
qed

lemma main_view:
  "(abs_tick ^^ k) \<lparr>at_running = True, at_count = 0, at_compare = 10, at_match = False\<rparr> =
    \<lparr>at_running = k < 10, at_count = of_nat (min k 10), at_compare = 10, at_match = 10 \<le> k\<rparr>"
proof (cases "k < 10")
  case True
  then show ?thesis by (subst abs_tick_counts) simp_all
next
  case False
  let ?a = "\<lparr>at_running = True, at_count = 0, at_compare = 10, at_match = False\<rparr>"
  have "(abs_tick ^^ 10) ?a = \<lparr>at_running = False, at_count = 10, at_compare = 10, at_match = True\<rparr>"
    by (subst abs_tick_matches) simp_all
  moreover have "k = (k - 10) + 10" using False by simp
  ultimately have "(abs_tick ^^ k) ?a = (abs_tick ^^ (k - 10)) \<lparr>at_running = False, at_count = 10, at_compare = 10, at_match = True\<rparr>"
    by (metis comp_apply funpow_add)
  then show ?thesis using False by (simp add: abs_tick_stopped min_def)
qed

text \<open>The text of a session in which \<open>k\<close> cycles are run.\<close>

definition main_transcript :: "string \<Rightarrow> string" where
  "main_transcript number =
     ''Embedded Firmware Simulator initialized.'' @ nl @
     ''Embedded Firmware Simulator Monitor (v1.0)'' @ nl @
     ''Type '' @ [CHR 0x27] @ ''help'' @ [CHR 0x27] @ '' for a list of commands.'' @ nl @
     ''> Ran '' @ number @ '' cycles. Total cycle count: '' @ number @ nl @ ''> ''"

section \<open>Properties\<close>

text \<open>
  C1. The program from end to end. Whatever the memory it starts in, given as its input the one line
  \<^verbatim>\<open>run\<close> with a positive number of cycles (below \<open>2 ^ 64 - 2 ^ 32\<close>), the program constructs its machine
  without an exception, runs that many cycles, prints the banner, the report and the prompts, and returns.
  Then the clock shows that many cycles, pin 1 is an output that is high exactly in the second half of
  every four cycles, the timer has counted to 10 and stopped there with its match flag if it got so far,
  and interrupt line 0 is pending exactly if it did.
\<close>

theorem main_program_exact:
  assumes "0 < k" and "unat k + 2 ^ 32 < 2 ^ 64"
  shows "\<exists>c. main_program n [''run '' @ show_dec (unat k)] c0 =
      Some (ret () (\<lparr>os_text = main_transcript (show_dec (unat k)), os_hex = False, os_fill = CHR '' '', os_left = False\<rparr>, c)) \<and>
    (let s = snd (world c)
     in m_cycles (clock s) = k \<and>
        pins_of s 1 = \<lparr>p_output = True, p_driven = odd (unat k div 2), p_level = odd (unat k div 2)\<rparr> \<and>
        unat (timer_counter 0 s) = min (unat k) 10 \<and> timer_running 0 s = (unat k < 10) \<and>
        timer_hasMatch 0 s = (10 \<le> unat k) \<and> fst (ic_pending 0 s) = Inr (10 \<le> unat k))"
proof -
  obtain c where c: "main_computer c0 = ret () c" "main_ready c" using main_computer_ready by blast
  obtain c1 where c1: "cpu_start main_env c = ret () c1" "main_at 0 c1" using main_start [OF c(2)] by blast
  obtain c2 where c2: "cpu_steps main_env n (unat k) c1 = Some (ret () c2)" "main_at (unat k) c2"
    using main_steps [OF c1(2), of "unat k" n] assms(2) by auto
  have run: "cpu_run main_env n k c = Some (ret () c2)" using c1(1) c2(1) by (simp add: cpu_run_steps)
  have m: "main_monitor (snd (world c)) = mon_init True True True True (Some 0) True True False False"
    using c(2) by (simp add: main_ready_def)
  have cmd: "mon_executeCommand (main_monitor (snd (world c))) main_env n (''run '' @ show_dec (unat k)) (os, c) =
      Some (ret True (puts [Str ''Ran '', Num (unat k), Str '' cycles. Total cycle count: '', Num (unat k), Str nl] os, c2))" for os
    using c2(2) run_command [of "main_monitor (snd (world c))" k main_env n os c] assms(1) run
    by (simp add: m mon_init_def do_cpu_def main_at_def)
  have "main_program n [''run '' @ show_dec (unat k)] c0 =
      Some (ret () (\<lparr>os_text = main_transcript (show_dec (unat k)), os_hex = False, os_fill = CHR '' '', os_left = False\<rparr>, c2))"
    using c(1) cmd
    by (simp add: main_program_def Let_def mon_runInteractiveSession_def puts_def prompt_def std_cout_def
        main_transcript_def os_number_def)
  moreover have s: "main_inv (snd (world c2))" "m_cycles (clock (snd (world c2))) = k"
    "timer_view 0 (snd (world c2)) =
      \<lparr>at_running = unat k < 10, at_count = of_nat (min (unat k) 10), at_compare = 10, at_match = 10 \<le> unat k\<rparr>"
    "pins_of (snd (world c2)) 1 = \<lparr>p_output = True, p_driven = odd (unat k div 2), p_level = odd (unat k div 2)\<rparr>"
    using c2(2) by (simp_all add: main_at_def main_view)
  moreover have "timer_running 0 (snd (world c2)) = (unat k < 10)" "unat (timer_counter 0 (snd (world c2))) = min (unat k) 10"
    and match: "timer_hasMatch 0 (snd (world c2)) = (10 \<le> unat k)"
    by (simp_all add: timer_view_sels s(3) unat_of_nat take_bit_nat_eq_self min_def)
  moreover have "fst (ic_pending 0 (snd (world c2))) = Inr (10 \<le> unat k)"
    using s(1) match by (auto simp: main_inv_def main_layout_def line_agrees_def ic_pending_def)
  ultimately show ?thesis unfolding Let_def by blast
qed

theorem main_program_exact_witness:
  "\<exists>os c. main_program 0 [''run 14''] demo_computer = Some (ret () (os, c)) \<and>
     os_text os = main_transcript ''14'' \<and> p_level (pins_of (snd (world c)) 1) \<and>
     unat (timer_counter 0 (snd (world c))) = 10 \<and> fst (ic_pending 0 (snd (world c))) = Inr True"
proof -
  have n: "show_dec 14 = ''14''" "unat (14 :: u64) = 14" by code_simp+
  show ?thesis
    using main_program_exact [of 14 0 demo_computer] unfolding n
    by (auto simp: Let_def)
qed

end
