(* ===== verification/Main_Safety.thy ===== *)
theory Main_Safety
  imports Main_Program
begin

text \<open>
  The machine of \<^verbatim>\<open>main.cpp\<close> stays well-formed whatever is typed at its monitor: a typing of the state
  that construction establishes and that a bus cycle, every firmware call, a reset and every command keep,
  and under which none of them throws.
\<close>

lemma machine_put [simp]:
  "sb (reg_put r v s) = sb s" "sb (reg_rst r s) = sb s" "gpio0 (reg_rst r s) = gpio0 s"
  "uart0 (reg_rst r s) = uart0 s" "mem0 (reg_rst r s) = mem0 s"
  by (simp_all add: reg_put_def reg_rst_def)

section \<open>Events of the timer only\<close>

text \<open>All that is ever posted on the scheduler is a compare match of timer 0.\<close>

definition match_events :: "'z bus_st_scheme \<Rightarrow> bool" where
  "match_events s \<longleftrightarrow> (\<forall>e \<in> set (m_events (esched s)). ev_callback e = Some (TimerMatch 0))"

lemma match_events_simps [simp]:
  "match_events (reg_put r v s) = match_events s" "match_events (reg_rst r s) = match_events s"
  "match_events (upd_timer i f s) = match_events s" "match_events (s\<lparr>clock := x\<rparr>) = match_events s"
  "match_events (timer_syncClock i s) = match_events s"
  by (simp_all add: match_events_def timer_syncClock_def)

lemma match_events_cancel: "match_events s \<Longrightarrow> match_events (timer_cancelScheduledEvent i s)"
  using set_erase_event_subset
  by (fastforce simp: match_events_def timer_cancelScheduledEvent_def sched_cancel_def)

lemma match_events_update: "match_events s \<Longrightarrow> match_events (timer_updateScheduledEvent 0 s)"
  using match_events_cancel [of s 0]
  by (auto simp: timer_updateScheduledEvent_def Let_def sched_schedule_def match_events_def)

lemma match_events_stop: "match_events s \<Longrightarrow> match_events (timer_stop i s)"
  by (simp add: timer_stop_def Let_def match_events_cancel)

lemma match_events_match: "match_events s \<Longrightarrow> match_events (snd (timer_handleCompareMatch i s))"
  by (simp add: timer_handleCompareMatch_def Let_def match_events_stop ic_trigger_def)

section \<open>A frame for the timer\<close>

text \<open>Nothing but the registers and the bookkeeping of timer 0 changes, and its events stay compare matches.\<close>

definition calm :: "'z bus_st_scheme \<Rightarrow> 'z bus_st_scheme \<Rightarrow> bool" where
  "calm s s' \<longleftrightarrow> timer_spares 0 s s' \<and> clock s' = clock s \<and> t_scheduler (timers s' 0) = t_scheduler (timers s 0) \<and>
     (match_events s \<longrightarrow> match_events s')"

lemma calm_trans [trans]: "calm a b \<Longrightarrow> calm b c \<Longrightarrow> calm a c"
  by (auto simp: calm_def intro: timer_spares_trans)

lemma clock_match:
  "clock (snd (timer_handleCompareMatch i s)) = clock s"
  "t_scheduler (timers (snd (timer_handleCompareMatch i s)) j) = t_scheduler (timers s j)"
  by (simp_all add: timer_handleCompareMatch_def Let_def timer_stop_def ic_trigger_def)

lemma calm_match: "calm s (snd (timer_handleCompareMatch 0 s))"
  by (simp add: calm_def timer_spares_match clock_match match_events_match)

lemma calm_tick: "t_scheduler (timers s 0) \<Longrightarrow> calm s (snd (timer_tick 0 s)) \<and> fst (timer_tick 0 s) = Inr ()"
  using timer_spares_tick [of 0 s]
  by (simp add: calm_def timer_tick_def Let_def)

lemma match_returns:
  assumes "ic_validId (t_interruptId (timers s 0))"
  shows "fst (timer_handleCompareMatch 0 (s :: 'a bus_st_scheme)) = Inr ()"
proof -
  have "t_interruptId (timers (timer_stop 0 s') 0) = t_interruptId (timers s' 0)" for s' :: "'a bus_st_scheme"
    using timer_spares_stop [of 0 s'] by (simp add: timer_spares_def)
  then show ?thesis using assms by (simp add: timer_handleCompareMatch_def Let_def ic_trigger_def)
qed

lemma calm_run_ready:
  assumes "\<And>e. e \<in> set es \<Longrightarrow> ev_callback e = Some (TimerMatch 0)" and "ic_validId (t_interruptId (timers s 0))"
  shows "\<exists>k s'. run_ready (run_callback user) es n s = ret k s' \<and> calm s s'"
  using assms
proof (induction es arbitrary: n s)
  case Nil
  then show ?case by (simp add: calm_def)
next
  case (Cons e es)
  let ?m = "snd (timer_handleCompareMatch 0 s)"
  have m: "timer_handleCompareMatch 0 s = ret () ?m"
    using match_returns [OF Cons.prems(2)] by (simp add: prod_eq_iff)
  have c: "calm s ?m" by (rule calm_match)
  then have "ic_validId (t_interruptId (timers ?m 0))" using Cons.prems(2) by (simp add: calm_def timer_spares_def)
  then obtain k s' where rest: "run_ready (run_callback user) es (Suc n) ?m = ret k s'" "calm ?m s'"
    using Cons.IH [of ?m "Suc n"] Cons.prems(1) by auto
  have "run_ready (run_callback user) (e # es) n s =
      and_then (timer_handleCompareMatch 0 s) (\<lambda>_. run_ready (run_callback user) es (Suc n))"
    using Cons.prems(1) by (simp add: run_callback_def)
  also have "\<dots> = ret k s'" by (subst m) (simp add: rest)
  finally show ?case using calm_trans [OF c rest(2)] by blast
qed

lemma calm_events:
  assumes "match_events s" and "ic_validId (t_interruptId (timers s 0))"
  shows "\<exists>k s'. sched_executeReadyEvents (run_callback user) now s = ret k s' \<and> calm s s'"
proof (cases "m_events (esched s) = []")
  case True
  then show ?thesis by (simp add: sched_executeReadyEvents_def calm_def)
next
  case False
  let ?s = "s\<lparr>esched := (esched s)\<lparr>m_events := filter (\<lambda>e. \<not> ev_cycle e \<le> now) (m_events (esched s))\<rparr>\<rparr>"
  let ?es = "sort_events (filter (\<lambda>e. ev_cycle e \<le> now) (m_events (esched s)))"
  have es: "ev_callback e = Some (TimerMatch 0)" if "e \<in> set ?es" for e
    using that assms(1) by (simp add: sort_events_def match_events_def)
  have "ic_validId (t_interruptId (timers ?s 0))" using assms(2) by simp
  from calm_run_ready [OF es this] obtain k s' where
    run: "run_ready (run_callback user) ?es 0 ?s = ret k s'" and c: "calm ?s s'" by blast
  have "calm s ?s" using timer_spares_clock(2) by (auto simp: calm_def match_events_def)
  then have "calm s s'" using c by (rule calm_trans)
  then show ?thesis using run False by (simp add: sched_executeReadyEvents_def)
qed

section \<open>The typing of the machine\<close>

text \<open>Only pin 1 is ever configured, and what it reads is what it drives.\<close>

definition main_pins :: "(nat \<Rightarrow> pin) \<Rightarrow> bool" where
  "main_pins P \<longleftrightarrow> (\<forall>n. n \<noteq> 1 \<longrightarrow> P n = \<lparr>p_output = False, p_driven = False, p_level = False\<rparr>) \<and>
     p_level (P 1) = p_driven (P 1)"

definition main_bus :: "'z bus_st_scheme \<Rightarrow> bool" where
  "main_bus s \<longleftrightarrow> main_layout s \<and> main_parts s \<and> match_events s \<and> gpio_wf (gpio0 s) s \<and> main_pins (pins_of s) \<and>
     t_scheduler (timers s 0)"

lemma main_bus_layout:
  assumes "main_bus s"
  shows "ic_enableRegister (ic s) = 0" "ic_pendingRegister (ic s) = 1" "ic_priorityRegister (ic s) = 2" "ic_handlers (ic s) = replicate MAX_INTERRUPTS None"
    "g_dirRegister (gpio0 s) = 3" "g_outRegister (gpio0 s) = 4" "g_inRegister (gpio0 s) = 5"
    "timer_regs (timers s 0) = [6, 7, 8, 9]" "t_interruptId (timers s 0) = 0"
  using assms by (simp_all add: main_bus_def main_layout_def)

lemma main_bus_calm:
  assumes "main_bus s" and "calm s s'"
  shows "main_bus s'" and "pins_of s' = pins_of s"
proof -
  have f: "timer_spares 0 s s'" "clock s' = clock s" "match_events s'" "t_scheduler (timers s' 0)"
    using assms by (simp_all add: calm_def main_bus_def)
  have l: "main_layout s'" using assms(1) f(1) by (simp add: main_bus_def main_layout_def timer_spares_def)
  have "reg_get r s' = reg_get r s" if "r \<in> {3, 4, 5}" for r
    using f(1) that main_bus_layout [OF assms(1)] by (auto simp: timer_spares_def)
  then show pins: "pins_of s' = pins_of s"
    using f(1) main_bus_layout [OF assms(1)] by (simp add: gpio_pins_def timer_spares_def fun_eq_iff)
  have "main_parts s'" using assms(1) f(1,2) by (simp add: main_bus_def main_parts_def timer_spares_def)
  moreover have "gpio_wf (gpio0 s') s'" using assms(1) f(1) by (simp add: main_bus_def gpio_wf_def timer_spares_def)
  moreover have "main_pins (pins_of s')" using assms(1) pins by (simp add: main_bus_def)
  ultimately show "main_bus s'" using l f by (simp add: main_bus_def)
qed

lemma main_bus_clock:
  assumes "main_bus s"
  shows "main_bus (s\<lparr>clock := clock_tick n (clock s)\<rparr>)" and "pins_of (s\<lparr>clock := x\<rparr>) = pins_of s"
proof -
  show pins: "pins_of (s\<lparr>clock := x\<rparr>) = pins_of s" for x by (simp add: gpio_pins_def reg_get_def fun_eq_iff)
  show "main_bus (s\<lparr>clock := clock_tick n (clock s)\<rparr>)"
    using assms unfolding main_bus_def pins
    by (auto simp: main_layout_def main_parts_def gpio_wf_def clock_tick_def)
qed

text \<open>A cycle returns, keeps the typing and the pins, and advances the clock by one, with wrap-around.\<close>

lemma main_bus_cycle:
  assumes "main_bus s"
  shows "\<exists>s'. sb_cycle user handler s = ret () s' \<and> main_bus s' \<and> pins_of s' = pins_of s \<and>
    m_cycles (clock s') = m_cycles (clock s) + 1"
proof -
  let ?a = "s\<lparr>clock := clock_tick 1 (clock s)\<rparr>"
  have a: "main_bus ?a" "pins_of ?a = pins_of s" using main_bus_clock [OF assms] by simp_all
  have "t_scheduler (timers ?a 0)" using a(1) by (simp add: main_bus_def)
  from calm_tick [OF this] obtain b where cb: "calm ?a b" and tick: "timer_tick 0 ?a = ret () b"
    by (metis prod.collapse)
  have b: "main_bus b" "pins_of b = pins_of s" using main_bus_calm [OF a(1) cb] a(2) by simp_all
  have id: "ic_validId (t_interruptId (timers b 0))"
    using main_bus_layout(9) [OF b(1)] by (simp add: ic_validId_def MAX_INTERRUPTS_def)
  have ev: "match_events b" using b(1) by (simp add: main_bus_def)
  obtain k c where run: "sched_executeReadyEvents (run_callback user) (m_cycles (clock b)) b = ret k c" and cc: "calm b c"
    using calm_events [OF ev id] by blast
  have c: "main_bus c" "pins_of c = pins_of s" using main_bus_calm [OF b(1) cc] b(2) by simp_all
  have none: "dispatch_pick (ic_active c) (ic_handlers (ic c)) (ic_priorities (ic c)) = None"
    using main_bus_layout(4) [OF c(1)] by (simp add: dispatch_pick_None candidate_def MAX_INTERRUPTS_def)
  have "sb_timers (sb s) = [0]" "sb_dmas (sb s) = []" "\<not> sb_pwm (sb b)" "sb_interruptController (sb c)"
    using assms b(1) c(1) by (simp_all add: main_bus_def main_parts_def)
  then have "sb_cycle user handler s = ret () c"
    using tick run none by (simp add: sb_cycle_def sb_tickTimers_def Let_def ic_dispatch_def)
  moreover have "clock c = clock_tick 1 (clock s)" using cb cc by (simp add: calm_def)
  ultimately show ?thesis using c by (auto simp: clock_tick_def)
qed

section \<open>Pins\<close>

lemma main_gpio:
  assumes s: "main_bus s" and P: "pins_apply q (pins_of s) = ret () P" "main_pins P"
  shows "\<exists>s'. gpio_apply (gpio0 s) q s = ret () s' \<and> main_bus s' \<and> pins_of s' = P \<and> clock s' = clock s"
proof -
  let ?s = "snd (gpio_apply (gpio0 s) q s)"
  have wf: "gpio_wf (gpio0 s) s" using s by (simp add: main_bus_def)
  have "map_prod id (gpio_pins (gpio0 s)) (gpio_apply (gpio0 s) q s) = ret () P"
    using gpio_apply_pins [OF wf] P(1) by simp
  then have r: "gpio_apply (gpio0 s) q s = ret () ?s" "gpio_pins (gpio0 s) ?s = P" by (simp_all add: prod_eq_iff)
  have f: "ic ?s = ic s" "timers ?s = timers s" "gpio0 ?s = gpio0 s" "sb ?s = sb s" "mem0 ?s = mem0 s" "uart0 ?s = uart0 s"
    "clock ?s = clock s" "match_events ?s = match_events s"
    by (cases q; simp add: gpio_op_defs Let_def)+
  have "main_bus ?s"
    using s f P(2) r(2) gpio_wf_apply [OF wf, of q] by (simp add: main_bus_def main_layout_def main_parts_def)
  then show ?thesis using r f by auto
qed

lemma hal_as_gpio:
  "gpio_hal_write True pin v s = gpio_apply (gpio0 s) (WritePin pin (if v then High else Low)) s"
  "gpio_hal_toggle True pin s = gpio_apply (gpio0 s) (TogglePin pin) s"
  "gpio_hal_configureOutput True pin s = gpio_apply (gpio0 s) (Configure pin Output) s"
  by (simp_all add: gpio_hal_write_def gpio_hal_toggle_def gpio_hal_configureOutput_def)

lemma main_drive:
  assumes s: "main_bus s" and out: "p_output (pins_of s 1)"
  shows "\<exists>s'. gpio_hal_write True 1 v s = ret () s' \<and> main_bus s' \<and> p_output (pins_of s' 1) \<and> clock s' = clock s"
    and "\<exists>s'. gpio_hal_toggle True 1 s = ret () s' \<and> main_bus s' \<and> p_output (pins_of s' 1) \<and> clock s' = clock s"
proof -
  have P: "main_pins (drive 1 b (pins_of s))" "p_output (drive 1 b (pins_of s) 1)" for b
    using s out by (simp_all add: main_bus_def main_pins_def drive_def)
  have one: "unat (1 :: u8) = 1" by simp
  show "\<exists>s'. gpio_hal_write True 1 v s = ret () s' \<and> main_bus s' \<and> p_output (pins_of s' 1) \<and> clock s' = clock s"
    using main_gpio [OF s _ P(1), of "WritePin 1 (if v then High else Low)" v] out P(2) one
    by (auto simp: hal_as_gpio split: if_splits)
  show "\<exists>s'. gpio_hal_toggle True 1 s = ret () s' \<and> main_bus s' \<and> p_output (pins_of s' 1) \<and> clock s' = clock s"
    using main_gpio [OF s _ P(1), of "TogglePin 1" "\<not> p_level (pins_of s 1)"] out P(2) one by (auto simp: hal_as_gpio)
qed

lemma main_configure:
  assumes s: "main_bus s"
  shows "\<exists>s'. gpio_hal_configureOutput True 1 s = ret () s' \<and> main_bus s' \<and> p_output (pins_of s' 1) \<and> clock s' = clock s"
proof -
  let ?P = "(pins_of s)(1 := (pins_of s 1)\<lparr>p_output := True\<rparr>)"
  have "pins_apply (Configure 1 Output) (pins_of s) = ret () ?P" by simp
  moreover have "main_pins ?P" using s by (simp add: main_bus_def main_pins_def)
  ultimately obtain s' where "gpio_apply (gpio0 s) (Configure 1 Output) s = ret () s'" "main_bus s'" "pins_of s' = ?P"
    "clock s' = clock s"
    using main_gpio [OF s] by blast
  then show ?thesis by (auto simp: hal_as_gpio(3))
qed

section \<open>The firmware\<close>

text \<open>While it is initialized and not shut down, its pin is an output.\<close>

definition main_fw :: "basic_fw \<Rightarrow> 'z bus_st_scheme \<Rightarrow> bool" where
  "main_fw f s \<longleftrightarrow> bf_gpioHAL f \<and> bf_pin f = 1 \<and> bf_toggleInterval f = 2 \<and>
     (bf_initialized f \<and> \<not> bf_shutdown f \<longrightarrow> p_output (pins_of s 1))"

lemma main_fw_initialize:
  assumes "main_bus s" and "main_fw f s"
  shows "\<exists>f' s'. basic_initialize (f, s) = ret () (f', s') \<and> main_bus s' \<and> main_fw f' s' \<and> clock s' = clock s"
proof -
  obtain s1 where c: "gpio_hal_configureOutput True 1 s = ret () s1" "main_bus s1" "p_output (pins_of s1 1)" "clock s1 = clock s"
    using main_configure [OF assms(1)] by blast
  obtain s2 where w: "gpio_hal_write True 1 False s1 = ret () s2" "main_bus s2" "p_output (pins_of s2 1)" "clock s2 = clock s1"
    using main_drive(1) [OF c(2,3)] by blast
  show ?thesis using assms(2) c w by (simp add: basic_initialize_def Let_def hal_call_def main_fw_def)
qed

lemma main_fw_update:
  assumes "main_bus s" and "main_fw f s"
  shows "\<exists>f' s'. basic_update (f, s) = ret () (f', s') \<and> main_bus s' \<and> main_fw f' s' \<and> clock s' = clock s"
proof (cases "bf_initialized f \<and> \<not> bf_shutdown f")
  case True
  then have "p_output (pins_of s 1)" using assms(2) by (simp add: main_fw_def)
  from main_drive(2) [OF assms(1) this] obtain s1 where "gpio_hal_toggle True 1 s = ret () s1" "main_bus s1"
    "p_output (pins_of s1 1)" "clock s1 = clock s" by blast
  then show ?thesis using True assms by (simp add: basic_update_def Let_def hal_call_def main_fw_def)
next
  case False
  then have "basic_update (f, s) = ret () (f, s)" by (auto simp: basic_update_def)
  then show ?thesis using assms by blast
qed

lemma main_fw_reset:
  assumes "main_bus s" and "main_fw f s"
  shows "\<exists>f' s'. basic_reset (f, s) = ret () (f', s') \<and> main_bus s' \<and> main_fw f' s' \<and> \<not> bf_initialized f'"
proof (cases "bf_initialized f \<and> \<not> bf_shutdown f")
  case True
  then have "p_output (pins_of s 1)" using assms(2) by (simp add: main_fw_def)
  from main_drive(1) [OF assms(1) this, of False] obtain s1 where "gpio_hal_write True 1 False s = ret () s1" "main_bus s1"
    "p_output (pins_of s1 1)" by blast
  then show ?thesis using True assms by (simp add: basic_reset_def hal_call_def main_fw_def)
next
  case False
  then show ?thesis using assms by (auto simp: basic_reset_def main_fw_def)
qed

section \<open>The reset of the bus\<close>

lemma timer_spares_rst: "r \<in> set (timer_regs (timers s i)) \<Longrightarrow> timer_spares i s (reg_rst r s)"
  by (auto simp: timer_spares_def)

lemma calm_timer_reset: "calm s (timer_reset 0 s)"
proof -
  have rst: "calm s' (reg_rst (t_countRegister (timers s' 0)) s')" "calm s' (reg_rst (t_statusRegister (timers s' 0)) s')"
    "calm s' (reg_rst (t_ctrlRegister (timers s' 0)) s')" "calm s' (timer_syncClock 0 s')" for s'
    by (simp_all add: calm_def timer_spares_rst timer_spares_sync)
  have "calm s (timer_stop 0 s)"
    using timer_spares_stop [of 0 s] match_events_stop [of s 0] by (simp add: calm_def timer_stop_def Let_def)
  also have "calm (timer_stop 0 s) (reg_rst (t_countRegister (timers (timer_stop 0 s) 0)) (timer_stop 0 s))" (is "calm _ ?b")
    by (rule rst)
  also have "calm ?b (reg_rst (t_statusRegister (timers ?b 0)) ?b)" (is "calm _ ?c") by (rule rst)
  also have "calm ?c (reg_rst (t_ctrlRegister (timers ?c 0)) ?c)" (is "calm _ ?d") by (rule rst)
  also have "calm ?d (timer_syncClock 0 ?d)" by (rule rst)
  finally show ?thesis unfolding timer_reset_def Let_def .
qed

lemma main_bus_uart_reset:
  assumes "main_bus s"
  shows "main_bus (snd (via_uart (plainly uart_reset) s))"
    and "pins_of (snd (via_uart (plainly uart_reset) s)) = pins_of s"
proof -
  let ?u = "snd (via_uart (plainly uart_reset) s)"
  have u: "u_dataRegister (uart0 s) = 10" "u_statusRegister (uart0 s) = 11" "u_controlRegister (uart0 s) = 12"
    using assms by (simp_all add: main_bus_def main_parts_def)
  obtain v w where eq: "?u = (reg_put 11 v (reg_rst 12 (reg_rst 10 (reg_put 11 w (reg_put 12 x s)))))
      \<lparr>uart0 := (uart0 s)\<lparr>u_txFifo := [], u_rxFifo := []\<rparr>\<rparr>" if "x = clear_flag (reg_get 12 s) 0" for x
    by (auto simp: via_uart_def plainly_def uart_reset_def uart_disable_def Let_def uart_updateStatusRegister_def u)
  show pins: "pins_of ?u = pins_of s"
    using main_bus_layout [OF assms] by (simp add: eq [OF refl] gpio_pins_def fun_eq_iff reg_get_def reg_put_def reg_rst_def)
  show "main_bus ?u"
    using assms unfolding main_bus_def pins
    by (auto simp: eq [OF refl] main_layout_def main_parts_def gpio_wf_def match_events_def)
qed

lemma main_bus_ic_reset:
  assumes "main_bus s"
  shows "main_bus (ic_reset s)" and "pins_of (ic_reset s) = pins_of s"
proof -
  show pins: "pins_of (ic_reset s) = pins_of s"
    using main_bus_layout [OF assms] by (simp add: ic_reset_def Let_def gpio_pins_def fun_eq_iff reg_get_def reg_rst_def)
  show "main_bus (ic_reset s)"
    using assms unfolding main_bus_def pins
    by (auto simp: ic_reset_def Let_def main_layout_def main_parts_def gpio_wf_def match_events_def)
qed

text \<open>The memory is zero before and after; the clock and the agenda of the scheduler start again.\<close>

lemma main_bus_final:
  assumes "main_bus s"
  shows "main_bus (s\<lparr>mem0 := memory_clear (mem0 s), clock := clock_reset (clock s), esched := sched_clear q\<rparr>)"
    and "pins_of (s\<lparr>mem0 := memory_clear (mem0 s), clock := clock_reset (clock s), esched := sched_clear q\<rparr>) = pins_of s"
proof -
  show pins: "pins_of (s\<lparr>mem0 := memory_clear (mem0 s), clock := clock_reset (clock s), esched := sched_clear q\<rparr>) = pins_of s"
    by (simp add: gpio_pins_def fun_eq_iff reg_get_def)
  show "main_bus (s\<lparr>mem0 := memory_clear (mem0 s), clock := clock_reset (clock s), esched := sched_clear q\<rparr>)"
    using assms unfolding main_bus_def pins
    by (auto simp: main_layout_def main_parts_def gpio_wf_def match_events_def memory_clear_def memory_init_def
        clock_reset_def sched_clear_def)
qed

lemma main_bus_reset:
  assumes "main_bus s"
  shows "main_bus (sb_reset s)" and "m_cycles (clock (sb_reset s)) = 0" and "m_events (esched (sb_reset s)) = []"
    and "pins_of (sb_reset s) = (\<lambda>_. \<lparr>p_output = False, p_driven = False, p_level = False\<rparr>)"
proof -
  let ?off = "\<lambda>_. \<lparr>p_output = False, p_driven = False, p_level = False\<rparr>"
  let ?a = "gpio_reset (gpio0 s) s"
  have a: "main_bus ?a" "pins_of ?a = ?off"
    using main_gpio [OF assms, of ResetPort ?off] by (simp_all add: main_pins_def)
  let ?b = "timer_reset 0 ?a"
  have b: "main_bus ?b" "pins_of ?b = ?off" using main_bus_calm [OF a(1) calm_timer_reset] a(2) by simp_all
  let ?c = "snd (via_uart (plainly uart_reset) ?b)"
  have c: "main_bus ?c" "pins_of ?c = ?off" using main_bus_uart_reset [OF b(1)] b(2) by simp_all
  let ?d = "ic_reset ?c"
  have d: "main_bus ?d" "pins_of ?d = ?off" using main_bus_ic_reset [OF c(1)] c(2) by simp_all
  have sbs: "sb x = \<lparr>sb_memory = True, sb_mmioBus = True, sb_interruptController = True, sb_dmas = [], sb_timers = [0],
       sb_gpio = True, sb_uart = True, sb_spi = False, sb_i2c = False, sb_pwm = False, sb_adc = False\<rparr>" if "main_bus x"
    for x :: "'a bus_st_scheme"
    using that by (simp add: main_bus_def main_parts_def)
  have e: "sb_reset s = ?d\<lparr>mem0 := memory_clear (mem0 ?d), clock := clock_reset (clock ?d), esched := sched_clear (esched ?d)\<rparr>"
    unfolding sb_reset_def Let_def
    by (simp add: sbs [OF assms] sbs [OF a(1)] sbs [OF b(1)] sbs [OF c(1)] sbs [OF d(1)])
  show "main_bus (sb_reset s)" "pins_of (sb_reset s) = ?off"
    unfolding e using main_bus_final [OF d(1)] d(2) by simp_all
  show "m_cycles (clock (sb_reset s)) = 0" "m_events (esched (sb_reset s)) = []"
    unfolding e by (simp_all add: clock_reset_def sched_clear_def)
qed

section \<open>The typing of the computer\<close>

definition main_ok :: "(app_world, 'z bus_st_scheme) computer \<Rightarrow> bool" where
  "main_ok c \<longleftrightarrow> main_bus (snd (world c)) \<and> cpu_isPowerOn c \<and> \<not> c_rtosScheduler (cpu0 c) \<and> c_systemBus (cpu0 c) \<and>
     cpu_firmware c = Some 0 \<and> c_registerFile (cpu0 c) = rf_init \<and>
     c_cycleCount (cpu0 c) = m_cycles (clock (snd (world c))) \<and>
     (\<exists>f. aw_apps (fst (world c)) 0 = Basic f \<and> main_fw f (snd (world c)))"

lemma main_ok_ready: "main_ready c \<Longrightarrow> main_ok c"
  by (auto simp: main_ready_def main_ok_def main_inv_def main_bus_def main_pins_def main_fw_def basic_init_def
      bus_of_timer_def timer_synced_def match_events_def split: if_splits)

lemma via_fm_active:
  "cpu_firmware c = Some i \<Longrightarrow>
   via_fm (fm_call op) c = (case op i (world c) of (r, ws) \<Rightarrow> (r, c\<lparr>world := ws\<rparr>))"
  by (cases c) (auto simp: via_fm_def fm_call_def cpu_firmware_def upd_cpu_def split: prod.splits)

lemma main_ok_world:
  assumes "main_ok c" and "main_bus s" and "main_fw f s" and "c_cycleCount (cpu0 c) = m_cycles (clock s)"
  shows "main_ok (c\<lparr>world := (put_app 0 (Basic f) w, s)\<rparr>)"
  using assms by (simp add: main_ok_def cpu_isPowerOn_def cpu_firmware_def put_app_def)

lemma main_ok_update:
  assumes "main_ok c"
  shows "\<exists>c'. via_fm (fm_update (e_class main_env)) c = ret () c' \<and> main_ok c'"
proof -
  obtain w s where ws: "world c = (w, s)" by (cases "world c")
  obtain f where f: "aw_apps w 0 = Basic f" "main_fw f s" "main_bus s" "c_cycleCount (cpu0 c) = m_cycles (clock s)"
    and fw: "cpu_firmware c = Some 0"
    using assms by (auto simp: main_ok_def ws)
  obtain f' s' where up: "basic_update (f, s) = ret () (f', s')" "main_bus s'" "main_fw f' s'" "clock s' = clock s"
    using main_fw_update [OF f(3,2)] by blast
  have "via_fm (fm_update (e_class main_env)) c = ret () (c\<lparr>world := (put_app 0 (Basic f') w, s')\<rparr>)"
    by (simp add: fm_update_def via_fm_active [OF fw] main_env_def app_class_def app_update_def ws f(1) via_app_def up(1))
  moreover have "main_ok (c\<lparr>world := (put_app 0 (Basic f') w, s')\<rparr>)"
    by (rule main_ok_world [OF assms up(2,3)]) (simp add: f(4) up(4))
  ultimately show ?thesis by blast
qed

lemma main_ok_initialize:
  assumes "main_ok c"
  shows "\<exists>c'. via_fm (fm_initialize (e_class main_env)) c = ret () c' \<and> main_ok c'"
proof -
  obtain w s where ws: "world c = (w, s)" by (cases "world c")
  obtain f where f: "aw_apps w 0 = Basic f" "main_fw f s" "main_bus s" "c_cycleCount (cpu0 c) = m_cycles (clock s)"
    and fw: "cpu_firmware c = Some 0"
    using assms by (auto simp: main_ok_def ws)
  obtain f' s' where up: "basic_initialize (f, s) = ret () (f', s')" "main_bus s'" "main_fw f' s'" "clock s' = clock s"
    using main_fw_initialize [OF f(3,2)] by blast
  have "via_fm (fm_initialize (e_class main_env)) c = ret () (c\<lparr>world := (put_app 0 (Basic f') w, s')\<rparr>)"
    by (simp add: fm_initialize_def via_fm_active [OF fw] main_env_def app_class_def app_initialize_def ws f(1) via_app_def up(1))
  moreover have "main_ok (c\<lparr>world := (put_app 0 (Basic f') w, s')\<rparr>)"
    by (rule main_ok_world [OF assms up(2,3)]) (simp add: f(4) up(4))
  ultimately show ?thesis by blast
qed

lemma main_ok_running: "main_ok (upd_cpu (\<lambda>p. p\<lparr>c_running := b\<rparr>) c) = main_ok c"
  by (simp add: main_ok_def upd_cpu_def cpu_isPowerOn_def cpu_firmware_def)

lemma main_ok_start:
  assumes "main_ok c"
  shows "\<exists>c'. cpu_start main_env c = ret () c' \<and> main_ok c'"
proof (cases "c_running (cpu0 c)")
  case False
  let ?c = "upd_cpu (\<lambda>p. p\<lparr>c_running := True\<rparr>) c"
  have "main_ok ?c" using assms by (simp add: main_ok_running)
  from main_ok_initialize [OF this] obtain d where d: "via_fm (fm_initialize (e_class main_env)) ?c = ret () d" "main_ok d"
    by blast
  then have "\<not> c_rtosScheduler (cpu0 d)" by (simp add: main_ok_def)
  then show ?thesis using d False by (simp add: cpu_start_def Let_def)
qed (use assms in \<open>simp add: cpu_start_def\<close>)

lemma main_ok_step:
  assumes "main_ok c"
  shows "\<exists>c'. cpu_step main_env n c = Some (ret () c') \<and> main_ok c'"
proof -
  obtain w s where ws: "world c = (w, s)" by (cases "world c")
  obtain f where f: "aw_apps w 0 = Basic f" "main_fw f s" "main_bus s" "c_cycleCount (cpu0 c) = m_cycles (clock s)"
    and c: "cpu_isPowerOn c" "\<not> c_rtosScheduler (cpu0 c)" "c_systemBus (cpu0 c)"
    using assms by (auto simp: main_ok_def ws)
  obtain s' where s': "sb_cycle (\<lambda>_. ret ()) (\<lambda>_. ret ()) s = ret () s'" "main_bus s'" "pins_of s' = pins_of s"
    "m_cycles (clock s') = m_cycles (clock s) + 1"
    using main_bus_cycle [OF f(3)] by blast
  let ?c = "(upd_cpu (\<lambda>p. p\<lparr>c_cycleCount := c_cycleCount p + 1\<rparr>) c)\<lparr>world := (w, s')\<rparr>"
  have "main_ok ?c"
    using assms s' f
    by (simp add: main_ok_def ws upd_cpu_def cpu_isPowerOn_def cpu_firmware_def main_fw_def)
  from main_ok_update [OF this] obtain d where d: "via_fm (fm_update (e_class main_env)) ?c = ret () d" "main_ok d" by blast
  have "cpu_step main_env n c = Some (if c_running (cpu0 ?c) then via_fm (fm_update (e_class main_env)) ?c else ret () ?c)"
    using c s'(1) by (simp add: cpu_step_def Let_def via_bus_def ws upd_cpu_def) (simp add: main_env_def)
  then show ?thesis using d \<open>main_ok ?c\<close> by auto
qed

lemma main_ok_steps:
  assumes "main_ok c"
  shows "\<exists>c'. cpu_steps main_env n k c = Some (ret () c') \<and> main_ok c'"
  using assms
proof (induction k arbitrary: c)
  case (Suc k)
  then show ?case using main_ok_step [OF Suc.prems, of n] by auto
qed simp

lemma main_ok_run:
  assumes "main_ok c"
  shows "\<exists>c'. cpu_run main_env n k c = Some (ret () c') \<and> main_ok c'"
proof -
  obtain d where d: "cpu_start main_env c = ret () d" "main_ok d" using main_ok_start [OF assms] by blast
  then show ?thesis using main_ok_steps [OF d(2), of n "unat k"] by (simp add: cpu_run_steps)
qed

lemma main_ok_reset:
  assumes "main_ok c"
  shows "\<exists>c'. cpu_reset main_env c = ret () c' \<and> main_ok c'"
proof -
  obtain w s where ws: "world c = (w, s)" by (cases "world c")
  obtain f where f: "aw_apps w 0 = Basic f" "main_fw f s" "main_bus s"
    and c: "cpu_isPowerOn c" "\<not> c_rtosScheduler (cpu0 c)" "c_systemBus (cpu0 c)" "cpu_firmware c = Some 0"
      "c_registerFile (cpu0 c) = rf_init"
    using assms by (auto simp: main_ok_def ws)
  obtain f' s' where up: "basic_reset (f, s) = ret () (f', s')" "main_bus s'" "main_fw f' s'" "\<not> bf_initialized f'"
    using main_fw_reset [OF f(3,2)] by blast
  let ?c = "upd_cpu (\<lambda>p. p\<lparr>c_registerFile := rf_reset (c_registerFile p)\<rparr>) (upd_cpu (\<lambda>p. p\<lparr>c_cycleCount := 0\<rparr>) c)"
  have fw: "cpu_firmware ?c = Some 0" using c(4) by (simp add: cpu_firmware_def upd_cpu_def)
  have "via_fm (fm_reset (e_class main_env)) ?c = ret () (?c\<lparr>world := (put_app 0 (Basic f') w, s')\<rparr>)"
    unfolding fm_reset_def via_fm_active [OF fw]
    by (simp add: main_env_def app_class_def app_reset_def ws upd_cpu_def f(1) via_app_def up(1))
  then have "cpu_reset main_env c = ret () (?c\<lparr>world := (put_app 0 (Basic f') w, sb_reset s')\<rparr>)"
    using c(2,3) by (simp add: cpu_reset_def Let_def) (simp add: upd_cpu_def via_bus_def plainly_def)
  moreover have "main_ok (?c\<lparr>world := (put_app 0 (Basic f') w, sb_reset s')\<rparr>)"
    using c main_bus_reset [OF up(2)] up(3,4)
    by (simp add: main_ok_def cpu_isPowerOn_def cpu_firmware_def upd_cpu_def put_app_def main_fw_def rf_init_def rf_reset_def)
  ultimately show ?thesis by blast
qed

section \<open>Any input\<close>

lemma main_ok_cpu:
  assumes "main_ok c" and "\<And>c. main_ok c \<Longrightarrow> \<exists>c'. f c = Some (ret () c') \<and> main_ok c'"
  shows "\<exists>go os' c'. do_cpu f outs (os, c) = Some (ret go (os', c')) \<and> main_ok c'"
  using assms(2) [OF assms(1)] by (auto simp: do_cpu_def)

lemma main_ok_command:
  assumes ok: "main_ok c" and m: "mo_cpu m"
  shows "\<exists>go os' c'. mon_executeCommand m main_env n line (os, c) = Some (ret go (os', c')) \<and> main_ok c'"
proof (cases "command_word line \<in> set acting_words")
  case False
  from mon_inspects [OF this, of m main_env n os c] show ?thesis using ok by auto
next
  case True
  obtain w args where sp: "split_command (trim line) = (command_word line, w, args)"
    by (metis command_word_def prod.collapse)
  have ne: "trim line \<noteq> []" using True by (auto simp: acting_words_def command_word_def split_command_def)
  consider "command_word line = ''reset''" | "command_word line = ''step''" | "command_word line = ''run''"
    using True by (auto simp: acting_words_def)
  then show ?thesis
  proof cases
    case 1
    have eq: "mon_executeCommand m main_env n line (os, c) =
        do_cpu (\<lambda>c. Some (cpu_reset main_env c)) (\<lambda>_. [Str (''Simulator reset.'' @ nl)]) (os, c)"
      using ne m 1 by (simp add: mon_executeCommand_def sp)
    show ?thesis unfolding eq by (rule main_ok_cpu [OF ok]) (simp add: main_ok_reset)
  next
    case 2
    have eq: "mon_executeCommand m main_env n line (os, c) =
        do_cpu (cpu_step main_env n) (\<lambda>c. [Str ''Stepped 1 cycle. Current cycle: '', Num (unat (c_cycleCount (cpu0 c))), Str nl]) (os, c)"
      using ne m 2 by (simp add: mon_executeCommand_def sp)
    show ?thesis unfolding eq by (rule main_ok_cpu [OF ok]) (rule main_ok_step)
  next
    case 3
    have run: "mon_executeCommand m main_env n line (os, c) = mon_handleRun m main_env n args (os, c)"
      using ne 3 by (simp add: mon_executeCommand_def sp)
    have "\<exists>go os' c'. do_cpu (cpu_run main_env n k) outs (os, c) = Some (ret go (os', c')) \<and> main_ok c'" for k outs
      by (rule main_ok_cpu [OF ok]) (rule main_ok_run)
    then show ?thesis unfolding run mon_handleRun_def using m ok by (auto split: option.split)
  qed
qed

lemma main_ok_lines:
  assumes "main_ok c" and "mo_cpu m"
  shows "\<exists>os' c'. mon_lines m main_env n ls (os, c) = Some (ret () (os', c')) \<and> main_ok c'"
  using assms(1)
proof (induction ls arbitrary: os c)
  case (Cons l ls)
  from main_ok_command [OF Cons.prems assms(2), of n l os] obtain go os1 c1 where
    l: "mon_executeCommand m main_env n l (os, c) = Some (ret go (os1, c1))" and c1: "main_ok c1" by blast
  from Cons.IH [OF c1, of "puts prompt os1"] show ?case using l c1 by auto
qed simp

section \<open>Properties\<close>

text \<open>
  C2. The program is type-sound. Whatever memory it starts in and whatever lines are typed, \<^verbatim>\<open>reset\<close>, \<^verbatim>\<open>step\<close>
  and \<^verbatim>\<open>run\<close> of any length in any order and clocks that wrap around included, the program returns
  and no exception reaches \<^verbatim>\<open>main\<close>. Its machine is well-formed at the end: every pending event is a
  compare match of the one timer, pin 1 is the only pin ever configured and reads what it drives, no
  interrupt has a handler, the memory and the register file are still zero, and the cycle
  count of the processor is that of the bus clock.
\<close>

theorem main_program_sound:
  "\<exists>os c. main_program n input c0 = Some (ret () (os, c)) \<and>
     (let s = snd (world c)
      in match_events s \<and> main_pins (pins_of s) \<and> ic_handlers (ic s) = replicate MAX_INTERRUPTS None \<and>
         mem0 s = memory_init 65536 \<and> c_registerFile (cpu0 c) = rf_init \<and>
         c_cycleCount (cpu0 c) = m_cycles (clock s))"
proof -
  obtain c where c: "main_computer c0 = ret () c" "main_ready c" using main_computer_ready by blast
  have "mo_cpu (main_monitor (snd (world c)))" by (simp add: main_monitor_def mon_init_def)
  then obtain os d where "mon_runInteractiveSession (main_monitor (snd (world c))) main_env n input
      (puts [Str (''Embedded Firmware Simulator initialized.'' @ nl)] std_cout, c) = Some (ret () (os, d))" "main_ok d"
    using main_ok_lines [OF main_ok_ready [OF c(2)]] by (fastforce simp: mon_runInteractiveSession_def)
  then show ?thesis
    using c(1) by (auto simp: main_program_def Let_def main_ok_def main_bus_def main_parts_def main_layout_def)
qed

end
