(* ===== verification/Rtos_Scheduling.thy ===== *)
theory Rtos_Scheduling
  imports Rtos
begin

text \<open>
  What the schedules of \<^verbatim>\<open>rtos/rtos_scheduler.cpp\<close> amount to: round robin within the highest
  non-empty priority, no turn for lower ones, yields that never come back, schedules that return because every call takes
  a task out of those that may run, and delays that last exactly as many ticks as asked. No further code is modelled here.
\<close>

section \<open>The tasks at the top\<close>

definition rtos_none_due :: "rtos \<Rightarrow> bool" where
  "rtos_none_due r \<longleftrightarrow> (\<forall>i \<in> set (r_delayQueue r). \<forall>t. rtos_task i r = Some t \<longrightarrow> r_tickCount r < tc_delayUntilTick t)"

text \<open>\<open>v\<close> are the tasks of the highest non-empty priority, in their order.\<close>

definition rtos_top :: "u32 list \<Rightarrow> rtos \<Rightarrow> bool" where
  "rtos_top v r \<longleftrightarrow> v \<noteq> [] \<and> (\<exists>p. rq_at (r_readyQueue r) p = v \<and> (\<forall>p'>p. rq_at (r_readyQueue r) p' = []))"

text \<open>What switching and running leave of a task: its body, its deadline, and its executions.\<close>

definition rtos_static :: "rtos \<Rightarrow> u32 \<Rightarrow> (task_fn option \<times> u8 \<times> u64) option" where
  "rtos_static r i = map_option (\<lambda>t. (tc_function t, tc_priority t, tc_delayUntilTick t)) (rtos_task i r)"

definition rtos_executions :: "rtos \<Rightarrow> u32 \<Rightarrow> u64 option" where
  "rtos_executions r i = map_option tc_executionCount (rtos_task i r)"

lemma rtos_wake_none:
  "(\<And>i t. i \<in> set is \<Longrightarrow> rtos_task i r = Some t \<Longrightarrow> r_tickCount r < tc_delayUntilTick t) \<Longrightarrow>
   rtos_wake is r = (is, r)"
proof (induction "is")
  case (Cons i "is")
  have "rtos_wake is r = (is, r)" by (rule Cons.IH) (use Cons.prems in auto)
  moreover have "\<not> tc_delayUntilTick t \<le> r_tickCount r" if "rtos_task i r = Some t" for t
    using Cons.prems [of i t] that by (simp add: not_le)
  ultimately show ?case by (cases "rtos_task i r") auto
qed simp

lemma rtos_process_none: "rtos_none_due r \<Longrightarrow> rtos_processDelayQueue r = r"
  using rtos_wake_none [of "r_delayQueue r" r]
  by (simp add: rtos_none_due_def rtos_processDelayQueue_def)

lemma rtos_static_upd [simp]:
  "rtos_static (upd_task i (task_setState st) r) = rtos_static r"
  "rtos_static (upd_task i task_incrementExecutionCount r) = rtos_static r"
  "rtos_executions (upd_task i (task_setState st) r) = rtos_executions r"
  "rtos_static (r\<lparr>r_currentTaskId := c\<rparr>) = rtos_static r"
  "rtos_static (r\<lparr>r_readyQueue := q\<rparr>) = rtos_static r"
  "rtos_executions (r\<lparr>r_currentTaskId := c\<rparr>) = rtos_executions r"
  "rtos_executions (r\<lparr>r_readyQueue := q\<rparr>) = rtos_executions r"
  by (auto simp: rtos_static_def rtos_executions_def fun_eq_iff task_setState_def
      task_incrementExecutionCount_def option.map_comp o_def)

lemma rtos_none_due_static:
  assumes "r_delayQueue r' = r_delayQueue r" and "r_tickCount r' = r_tickCount r" and "rtos_static r' = rtos_static r"
  shows "rtos_none_due r' = rtos_none_due r"
proof -
  have "(\<forall>t. rtos_task i r' = Some t \<longrightarrow> r_tickCount r < tc_delayUntilTick t) =
    (\<forall>t. rtos_task i r = Some t \<longrightarrow> r_tickCount r < tc_delayUntilTick t)" for i
    using fun_cong [OF assms(3), of i]
    by (cases "rtos_task i r"; cases "rtos_task i r'") (auto simp: rtos_static_def)
  then show ?thesis by (simp add: rtos_none_due_def assms(1,2))
qed

text \<open>A switch takes the front of the top tasks and moves it to their end.\<close>

lemma rtos_switch_top:
  assumes inv: "rtos_inv r" and due: "rtos_none_due r" and top: "rtos_top v r"
  shows "r_currentTaskId (rtos_switch r) = hd v" and "rtos_top (rotate1 v) (rtos_switch r)"
    and "rtos_static (rtos_switch r) = rtos_static r"
    and "rtos_executions (rtos_switch r) = rtos_executions r"
    and "r_delayQueue (rtos_switch r) = r_delayQueue r" and "r_tickCount (rtos_switch r) = r_tickCount r"
    and "\<exists>t. rtos_task (hd v) (rtos_switch r) = Some t \<and> (tc_state t = READY \<or> tc_state t = RUNNING)"
proof -
  obtain p where p: "rq_at (r_readyQueue r) p = v" "\<forall>p'>p. rq_at (r_readyQueue r) p' = []" and v: "v \<noteq> []"
    using top by (auto simp: rtos_top_def)
  have ok: "rtos_ok (r_delayQueue r) r" using inv by (simp add: rtos_inv_def)
  obtain i q where pick: "rq_pick (r_readyQueue r) = (i, q)" by (cases "rq_pick (r_readyQueue r)")
  obtain p' where p': "rq_at (r_readyQueue r) p' \<noteq> []" "\<forall>a>p'. rq_at (r_readyQueue r) a = []"
    "i = hd (rq_at (r_readyQueue r) p')" "rq_at q = (rq_at (r_readyQueue r))(p' := rotate1 (rq_at (r_readyQueue r) p'))"
    using rq_pick_spec [OF rtos_okD(1) [OF ok] pick] p v by fastforce
  have "p' = p" using p p'(1,2) v by (metis linorder_neqE)
  with p p' have i: "i = hd v" and q: "rq_at q = (rq_at (r_readyQueue r))(p := rotate1 v)" by simp_all
  let ?b = "r\<lparr>r_readyQueue := q\<rparr>"
  define c where "c = (if r_currentTaskId r \<noteq> i
    then (case rtos_currentTask ?b of None \<Rightarrow> ?b
      | Some t \<Rightarrow> if tc_state t = RUNNING then upd_task (r_currentTaskId ?b) (task_setState READY) ?b else ?b)
    else ?b)"
  have sw: "rtos_switch r = c\<lparr>r_currentTaskId := i\<rparr>"
    by (simp add: rtos_switch_def rtos_process_none [OF due] rtos_pickNextTask_def pick c_def Let_def)
  have c: "rtos_static c = rtos_static r" "rtos_executions c = rtos_executions r" "r_readyQueue c = q"
    "r_delayQueue c = r_delayQueue r" "r_tickCount c = r_tickCount r"
    by (auto simp: c_def split: option.splits)
  show "r_currentTaskId (rtos_switch r) = hd v" by (simp add: sw i)
  show "rtos_static (rtos_switch r) = rtos_static r"
    and "rtos_executions (rtos_switch r) = rtos_executions r"
    and "r_delayQueue (rtos_switch r) = r_delayQueue r" and "r_tickCount (rtos_switch r) = r_tickCount r"
    by (simp_all add: sw c)
  have at: "rq_at (r_readyQueue (rtos_switch r)) = (rq_at (r_readyQueue r))(p := rotate1 v)"
    by (simp add: sw c q)
  then show "rtos_top (rotate1 v) (rtos_switch r)"
    using v p(2) by (auto simp: rtos_top_def intro!: exI [of _ p])
  have s: "rtos_ok (r_delayQueue (rtos_switch r)) (rtos_switch r)"
    using rtos_switch_settled(1) [OF inv] by (simp add: rtos_settled_def rtos_inv_def)
  have "hd v \<in> set (rq_at (r_readyQueue (rtos_switch r)) p)" using v by (simp add: at)
  then show "\<exists>t. rtos_task (hd v) (rtos_switch r) = Some t \<and> (tc_state t = READY \<or> tc_state t = RUNNING)"
    using rtos_okD(6) [OF s] by blast
qed

section \<open>Round robin among run-to-completion tasks\<close>

text \<open>What the execution of a task that makes no calls does to the world.\<close>

definition rtos_body :: "(nat \<Rightarrow> 'w \<Rightarrow> 'w) \<Rightarrow> rtos \<Rightarrow> u32 \<Rightarrow> 'w \<Rightarrow> 'w" where
  "rtos_body g r i w =
     (case rtos_static r i of Some (Some (UserTask f), _) \<Rightarrow> g f w | _ \<Rightarrow> w)"

fun rtos_schedules :: "nat \<Rightarrow> (nat \<Rightarrow> 'w \<Rightarrow> rtos_call list \<times> 'w) \<Rightarrow> nat \<Rightarrow> 'w sched_fn" where
  "rtos_schedules n prog 0 s = Some s"
| "rtos_schedules n prog (Suc k) s = Option.bind (rtos_schedules n prog k s) (rtos_schedule n prog)"

definition rtos_at_work :: "u32 list \<Rightarrow> rtos \<Rightarrow> bool" where
  "rtos_at_work v r \<longleftrightarrow> rtos_settled r \<and> r_running r \<and> rtos_none_due r \<and> rtos_top v r"

lemma rtos_schedule_turn:
  assumes work: "rtos_at_work v r"
  shows "\<exists>r'. rtos_schedule (Suc n) (\<lambda>f w. ([], g f w)) (r, w) = Some (r', rtos_body g r (hd v) w) \<and>
     rtos_at_work (rotate1 v) r' \<and> rtos_static r' = rtos_static r \<and> r_currentTaskId r' = hd v \<and>
     (\<forall>i. i \<noteq> hd v \<longrightarrow> rtos_executions r' i = rtos_executions r i)"
proof -
  let ?prog = "\<lambda>f w. ([], g f w)"
  have inv: "rtos_inv r" and due: "rtos_none_due r" and top: "rtos_top v r" and run: "r_running r"
    using work by (simp_all add: rtos_at_work_def rtos_settled_def)
  let ?s = "rtos_switch r"
  note s = rtos_switch_top [OF inv due top]
  obtain t where t: "rtos_task (hd v) ?s = Some t" and st: "tc_state t = READY \<or> tc_state t = RUNNING"
    using s(7) by blast
  let ?a = "upd_task (hd v) (task_setState RUNNING) ?s"
  let ?b = "upd_task (hd v) task_incrementExecutionCount ?a"
  have ss: "rtos_settled ?s" "r_running ?s" using rtos_switch_settled [OF inv] run by simp_all
  have ok: "rtos_ok (r_delayQueue ?s) ?s" using ss(1) by (simp add: rtos_settled_def rtos_inv_def)
  have a: "rtos_ok (r_delayQueue ?s) ?a" by (rule rtos_ok_same [OF ok t st]) (simp_all add: s(1))
  have ta: "rtos_task (hd v) ?a = Some (task_setState RUNNING t)" using t by simp
  have b: "rtos_ok (r_delayQueue ?s) ?b" by (rule rtos_ok_same [OF a ta]) (simp_all add: s(1))
  have fn: "rtos_static r (hd v) = Some (tc_function t, tc_priority t, tc_delayUntilTick t)"
    using t by (simp add: s(3) [symmetric] rtos_static_def)
  define r' where "r' = (if tc_function t = None then ?a else ?b)"
  have run': "rtos_schedule (Suc n) ?prog (r, w) = Some (r', rtos_body g r (hd v) w)"
    using run s(1) t st fn
    by (auto simp: Let_def rtos_currentTask_def task_execute_def rtos_body_def r'_def
        split: option.splits task_fn.splits)
  have "rtos_static r' = rtos_static r" by (simp add: r'_def s(3))
  moreover have "rtos_none_due r'"
    using rtos_none_due_static [of r' r] due s(5,6) calculation by (simp add: r'_def)
  moreover have "rtos_settled r'"
    using ss(1) a b by (auto simp: r'_def rtos_settled_def rtos_inv_def)
  moreover have "rtos_top (rotate1 v) r'" using s(2) by (simp add: r'_def rtos_top_def)
  moreover have "\<forall>i. i \<noteq> hd v \<longrightarrow> rtos_executions r' i = rtos_executions r i"
    using s(4) by (simp add: r'_def rtos_executions_def fun_eq_iff)
  moreover have "r_running r'" "r_currentTaskId r' = hd v" using ss(2) s(1) by (simp_all add: r'_def)
  ultimately show ?thesis using run' by (auto simp: rtos_at_work_def)
qed

lemma rtos_schedules_turns:
  assumes "rtos_at_work v r"
  shows "\<exists>r'. rtos_schedules (Suc n) (\<lambda>f w. ([], g f w)) k (r, w) =
       Some (r', fold (\<lambda>j. rtos_body g r (v ! (j mod length v))) [0..<k] w) \<and>
     rtos_at_work (rotate k v) r' \<and> rtos_static r' = rtos_static r \<and>
     (\<forall>i. i \<notin> set v \<longrightarrow> rtos_executions r' i = rtos_executions r i)"
proof (induction k)
  case (Suc k)
  let ?prog = "\<lambda>f w. ([], g f w)" and ?w = "fold (\<lambda>j. rtos_body g r (v ! (j mod length v))) [0..<k] w"
  obtain r1 where r1: "rtos_schedules (Suc n) ?prog k (r, w) = Some (r1, ?w)"
    and work: "rtos_at_work (rotate k v) r1" and static: "rtos_static r1 = rtos_static r"
    and keep: "\<forall>i. i \<notin> set v \<longrightarrow> rtos_executions r1 i = rtos_executions r i"
    using Suc by (elim exE conjE)
  obtain r2 where r2: "rtos_schedule (Suc n) ?prog (r1, ?w) = Some (r2, rtos_body g r1 (hd (rotate k v)) ?w)"
    and two: "rtos_at_work (rotate1 (rotate k v)) r2" "rtos_static r2 = rtos_static r1"
      "\<forall>i. i \<noteq> hd (rotate k v) \<longrightarrow> rtos_executions r2 i = rtos_executions r1 i"
    using rtos_schedule_turn [OF work, of n g ?w] by (elim exE conjE)
  have v: "v \<noteq> []" using assms by (simp add: rtos_at_work_def rtos_top_def)
  then have hd: "hd (rotate k v) = v ! (k mod length v)" by (rule hd_rotate_conv_nth)
  then have hdin: "hd (rotate k v) \<in> set v" using v by simp
  have "\<forall>i. i \<notin> set v \<longrightarrow> rtos_executions r2 i = rtos_executions r i"
  proof (intro allI impI)
    fix i
    assume i: "i \<notin> set v"
    then have "i \<noteq> hd (rotate k v)" using hdin by blast
    then show "rtos_executions r2 i = rtos_executions r i" using two(3) keep i by simp
  qed
  moreover have "rtos_body g r1 = rtos_body g r" by (simp add: rtos_body_def fun_eq_iff static)
  moreover have "rtos_schedules (Suc n) ?prog (Suc k) (r, w) =
      Some (r2, fold (\<lambda>j. rtos_body g r (v ! (j mod length v))) [0..<Suc k] w)"
    using r1 r2 calculation(2) by (simp add: hd)
  ultimately show ?case using two(1,2) static by (intro exI [of _ r2]) simp
qed (use assms in simp)

text \<open>
  C22. Round robin. Take a running scheduler whose delayed tasks are not due, with tasks that run to
  completion. Every schedule returns, and \<open>k\<close> schedules in a row run the bodies of the tasks \<open>v\<close> of the
  highest non-empty priority in turn, the \<open>j\<close>-th schedule that of \<open>v ! (j mod length v)\<close>; no task
  outside \<open>v\<close> is executed, however long this goes on.
\<close>

theorem rtos_round_robin:
  assumes "rtos_at_work v r"
  shows "\<exists>r'. rtos_schedules (Suc n) (\<lambda>f w. ([], g f w)) k (r, w) =
       Some (r', fold (\<lambda>j. rtos_body g r (v ! (j mod length v))) [0..<k] w) \<and>
     (\<forall>i. i \<notin> set v \<longrightarrow> rtos_executions r' i = rtos_executions r i)"
proof -
  obtain r' where "rtos_schedules (Suc n) (\<lambda>f w. ([], g f w)) k (r, w) =
      Some (r', fold (\<lambda>j. rtos_body g r (v ! (j mod length v))) [0..<k] w)"
    and "\<forall>i. i \<notin> set v \<longrightarrow> rtos_executions r' i = rtos_executions r i"
    using rtos_schedules_turns [OF assms, of n g k w] by (elim exE conjE)
  then show ?thesis by (intro exI conjI)
qed

definition rtos_pair_demo :: rtos where
  "rtos_pair_demo = rtos_start (snd (rtos_createTask ''b'' (Some (UserTask 1)) 1 512
     (snd (rtos_createTask ''a'' (Some (UserTask 0)) 1 512 rtos_init))))"

lemmas rtos_demo_defs = rtos_pair_demo_def rtos_start_def rtos_createTask_def rtos_init_def
  rtos_ensureIdleTask_def rtos_addToReadyQueue_def rtos_task_def task_init_def IDLE_TASK_ID_def
  IDLE_TASK_PRIORITY_def Let_def

lemma rtos_pair_demo_at_work: "rtos_at_work [1, 2] rtos_pair_demo"
proof -
  let ?a = "snd (rtos_createTask ''a'' (Some (UserTask 0)) 1 512 rtos_init)"
  let ?b = "snd (rtos_createTask ''b'' (Some (UserTask 1)) 1 512 ?a)"
  have "rtos_settled ?a" by (rule rtos_create_settled [OF rtos_init_settled]) (simp add: rtos_demo_defs)
  then have "rtos_settled ?b" by (rule rtos_create_settled) (simp add: rtos_demo_defs)
  then have "rtos_settled rtos_pair_demo" by (simp add: rtos_pair_demo_def rtos_start_def rtos_ensureIdle_id)
  moreover have "r_running rtos_pair_demo" "r_delayQueue rtos_pair_demo = []"
    "r_readyQueue rtos_pair_demo = [(1, [1, 2]), (0, [0])]"
    by (simp_all add: rtos_demo_defs)
  ultimately show ?thesis
    by (auto simp: rtos_at_work_def rtos_none_due_def rtos_top_def rq_at_def split: if_splits intro!: exI [of _ 1])
qed

theorem rtos_round_robin_witness:
  "\<exists>r'. rtos_schedules 1 (\<lambda>f w. ([], w @ [f])) 3 (rtos_pair_demo, []) = Some (r', [0, 1, 0]) \<and>
     (\<forall>i. i \<notin> {1, 2} \<longrightarrow> rtos_executions r' i = rtos_executions rtos_pair_demo i)"
  using rtos_round_robin [OF rtos_pair_demo_at_work, of 0 "\<lambda>f w. w @ [f]" 3 "[]"]
  by (simp add: upt_rec rtos_body_def rtos_static_def rtos_demo_defs)

section \<open>Yielding at the top\<close>

lemma remove1_rotate1: "distinct v \<Longrightarrow> v \<noteq> [] \<Longrightarrow> remove1 (hd v) (rotate1 v) @ [hd v] = rotate1 v"
  by (cases v) (simp_all add: remove1_append)

lemma rtos_yield_prepare_top:
  assumes work: "rtos_settled r" "r_running r" "rtos_none_due r"
    and top: "rtos_top (rotate1 v) r" and cur: "r_currentTaskId r = hd v" and v: "v \<noteq> []"
  shows "rtos_at_work (rotate1 v) (rtos_yield_prepare r)" and "rtos_static (rtos_yield_prepare r) = rtos_static r"
proof -
  let ?c = "hd v" and ?y = "rtos_yield_prepare r"
  have inv: "rtos_inv r" using work(1) by (simp add: rtos_settled_def)
  have ok: "rtos_ok (r_delayQueue r) r" using inv by (simp add: rtos_inv_def)
  obtain p where p: "rq_at (r_readyQueue r) p = rotate1 v" "\<forall>p'>p. rq_at (r_readyQueue r) p' = []"
    using top by (auto simp: rtos_top_def)
  have dist: "distinct v" using rtos_okD(2) [OF ok, of p] p(1) by simp
  have "?c \<in> set (rq_at (r_readyQueue r) p)" using p(1) v by simp
  then obtain t where t: "rtos_task ?c r = Some t" and prio: "tc_priority t = p"
    using rtos_okD(6) [OF ok] by blast
  note f = rtos_yield_prepare_inv [OF inv]
  have y: "?y = r \<or> ?y = rtos_addToReadyQueue ?c (rtos_removeFromReadyQueue ?c (upd_task ?c (task_setState READY) r))"
    using t cur by (simp add: rtos_yield_prepare_def rtos_currentTask_def)
  have q: "r_readyQueue (rtos_addToReadyQueue ?c (rtos_removeFromReadyQueue ?c (upd_task ?c (task_setState READY) r)))
      = rq_add p ?c (rq_remove p ?c (r_readyQueue r))"
    using t prio rtos_add_queue [of ?c "rtos_removeFromReadyQueue ?c (upd_task ?c (task_setState READY) r)"]
      rtos_remove_queue [of ?c "upd_task ?c (task_setState READY) r"] by simp
  have "rq_at (rq_add p ?c (rq_remove p ?c (r_readyQueue r))) = rq_at (r_readyQueue r)"
    using rq_at_add [OF rq_ok_remove [OF rtos_okD(1) [OF ok]], of p ?c p ?c] rq_at_remove [OF rtos_okD(1) [OF ok], of p ?c]
      dist remove1_rotate1 [OF dist v] p(1)
    by (auto simp: fun_eq_iff set_remove1_eq)
  then have at: "rq_at (r_readyQueue ?y) = rq_at (r_readyQueue r)" using y q by auto
  have static: "rtos_static ?y = rtos_static r" "r_delayQueue ?y = r_delayQueue r"
    "r_tickCount ?y = r_tickCount r" "r_currentTaskId ?y = r_currentTaskId r"
    using y by (auto simp: rtos_static_def fun_eq_iff task_setState_def option.map_comp o_def)
  show "rtos_static ?y = rtos_static r" by (rule static(1))
  show "rtos_at_work (rotate1 v) ?y"
    using f work top static rtos_none_due_static [OF static(2,3,1)]
    by (simp add: rtos_at_work_def rtos_settled_def rtos_top_def at)
qed

definition rtos_yielders :: "(nat \<Rightarrow> 'w \<Rightarrow> rtos_call list \<times> 'w) \<Rightarrow> u32 list \<Rightarrow> rtos \<Rightarrow> bool" where
  "rtos_yielders prog v r \<longleftrightarrow>
     (\<forall>i \<in> set v. \<exists>f x. rtos_static r i = Some (Some (UserTask f), x) \<and> (\<forall>w. \<exists>cs w'. prog f w = (Yield # cs, w')))"

lemma rtos_yields_forever:
  "rtos_at_work v r \<Longrightarrow> rtos_yielders prog v r \<Longrightarrow> rtos_schedule n prog (r, w) = None"
proof (induction n arbitrary: v r w)
  case 0
  then show ?case by (simp add: rtos_at_work_def)
next
  case (Suc n)
  have inv: "rtos_inv r" and due: "rtos_none_due r" and top: "rtos_top v r" and run: "r_running r" and v: "v \<noteq> []"
    using Suc.prems(1) by (auto simp: rtos_at_work_def rtos_settled_def rtos_top_def)
  let ?s = "rtos_switch r"
  note s = rtos_switch_top [OF inv due top]
  obtain t where t: "rtos_task (hd v) ?s = Some t" and st: "tc_state t = READY \<or> tc_state t = RUNNING"
    using s(7) by (elim exE conjE)
  obtain f x where f: "rtos_static r (hd v) = Some (Some (UserTask f), x)" and "\<forall>w. \<exists>cs w'. prog f w = (Yield # cs, w')"
    using Suc.prems(2) v unfolding rtos_yielders_def by (meson hd_in_set)
  then obtain cs w' where body: "prog f w = (Yield # cs, w')" by blast
  let ?a = "upd_task (hd v) (task_setState RUNNING) ?s"
  let ?b = "upd_task (hd v) task_incrementExecutionCount ?a"
  have ss: "rtos_settled ?s" "r_running ?s" using rtos_switch_settled [OF inv] run by simp_all
  have ok: "rtos_ok (r_delayQueue ?s) ?s" using ss(1) by (simp add: rtos_settled_def rtos_inv_def)
  have a: "rtos_ok (r_delayQueue ?s) ?a" by (rule rtos_ok_same [OF ok t st]) (simp_all add: s(1))
  have ta: "rtos_task (hd v) ?a = Some (task_setState RUNNING t)" using t by simp
  have b: "rtos_ok (r_delayQueue ?s) ?b" by (rule rtos_ok_same [OF a ta]) (simp_all add: s(1))
  have fn: "tc_function t = Some (UserTask f)"
    using f t by (simp add: s(3) [symmetric] rtos_static_def)
  have settled: "rtos_settled ?b" using ss(1) b by (simp add: rtos_settled_def rtos_inv_def)
  have static: "rtos_static ?b = rtos_static r" by (simp add: s(3))
  have none: "rtos_none_due ?b" using rtos_none_due_static [of ?b r] due s(5,6) static by simp
  have topb: "rtos_top (rotate1 v) ?b" using s(2) by (simp add: rtos_top_def)
  have runb: "r_running ?b" and cur: "r_currentTaskId ?b = hd v" using ss(2) s(1) by simp_all
  note y = rtos_yield_prepare_top [OF settled runb none topb cur v]
  have "rtos_yielders prog (rotate1 v) (rtos_yield_prepare ?b)"
    using Suc.prems(2) y(2) static by (simp add: rtos_yielders_def)
  then have "rtos_schedule n prog (rtos_yield_prepare ?b, w') = None" by (rule Suc.IH [OF y(1)])
  then have "rtos_do (rtos_schedule n prog) Yield (?b, w') = None" using runb by (simp add: rtos_yield_def)
  then show ?case
    using run s(1) t st fn body
    by (auto simp: Let_def rtos_currentTask_def task_execute_def)
qed

text \<open>
  C39. A yield does not come back. When the bodies of all tasks of the highest non-empty priority begin
  with a yield, \<open>schedule\<close> does not return, whatever the depth of calls allowed: each yield schedules
  inside the frame of the task that yields, and the next task yields in turn.
\<close>

theorem rtos_yield_never_returns:
  assumes "rtos_at_work v r"
    and "\<forall>i \<in> set v. \<exists>f x. rtos_static r i = Some (Some (UserTask f), x) \<and> (\<forall>w. \<exists>cs w'. prog f w = (Yield # cs, w'))"
  shows "rtos_schedule n prog (r, w) = None"
  using rtos_yields_forever [OF assms(1), of prog n w] assms(2) by (simp add: rtos_yielders_def)

theorem rtos_yield_never_returns_witness:
  "\<forall>n. rtos_schedule n (\<lambda>f w. ([Yield], w + 1)) (rtos_pair_demo, 0 :: nat) = None"
proof
  fix n
  show "rtos_schedule n (\<lambda>f w. ([Yield], w + 1)) (rtos_pair_demo, 0 :: nat) = None"
    by (rule rtos_yield_never_returns [OF rtos_pair_demo_at_work])
      (simp add: rtos_static_def rtos_demo_defs)
qed

section \<open>Delays\<close>

text \<open>Task \<open>i\<close> sleeps, as \<open>t\<close> describes it.\<close>

definition rtos_asleep :: "u32 \<Rightarrow> tcb \<Rightarrow> rtos \<Rightarrow> bool" where
  "rtos_asleep i t r \<longleftrightarrow> rtos_task i r = Some t \<and> tc_state t = BLOCKED \<and> r_tickCount r < tc_delayUntilTick t"

text \<open>The calls that leave a sleeping task alone, ticks apart.\<close>

definition leaves_asleep :: "u32 \<Rightarrow> rtos_call \<Rightarrow> bool" where
  "leaves_asleep i c = (c \<noteq> Suspend i \<and> c \<noteq> Delete i)"

lemma rtos_wake_tasks:
  "distinct is \<Longrightarrow> rtos_wake is r = (dq, r') \<Longrightarrow> rtos_task j r' =
     (if j \<in> set is then map_option (\<lambda>t. if tc_delayUntilTick t \<le> r_tickCount r then task_setState READY t else t)
        (rtos_task j r) else rtos_task j r)"
proof (induction "is" arbitrary: r dq)
  case (Cons i "is")
  obtain dq' r1 where w: "rtos_wake is r = (dq', r1)" by (cases "rtos_wake is r")
  show ?case
  proof (cases "\<exists>t. rtos_task i r = Some t \<and> tc_delayUntilTick t \<le> r_tickCount r")
    case True
    then obtain t where t: "rtos_task i r = Some t" "tc_delayUntilTick t \<le> r_tickCount r" by blast
    let ?r = "rtos_addToReadyQueue i (upd_task i (task_setState READY) r)"
    have "rtos_wake is ?r = (dq, r')" using Cons.prems(2) t by simp
    with Cons.IH [of ?r dq] Cons.prems(1) t show ?thesis by auto
  next
    case False
    then have "r' = r1" using Cons.prems(2) w by (auto split: option.splits)
    with Cons.IH [of r dq'] w Cons.prems(1) False show ?thesis by (cases "rtos_task j r") auto
  qed
qed simp

lemma rtos_process_tasks:
  assumes "rtos_inv r"
  shows "rtos_task j (rtos_processDelayQueue r) = map_option (\<lambda>t.
     if tc_state t = BLOCKED \<and> tc_delayUntilTick t \<le> r_tickCount r then task_setState READY t else t) (rtos_task j r)"
proof -
  have ok: "rtos_ok (r_delayQueue r) r" using assms by (simp add: rtos_inv_def)
  obtain dq r' where w: "rtos_wake (r_delayQueue r) r = (dq, r')" by (cases "rtos_wake (r_delayQueue r) r")
  then have "rtos_task j (rtos_processDelayQueue r) = rtos_task j r'" by (simp add: rtos_processDelayQueue_def)
  also have "\<dots> = map_option (\<lambda>t.
     if tc_state t = BLOCKED \<and> tc_delayUntilTick t \<le> r_tickCount r then task_setState READY t else t) (rtos_task j r)"
    using rtos_wake_tasks [OF rtos_okD(4) [OF ok] w, of j] rtos_okD(7) [OF ok, of j]
    by (cases "rtos_task j r") auto
  finally show ?thesis .
qed

lemma rtos_process_asleep: "rtos_inv r \<Longrightarrow> rtos_asleep i t r \<Longrightarrow> rtos_asleep i t (rtos_processDelayQueue r)"
  using rtos_process_tasks [of r i] rtos_process_inv(3) [of r]
  by (auto simp: rtos_asleep_def not_le)

lemma rtos_asleep_blocked: "rtos_inv r \<Longrightarrow> rtos_asleep i t r \<Longrightarrow> i \<in> set (r_delayQueue r)"
  using rtos_okD(7) [of "r_delayQueue r" r i] by (simp add: rtos_asleep_def rtos_inv_def)

lemma rtos_asleep_not_current: "rtos_settled r \<Longrightarrow> rtos_asleep i t r \<Longrightarrow> r_currentTaskId r \<noteq> i"
  using rtos_asleep_blocked [of r i t] by (auto simp: rtos_settled_def)

lemma rtos_prepare_asleep:
  assumes "rtos_asleep i t r"
  shows "rtos_settled r \<Longrightarrow> rtos_asleep i t (rtos_yield_prepare r)"
    and "rtos_settled r \<Longrightarrow> rtos_asleep i t (rtos_delay_prepare k r)"
    and "j \<noteq> i \<Longrightarrow> rtos_asleep i t (rtos_suspend_prepare j r)"
    and "j \<noteq> i \<Longrightarrow> rtos_asleep i t (rtos_delete_prepare j r)"
    and "rtos_asleep i t (snd (rtos_resumeTask j r))"
  using assms rtos_asleep_not_current [of r i t]
      apply (auto simp: rtos_asleep_def rtos_yield_prepare_def split: option.splits) [1]
     using assms rtos_asleep_not_current [of r i t]
     apply (auto simp: rtos_asleep_def rtos_delay_prepare_def Let_def split: option.splits) [1]
    using assms apply (auto simp: rtos_asleep_def rtos_suspend_prepare_def Let_def) [1]
   using assms
   apply (auto simp: rtos_asleep_def rtos_delete_prepare_def Let_def rtos_task_def delete_conv') [1]
  using assms by (auto simp: rtos_asleep_def rtos_resumeTask_def split: option.splits)

lemma rtos_prepare_ticks [simp]:
  "r_tickCount (rtos_yield_prepare r) = r_tickCount r"
  "r_tickCount (rtos_delay_prepare k r) = r_tickCount r"
  "r_tickCount (rtos_suspend_prepare i r) = r_tickCount r"
  "r_tickCount (rtos_delete_prepare i r) = r_tickCount r"
  "r_tickCount (snd (rtos_resumeTask i r)) = r_tickCount r"
  by (simp_all add: rtos_yield_prepare_def rtos_delay_prepare_def rtos_suspend_prepare_def
      rtos_delete_prepare_def rtos_resumeTask_def Let_def split: option.splits)

lemma rtos_pick_static:
  "rtos_pickNextTask r = (i, r') \<Longrightarrow> r_tickCount r' = r_tickCount r \<and> rtos_task j r' = rtos_task j r"
  by (auto simp: rtos_pickNextTask_def split: prod.splits)

lemma rtos_switch_asleep:
  assumes "rtos_inv r" and "rtos_asleep i t r"
  shows "rtos_asleep i t (rtos_switch r)" and "r_tickCount (rtos_switch r) = r_tickCount r"
proof -
  let ?a = "rtos_processDelayQueue r"
  obtain k b where pick: "rtos_pickNextTask ?a = (k, b)" by (cases "rtos_pickNextTask ?a")
  have a: "rtos_asleep i t ?a" by (rule rtos_process_asleep [OF assms])
  have b: "rtos_asleep i t b" using a rtos_pick_static [OF pick] by (simp add: rtos_asleep_def)
  define c where "c = (if r_currentTaskId b \<noteq> k
    then (case rtos_currentTask b of None \<Rightarrow> b
      | Some t \<Rightarrow> if tc_state t = RUNNING then upd_task (r_currentTaskId b) (task_setState READY) b else b)
    else b)"
  have sw: "rtos_switch r = c\<lparr>r_currentTaskId := k\<rparr>"
    by (simp add: rtos_switch_def pick c_def Let_def)
  have "rtos_asleep i t c"
    using b by (auto simp: c_def rtos_asleep_def rtos_currentTask_def split: option.splits)
  then show "rtos_asleep i t (rtos_switch r)" by (simp add: sw rtos_asleep_def)
  have "r_tickCount c = r_tickCount b" by (simp add: c_def split: option.splits)
  then show "r_tickCount (rtos_switch r) = r_tickCount r"
    using rtos_pick_static [OF pick] rtos_process_inv(3) [OF assms(1)] by (simp add: sw)
qed

text \<open>The contract of \<open>schedule\<close> towards a sleeping task.\<close>

locale sleeping = scheduling sch
  for sch :: "'w rtos_st \<Rightarrow> 'w rtos_st option" +
  fixes i :: u32 and t :: tcb
  assumes sleeps: "rtos_inv r \<Longrightarrow> r_running r \<or> rtos_settled r \<Longrightarrow> rtos_asleep i t r \<Longrightarrow>
    sch (r, w) = Some (r', w') \<Longrightarrow> rtos_asleep i t r' \<and> r_tickCount r' = r_tickCount r"
begin

lemma suspend_asleep:
  assumes "rtos_settled r" and "rtos_asleep i t r" and "j \<noteq> i"
    and "rtos_suspendTask sch j (r, w) = Some (b, r', w')"
  shows "rtos_asleep i t r' \<and> r_tickCount r' = r_tickCount r"
proof (cases "rtos_task j r")
  case (Some u)
  let ?p = "rtos_suspend_prepare j r"
  have inv: "rtos_inv r" using assms(1) by (simp add: rtos_settled_def)
  note p = rtos_suspend_prepare_inv [OF inv Some]
  have a: "rtos_asleep i t ?p" by (rule rtos_prepare_asleep(3) [OF assms(2,3)])
  consider "sch (?p, w) = Some (r', w')" "r_running ?p" | "r' = ?p"
    using assms(4) Some by (auto simp: rtos_suspendTask_def Let_def p split: if_splits)
  then show ?thesis
  proof cases
    case 1
    then show ?thesis using sleeps [OF p(1) _ a, of w r' w'] by simp
  qed (use a in simp)
qed (use assms in \<open>simp add: rtos_suspendTask_def\<close>)

lemma delete_asleep:
  assumes "rtos_settled r" and "rtos_asleep i t r" and "j \<noteq> i"
    and "rtos_deleteTask sch j (r, w) = Some (b, r', w')"
  shows "rtos_asleep i t r' \<and> r_tickCount r' = r_tickCount r"
proof (cases "j = IDLE_TASK_ID \<or> rtos_task j r = None")
  case False
  then obtain u where u: "rtos_task j r = Some u" and j: "j \<noteq> IDLE_TASK_ID" by auto
  let ?p = "rtos_delete_prepare j r" and ?q = "(rtos_delete_prepare j r)\<lparr>r_currentTaskId := IDLE_TASK_ID\<rparr>"
  have inv: "rtos_inv r" using assms(1) by (simp add: rtos_settled_def)
  note p = rtos_delete_prepare_inv [OF inv u j]
  have ok: "rtos_ok (r_delayQueue ?p) ?p" using p(1) by (simp add: rtos_inv_def)
  have a: "rtos_asleep i t ?p" by (rule rtos_prepare_asleep(4) [OF assms(2,3)])
  show ?thesis
  proof (cases "r_currentTaskId r = j")
    case True
    have "rtos_ok (r_delayQueue ?p) ?q"
      using rtos_okD(8) [OF ok] p(2,4) True by (intro rtos_ok_current [OF ok]) fastforce
    then have q: "rtos_settled ?q" using rtos_okD(5) [OF ok] by (simp add: rtos_settled_def rtos_inv_def)
    have "rtos_asleep i t ?q" using a by (simp add: rtos_asleep_def)
    moreover have "sch (?q, w) = Some (r', w')"
      using assms(4) u j True by (simp add: rtos_deleteTask_def Let_def p(4))
    ultimately show ?thesis using q sleeps [of ?q w r' w'] by (simp add: rtos_settled_def)
  next
    case False
    then have "r' = ?p" using assms(4) u j p(4) by (simp add: rtos_deleteTask_def Let_def)
    then show ?thesis using a by simp
  qed
qed (use assms in \<open>auto simp: rtos_deleteTask_def split: if_splits\<close>)

lemma do_asleep:
  assumes s: "rtos_settled r" and a: "rtos_asleep i t r" and c: "leaves_asleep i c" "c \<noteq> TickRtos"
    and run: "rtos_do sch c (r, w) = Some (r', w')"
  shows "rtos_asleep i t r' \<and> r_tickCount r' = r_tickCount r"
proof (cases c)
  case Yield
  have inv: "rtos_inv r" using s by (simp add: rtos_settled_def)
  show ?thesis
    using run Yield a rtos_prepare_asleep(1) [OF a s] rtos_yield_prepare_inv [OF inv]
      sleeps [of "rtos_yield_prepare r" w r' w']
    by (auto simp: rtos_yield_def split: if_splits)
next
  case (Delay k)
  then show ?thesis
    using run a rtos_prepare_asleep(2) [OF a s, of k] rtos_delay_prepare_inv [OF s, of k]
      sleeps [of "rtos_delay_prepare k r" w r' w']
    by (auto simp: rtos_delay_def split: if_splits)
next
  case (Suspend j)
  then obtain b where "rtos_suspendTask sch j (r, w) = Some (b, r', w')" using run by auto
  then show ?thesis using suspend_asleep [OF s a] c Suspend by (auto simp: leaves_asleep_def)
next
  case (Resume j)
  then show ?thesis using run rtos_prepare_asleep(5) [OF a, of j] by auto
next
  case (Delete j)
  then obtain b where "rtos_deleteTask sch j (r, w) = Some (b, r', w')" using run by auto
  then show ?thesis using delete_asleep [OF s a] c Delete by (auto simp: leaves_asleep_def)
next
  case (Create name f p k)
  have "i < r_nextTaskId r"
    using rtos_okD(8) [of "r_delayQueue r" r i t] s a by (simp add: rtos_settled_def rtos_inv_def rtos_asleep_def)
  then show ?thesis
    using run a Create by (auto simp: rtos_createTask_def Let_def rtos_asleep_def rtos_task_def update_conv')
next
  case StartRtos
  then show ?thesis using run a s by (auto simp: rtos_start_def rtos_ensureIdle_id rtos_asleep_def)
next
  case StopRtos
  then show ?thesis using run a by (auto simp: rtos_stop_def rtos_asleep_def)
next
  case Schedule
  then show ?thesis using run a s sleeps by (auto simp: rtos_settled_def)
qed (use c in simp)

lemma calls_asleep:
  assumes "rtos_settled r" and "rtos_asleep i t r" and "\<forall>c \<in> set cs. leaves_asleep i c"
    and "rtos_calls_ids sch cs (r, w) = Some (r', w')"
    and "unat (r_tickCount r) + count_list cs TickRtos < unat (tc_delayUntilTick t)"
  shows "rtos_asleep i t r' \<and> rtos_settled r' \<and> unat (r_tickCount r') = unat (r_tickCount r) + count_list cs TickRtos"
  using assms
proof (induction cs arbitrary: r w)
  case (Cons c cs)
  obtain r1 w1 where c: "rtos_do sch c (r, w) = Some (r1, w1)" and left: "id_left c r"
    and cs: "rtos_calls_ids sch cs (r1, w1) = Some (r', w')"
    using Cons.prems(4) by (auto simp: bind_eq_Some_conv split: if_splits)
  have lc: "leaves_asleep i c" using Cons.prems(3) by simp
  have s: "rtos_settled r1" by (rule do_settled [OF Cons.prems(1) c left])
  have rest: "rtos_asleep i t r' \<and> rtos_settled r' \<and>
      unat (r_tickCount r') = unat (r_tickCount r1) + count_list cs TickRtos"
    if "rtos_asleep i t r1" "unat (r_tickCount r1) + count_list cs TickRtos < unat (tc_delayUntilTick t)"
    using Cons.IH [OF s that(1) _ cs that(2)] Cons.prems(3) by simp
  show ?case
  proof (cases "c = TickRtos")
    case True
    have inv: "rtos_inv r" using Cons.prems(1) by (simp add: rtos_settled_def)
    have r1: "r1 = rtos_tick r" using c True by simp
    have "r_tickCount r \<noteq> - 1" using Cons.prems(2) by (auto simp: rtos_asleep_def)
    then have tick: "unat (r_tickCount r + 1) = unat (r_tickCount r) + 1" by (simp add: unat_plus_one)
    have "rtos_inv (r\<lparr>r_tickCount := r_tickCount r + 1\<rparr>)" by (rule rtos_ticked_inv [OF inv])
    moreover have "rtos_asleep i t (r\<lparr>r_tickCount := r_tickCount r + 1\<rparr>)"
      using Cons.prems(2,5) True tick by (simp add: rtos_asleep_def word_less_nat_alt)
    ultimately have "rtos_asleep i t r1" unfolding r1 rtos_tick_def by (rule rtos_process_asleep)
    moreover have "unat (r_tickCount r1) = unat (r_tickCount r) + 1"
      using rtos_tick_fields(3) [OF inv] tick by (simp add: r1)
    ultimately show ?thesis using rest Cons.prems(5) True by simp
  next
    case False
    then show ?thesis
      using do_asleep [OF Cons.prems(1,2) lc False c] rest Cons.prems(5) by simp
  qed
qed simp

end

section \<open>\<open>schedule\<close> lets sleeping tasks sleep\<close>

definition lets_sleep :: "u32 \<Rightarrow> rtos_call \<Rightarrow> bool" where
  "lets_sleep i c = (leaves_asleep i c \<and> c \<noteq> TickRtos)"

lemma rtos_schedule_sleeping:
  fixes prog :: "nat \<Rightarrow> 'w \<Rightarrow> rtos_call list \<times> 'w"
  assumes prog: "\<And>f w c. c \<in> set (fst (prog f w)) \<Longrightarrow> lets_sleep i c"
  shows "sleeping (rtos_schedule_ids n prog) i t"
proof (induction n)
  case 0
  show ?case
    by (intro sleeping.intro rtos_schedule_settles sleeping_axioms.intro) (auto split: if_splits)
next
  case (Suc n)
  show ?case
  proof (intro sleeping.intro rtos_schedule_settles sleeping_axioms.intro)
    fix r :: rtos and w :: 'w and r' w'
    assume inv: "rtos_inv r" and asleep: "rtos_asleep i t r"
      and run: "rtos_schedule_ids (Suc n) prog (r, w) = Some (r', w')"
    show "rtos_asleep i t r' \<and> r_tickCount r' = r_tickCount r"
    proof (cases "r_running r")
      case True
      let ?s = "rtos_switch r"
      let ?c = "r_currentTaskId ?s"
      have s: "rtos_settled ?s" by (rule rtos_switch_settled(1) [OF inv])
      have ok: "rtos_ok (r_delayQueue ?s) ?s" using s by (simp add: rtos_settled_def rtos_inv_def)
      note sl = rtos_switch_asleep [OF inv asleep]
      have ci: "?c \<noteq> i" by (rule rtos_asleep_not_current [OF s sl(1)])
      show ?thesis
      proof (cases "\<exists>u. rtos_currentTask ?s = Some u \<and> (tc_state u = READY \<or> tc_state u = RUNNING)")
        case True
        then obtain u where u: "rtos_task ?c ?s = Some u" and st: "tc_state u = READY \<or> tc_state u = RUNNING"
          by (auto simp: rtos_currentTask_def)
        let ?a = "upd_task ?c (task_setState RUNNING) ?s"
        let ?b = "upd_task ?c task_incrementExecutionCount ?a"
        have a: "rtos_ok (r_delayQueue ?s) ?a" by (rule rtos_ok_same [OF ok u st]) simp_all
        have ua: "rtos_task ?c ?a = Some (task_setState RUNNING u)" using u by simp
        have "rtos_ok (r_delayQueue ?s) ?b" by (rule rtos_ok_same [OF a ua]) simp_all
        then have b: "rtos_settled ?b" using s by (simp add: rtos_settled_def rtos_inv_def)
        have sb: "rtos_asleep i t ?a" "rtos_asleep i t ?b" using sl(1) ci by (simp_all add: rtos_asleep_def)
        have exec: "task_execute_ids prog (rtos_schedule_ids n prog) ?c (?a, w) = Some (r', w')"
          using run \<open>r_running r\<close> u st by (simp add: Let_def rtos_currentTask_def)
        show ?thesis
        proof (cases "\<exists>f. tc_function u = Some (UserTask f)")
          case False
          then have "r' = ?a \<or> r' = ?b"
            using exec u by (auto simp: task_execute_ids_def Let_def split: option.splits task_fn.splits)
          then show ?thesis using sb sl(2) by auto
        next
          case True
          then obtain f where "Option.bind (rtos_task ?c ?a) tc_function = Some (UserTask f)" using u by auto
          then have calls: "rtos_calls_ids (rtos_schedule_ids n prog) (fst (prog f w)) (?b, snd (prog f w)) = Some (r', w')"
            using exec by (simp add: task_execute_ids_def Let_def split: prod.splits)
          have none: "count_list (fst (prog f w)) TickRtos = 0"
            using prog [of _ f w] by (auto simp: count_list_0_iff lets_sleep_def)
          have "rtos_asleep i t r' \<and> rtos_settled r' \<and>
              unat (r_tickCount r') = unat (r_tickCount ?b) + count_list (fst (prog f w)) TickRtos"
            by (rule sleeping.calls_asleep [OF Suc.IH b sb(2) _ calls])
              (use prog [of _ f w] none sb(2) in \<open>auto simp: lets_sleep_def rtos_asleep_def word_less_nat_alt\<close>)
          then show ?thesis using none sl(2) by simp
        qed
      next
        case False
        then have "r' = ?s"
          using run \<open>r_running r\<close> by (auto simp: Let_def split: option.splits if_splits)
        then show ?thesis using sl by simp
      qed
    next
      case False
      then show ?thesis using run asleep by simp
    qed
  qed
qed

interpretation sleep: sleeping "rtos_schedule_ids n (restrict_calls (lets_sleep i) prog)" i t for n prog i t
  by (rule rtos_schedule_sleeping) (simp add: restrict_calls_def)

lemma rtos_tick_wakes:
  assumes "rtos_settled r" and "rtos_asleep i t r" and "r_tickCount r + 1 = tc_delayUntilTick t"
  shows "rtos_task i (rtos_tick r) = Some (task_setState READY t)"
    and "i \<in> set (rq_at (r_readyQueue (rtos_tick r)) (tc_priority t))"
proof -
  have inv: "rtos_inv r" using assms(1) by (simp add: rtos_settled_def)
  have ok: "rtos_ok (r_delayQueue (rtos_tick r)) (rtos_tick r)"
    using rtos_tick_inv [OF inv] by (simp add: rtos_inv_def)
  show wake: "rtos_task i (rtos_tick r) = Some (task_setState READY t)"
    using rtos_process_tasks [OF rtos_ticked_inv [OF inv], of i] assms(2,3)
    by (simp add: rtos_tick_def rtos_asleep_def)
  show "i \<in> set (rq_at (r_readyQueue (rtos_tick r)) (tc_priority t))"
    using rtos_okD(6) [OF ok, of i "tc_priority t"] wake by simp
qed

lemma rtos_delay_prepare_asleep:
  assumes "rtos_settled r" and "rtos_currentTask r = Some t" and "0 < d"
    and "unat (r_tickCount r) + unat d < 2 ^ 64"
  shows "rtos_asleep (r_currentTaskId r) (task_setDelayUntilTick (r_tickCount r + d) (task_setState BLOCKED t))
    (rtos_delay_prepare d r)"
    and "unat (r_tickCount r + d) = unat (r_tickCount r) + unat d"
proof -
  show sum: "unat (r_tickCount r + d) = unat (r_tickCount r) + unat d"
    using assms(4) by (simp add: unat_word_ariths)
  then have "r_tickCount r < r_tickCount r + d" using assms(3) by (simp add: word_less_nat_alt)
  then show "rtos_asleep (r_currentTaskId r) (task_setDelayUntilTick (r_tickCount r + d) (task_setState BLOCKED t))
    (rtos_delay_prepare d r)"
    using assms(2) by (simp add: rtos_asleep_def rtos_delay_prepare_def rtos_currentTask_def Let_def)
qed


section \<open>Schedules that return\<close>

text \<open>The tasks that may run before the next tick, and all there are.\<close>

definition rtos_live :: "rtos \<Rightarrow> u32 set" where
  "rtos_live r = {i. \<exists>t. rtos_task i r = Some t \<and>
     (tc_state t = READY \<or> tc_state t = RUNNING \<or> tc_state t = BLOCKED \<and> tc_delayUntilTick t \<le> r_tickCount r)}"

definition rtos_ids :: "rtos \<Rightarrow> u32 set" where
  "rtos_ids r = {i. rtos_task i r \<noteq> None}"

definition rtos_within :: "rtos \<Rightarrow> rtos \<Rightarrow> bool" where
  "rtos_within r r' \<longleftrightarrow> rtos_live r' \<subseteq> rtos_live r \<and> rtos_ids r' \<subseteq> rtos_ids r \<and>
     r_tickCount r' = r_tickCount r \<and> r_nextTaskId r' = r_nextTaskId r"

definition rtos_at_front :: "rtos \<Rightarrow> bool" where
  "rtos_at_front r \<longleftrightarrow> (r_running r \<longrightarrow> r_currentTaskId r \<in> rtos_live r \<or> rtos_live r = {})"

lemma rtos_ids_finite [simp]: "finite (rtos_ids r)" "card (rtos_ids r) \<le> rtos_taskCount r"
proof -
  have "rtos_ids r = fst ` set (r_tasks r)" by (auto simp: rtos_ids_def rtos_task_def map_of_eq_None_iff)
  then show "finite (rtos_ids r)" "card (rtos_ids r) \<le> rtos_taskCount r"
    using card_length [of "map fst (r_tasks r)"] by (simp_all add: rtos_taskCount_def)
qed

lemma rtos_live_ids: "rtos_live r \<subseteq> rtos_ids r"
  by (auto simp: rtos_live_def rtos_ids_def)

lemma rtos_live_finite [simp]: "finite (rtos_live r)"
  by (rule finite_subset [OF rtos_live_ids]) simp

lemma rtos_live_card: "card (rtos_live r) \<le> card (rtos_ids r)"
  by (rule card_mono [OF rtos_ids_finite(1) rtos_live_ids])

lemma rtos_within_trans [trans]: "rtos_within r s \<Longrightarrow> rtos_within s t \<Longrightarrow> rtos_within r t"
  by (auto simp: rtos_within_def)

lemma rtos_within_refl [simp]: "rtos_within r r"
  by (simp add: rtos_within_def)

lemma rtos_live_fields [simp]:
  "rtos_live (r\<lparr>r_readyQueue := q\<rparr>) = rtos_live r" "rtos_live (r\<lparr>r_delayQueue := d\<rparr>) = rtos_live r"
  "rtos_live (r\<lparr>r_currentTaskId := c\<rparr>) = rtos_live r" "rtos_live (r\<lparr>r_running := b\<rparr>) = rtos_live r"
  "rtos_ids (r\<lparr>r_readyQueue := q\<rparr>) = rtos_ids r" "rtos_ids (r\<lparr>r_delayQueue := d\<rparr>) = rtos_ids r"
  "rtos_ids (r\<lparr>r_currentTaskId := c\<rparr>) = rtos_ids r" "rtos_ids (r\<lparr>r_running := b\<rparr>) = rtos_ids r"
  "rtos_ids (upd_task i f r) = rtos_ids r"
  by (auto simp: rtos_live_def rtos_ids_def)

lemma rtos_live_same:
  assumes "rtos_task i r = Some t" and "tc_state t = READY \<or> tc_state t = RUNNING"
    and "tc_state (f t) = READY \<or> tc_state (f t) = RUNNING"
  shows "rtos_live (upd_task i f r) = rtos_live r"
  using assms by (auto simp: rtos_live_def)

lemma rtos_process_live:
  assumes "rtos_inv r"
  shows "rtos_live (rtos_processDelayQueue r) = rtos_live r" and "rtos_ids (rtos_processDelayQueue r) = rtos_ids r"
proof -
  note tasks = rtos_process_tasks [OF assms] and tick = rtos_process_inv(3) [OF assms]
  show "rtos_ids (rtos_processDelayQueue r) = rtos_ids r" by (auto simp: rtos_ids_def tasks)
  have "i \<in> rtos_live (rtos_processDelayQueue r) \<longleftrightarrow> i \<in> rtos_live r" for i
    by (cases "rtos_task i r") (auto simp: rtos_live_def tasks tick)
  then show "rtos_live (rtos_processDelayQueue r) = rtos_live r" by blast
qed

lemma rtos_pick_live:
  assumes inv: "rtos_inv r" and pick: "rtos_pickNextTask (rtos_processDelayQueue r) = (k, b)"
  shows "k \<in> rtos_live r \<or> rtos_live r = {}"
proof -
  let ?a = "rtos_processDelayQueue r"
  have ok: "rtos_ok (r_delayQueue ?a) ?a" using rtos_process_inv(1) [OF inv] by (simp add: rtos_inv_def)
  obtain q where q: "rq_pick (r_readyQueue ?a) = (k, q)" using pick by (auto simp: rtos_pickNextTask_def split: prod.splits)
  have due: "\<not> tc_delayUntilTick t \<le> r_tickCount r" if "rtos_task i ?a = Some t" "tc_state t = BLOCKED" for i t
    using that rtos_process_tasks [OF inv, of i] by (cases "rtos_task i r") (auto split: if_splits)
  consider "r_readyQueue ?a = []" | p where "k \<in> set (rq_at (r_readyQueue ?a) p)"
    using rq_pick_spec [OF rtos_okD(1) [OF ok] q] by (metis list.set_sel(1))
  then show ?thesis
  proof cases
    case 1
    then have "tc_state t \<noteq> READY \<and> tc_state t \<noteq> RUNNING" if "rtos_task i ?a = Some t" for i t
      using rtos_okD(6) [OF ok, of i "tc_priority t"] that by auto
    then have "rtos_live ?a = {}" using due rtos_process_inv(3) [OF inv] by (fastforce simp: rtos_live_def)
    then show ?thesis by (simp add: rtos_process_live [OF inv])
  next
    case 2
    then have "k \<in> rtos_live ?a" using rtos_okD(6) [OF ok] by (auto simp: rtos_live_def)
    then show ?thesis by (simp add: rtos_process_live [OF inv])
  qed
qed

lemma rtos_switch_live:
  assumes inv: "rtos_inv r"
  shows "rtos_live (rtos_switch r) = rtos_live r" and "rtos_within r (rtos_switch r)"
    and "r_currentTaskId (rtos_switch r) \<in> rtos_live r \<or> rtos_live r = {}"
proof -
  let ?a = "rtos_processDelayQueue r"
  obtain k b where pick: "rtos_pickNextTask ?a = (k, b)" by (cases "rtos_pickNextTask ?a")
  note a = rtos_process_live [OF inv] rtos_process_inv(3,4) [OF inv]
  obtain q where "b = ?a\<lparr>r_readyQueue := q\<rparr>" using pick by (auto simp: rtos_pickNextTask_def split: prod.splits)
  then have b: "rtos_live b = rtos_live r" "rtos_ids b = rtos_ids r" "r_tickCount b = r_tickCount r" "r_nextTaskId b = r_nextTaskId r"
    using a by simp_all
  define c where "c = (if r_currentTaskId b \<noteq> k
    then (case rtos_currentTask b of None \<Rightarrow> b
      | Some t \<Rightarrow> if tc_state t = RUNNING then upd_task (r_currentTaskId b) (task_setState READY) b else b)
    else b)"
  have sw: "rtos_switch r = c\<lparr>r_currentTaskId := k\<rparr>"
    by (simp add: rtos_switch_def pick c_def Let_def)
  have c: "rtos_live c = rtos_live r" "rtos_ids c = rtos_ids r" "r_tickCount c = r_tickCount r" "r_nextTaskId c = r_nextTaskId r"
    using b rtos_live_same [of "r_currentTaskId b" b _ "task_setState READY"]
    by (auto simp: c_def rtos_currentTask_def split: option.splits)
  show "rtos_live (rtos_switch r) = rtos_live r" "rtos_within r (rtos_switch r)" by (simp_all add: sw c rtos_within_def)
  show "r_currentTaskId (rtos_switch r) \<in> rtos_live r \<or> rtos_live r = {}"
    using rtos_pick_live [OF inv pick] by (simp add: sw)
qed

text \<open>
  The calls that a task may make without keeping the scheduler busy for ever: each takes a task out of those that may run.
  The bound is on the ticks of the scheduler.
\<close>

definition takes_leave :: "nat \<Rightarrow> rtos_call \<Rightarrow> bool" where
  "takes_leave m c = (case c of Delay d \<Rightarrow> 0 < d \<and> m + unat d < 2 ^ 64 | Suspend _ \<Rightarrow> True | Delete _ \<Rightarrow> True
     | StopRtos \<Rightarrow> True | _ \<Rightarrow> False)"

lemma rtos_delay_live:
  assumes "0 < d" and "unat (r_tickCount r) + unat d < 2 ^ 64"
  shows "rtos_live (rtos_delay_prepare d r) = rtos_live r - {r_currentTaskId r}" and "rtos_within r (rtos_delay_prepare d r)"
proof -
  have "unat (r_tickCount r + d) = unat (r_tickCount r) + unat d" using assms(2) by (simp add: unat_word_ariths)
  then have late: "\<not> r_tickCount r + d \<le> r_tickCount r" using assms(1) by (simp add: word_le_nat_alt word_less_nat_alt)
  show live: "rtos_live (rtos_delay_prepare d r) = rtos_live r - {r_currentTaskId r}"
    using late by (auto simp: rtos_delay_prepare_def rtos_currentTask_def rtos_live_def Let_def split: option.splits)
  have "rtos_ids (rtos_delay_prepare d r) = rtos_ids r" "r_nextTaskId (rtos_delay_prepare d r) = r_nextTaskId r"
    by (auto simp: rtos_delay_prepare_def rtos_ids_def Let_def split: option.splits)
  then show "rtos_within r (rtos_delay_prepare d r)" by (auto simp: rtos_within_def live)
qed

lemma rtos_suspend_live:
  "rtos_live (rtos_suspend_prepare i r) = rtos_live r - {i}" "rtos_within r (rtos_suspend_prepare i r)"
proof -
  show live: "rtos_live (rtos_suspend_prepare i r) = rtos_live r - {i}"
    by (auto simp: rtos_suspend_prepare_def rtos_live_def Let_def)
  have "rtos_ids (rtos_suspend_prepare i r) = rtos_ids r" "r_nextTaskId (rtos_suspend_prepare i r) = r_nextTaskId r"
    by (auto simp: rtos_suspend_prepare_def rtos_ids_def Let_def)
  then show "rtos_within r (rtos_suspend_prepare i r)" by (auto simp: rtos_within_def live)
qed

lemma rtos_delete_live:
  "rtos_live (rtos_delete_prepare i r) = rtos_live r - {i}" "rtos_within r (rtos_delete_prepare i r)"
proof -
  have tasks: "rtos_task j (rtos_delete_prepare i r) = (if j = i then None else rtos_task j r)" for j
    by (simp add: rtos_delete_prepare_def rtos_task_def delete_conv')
  show live: "rtos_live (rtos_delete_prepare i r) = rtos_live r - {i}"
    by (auto simp: rtos_live_def tasks)
  have "r_nextTaskId (rtos_delete_prepare i r) = r_nextTaskId r" by (simp add: rtos_delete_prepare_def Let_def)
  then show "rtos_within r (rtos_delete_prepare i r)" by (auto simp: rtos_within_def live rtos_ids_def tasks)
qed

text \<open>
  The contract of a \<open>schedule\<close> of depth \<open>n\<close>: up to tick \<open>m\<close> it returns when fewer than \<open>n\<close> tasks may run, and lets no more
  of them run; stopped, it does nothing.
\<close>

locale returning = scheduling sch
  for sch :: "'w rtos_st \<Rightarrow> 'w rtos_st option" +
  fixes n m :: nat
  assumes returns: "rtos_inv r \<Longrightarrow> r_running r \<or> rtos_settled r \<Longrightarrow> unat (r_tickCount r) \<le> m \<Longrightarrow>
    card (rtos_live r) < n \<Longrightarrow> \<exists>r' w'. sch (r, w) = Some (r', w') \<and> rtos_within r r' \<and> rtos_at_front r'"
    and stopped: "\<not> r_running r \<Longrightarrow> sch (r, w) = Some (r, w)"
begin

lemma returns_after:
  assumes "rtos_inv p" and "r_running p \<or> rtos_settled p" and "rtos_within r p" and "unat (r_tickCount r) \<le> m"
    and "card (rtos_live p) < n"
  shows "\<exists>r' w'. sch (p, w) = Some (r', w') \<and> rtos_within r r' \<and> rtos_at_front r'"
  using returns [OF assms(1,2) _ assms(5), of w] assms(3,4) rtos_within_trans [OF assms(3)] by (auto simp: rtos_within_def)

lemma fewer_live:
  assumes "rtos_at_front r" and "r_running r" and "card (rtos_live r) \<le> n" and "0 < n"
  shows "card (rtos_live r - {r_currentTaskId r}) < n"
proof (cases "r_currentTaskId r \<in> rtos_live r")
  case True
  then show ?thesis using assms(3) card_Diff1_less [OF rtos_live_finite True] by simp
next
  case False
  then show ?thesis using assms by (simp add: rtos_at_front_def)
qed

lemma still_at_front: "rtos_at_front r \<Longrightarrow> i \<noteq> r_currentTaskId r \<Longrightarrow> rtos_live p = rtos_live r - {i} \<Longrightarrow>
    r_running p = r_running r \<Longrightarrow> r_currentTaskId p = r_currentTaskId r \<Longrightarrow> rtos_at_front p"
  by (auto simp: rtos_at_front_def)

lemma suspend_returns:
  assumes s: "rtos_settled r" and front: "rtos_at_front r" and tick: "unat (r_tickCount r) \<le> m"
    and few: "card (rtos_live r) \<le> n" "0 < n"
  shows "\<exists>b r' w'. rtos_suspendTask sch i (r, w) = Some (b, r', w') \<and> rtos_within r r' \<and> rtos_at_front r'"
proof (cases "rtos_task i r")
  case None
  then show ?thesis using front by (simp add: rtos_suspendTask_def ex_bool_eq)
next
  case (Some t)
  let ?p = "rtos_suspend_prepare i r"
  have inv: "rtos_inv r" using s by (simp add: rtos_settled_def)
  note p = rtos_suspend_prepare_inv [OF inv Some] and live = rtos_suspend_live [where i = i and r = r]
  show ?thesis
  proof (cases "i = r_currentTaskId r \<and> r_running r")
    case True
    have "card (rtos_live ?p) < n" unfolding live(1) using fewer_live [OF front _ few] True by simp
    moreover have "rtos_suspendTask sch i (r, w) = map_option (Pair True) (sch (?p, w))"
      using True Some p(2,3) by (simp add: rtos_suspendTask_def Let_def)
    ultimately show ?thesis using returns_after [OF p(1) _ live(2) tick, of w] p(2) True by auto
  next
    case False
    have "rtos_at_front ?p"
      using False still_at_front [OF front _ live(1) p(2,3)] p(2) by (auto simp: rtos_at_front_def)
    then show ?thesis using False Some live(2) p(2,3) by (auto simp: rtos_suspendTask_def Let_def)
  qed
qed

lemma delete_returns:
  assumes s: "rtos_settled r" and front: "rtos_at_front r" and tick: "unat (r_tickCount r) \<le> m"
    and few: "card (rtos_live r) \<le> n" "0 < n"
  shows "\<exists>b r' w'. rtos_deleteTask sch i (r, w) = Some (b, r', w') \<and> rtos_within r r' \<and> rtos_at_front r'"
proof (cases "i = IDLE_TASK_ID \<or> rtos_task i r = None")
  case True
  then show ?thesis using front by (auto simp: rtos_deleteTask_def)
next
  case False
  then obtain t where t: "rtos_task i r = Some t" and i: "i \<noteq> IDLE_TASK_ID" by auto
  let ?p = "rtos_delete_prepare i r" and ?q = "(rtos_delete_prepare i r)\<lparr>r_currentTaskId := IDLE_TASK_ID\<rparr>"
  have inv: "rtos_inv r" using s by (simp add: rtos_settled_def)
  note p = rtos_delete_prepare_inv [OF inv t i] and live = rtos_delete_live [where i = i and r = r]
  have ok: "rtos_ok (r_delayQueue ?p) ?p" using p(1) by (simp add: rtos_inv_def)
  show ?thesis
  proof (cases "r_currentTaskId r = i")
    case True
    have "rtos_ok (r_delayQueue ?p) ?q"
      using rtos_okD(8) [OF ok] p(2,4) True by (intro rtos_ok_current [OF ok]) fastforce
    then have q: "rtos_settled ?q" "rtos_inv ?q" using rtos_okD(5) [OF ok] by (simp_all add: rtos_settled_def rtos_inv_def)
    have run: "rtos_deleteTask sch i (r, w) = map_option (Pair True) (sch (?q, w))"
      using t i True by (simp add: rtos_deleteTask_def Let_def p(4))
    have "rtos_within r ?q" using live(2) by (simp add: rtos_within_def)
    moreover have "card (rtos_live ?q) < n" if "r_running r"
      using fewer_live [OF front that few] True by (simp add: live(1))
    ultimately show ?thesis
      using returns_after [OF q(2) _ _ tick, of w] q(1) run stopped [of ?q w] p(3)
      by (cases "r_running r") (auto simp: rtos_at_front_def)
  next
    case False
    then have "rtos_at_front ?p" using still_at_front [OF front _ live(1) p(3,4)] by auto
    then show ?thesis using False t i live(2) p(4) by (auto simp: rtos_deleteTask_def Let_def)
  qed
qed

lemma do_returns:
  assumes s: "rtos_settled r" and front: "rtos_at_front r" and tick: "unat (r_tickCount r) \<le> m"
    and few: "card (rtos_live r) \<le> n" "0 < n" and c: "takes_leave m c"
  shows "\<exists>r' w'. rtos_do sch c (r, w) = Some (r', w') \<and> rtos_within r r' \<and> rtos_at_front r'"
proof (cases c)
  case (Delay d)
  show ?thesis
  proof (cases "r_running r \<and> r_currentTaskId r \<noteq> IDLE_TASK_ID")
    case True
    let ?p = "rtos_delay_prepare d r"
    have "0 < d" "unat (r_tickCount r) + unat d < 2 ^ 64" using c tick by (simp_all add: Delay takes_leave_def)
    note live = rtos_delay_live [OF this]
    note p = rtos_delay_prepare_inv [OF s, of d]
    have "card (rtos_live ?p) < n" using fewer_live [OF front _ few] True by (simp add: live(1))
    from returns_after [OF p(1) _ live(2) tick this, of w] p(2) True show ?thesis
      by (auto simp: Delay rtos_delay_def)
  qed (use front in \<open>auto simp: Delay rtos_delay_def\<close>)
next
  case (Suspend i)
  then show ?thesis using suspend_returns [OF s front tick few, of i w] by auto
next
  case (Delete i)
  then show ?thesis using delete_returns [OF s front tick few, of i w] by auto
next
  case StopRtos
  then show ?thesis by (simp add: rtos_stop_def rtos_within_def rtos_at_front_def)
qed (use c in \<open>simp_all add: takes_leave_def\<close>)

lemma calls_return:
  assumes "rtos_settled r" and "rtos_at_front r" and "unat (r_tickCount r) \<le> m"
    and "card (rtos_live r) \<le> n" and "0 < n" and "\<forall>c \<in> set cs. takes_leave m c"
  shows "\<exists>r' w'. rtos_calls_ids sch cs (r, w) = Some (r', w') \<and> rtos_within r r' \<and> rtos_at_front r'"
  using assms
proof (induction cs arbitrary: r w)
  case (Cons c cs)
  have c: "takes_leave m c" using Cons.prems(6) by simp
  then have left: "id_left c r" by (auto simp: takes_leave_def id_left_def split: rtos_call.splits)
  obtain r1 w1 where r1: "rtos_do sch c (r, w) = Some (r1, w1)" "rtos_within r r1" "rtos_at_front r1"
    using do_returns [OF Cons.prems(1-5) c] by blast
  have "card (rtos_live r1) \<le> card (rtos_live r)" using r1(2) by (intro card_mono) (simp_all add: rtos_within_def)
  then have few: "card (rtos_live r1) \<le> n" using Cons.prems(4) by simp
  have tick: "unat (r_tickCount r1) \<le> m" using r1(2) Cons.prems(3) by (simp add: rtos_within_def)
  obtain r2 w2 where "rtos_calls_ids sch cs (r1, w1) = Some (r2, w2)" "rtos_within r1 r2" "rtos_at_front r2"
    using Cons.IH [OF do_settled [OF Cons.prems(1) r1(1) left] r1(3) tick few Cons.prems(5), of w1] Cons.prems(6) by auto
  then show ?case using r1 left rtos_within_trans [OF r1(2)] by auto
qed simp

end

lemma rtos_schedule_returning:
  fixes prog :: "nat \<Rightarrow> 'w \<Rightarrow> rtos_call list \<times> 'w"
  assumes prog: "\<And>f w c. c \<in> set (fst (prog f w)) \<Longrightarrow> takes_leave m c"
  shows "returning (rtos_schedule_ids n prog) n m"
proof (induction n)
  case 0
  show ?case by (intro returning.intro rtos_schedule_settles returning_axioms.intro) simp_all
next
  case (Suc n)
  show ?case
  proof (intro returning.intro rtos_schedule_settles returning_axioms.intro)
    fix r :: rtos and w :: 'w
    assume inv: "rtos_inv r" and tick: "unat (r_tickCount r) \<le> m" and few: "card (rtos_live r) < Suc n"
    show "\<exists>r' w'. rtos_schedule_ids (Suc n) prog (r, w) = Some (r', w') \<and> rtos_within r r' \<and> rtos_at_front r'"
    proof (cases "r_running r")
      case True
      let ?s = "rtos_switch r"
      let ?c = "r_currentTaskId ?s"
      note live = rtos_switch_live [OF inv]
      have s: "rtos_settled ?s" by (rule rtos_switch_settled(1) [OF inv])
      have front: "rtos_at_front ?s" using live(1,3) by (simp add: rtos_at_front_def)
      show ?thesis
      proof (cases "\<exists>t. rtos_currentTask ?s = Some t \<and> (tc_state t = READY \<or> tc_state t = RUNNING)")
        case False
        then have "rtos_schedule_ids (Suc n) prog (r, w) = Some (?s, w)"
          using True by (auto simp: Let_def split: option.splits)
        then show ?thesis using live(2) front by blast
      next
        case ready: True
        then obtain t where t: "rtos_task ?c ?s = Some t" and st: "tc_state t = READY \<or> tc_state t = RUNNING"
          by (auto simp: rtos_currentTask_def)
        let ?a = "upd_task ?c (task_setState RUNNING) ?s"
        let ?b = "upd_task ?c task_incrementExecutionCount ?a"
        have ok: "rtos_ok (r_delayQueue ?s) ?s" using s by (simp add: rtos_settled_def rtos_inv_def)
        have a: "rtos_ok (r_delayQueue ?s) ?a" by (rule rtos_ok_same [OF ok t st]) simp_all
        have ta: "rtos_task ?c ?a = Some (task_setState RUNNING t)" using t by simp
        have "rtos_ok (r_delayQueue ?s) ?b" by (rule rtos_ok_same [OF a ta]) simp_all
        then have b: "rtos_settled ?b" using s by (simp add: rtos_settled_def rtos_inv_def)
        have la: "rtos_live ?a = rtos_live r" using rtos_live_same [OF t st, of "task_setState RUNNING"] live(1) by simp
        have lb: "rtos_live ?b = rtos_live r"
          using rtos_live_same [OF ta, of task_incrementExecutionCount] la by simp
        have within: "rtos_within r ?a" "rtos_within r ?b" using live(2) la lb by (simp_all add: rtos_within_def)
        have fronts: "rtos_at_front ?a" "rtos_at_front ?b" using front live(1) la lb by (simp_all add: rtos_at_front_def)
        have "?c \<in> rtos_live ?b" using t st by (auto simp: rtos_live_def)
        then have "0 < card (rtos_live ?b)" by (auto simp: card_gt_0_iff)
        then have pos: "0 < n" "card (rtos_live ?b) \<le> n" using few lb by simp_all
        have tb: "unat (r_tickCount ?b) \<le> m" using within(2) tick by (simp add: rtos_within_def)
        have run: "rtos_schedule_ids (Suc n) prog (r, w) = task_execute_ids prog (rtos_schedule_ids n prog) ?c (?a, w)"
          using True t st by (simp add: Let_def rtos_currentTask_def)
        show ?thesis
        proof (cases "\<exists>f. tc_function t = Some (UserTask f)")
          case False
          then show ?thesis
            using run t within fronts
            by (auto simp: task_execute_ids_def Let_def split: option.splits task_fn.splits)
        next
          case True
          then obtain f where "Option.bind (rtos_task ?c ?a) tc_function = Some (UserTask f)" using t by auto
          then have "rtos_schedule_ids (Suc n) prog (r, w) =
              rtos_calls_ids (rtos_schedule_ids n prog) (fst (prog f w)) (?b, snd (prog f w))"
            unfolding run task_execute_ids_def by (simp add: Let_def split: prod.splits)
          moreover obtain r' w' where "rtos_calls_ids (rtos_schedule_ids n prog) (fst (prog f w)) (?b, snd (prog f w)) = Some (r', w')"
            "rtos_within ?b r'" "rtos_at_front r'"
            using returning.calls_return [OF Suc.IH b fronts(2) tb pos(2,1)] prog by blast
          ultimately show ?thesis using rtos_within_trans [OF within(2)] by auto
        qed
      qed
    qed (simp add: rtos_at_front_def)
  qed simp
qed

interpretation brief: returning "rtos_schedule_ids n (restrict_calls (takes_leave m) prog)" n m for n m prog
  by (rule rtos_schedule_returning) (simp add: restrict_calls_def)

text \<open>What one call of the program around the scheduler does to the tasks there are, to the ticks and to the identifiers.\<close>

definition creates :: "rtos_call list \<Rightarrow> nat" where
  "creates cs = length (filter (\<lambda>c. case c of Create _ _ _ _ \<Rightarrow> True | _ \<Rightarrow> False) cs)"

definition rtos_grows :: "rtos_call \<Rightarrow> rtos \<Rightarrow> rtos \<Rightarrow> bool" where
  "rtos_grows c r r' \<longleftrightarrow> card (rtos_ids r') \<le> card (rtos_ids r) + creates [c] \<and>
     unat (r_tickCount r') \<le> unat (r_tickCount r) + count_list [c] TickRtos \<and>
     unat (r_nextTaskId r') \<le> unat (r_nextTaskId r) + creates [c]"

lemma rtos_prepare_ids [simp]:
  "rtos_ids (rtos_yield_prepare r) = rtos_ids r" "rtos_ids (rtos_delay_prepare k r) = rtos_ids r"
  "rtos_ids (snd (rtos_resumeTask i r)) = rtos_ids r"
  "r_nextTaskId (rtos_yield_prepare r) = r_nextTaskId r" "r_nextTaskId (rtos_delay_prepare k r) = r_nextTaskId r"
  "r_nextTaskId (snd (rtos_resumeTask i r)) = r_nextTaskId r"
  by (auto simp: rtos_yield_prepare_def rtos_delay_prepare_def rtos_resumeTask_def rtos_ids_def Let_def split: option.splits)

context returning
begin

lemma grows_after:
  assumes "rtos_inv p" and "r_running p \<or> rtos_settled p" and "card (rtos_ids r) < n" and "unat (r_tickCount r) \<le> m"
    and p: "rtos_ids p \<subseteq> rtos_ids r" "r_tickCount p = r_tickCount r" "r_nextTaskId p = r_nextTaskId r"
  shows "\<exists>r' w'. sch (p, w) = Some (r', w') \<and> rtos_grows c r r'"
proof -
  have "card (rtos_ids p) \<le> card (rtos_ids r)" by (rule card_mono [OF rtos_ids_finite(1) p(1)])
  then have "card (rtos_live p) < n" using rtos_live_card [of p] assms(3) by linarith
  then obtain r' w' where r': "sch (p, w) = Some (r', w')" "rtos_within p r'"
    using returns [OF assms(1,2)] assms(4) p(2) by metis
  then have "rtos_ids r' \<subseteq> rtos_ids r" using p(1) by (auto simp: rtos_within_def)
  then have "card (rtos_ids r') \<le> card (rtos_ids r)" by (rule card_mono [OF rtos_ids_finite(1)])
  then show ?thesis using r' p by (auto simp: rtos_grows_def rtos_within_def)
qed

lemma do_grows:
  assumes s: "rtos_settled r" and few: "card (rtos_ids r) < n" and tick: "unat (r_tickCount r) \<le> m"
  shows "\<exists>r' w'. rtos_do sch c (r, w) = Some (r', w') \<and> rtos_grows c r r'"
proof -
  have inv: "rtos_inv r" using s by (simp add: rtos_settled_def)
  have self: "rtos_grows c r r" by (simp add: rtos_grows_def)
  have ids: "rtos_grows c r r'" if "rtos_ids r' \<subseteq> rtos_ids r" "r_tickCount r' = r_tickCount r" "r_nextTaskId r' = r_nextTaskId r" for r'
    using card_mono [OF rtos_ids_finite(1) that(1)] that(2,3) by (simp add: rtos_grows_def)
  note after = grows_after [OF _ _ few tick]
  show ?thesis
  proof (cases c)
    case Yield
    show ?thesis
      using self after [of "rtos_yield_prepare r" w c] rtos_yield_prepare_inv [OF inv]
      by (cases "r_running r") (simp_all add: Yield rtos_yield_def)
  next
    case (Delay k)
    show ?thesis
      using self after [of "rtos_delay_prepare k r" w c] rtos_delay_prepare_inv [OF s, of k]
      by (cases "r_running r \<and> r_currentTaskId r \<noteq> IDLE_TASK_ID") (auto simp: Delay rtos_delay_def)
  next
    case (Suspend i)
    show ?thesis
    proof (cases "rtos_task i r")
      case (Some t)
      note p = rtos_suspend_prepare_inv [OF inv Some] and live = rtos_suspend_live(2) [of r i]
      have "rtos_ids (rtos_suspend_prepare i r) \<subseteq> rtos_ids r" "r_nextTaskId (rtos_suspend_prepare i r) = r_nextTaskId r"
        using live by (simp_all add: rtos_within_def)
      then show ?thesis
        using after [of "rtos_suspend_prepare i r" w c] p ids [of "rtos_suspend_prepare i r"] Some
        by (cases "i = r_currentTaskId r \<and> r_running r") (auto simp: Suspend rtos_suspendTask_def Let_def)
    qed (simp add: Suspend rtos_suspendTask_def self [unfolded Suspend])
  next
    case (Delete i)
    show ?thesis
    proof (cases "i = IDLE_TASK_ID \<or> rtos_task i r = None")
      case False
      then obtain t where t: "rtos_task i r = Some t" and i: "i \<noteq> IDLE_TASK_ID" by auto
      let ?p = "rtos_delete_prepare i r" and ?q = "(rtos_delete_prepare i r)\<lparr>r_currentTaskId := IDLE_TASK_ID\<rparr>"
      note p = rtos_delete_prepare_inv [OF inv t i] and live = rtos_delete_live(2) [of r i]
      have sub: "rtos_ids ?p \<subseteq> rtos_ids r" "r_tickCount ?p = r_tickCount r" "r_nextTaskId ?p = r_nextTaskId r"
        using live by (simp_all add: rtos_within_def)
      have ok: "rtos_ok (r_delayQueue ?p) ?p" using p(1) by (simp add: rtos_inv_def)
      show ?thesis
      proof (cases "r_currentTaskId r = i")
        case True
        have "rtos_ok (r_delayQueue ?p) ?q"
          using rtos_okD(8) [OF ok] p(2,4) True by (intro rtos_ok_current [OF ok]) fastforce
        then have "rtos_settled ?q" "rtos_inv ?q" using rtos_okD(5) [OF ok] by (simp_all add: rtos_settled_def rtos_inv_def)
        then show ?thesis using after [of ?q w c] sub t i True p(4) by (auto simp: Delete rtos_deleteTask_def Let_def)
      qed (use ids [of ?p] sub t i p(4) in \<open>simp add: Delete rtos_deleteTask_def Let_def\<close>)
    qed (use self in \<open>auto simp: Delete rtos_deleteTask_def\<close>)
  next
    case (Create name f p k)
    let ?r = "snd (rtos_createTask name (Some (UserTask f)) p k r)"
    have "rtos_ids ?r = insert (r_nextTaskId r) (rtos_ids r)"
      by (auto simp: rtos_createTask_def Let_def rtos_ids_def rtos_task_def update_conv')
    then have "card (rtos_ids ?r) \<le> Suc (card (rtos_ids r))" by (simp add: card_insert_if)
    moreover have "unat (r_nextTaskId r + 1) \<le> Suc (unat (r_nextTaskId r))" by (simp add: unat_word_ariths)
    ultimately show ?thesis by (simp add: Create rtos_grows_def creates_def) (simp add: rtos_createTask_def Let_def)
  next
    case TickRtos
    have "rtos_ids (rtos_tick r) = rtos_ids r"
      using rtos_process_live(2) [OF rtos_ticked_inv [OF inv]] by (simp add: rtos_tick_def) (simp add: rtos_ids_def)
    moreover have "unat (r_tickCount r + 1) \<le> Suc (unat (r_tickCount r))" by (simp add: unat_word_ariths)
    ultimately show ?thesis using rtos_tick_fields [OF inv] by (simp add: TickRtos rtos_grows_def creates_def) (simp add: rtos_tick_def rtos_process_inv(4) [OF rtos_ticked_inv [OF inv]])
  next
    case StartRtos
    then show ?thesis using ids [of "rtos_start r"] by (simp add: rtos_start_def rtos_ensureIdle_id [OF s])
  next
    case StopRtos
    then show ?thesis using ids [of "rtos_stop r"] by (simp add: rtos_stop_def)
  next
    case Schedule
    then show ?thesis using after [of r w c] inv s by simp
  qed (use ids in simp)
qed

lemma calls_return_outside:
  assumes "rtos_settled r" and "card (rtos_ids r) + creates cs < n" and "unat (r_tickCount r) + count_list cs TickRtos \<le> m"
    and "unat (r_nextTaskId r) + creates cs < 2 ^ 32"
  shows "rtos_calls_ids sch cs (r, w) \<noteq> None"
  using assms
proof (induction cs arbitrary: r w)
  case (Cons c cs)
  have split: "creates (c # cs) = creates [c] + creates cs"
    "count_list (c # cs) TickRtos = count_list [c] TickRtos + count_list cs TickRtos" by (simp_all add: creates_def)
  obtain r1 w1 where r1: "rtos_do sch c (r, w) = Some (r1, w1)" "rtos_grows c r r1"
    using do_grows [OF Cons.prems(1), of c w] Cons.prems(2,3) by auto
  have left: "id_left c r"
  proof (cases c)
    case (Create name f p k)
    then have "unat (r_nextTaskId r) + 1 < 2 ^ 32" using Cons.prems(4) by (simp add: creates_def)
    then have "unat (r_nextTaskId r + 1) = unat (r_nextTaskId r) + 1" by (simp add: unat_word_ariths)
    then have "r_nextTaskId r + 1 \<noteq> 0" by (metis add_is_0 unat_0 zero_neq_one)
    then show ?thesis by (simp add: Create id_left_def)
  qed (simp_all add: id_left_def)
  have g: "card (rtos_ids r1) \<le> card (rtos_ids r) + creates [c]"
    "unat (r_tickCount r1) \<le> unat (r_tickCount r) + count_list [c] TickRtos"
    "unat (r_nextTaskId r1) \<le> unat (r_nextTaskId r) + creates [c]"
    using r1(2) by (simp_all only: rtos_grows_def)
  have "rtos_calls_ids sch cs (r1, w1) \<noteq> None"
    by (rule Cons.IH [OF do_settled [OF Cons.prems(1) r1(1) left]]) (use g Cons.prems(2-4) [unfolded split] in linarith)+
  then show ?case using left r1(1) by simp
qed simp

end

text \<open>
  C23. Delays last as long as asked. The current task \<open>i\<close> of a running scheduler delays itself by \<open>d\<close>
  ticks, which the tick count can hold, and the program goes on with the calls \<open>cs\<close>, among them fewer than \<open>d\<close> ticks. Neither they nor the
  calls of the tasks that run meanwhile suspend or delete \<open>i\<close>, and the tasks do not tick the scheduler; all may create tasks, while
  identifiers are left. A run that returns leaves \<open>i\<close> blocked and not executed; when \<open>cs\<close> ticked
  \<open>d - 1\<close> times, the next tick makes \<open>i\<close> ready and puts it in the ready queue of its priority. And the run returns at
  every depth above the number of tasks there are and that \<open>cs\<close> creates, when all that the tasks ask of the scheduler are
  delays of a tick or more, suspensions, deletions and stops.
\<close>

theorem rtos_delay_exact:
  assumes "rtos_settled r" and "r_running r" and "i = r_currentTaskId r" and "i \<noteq> IDLE_TASK_ID"
    and "rtos_task i r = Some t" and "unat (r_tickCount r) + unat d < 2 ^ 64"
    and "\<And>f w c. c \<in> set (fst (prog f w)) \<Longrightarrow> lets_sleep i c"
    and "\<forall>c \<in> set cs. leaves_asleep i c" and "count_list cs TickRtos < unat d"
  shows "let run = rtos_calls_ids (rtos_schedule_ids n prog) (Delay d # cs) (r, w) in
    (run = Some (r', w') \<longrightarrow>
       rtos_calls (rtos_schedule n prog) (Delay d # cs) (r, w) = Some (r', w') \<and>
       map_option (\<lambda>t. (tc_state t, tc_executionCount t)) (rtos_task i r') = Some (BLOCKED, tc_executionCount t) \<and>
       (Suc (count_list cs TickRtos) = unat d \<longrightarrow>
          map_option tc_state (rtos_task i (rtos_tick r')) = Some READY \<and>
          i \<in> set (rq_at (r_readyQueue (rtos_tick r')) (tc_priority t)))) \<and>
    ((\<forall>f w. \<forall>c \<in> set (fst (prog f w)). takes_leave (unat (r_tickCount r) + unat d) c) \<and>
     rtos_taskCount r + creates cs < n \<and> unat (r_nextTaskId r) + creates cs < 2 ^ 32 \<longrightarrow> run \<noteq> None)"
  unfolding Let_def
proof (intro conjI impI)
  assume run: "rtos_calls_ids (rtos_schedule_ids n prog) (Delay d # cs) (r, w) = Some (r', w')"
  show "rtos_calls (rtos_schedule n prog) (Delay d # cs) (r, w) = Some (r', w')"
    by (rule rtos_calls_ids_same [OF rtos_schedule_ids_same run])
  let ?t = "task_setDelayUntilTick (r_tickCount r + d) (task_setState BLOCKED t)"
  let ?p = "rtos_delay_prepare d r"
  have sl: "sleeping (rtos_schedule_ids n prog) i ?t" by (rule rtos_schedule_sleeping) (rule assms(7))
  have d: "0 < d" using assms(9) by (metis gr_zeroI less_nat_zero_code unat_0 word_neq_0_conv)
  have cur: "rtos_currentTask r = Some t" using assms(3,5) by (simp add: rtos_currentTask_def)
  note p = rtos_delay_prepare_asleep [OF assms(1) cur d assms(6), folded assms(3)]
  note inv = rtos_delay_prepare_inv [OF assms(1) assms(4) [unfolded assms(3)], of d]
  obtain r1 w1 where first: "rtos_schedule_ids n prog (?p, w) = Some (r1, w1)"
    and calls: "rtos_calls_ids (rtos_schedule_ids n prog) cs (r1, w1) = Some (r', w')"
    using assms(2,3,4) run by (auto simp: rtos_delay_def bind_eq_Some_conv id_left_def)
  have on: "r_running ?p" using inv(2) assms(2) by simp
  have s1: "rtos_settled r1" using scheduling.settles [OF sleeping.axioms(1) [OF sl] inv(1)] on first by blast
  have a1: "rtos_asleep i ?t r1 \<and> r_tickCount r1 = r_tickCount ?p"
    using sleeping.sleeps [OF sl inv(1)] on p(1) first by blast
  have ticks: "unat (r_tickCount r1) + count_list cs TickRtos < unat (tc_delayUntilTick ?t)"
    using a1 assms(9) p(2) by simp
  have end': "rtos_asleep i ?t r'" "rtos_settled r'"
    "unat (r_tickCount r') = unat (r_tickCount r) + count_list cs TickRtos"
    using sleeping.calls_asleep [OF sl s1 _ assms(8) calls ticks] a1 by simp_all
  show "map_option (\<lambda>t. (tc_state t, tc_executionCount t)) (rtos_task i r') = Some (BLOCKED, tc_executionCount t)"
    using end'(1) by (simp add: rtos_asleep_def task_setState_def task_setDelayUntilTick_def)
  assume last: "Suc (count_list cs TickRtos) = unat d"
  have "r_tickCount r' \<noteq> - 1" using end'(1) by (auto simp: rtos_asleep_def)
  then have "unat (r_tickCount r' + 1) = unat (r_tickCount r + d)" using last end'(3) p(2) by (simp add: unat_plus_one)
  then have "r_tickCount r' + 1 = r_tickCount r + d" by (rule iffD2 [OF word_unat_eq_iff])
  then show "map_option tc_state (rtos_task i (rtos_tick r')) = Some READY"
    and "i \<in> set (rq_at (r_readyQueue (rtos_tick r')) (tc_priority t))"
    using rtos_tick_wakes [OF end'(2,1)] by simp_all
next
  let ?m = "unat (r_tickCount r) + unat d"
  assume short: "(\<forall>f w. \<forall>c \<in> set (fst (prog f w)). takes_leave ?m c) \<and>
     rtos_taskCount r + creates cs < n \<and> unat (r_nextTaskId r) + creates cs < 2 ^ 32"
  then have ret: "returning (rtos_schedule_ids n prog) n ?m" by (intro rtos_schedule_returning) blast
  have same: "creates (Delay d # cs) = creates cs" "count_list (Delay d # cs) TickRtos = count_list cs TickRtos"
    by (simp_all add: creates_def)
  show "rtos_calls_ids (rtos_schedule_ids n prog) (Delay d # cs) (r, w) \<noteq> None"
  proof (rule returning.calls_return_outside [OF ret assms(1)], unfold same)
    show "card (rtos_ids r) + creates cs < n" using short rtos_ids_finite(2) [of r] by linarith
    show "unat (r_tickCount r) + count_list cs TickRtos \<le> ?m" using assms(9) by linarith
    show "unat (r_nextTaskId r) + creates cs < 2 ^ 32" using short by blast
  qed
qed

definition rtos_delay_demo :: rtos where
  "rtos_delay_demo = rtos_pair_demo\<lparr>r_currentTaskId := 1\<rparr>"

lemma rtos_delay_demo_settled: "rtos_settled rtos_delay_demo"
proof -
  have s: "rtos_settled rtos_pair_demo" using rtos_pair_demo_at_work by (simp add: rtos_at_work_def)
  have ok: "rtos_ok [] rtos_delay_demo"
    unfolding rtos_delay_demo_def
    by (rule rtos_ok_current) (use s in \<open>auto simp: rtos_settled_def rtos_inv_def rtos_demo_defs split: if_splits\<close>)
  have "r_delayQueue rtos_delay_demo = []" by (simp add: rtos_delay_demo_def rtos_demo_defs)
  with ok show ?thesis by (simp add: rtos_settled_def rtos_inv_def)
qed

text \<open>The other task delays itself as well, and the program creates a third.\<close>

theorem rtos_delay_exact_witness:
  "\<exists>r'. rtos_calls (rtos_schedule 5 (\<lambda>f w. ([Delay 3], w))) [Delay 2, Create ''c'' 2 1 512, TickRtos] (rtos_delay_demo, ()) = Some (r', ()) \<and>
     map_option tc_state (rtos_task 1 r') = Some BLOCKED \<and>
     map_option tc_state (rtos_task 1 (rtos_tick r')) = Some READY"
proof -
  let ?prog = "\<lambda>f w. ([Delay 3], w)" and ?cs = "[Create ''c'' 2 1 512, TickRtos]"
  obtain t where t: "rtos_task 1 rtos_delay_demo = Some t"
    by (simp add: rtos_delay_demo_def rtos_demo_defs)
  have demo: "r_running rtos_delay_demo" "r_currentTaskId rtos_delay_demo = 1" "r_tickCount rtos_delay_demo = 0"
    "rtos_taskCount rtos_delay_demo = 3" "r_nextTaskId rtos_delay_demo = 3" by code_simp+
  let ?run = "rtos_calls_ids (rtos_schedule_ids 5 ?prog) (Delay 2 # ?cs) (rtos_delay_demo, ())"
  have pre: "1 = r_currentTaskId rtos_delay_demo" "(1 :: u32) \<noteq> IDLE_TASK_ID" by (simp_all add: demo IDLE_TASK_ID_def)
  have tick: "unat (r_tickCount rtos_delay_demo) + unat (2 :: u64) < 2 ^ 64" by (simp add: demo)
  have outside: "\<forall>c \<in> set ?cs. leaves_asleep 1 c" "count_list ?cs TickRtos < unat (2 :: u64)" by (simp_all add: leaves_asleep_def)
  note exact = rtos_delay_exact [where prog = ?prog and n = 5 and w = "()" and w' = "()",
      OF rtos_delay_demo_settled demo(1) pre t tick _ outside, unfolded Let_def]
  have "?run \<noteq> None"
    by (rule exact [THEN conjunct2, rule_format])
      (simp_all add: demo takes_leave_def creates_def lets_sleep_def leaves_asleep_def)
  then obtain r' where run: "?run = Some (r', ())" by auto
  have "rtos_calls (rtos_schedule 5 ?prog) (Delay 2 # ?cs) (rtos_delay_demo, ()) = Some (r', ()) \<and>
     map_option (\<lambda>t. (tc_state t, tc_executionCount t)) (rtos_task 1 r') = Some (BLOCKED, tc_executionCount t) \<and>
     (Suc (count_list ?cs TickRtos) = unat (2 :: u64) \<longrightarrow> map_option tc_state (rtos_task 1 (rtos_tick r')) = Some READY \<and>
       1 \<in> set (rq_at (r_readyQueue (rtos_tick r')) (tc_priority t)))"
    by (rule exact [THEN conjunct1, THEN mp]) (simp_all only: run, simp add: lets_sleep_def leaves_asleep_def)
  then show ?thesis by (intro exI [of _ r']) (auto simp: option.map_comp o_def)
qed

end
