(* ===== verification/Example_Kit.thy ===== *)
theory Example_Kit
  imports Main_Program
begin

text \<open>
  What the programs under \<^verbatim>\<open>src/examples\<close> are written with: a machine with the standard output, statements
  that print, construct and call, and their sequence; and total-correctness triples over an abstraction of the
  machine, by which a program is executed on the specifications of its parts.
\<close>

section \<open>Programs\<close>

text \<open>The closures of a program may print, so the standard output is a part of the machine they act on.\<close>

record demo_st = bus_st +
  cout :: ostream

text \<open>The statements of a program, which stops at the first that throws or does not return.\<close>

fun steps :: "('s \<Rightarrow> (unit, 's) outcome option) list \<Rightarrow> 's \<Rightarrow> (unit, 's) outcome option" where
  "steps [] s = Some (ret () s)"
| "steps (p # ps) s = then_next (p s) (\<lambda>_. steps ps)"

text \<open>A statement about the machine, one about the machine and the applications, and a call whose result is dropped.\<close>

definition machine ::
  "('b \<Rightarrow> ('a, 'b) outcome) \<Rightarrow> ('w, 'b) computer \<Rightarrow> (unit, ('w, 'b) computer) outcome option" where
  "machine f c = Some (and_then (via_bus f c) (\<lambda>_. ret ()))"

definition apps ::
  "('w \<times> 'b \<Rightarrow> (unit, 'w \<times> 'b) outcome) \<Rightarrow> ('w, 'b) computer \<Rightarrow> (unit, ('w, 'b) computer) outcome option" where
  "apps f c = Some (case f (world c) of (r, ws) \<Rightarrow> (r, c\<lparr>world := ws\<rparr>))"

definition doing ::
  "(('w, 'b) computer \<Rightarrow> ('a, ('w, 'b) computer) outcome) \<Rightarrow> ('w, 'b) computer \<Rightarrow> (unit, ('w, 'b) computer) outcome option" where
  "doing f c = Some (and_then (f c) (\<lambda>_. ret ()))"

text \<open>Printing: fixed text, text that depends on the machine, and the result of a call.\<close>

definition say :: "out list \<Rightarrow> 'z demo_st_scheme \<Rightarrow> (unit, 'z demo_st_scheme) outcome" where
  "say outs s = ret () (s\<lparr>cout := puts outs (cout s)\<rparr>)"

definition say_of :: "('z demo_st_scheme \<Rightarrow> out list) \<Rightarrow> 'z demo_st_scheme \<Rightarrow> (unit, 'z demo_st_scheme) outcome" where
  "say_of f s = say (f s) s"

definition say_result ::
  "('z demo_st_scheme \<Rightarrow> ('a, 'z demo_st_scheme) outcome) \<Rightarrow> ('a \<Rightarrow> out list) \<Rightarrow>
   'z demo_st_scheme \<Rightarrow> (unit, 'z demo_st_scheme) outcome" where
  "say_result m f s = and_then (m s) (\<lambda>v. say (f v))"

definition print :: "out list \<Rightarrow> ('w, 'z demo_st_scheme) computer \<Rightarrow> (unit, ('w, 'z demo_st_scheme) computer) outcome option" where
  "print outs = machine (say outs)"

definition print_of ::
  "(('w, 'z demo_st_scheme) computer \<Rightarrow> out list) \<Rightarrow>
   ('w, 'z demo_st_scheme) computer \<Rightarrow> (unit, ('w, 'z demo_st_scheme) computer) outcome option" where
  "print_of f c = print (f c) c"

definition line :: "string \<Rightarrow> out" where
  "line s = Str (s @ nl)"

definition quoted :: "string \<Rightarrow> string" where
  "quoted s = [CHR 0x27] @ s @ [CHR 0x27]"

definition byte :: "char \<Rightarrow> u8" where
  "byte c = of_nat (of_char c)"

definition char_of_byte :: "u8 \<Rightarrow> char" where
  "char_of_byte b = char_of (unat b)"

text \<open>The constructors of the objects of a program, at the places the machine has for them.\<close>

definition new_mmio :: "'z mmio_st_scheme \<Rightarrow> (unit, 'z mmio_st_scheme) outcome" where
  "new_mmio s = ret () (s\<lparr>next_ref := 0, m_registers := []\<rparr>)"

definition new_memory :: "u64 \<Rightarrow> 'z dma_st_scheme \<Rightarrow> (unit, 'z dma_st_scheme) outcome" where
  "new_memory n s = ret () (s\<lparr>mem0 := memory_init n\<rparr>)"

definition new_gpio :: "address \<Rightarrow> 'z bus_st_scheme \<Rightarrow> (unit, 'z bus_st_scheme) outcome" where
  "new_gpio base s = and_then (gpio_init base s) (\<lambda>g s. ret () (s\<lparr>gpio0 := g\<rparr>))"

definition new_timer :: "nat \<Rightarrow> address \<Rightarrow> 'z timer_st_scheme \<Rightarrow> (unit, 'z timer_st_scheme) outcome" where
  "new_timer i base s = and_then (timer_init base s) (\<lambda>t s. ret () (upd_timer i (\<lambda>_. t) s))"

definition new_uart :: "address \<Rightarrow> u32 \<Rightarrow> 'z dma_st_scheme \<Rightarrow> (unit, 'z dma_st_scheme) outcome" where
  "new_uart base baud s = and_then (uart_init base baud s) (\<lambda>u s. ret () (s\<lparr>uart0 := u\<rparr>))"

definition new_ic :: "address \<Rightarrow> 'z irq_st_scheme \<Rightarrow> (unit, 'z irq_st_scheme) outcome" where
  "new_ic base s = and_then (ic_init base s) (\<lambda>c s. ret () (s\<lparr>ic := c\<rparr>))"

definition new_spi :: "address \<Rightarrow> u32 \<Rightarrow> u8 \<Rightarrow> 'z bus_st_scheme \<Rightarrow> (unit, 'z bus_st_scheme) outcome" where
  "new_spi base cdiv mode s = and_then (spi_init base cdiv mode s) (\<lambda>p s. ret () (s\<lparr>spi0 := p\<rparr>))"

definition new_i2c :: "address \<Rightarrow> u8 \<Rightarrow> 'z bus_st_scheme \<Rightarrow> (unit, 'z bus_st_scheme) outcome" where
  "new_i2c base a s = and_then (i2c_init base a s) (\<lambda>c s. ret () (s\<lparr>i2c0 := c\<rparr>))"

definition new_pwm :: "nat \<Rightarrow> address \<Rightarrow> u32 \<Rightarrow> u32 \<Rightarrow> u32 \<Rightarrow> 'z bus_st_scheme \<Rightarrow> (unit, 'z bus_st_scheme) outcome" where
  "new_pwm i base hz duty clk s = and_then (pwm_init i base hz duty clk s) (\<lambda>w s. ret () (s\<lparr>pwm0 := w\<rparr>))"

definition new_adc :: "address \<Rightarrow> u8 \<Rightarrow> real \<Rightarrow> nat \<Rightarrow> 'z bus_st_scheme \<Rightarrow> (unit, 'z bus_st_scheme) outcome" where
  "new_adc base bits vref n s = and_then (adc_init base bits vref n s) (\<lambda>a s. ret () (s\<lparr>adc0 := a\<rparr>))"

text \<open>
  \<^verbatim>\<open>Monitor::executeCommand\<close> on the standard output of the machine, for a command that only prints.
\<close>

definition monitor_command ::
  "monitor \<Rightarrow> ('w, 'z demo_st_scheme) environment \<Rightarrow> string \<Rightarrow>
   ('w, 'z demo_st_scheme) computer \<Rightarrow> (unit, ('w, 'z demo_st_scheme) computer) outcome option" where
  "monitor_command m e l c =
     (case mon_executeCommand m e 0 l (cout (snd (world c)), c) of
        None \<Rightarrow> None
      | Some (r, (os, c)) \<Rightarrow>
          Some (case r of Inl ex \<Rightarrow> Inl ex | Inr _ \<Rightarrow> Inr (),
                c\<lparr>world := (fst (world c), (snd (world c))\<lparr>cout := os\<rparr>)\<rparr>))"

text \<open>A program starts with an untouched standard output.\<close>

definition main_of ::
  "(('w, 'z demo_st_scheme) computer \<Rightarrow> (unit, ('w, 'z demo_st_scheme) computer) outcome option) list \<Rightarrow>
   ('w, 'z demo_st_scheme) computer \<Rightarrow> (unit, ('w, 'z demo_st_scheme) computer) outcome option" where
  "main_of ps = steps (machine (\<lambda>s. ret () (s\<lparr>cout := std_cout\<rparr>)) # ps)"

text \<open>An environment without closures, for programs that have none.\<close>

definition no_closures :: "(app_world, 'z bus_st_scheme) environment" where
  "no_closures = \<lparr>e_class = app_class, e_callback = \<lambda>_. ret (), e_handler = \<lambda>_. ret (), e_tasks = \<lambda>_ ws. ([], ws)\<rparr>"

lemma cout_frame [simp]:
  "cout (reg_put r v s) = cout s" "cout (reg_rst r s) = cout s" "cout (upd_timer i f s) = cout s"
  "cout (placed rs s) = cout s" "reg_get r (t\<lparr>cout := os\<rparr>) = reg_get r t"
  by (simp_all add: reg_put_def reg_rst_def upd_timer_def placed_def Let_def reg_get_def)

lemma and_then_drop:
  "and_then (and_then m (\<lambda>v. ret (g v))) (\<lambda>_. ret ()) = and_then m (\<lambda>_. ret ())"
  "and_then (and_then m (\<lambda>v. nothing)) (\<lambda>_. ret ()) = and_then m (\<lambda>_. ret ())"
  by (auto simp: and_then_def nothing_def split: prod.splits sum.splits)

lemma fm_idle:
  "fm_update cls (fm_init, ws) = ret () (fm_init, ws)" "fm_initialize cls (fm_init, ws) = ret () (fm_init, ws)"
  by (simp_all add: fm_update_def fm_initialize_def fm_call_def fm_activeFirmware_def fm_init_def)

lemma clear_set_flag: "clear_flag (set_flag 0 n) n = 0"
  by (rule u32_eq_flagsI) (auto simp: flag_simps)

section \<open>Executing a program on an abstraction\<close>

text \<open>
  \<open>runs R p a b\<close>: from every concrete state that \<open>R\<close> relates to \<open>a\<close> the statement returns without an
  exception, in a state related to \<open>b\<close>.
\<close>

definition runs :: "('a \<Rightarrow> 's \<Rightarrow> bool) \<Rightarrow> ('s \<Rightarrow> (unit, 's) outcome option) \<Rightarrow> 'a \<Rightarrow> 'a \<Rightarrow> bool" where
  "runs R p a b \<longleftrightarrow> (\<forall>s. R a s \<longrightarrow> (\<exists>s'. p s = Some (ret () s') \<and> R b s'))"

lemma runsD: "runs R p a b \<Longrightarrow> R a s \<Longrightarrow> \<exists>s'. p s = Some (ret () s') \<and> R b s'"
  by (simp add: runs_def)

lemma runs_nil: "runs R (steps []) a a"
  by (simp add: runs_def)

lemma runs_cons: "runs R p a b \<Longrightarrow> runs R (steps ps) b d \<Longrightarrow> runs R (steps (p # ps)) a d"
  by (fastforce simp: runs_def)

text \<open>The form in which a proof executes: the state after a statement is brought to normal form first.\<close>

lemma runs_step: "runs R p a b \<Longrightarrow> b = b' \<Longrightarrow> runs R (steps ps) b' d \<Longrightarrow> runs R (steps (p # ps)) a d"
  by (simp add: runs_cons)

lemma steps_append: "steps (ps @ qs) s = then_next (steps ps s) (\<lambda>_. steps qs)"
proof (induction ps arbitrary: s)
  case (Cons p ps)
  have "steps (ps @ qs) = (\<lambda>s. then_next (steps ps s) (\<lambda>_. steps qs))" by (rule ext) (rule Cons.IH)
  then show ?case by (simp add: then_next_assoc)
qed simp

lemma runs_append: "runs R (steps ps) a b \<Longrightarrow> runs R (steps qs) b d \<Longrightarrow> runs R (steps (ps @ qs)) a d"
  by (fastforce simp: runs_def steps_append)

lemma runs_eq: "runs R q a b \<Longrightarrow> (\<And>c. R a c \<Longrightarrow> p c = q c) \<Longrightarrow> runs R p a b"
  by (simp add: runs_def)

text \<open>Runs of the processor: step by step, and split at a point.\<close>

lemma runs_steps:
  assumes "\<And>i. i < n \<Longrightarrow> runs R (cpu_step e d) (f i) (f (Suc i))"
  shows "runs R (cpu_steps e d n) (f 0) (f n)"
  using assms
proof (induction n arbitrary: f)
  case (Suc n)
  have "runs R (cpu_steps e d n) (f 1) (f (Suc n))" using Suc.IH [of "\<lambda>i. f (Suc i)"] Suc.prems by simp
  moreover have "runs R (cpu_step e d) (f 0) (f 1)" using Suc.prems [of 0] by simp
  ultimately show ?case by (fastforce simp: runs_def)
qed (simp add: runs_def)

lemma runs_steps_one: "runs R (cpu_step e d) a b \<Longrightarrow> runs R (cpu_steps e d 1) a b"
  by (fastforce simp: runs_def)

lemma runs_steps_add:
  "runs R (cpu_steps e d m) a b \<Longrightarrow> runs R (cpu_steps e d n) b c \<Longrightarrow> runs R (cpu_steps e d (m + n)) a c"
  by (fastforce simp: runs_def cpu_steps_add)

text \<open>A program that builds its machine and then runs on its abstraction.\<close>

lemma main_of_executes:
  assumes "\<exists>c. main_of pre c0 = Some (ret () c) \<and> R a c" and "runs R (steps rest) a b" and "\<And>c. R b c \<Longrightarrow> P c"
  shows "\<exists>c. main_of (pre @ rest) c0 = Some (ret () c) \<and> P c"
proof -
  obtain c where c: "main_of pre c0 = Some (ret () c)" "R a c" using assms(1) by blast
  obtain d where "steps rest c = Some (ret () d)" "R b d" using runsD [OF assms(2) c(2)] by blast
  moreover have "main_of (pre @ rest) c0 = then_next (main_of pre c0) (\<lambda>_. steps rest)"
    unfolding main_of_def by (metis append_Cons steps_append)
  ultimately show ?thesis using c(1) assms(3) by auto
qed

section \<open>What has been printed\<close>

text \<open>
  The abstractions of the demonstrations pair what they know of the machine with the outputs so far. The law of
  such a relation is that printing adds to the outputs and changes nothing else.
\<close>

locale printer =
  fixes known :: "'a \<times> out list \<Rightarrow> ('w, 'z demo_st_scheme) computer \<Rightarrow> bool"
  assumes printed: "known (a, xs) c \<Longrightarrow>
    known (a, xs @ outs) (c\<lparr>world := (fst (world c), (snd (world c))\<lparr>cout := puts outs (cout (snd (world c)))\<rparr>)\<rparr>)"
begin

lemma at_print: "runs known (print outs) (a, xs) (a, xs @ outs)"
  by (auto simp: runs_def print_def machine_def say_def via_bus_def intro: printed)

lemma at_print_of:
  assumes "\<And>c. known (a, xs) c \<Longrightarrow> f c = outs"
  shows "runs known (print_of f) (a, xs) (a, xs @ outs)"
  using at_print [of outs a xs] assms by (auto simp: runs_def print_of_def)

end

text \<open>The relation of this kind that comes from a relation on the machine alone.\<close>

definition printing ::
  "('a \<Rightarrow> 'z demo_st_scheme \<Rightarrow> bool) \<Rightarrow> 'a \<times> out list \<Rightarrow> ('w, 'z demo_st_scheme) computer \<Rightarrow> bool" where
  "printing R = (\<lambda>(a, outs) c. R a (snd (world c)) \<and> cout (snd (world c)) = puts outs std_cout)"

lemma printing_call:
  assumes "\<And>s. R a s \<Longrightarrow> \<exists>v s'. f s = ret v s' \<and> R a' s' \<and> cout s' = puts outs (cout s)"
  shows "runs (printing R) (machine f) (a, xs) (a', xs @ outs)"
  unfolding runs_def
proof (intro allI impI)
  fix c assume c: "printing R (a, xs) c"
  then have "R a (snd (world c))" by (simp add: printing_def)
  from assms [OF this] obtain v s' where "f (snd (world c)) = ret v s'" "R a' s'" "cout s' = puts outs (cout (snd (world c)))"
    by blast
  then show "\<exists>c'. machine f c = Some (ret () c') \<and> printing R (a', xs @ outs) c'"
    using c by (simp add: machine_def via_bus_def printing_def puts_append)
qed

lemma printing_quiet:
  assumes "\<And>s. R a s \<Longrightarrow> \<exists>v s'. f s = ret v s' \<and> R a' s' \<and> cout s' = cout s"
  shows "runs (printing R) (machine f) (a, xs) (a', xs)"
proof -
  have "runs (printing R) (machine f) (a, xs) (a', xs @ [])"
    by (rule printing_call) (use assms in \<open>fastforce simp: puts_def\<close>)
  then show ?thesis by simp
qed

section \<open>Rendering what was printed\<close>

text \<open>The text of a list of outputs, without the stream.\<close>

fun shown :: "out list \<Rightarrow> bool \<Rightarrow> char \<Rightarrow> bool \<Rightarrow> string" where
  "shown [] h c l = []"
| "shown (Str s # xs) h c l = s @ shown xs h c l"
| "shown (Num n # xs) h c l = show_base (if h then 16 else 10) n @ shown xs h c l"
| "shown (StrW w s # xs) h c l = pad w s \<lparr>os_text = [], os_hex = h, os_fill = c, os_left = l\<rparr> @ shown xs h c l"
| "shown (NumW w n # xs) h c l =
     pad w (show_base (if h then 16 else 10) n) \<lparr>os_text = [], os_hex = h, os_fill = c, os_left = l\<rparr> @ shown xs h c l"
| "shown (Hex # xs) h c l = shown xs True c l"
| "shown (Dec # xs) h c l = shown xs False c l"
| "shown (Fill d # xs) h c l = shown xs h d l"
| "shown (LeftAdjust # xs) h c l = shown xs h c True"

lemma text_shown: "os_text (puts xs os) = os_text os @ shown xs (os_hex os) (os_fill os) (os_left os)"
proof (induction xs arbitrary: os)
  case (Cons x xs)
  have "os_text (puts (x # xs) os) = os_text (puts xs (put x os))" by (simp add: puts_def)
  also have "\<dots> = os_text (put x os) @ shown xs (os_hex (put x os)) (os_fill (put x os)) (os_left (put x os))"
    by (rule Cons.IH)
  finally show ?case by (cases x) (simp_all add: pad_def os_number_def)
qed (simp add: puts_def)

lemma digit_chars:
  "digit_char 0 = CHR ''0''" "digit_char 1 = CHR ''1''" "digit_char (Suc 0) = CHR ''1''" "digit_char 2 = CHR ''2''"
  "digit_char 3 = CHR ''3''" "digit_char 4 = CHR ''4''" "digit_char 5 = CHR ''5''" "digit_char 6 = CHR ''6''"
  "digit_char 7 = CHR ''7''" "digit_char 8 = CHR ''8''" "digit_char 9 = CHR ''9''" "digit_char 10 = CHR ''a''"
  "digit_char 11 = CHR ''b''" "digit_char 12 = CHR ''c''" "digit_char 13 = CHR ''d''" "digit_char 14 = CHR ''e''"
  "digit_char 15 = CHR ''f''"
  by code_simp+

lemmas digit_chars_Suc = digit_chars [unfolded eval_nat_numeral BitM.simps One_nat_def]

lemma unat_byte: "unat (byte c) = of_char c"
  by (simp add: byte_def unat_of_nat take_bit_nat_eq_self)

lemma char_byte: "char_of_byte (byte c) = c"
  by (simp add: char_of_byte_def unat_byte)

lemma replicate_numeral_eq: "replicate (numeral k) x = x # replicate (pred_numeral k) x"
  by (simp add: numeral_eq_Suc)

lemmas render =
  replicate_numeral_eq
  text_shown std_cout_def os_number_def pad_def line_def quoted_def nl_def show_base.simps digit_chars digit_chars_Suc yes_no_def bytes_of_def
  char_byte unat_byte

end
