(* ===== verification/Example_Uart.thy ===== *)
theory Example_Uart
  imports Example_Kit
begin

text \<open>
  The program of \<^verbatim>\<open>examples/uart_demo.cpp\<close>, executed on the two byte queues that the UART refines.
\<close>

section \<open>The program\<close>

definition uart_demo ::
  "(app_world, 'z demo_st_scheme) computer \<Rightarrow> (unit, (app_world, 'z demo_st_scheme) computer) outcome option" where
  "uart_demo = main_of
     [print [line ''Starting UART Peripheral Demo...''],
      machine new_mmio,
      machine (new_uart 0x40003000 115200),
      machine (via_uart (plainly uart_enable)),
      print_of (\<lambda>c. [Str ''UART enabled at address 0x'', Hex, Num (unat (u_base (uart0 (snd (world c))))), Dec, Str nl]),
      machine (via_uart (uart_setBaudRate 9600)),
      print_of (\<lambda>c. [Str ''Configured Baud Rate: '',
        Num (unat (uart_baudRate (uart0 (snd (world c))) (snd (world c)))), Str nl]),
      print [Str (''Transmitting bytes: ''), Str (quoted ''H'' @ '', '' @ quoted ''e'' @ '', '' @ quoted ''l'' @ '', '' @
        quoted ''l'' @ '', '' @ quoted ''o'' @ nl)],
      machine (via_uart (uart_writeByte (byte (CHR ''H'')))),
      machine (via_uart (uart_writeByte (byte (CHR ''e'')))),
      machine (via_uart (uart_writeByte (byte (CHR ''l'')))),
      machine (via_uart (uart_writeByte (byte (CHR ''l'')))),
      machine (via_uart (uart_writeByte (byte (CHR ''o'')))),
      print [line (''Pushing simulated received byte: '' @ quoted ''A'')],
      machine (via_uart (uart_pushReceivedByte (byte (CHR ''A'')))),
      machine (\<lambda>s. if uart_hasReceivedData (uart0 s)
        then say_result (via_uart uart_readByte) (\<lambda>rxByte. [Str ''Received byte from RX FIFO: '',
          Str (quoted [char_of_byte rxByte]), Str '' (0x'', Hex, Num (unat rxByte), Dec, Str ('')'' @ nl)]) s
        else ret () s),
      print [line (nl @ ''--- Monitor UART State output ---'')],
      monitor_command (mon_init False False True False None False True False False) no_closures ''uart'',
      print [line (nl @ ''UART Demo completed successfully.'')]]"

section \<open>Its execution on byte queues\<close>

text \<open>What the machine is for the program: a UART, and the standard output.\<close>

definition uart_at :: "abs_uart \<times> out list \<Rightarrow> ('w, 'z demo_st_scheme) computer \<Rightarrow> bool" where
  "uart_at = (\<lambda>(a, outs) c. let s = snd (world c)
     in uart_wf (uart0 s, s) \<and> uart_view (uart0 s, s) = a \<and> u_base (uart0 s) = 0x40003000 \<and> cout s = puts outs std_cout)"

interpretation uart_out: printer uart_at
  by unfold_locales (auto simp: uart_at_def Let_def puts_append uart_wf_def uart_view_def uart_enabled_def uart_baudRate_def
    reg_get_def)

lemmas uart_at_print = uart_out.at_print

lemmas uart_at_print_of = uart_out.at_print_of

lemma uart_apply_frame:
  fixes us :: "'z demo_st_scheme on_uart"
  shows "u_base (fst (snd (uart_apply q us))) = u_base (fst us)" and "cout (snd (snd (uart_apply q us))) = cout (snd us)"
  by (cases us; cases q; simp add: uart_op_defs uart_updateStatusRegister_def Let_def split: list.split)+

lemma uart_at_call:
  assumes eq: "\<And>us :: 'z demo_st_scheme on_uart. and_then (f us) (\<lambda>_. ret ()) = and_then (uart_apply q us) (\<lambda>_. ret ())"
    and a: "line_apply q a = ret v a'"
  shows "runs uart_at (machine (via_uart f)) (a, xs) (a', xs)"
  unfolding runs_def
proof (intro allI impI)
  fix c :: "('w, 'z demo_st_scheme) computer"
  assume c: "uart_at (a, xs) c"
  let ?us = "(uart0 (snd (world c)), snd (world c))"
  have wf: "uart_wf ?us" and view: "uart_view ?us = a" and rest: "u_base (fst ?us) = 0x40003000" "cout (snd ?us) = puts xs std_cout"
    using c by (simp_all add: uart_at_def Let_def)
  obtain r u s where ap: "uart_apply q ?us = (r, (u, s))" by (metis prod.collapse)
  have r: "r = Inr v" "uart_view (u, s) = a'" using uart_apply_view [OF wf, of q] a view ap by simp_all
  have wf': "uart_wf (u, s)" using uart_wf_apply [OF wf, of q] ap by simp
  have fr: "u_base u = 0x40003000" "cout s = puts xs std_cout" using uart_apply_frame [of q ?us] ap rest by simp_all
  have "and_then (f ?us) (\<lambda>_. ret ()) = ret () (u, s)" using eq [of ?us] ap r(1) by simp
  then have "\<exists>w. f ?us = ret w (u, s)" by (auto simp: and_then_Inr_iff)
  then obtain w where f: "f ?us = ret w (u, s)" by blast
  let ?c = "c\<lparr>world := (fst (world c), s\<lparr>uart0 := u\<rparr>)\<rparr>"
  have "machine (via_uart f) c = Some (ret () ?c)" using f by (simp add: machine_def via_bus_def via_uart_def)
  moreover have "uart_at (a', xs) ?c"
    using wf' r(2) fr by (simp add: uart_at_def Let_def uart_wf_def uart_view_def uart_enabled_def uart_baudRate_def reg_get_def)
  ultimately show "\<exists>s'. machine (via_uart f) c = Some (ret () s') \<and> uart_at (a', xs) s'" by blast
qed

lemma uart_at_enable: "runs uart_at (machine (via_uart (plainly uart_enable))) (a, xs) (a\<lparr>au_on := True\<rparr>, xs)"
  by (rule uart_at_call [where q = UEnable and v = None]) (simp_all add: plainly_def nothing_def)

lemma uart_at_baud:
  "w \<noteq> 0 \<Longrightarrow> runs uart_at (machine (via_uart (uart_setBaudRate w))) (a, xs) (a\<lparr>au_baud := w\<rparr>, xs)"
  by (rule uart_at_call [where q = "UBaud w" and v = None])
    (auto simp: uart_setBaudRate_def nothing_def split: prod.split)

lemma uart_at_write:
  "au_on a \<Longrightarrow> runs uart_at (machine (via_uart (uart_writeByte b))) (a, xs) (a\<lparr>au_tx := au_tx a @ [b]\<rparr>, xs)"
  by (rule uart_at_call [where q = "UWrite b" and v = None])
    (simp add: and_then_drop, simp add: nothing_def)

lemma uart_at_push:
  "au_on a \<Longrightarrow> runs uart_at (machine (via_uart (uart_pushReceivedByte b))) (a, xs) (a\<lparr>au_rx := au_rx a @ [b]\<rparr>, xs)"
  by (rule uart_at_call [where q = "UPush b" and v = None])
    (simp add: and_then_drop, simp add: nothing_def)

lemma uart_at_read:
  assumes "au_on a" and "au_rx a = b # bs"
  shows "runs uart_at (machine (\<lambda>s. if uart_hasReceivedData (uart0 s) then say_result (via_uart uart_readByte) f s else ret () s))
    (a, xs) (a\<lparr>au_rx := bs\<rparr>, xs @ f b)"
  unfolding runs_def
proof (intro allI impI)
  fix c :: "('w, 'z demo_st_scheme) computer"
  assume c: "uart_at (a, xs) c"
  have "line_apply URead a = ret (Some b) (a\<lparr>au_rx := bs\<rparr>)" using assms by simp
  then have "runs uart_at (machine (via_uart uart_readByte)) (a, xs) (a\<lparr>au_rx := bs\<rparr>, xs)"
    by (intro uart_at_call [where q = URead]) (simp_all add: and_then_drop)
  from runsD [OF this c] obtain d where d: "machine (via_uart uart_readByte) c = Some (ret () d)"
    "uart_at (a\<lparr>au_rx := bs\<rparr>, xs) d" by blast
  have view: "uart_view (uart0 (snd (world c)), snd (world c)) = a" using c by (simp add: uart_at_def Let_def)
  then have rx: "u_rxFifo (uart0 (snd (world c))) = b # bs" "uart_enabled (uart0 (snd (world c))) (snd (world c))"
    using assms by (auto simp: uart_view_def)
  then have "fst (via_uart uart_readByte (snd (world c))) = Inr b"
    by (simp add: via_uart_def uart_readByte_def Let_def)
  then obtain s where s: "via_uart uart_readByte (snd (world c)) = ret b s" by (metis prod.collapse)
  then have dc: "d = c\<lparr>world := (fst (world c), s)\<rparr>" using d(1) by (simp add: machine_def via_bus_def)
  let ?d = "d\<lparr>world := (fst (world d), (snd (world d))\<lparr>cout := puts (f b) (cout (snd (world d)))\<rparr>)\<rparr>"
  have "machine (\<lambda>s. if uart_hasReceivedData (uart0 s) then say_result (via_uart uart_readByte) f s else ret () s) c =
      Some (ret () ?d)"
    using rx s by (simp add: machine_def via_bus_def uart_hasReceivedData_def say_result_def say_def dc)
  moreover have "print (f b) d = Some (ret () ?d)" by (simp add: print_def machine_def via_bus_def say_def)
  then have "uart_at (a\<lparr>au_rx := bs\<rparr>, xs @ f b) ?d" using runsD [OF uart_at_print d(2), of "f b"] by auto
  ultimately show "\<exists>s'. machine (\<lambda>s. if uart_hasReceivedData (uart0 s) then say_result (via_uart uart_readByte) f s
      else ret () s) c = Some (ret () s') \<and> uart_at (a\<lparr>au_rx := bs\<rparr>, xs @ f b) s'" by blast
qed

text \<open>What the monitor shows of a UART.\<close>

definition uart_report :: "abs_uart \<Rightarrow> out list" where
  "uart_report a =
     [Str (''UART'' @ nl), Str (''----------------------'' @ nl), Str ''Enabled : '', Str (yes_no (au_on a)), Str (nl @ nl),
      Str ''Baud : '', Num (unat (au_baud a)), Str (nl @ nl), Str ''TX FIFO : ''] @ bytes_of (length (au_tx a)) @
     [Str ''RX FIFO : ''] @ bytes_of (length (au_rx a)) @
     [Str (''STATUS :'' @ nl @ nl), Str ''TX Empty : '', Str (yes_no (au_tx a = [])), Str (nl @ nl),
      Str ''RX Available : '', Str (yes_no (au_rx a \<noteq> [])), Str nl]"

lemma uart_at_monitor:
  fixes e :: "('w, 'z demo_st_scheme) environment"
  shows "runs uart_at (monitor_command (mon_init False False True False None False True False False) e ''uart'') (a, xs)
     (a, xs @ uart_report a)"
  unfolding runs_def
proof (intro allI impI)
  fix c :: "('w, 'z demo_st_scheme) computer"
  assume c: "uart_at (a, xs) c"
  let ?m = "mon_init False False True False None False True False False"
  have sp: "trim ''uart'' = ''uart''" "split_command ''uart'' = (''uart'', ''uart'', [])" by code_simp+
  have "mon_uart ?m (snd (world c)) = uart_report a"
    using c by (auto simp: uart_at_def Let_def uart_view_def mon_uart_def mon_init_def uart_report_def uart_txFifoSize_def
        uart_rxFifoSize_def uart_txEmpty_def uart_hasReceivedData_def)
  then have "mon_executeCommand ?m e 0 ''uart'' (os, c) = Some (ret True (puts (uart_report a) os, c))" for os
    by (simp add: mon_executeCommand_def sp)
  then show "\<exists>s'. monitor_command ?m e ''uart'' c = Some (ret () s') \<and> uart_at (a, xs @ uart_report a) s'"
    using runsD [OF uart_at_print c, of "uart_report a"]
    by (auto simp: monitor_command_def print_def machine_def via_bus_def say_def)
qed

section \<open>The transcript\<close>

lemma uart_demo_begin:
  assumes "baud \<noteq> 0"
  shows "\<exists>c. main_of [print outs, machine new_mmio, machine (new_uart 0x40003000 baud)] c0 = Some (ret () c) \<and>
     uart_at (\<lparr>au_on = False, au_tx = [], au_rx = [], au_baud = baud\<rparr>, outs) c"
proof -
  obtain w s0 where ws: "world c0 = (w, s0)" by (cases "world c0")
  let ?s = "s0\<lparr>cout := puts outs std_cout, next_ref := 0, m_registers := []\<rparr>"
  let ?p = "placed [(0x40003000, 0), (0x40003000 + 4, set_flag 0 0), (0x40003000 + 8, 0), (0x40003000 + 12, baud)] ?s"
  have "fresh_at [0x40003000, 0x40003000 + 4, 0x40003000 + 8, 0x40003000 + 12] ?s" by (simp add: fresh_at_def)
  from uart_init_builds [OF this assms] obtain u where
    u: "uart_init 0x40003000 baud ?s = ret u (uart_updateStatusRegister u ?p)"
    "u_base u = 0x40003000" "u_txFifo u = []" "u_rxFifo u = []" "u_controlRegister u = 2" "u_statusRegister u = 1"
    "u_baudRegister u = 3"
    by auto
  have wf: "uart_wf (u, uart_updateStatusRegister u ?p)" by (rule uart_init_ok [OF u(1)])
  have view: "uart_view (u, uart_updateStatusRegister u ?p) = \<lparr>au_on = False, au_tx = [], au_rx = [], au_baud = baud\<rparr>"
    using u(3-7) by (simp add: uart_view_defs) (simp add: reg_get_def register_init_def numeral_2_eq_2 numeral_3_eq_3)
  have out: "cout (uart_updateStatusRegister u ?p) = puts outs std_cout"
    by (simp add: uart_updateStatusRegister_def)
  let ?c = "c0\<lparr>world := (w, (uart_updateStatusRegister u ?p)\<lparr>uart0 := u\<rparr>)\<rparr>"
  have "main_of [print outs, machine new_mmio, machine (new_uart 0x40003000 baud)] c0 = Some (ret () ?c)"
    using u(1) by (simp add: main_of_def print_def machine_def say_def via_bus_def new_mmio_def new_uart_def ws)
  moreover have "uart_at (\<lparr>au_on = False, au_tx = [], au_rx = [], au_baud = baud\<rparr>, outs) ?c"
    using wf view out u(2)
    by (simp add: uart_at_def Let_def uart_wf_def uart_view_def uart_enabled_def uart_baudRate_def reg_get_def)
  ultimately show ?thesis by blast
qed

lemma uart_at_base: "uart_at a c \<Longrightarrow> u_base (uart0 (snd (world c))) = 0x40003000"
  by (auto simp: uart_at_def Let_def)

lemma uart_at_baudRate: "uart_at (a, xs) c \<Longrightarrow> uart_baudRate (uart0 (snd (world c))) (snd (world c)) = au_baud a"
  by (auto simp: uart_at_def Let_def uart_view_def)

lemmas uart_at_rules =
  uart_at_enable uart_at_baud uart_at_write uart_at_push uart_at_read uart_at_print uart_at_print_of uart_at_monitor

lemma uart_at_text: "uart_at (a, xs) c \<Longrightarrow> os_text (cout (snd (world c))) = os_text (puts xs std_cout)"
  by (auto simp: uart_at_def Let_def)

lemma uart_demo_executes:
  fixes c0 :: "(app_world, 'z demo_st_scheme) computer"
  assumes "baud \<noteq> 0"
    and "runs uart_at (steps rest) (\<lparr>au_on = False, au_tx = [], au_rx = [], au_baud = baud\<rparr>, outs) (a, xs)"
    and "os_text (puts xs std_cout) = t"
  shows "\<exists>c. main_of (print outs # machine new_mmio # machine (new_uart 0x40003000 baud) # rest) c0 = Some (ret () c) \<and>
    os_text (cout (snd (world c))) = t"
proof -
  have "os_text (cout (snd (world c))) = t" if "uart_at (a, xs) c" for c :: "(app_world, 'z demo_st_scheme) computer"
    using uart_at_text [OF that] assms(3) by simp
  from main_of_executes [OF uart_demo_begin [OF assms(1)] assms(2), of "\<lambda>c. os_text (cout (snd (world c))) = t", OF this]
  show ?thesis by simp
qed

definition uart_demo_text :: string where
  "uart_demo_text =
     ''Starting UART Peripheral Demo...'' @ nl @
     ''UART enabled at address 0x40003000'' @ nl @
     ''Configured Baud Rate: 9600'' @ nl @
     ''Transmitting bytes: '' @ quoted ''H'' @ '', '' @ quoted ''e'' @ '', '' @ quoted ''l'' @ '', '' @ quoted ''l'' @ '', '' @
       quoted ''o'' @ nl @
     ''Pushing simulated received byte: '' @ quoted ''A'' @ nl @
     ''Received byte from RX FIFO: '' @ quoted ''A'' @ '' (0x41)'' @ nl @ nl @
     ''--- Monitor UART State output ---'' @ nl @
     ''UART'' @ nl @ ''----------------------'' @ nl @ ''Enabled : YES'' @ nl @ nl @ ''Baud : 9600'' @ nl @ nl @
     ''TX FIFO : 5 bytes'' @ nl @ nl @ ''RX FIFO : 0 bytes'' @ nl @ nl @ ''STATUS :'' @ nl @ nl @
     ''TX Empty : NO'' @ nl @ nl @ ''RX Available : NO'' @ nl @ nl @
     ''UART Demo completed successfully.'' @ nl"

theorem uart_demo_transcript:
  "\<exists>c. uart_demo c0 = Some (ret () c) \<and> os_text (cout (snd (world c))) = uart_demo_text"
  unfolding uart_demo_def
  by (rule uart_demo_executes, simp,
      ((rule runs_step, (rule uart_at_rules; simp add: uart_at_base uart_at_baudRate), simp)+)[1], rule runs_nil)
    (simp add: render uart_report_def uart_demo_text_def)

end
