(* ===== verification/Example_Spi.thy ===== *)
theory Example_Spi
  imports Example_Kit
begin

text \<open>
  The program of \<^verbatim>\<open>examples/spi_demo.cpp\<close>, executed on what its master and its slave are to each other.
\<close>

section \<open>The program\<close>

definition hex2 :: "nat \<Rightarrow> out list" where
  "hex2 n = [Hex, NumW 2 n]"

text \<open>The loop that reads back what was received; every round takes a byte or the mark that there is one.\<close>

function spi_demo_drain :: "'z demo_st_scheme \<Rightarrow> (unit, 'z demo_st_scheme) outcome" where
  "spi_demo_drain s =
     (if \<not> spi_hasData (spi0 s) then ret () s
      else case spi_hal_readByte True s of
        (Inl e, s) \<Rightarrow> throw e s
      | (Inr r, s) \<Rightarrow> spi_demo_drain (snd (say ([Str ''  Received byte: 0x''] @ hex2 (unat r) @ [Str nl]) s)))"
  by pat_completeness auto
termination
  by (relation "measure (\<lambda>s. length (s_rxBuffer (spi0 s)) + of_bool (s_rxHasData (spi0 s)))")
    (auto simp: spi_hal_readByte_def via_spi_def spi_readByte_def Let_def say_def spi_hasData_def
      split: if_splits list.splits prod.splits dest!: sym [of _ "(Inr _, _)"])

declare spi_demo_drain.simps [simp del]

definition spi_demo ::
  "(app_world, 'z demo_st_scheme) computer \<Rightarrow> (unit, (app_world, 'z demo_st_scheme) computer) outcome option" where
  "spi_demo = main_of
     ([print [line ''Starting Serial Peripheral Interface (SPI) Demo...''],
       machine new_mmio,
       machine (plainly (sb_init False True False)),
       machine (new_spi 0x40004000 4 0),
       machine (plainly (sb_attachSPI True)),
       machine (plainly (\<lambda>s. s\<lparr>spi_devs := (spi_devs s)(0 := sim_spi_init 0x00)\<rparr>)),
       machine (plainly (\<lambda>s. s\<lparr>spi0 := spi_attachSlave (Some 0) (spi0 s)\<rparr>)),
       machine (spi_hal_enable True),
       machine (spi_hal_configure True 0 8),
       print [line ''SPI Peripheral enabled.''],
       print [Str ''  Base Address:  0x'', Hex, Num 0x40004000, Dec, Str nl],
       print_of (\<lambda>c. [Str ''  Clock Divider: '', Num (unat (spi_clockDivider (spi0 (snd (world c))) (snd (world c)))), Str nl]),
       print_of (\<lambda>c. [Str ''  SPI Mode:      '', Num (unat (spi_mode (spi0 (snd (world c))) (snd (world c)))), Str (nl @ nl)]),
       machine (plainly (\<lambda>s. s\<lparr>spi_devs := (spi_devs s)(0 := sim_spi_queueResponseByte 0x00 (spi_devs s 0))\<rparr>)),
       machine (plainly (\<lambda>s. s\<lparr>spi_devs := (spi_devs s)(0 := sim_spi_queueResponseByte 0xC2 (spi_devs s 0))\<rparr>)),
       machine (plainly (\<lambda>s. s\<lparr>spi_devs := (spi_devs s)(0 := sim_spi_queueResponseByte 0x20 (spi_devs s 0))\<rparr>)),
       print [line ''--- Demo 1: Full-Duplex SPI Command Transmission ---'']] @
      map (\<lambda>txByte. machine (say_result (spi_hal_transfer True txByte) (\<lambda>rxByte.
        [Str ''  TX: 0x'', Hex, Fill (CHR ''0''), NumW 2 (unat txByte),
         Str '' --> RX: 0x'', Hex, Fill (CHR ''0''), NumW 2 (unat rxByte), Str nl]))) [0x9F, 0x00, 0x00] @
      [print [Str (nl @ ''Slave Device Received Payload: '')],
       print_of (\<lambda>c. concat (map (\<lambda>b. [Str ''0x''] @ hex2 (unat b) @ [Str '' '']) (ss_receivedBytes (spi_devs (snd (world c)) 0)))),
       print [Str nl],
       print [line (nl @ ''--- Demo 2: Firmware Stream Buffer Transfer ---'')],
       machine (plainly (\<lambda>s. s\<lparr>spi_devs := (spi_devs s)(0 := sim_spi_clearReceivedBytes (spi_devs s 0))\<rparr>)),
       machine (plainly (\<lambda>s. s\<lparr>spi_devs := (spi_devs s)(0 := sim_spi_clearResponseQueue (spi_devs s 0))\<rparr>)),
       machine (plainly (\<lambda>s. s\<lparr>spi_devs := (spi_devs s)(0 := sim_spi_setDefaultResponseByte 0xAA (spi_devs s 0))\<rparr>))] @
      map (\<lambda>b. machine (spi_hal_writeByte True b)) [0x01, 0x02, 0x03, 0x04] @
      [print [line ''Firmware read back received responses from SPI HAL:''],
       machine spi_demo_drain,
       print [line (nl @ ''Resetting SystemBus...'')],
       machine (plainly sb_reset),
       print_of (\<lambda>c. [Str ''SPI Enabled after reset? '', Str (if spi_hal_enabled True (snd (world c)) then ''Yes'' else ''No''), Str nl]),
       print [line (nl @ ''SPI Controller Demo completed successfully.'')]])"

section \<open>Its execution\<close>

lemma spi_machine_put [simp]:
  "sb (reg_put r v s) = sb s" "sb (reg_rst r s) = sb s" "spi0 (reg_put r v s) = spi0 s" "spi_devs (reg_put r v s) = spi_devs s"
  by (simp_all add: reg_put_def reg_rst_def)

record abs_spi =
  as_on :: bool
  as_mode :: u8
  as_div :: u32
  as_home :: u32
  as_linked :: bool
  as_slave :: sim_spi
  as_rx :: "u8 list"
  as_has :: bool

definition spi_like :: "abs_spi \<Rightarrow> spi \<Rightarrow> (nat \<Rightarrow> sim_spi) \<Rightarrow> 'z mmio_st_scheme \<Rightarrow> bool" where
  "spi_like a p ds s \<longleftrightarrow> spi_idle (p, ds, s) \<and> spi_enabled p s = as_on a \<and> spi_mode p s = as_mode a \<and>
     spi_clockDivider p s = as_div a \<and> m_initialValue (reg_objs s (s_clockDivRegister p)) = as_home a \<and> s_slave p = (if as_linked a then Some 0 else None) \<and> ds 0 = as_slave a \<and>
     s_rxBuffer p = as_rx a \<and> s_rxHasData p = as_has a"

definition spi_at :: "abs_spi \<times> out list \<Rightarrow> ('w, 'z demo_st_scheme) computer \<Rightarrow> bool" where
  "spi_at = (\<lambda>(a, outs) c. let s = snd (world c)
     in spi_like a (spi0 s) (spi_devs s) s \<and> cout s = puts outs std_cout \<and>
        sb s = \<lparr>sb_memory = False, sb_mmioBus = True, sb_interruptController = False, sb_dmas = [], sb_timers = [],
          sb_gpio = False, sb_uart = False, sb_spi = True, sb_i2c = False, sb_pwm = False, sb_adc = False\<rparr>)"

lemma spi_like_frame [simp]:
  "spi_like a p ds (s\<lparr>spi0 := p', spi_devs := ds'\<rparr>) = spi_like a p ds s"
  "spi_like a p ds (s\<lparr>spi_devs := ds'\<rparr>) = spi_like a p ds s" "spi_like a p ds (s\<lparr>spi0 := p'\<rparr>) = spi_like a p ds s"
  "spi_like a p ds (t\<lparr>cout := os\<rparr>) = spi_like a p ds t"
  by (simp_all add: spi_like_def spi_idle_def spi_wf_def spi_enabled_def spi_mode_def spi_clockDivider_def reg_get_def)

interpretation spi_out: printer spi_at
  by unfold_locales (auto simp: spi_at_def Let_def puts_append)

lemmas spi_at_print = spi_out.at_print

lemmas spi_at_print_of = spi_out.at_print_of

text \<open>The slave is reconfigured.\<close>

lemma spi_at_slave:
  "runs spi_at (machine (plainly (\<lambda>s. s\<lparr>spi_devs := (spi_devs s)(0 := g (spi_devs s 0))\<rparr>))) (a, xs)
    (a\<lparr>as_slave := g (as_slave a)\<rparr>, xs)"
  by (auto simp: runs_def spi_at_def Let_def machine_def plainly_def via_bus_def) (auto simp: spi_like_def spi_idle_def)

text \<open>A call of the controller.\<close>

lemma spi_at_call:
  assumes "\<And>p ds s :: 'z demo_st_scheme. spi_like a p ds s \<Longrightarrow>
      \<exists>v p' ds' s'. f (p, ds, s) = ret v (p', ds', s') \<and> spi_like a' p' ds' s' \<and> cout s' = cout s \<and> sb s' = sb s"
  shows "runs spi_at (machine (via_spi f)) (a, xs) (a', xs)"
  unfolding runs_def
proof (intro allI impI)
  fix c :: "('w, 'z demo_st_scheme) computer"
  assume c: "spi_at (a, xs) c"
  let ?s = "snd (world c)"
  have "spi_like a (spi0 ?s) (spi_devs ?s) ?s" using c by (simp add: spi_at_def Let_def)
  from assms [OF this] obtain v p' ds' s' where
    "f (spi0 ?s, spi_devs ?s, ?s) = ret v (p', ds', s')" "spi_like a' p' ds' s'" "cout s' = cout ?s" "sb s' = sb ?s" by blast
  then show "\<exists>c'. machine (via_spi f) c = Some (ret () c') \<and> spi_at (a', xs) c'"
    using c by (auto simp: machine_def via_bus_def via_spi_def spi_at_def Let_def)
qed

lemma spi_likeD:
  assumes "spi_like a p ds s"
  shows "spi_wf p s" "\<not> s_busy p" "spi_idle (p, ds, s)" "spi_enabled p s = as_on a" "s_rxBuffer p = as_rx a"
    "s_rxHasData p = as_has a" "s_slave p = (if as_linked a then Some 0 else None)" "ds 0 = as_slave a"
    "spi_mode p s = as_mode a" "spi_clockDivider p s = as_div a"
  using assms by (simp_all add: spi_like_def spi_idle_def)

lemmas spi_like_defs = spi_like_def spi_idle_def spi_wf_def spi_enabled_def spi_mode_def spi_clockDivider_def
  spi_updateStatusRegister_def spi_hasData_def

lemma set_enable_mode:
  "drop_bit (Suc 0) (set_flag c 0) AND drop_bit (Suc 0) CTRL_MODE_MASK = drop_bit (Suc 0) c AND drop_bit (Suc 0) CTRL_MODE_MASK"
  by (rule bit_eqI) (auto simp: bit_simps bit_set_flag CTRL_MODE_MASK_def)

lemma spi_like_enable:
  assumes l: "spi_like a p ds s"
  shows "\<exists>p' ds' s'. plainly spi_enable (p, ds, s) = ret () (p', ds', s') \<and> spi_like (a\<lparr>as_on := True\<rparr>) p' ds' s' \<and>
    cout s' = cout s \<and> sb s' = sb s"
  using l spi_wf_neqs [OF spi_likeD(1) [OF l]]
  by (simp add: plainly_def spi_enable_def Let_def spi_like_defs flag_simps set_enable_mode)

lemma spi_at_enable: "runs spi_at (machine (spi_hal_enable True)) (a, xs) (a\<lparr>as_on := True\<rparr>, xs)"
proof -
  have eq: "spi_hal_enable True = via_spi (plainly spi_enable)" by (simp add: fun_eq_iff spi_hal_enable_def)
  show ?thesis unfolding eq by (rule spi_at_call) (use spi_like_enable in blast)
qed

lemma spi_at_configure:
  assumes "mode \<le> 3" and "cdiv \<noteq> 0"
  shows "runs spi_at (machine (spi_hal_configure True mode cdiv)) (a, xs) (a\<lparr>as_mode := mode, as_div := cdiv\<rparr>, xs)"
  unfolding runs_def
proof (intro allI impI)
  fix c :: "('w, 'z demo_st_scheme) computer"
  assume c: "spi_at (a, xs) c"
  let ?s = "snd (world c)" and ?p = "spi0 (snd (world c))"
  have l: "spi_like a ?p (spi_devs ?s) ?s" using c by (simp add: spi_at_def Let_def)
  note ne = spi_wf_neqs [OF spi_likeD(1) [OF l]]
  obtain w where w: "spi_setMode ?p mode ?s = ret () (reg_put (s_controlRegister ?p) w ?s)"
    using assms(1) by (simp add: spi_setMode_def Let_def linorder_not_less)
  have m: "spi_mode ?p (reg_put (s_controlRegister ?p) w ?s) = mode"
    "spi_enabled ?p (reg_put (s_controlRegister ?p) w ?s) = spi_enabled ?p ?s"
    using spi_mode_roundtrip [of mode ?p ?s] assms(1) w by simp_all
  let ?t = "reg_put (s_clockDivRegister ?p) cdiv (reg_put (s_controlRegister ?p) w ?s)"
  have "spi_hal_configure True mode cdiv ?s = ret () ?t"
    using w assms(2) by (simp add: spi_hal_configure_def spi_setClockDivider_def)
  moreover have "spi_like (a\<lparr>as_mode := mode, as_div := cdiv\<rparr>) ?p (spi_devs ?s) ?t"
    using l m ne by (simp add: spi_like_def spi_idle_def spi_wf_def spi_enabled_def spi_mode_def spi_clockDivider_def)
  ultimately show "\<exists>c'. machine (spi_hal_configure True mode cdiv) c = Some (ret () c') \<and>
      spi_at (a\<lparr>as_mode := mode, as_div := cdiv\<rparr>, xs) c'"
    using c by (simp add: machine_def via_bus_def spi_at_def Let_def )
qed

lemma spi_like_transfer:
  assumes l: "spi_like a p ds s" and on: "as_on a" and link: "as_linked a"
  shows "\<exists>p' ds' s'. spi_transfer sim_spi_transfer b (p, ds, s) = ret (fst (sim_spi_transfer b (as_slave a))) (p', ds', s') \<and>
      spi_like (a\<lparr>as_slave := snd (sim_spi_transfer b (as_slave a)), as_has := True\<rparr>) p' ds' s' \<and>
      cout s' = cout s \<and> sb s' = sb s"
  using l on link spi_wf_neqs [OF spi_likeD(1) [OF l]]
  by (simp add: spi_transfer_def slave_transfer_def Let_def spi_like_defs split_beta)

lemma spi_like_write:
  assumes l: "spi_like a p ds s" and on: "as_on a" and link: "as_linked a"
  shows "\<exists>p' ds' s'. spi_writeByte sim_spi_transfer b (p, ds, s) = ret () (p', ds', s') \<and>
      spi_like (a\<lparr>as_slave := snd (sim_spi_transfer b (as_slave a)),
        as_rx := as_rx a @ [fst (sim_spi_transfer b (as_slave a))], as_has := True\<rparr>) p' ds' s' \<and>
      cout s' = cout s \<and> sb s' = sb s"
  using l on link spi_wf_neqs [OF spi_likeD(1) [OF l]]
  by (simp add: spi_writeByte_def slave_transfer_def Let_def spi_like_defs split_beta)

lemma spi_like_read:
  assumes l: "spi_like a p ds s" and on: "as_on a" and rx: "as_rx a = b # bs"
  shows "\<exists>p' s'. spi_readByte (p, ds, s) = ret b (p', ds, s') \<and>
      spi_like (a\<lparr>as_rx := bs, as_has := (as_has a \<and> bs \<noteq> [])\<rparr>) p' ds s' \<and> cout s' = cout s \<and> sb s' = sb s"
  using l on rx spi_wf_neqs [OF spi_likeD(1) [OF l]]
  by (auto simp: spi_readByte_def Let_def spi_like_defs)

definition at_reset :: "abs_spi \<Rightarrow> abs_spi" where
  "at_reset a = a\<lparr>as_on := False, as_mode := 0, as_div := as_home a, as_linked := False, as_rx := [], as_has := False\<rparr>"

lemma spi_like_reset:
  assumes l: "spi_like a p ds s"
  shows "\<exists>p' ds' s'. spi_reset (p, ds, s) = (p', ds', s') \<and> spi_like (at_reset a) p' ds' s' \<and>
      cout s' = cout s \<and> sb s' = sb s"
  using l spi_wf_neqs [OF spi_likeD(1) [OF l]]
  by (simp add: spi_reset_def spi_disable_def Let_def spi_like_defs at_reset_def)

lemma spi_at_write:
  assumes "as_on a" and "as_linked a"
  shows "runs spi_at (machine (spi_hal_writeByte True b)) (a, xs)
    (a\<lparr>as_slave := snd (sim_spi_transfer b (as_slave a)), as_rx := as_rx a @ [fst (sim_spi_transfer b (as_slave a))],
       as_has := True\<rparr>, xs)"
proof -
  have eq: "spi_hal_writeByte True b = via_spi (spi_writeByte sim_spi_transfer b)" by (simp add: fun_eq_iff spi_hal_writeByte_def)
  show ?thesis unfolding eq by (rule spi_at_call) (use spi_like_write [OF _ assms] in blast)
qed

lemma spi_at_transfer:
  assumes "as_on a" and "as_linked a"
  shows "runs spi_at (machine (say_result (spi_hal_transfer True b) f)) (a, xs)
    (a\<lparr>as_slave := snd (sim_spi_transfer b (as_slave a)), as_has := True\<rparr>, xs @ f (fst (sim_spi_transfer b (as_slave a))))"
  unfolding runs_def
proof (intro allI impI)
  fix c :: "('w, 'z demo_st_scheme) computer"
  assume c: "spi_at (a, xs) c"
  let ?s = "snd (world c)"
  have "spi_like a (spi0 ?s) (spi_devs ?s) ?s" using c by (simp add: spi_at_def Let_def)
  from spi_like_transfer [OF this assms, of b] obtain p ds s where
    "spi_transfer sim_spi_transfer b (spi0 ?s, spi_devs ?s, ?s) = ret (fst (sim_spi_transfer b (as_slave a))) (p, ds, s)"
    "spi_like (a\<lparr>as_slave := snd (sim_spi_transfer b (as_slave a)), as_has := True\<rparr>) p ds s" "cout s = cout ?s" "sb s = sb ?s"
    by blast
  then show "\<exists>c'. machine (say_result (spi_hal_transfer True b) f) c = Some (ret () c') \<and>
      spi_at (a\<lparr>as_slave := snd (sim_spi_transfer b (as_slave a)), as_has := True\<rparr>,
        xs @ f (fst (sim_spi_transfer b (as_slave a)))) c'"
    using c by (simp add: machine_def via_bus_def say_result_def spi_hal_transfer_def via_spi_def say_def spi_at_def Let_def puts_append)
qed

text \<open>The loop prints every byte that waits.\<close>

lemma spi_drain_like:
  assumes "spi_like a (spi0 s) (spi_devs s) s" and "as_on a" and "as_rx a = [] \<Longrightarrow> \<not> as_has a"
  shows "\<exists>s'. spi_demo_drain s = ret () s' \<and>
    spi_like (a\<lparr>as_rx := [], as_has := False\<rparr>) (spi0 s') (spi_devs s') s' \<and> sb s' = sb s \<and>
    cout s' = puts (concat (map (\<lambda>b. [Str ''  Received byte: 0x''] @ hex2 (unat b) @ [Str nl]) (as_rx a))) (cout s)"
  using assms
proof (induction "as_rx a" arbitrary: a s)
  case Nil
  then have no: "\<not> spi_hasData (spi0 s)" and a: "a\<lparr>as_rx := [], as_has := False\<rparr> = a"
    by (cases a; simp add: spi_like_def spi_hasData_def)+
  show ?case unfolding a using no Nil by (simp add: spi_demo_drain.simps [of s] puts_def)
next
  case (Cons b bs)
  have has: "spi_hasData (spi0 s)" using Cons.hyps(2) Cons.prems(1) by (auto simp: spi_like_def spi_hasData_def)
  obtain p s1 where r: "spi_readByte (spi0 s, spi_devs s, s) = ret b (p, spi_devs s, s1)"
    and l: "spi_like (a\<lparr>as_rx := bs, as_has := (as_has a \<and> bs \<noteq> [])\<rparr>) p (spi_devs s) s1" and f: "cout s1 = cout s" "sb s1 = sb s"
    using spi_like_read [OF Cons.prems(1,2) Cons.hyps(2) [symmetric]] by blast
  let ?out = "[Str ''  Received byte: 0x''] @ hex2 (unat b) @ [Str nl]"
  let ?t = "s1\<lparr>spi0 := p, spi_devs := spi_devs s, cout := puts ?out (cout s)\<rparr>"
  have "spi_demo_drain s = spi_demo_drain ?t"
    using r has f by (subst spi_demo_drain.simps) (simp add: spi_hal_readByte_def via_spi_def say_def)
  moreover have "spi_like (a\<lparr>as_rx := bs, as_has := (as_has a \<and> bs \<noteq> [])\<rparr>) (spi0 ?t) (spi_devs ?t) ?t" using l by simp
  from Cons.hyps(1) [OF _ this] Cons.prems(2) obtain u where "spi_demo_drain ?t = ret () u"
    "spi_like (a\<lparr>as_rx := [], as_has := False\<rparr>) (spi0 u) (spi_devs u) u" "sb u = sb ?t"
    "cout u = puts (concat (map (\<lambda>b. [Str ''  Received byte: 0x''] @ hex2 (unat b) @ [Str nl]) bs)) (cout ?t)"
    by auto
  ultimately show ?case using f by (simp add: puts_append [symmetric] Cons.hyps(2) [symmetric])
qed

lemma spi_at_drain:
  assumes "as_on a" and "as_rx a \<noteq> []"
  shows "runs spi_at (machine spi_demo_drain) (a, xs)
    (a\<lparr>as_rx := [], as_has := False\<rparr>, xs @ concat (map (\<lambda>b. [Str ''  Received byte: 0x''] @ hex2 (unat b) @ [Str nl]) (as_rx a)))"
  unfolding runs_def
proof (intro allI impI)
  fix c :: "('w, 'z demo_st_scheme) computer"
  assume c: "spi_at (a, xs) c"
  let ?s = "snd (world c)"
  have "spi_like a (spi0 ?s) (spi_devs ?s) ?s" using c by (simp add: spi_at_def Let_def)
  from spi_drain_like [OF this assms(1)] assms(2) show
    "\<exists>c'. machine spi_demo_drain c = Some (ret () c') \<and> spi_at (a\<lparr>as_rx := [], as_has := False\<rparr>,
      xs @ concat (map (\<lambda>b. [Str ''  Received byte: 0x''] @ hex2 (unat b) @ [Str nl]) (as_rx a))) c'"
    using c by (auto simp: machine_def via_bus_def spi_at_def Let_def puts_append)
qed

section \<open>The transcript\<close>

definition spi_demo_text :: string where
  "spi_demo_text =
     ''Starting Serial Peripheral Interface (SPI) Demo...'' @ nl @
     ''SPI Peripheral enabled.'' @ nl @
     ''  Base Address:  0x40004000'' @ nl @
     ''  Clock Divider: 8'' @ nl @
     ''  SPI Mode:      0'' @ nl @ nl @
     ''--- Demo 1: Full-Duplex SPI Command Transmission ---'' @ nl @
     ''  TX: 0x9f --> RX: 0x00'' @ nl @
     ''  TX: 0x00 --> RX: 0xc2'' @ nl @
     ''  TX: 0x00 --> RX: 0x20'' @ nl @ nl @
     ''Slave Device Received Payload: 0x9f 0x00 0x00 '' @ nl @ nl @
     ''--- Demo 2: Firmware Stream Buffer Transfer ---'' @ nl @
     ''Firmware read back received responses from SPI HAL:'' @ nl @
     ''  Received byte: 0xaa'' @ nl @
     ''  Received byte: 0xaa'' @ nl @
     ''  Received byte: 0xaa'' @ nl @
     ''  Received byte: 0xaa'' @ nl @ nl @
     ''Resetting SystemBus...'' @ nl @
     ''SPI Enabled after reset? No'' @ nl @ nl @
     ''SPI Controller Demo completed successfully.'' @ nl"

lemma spi_like_bus [simp]:
  "spi_like a p ds (s\<lparr>clock := k, esched := e\<rparr>) = spi_like a p ds s"
  "spi_like a p ds (t\<lparr>sb := b\<rparr>) = spi_like a p ds t"
  "spi_like a p ds (t\<lparr>sb := b, spi0 := p', spi_devs := ds'\<rparr>) = spi_like a p ds t"
  by (simp_all add: spi_like_def spi_idle_def spi_wf_def spi_enabled_def spi_mode_def spi_clockDivider_def reg_get_def)

lemma spi_at_reset: "runs spi_at (machine (plainly sb_reset)) (a, xs) (at_reset a, xs)"
  unfolding runs_def
proof (intro allI impI)
  fix c :: "('w, 'z demo_st_scheme) computer"
  assume c: "spi_at (a, xs) c"
  let ?s = "snd (world c)"
  have "spi_like a (spi0 ?s) (spi_devs ?s) ?s" using c by (simp add: spi_at_def Let_def)
  from spi_like_reset [OF this] obtain p ds s where
    "spi_reset (spi0 ?s, spi_devs ?s, ?s) = (p, ds, s)" "spi_like (at_reset a) p ds s" "cout s = cout ?s" "sb s = sb ?s" by blast
  then show "\<exists>c'. machine (plainly sb_reset) c = Some (ret () c') \<and> spi_at (at_reset a, xs) c'"
    using c by (simp add: machine_def via_bus_def plainly_def sb_reset_def Let_def via_spi_def spi_at_def)
qed

lemma spi_init_builds:
  assumes "fresh_at [base, base + 4, base + 8, base + 12] s" and "dv \<noteq> 0" and "mode \<le> 3"
  shows "\<exists>p v w t. spi_init base dv mode s = ret p t \<and>
    t = reg_put (next_ref s + 1) v (reg_put (next_ref s + 2) w (placed [(base, 0), (base + 4, 0), (base + 8, 0), (base + 12, dv)] s)) \<and>
    spi_clockDivider p t = dv \<and> spi_mode p t = mode \<and> \<not> s_rxHasData p \<and>
    m_initialValue (reg_objs t (s_clockDivRegister p)) = dv"
proof -
  let ?t = "placed [(base, 0), (base + 4, 0), (base + 8, 0), (base + 12, dv)] s"
  let ?p = "\<lparr>s_base = base, s_dataRegister = next_ref s, s_statusRegister = next_ref s + 1, s_controlRegister = next_ref s + 2,
    s_clockDivRegister = next_ref s + 3, s_slave = None, s_rxBuffer = [], s_busy = False, s_rxHasData = False\<rparr>"
  obtain w where m: "spi_setMode ?p mode ?t = ret () (reg_put (next_ref s + 2) w ?t)"
    using assms(3) by (simp add: spi_setMode_def Let_def linorder_not_less)
  let ?m = "reg_put (next_ref s + 2) w ?t"
  have "spi_init base dv mode s = ret ?p (spi_updateStatusRegister ?p ?m)"
    using placed_chains(2) [OF assms(1), of 0 0 0 dv] assms(2,3) m
    by (simp add: spi_init_def make_chain Let_def numeral_2_eq_2 numeral_3_eq_3 linorder_not_less)
  moreover have "spi_mode ?p (spi_updateStatusRegister ?p ?m) = mode"
    using spi_mode_roundtrip [of mode ?p ?t] assms(3) m
    by (simp add: spi_updateStatusRegister_def spi_mode_def)
  moreover have "spi_clockDivider ?p (spi_updateStatusRegister ?p ?m) = dv"
    "m_initialValue (reg_objs (spi_updateStatusRegister ?p ?m) (next_ref s + 3)) = dv"
    by (simp_all add: spi_updateStatusRegister_def spi_clockDivider_def)
      (simp_all add: reg_get_def register_init_def numeral_3_eq_3 numeral_2_eq_2)
  moreover obtain v where "spi_updateStatusRegister ?p ?m = reg_put (next_ref s + 1) v ?m"
    by (simp add: spi_updateStatusRegister_def)
  ultimately show ?thesis by fastforce
qed

lemma spi_demo_begin:
  "\<exists>c. main_of [print outs, machine new_mmio, machine (plainly (sb_init False True False)),
      machine (new_spi 0x40004000 4 0), machine (plainly (sb_attachSPI True)),
      machine (plainly (\<lambda>s. s\<lparr>spi_devs := (spi_devs s)(0 := sim_spi_init 0x00)\<rparr>)),
      machine (plainly (\<lambda>s. s\<lparr>spi0 := spi_attachSlave (Some 0) (spi0 s)\<rparr>))] c0 = Some (ret () c) \<and>
    spi_at (\<lparr>as_on = False, as_mode = 0, as_div = 4, as_home = 4, as_linked = True, as_slave = sim_spi_init 0,
      as_rx = [], as_has = False\<rparr>, outs) c"
proof -
  obtain w s0 where ws: "world c0 = (w, s0)" by (cases "world c0")
  let ?s = "sb_init False True False (s0\<lparr>cout := puts outs std_cout, next_ref := 0, m_registers := []\<rparr>)"
  have "fresh_at [0x40004000, 0x40004000 + 4, 0x40004000 + 8, 0x40004000 + 12] ?s" by (simp add: fresh_at_def sb_init_def)
  from spi_init_builds [OF this, of 4 0] obtain p v u t where
    i: "spi_init 0x40004000 4 0 ?s = ret p t" and
    t: "t = reg_put (next_ref ?s + 1) v (reg_put (next_ref ?s + 2) u
      (placed [(0x40004000, 0), (0x40004000 + 4, 0), (0x40004000 + 8, 0), (0x40004000 + 12, 4)] ?s))" and
    f: "spi_clockDivider p t = 4" "spi_mode p t = 0" "\<not> s_rxHasData p" "m_initialValue (reg_objs t (s_clockDivRegister p)) = 4"
    by auto
  have fr: "cout t = puts outs std_cout" "sb t = sb ?s"
    unfolding t by (simp_all add: placed_def Let_def sb_init_def)
  let ?ds = "(spi_devs t)(0 := sim_spi_init 0)"
  let ?c = "c0\<lparr>world := (w, (sb_attachSPI True t)\<lparr>spi0 := spi_attachSlave (Some 0) p, spi_devs := ?ds\<rparr>)\<rparr>"
  have "main_of [print outs, machine new_mmio, machine (plainly (sb_init False True False)),
      machine (new_spi 0x40004000 4 0), machine (plainly (sb_attachSPI True)),
      machine (plainly (\<lambda>s. s\<lparr>spi_devs := (spi_devs s)(0 := sim_spi_init 0x00)\<rparr>)),
      machine (plainly (\<lambda>s. s\<lparr>spi0 := spi_attachSlave (Some 0) (spi0 s)\<rparr>))] c0 = Some (ret () ?c)"
    using i by (simp add: main_of_def print_def machine_def say_def via_bus_def new_mmio_def new_spi_def ws plainly_def
      sb_attachSPI_def upd_sb_def)
  moreover have "spi_like \<lparr>as_on = False, as_mode = 0, as_div = 4, as_home = 4, as_linked = True, as_slave = sim_spi_init 0,
      as_rx = [], as_has = False\<rparr> (spi_attachSlave (Some 0) p) ?ds t"
    using spi_init_idle(1) [OF i, of ?ds] spi_init_idle(2-4) [OF i] f
    by (simp add: spi_like_defs spi_attachSlave_def)
  ultimately show ?thesis
    using fr by (simp add: spi_at_def Let_def sb_attachSPI_def upd_sb_def sb_init_def)
qed

lemma spi_at_shown:
  assumes "spi_at (a, xs) c"
  shows "spi_clockDivider (spi0 (snd (world c))) (snd (world c)) = as_div a" "spi_mode (spi0 (snd (world c))) (snd (world c)) = as_mode a"
    "spi_hal_enabled True (snd (world c)) = as_on a" "spi_devs (snd (world c)) 0 = as_slave a"
  using assms by (simp_all add: spi_at_def Let_def spi_like_def spi_hal_enabled_def)

lemma spi_at_text: "spi_at (a, xs) c \<Longrightarrow> os_text (cout (snd (world c))) = os_text (puts xs std_cout)"
  by (simp add: spi_at_def Let_def)

lemma spi_demo_executes:
  fixes c0 :: "(app_world, 'z demo_st_scheme) computer"
  assumes "runs spi_at (steps rest) (\<lparr>as_on = False, as_mode = 0, as_div = 4, as_home = 4, as_linked = True,
      as_slave = sim_spi_init 0, as_rx = [], as_has = False\<rparr>, outs) (a, xs)"
    and "os_text (puts xs std_cout) = t"
  shows "\<exists>c. main_of (print outs # machine new_mmio # machine (plainly (sb_init False True False)) #
      machine (new_spi 0x40004000 4 0) # machine (plainly (sb_attachSPI True)) #
      machine (plainly (\<lambda>s. s\<lparr>spi_devs := (spi_devs s)(0 := sim_spi_init 0x00)\<rparr>)) #
      machine (plainly (\<lambda>s. s\<lparr>spi0 := spi_attachSlave (Some 0) (spi0 s)\<rparr>)) # rest) c0 = Some (ret () c) \<and>
    os_text (cout (snd (world c))) = t"
proof -
  have "os_text (cout (snd (world c))) = t" if "spi_at (a, xs) c" for c :: "(app_world, 'z demo_st_scheme) computer"
    using spi_at_text [OF that] assms(2) by simp
  from main_of_executes [OF spi_demo_begin assms(1), of "\<lambda>c. os_text (cout (snd (world c))) = t", OF this]
  show ?thesis by simp
qed

lemmas spi_at_rules =
  spi_at_enable spi_at_configure spi_at_transfer spi_at_write spi_at_drain spi_at_reset spi_at_slave spi_at_print spi_at_print_of

lemmas sim_spi_defs =
  sim_spi_init_def sim_spi_queueResponseByte_def sim_spi_clearReceivedBytes_def sim_spi_clearResponseQueue_def
  sim_spi_setDefaultResponseByte_def sim_spi_transfer_def Let_def

theorem spi_demo_transcript:
  "\<exists>c. spi_demo c0 = Some (ret () c) \<and> os_text (cout (snd (world c))) = spi_demo_text"
  unfolding spi_demo_def list.map append.simps
  by (rule spi_demo_executes,
      ((rule runs_step, (rule spi_at_rules; simp add: spi_at_shown sim_spi_defs), simp add: sim_spi_defs)+)[1], rule runs_nil)
    (simp add: render hex2_def at_reset_def spi_demo_text_def)

end
