(* ===== verification/Example_I2c.thy ===== *)
theory Example_I2c
  imports Example_Kit
begin

text \<open>
  The program of \<^verbatim>\<open>examples/i2c_demo.cpp\<close>: a write transaction, a read transaction and an address nobody
  answers, executed on the fields of the master and its slaves.
\<close>

section \<open>The program\<close>

record i2c_demo_st = demo_st +
  i2cHAL :: i2c_hal

definition via_i2c_hal ::
  "('z i2c_demo_st_scheme on_i2c_hal \<Rightarrow> ('a, 'z i2c_demo_st_scheme on_i2c_hal) outcome) \<Rightarrow>
   'z i2c_demo_st_scheme \<Rightarrow> ('a, 'z i2c_demo_st_scheme) outcome" where
  "via_i2c_hal f s = (case f (i2cHAL s, s) of (r, (h, s)) \<Rightarrow> (r, s\<lparr>i2cHAL := h\<rparr>))"

definition i2c_demo_whoAmI :: "'z i2c_demo_st_scheme \<Rightarrow> (unit, 'z i2c_demo_st_scheme) outcome" where
  "i2c_demo_whoAmI s =
     (if i2c_hal_available (i2cHAL s) > 0
      then say_result (via_i2c_hal i2c_hal_readByte) (\<lambda>whoAmI.
        [Str ''  IMU WHO_AM_I Register: 0x'', Hex, NumW 2 (unat whoAmI), Str nl]) s
      else ret () s)"

definition i2c_demo ::
  "(app_world, 'z i2c_demo_st_scheme) computer \<Rightarrow> (unit, (app_world, 'z i2c_demo_st_scheme) computer) outcome option" where
  "i2c_demo = main_of
     [print [line ''Starting Inter-Integrated Circuit (I2C) Demo...''],
      machine new_mmio,
      machine (plainly (sb_init False True False)),
      machine (new_i2c 0x40005000 0x50),
      machine (plainly (sb_attachI2C True)),
      machine (plainly (\<lambda>s. s\<lparr>i2c_devs := (i2c_devs s)(0 := sim_i2c_init 0x68 0x00)\<rparr>)),
      machine (plainly (\<lambda>s. s\<lparr>i2c_devs := (i2c_devs s)(0 := sim_i2c_queueResponseByte 0x68 (i2c_devs s 0))\<rparr>)),
      machine (plainly (\<lambda>s. s\<lparr>i2c0 := i2c_attachDevice (Some 0) (i2c0 s)\<rparr>)),
      machine (plainly (\<lambda>s. s\<lparr>i2c_devs := (i2c_devs s)(1 := sim_i2c_init 0x50 0x00)\<rparr>)),
      machine (plainly (\<lambda>s. s\<lparr>i2c0 := i2c_attachDevice (Some 1) (i2c0 s)\<rparr>)),
      machine (plainly (\<lambda>s. s\<lparr>i2cHAL := \<lparr>ih_controller = True, ih_rxQueue = []\<rparr>\<rparr>)),
      machine (via_i2c_hal i2c_hal_enable),
      print [line ''I2C Peripheral enabled.''],
      print [Str ''  Base Address: 0x'', Hex, Num 0x40005000, Dec, Str nl],
      print [line (''  Slaves Attached: IMU Sensor (0x68), EEPROM (0x50)'' @ nl)],
      print [line ''--- Demo 1: I2C Master Write Transaction (EEPROM) ---''],
      machine (say_result (via_i2c_hal (i2c_hal_beginTransmission 0x50)) (\<lambda>txOk.
        [Str ''  START Address 0x50 ACK? '', Str (if txOk then ''Yes (ACK)'' else ''No (NACK)''), Str nl])),
      machine (via_i2c_hal (i2c_hal_writeByte 0x00)),
      machine (via_i2c_hal (i2c_hal_writeByte 0x10)),
      machine (via_i2c_hal (i2c_hal_writeByte 0xDE)),
      machine (via_i2c_hal (i2c_hal_writeByte 0xAD)),
      machine (say_result (via_i2c_hal i2c_hal_endTransmission) (\<lambda>endOk.
        [Str ''  STOP Transaction Completed. ACK? '', Str (if endOk then ''Yes'' else ''No''), Str nl])),
      print [Str ''  EEPROM Received Payload: ''],
      print_of (\<lambda>c. concat (map (\<lambda>b. [Str ''0x'', Hex, NumW 2 (unat b), Str '' '']) (si_receivedBytes (i2c_devs (snd (world c)) 1)))),
      print [Str (nl @ nl)],
      print [line ''--- Demo 2: I2C Master Read Transaction (IMU Sensor) ---''],
      machine (say_result (via_i2c_hal (i2c_hal_requestFrom 0x68 1)) (\<lambda>readCount.
        [Str ''  Requested 1 byte from 0x68. Read count: '', Num readCount, Str nl])),
      machine i2c_demo_whoAmI,
      print [line (nl @ ''--- Demo 3: NACK Handling (Unattached Slave 0x3C) ---'')],
      machine (say_result (via_i2c_hal (i2c_hal_beginTransmission 0x3C)) (\<lambda>nackOk.
        [Str ''  START Address 0x3C ACK? '', Str (if nackOk then ''Yes (ACK)'' else ''No (NACK - Expected)''), Str nl])),
      machine (via_i2c_hal i2c_hal_endTransmission),
      print [line (nl @ ''Resetting SystemBus...'')],
      machine (plainly sb_reset),
      print_of (\<lambda>c. [Str ''I2C Enabled after reset? '',
        Str (if i2c_hal_enabled (i2cHAL (snd (world c)), snd (world c)) then ''Yes'' else ''No''), Str nl]),
      print [line (nl @ ''I2C Controller Demo completed successfully.'')]]"

section \<open>Its execution\<close>

record abs_i2c =
  ai_master :: i2c
  ai_slaves :: "nat \<Rightarrow> sim_i2c"
  ai_on :: bool
  ai_addr :: u32
  ai_hal :: i2c_hal

definition i2c_state :: "abs_i2c \<Rightarrow> 'z i2c_demo_st_scheme \<Rightarrow> bool" where
  "i2c_state a s \<longleftrightarrow> i2c0 s = ai_master a \<and> i2c_devs s = ai_slaves a \<and> i2cHAL s = ai_hal a \<and>
     test_flag (reg_get 2 s) 0 = ai_on a \<and> reg_get 3 s = ai_addr a \<and>
     m_initialValue (reg_objs s 2) = 0 \<and> m_initialValue (reg_objs s 3) = 0x50 \<and>
     sb s = \<lparr>sb_memory = False, sb_mmioBus = True, sb_interruptController = False, sb_dmas = [], sb_timers = [],
       sb_gpio = False, sb_uart = False, sb_spi = False, sb_i2c = True, sb_pwm = False, sb_adc = False\<rparr>"

definition placed_master :: "i2c \<Rightarrow> bool" where
  "placed_master c \<longleftrightarrow> i_dataRegister c = 0 \<and> i_statusRegister c = 1 \<and> i_controlRegister c = 2 \<and> i_addrRegister c = 3"

definition i2c_at :: "abs_i2c \<times> out list \<Rightarrow> ('w, 'z i2c_demo_st_scheme) computer \<Rightarrow> bool" where
  "i2c_at = (\<lambda>(a, outs) c. i2c_state a (snd (world c)) \<and> cout (snd (world c)) = puts outs std_cout)"

lemma machine_put_i2c [simp]:
  "i2c0 (reg_put r v s) = i2c0 s" "i2c_devs (reg_put r v s) = i2c_devs s" "sb (reg_put r v s) = sb s"
  "i2cHAL (reg_put r v t) = i2cHAL t"
  "i2c0 (reg_rst r s) = i2c0 s" "i2c_devs (reg_rst r s) = i2c_devs s" "sb (reg_rst r s) = sb s"
  "i2cHAL (reg_rst r t) = i2cHAL t"
  by (simp_all add: reg_put_def reg_rst_def)

lemma reg_get_aside [simp]:
  "reg_get r (s\<lparr>i2c0 := c\<rparr>) = reg_get r s" "reg_get r (s\<lparr>i2c_devs := ds\<rparr>) = reg_get r s"
  "reg_get r (s\<lparr>sb := b\<rparr>) = reg_get r s"
  "reg_get r (t\<lparr>i2cHAL := h\<rparr>) = reg_get r t" "reg_get r (s\<lparr>clock := k\<rparr>) = reg_get r s" "reg_get r (s\<lparr>esched := q\<rparr>) = reg_get r s"
  by (simp_all add: reg_get_def)

lemma i2c_state_print [simp]: "i2c_state a (s\<lparr>cout := os\<rparr>) = i2c_state a s"
  by (simp add: i2c_state_def reg_get_def)

interpretation i2c_out: printer i2c_at
  by unfold_locales (auto simp: i2c_at_def puts_append)

lemmas i2c_at_print = i2c_out.at_print

lemmas i2c_at_print_of = i2c_out.at_print_of

text \<open>A call with result, whose result may be printed.\<close>

definition call :: "('z i2c_demo_st_scheme \<Rightarrow> ('a, 'z i2c_demo_st_scheme) outcome) \<Rightarrow> abs_i2c \<Rightarrow> 'a \<Rightarrow> abs_i2c \<Rightarrow> bool" where
  "call f a v b \<longleftrightarrow> (\<forall>s. i2c_state a s \<longrightarrow> (\<exists>s'. f s = ret v s' \<and> i2c_state b s' \<and> cout s' = cout s))"

lemma i2c_at_call: "call f a v b \<Longrightarrow> runs i2c_at (machine f) (a, xs) (b, xs)"
  by (fastforce simp: runs_def call_def i2c_at_def machine_def via_bus_def)

lemma i2c_at_say: "call f a v b \<Longrightarrow> runs i2c_at (machine (say_result f g)) (a, xs) (b, xs @ g v)"
  by (fastforce simp: runs_def call_def i2c_at_def machine_def via_bus_def say_result_def say_def puts_append)

lemmas i2c_call_defs =
  via_i2c_hal_def i2c_hal_call_def via_i2c_def plainly_def i2c_enabled_def i2c_updateStatusRegister_def
  i2c_setAddress_def i2c_setSlaveAddress_def i2c_slaveAddress_def sim_i2c_class_def

lemma call_enable:
  assumes "placed_master (ai_master a)" and "ih_controller (ai_hal a)"
  shows "call (via_i2c_hal i2c_hal_enable) a () (a\<lparr>ai_on := True\<rparr>)"
  using assms
  by (auto simp: call_def i2c_hal_enable_def i2c_enable_def i2c_call_defs i2c_state_def placed_master_def Let_def flag_simps)

definition ai_start :: "bool \<Rightarrow> u8 \<Rightarrow> abs_i2c \<Rightarrow> abs_i2c" where
  "ai_start r t a =
     (let c = (ai_master a)\<lparr>i_busy := True, i_isReadMode := r\<rparr>
      in a\<lparr>ai_addr := ucast (t AND 0x7F), ai_master :=
        (case find (\<lambda>i. si_address (ai_slaves a i) = ucast (ucast (t AND 0x7F) AND (0x7F :: u32))) (i_devices c) of
           Some i \<Rightarrow> c\<lparr>i_lastAck := si_ackEnabled (ai_slaves a i),
                      i_activeDevice := (if si_ackEnabled (ai_slaves a i) then Some i else None)\<rparr>
         | None \<Rightarrow> c\<lparr>i_lastAck := False, i_activeDevice := None\<rparr>)\<rparr>)"

lemma call_begin:
  assumes "placed_master (ai_master a)" and "ih_controller (ai_hal a)" and "ai_on a"
  shows "call (via_i2c_hal (i2c_hal_beginTransmission t)) a (i_lastAck (ai_master (ai_start False t a))) (ai_start False t a)"
  using assms
  by (auto simp: call_def i2c_hal_beginTransmission_def i2c_start_def i2c_call_defs i2c_state_def placed_master_def Let_def
      ai_start_def sim_i2c_onStart_def split: option.splits)

lemma call_write:
  assumes "placed_master (ai_master a)" and "ih_controller (ai_hal a)" and "ai_on a" and "i_busy (ai_master a)"
    and "i_activeDevice (ai_master a) = Some i"
  shows "call (via_i2c_hal (i2c_hal_writeByte b)) a (fst (sim_i2c_onWrite b (ai_slaves a i)))
    (a\<lparr>ai_master := (ai_master a)\<lparr>i_lastAck := fst (sim_i2c_onWrite b (ai_slaves a i))\<rparr>,
       ai_slaves := (ai_slaves a)(i := snd (sim_i2c_onWrite b (ai_slaves a i)))\<rparr>)"
  using assms
  by (auto simp: call_def i2c_hal_writeByte_def i2c_writeByte_def i2c_call_defs i2c_state_def placed_master_def Let_def split_beta)

definition ai_stop :: "abs_i2c \<Rightarrow> abs_i2c" where
  "ai_stop a = a\<lparr>ai_master := (ai_master a)\<lparr>i_activeDevice := None, i_busy := False\<rparr>\<rparr>"

lemma call_end:
  assumes "placed_master (ai_master a)" and "ih_controller (ai_hal a)"
  shows "call (via_i2c_hal i2c_hal_endTransmission) a (i_lastAck (ai_master a)) (ai_stop a)"
  using assms
  by (auto simp: call_def i2c_hal_endTransmission_def i2c_stop_def i2c_call_defs i2c_state_def placed_master_def Let_def
      ai_stop_def sim_i2c_onStop_def split: option.splits)

text \<open>The read of one byte from a slave that has it queued.\<close>

definition answering :: "u8 \<Rightarrow> abs_i2c \<Rightarrow> nat option" where
  "answering t a =
     find (\<lambda>i. si_address (ai_slaves a i) = ucast (ucast (t AND 0x7F) AND (0x7F :: u32))) (i_devices (ai_master a))"

lemma call_request:
  assumes "placed_master (ai_master a)" and "ih_controller (ai_hal a)" and "ai_on a" and "i_rxBuffer (ai_master a) = []"
    and "answering t a \<noteq> None" and "si_ackEnabled (ai_slaves a (the (answering t a)))"
  shows "call (via_i2c_hal (i2c_hal_requestFrom t 1)) a 1
    ((ai_stop (ai_start True t a))\<lparr>ai_slaves := (ai_slaves a)(the (answering t a) :=
         snd (sim_i2c_onRead (ai_slaves a (the (answering t a))))),
       ai_hal := (ai_hal a)\<lparr>ih_rxQueue := [fst (sim_i2c_onRead (ai_slaves a (the (answering t a))))]\<rparr>\<rparr>)"
proof -
  obtain i where i: "answering t a = Some i" using assms(5) by blast
  then have f: "find (\<lambda>i. si_address (ai_slaves a i) = ucast (ucast (t AND 0x7F) AND (0x7F :: u32))) (i_devices (ai_master a)) = Some i"
    by (simp add: answering_def)
  have k: "si_ackEnabled (ai_slaves a i)" using assms(6) i by simp
  show ?thesis
    unfolding i option.sel using assms(1-4) f k
    by (auto simp: call_def i2c_hal_requestFrom_def i2c_start_def i2c_stop_def i2c_readByte_def i2c_call_defs i2c_state_def
        placed_master_def Let_def ai_start_def ai_stop_def sim_i2c_onStart_def sim_i2c_onStop_def numeral_eq_Suc split_beta)
qed

lemma i2c_at_whoAmI:
  assumes "ih_rxQueue (ai_hal a) \<noteq> []"
  shows "runs i2c_at (machine i2c_demo_whoAmI) (a, xs) (a\<lparr>ai_hal := (ai_hal a)\<lparr>ih_rxQueue := tl (ih_rxQueue (ai_hal a))\<rparr>\<rparr>,
    xs @ [Str ''  IMU WHO_AM_I Register: 0x'', Hex, NumW 2 (unat (hd (ih_rxQueue (ai_hal a)))), Str nl])"
  using assms
  by (auto simp: runs_def i2c_at_def i2c_state_def machine_def via_bus_def i2c_demo_whoAmI_def i2c_hal_available_def
      say_result_def via_i2c_hal_def i2c_hal_readByte_def say_def puts_append split: list.splits)

definition ai_reset :: "abs_i2c \<Rightarrow> abs_i2c" where
  "ai_reset a = a\<lparr>ai_on := False, ai_addr := 0x50, ai_master := (ai_master a)\<lparr>i_devices := [], i_activeDevice := None,
     i_rxBuffer := [], i_busy := False, i_lastAck := False\<rparr>\<rparr>"

lemma call_reset:
  assumes "placed_master (ai_master a)"
  shows "call (plainly sb_reset) a () (ai_reset a)"
  using assms
  by (auto simp: call_def sb_reset_def i2c_reset_def i2c_disable_def i2c_call_defs i2c_state_def placed_master_def Let_def
      ai_reset_def flag_simps)

lemma call_slave:
  "call (plainly (\<lambda>s. s\<lparr>i2c_devs := (i2c_devs s)(k := f (i2c_devs s k))\<rparr>)) a ()
     (a\<lparr>ai_slaves := (ai_slaves a)(k := f (ai_slaves a k))\<rparr>)"
  "call (plainly (\<lambda>s. s\<lparr>i2c_devs := (i2c_devs s)(k := d)\<rparr>)) a () (a\<lparr>ai_slaves := (ai_slaves a)(k := d)\<rparr>)"
  "call (plainly (\<lambda>s. s\<lparr>i2c0 := g (i2c0 s)\<rparr>)) a () (a\<lparr>ai_master := g (ai_master a)\<rparr>)"
  "call (plainly (\<lambda>s. s\<lparr>i2cHAL := h\<rparr>)) a () (a\<lparr>ai_hal := h\<rparr>)"
  by (auto simp: call_def plainly_def i2c_state_def)

section \<open>The transcript\<close>

definition fresh_i2c :: "(nat \<Rightarrow> sim_i2c) \<Rightarrow> i2c_hal \<Rightarrow> abs_i2c" where
  "fresh_i2c ds h = \<lparr>ai_master = \<lparr>i_base = 0x40005000, i_dataRegister = 0, i_statusRegister = 1, i_controlRegister = 2,
     i_addrRegister = 3, i_devices = [], i_activeDevice = None, i_rxBuffer = [], i_busy = False, i_lastAck = False,
     i_isReadMode = False\<rparr>, ai_slaves = ds, ai_on = False, ai_addr = 0x50, ai_hal = h\<rparr>"

lemma i2c_init_builds:
  assumes "fresh_at [base, base + 4, base + 8, base + 12] s" and "next_ref s = 0"
  shows "i2c_init base a s =
    (let c = \<lparr>i_base = base, i_dataRegister = 0, i_statusRegister = 1, i_controlRegister = 2, i_addrRegister = 3,
       i_devices = [], i_activeDevice = None, i_rxBuffer = [], i_busy = False, i_lastAck = False, i_isReadMode = False\<rparr>
     in ret c (i2c_updateStatusRegister c (placed [(base, 0), (base + 4, 0), (base + 8, 0), (base + 12, ucast (a AND 0x7F))] s)))"
  using placed_chains(2) [OF assms(1), of 0 0 0 "ucast (a AND 0x7F)"] assms(2)
  by (simp add: i2c_init_def make_chain Let_def numeral_2_eq_2 numeral_3_eq_3)

lemma i2c_demo_begin:
  "\<exists>c. main_of [print outs, machine new_mmio, machine (plainly (sb_init False True False)),
      machine (new_i2c 0x40005000 0x50), machine (plainly (sb_attachI2C True))] c0 = Some (ret () c) \<and>
    i2c_at (fresh_i2c (i2c_devs (snd (world c0))) (i2cHAL (snd (world c0))), outs) c"
proof -
  obtain w s0 where ws: "world c0 = (w, s0)" by (cases "world c0")
  let ?s = "sb_init False True False (s0\<lparr>cout := puts outs std_cout, next_ref := 0, m_registers := []\<rparr>)"
  let ?p = "placed [(0x40005000, 0), (0x40005000 + 4, 0), (0x40005000 + 8, 0), (0x40005000 + 12, 0x50)] ?s"
  let ?i = "ai_master (fresh_i2c (i2c_devs s0) (i2cHAL s0))"
  have "fresh_at [0x40005000, 0x40005000 + 4, 0x40005000 + 8, 0x40005000 + 12] ?s" by (simp add: fresh_at_def sb_init_def)
  from i2c_init_builds [where a = "0x50", OF this]
  have i: "i2c_init 0x40005000 0x50 ?s = ret ?i (i2c_updateStatusRegister ?i ?p)"
    by (simp add: fresh_i2c_def sb_init_def Let_def)
  obtain v where v: "i2c_updateStatusRegister ?i ?p = reg_put 1 v ?p" by (simp add: i2c_updateStatusRegister_def fresh_i2c_def)
  let ?c = "c0\<lparr>world := (w, (sb_attachI2C True (reg_put 1 v ?p))\<lparr>i2c0 := ?i\<rparr>)\<rparr>"
  have "main_of [print outs, machine new_mmio, machine (plainly (sb_init False True False)),
      machine (new_i2c 0x40005000 0x50), machine (plainly (sb_attachI2C True))] c0 = Some (ret () ?c)"
    using i v by (simp add: main_of_def print_def machine_def say_def via_bus_def new_mmio_def new_i2c_def ws plainly_def
      sb_attachI2C_def upd_sb_def)
  moreover have "i2c_at (fresh_i2c (i2c_devs s0) (i2cHAL s0), outs) ?c"
    by (simp add: i2c_at_def i2c_state_def sb_attachI2C_def upd_sb_def sb_init_def fresh_i2c_def)
      (simp add: placed_def Let_def reg_get_def register_init_def numeral_2_eq_2 numeral_3_eq_3)
  ultimately show ?thesis using ws by auto
qed

lemma i2c_at_shown:
  assumes "i2c_at (a, xs) c"
  shows "i2c_devs (snd (world c)) = ai_slaves a"
    and "placed_master (ai_master a) \<Longrightarrow> ih_controller (ai_hal a) \<Longrightarrow>
      i2c_hal_enabled (i2cHAL (snd (world c)), snd (world c)) = ai_on a"
    and "os_text (cout (snd (world c))) = os_text (puts xs std_cout)"
  using assms by (simp_all add: i2c_at_def i2c_state_def i2c_hal_enabled_def i2c_enabled_def placed_master_def)

lemma i2c_demo_executes:
  fixes c0 :: "(app_world, 'z i2c_demo_st_scheme) computer"
  assumes "runs i2c_at (steps rest) (fresh_i2c (i2c_devs (snd (world c0))) (i2cHAL (snd (world c0))), outs) (a, xs)"
    and "os_text (puts xs std_cout) = t"
  shows "\<exists>c. main_of (print outs # machine new_mmio # machine (plainly (sb_init False True False)) #
      machine (new_i2c 0x40005000 0x50) # machine (plainly (sb_attachI2C True)) # rest) c0 = Some (ret () c) \<and>
    os_text (cout (snd (world c))) = t"
proof -
  have "os_text (cout (snd (world c))) = t" if "i2c_at (a, xs) c" for c :: "(app_world, 'z i2c_demo_st_scheme) computer"
    using i2c_at_shown(3) [OF that] assms(2) by simp
  from main_of_executes [OF i2c_demo_begin assms(1), of "\<lambda>c. os_text (cout (snd (world c))) = t", OF this]
  show ?thesis by simp
qed

lemmas i2c_at_rules =
  i2c_at_whoAmI call_begin [THEN i2c_at_say] call_end [THEN i2c_at_say] call_request [THEN i2c_at_say]
  call_enable [THEN i2c_at_call] call_write [THEN i2c_at_call] call_end [THEN i2c_at_call] call_reset [THEN i2c_at_call]
  call_slave [THEN i2c_at_call] i2c_at_print i2c_at_print_of

lemmas i2c_defs = answering_def placed_master_def fresh_i2c_def ai_start_def ai_stop_def ai_reset_def sim_i2c_init_def
  sim_i2c_queueResponseByte_def sim_i2c_onWrite_def sim_i2c_onRead_def i2c_attachDevice_def

definition i2c_demo_text :: string where
  "i2c_demo_text =
     ''Starting Inter-Integrated Circuit (I2C) Demo...'' @ nl @
     ''I2C Peripheral enabled.'' @ nl @
     ''  Base Address: 0x40005000'' @ nl @
     ''  Slaves Attached: IMU Sensor (0x68), EEPROM (0x50)'' @ nl @ nl @
     ''--- Demo 1: I2C Master Write Transaction (EEPROM) ---'' @ nl @
     ''  START Address 0x50 ACK? Yes (ACK)'' @ nl @
     ''  STOP Transaction Completed. ACK? Yes'' @ nl @
     ''  EEPROM Received Payload: 0x 0 0x10 0xde 0xad '' @ nl @ nl @
     ''--- Demo 2: I2C Master Read Transaction (IMU Sensor) ---'' @ nl @
     ''  Requested 1 byte from 0x68. Read count: 1'' @ nl @
     ''  IMU WHO_AM_I Register: 0x68'' @ nl @ nl @
     ''--- Demo 3: NACK Handling (Unattached Slave 0x3C) ---'' @ nl @
     ''  START Address 0x3C ACK? No (NACK - Expected)'' @ nl @ nl @
     ''Resetting SystemBus...'' @ nl @
     ''I2C Enabled after reset? No'' @ nl @ nl @
     ''I2C Controller Demo completed successfully.'' @ nl"

theorem i2c_demo_transcript:
  "\<exists>c. i2c_demo c0 = Some (ret () c) \<and> os_text (cout (snd (world c))) = i2c_demo_text"
  unfolding i2c_demo_def
  apply (rule i2c_demo_executes,
      ((rule runs_step, (rule i2c_at_rules; simp add: i2c_defs i2c_at_shown), simp add: i2c_defs)+)[1])
   apply (rule runs_nil)
    apply (simp add: render i2c_demo_text_def)
  done

end
