(* ===== verification/Example_Pwm.thy ===== *)
theory Example_Pwm
  imports Example_Kit
begin

text \<open>
  The program of \<^verbatim>\<open>examples/pwm_demo.cpp\<close>, executed on the settings of a PWM channel and the counter of
  its timer. What it prints is not what its comments say: from the second duty cycle on the output is high in
  every sample.
\<close>

section \<open>The program\<close>

text \<open>The loop that counts the cycles with a high and with a low output.\<close>

fun pwm_demo_sample :: "nat \<Rightarrow> nat \<Rightarrow> nat \<Rightarrow> 'z bus_st_scheme \<Rightarrow> (nat \<times> nat, 'z bus_st_scheme) outcome" where
  "pwm_demo_sample 0 highCycles lowCycles s = ret (highCycles, lowCycles) s"
| "pwm_demo_sample (Suc n) highCycles lowCycles s =
     (let (highCycles, lowCycles) =
        (if pwm_hal_outputState True s then (highCycles + 1, lowCycles) else (highCycles, lowCycles + 1))
      in and_then (sb_tickTimers s) (\<lambda>_. pwm_demo_sample n highCycles lowCycles))"

definition pwm_demo_level :: "u32 \<Rightarrow> 'z demo_st_scheme \<Rightarrow> (unit, 'z demo_st_scheme) outcome" where
  "pwm_demo_level duty s =
     and_then (pwm_hal_setDutyCycle True duty s) (\<lambda>_ s.
       and_then (pwm_demo_sample 1000 0 0 s) (\<lambda>(highCycles, lowCycles) s.
         say [Str ''  Duty: '', NumW 3 (unat duty), Str ''% | Output HIGH: '', NumW 4 highCycles,
              Str '' cycles | Output LOW: '', NumW 4 lowCycles, Str '' cycles | Pin State: '',
              Str (if pwm_hal_outputState True s then ''HIGH'' else ''LOW''), Str nl] s))"

definition pwm_demo ::
  "(app_world, 'z demo_st_scheme) computer \<Rightarrow> (unit, (app_world, 'z demo_st_scheme) computer) outcome option" where
  "pwm_demo = main_of
     ([print [line ''Starting Pulse Width Modulation (PWM) Demo...''],
       machine new_mmio,
       machine (plainly (sb_init False True False)),
       machine (new_pwm 0 0x40006000 1000 0 1000000),
       machine (plainly (sb_attachPWM True)),
       machine (pwm_hal_enable True),
       print [line ''PWM Peripheral enabled.''],
       print [Str ''  Base Address: 0x'', Hex, Num 0x40006000, Dec, Str nl],
       machine (say_result (pwm_hal_frequency True) (\<lambda>f. [Str ''  Frequency:    '', Num (unat f), Str ('' Hz'' @ nl)])),
       machine (say_result (pwm_hal_dutyCycle True) (\<lambda>d. [Str ''  Duty Cycle:   '', Num (unat d), Str (''%'' @ nl @ nl)])),
       print [line ''--- Demo 1: LED Dimming Simulation (Duty Cycle Sweeping) ---'']] @
      map (\<lambda>duty. machine (pwm_demo_level duty)) [0, 25, 50, 75, 100] @
      [print [line (nl @ ''--- Demo 2: Frequency Reconfiguration ---'')],
       machine (pwm_hal_setFrequency True 5000),
       machine (pwm_hal_setDutyCycle True 50),
       machine (\<lambda>s. and_then (pwm_hal_frequency True s) (\<lambda>f. say_result (pwm_hal_dutyCycle True) (\<lambda>d.
         [Str ''  Reconfigured PWM Frequency to '', Num (unat f), Str '' Hz, Duty to '', Num (unat d), Str (''%'' @ nl)]))),
       machine (say_result (pwm_demo_sample 200 0 0) (\<lambda>(highCount5k, _).
         [Str ''  Sampled 1 period (200 cycles): HIGH for '', Num highCount5k, Str ('' cycles.'' @ nl)])),
       print [line (nl @ ''Resetting SystemBus...'')],
       machine (plainly sb_reset),
       print_of (\<lambda>c. [Str ''PWM Enabled after reset? '', Str (if pwm_hal_enabled True (snd (world c)) then ''Yes'' else ''No''), Str nl]),
       print [line (nl @ ''PWM Controller Demo completed successfully.'')]])"

section \<open>Its execution\<close>

record abs_pwm =
  ap_on :: bool
  ap_freq :: u32
  ap_duty :: u32
  ap_period :: u32
  ap_high :: u32
  ap_run :: bool
  ap_count :: u32
  ap_limit :: u32

text \<open>The registers are those that the constructor makes first on an empty bus.\<close>

definition pwm_like :: "abs_pwm \<Rightarrow> pwm \<Rightarrow> 'z timer_st_scheme \<Rightarrow> bool" where
  "pwm_like a w s \<longleftrightarrow>
     w = \<lparr>w_base = 0x40006000, w_systemClockHz = 1000000, w_controlRegister = 0, w_freqRegister = 1, w_dutyRegister = 2,
       w_statusRegister = 3, w_timer = 0, w_periodTicks = ap_period a, w_onTicks = ap_high a\<rparr> \<and>
     t_ctrlRegister (timers s 0) = 4 \<and> t_countRegister (timers s 0) = 5 \<and> t_compareRegister (timers s 0) = 6 \<and>
     t_statusRegister (timers s 0) = 7 \<and> \<not> t_interruptController (timers s 0) \<and> \<not> t_clock (timers s 0) \<and>
     \<not> t_scheduler (timers s 0) \<and>
     test_flag (reg_get 0 s) 0 = ap_on a \<and> reg_get 1 s = ap_freq a \<and> reg_get 2 s = ap_duty a \<and>
     test_flag (reg_get 4 s) 0 = ap_run a \<and> reg_get 5 s = ap_count a \<and> reg_get 6 s = ap_limit a \<and>
     m_initialValue (reg_objs s 0) = 0 \<and> m_initialValue (reg_objs s 1) = 1000 \<and> m_initialValue (reg_objs s 2) = 0 \<and>
     m_initialValue (reg_objs s 4) = 0 \<and> m_initialValue (reg_objs s 5) = 0"

definition ap_retune :: "abs_pwm \<Rightarrow> abs_pwm" where
  "ap_retune a =
     (let p = 1000000 div (if ap_freq a = 0 then 1 else ap_freq a);
          p = (if p = 0 then 1 else p)
      in a\<lparr>ap_period := p, ap_high := ucast ((ucast p * ucast (ap_duty a) :: u64) div 100),
           ap_limit := (if ap_on a then p else ap_limit a)\<rparr>)"

definition ap_tick :: "abs_pwm \<Rightarrow> abs_pwm" where
  "ap_tick a =
     (if \<not> ap_on a then a
      else if ap_limit a \<le> ap_count a + 1 then a\<lparr>ap_run := False, ap_count := ap_limit a\<rparr>
      else a\<lparr>ap_run := True, ap_count := ap_count a + 1\<rparr>)"

definition ap_out :: "abs_pwm \<Rightarrow> bool" where
  "ap_out a \<longleftrightarrow> ap_on a \<and> ap_duty a \<noteq> 0 \<and>
     (ap_duty a = 100 \<or> (if ap_period a > 0 then ap_count a mod ap_period a else 0) < ap_high a)"

lemma pwm_like_frame [simp]:
  "pwm_like a w (s\<lparr>pwm0 := v\<rparr>) = pwm_like a w s" "pwm_like a w (t\<lparr>cout := os\<rparr>) = pwm_like a w t"
  "pwm_like a w (u\<lparr>clock := k\<rparr>) = pwm_like a w u" "pwm_like a w (u\<lparr>esched := q\<rparr>) = pwm_like a w u"
  "pwm_like a w (s\<lparr>sb := b\<rparr>) = pwm_like a w s"
  by (simp_all add: pwm_like_def reg_get_def)

text \<open>What the channel's own operations leave alone.\<close>

definition aside :: "'z demo_st_scheme \<Rightarrow> 'z demo_st_scheme \<Rightarrow> bool" where
  "aside s s' \<longleftrightarrow> cout s' = cout s \<and> sb s' = sb s"

lemma aside_put [simp]: "aside s (reg_put r v t) = aside s t" "aside s (reg_rst r t) = aside s t" "aside s s"
  by (simp_all add: aside_def)

text \<open>The operations of a timer that is on its own, with its registers where the constructor puts them.\<close>

definition lone :: "'z timer_st_scheme \<Rightarrow> bool" where
  "lone s \<longleftrightarrow> t_ctrlRegister (timers s 0) = 4 \<and> t_countRegister (timers s 0) = 5 \<and> t_compareRegister (timers s 0) = 6 \<and>
     t_statusRegister (timers s 0) = 7 \<and> \<not> t_interruptController (timers s 0) \<and> \<not> t_clock (timers s 0) \<and>
     \<not> t_scheduler (timers s 0)"

lemma lone_put [simp]: "lone (reg_put r v s) = lone s" "lone (reg_rst r s) = lone s"
  by (simp_all add: lone_def)

lemma lone_ops:
  assumes "lone s"
  shows "timer_start 0 s = reg_put 4 (set_flag (reg_get 4 s) 0) s"
    and "timer_stop 0 s = reg_put 4 (clear_flag (reg_get 4 s) 0) s"
    and "timer_setCompare 0 v s = reg_put 6 v s"
    and "timer_setAutoReset 0 b s = reg_put 4 (put_flag b (reg_get 4 s) 2) s"
    and "timer_running 0 s = test_flag (reg_get 4 s) 0"
    and "timer_counter 0 s = reg_get 5 s"
    and "timer_reset 0 s = reg_rst 4 (reg_rst 7 (reg_rst 5 (reg_put 4 (clear_flag (reg_get 4 s) 0) s)))"
  using assms
  by (simp_all add: lone_def timer_start_def timer_stop_def timer_setCompare_def timer_setAutoReset_def timer_running_def
      timer_reset_def timer_counter_def timer_updateScheduledEvent_def timer_cancelScheduledEvent_def timer_syncClock_def Let_def)

lemma lone_match:
  assumes "lone s" and "test_flag (reg_get 4 s) 0"
  shows "timer_handleCompareMatch 0 s =
    ret () (timer_stop 0 (reg_put 7 (set_flag (reg_get 7 (reg_put 5 (reg_get 6 s) s)) 0) (reg_put 5 (reg_get 6 s) s)))"
proof -
  let ?m = "reg_put 7 (set_flag (reg_get 7 (reg_put 5 (reg_get 6 s) s)) 0) (reg_put 5 (reg_get 6 s) s)"
  have "lone ?m" using assms(1) by simp
  note stop = lone_ops(2) [OF this]
  show ?thesis
    using assms unfolding timer_handleCompareMatch_def Let_def
    by (simp add: lone_def timer_running_def timer_compare_def stop)
qed

lemma lone_tick:
  assumes "lone s" and "test_flag (reg_get 4 s) 0"
  shows "timer_tick 0 s =
    (if reg_get 6 s \<le> reg_get 5 s + 1
     then timer_handleCompareMatch 0 (reg_put 5 (reg_get 5 s + 1) s) else ret () (reg_put 5 (reg_get 5 s + 1) s))"
  using assms by (simp add: lone_def timer_tick_def timer_running_def timer_stepAmount_def timer_syncClock_def Let_def)

definition pwm_regs_like :: "abs_pwm \<Rightarrow> 'z mmio_st_scheme \<Rightarrow> bool" where
  "pwm_regs_like a s \<longleftrightarrow>
     test_flag (reg_get 0 s) 0 = ap_on a \<and> reg_get 1 s = ap_freq a \<and> reg_get 2 s = ap_duty a \<and>
     test_flag (reg_get 4 s) 0 = ap_run a \<and> reg_get 5 s = ap_count a \<and> reg_get 6 s = ap_limit a \<and>
     m_initialValue (reg_objs s 0) = 0 \<and> m_initialValue (reg_objs s 1) = 1000 \<and> m_initialValue (reg_objs s 2) = 0 \<and>
     m_initialValue (reg_objs s 4) = 0 \<and> m_initialValue (reg_objs s 5) = 0"

lemma pwm_like_unfold:
  "pwm_like a w s \<longleftrightarrow>
     w = \<lparr>w_base = 0x40006000, w_systemClockHz = 1000000, w_controlRegister = 0, w_freqRegister = 1, w_dutyRegister = 2,
       w_statusRegister = 3, w_timer = 0, w_periodTicks = ap_period a, w_onTicks = ap_high a\<rparr> \<and> lone s \<and> pwm_regs_like a s"
  by (auto simp: pwm_like_def lone_def pwm_regs_like_def)

lemmas pwm_calls =
  pwm_enable_def pwm_disable_def pwm_tick_def pwm_setFrequency_def pwm_setDutyCycle_def pwm_reset_def
  pwm_updatePeriodAndDuty_def pwm_updateStatusRegister_def pwm_enabled_def pwm_frequency_def pwm_dutyCycle_def

lemma pwm_like_enable:
  assumes "pwm_like a w s"
  shows "\<exists>w' s'. pwm_enable (w, s) = (w', s') \<and> pwm_like (a\<lparr>ap_on := True, ap_run := True, ap_limit := ap_period a\<rparr>) w' s' \<and> aside s s'"
  using assms by (simp add: pwm_calls pwm_like_unfold lone_ops Let_def) (simp add: pwm_regs_like_def flag_simps)

lemma pwm_like_retune:
  assumes "pwm_like a w s"
  shows "\<exists>w' s'. pwm_updatePeriodAndDuty (w, s) = (w', s') \<and> pwm_like (ap_retune a) w' s' \<and> aside s s'"
  using assms by (simp add: pwm_calls pwm_like_unfold lone_ops Let_def ap_retune_def) (simp add: pwm_regs_like_def)

lemma pwm_like_status:
  assumes "pwm_like a w s"
  shows "pwm_like a w (pwm_updateStatusRegister w s) \<and> aside s (pwm_updateStatusRegister w s)"
  using assms by (simp add: pwm_updateStatusRegister_def pwm_like_unfold) (simp add: pwm_regs_like_def)

lemma pwm_like_count:
  assumes "pwm_like a w s" and "ap_run a"
  shows "\<exists>t. timer_tick 0 s = ret () t \<and> aside s t \<and> pwm_like
    (if ap_limit a \<le> ap_count a + 1 then a\<lparr>ap_run := False, ap_count := ap_limit a\<rparr> else a\<lparr>ap_count := ap_count a + 1\<rparr>) w t"
proof -
  have l: "lone s" "test_flag (reg_get 4 s) 0" "reg_get 6 s = ap_limit a" "reg_get 5 s = ap_count a"
    using assms by (simp_all add: pwm_like_unfold pwm_regs_like_def)
  let ?n = "reg_put 5 (ap_count a + 1) s"
  let ?m = "reg_put 7 (set_flag (reg_get 7 (reg_put 5 (reg_get 6 ?n) ?n)) 0) (reg_put 5 (reg_get 6 ?n) ?n)"
  have m: "lone ?m" "timer_handleCompareMatch 0 ?n = ret () (timer_stop 0 ?m)"
    using l(1,2) by (simp, intro lone_match) simp_all
  have "pwm_like (a\<lparr>ap_run := False, ap_count := ap_limit a\<rparr>) w (timer_stop 0 ?m)" "aside s (timer_stop 0 ?m)"
    unfolding lone_ops(2) [OF m(1)] using assms(1) by (simp_all add: pwm_like_unfold) (simp add: pwm_regs_like_def flag_simps)
  moreover have "pwm_like (a\<lparr>ap_count := ap_count a + 1\<rparr>) w ?n" "aside s ?n"
    using assms(1) by (simp_all add: pwm_like_unfold) (simp add: pwm_regs_like_def)
  ultimately show ?thesis using lone_tick [OF l(1,2)] l(3,4) m(2) by auto
qed

lemma pwm_like_tick:
  assumes "pwm_like a w s"
  shows "\<exists>w' s'. pwm_tick (w, s) = ret () (w', s') \<and> pwm_like (ap_tick a) w' s' \<and> aside s s'"
proof (cases "ap_on a")
  case True
  let ?r = "if test_flag (reg_get 4 s) 0 then s else reg_put 4 (set_flag (reg_get 4 s) 0) s"
  have w: "w_timer w = 0" "pwm_enabled w s" using assms True by (auto simp: pwm_like_unfold pwm_enabled_def pwm_regs_like_def)
  have "pwm_like (a\<lparr>ap_run := True\<rparr>) w ?r" using assms by (auto simp: pwm_like_unfold pwm_regs_like_def flag_simps)
  from pwm_like_count [OF this] obtain t where
    t: "timer_tick 0 ?r = ret () t" "aside ?r t" "pwm_like (ap_tick a) w t"
    using True by (auto simp: ap_tick_def split: if_splits)
  have r: "(if \<not> timer_running 0 s then timer_start 0 s else s) = ?r"
    using assms by (simp add: lone_ops pwm_like_unfold)
  have "pwm_tick (w, s) = ret () (w, pwm_updateStatusRegister w t)"
    by (simp only: pwm_tick_def Let_def prod.case sum.case w if_True r t(1))
  moreover have "aside s t" using t(2) by (simp add: aside_def split: if_splits)
  ultimately show ?thesis using pwm_like_status [OF t(3)] by (fastforce simp: aside_def)
next
  case False
  then have "\<not> pwm_enabled w s" "ap_tick a = a"
    using assms by (auto simp: pwm_like_unfold pwm_enabled_def pwm_regs_like_def ap_tick_def)
  then show ?thesis using pwm_like_status [OF assms] by (simp add: pwm_tick_def)
qed

lemma pwm_like_out: "pwm_like a w s \<Longrightarrow> pwm_outputState w s = ap_out a"
  by (auto simp: pwm_like_def pwm_outputState_def pwm_enabled_def pwm_dutyCycle_def ap_out_def timer_counter_def Let_def)


text \<open>The settings, and the reset of the bus.\<close>

lemma pwm_like_setFrequency:
  assumes "pwm_like a w s" and "hz \<noteq> 0" and "hz \<le> 1000000"
  shows "\<exists>w' s'. pwm_setFrequency hz (w, s) = ret () (w', s') \<and> pwm_like (ap_retune (a\<lparr>ap_freq := hz\<rparr>)) w' s' \<and> aside s s'"
proof -
  have w: "w_systemClockHz w = 1000000" "w_freqRegister w = 1" using assms by (simp_all add: pwm_like_unfold)
  have "pwm_like (a\<lparr>ap_freq := hz\<rparr>) w (reg_put 1 hz s)" using assms by (simp add: pwm_like_unfold) (simp add: pwm_regs_like_def)
  from pwm_like_retune [OF this] obtain v t where t: "pwm_updatePeriodAndDuty (w, reg_put 1 hz s) = (v, t)"
    "pwm_like (ap_retune (a\<lparr>ap_freq := hz\<rparr>)) v t" "aside (reg_put 1 hz s) t" by blast
  then show ?thesis using pwm_like_status [OF t(2)] assms w
    by (simp add: pwm_setFrequency_def aside_def linorder_not_less Let_def)
qed

lemma pwm_like_setDuty:
  assumes "pwm_like a w s" and "d \<le> 100"
  shows "\<exists>w' s'. pwm_setDutyCycle d (w, s) = ret () (w', s') \<and> pwm_like (ap_retune (a\<lparr>ap_duty := d\<rparr>)) w' s' \<and> aside s s'"
proof -
  have w: "w_dutyRegister w = 2" using assms by (simp add: pwm_like_unfold)
  have "pwm_like (a\<lparr>ap_duty := d\<rparr>) w (reg_put 2 d s)" using assms by (simp add: pwm_like_unfold) (simp add: pwm_regs_like_def)
  from pwm_like_retune [OF this] obtain v t where t: "pwm_updatePeriodAndDuty (w, reg_put 2 d s) = (v, t)"
    "pwm_like (ap_retune (a\<lparr>ap_duty := d\<rparr>)) v t" "aside (reg_put 2 d s) t" by blast
  then show ?thesis using pwm_like_status [OF t(2)] assms w
    by (simp add: pwm_setDutyCycle_def aside_def linorder_not_less Let_def)
qed

definition ap_reset :: "abs_pwm \<Rightarrow> abs_pwm" where
  "ap_reset a = ap_retune (a\<lparr>ap_on := False, ap_run := False, ap_freq := 1000, ap_duty := 0, ap_count := 0\<rparr>)"

lemma pwm_like_reset:
  assumes "pwm_like a w s"
  shows "\<exists>w' s'. pwm_reset (w, s) = (w', s') \<and> pwm_like (ap_reset a) w' s' \<and> aside s s'"
proof -
  have w: "w_controlRegister w = 0" "w_freqRegister w = 1" "w_dutyRegister w = 2" "w_statusRegister w = 3" "w_timer w = 0"
    and l: "lone s"
    using assms by (simp_all add: pwm_like_unfold)
  obtain x y where d: "pwm_disable (w, s) = (w, reg_put 3 y (reg_put 4 (clear_flag (reg_get 4 s) 0) (reg_put 0 x s)))"
    using l w by (simp add: pwm_disable_def lone_ops pwm_updateStatusRegister_def Let_def)
  let ?d = "reg_rst 2 (reg_rst 1 (reg_rst 0 (reg_put 3 y (reg_put 4 (clear_flag (reg_get 4 s) 0) (reg_put 0 x s)))))"
  let ?t = "timer_reset 0 ?d"
  have "lone ?d" using l by simp
  note t = lone_ops(7) [OF this]
  have "pwm_like (a\<lparr>ap_on := False, ap_run := False, ap_freq := 1000, ap_duty := 0, ap_count := 0\<rparr>) w ?t" "aside s ?t"
    unfolding t using assms by (simp_all add: pwm_like_unfold) (simp add: pwm_regs_like_def flag_simps)
  from pwm_like_retune [OF this(1)] this(2) obtain v u where u: "pwm_updatePeriodAndDuty (w, ?t) = (v, u)"
    "pwm_like (ap_reset a) v u" "aside s u" by (auto simp: aside_def ap_reset_def)
  then show ?thesis using pwm_like_status [OF u(2)] d w by (simp add: pwm_reset_def aside_def Let_def)
qed

section \<open>Sampling\<close>

definition pwm_state :: "abs_pwm \<Rightarrow> 'z demo_st_scheme \<Rightarrow> bool" where
  "pwm_state a s \<longleftrightarrow> pwm_like a (pwm0 s) s \<and>
     sb s = \<lparr>sb_memory = False, sb_mmioBus = True, sb_interruptController = False, sb_dmas = [], sb_timers = [],
       sb_gpio = False, sb_uart = False, sb_spi = False, sb_i2c = False, sb_pwm = True, sb_adc = False\<rparr>"

lemma pwm_state_out: "pwm_state a s \<Longrightarrow> pwm_hal_outputState True s = ap_out a"
  by (simp add: pwm_state_def pwm_hal_outputState_def pwm_like_out)

lemma pwm_state_ticks:
  assumes "pwm_state a s"
  shows "\<exists>s'. sb_tickTimers s = ret () s' \<and> pwm_state (ap_tick a) s' \<and> cout s' = cout s"
proof -
  let ?s = "s\<lparr>clock := clock_tick 1 (clock s)\<rparr>"
  have "pwm_like a (pwm0 s) ?s" using assms by (simp add: pwm_state_def)
  from pwm_like_tick [OF this] obtain w t where
    "pwm_tick (pwm0 s, ?s) = ret () (w, t)" "pwm_like (ap_tick a) w t" "aside ?s t" by blast
  then show ?thesis using assms by (simp add: pwm_state_def sb_tickTimers_def via_pwm_def aside_def)
qed

fun ap_sample :: "nat \<Rightarrow> nat \<Rightarrow> nat \<Rightarrow> abs_pwm \<Rightarrow> (nat \<times> nat) \<times> abs_pwm" where
  "ap_sample 0 h l a = ((h, l), a)"
| "ap_sample (Suc n) h l a = (if ap_out a then ap_sample n (h + 1) l (ap_tick a) else ap_sample n h (l + 1) (ap_tick a))"

lemma pwm_state_sample:
  "pwm_state a s \<Longrightarrow> \<exists>s'. pwm_demo_sample n h l s = ret (fst (ap_sample n h l a)) s' \<and>
     pwm_state (snd (ap_sample n h l a)) s' \<and> cout s' = cout s"
proof (induction n arbitrary: h l a s)
  case (Suc n)
  from pwm_state_ticks [OF Suc.prems] obtain t where
    t: "sb_tickTimers s = ret () t" "pwm_state (ap_tick a) t" "cout t = cout s" by blast
  show ?case
    using Suc.IH [OF t(2), of "if ap_out a then h + 1 else h" "if ap_out a then l else l + 1"] t
    by (auto simp: pwm_state_out [OF Suc.prems])
qed simp

lemma ap_tick_keeps [simp]:
  "ap_on (ap_tick a) = ap_on a" "ap_duty (ap_tick a) = ap_duty a" "ap_period (ap_tick a) = ap_period a"
  "ap_high (ap_tick a) = ap_high a" "ap_limit (ap_tick a) = ap_limit a" "ap_freq (ap_tick a) = ap_freq a"
  by (simp_all add: ap_tick_def)

text \<open>With a duty cycle of zero every sample is low, and the counter climbs to the period.\<close>

lemma ap_sample_low: "ap_duty a = 0 \<Longrightarrow> ap_sample n h l a = ((h, l + n), (ap_tick ^^ n) a)"
  by (induction n arbitrary: h l a) (simp_all add: ap_out_def funpow_swap1)

lemma ap_tick_climbs:
  assumes "ap_on a" and "ap_count a = 0" and "ap_limit a = of_nat n" and "0 < n" and "n < 2 ^ 31"
  shows "(ap_tick ^^ n) a = a\<lparr>ap_run := False, ap_count := ap_limit a\<rparr>"
proof -
  have k: "(ap_tick ^^ k) a = (if k = 0 then a else a\<lparr>ap_run := True, ap_count := of_nat k\<rparr>)" if "k < n" for k
    using that
  proof (induction k)
    case (Suc k)
    have "\<not> (of_nat n :: u32) \<le> of_nat k + 1"
      using Suc.prems assms(5) by (simp add: word_le_nat_alt unat_word_ariths unat_of_nat take_bit_nat_eq_self)
    then show ?case using Suc assms by (auto simp: ap_tick_def add.commute)
  qed simp
  obtain m where m: "n = Suc m" using assms(4) by (cases n) auto
  then show ?thesis using k [of m] assms by (auto simp: ap_tick_def add.commute)
qed

text \<open>A counter that has reached the period stays there, so the output is high in every sample.\<close>

lemma ap_sample_pinned:
  assumes "0 < n" and "ap_on a" and "ap_duty a \<noteq> 0" and "0 < ap_high a" and "0 < ap_period a"
    and "ap_count a mod ap_period a = 0" and "ap_limit a mod ap_period a = 0"
    and "ap_limit a \<le> ap_count a + 1" and "ap_limit a \<le> ap_limit a + 1"
  shows "ap_sample n h l a = ((h + n, l), a\<lparr>ap_run := False, ap_count := ap_limit a\<rparr>)"
  using assms
proof (induction n arbitrary: h a)
  case (Suc n)
  then have t: "ap_out a" "ap_tick a = a\<lparr>ap_run := False, ap_count := ap_limit a\<rparr>" by (simp_all add: ap_out_def ap_tick_def)
  show ?case
  proof (cases n)
    case (Suc k)
    then have "ap_sample n (h + 1) l (ap_tick a) = ((h + 1 + n, l), ap_tick a)"
      using Suc.IH [of "ap_tick a" "h + 1"] Suc.prems t by simp
    then show ?thesis using t by simp
  qed (use t in simp)
qed simp

section \<open>The transcript\<close>

definition pwm_at :: "abs_pwm \<times> out list \<Rightarrow> ('w, 'z demo_st_scheme) computer \<Rightarrow> bool" where
  "pwm_at = printing pwm_state"

lemma pwm_state_frame [simp]: "pwm_state a (s\<lparr>cout := os\<rparr>) = pwm_state a s"
  by (simp add: pwm_state_def)

interpretation pwm_out: printer pwm_at
  by unfold_locales (auto simp: pwm_at_def printing_def puts_append)

lemmas pwm_at_print = pwm_out.at_print

lemmas pwm_at_print_of = pwm_out.at_print_of

lemmas pwm_at_call = printing_call [where R = pwm_state, folded pwm_at_def]

lemmas pwm_at_quiet = printing_quiet [where R = pwm_state, folded pwm_at_def]

lemma pwm_state_via:
  assumes "pwm_state a s" and "\<And>w. pwm_like a w s \<Longrightarrow> \<exists>w' s'. f (w, s) = ret () (w', s') \<and> pwm_like a' w' s' \<and> aside s s'"
  shows "\<exists>s'. via_pwm f s = ret () s' \<and> pwm_state a' s' \<and> cout s' = cout s"
proof -
  have "pwm_like a (pwm0 s) s" using assms(1) by (simp add: pwm_state_def)
  from assms(2) [OF this] obtain w t where "f (pwm0 s, s) = ret () (w, t)" "pwm_like a' w t" "aside s t" by blast
  then show ?thesis using assms(1) by (simp add: via_pwm_def pwm_state_def aside_def)
qed

lemma pwm_state_settings:
  assumes "pwm_state a s"
  shows "d \<le> 100 \<Longrightarrow> \<exists>s'. pwm_hal_setDutyCycle True d s = ret () s' \<and> pwm_state (ap_retune (a\<lparr>ap_duty := d\<rparr>)) s' \<and> cout s' = cout s"
    and "hz \<noteq> 0 \<Longrightarrow> hz \<le> 1000000 \<Longrightarrow>
      \<exists>s'. pwm_hal_setFrequency True hz s = ret () s' \<and> pwm_state (ap_retune (a\<lparr>ap_freq := hz\<rparr>)) s' \<and> cout s' = cout s"
    and "\<exists>s'. pwm_hal_enable True s = ret () s' \<and>
      pwm_state (a\<lparr>ap_on := True, ap_run := True, ap_limit := ap_period a\<rparr>) s' \<and> cout s' = cout s"
proof -
  assume d: "d \<le> 100"
  show "\<exists>s'. pwm_hal_setDutyCycle True d s = ret () s' \<and> pwm_state (ap_retune (a\<lparr>ap_duty := d\<rparr>)) s' \<and> cout s' = cout s"
    by (simp add: pwm_hal_setDutyCycle_def, rule pwm_state_via [OF assms], rule pwm_like_setDuty [OF _ d])
next
  assume hz: "hz \<noteq> 0" "hz \<le> 1000000"
  show "\<exists>s'. pwm_hal_setFrequency True hz s = ret () s' \<and> pwm_state (ap_retune (a\<lparr>ap_freq := hz\<rparr>)) s' \<and> cout s' = cout s"
    by (simp add: pwm_hal_setFrequency_def, rule pwm_state_via [OF assms], rule pwm_like_setFrequency [OF _ hz])
next
  have "\<exists>w' s'. plainly pwm_enable (w, s) = ret () (w', s') \<and>
      pwm_like (a\<lparr>ap_on := True, ap_run := True, ap_limit := ap_period a\<rparr>) w' s' \<and> aside s s'" if "pwm_like a w s" for w
    using pwm_like_enable [OF that] by (auto simp: plainly_def)
  then show "\<exists>s'. pwm_hal_enable True s = ret () s' \<and>
      pwm_state (a\<lparr>ap_on := True, ap_run := True, ap_limit := ap_period a\<rparr>) s' \<and> cout s' = cout s"
    by (simp add: pwm_hal_enable_def, intro pwm_state_via [OF assms])
qed

lemma pwm_state_reset:
  assumes "pwm_state a s"
  shows "\<exists>s'. plainly sb_reset s = ret () s' \<and> pwm_state (ap_reset a) s' \<and> cout s' = cout s"
proof -
  have "pwm_like a (pwm0 s) s" using assms by (simp add: pwm_state_def)
  from pwm_like_reset [OF this] obtain w t where "pwm_reset (pwm0 s, s) = (w, t)" "pwm_like (ap_reset a) w t" "aside s t" by blast
  then show ?thesis using assms by (simp add: plainly_def sb_reset_def Let_def via_pwm_def pwm_state_def aside_def)
qed

lemma pwm_state_shown:
  "pwm_state a s \<Longrightarrow> pwm_hal_frequency True s = ret (ap_freq a) s \<and> pwm_hal_dutyCycle True s = ret (ap_duty a) s \<and>
     pwm_hal_enabled True s = ap_on a"
  by (simp add: pwm_state_def pwm_like_def pwm_hal_frequency_def pwm_hal_dutyCycle_def pwm_hal_enabled_def pwm_frequency_def
      pwm_dutyCycle_def pwm_enabled_def)

definition level_out :: "u32 \<Rightarrow> nat \<times> nat \<Rightarrow> bool \<Rightarrow> out list" where
  "level_out d hl b =
     [Str ''  Duty: '', NumW 3 (unat d), Str ''% | Output HIGH: '', NumW 4 (fst hl), Str '' cycles | Output LOW: '',
      NumW 4 (snd hl), Str '' cycles | Pin State: '', Str (if b then ''HIGH'' else ''LOW''), Str nl]"

lemma pwm_at_level:
  assumes "d \<le> 100"
  shows "runs pwm_at (machine (pwm_demo_level d)) (a, xs)
    (snd (ap_sample 1000 0 0 (ap_retune (a\<lparr>ap_duty := d\<rparr>))),
     xs @ level_out d (fst (ap_sample 1000 0 0 (ap_retune (a\<lparr>ap_duty := d\<rparr>))))
       (ap_out (snd (ap_sample 1000 0 0 (ap_retune (a\<lparr>ap_duty := d\<rparr>))))))"
proof (rule pwm_at_call)
  fix s :: "'c demo_st_scheme"
  let ?a = "ap_retune (a\<lparr>ap_duty := d\<rparr>)"
  assume "pwm_state a s"
  from pwm_state_settings(1) [OF this assms] obtain t where
    t: "pwm_hal_setDutyCycle True d s = ret () t" "pwm_state ?a t" "cout t = cout s" by blast
  from pwm_state_sample [OF t(2), of 1000 0 0] obtain u where
    u: "pwm_demo_sample 1000 0 0 t = ret (fst (ap_sample 1000 0 0 ?a)) u" "pwm_state (snd (ap_sample 1000 0 0 ?a)) u" "cout u = cout t"
    by blast
  have "pwm_demo_level d s = say (level_out d (fst (ap_sample 1000 0 0 ?a)) (ap_out (snd (ap_sample 1000 0 0 ?a)))) u"
    using t(1) u(1) by (simp add: pwm_demo_level_def level_out_def pwm_state_out [OF u(2)] split_beta)
  then show "\<exists>v s'. pwm_demo_level d s = ret v s' \<and> pwm_state (snd (ap_sample 1000 0 0 ?a)) s' \<and>
      cout s' = puts (level_out d (fst (ap_sample 1000 0 0 ?a)) (ap_out (snd (ap_sample 1000 0 0 ?a)))) (cout s)"
    using u t by (simp add: say_def)
qed

lemma pwm_at_enable:
  "runs pwm_at (machine (pwm_hal_enable True)) (a, xs) (a\<lparr>ap_on := True, ap_run := True, ap_limit := ap_period a\<rparr>, xs)"
  by (rule pwm_at_quiet) (use pwm_state_settings(3) in \<open>fastforce\<close>)

lemma pwm_at_setFrequency:
  "hz \<noteq> 0 \<Longrightarrow> hz \<le> 1000000 \<Longrightarrow>
   runs pwm_at (machine (pwm_hal_setFrequency True hz)) (a, xs) (ap_retune (a\<lparr>ap_freq := hz\<rparr>), xs)"
  by (rule pwm_at_quiet) (use pwm_state_settings(2) in \<open>fastforce\<close>)

lemma pwm_at_setDuty:
  "d \<le> 100 \<Longrightarrow> runs pwm_at (machine (pwm_hal_setDutyCycle True d)) (a, xs) (ap_retune (a\<lparr>ap_duty := d\<rparr>), xs)"
  by (rule pwm_at_quiet) (use pwm_state_settings(1) in \<open>fastforce\<close>)

lemma pwm_at_reset: "runs pwm_at (machine (plainly sb_reset)) (a, xs) (ap_reset a, xs)"
  by (rule pwm_at_quiet) (use pwm_state_reset in \<open>fastforce\<close>)

lemma pwm_at_frequency: "runs pwm_at (machine (say_result (pwm_hal_frequency True) f)) (a, xs) (a, xs @ f (ap_freq a))"
  by (rule pwm_at_call) (use pwm_state_shown in \<open>fastforce simp: say_result_def say_def\<close>)

lemma pwm_at_duty: "runs pwm_at (machine (say_result (pwm_hal_dutyCycle True) f)) (a, xs) (a, xs @ f (ap_duty a))"
  by (rule pwm_at_call) (use pwm_state_shown in \<open>fastforce simp: say_result_def say_def\<close>)

lemma pwm_at_both:
  "runs pwm_at (machine (\<lambda>s. and_then (pwm_hal_frequency True s) (\<lambda>f. say_result (pwm_hal_dutyCycle True) (g f)))) (a, xs)
     (a, xs @ g (ap_freq a) (ap_duty a))"
  by (rule pwm_at_call) (use pwm_state_shown in \<open>fastforce simp: say_result_def say_def\<close>)

lemma pwm_at_sample:
  "runs pwm_at (machine (say_result (pwm_demo_sample n 0 0) f)) (a, xs)
     (snd (ap_sample n 0 0 a), xs @ f (fst (ap_sample n 0 0 a)))"
proof (rule pwm_at_call)
  fix s :: "'d demo_st_scheme"
  assume "pwm_state a s"
  from pwm_state_sample [OF this, of n 0 0]
  show "\<exists>v s'. say_result (pwm_demo_sample n 0 0) f s = ret v s' \<and> pwm_state (snd (ap_sample n 0 0 a)) s' \<and>
      cout s' = puts (f (fst (ap_sample n 0 0 a))) (cout s)"
    by (auto simp: say_result_def say_def)
qed

lemma pwm_demo_begin:
  "\<exists>c. main_of [print outs, machine new_mmio, machine (plainly (sb_init False True False)),
      machine (new_pwm 0 0x40006000 1000 0 1000000), machine (plainly (sb_attachPWM True))] c0 = Some (ret () c) \<and>
    pwm_at (\<lparr>ap_on = False, ap_freq = 1000, ap_duty = 0, ap_period = 1000, ap_high = 0, ap_run = False, ap_count = 0,
      ap_limit = 0\<rparr>, outs) c"
proof -
  obtain w s0 where ws: "world c0 = (w, s0)" by (cases "world c0")
  let ?s = "sb_init False True False (s0\<lparr>cout := puts outs std_cout, next_ref := 0, m_registers := []\<rparr>)"
  obtain p t where i: "pwm_init 0 0x40006000 1000 0 1000000 ?s = ret p t" and
    f: "pwm_like \<lparr>ap_on = False, ap_freq = 1000, ap_duty = 0, ap_period = 1000, ap_high = 0, ap_run = False, ap_count = 0,
      ap_limit = 0\<rparr> p t" "cout t = puts outs std_cout" "sb t = sb ?s"
  proof -
    let ?m = "make_registers [(0x40006000, 0), (0x40006004, 1000), (0x40006008, 0), (0x4000600C, 0)] ?s"
    let ?t = "\<lparr>t_base = 0x40006010, t_ctrlRegister = 4, t_countRegister = 5, t_compareRegister = 6, t_statusRegister = 7,
      t_interruptController = False, t_interruptId = 0, t_clock = False, t_scheduler = False, t_scheduledEventId = 0,
      t_lastClockCycles = 0\<rparr>"
    have m: "next_ref ?m = 4" "m_registers ?m = []" "cout ?m = puts outs std_cout" "sb ?m = sb ?s"
      "\<And>r. r < 4 \<Longrightarrow> reg_objs ?m r = (if r = 0 then register_init 0x40006000 0 else if r = 1 then register_init 0x40006004 1000
        else if r = 2 then register_init 0x40006008 0 else register_init 0x4000600C 0)"
      by (auto simp: make_registers_placed sb_init_def numeral_2_eq_2 numeral_3_eq_3 less_Suc_eq)
    let ?f = "placed [(0x40006010, 0), (0x40006014, 0), (0x40006018, 0), (0x4000601C, 0)] ?m"
    have "fresh_at [0x40006010, 0x40006010 + 4, 0x40006010 + 8, 0x40006010 + 12] ?m" using m(2) by (simp add: fresh_at_def)
    from timer_init_builds [OF this] have t: "timer_init 0x40006010 ?m = ret ?t ?f" using m(1) by simp
    define x where "x = upd_timer 0 (\<lambda>_. ?t) ?f"
    have x: "m_registers x = [(0x4000601C, 7), (0x40006018, 6), (0x40006014, 5), (0x40006010, 4)]"
      "timers x 0 = ?t" "cout x = puts outs std_cout" "sb x = sb ?s"
      "reg_objs x 0 = register_init 0x40006000 0" "reg_objs x 1 = register_init 0x40006004 1000"
      "reg_objs x (Suc 0) = register_init 0x40006004 1000"
      "reg_objs x 2 = register_init 0x40006008 0" "reg_objs x 3 = register_init 0x4000600C 0"
      "reg_objs x 4 = register_init 0x40006010 0" "reg_objs x 5 = register_init 0x40006014 0" "reg_objs x 6 = register_init 0x40006018 0"
      using m unfolding x_def by (simp_all add: upd_timer_def placed_def Let_def upt_rec)
    let ?w = "\<lparr>w_base = 0x40006000, w_systemClockHz = 1000000, w_controlRegister = 0, w_freqRegister = 1, w_dutyRegister = 2,
       w_statusRegister = 3, w_timer = 0, w_periodTicks = 1000, w_onTicks = 0\<rparr>"
    define y where "y = x\<lparr>m_registers := [(0x4000600C, 3), (0x40006008, 2), (0x40006004, 1), (0x40006000, 0)] @ m_registers x\<rparr>"
    have y: "timers y 0 = ?t" "cout y = puts outs std_cout" "sb y = sb ?s"
      "reg_objs y 0 = register_init 0x40006000 0" "reg_objs y 1 = register_init 0x40006004 1000"
      "reg_objs y (Suc 0) = register_init 0x40006004 1000"
      "reg_objs y 2 = register_init 0x40006008 0" "reg_objs y 3 = register_init 0x4000600C 0"
      "reg_objs y 4 = register_init 0x40006010 0" "reg_objs y 5 = register_init 0x40006014 0" "reg_objs y 6 = register_init 0x40006018 0"
      using x by (simp_all add: y_def)
    have c: "register_chain [0, 1, 2, 3] x = (True, y)"
      using x by (simp add: register_chain.simps mmio_registerRegister_def mmio_contains_def register_init_def y_def)
    obtain s1 where s1: "?s = s1" "next_ref s1 = 0" by (simp add: sb_init_def)
    have e: "Suc 0 = 1" "Suc (Suc 0) = 2" "Suc (Suc (Suc 0)) = 3" by simp_all
    have "pwm_init 0 0x40006000 1000 0 1000000 ?s =
      (let (w, s) = pwm_updatePeriodAndDuty (?w\<lparr>w_freqRegister := Suc 0, w_dutyRegister := Suc (Suc 0),
         w_statusRegister := Suc (Suc (Suc 0)), w_onTicks := 500\<rparr>, y) in ret w (pwm_updateStatusRegister w s))"
      using c [folded e] t s1(2) unfolding s1(1)
      by (simp add: pwm_init_def make_chain x_def [symmetric, unfolded s1(1)])
    also have "\<dots> = (let (w, s) = pwm_updatePeriodAndDuty (?w\<lparr>w_onTicks := 500\<rparr>, y) in ret w (pwm_updateStatusRegister w s))"
      by (simp add: e(2) Suc_numeral)
    also have "\<dots> = ret ?w (pwm_updateStatusRegister ?w y)"
      by (simp add: pwm_updatePeriodAndDuty_def pwm_frequency_def pwm_dutyCycle_def pwm_enabled_def reg_get_def y register_init_def)
    finally have "pwm_init 0 0x40006000 1000 0 1000000 ?s = ret ?w (pwm_updateStatusRegister ?w y)" .
    moreover have "pwm_like \<lparr>ap_on = False, ap_freq = 1000, ap_duty = 0, ap_period = 1000, ap_high = 0, ap_run = False,
        ap_count = 0, ap_limit = 0\<rparr> ?w y"
      using y by (simp add: pwm_like_def reg_get_def register_init_def)
    ultimately show ?thesis using that pwm_like_status y(2,3) by (fastforce simp: pwm_updateStatusRegister_def)
  qed
  let ?c = "c0\<lparr>world := (w, (sb_attachPWM True t)\<lparr>pwm0 := p\<rparr>)\<rparr>"
  have "main_of [print outs, machine new_mmio, machine (plainly (sb_init False True False)),
      machine (new_pwm 0 0x40006000 1000 0 1000000), machine (plainly (sb_attachPWM True))] c0 = Some (ret () ?c)"
    using i by (simp add: main_of_def print_def machine_def say_def via_bus_def new_mmio_def new_pwm_def ws plainly_def
      sb_attachPWM_def upd_sb_def)
  then show ?thesis
    using f by (auto simp: pwm_at_def printing_def pwm_state_def sb_attachPWM_def upd_sb_def sb_init_def)
qed

lemma pwm_at_text: "pwm_at (a, xs) c \<Longrightarrow> os_text (cout (snd (world c))) = os_text (puts xs std_cout)"
  by (simp add: pwm_at_def printing_def)

lemma pwm_at_enabled: "pwm_at (a, xs) c \<Longrightarrow> pwm_hal_enabled True (snd (world c)) = ap_on a"
  using pwm_state_shown by (auto simp: pwm_at_def printing_def)

lemma pwm_demo_executes:
  fixes c0 :: "(app_world, 'z demo_st_scheme) computer"
  assumes "runs pwm_at (steps rest) (\<lparr>ap_on = False, ap_freq = 1000, ap_duty = 0, ap_period = 1000, ap_high = 0,
      ap_run = False, ap_count = 0, ap_limit = 0\<rparr>, outs) (a, xs)"
    and "os_text (puts xs std_cout) = t"
  shows "\<exists>c. main_of (print outs # machine new_mmio # machine (plainly (sb_init False True False)) #
      machine (new_pwm 0 0x40006000 1000 0 1000000) # machine (plainly (sb_attachPWM True)) # rest) c0 = Some (ret () c) \<and>
    os_text (cout (snd (world c))) = t"
proof -
  have "os_text (cout (snd (world c))) = t" if "pwm_at (a, xs) c" for c :: "(app_world, 'z demo_st_scheme) computer"
    using pwm_at_text [OF that] assms(2) by simp
  from main_of_executes [OF pwm_demo_begin assms(1), of "\<lambda>c. os_text (cout (snd (world c))) = t", OF this]
  show ?thesis by simp
qed

lemmas pwm_at_rules =
  pwm_at_enable pwm_at_setFrequency pwm_at_setDuty pwm_at_frequency pwm_at_duty pwm_at_both pwm_at_level pwm_at_sample pwm_at_reset
  pwm_at_print pwm_at_print_of

definition pwm_demo_text :: string where
  "pwm_demo_text =
     ''Starting Pulse Width Modulation (PWM) Demo...'' @ nl @
     ''PWM Peripheral enabled.'' @ nl @
     ''  Base Address: 0x40006000'' @ nl @
     ''  Frequency:    1000 Hz'' @ nl @
     ''  Duty Cycle:   0%'' @ nl @ nl @
     ''--- Demo 1: LED Dimming Simulation (Duty Cycle Sweeping) ---'' @ nl @
     ''  Duty:   0% | Output HIGH:    0 cycles | Output LOW: 1000 cycles | Pin State: LOW'' @ nl @
     ''  Duty:  25% | Output HIGH: 1000 cycles | Output LOW:    0 cycles | Pin State: HIGH'' @ nl @
     ''  Duty:  50% | Output HIGH: 1000 cycles | Output LOW:    0 cycles | Pin State: HIGH'' @ nl @
     ''  Duty:  75% | Output HIGH: 1000 cycles | Output LOW:    0 cycles | Pin State: HIGH'' @ nl @
     ''  Duty: 100% | Output HIGH: 1000 cycles | Output LOW:    0 cycles | Pin State: HIGH'' @ nl @ nl @
     ''--- Demo 2: Frequency Reconfiguration ---'' @ nl @
     ''  Reconfigured PWM Frequency to 5000 Hz, Duty to 50%'' @ nl @
     ''  Sampled 1 period (200 cycles): HIGH for 200 cycles.'' @ nl @ nl @
     ''Resetting SystemBus...'' @ nl @
     ''PWM Enabled after reset? No'' @ nl @ nl @
     ''PWM Controller Demo completed successfully.'' @ nl"

text \<open>
  C36. The whole of the PWM demonstration, printed character by character, from every machine. It is not what
  the program is for: at 25, 50 and 75 percent it samples a high output for all thousand cycles, because the
  output sticks after the first period.
\<close>

theorem pwm_demo_transcript:
  "\<exists>c. pwm_demo c0 = Some (ret () c) \<and> os_text (cout (snd (world c))) = pwm_demo_text"
  unfolding pwm_demo_def list.map append.simps
  by (rule pwm_demo_executes,
      ((rule runs_step, (rule pwm_at_rules; simp add: pwm_at_enabled),
        simp add: ap_retune_def ap_sample_low ap_tick_climbs ap_sample_pinned ap_out_def ap_reset_def)+)[1], rule runs_nil)
    (simp add: render level_out_def pwm_demo_text_def)

end
