(* ===== verification/Example_Events.thy ===== *)
theory Example_Events
  imports Example_Kit
begin

text \<open>
  The program of \<^verbatim>\<open>examples/event_scheduler_demo.cpp\<close>: three events posted out of order, and a thousand
  processor cycles in which they fire in the order of their cycles.
\<close>

section \<open>The program\<close>

record log_st = demo_st +
  executionLog :: "string list"

text \<open>The closures of the three events: what they print and what they log.\<close>

definition event_note :: "nat \<Rightarrow> string \<times> string" where
  "event_note n =
     [(''[EXECUTED] Event 1 fired at Cycle 500'', ''Event 1 (Cycle 500)''),
      (''[EXECUTED] Event 2 fired at Cycle 300'', ''Event 2 (Cycle 300)''),
      (''[EXECUTED] Event 3 fired at Cycle 900'', ''Event 3 (Cycle 900)'')] ! n"

definition event_fires :: "nat \<Rightarrow> 'z log_st_scheme \<Rightarrow> (unit, 'z log_st_scheme) outcome" where
  "event_fires n s =
     and_then (say [line (fst (event_note n))] s) (\<lambda>_ s.
       ret () (s\<lparr>executionLog := executionLog s @ [snd (event_note n)]\<rparr>))"

definition event_closures :: "(app_world, 'z log_st_scheme) environment" where
  "event_closures = no_closures\<lparr>e_callback := event_fires\<rparr>"

definition post_event :: "nat \<Rightarrow> u64 \<Rightarrow> string \<Rightarrow> 'z bus_st_scheme \<Rightarrow> 'z bus_st_scheme" where
  "post_event n cycle desc s = s\<lparr>esched := snd (sched_schedule (Some (UserCallback n)) cycle desc (esched s))\<rparr>"

definition numbered :: "string list \<Rightarrow> out list" where
  "numbered names = concat (map (\<lambda>(i, l). [Str ''  '', Num (i + 1), Str ''. '', Str l, Str nl]) (enumerate 0 names))"

definition event_scheduler_demo ::
  "(app_world, 'z log_st_scheme) computer \<Rightarrow> (unit, (app_world, 'z log_st_scheme) computer) outcome option" where
  "event_scheduler_demo = main_of
     [print [line ''Starting Event Scheduler Demo...''],
      machine (new_memory 1024),
      machine new_mmio,
      machine (plainly (sb_init True True False)),
      doing (plainly (cpu_init True)),
      machine (plainly (\<lambda>s. s\<lparr>executionLog := []\<rparr>)),
      print [line ''Scheduling three events:''],
      print [line (''  - Event 1: scheduled for Cycle 500 ('' @ [CHR 0x22] @ ''Timer Compare'' @ [CHR 0x22] @ '')'')],
      print [line (''  - Event 2: scheduled for Cycle 300 ('' @ [CHR 0x22] @ ''ADC Conversion Complete'' @ [CHR 0x22] @ '')'')],
      print [line (''  - Event 3: scheduled for Cycle 900 ('' @ [CHR 0x22] @ ''Firmware Callback'' @ [CHR 0x22] @ '')'')],
      machine (plainly (post_event 0 500 ''Timer Compare'')),
      machine (plainly (post_event 1 300 ''ADC Conversion Complete'')),
      machine (plainly (post_event 2 900 ''Firmware Callback'')),
      print [line (nl @ ''--- Monitor '' @ quoted ''events'' @ '' command output before execution ---'')],
      monitor_command (mon_init True True True False None False False True True) event_closures ''events'',
      print [line (nl @ ''Stepping CPU simulation to cycle 1000...'')],
      cpu_run event_closures 0 1000,
      print [line (nl @ ''Execution Log Order:'')],
      print_of (\<lambda>c. numbered (executionLog (snd (world c)))),
      print [line (nl @ ''Event Scheduler Demo completed successfully.'')]]"

section \<open>Its execution\<close>

record abs_run =
  ar_cycle :: nat
  ar_queue :: "callback event_queue"
  ar_log :: "string list"
  ar_running :: bool

definition run_at :: "abs_run \<times> out list \<Rightarrow> ('w, 'z log_st_scheme) computer \<Rightarrow> bool" where
  "run_at = (\<lambda>(a, outs) c. let s = snd (world c) in
     m_cycles (clock s) = of_nat (ar_cycle a) \<and> esched s = ar_queue a \<and> executionLog s = ar_log a \<and>
     cout s = puts outs std_cout \<and> powers c 0 = ON \<and>
     sb s = \<lparr>sb_memory = True, sb_mmioBus = True, sb_interruptController = False, sb_dmas = [], sb_timers = [],
       sb_gpio = False, sb_uart = False, sb_spi = False, sb_i2c = False, sb_pwm = False, sb_adc = False\<rparr> \<and>
     cpu0 c = blank_cpu\<lparr>c_running := ar_running a, c_cycleCount := of_nat (ar_cycle a)\<rparr>)"

interpretation run_out: printer run_at
  by unfold_locales (auto simp: run_at_def Let_def puts_append)

lemmas run_at_print = run_out.at_print

lemmas run_at_print_of = run_out.at_print_of

lemma run_at_post:
  "runs run_at (machine (plainly (post_event n k d))) (a, xs)
     (a\<lparr>ar_queue := snd (sched_schedule (Some (UserCallback n)) k d (ar_queue a))\<rparr>, xs)"
  by (auto simp: runs_def run_at_def Let_def machine_def via_bus_def plainly_def post_event_def)

lemma run_at_monitor:
  fixes e :: "('w, 'z log_st_scheme) environment"
  assumes "sched_pendingEvents (ar_queue a) \<noteq> []"
  shows "runs run_at (monitor_command (mon_init True True True False None False False True True) e ''events'') (a, xs)
     (a, xs @ [Str (''Pending Events'' @ nl), Str (''----------------------------'' @ nl),
                    Str (''ID   Cycle   Description'' @ nl @ nl)] @
                   concat (map (\<lambda>ev. [Num (unat (ev_id ev)), Str ''    '', Num (unat (ev_cycle ev)), Str ''     '',
                     Str (if ev_description ev = [] then ''Unnamed Event'' else ev_description ev), Str (nl @ nl)]) (sched_pendingEvents (ar_queue a))))"
    (is "runs run_at _ _ (a, xs @ ?outs)")
  unfolding runs_def
proof (intro allI impI)
  fix c :: "('w, 'z log_st_scheme) computer"
  assume c: "run_at (a, xs) c"
  let ?m = "mon_init True True True False None False False True True"
  have sp: "trim ''events'' = ''events''" "split_command ''events'' = (''events'', ''events'', [])" by code_simp+
  have "mon_events ?m c = ?outs"
    using c assms by (simp add: run_at_def Let_def mon_events_def mon_init_def)
  then have "mon_executeCommand ?m e 0 ''events'' (os, c) = Some (ret True (puts ?outs os, c))" for os
    by (simp add: mon_executeCommand_def sp)
  then show "\<exists>s'. monitor_command ?m e ''events'' c = Some (ret () s') \<and> run_at (a, xs @ ?outs) s'"
    using runsD [OF run_at_print c, of "?outs"]
    by (auto simp: monitor_command_def print_def machine_def via_bus_def say_def)
qed

text \<open>A cycle in which nothing is due, and one in which a single event is.\<close>

lemmas cycle_defs =
  cpu_step_def cpu_isPowerOn_def power_isPowerOn_def blank_cpu_def upd_cpu_def via_bus_def sb_cycle_def sb_tickTimers_def
  clock_tick_def sched_executeReadyEvents_def via_fm_def fm_idle event_closures_def run_callback_def

lemma run_at_quiet:
  assumes "ar_running a" and "\<forall>e \<in> set (m_events (ar_queue a)). \<not> ev_cycle e \<le> of_nat (Suc (ar_cycle a))"
  shows "runs run_at (cpu_step event_closures d) (a, xs) (a\<lparr>ar_cycle := ar_cycle a + 1\<rparr>, xs)"
proof -
  have none: "filter (\<lambda>e. ev_cycle e \<le> of_nat (Suc (ar_cycle a))) (m_events (ar_queue a)) = []"
    "filter (\<lambda>e. \<not> ev_cycle e \<le> of_nat (Suc (ar_cycle a))) (m_events (ar_queue a)) = m_events (ar_queue a)"
    using assms(2) by (simp_all add: filter_empty_conv)
  show ?thesis
    using assms(1) by (auto simp: runs_def run_at_def Let_def cycle_defs none [unfolded of_nat_Suc] sort_events_def add.commute)
qed

lemma run_at_fires:
  assumes "ar_running a" and "filter (\<lambda>e. ev_cycle e \<le> of_nat (Suc (ar_cycle a))) (m_events (ar_queue a)) = [e]"
    and "ev_callback e = Some (UserCallback n)"
  shows "runs run_at (cpu_step event_closures d) (a, xs)
    (a\<lparr>ar_cycle := ar_cycle a + 1, ar_log := ar_log a @ [snd (event_note n)],
       ar_queue := (ar_queue a)\<lparr>m_events := filter (\<lambda>e. \<not> ev_cycle e \<le> of_nat (Suc (ar_cycle a))) (m_events (ar_queue a))\<rparr>\<rparr>,
     xs @ [line (fst (event_note n))])"
  unfolding runs_def
proof (intro allI impI)
  fix c :: "(app_world, 'z log_st_scheme) computer"
  assume c: "run_at (a, xs) c"
  have ne: "m_events (ar_queue a) \<noteq> []" using assms(2) by auto
  show "\<exists>c'. cpu_step event_closures d c = Some (ret () c') \<and> run_at
    (a\<lparr>ar_cycle := ar_cycle a + 1, ar_log := ar_log a @ [snd (event_note n)],
       ar_queue := (ar_queue a)\<lparr>m_events := filter (\<lambda>e. \<not> ev_cycle e \<le> of_nat (Suc (ar_cycle a))) (m_events (ar_queue a))\<rparr>\<rparr>,
     xs @ [line (fst (event_note n))]) c'"
    using c assms ne by (simp add: run_at_def Let_def cycle_defs event_fires_def say_def puts_append sort_events_def add.commute)
qed

lemma unat_small: "k < 2 ^ 64 \<Longrightarrow> unat (of_nat k :: u64) = k"
  by (simp add: unat_of_nat take_bit_nat_eq_self)

lemma run_at_stretch:
  assumes "ar_running a" and "\<forall>e \<in> set (m_events (ar_queue a)). ar_cycle a + n < unat (ev_cycle e)"
  shows "runs run_at (cpu_steps event_closures d n) (a, xs) (a\<lparr>ar_cycle := ar_cycle a + n\<rparr>, xs)"
proof -
  have "runs run_at (cpu_step event_closures d) (a\<lparr>ar_cycle := ar_cycle a + i\<rparr>, xs) (a\<lparr>ar_cycle := ar_cycle a + Suc i\<rparr>, xs)"
    if "i < n" for i
  proof -
    have "\<not> ev_cycle e \<le> of_nat (Suc (ar_cycle a + i))" if e: "e \<in> set (m_events (ar_queue a))" for e
    proof -
      have "Suc (ar_cycle a + i) < unat (ev_cycle e)" using assms(2) e \<open>i < n\<close> by fastforce
      moreover from this have "unat (of_nat (Suc (ar_cycle a + i)) :: u64) = Suc (ar_cycle a + i)"
        using unat_u64_bound [of "ev_cycle e"] by (intro unat_small) simp
      ultimately show ?thesis by (simp add: word_le_nat_alt)
    qed
    then show ?thesis
      using run_at_quiet [of "a\<lparr>ar_cycle := ar_cycle a + i\<rparr>" d xs] assms(1) by simp
  qed
  from runs_steps [where f = "\<lambda>i. (a\<lparr>ar_cycle := ar_cycle a + i\<rparr>, xs)", OF this] show ?thesis by simp
qed

text \<open>The events of the program, and its thousand cycles.\<close>

definition posted :: "nat \<Rightarrow> callback event" where
  "posted n =
     [\<lparr>ev_id = 1, ev_cycle = 500, ev_callback = Some (UserCallback 0), ev_description = ''Timer Compare''\<rparr>,
      \<lparr>ev_id = 2, ev_cycle = 300, ev_callback = Some (UserCallback 1), ev_description = ''ADC Conversion Complete''\<rparr>,
      \<lparr>ev_id = 3, ev_cycle = 900, ev_callback = Some (UserCallback 2), ev_description = ''Firmware Callback''\<rparr>] ! n"

definition fired :: "nat list \<Rightarrow> out list" where
  "fired ns = map (\<lambda>n. line (fst (event_note n))) ns"

lemma run_at_thousand:
  "runs run_at (cpu_steps event_closures d 1000)
     (\<lparr>ar_cycle = 0, ar_queue = \<lparr>m_nextId = 4, m_events = [posted 0, posted 1, posted 2]\<rparr>, ar_log = [], ar_running = True\<rparr>, xs)
     (\<lparr>ar_cycle = 1000, ar_queue = \<lparr>m_nextId = 4, m_events = []\<rparr>,
        ar_log = map (snd \<circ> event_note) [1, 0, 2], ar_running = True\<rparr>, xs @ fired [1, 0, 2])"
proof -
  let ?a = "\<lambda>k es ns. \<lparr>ar_cycle = k, ar_queue = \<lparr>m_nextId = 4, m_events = es\<rparr>, ar_log = map (snd \<circ> event_note) ns, ar_running = True\<rparr>"
  have s: "runs run_at (cpu_steps event_closures d n) (?a k es ns, ys) (?a (k + n) es ns, ys)"
    if "\<forall>e \<in> set es. k + n < unat (ev_cycle e)" for k n es ns ys
    using run_at_stretch [of "?a k es ns" n d ys] that by simp
  have f: "runs run_at (cpu_steps event_closures d 1) (?a k es ns, ys) (?a (k + 1) es' (ns @ [i]), ys @ fired [i])"
    if "filter (\<lambda>e. ev_cycle e \<le> of_nat (Suc k)) es = [e]" "ev_callback e = Some (UserCallback i)"
      "filter (\<lambda>e. \<not> ev_cycle e \<le> of_nat (Suc k)) es = es'" for k n es es' ns ys e i
    by (rule runs_steps_one) (use run_at_fires [of "?a k es ns" e i d ys] that in \<open>simp add: fired_def\<close>)
  have "runs run_at (cpu_steps event_closures d ((((((299 + 1) + 199) + 1) + 399) + 1) + 100))
     (?a 0 [posted 0, posted 1, posted 2] [], xs) (?a 1000 [] [1, 0, 2], xs @ fired [1, 0, 2])"
  proof (intro runs_steps_add)
    show "runs run_at (cpu_steps event_closures d 299) (?a 0 [posted 0, posted 1, posted 2] [], xs)
        (?a 299 [posted 0, posted 1, posted 2] [], xs)"
      using s [of "[posted 0, posted 1, posted 2]" 0 299 "[]" xs] by (simp add: posted_def)
    show "runs run_at (cpu_steps event_closures d 1) (?a 299 [posted 0, posted 1, posted 2] [], xs)
        (?a 300 [posted 0, posted 2] [1], xs @ fired [1])"
      using f [of 299 "[posted 0, posted 1, posted 2]" "posted 1" 1 "[posted 0, posted 2]" "[]" xs] by (simp add: posted_def)
    show "runs run_at (cpu_steps event_closures d 199) (?a 300 [posted 0, posted 2] [1], xs @ fired [1])
        (?a 499 [posted 0, posted 2] [1], xs @ fired [1])"
      using s [of "[posted 0, posted 2]" 300 199 "[1]" "xs @ fired [1]"] by (simp add: posted_def)
    show "runs run_at (cpu_steps event_closures d 1) (?a 499 [posted 0, posted 2] [1], xs @ fired [1])
        (?a 500 [posted 2] [1, 0], xs @ fired [1, 0])"
      using f [of 499 "[posted 0, posted 2]" "posted 0" 0 "[posted 2]" "[1]" "xs @ fired [1]"] by (simp add: posted_def fired_def)
    show "runs run_at (cpu_steps event_closures d 399) (?a 500 [posted 2] [1, 0], xs @ fired [1, 0])
        (?a 899 [posted 2] [1, 0], xs @ fired [1, 0])"
      using s [of "[posted 2]" 500 399 "[1, 0]" "xs @ fired [1, 0]"] by (simp add: posted_def)
    show "runs run_at (cpu_steps event_closures d 1) (?a 899 [posted 2] [1, 0], xs @ fired [1, 0])
        (?a 900 [] [1, 0, 2], xs @ fired [1, 0, 2])"
      using f [of 899 "[posted 2]" "posted 2" 2 "[]" "[1, 0]" "xs @ fired [1, 0]"] by (simp add: posted_def fired_def)
    show "runs run_at (cpu_steps event_closures d 100) (?a 900 [] [1, 0, 2], xs @ fired [1, 0, 2])
        (?a 1000 [] [1, 0, 2], xs @ fired [1, 0, 2])"
      using s [of "[]" 900 100 "[1, 0, 2]" "xs @ fired [1, 0, 2]"] by simp
  qed
  then show ?thesis by simp
qed

lemma run_at_run:
  assumes "\<not> ar_running a"
    and "runs (run_at :: _ \<Rightarrow> (app_world, 'z log_st_scheme) computer \<Rightarrow> bool)
      (cpu_steps event_closures d (unat n)) (a\<lparr>ar_running := True\<rparr>, xs) b"
  shows "runs (run_at :: _ \<Rightarrow> (app_world, 'z log_st_scheme) computer \<Rightarrow> bool) (cpu_run event_closures d n) (a, xs) b"
  unfolding runs_def
proof (intro allI impI)
  fix c :: "(app_world, 'z log_st_scheme) computer"
  assume c: "run_at (a, xs) c"
  let ?c = "upd_cpu (\<lambda>p. p\<lparr>c_running := True\<rparr>) c"
  have "cpu_start event_closures c = ret () ?c"
    using c assms(1)
    by (simp add: run_at_def Let_def cpu_start_def via_fm_def fm_idle upd_cpu_def blank_cpu_def)
  moreover have on: "run_at (a\<lparr>ar_running := True\<rparr>, xs) ?c"
    using c by (simp add: run_at_def Let_def upd_cpu_def)
  from runsD [OF assms(2) on] obtain c' where "cpu_steps event_closures d (unat n) ?c = Some (ret () c')" "run_at b c'" by blast
  moreover have "c_running (cpu0 ?c)" by (simp add: upd_cpu_def)
  ultimately show "\<exists>c'. cpu_run event_closures d n c = Some (ret () c') \<and> run_at b c'"
    by (simp add: cpu_run_def cpu_loop_steps)
qed

section \<open>The transcript\<close>

lemma event_demo_begin:
  "\<exists>c. main_of [print outs, machine (new_memory 1024), machine new_mmio, machine (plainly (sb_init True True False)),
      doing (plainly (cpu_init True)), machine (plainly (\<lambda>s. s\<lparr>executionLog := []\<rparr>))] c0 = Some (ret () c) \<and>
    run_at (\<lparr>ar_cycle = 0, ar_queue = sched_init, ar_log = [], ar_running = False\<rparr>, outs) c"
  by (cases "world c0")
    (simp add: main_of_def print_def machine_def say_def via_bus_def new_mmio_def new_memory_def plainly_def doing_def cpu_init_def
      sb_init_def run_at_def blank_cpu_def)

lemma run_at_logged: "run_at (a, xs) c \<Longrightarrow> executionLog (snd (world c)) = ar_log a"
  by (simp add: run_at_def Let_def)

lemma run_at_text: "run_at (a, xs) c \<Longrightarrow> os_text (cout (snd (world c))) = os_text (puts xs std_cout)"
  by (simp add: run_at_def Let_def)

lemma event_demo_executes:
  fixes c0 :: "(app_world, 'z log_st_scheme) computer"
  assumes "runs run_at (steps rest) (\<lparr>ar_cycle = 0, ar_queue = sched_init, ar_log = [], ar_running = False\<rparr>, outs) (a, xs)"
    and "os_text (puts xs std_cout) = t"
  shows "\<exists>c. main_of (print outs # machine (new_memory 1024) # machine new_mmio # machine (plainly (sb_init True True False)) #
      doing (plainly (cpu_init True)) # machine (plainly (\<lambda>s. s\<lparr>executionLog := []\<rparr>)) # rest) c0 = Some (ret () c) \<and>
    os_text (cout (snd (world c))) = t"
proof -
  have "os_text (cout (snd (world c))) = t" if "run_at (a, xs) c" for c :: "(app_world, 'z log_st_scheme) computer"
    using run_at_text [OF that] assms(2) by simp
  from main_of_executes [OF event_demo_begin assms(1), of "\<lambda>c. os_text (cout (snd (world c))) = t", OF this]
  show ?thesis by simp
qed

lemma run_at_demo:
  "runs run_at (cpu_run event_closures d 1000)
     (\<lparr>ar_cycle = 0, ar_queue = \<lparr>m_nextId = 4, m_events = [posted 0, posted (Suc 0), posted 2]\<rparr>, ar_log = [], ar_running = False\<rparr>, xs)
     (\<lparr>ar_cycle = 1000, ar_queue = \<lparr>m_nextId = 4, m_events = []\<rparr>,
        ar_log = map (snd \<circ> event_note) [Suc 0, 0, 2], ar_running = True\<rparr>, xs @ fired [Suc 0, 0, 2])"
  by (rule run_at_run) (use run_at_thousand in simp_all)

lemma posted_listed: "sched_pendingEvents \<lparr>m_nextId = 4, m_events = [posted 0, posted (Suc 0), posted 2]\<rparr> = [posted (Suc 0), posted 0, posted 2]"
  by (simp add: sched_pendingEvents_def sort_events_def posted_def)

lemma posted_all:
  "snd (sched_schedule (Some (UserCallback 2)) 900 ''Firmware Callback''
     (snd (sched_schedule (Some (UserCallback (Suc 0))) 300 ''ADC Conversion Complete''
       (snd (sched_schedule (Some (UserCallback 0)) 500 ''Timer Compare'' sched_init))))) =
   \<lparr>m_nextId = 4, m_events = [posted 0, posted 1, posted 2]\<rparr>"
  by (simp add: sched_schedule_def sched_init_def posted_def)

lemmas run_at_rules = run_at_post run_at_monitor run_at_demo run_at_print run_at_print_of

definition event_demo_text :: string where
  "event_demo_text =
     ''Starting Event Scheduler Demo...'' @ nl @
     ''Scheduling three events:'' @ nl @
     ''  - Event 1: scheduled for Cycle 500 ('' @ [CHR 0x22] @ ''Timer Compare'' @ [CHR 0x22] @ '')'' @ nl @
     ''  - Event 2: scheduled for Cycle 300 ('' @ [CHR 0x22] @ ''ADC Conversion Complete'' @ [CHR 0x22] @ '')'' @ nl @
     ''  - Event 3: scheduled for Cycle 900 ('' @ [CHR 0x22] @ ''Firmware Callback'' @ [CHR 0x22] @ '')'' @ nl @ nl @
     ''--- Monitor '' @ quoted ''events'' @ '' command output before execution ---'' @ nl @
     ''Pending Events'' @ nl @ ''----------------------------'' @ nl @ ''ID   Cycle   Description'' @ nl @ nl @
     ''2    300     ADC Conversion Complete'' @ nl @ nl @
     ''1    500     Timer Compare'' @ nl @ nl @
     ''3    900     Firmware Callback'' @ nl @ nl @ nl @
     ''Stepping CPU simulation to cycle 1000...'' @ nl @
     ''[EXECUTED] Event 2 fired at Cycle 300'' @ nl @
     ''[EXECUTED] Event 1 fired at Cycle 500'' @ nl @
     ''[EXECUTED] Event 3 fired at Cycle 900'' @ nl @ nl @
     ''Execution Log Order:'' @ nl @
     ''  1. Event 2 (Cycle 300)'' @ nl @
     ''  2. Event 1 (Cycle 500)'' @ nl @
     ''  3. Event 3 (Cycle 900)'' @ nl @ nl @
     ''Event Scheduler Demo completed successfully.'' @ nl"

text \<open>
  The event demonstration, from every machine: in a thousand processor cycles the three events fire in the
  order of their cycles, 300, 500 and 900, not of their posting, and the program prints exactly this text.
\<close>

lemma event_scheduler_demo_transcript:
  "\<exists>c. event_scheduler_demo c0 = Some (ret () c) \<and> os_text (cout (snd (world c))) = event_demo_text"
  unfolding event_scheduler_demo_def
  by (rule event_demo_executes,
      ((rule runs_step, (rule run_at_rules; simp add: run_at_logged posted_listed posted_all), simp add: posted_all posted_listed)+)[1], rule runs_nil)
    (simp add: render fired_def event_note_def numbered_def posted_def event_demo_text_def)

end
