(* ===== verification/Example_Rtos.thy ===== *)
theory Example_Rtos
  imports Example_Kit
begin

text \<open>
  The program of \<^verbatim>\<open>examples/rtos_demo.cpp\<close>: three tasks on a processor with a task scheduler. The scheduler is
  executed on what the bodies of the tasks count and print, which determines it.
\<close>

section \<open>The program\<close>

record rtos_demo_st = demo_st +
  heartbeatCount :: u64
  sensorCount :: u64
  commCount :: u64
  thrown :: "cpp_exception option"

text \<open>A body that throws does nothing more; the step of the processor it runs in throws its exception on.\<close>

definition task_body ::
  "('z rtos_demo_st_scheme \<Rightarrow> (unit, 'z rtos_demo_st_scheme) outcome) \<Rightarrow> rtos_call list \<Rightarrow>
   'w \<times> 'z rtos_demo_st_scheme \<Rightarrow> rtos_call list \<times> 'w \<times> 'z rtos_demo_st_scheme" where
  "task_body f calls = (\<lambda>(w, s).
     case f s of (Inl e, s) \<Rightarrow> ([], w, s\<lparr>thrown := Some e\<rparr>) | (Inr _, s) \<Rightarrow> (calls, w, s))"

definition sensor_task :: "'z rtos_demo_st_scheme \<Rightarrow> (unit, 'z rtos_demo_st_scheme) outcome" where
  "sensor_task s =
     (let s = s\<lparr>sensorCount := sensorCount s + 1\<rparr>
      in say [Str ''  [SensorTask (High Priority 10)] Sampling sensors... Execution #'', Num (unat (sensorCount s)), Str nl] s)"

definition heartbeat_task :: "'z rtos_demo_st_scheme \<Rightarrow> (unit, 'z rtos_demo_st_scheme) outcome" where
  "heartbeat_task s =
     (let s = s\<lparr>heartbeatCount := heartbeatCount s + 1\<rparr>;
          pinState = (heartbeatCount s mod 2 \<noteq> 0)
      in and_then (gpio_hal_write True 0 pinState s) (\<lambda>_.
           say [Str ''  [HeartbeatTask (Med Priority 5)] LED Pin 0 state: '', Str (if pinState then ''HIGH'' else ''LOW''), Str nl]))"

definition telemetry_task :: "'z rtos_demo_st_scheme \<Rightarrow> (unit, 'z rtos_demo_st_scheme) outcome" where
  "telemetry_task s =
     (let s = s\<lparr>commCount := commCount s + 1\<rparr>
      in and_then (uart_hal_writeByte True (byte (CHR ''T'')) s) (\<lambda>_.
           say [Str (''  [TelemetryTask (Med Priority 5)] Sent serial byte '' @ quoted ''T'' @ ''.'' @ nl)]))"

definition rtos_demo_tasks :: "nat \<Rightarrow> 'w \<times> 'z rtos_demo_st_scheme \<Rightarrow> rtos_call list \<times> 'w \<times> 'z rtos_demo_st_scheme" where
  "rtos_demo_tasks n =
     (if n = 0 then task_body sensor_task [Delay 2]
      else if n = 1 then task_body heartbeat_task []
      else task_body telemetry_task [])"

definition rtos_closures :: "(app_world, 'z rtos_demo_st_scheme) environment" where
  "rtos_closures = no_closures\<lparr>e_tasks := rtos_demo_tasks\<rparr>"

definition create_task ::
  "string \<Rightarrow> nat \<Rightarrow> u8 \<Rightarrow> ('w, 'b) computer \<Rightarrow> (unit, ('w, 'b) computer) outcome" where
  "create_task name f prio c =
     (case rtos_createTask name (Some (UserTask f)) prio 1024 (rtos0 c) of
        (Inl e, r) \<Rightarrow> throw e (c\<lparr>rtos0 := r\<rparr>) | (Inr _, r) \<Rightarrow> ret () (c\<lparr>rtos0 := r\<rparr>))"

definition rtos_demo_step ::
  "nat \<Rightarrow> (app_world, 'z rtos_demo_st_scheme) computer \<Rightarrow> (unit, (app_world, 'z rtos_demo_st_scheme) computer) outcome option" where
  "rtos_demo_step depth c = then_next (cpu_step rtos_closures depth c) (\<lambda>_ c.
     Some (case thrown (snd (world c)) of None \<Rightarrow> ret () c | Some e \<Rightarrow> throw e c))"

definition state_number :: "task_state \<Rightarrow> nat" where
  "state_number st = (case st of READY \<Rightarrow> 0 | RUNNING \<Rightarrow> 1 | BLOCKED \<Rightarrow> 2 | SUSPENDED \<Rightarrow> 3 | TERMINATED \<Rightarrow> 4)"

definition task_line :: "tcb \<Rightarrow> out list" where
  "task_line t =
     [Str ''  Task ID '', Num (unat (tc_id t)), Str '' ('', LeftAdjust, StrW 15 (tc_name t), Str '') | Priority: '',
      NumW 2 (unat (tc_priority t)), Str '' | State: '', Num (state_number (tc_state t)),
      Str '' | Executions: '', Num (unat (tc_executionCount t)), Str nl]"

definition task_lines :: "rtos \<Rightarrow> out list" where
  "task_lines r = concat (map (\<lambda>i. case rtos_task (of_nat i) r of None \<Rightarrow> [] | Some t \<Rightarrow> task_line t) [0..<rtos_taskCount r])"

definition rtos_demo ::
  "(app_world, 'z rtos_demo_st_scheme) computer \<Rightarrow> (unit, (app_world, 'z rtos_demo_st_scheme) computer) outcome option" where
  "rtos_demo = main_of
     ([print [line ''Starting RTOS Task Scheduler Demo...''],
       machine (plainly (\<lambda>s. s\<lparr>thrown := None\<rparr>)),
       machine new_mmio,
       machine (plainly (sb_init False True False)),
       machine (new_gpio 0x40000000),
       machine (new_uart 0x40002000 DEFAULT_BAUD_RATE),
       machine (plainly (sb_attachGPIO True)),
       machine (plainly (sb_attachUART True)),
       machine (plainly (\<lambda>s. snd (uart_hal_attach True s))),
       machine (gpio_hal_configureOutput True 0),
       doing (plainly (cpu_init True)),
       doing (plainly (\<lambda>c. c\<lparr>rtos0 := rtos_init\<rparr>)),
       doing (plainly (cpu_attachRTOSScheduler True)),
       print [line ''RTOS Scheduler initialized.''],
       print_of (\<lambda>c. [Str ''  System Clock Frequency: '', Num (unat (m_cycles (clock (snd (world c))))), Str ('' cycles'' @ nl @ nl)]),
       machine (plainly (\<lambda>s. s\<lparr>heartbeatCount := 0, sensorCount := 0, commCount := 0\<rparr>)),
       doing (create_task ''SensorTask'' 0 10),
       doing (create_task ''HeartbeatTask'' 1 5),
       doing (create_task ''TelemetryTask'' 2 5),
       doing (cpu_start rtos_closures),
       print [line ''--- Executing 10 CPU / RTOS Simulation Steps ---'']] @
      concat (map (\<lambda>step. [print [Str ''Step '', NumW 2 step, Str '': ''], rtos_demo_step 4]) [1..<11]) @
      [print [line (nl @ ''Task Execution Statistics:'')],
       print_of (\<lambda>c. task_lines (rtos0 c)),
       doing (cpu_stop rtos_closures),
       print [line (nl @ ''RTOS Task Scheduler Demo completed successfully.'')]])"

section \<open>The scheduler on an abstraction of the world\<close>

text \<open>
  What the scheduler does is determined by the calls of the task bodies: on an abstraction of the world from which
  the calls can be told, it does the same.
\<close>

definition alike :: "('a \<Rightarrow> 'w \<Rightarrow> bool) \<Rightarrow> 'a sched_fn \<Rightarrow> 'w sched_fn \<Rightarrow> bool" where
  "alike W f g \<longleftrightarrow> (\<forall>r a w. W a w \<longrightarrow> rel_option (\<lambda>x y. fst x = fst y \<and> W (snd x) (snd y)) (f (r, a)) (g (r, w)))"

definition mimics ::
  "('a \<Rightarrow> 'w \<Rightarrow> bool) \<Rightarrow> (nat \<Rightarrow> 'a \<Rightarrow> rtos_call list \<times> 'a) \<Rightarrow> (nat \<Rightarrow> 'w \<Rightarrow> rtos_call list \<times> 'w) \<Rightarrow> bool" where
  "mimics W p q \<longleftrightarrow> (\<forall>f a w. W a w \<longrightarrow> fst (p f a) = fst (q f w) \<and> W (snd (p f a)) (snd (q f w)))"

lemma alikeD: "alike W f g \<Longrightarrow> W a w \<Longrightarrow> rel_option (\<lambda>x y. fst x = fst y \<and> W (snd x) (snd y)) (f (r, a)) (g (r, w))"
  by (simp add: alike_def)

lemma alike_do: "alike W f g \<Longrightarrow> alike W (rtos_do f c) (rtos_do g c)"
  by (cases c)
    (auto simp: alike_def rtos_yield_def rtos_delay_def rtos_suspendTask_def rtos_deleteTask_def Let_def option.rel_map split: option.splits)

lemma alike_calls: "alike W f g \<Longrightarrow> alike W (rtos_calls f cs) (rtos_calls g cs)"
proof (induction cs)
  case (Cons c cs)
  have c: "alike W (rtos_do f c) (rtos_do g c)" by (rule alike_do) (rule Cons.prems)
  show ?case
    unfolding alike_def
  proof (intro allI impI)
    fix r a w
    assume "W a w"
    from alikeD [OF c this, of r] show "rel_option (\<lambda>x y. fst x = fst y \<and> W (snd x) (snd y)) (rtos_calls f (c # cs) (r, a)) (rtos_calls g (c # cs) (r, w))"
      using Cons.IH [OF Cons.prems] by (cases rule: option.rel_cases) (auto simp: alike_def)
  qed
qed (simp add: alike_def)

lemma alike_execute:
  assumes "mimics W p q" and "alike W f g"
  shows "alike W (task_execute p f i) (task_execute q g i)"
proof -
  have c: "rel_option (\<lambda>x y. fst x = fst y \<and> W (snd x) (snd y)) (rtos_calls f cs (r, a)) (rtos_calls g cs (r, w))" if "W a w" for cs r a w
    by (rule alikeD [OF alike_calls [OF assms(2)] that])
  show ?thesis
    using assms(1) by (auto simp: alike_def task_execute_def mimics_def Let_def split_beta intro!: c split: option.splits task_fn.splits)
qed

lemma alike_schedule: "mimics W p q \<Longrightarrow> alike W (rtos_schedule n p) (rtos_schedule n q)"
proof (induction n)
  case (Suc n)
  have "alike W (task_execute p (rtos_schedule n p) i) (task_execute q (rtos_schedule n q) i)" for i
    by (rule alike_execute [OF Suc.prems Suc.IH [OF Suc.prems]])
  then show ?case by (auto simp: alike_def Let_def split: option.splits)
qed (simp add: alike_def)

section \<open>Its execution\<close>

record abs_tasks =
  at_sensor :: u64
  at_heart :: u64
  at_comm :: u64
  at_cycle :: nat
  at_out :: "out list"

definition at_tasks :: "nat \<Rightarrow> abs_tasks \<Rightarrow> rtos_call list \<times> abs_tasks" where
  "at_tasks n a =
     (if n = 0 then ([Delay 2], a\<lparr>at_sensor := at_sensor a + 1, at_out := at_out a @
        [Str ''  [SensorTask (High Priority 10)] Sampling sensors... Execution #'', Num (unat (at_sensor a + 1)), Str nl]\<rparr>)
      else if n = 1 then ([], a\<lparr>at_heart := at_heart a + 1, at_out := at_out a @
        [Str ''  [HeartbeatTask (Med Priority 5)] LED Pin 0 state: '',
         Str (if (at_heart a + 1) mod 2 \<noteq> 0 then ''HIGH'' else ''LOW''), Str nl]\<rparr>)
      else ([], a\<lparr>at_comm := at_comm a + 1, at_out := at_out a @
        [Str (''  [TelemetryTask (Med Priority 5)] Sent serial byte '' @ quoted ''T'' @ ''.'' @ nl)]\<rparr>))"

definition rtos_board :: "'z bus_st_scheme \<Rightarrow> bool" where
  "rtos_board s \<longleftrightarrow>
     g_dirRegister (gpio0 s) = 0 \<and> g_outRegister (gpio0 s) = 1 \<and> g_inRegister (gpio0 s) = 2 \<and>
     u_dataRegister (uart0 s) = 3 \<and> u_statusRegister (uart0 s) = 4 \<and> u_controlRegister (uart0 s) = 5 \<and>
     m_events (esched s) = [] \<and>
     sb s = \<lparr>sb_memory = False, sb_mmioBus = True, sb_interruptController = False, sb_dmas = [], sb_timers = [],
       sb_gpio = True, sb_uart = True, sb_spi = False, sb_i2c = False, sb_pwm = False, sb_adc = False\<rparr>"

definition tasks_like :: "abs_tasks \<Rightarrow> 'w \<times> 'z rtos_demo_st_scheme \<Rightarrow> bool" where
  "tasks_like a ws \<longleftrightarrow> (let s = snd ws in
     sensorCount s = at_sensor a \<and> heartbeatCount s = at_heart a \<and> commCount s = at_comm a \<and>
     m_cycles (clock s) = of_nat (at_cycle a) \<and> cout s = puts (at_out a) std_cout \<and> thrown s = None \<and>
     rtos_board s \<and> test_flag (reg_get 0 s) 0 \<and> test_flag (reg_get 5 s) 0)"

lemma rtos_put [simp]:
  "sensorCount (reg_put r v t) = sensorCount t" "heartbeatCount (reg_put r v t) = heartbeatCount t"
  "commCount (reg_put r v t) = commCount t" "thrown (reg_put r v t) = thrown t"
  "rtos_board (reg_put r v s) = rtos_board s" "rtos_board (s1\<lparr>cout := os\<rparr>) = rtos_board s1"
  "rtos_board (t\<lparr>sensorCount := i\<rparr>) = rtos_board t" "rtos_board (t\<lparr>heartbeatCount := i\<rparr>) = rtos_board t"
  "rtos_board (t\<lparr>commCount := i\<rparr>) = rtos_board t" "rtos_board (u\<lparr>clock := k\<rparr>) = rtos_board u"
  by (simp_all add: reg_put_def rtos_board_def)

lemma rtos_get [simp]:
  "reg_get r (t\<lparr>sensorCount := i\<rparr>) = reg_get r t" "reg_get r (t\<lparr>heartbeatCount := i\<rparr>) = reg_get r t"
  "reg_get r (t\<lparr>commCount := i\<rparr>) = reg_get r t" "reg_get r (s\<lparr>uart0 := v\<rparr>) = reg_get r s" "reg_get r (u\<lparr>clock := k\<rparr>) = reg_get r u"
  by (simp_all add: reg_get_def)

lemma sensor_like:
  "tasks_like a (w, s) \<Longrightarrow> \<exists>s'. sensor_task s = ret () s' \<and> tasks_like (snd (at_tasks 0 a)) (w, s')"
  by (simp add: sensor_task_def say_def tasks_like_def at_tasks_def Let_def puts_append)

lemma heartbeat_like:
  "tasks_like a (w, s) \<Longrightarrow> \<exists>s'. heartbeat_task s = ret () s' \<and> tasks_like (snd (at_tasks 1 a)) (w, s')"
  by (simp add: heartbeat_task_def say_def tasks_like_def at_tasks_def Let_def puts_append gpio_hal_write_def gpio_writePin_def
      gpio_validatePin_def MAX_PINS_def gpio_isOutputPin_def rtos_board_def)

lemma telemetry_like:
  "tasks_like a (w, s) \<Longrightarrow> \<exists>s'. telemetry_task s = ret () s' \<and> tasks_like (snd (at_tasks (Suc (Suc n)) a)) (w, s')"
  by (simp add: telemetry_task_def say_def tasks_like_def at_tasks_def Let_def puts_append uart_hal_writeByte_def via_uart_def
      uart_writeByte_def uart_enabled_def uart_updateStatusRegister_def rtos_board_def)

lemma tasks_mimic: "mimics tasks_like at_tasks rtos_demo_tasks"
  unfolding mimics_def
proof (intro allI impI)
  fix f a and ws :: "'w \<times> 'z rtos_demo_st_scheme"
  assume a: "tasks_like a ws"
  obtain w s where ws: "ws = (w, s)" by (cases ws)
  consider "f = 0" | "f = 1" | n where "f = Suc (Suc n)" by (metis One_nat_def not0_implies_Suc)
  then show "fst (at_tasks f a) = fst (rtos_demo_tasks f ws) \<and> tasks_like (snd (at_tasks f a)) (snd (rtos_demo_tasks f ws))"
    using a sensor_like [of a w s] heartbeat_like [of a w s] telemetry_like [of a w s]
    by cases (auto simp: ws rtos_demo_tasks_def task_body_def, auto simp: at_tasks_def)
qed

definition rtos_at :: "(rtos \<times> cpu) \<times> abs_tasks \<Rightarrow> ('w, 'z rtos_demo_st_scheme) computer \<Rightarrow> bool" where
  "rtos_at = (\<lambda>((r, p), a) c. rtos0 c = r \<and> cpu0 c = p \<and> powers c 0 = ON \<and> tasks_like a (world c))"

definition at_step :: "rtos \<Rightarrow> abs_tasks \<Rightarrow> (rtos \<times> abs_tasks) option" where
  "at_step r a = rtos_schedule 4 at_tasks (rtos_tick r, a\<lparr>at_cycle := Suc (at_cycle a)\<rparr>)"

lemma rtos_at_step:
  assumes "c_systemBus p" and "c_powerController p = 0" and "c_rtosScheduler p" and "r_running r" and "at_step r a = Some x"
  shows "runs rtos_at (rtos_demo_step 4) ((r, p), a) ((fst x, p\<lparr>c_cycleCount := c_cycleCount p + 1\<rparr>), snd x)"
  unfolding runs_def
proof (intro allI impI)
  fix c :: "(app_world, 'z rtos_demo_st_scheme) computer"
  assume c: "rtos_at ((r, p), a) c"
  obtain w s where ws: "world c = (w, s)" by (cases "world c")
  let ?s = "s\<lparr>clock := clock_tick 1 (clock s)\<rparr>"
  have t: "tasks_like (a\<lparr>at_cycle := Suc (at_cycle a)\<rparr>) (w, ?s)"
    using c by (simp add: rtos_at_def ws tasks_like_def Let_def clock_tick_def add.commute)
  have cyc: "sb_cycle cb h s = ret () ?s" for cb h
    using c by (simp add: rtos_at_def ws tasks_like_def Let_def rtos_board_def sb_cycle_def sb_tickTimers_def sched_executeReadyEvents_def)
  obtain ws' where sc: "rtos_schedule 4 rtos_demo_tasks (rtos_tick r, (w, ?s)) = Some (fst x, ws')" "tasks_like (snd x) ws'"
    using alikeD [OF alike_schedule [OF tasks_mimic, of 4] t, of "rtos_tick r"] assms(5)
    by (cases "rtos_schedule 4 rtos_demo_tasks (rtos_tick r, (w, ?s))") (auto simp: at_step_def)
  let ?c = "c\<lparr>cpu0 := p\<lparr>c_cycleCount := c_cycleCount p + 1\<rparr>, rtos0 := fst x, world := ws'\<rparr>"
  have "cpu_step rtos_closures 4 c = Some (ret () ?c)"
    using c assms(1-4) sc(1)
    by (simp add: rtos_at_def ws cpu_step_def cpu_isPowerOn_def power_isPowerOn_def upd_cpu_def via_bus_def cyc rtos_closures_def)
  moreover have "thrown (snd (world ?c)) = None" using sc(2) by (simp add: tasks_like_def Let_def)
  ultimately have "rtos_demo_step 4 c = Some (ret () ?c)" by (simp add: rtos_demo_step_def)
  moreover have "rtos_at ((fst x, p\<lparr>c_cycleCount := c_cycleCount p + 1\<rparr>), snd x) ?c"
    using c sc(2) by (simp add: rtos_at_def)
  ultimately show "\<exists>c'. rtos_demo_step 4 c = Some (ret () c') \<and>
      rtos_at ((fst x, p\<lparr>c_cycleCount := c_cycleCount p + 1\<rparr>), snd x) c'" by blast
qed

lemma rtos_at_print: "runs rtos_at (print outs) (x, a) (x, a\<lparr>at_out := at_out a @ outs\<rparr>)"
  by (cases x) (auto simp: runs_def rtos_at_def tasks_like_def Let_def print_def machine_def say_def via_bus_def puts_append)

lemma rtos_at_print_of:
  assumes "\<And>c. rtos_at (x, a) c \<Longrightarrow> f c = outs"
  shows "runs rtos_at (print_of f) (x, a) (x, a\<lparr>at_out := at_out a @ outs\<rparr>)"
  using rtos_at_print [of outs x a] assms by (auto simp: runs_def print_of_def)

lemma rtos_at_counters:
  "runs rtos_at (machine (plainly (\<lambda>s. s\<lparr>heartbeatCount := 0, sensorCount := 0, commCount := 0\<rparr>))) (x, a)
     (x, a\<lparr>at_sensor := 0, at_heart := 0, at_comm := 0\<rparr>)"
  by (cases x) (auto simp: runs_def rtos_at_def tasks_like_def Let_def machine_def via_bus_def plainly_def rtos_board_def reg_get_def)

lemma rtos_at_create:
  "runs rtos_at (doing (create_task name f prio)) ((r, p), a)
     ((snd (rtos_createTask name (Some (UserTask f)) prio 1024 r), p), a)"
  by (auto simp: runs_def rtos_at_def doing_def create_task_def rtos_createTask_def Let_def)

lemma fm_none:
  "fm_initialize cls (fm_init, ws) = ret () (fm_init, ws)" "fm_shutdown cls (fm_init, ws) = ret () (fm_init, ws)"
  by (simp_all add: fm_shutdown_def fm_initialize_def fm_call_def fm_activeFirmware_def fm_init_def)

lemma rtos_at_start:
  assumes "\<not> c_running p" and "c_firmwareManager p = fm_init" and "c_rtosScheduler p"
  shows "runs rtos_at (doing (cpu_start e)) ((r, p), a) ((rtos_start r, p\<lparr>c_running := True\<rparr>), a)"
  using assms by (auto simp: runs_def rtos_at_def doing_def cpu_start_def upd_cpu_def via_fm_def fm_none)

lemma rtos_at_stop:
  assumes "c_running p" and "c_firmwareManager p = fm_init" and "c_rtosScheduler p"
  shows "runs rtos_at (doing (cpu_stop e)) ((r, p), a) ((rtos_stop r, p\<lparr>c_running := False\<rparr>), a)"
  using assms by (auto simp: runs_def rtos_at_def doing_def cpu_stop_def upd_cpu_def via_fm_def fm_none)

section \<open>The transcript\<close>

lemma rtos_demo_begin:
  "\<exists>c. main_of [print outs, machine (plainly (\<lambda>s. s\<lparr>thrown := None\<rparr>)), machine new_mmio,
      machine (plainly (sb_init False True False)), machine (new_gpio 0x40000000), machine (new_uart 0x40002000 DEFAULT_BAUD_RATE),
      machine (plainly (sb_attachGPIO True)), machine (plainly (sb_attachUART True)),
      machine (plainly (\<lambda>s. snd (uart_hal_attach True s))), machine (gpio_hal_configureOutput True 0),
      doing (plainly (cpu_init True)), doing (plainly (\<lambda>c. c\<lparr>rtos0 := rtos_init\<rparr>)),
      doing (plainly (cpu_attachRTOSScheduler True))] c0 = Some (ret () c) \<and>
    rtos_at ((rtos_init, blank_cpu\<lparr>c_rtosScheduler := True\<rparr>), \<lparr>at_sensor = sensorCount (snd (world c0)),
      at_heart = heartbeatCount (snd (world c0)), at_comm = commCount (snd (world c0)), at_cycle = 0, at_out = outs\<rparr>) c"
proof -
  obtain w s0 where ws: "world c0 = (w, s0)" by (cases "world c0")
  let ?s1 = "sb_init False True False (s0\<lparr>cout := puts outs std_cout, thrown := None, next_ref := 0, m_registers := []\<rparr>)"
  have "fresh_at [0x40000000, 0x40000000 + 4, 0x40000000 + 8] ?s1" by (simp add: fresh_at_def sb_init_def)
  note g = gpio_init_builds [OF this]
  let ?g = "\<lparr>g_base = 0x40000000, g_dirRegister = 0, g_outRegister = 1, g_inRegister = 2\<rparr>"
  let ?p1 = "placed [(0x40000000, 0), (0x40000000 + 4, 0), (0x40000000 + 8, 0)] ?s1"
  have g: "gpio_init 0x40000000 ?s1 = ret ?g ?p1" using g by (simp add: sb_init_def)
  let ?s2 = "?p1\<lparr>gpio0 := ?g\<rparr>"
  have n2: "next_ref ?s2 = 3" "m_registers ?s2 = [(0x40000008, 2), (0x40000004, 1), (0x40000000, 0)]"
    by (simp_all add: placed_def Let_def sb_init_def upt_rec)
  have "fresh_at [0x40002000, 0x40002000 + 4, 0x40002000 + 8, 0x40002000 + 12] ?s2" using n2(2) by (simp add: fresh_at_def)
  from uart_init_builds [OF this, of DEFAULT_BAUD_RATE] obtain u where
    u: "uart_init 0x40002000 DEFAULT_BAUD_RATE ?s2 = ret u (uart_updateStatusRegister u
      (placed [(0x40002000, 0), (0x40002000 + 4, set_flag 0 0), (0x40002000 + 8, 0), (0x40002000 + 12, DEFAULT_BAUD_RATE)] ?s2))"
    "u_dataRegister u = 3" "u_statusRegister u = 4" "u_controlRegister u = 5"
    unfolding n2(1) by (auto simp: DEFAULT_BAUD_RATE_def)
  define s3 where "s3 = uart_updateStatusRegister u
      (placed [(0x40002000, 0), (0x40002000 + 4, set_flag 0 0), (0x40002000 + 8, 0), (0x40002000 + 12, DEFAULT_BAUD_RATE)] ?s2)"
  have s3: "gpio0 s3 = ?g" "cout s3 = puts outs std_cout" "thrown s3 = None" "sb s3 = sb ?s1" "clock s3 = clock ?s1"
    "esched s3 = sched_init" "sensorCount s3 = sensorCount s0" "heartbeatCount s3 = heartbeatCount s0" "commCount s3 = commCount s0"
    unfolding s3_def uart_updateStatusRegister_def by (simp_all add: reg_put_def placed_def Let_def sb_init_def)
  let ?a = "\<lparr>at_sensor = sensorCount s0, at_heart = heartbeatCount s0, at_comm = commCount s0, at_cycle = 0, at_out = outs\<rparr>"
  let ?s4 = "s3\<lparr>uart0 := u, sb := sb ?s1\<lparr>sb_gpio := True, sb_uart := True\<rparr>\<rparr>"
  obtain v x where en: "via_uart (plainly uart_enable) ?s4 = (Inr (), (reg_put 4 v (reg_put 5 (set_flag x 0) ?s4))\<lparr>uart0 := u\<rparr>)"
    using u(3,4) by (simp add: via_uart_def plainly_def uart_enable_def Let_def uart_updateStatusRegister_def)
  let ?s5 = "(reg_put 4 v (reg_put 5 (set_flag x 0) ?s4))\<lparr>uart0 := u\<rparr>"
  have g5: "gpio0 ?s5 = ?g" using s3(1) by simp
  have out: "gpio_hal_configureOutput True 0 ?s5 = ret () (reg_put 0 (put_flag True (reg_get 0 ?s5) 0) ?s5)"
    unfolding gpio_hal_configureOutput_def g5 by (simp add: gpio_configurePin_def gpio_validatePin_def MAX_PINS_def Let_def)
  let ?s = "reg_put 0 (put_flag True (reg_get 0 ?s5) 0) ?s5"
  let ?c = "c0\<lparr>world := (w, ?s), cpu0 := blank_cpu\<lparr>c_rtosScheduler := True\<rparr>, powers := (powers c0)(0 := ON), rtos0 := rtos_init\<rparr>"
  have at: "sb_attachUART True (sb_attachGPIO True (s3\<lparr>uart0 := u\<rparr>)) = ?s4"
    using s3(4) by (simp add: sb_attachUART_def sb_attachGPIO_def upd_sb_def Let_def sb_init_def)
  have "main_of [print outs, machine (plainly (\<lambda>s. s\<lparr>thrown := None\<rparr>)), machine new_mmio,
      machine (plainly (sb_init False True False)), machine (new_gpio 0x40000000), machine (new_uart 0x40002000 DEFAULT_BAUD_RATE),
      machine (plainly (sb_attachGPIO True)), machine (plainly (sb_attachUART True)),
      machine (plainly (\<lambda>s. snd (uart_hal_attach True s))), machine (gpio_hal_configureOutput True 0),
      doing (plainly (cpu_init True)), doing (plainly (\<lambda>c. c\<lparr>rtos0 := rtos_init\<rparr>)),
      doing (plainly (cpu_attachRTOSScheduler True))] c0 = Some (ret () ?c)"
    using g u(1) out en at unfolding s3_def [symmetric]
    by (simp add: main_of_def print_def machine_def say_def via_bus_def new_mmio_def new_gpio_def new_uart_def ws plainly_def
      doing_def cpu_init_def cpu_attachRTOSScheduler_def upd_cpu_def uart_hal_attach_def Let_def)
  moreover have "tasks_like ?a (w, ?s)"
    using s3 u by (simp add: tasks_like_def rtos_board_def sb_init_def sched_init_def flag_simps)
  ultimately show ?thesis by (simp add: rtos_at_def ws)
qed

lemma rtos_at_shown:
  assumes "rtos_at ((r, p), a) c"
  shows "rtos0 c = r" "m_cycles (clock (snd (world c))) = of_nat (at_cycle a)" "cout (snd (world c)) = puts (at_out a) std_cout"
  using assms by (simp_all add: rtos_at_def tasks_like_def Let_def)

lemma rtos_demo_executes:
  fixes c0 :: "(app_world, 'z rtos_demo_st_scheme) computer"
  assumes "runs rtos_at (steps rest) ((rtos_init, blank_cpu\<lparr>c_rtosScheduler := True\<rparr>), \<lparr>at_sensor = sensorCount (snd (world c0)),
      at_heart = heartbeatCount (snd (world c0)), at_comm = commCount (snd (world c0)), at_cycle = 0, at_out = outs\<rparr>) ((r, p), a)"
    and "os_text (puts (at_out a) std_cout) = t"
  shows "\<exists>c. main_of (print outs # machine (plainly (\<lambda>s. s\<lparr>thrown := None\<rparr>)) # machine new_mmio #
      machine (plainly (sb_init False True False)) # machine (new_gpio 0x40000000) # machine (new_uart 0x40002000 DEFAULT_BAUD_RATE) #
      machine (plainly (sb_attachGPIO True)) # machine (plainly (sb_attachUART True)) #
      machine (plainly (\<lambda>s. snd (uart_hal_attach True s))) # machine (gpio_hal_configureOutput True 0) #
      doing (plainly (cpu_init True)) # doing (plainly (\<lambda>c. c\<lparr>rtos0 := rtos_init\<rparr>)) #
      doing (plainly (cpu_attachRTOSScheduler True)) # rest) c0 = Some (ret () c) \<and> os_text (cout (snd (world c))) = t"
proof -
  have "os_text (cout (snd (world c))) = t" if "rtos_at ((r, p), a) c" for c :: "(app_world, 'z rtos_demo_st_scheme) computer"
    using rtos_at_shown(3) [OF that] assms(2) by simp
  from main_of_executes [OF rtos_demo_begin assms(1), of "\<lambda>c. os_text (cout (snd (world c))) = t", OF this]
  show ?thesis by simp
qed

text \<open>The ten steps on the abstraction.\<close>

definition step_label :: "nat \<Rightarrow> out list" where
  "step_label n = [Str ''Step '', NumW 2 n, Str '': '']"

fun at_loop :: "nat list \<Rightarrow> rtos \<times> abs_tasks \<Rightarrow> (rtos \<times> abs_tasks) option" where
  "at_loop [] x = Some x"
| "at_loop (n # ns) x =
     (if \<not> r_running (fst x) then None
      else Option.bind (at_step (fst x) ((snd x)\<lparr>at_out := at_out (snd x) @ step_label n\<rparr>)) (at_loop ns))"

lemma rtos_at_loop:
  assumes "c_systemBus p" and "c_powerController p = 0" and "c_rtosScheduler p" and "at_loop ns x = Some y"
  shows "runs rtos_at (steps (concat (map (\<lambda>step. [print [Str ''Step '', NumW 2 step, Str '': ''], rtos_demo_step 4]) ns)))
    ((fst x, p), snd x) ((fst y, p\<lparr>c_cycleCount := c_cycleCount p + of_nat (length ns)\<rparr>), snd y)"
  using assms
proof (induction ns arbitrary: x p)
  case (Cons n ns)
  let ?a = "(snd x)\<lparr>at_out := at_out (snd x) @ step_label n\<rparr>" and ?p = "p\<lparr>c_cycleCount := c_cycleCount p + 1\<rparr>"
  obtain z where z: "at_step (fst x) ?a = Some z" "at_loop ns z = Some y" and on: "r_running (fst x)"
    using Cons.prems(4) by (auto simp: bind_eq_Some_conv split: if_splits)
  have "at_step (fst x) ((snd x)\<lparr>at_out := at_out (snd x) @ [Str ''Step '', NumW 2 n, Str '': '']\<rparr>) = Some z"
    using z(1) by (simp add: step_label_def)
  note st = rtos_at_step [OF Cons.prems(1-3) on this]
  have "c_systemBus ?p" "c_powerController ?p = 0" "c_rtosScheduler ?p" using Cons.prems by simp_all
  from runs_cons [OF rtos_at_print runs_cons [OF st Cons.IH [OF this z(2)]]] show ?case
    by (simp add: add.assoc del: steps.simps)
qed (simp add: runs_nil)

text \<open>What was printed before does not matter.\<close>

definition after :: "out list \<Rightarrow> abs_tasks \<Rightarrow> abs_tasks" where
  "after xs a = a\<lparr>at_out := xs @ at_out a\<rparr>"

lemma after_cycle: "(after xs a)\<lparr>at_cycle := k\<rparr> = after xs (a\<lparr>at_cycle := k\<rparr>)" "at_cycle (after xs a) = at_cycle a"
  by (simp_all add: after_def)

lemma at_step_after: "at_step r (after xs a) = map_option (apsnd (after xs)) (at_step r a)"
proof -
  have "mimics (\<lambda>a b. b = after xs a) at_tasks at_tasks"
    by (auto simp: mimics_def at_tasks_def after_def)
  from alikeD [OF alike_schedule [OF this, of 4] refl, of "rtos_tick r" "a\<lparr>at_cycle := Suc (at_cycle a)\<rparr>"]
  show ?thesis
    by (cases "at_step r a"; cases "at_step r (after xs a)") (auto simp: at_step_def after_cycle prod_eq_iff)
qed

lemma at_loop_after: "at_loop ns (r, after xs a) = map_option (apsnd (after xs)) (at_loop ns (r, a))"
proof (induction ns arbitrary: r a)
  case (Cons n ns)
  let ?a = "a\<lparr>at_out := at_out a @ step_label n\<rparr>"
  have "(after xs a)\<lparr>at_out := at_out (after xs a) @ step_label n\<rparr> = after xs ?a" by (simp add: after_def)
  then show ?case
    using at_step_after [of r xs ?a] Cons.IH by (cases "at_step r ?a") auto
qed simp

definition demo_tasks :: rtos where
  "demo_tasks = rtos_start (snd (rtos_createTask ''TelemetryTask'' (Some (UserTask 2)) 5 1024
   (snd (rtos_createTask ''HeartbeatTask'' (Some (UserTask 1)) 5 1024
   (snd (rtos_createTask ''SensorTask'' (Some (UserTask 0)) 10 1024 rtos_init))))))"

definition odd_step :: "nat \<Rightarrow> nat \<Rightarrow> string \<Rightarrow> out list" where
  "odd_step n k led = step_label n @
     [Str ''  [SensorTask (High Priority 10)] Sampling sensors... Execution #'', Num k, Str nl,
      Str ''  [HeartbeatTask (Med Priority 5)] LED Pin 0 state: '', Str led, Str nl]"

definition even_step :: "nat \<Rightarrow> out list" where
  "even_step n = step_label n @ [Str (''  [TelemetryTask (Med Priority 5)] Sent serial byte '' @ quoted ''T'' @ ''.'' @ nl)]"

definition demo_done :: rtos where
  "demo_done =
     \<lparr>r_running = True, r_tickCount = 10, r_nextTaskId = 4, r_currentTaskId = 3,
      r_tasks = [(0, task_init 0 ''IdleTask'' (Some IdleLoop) 0 512),
        (1, (task_init 1 ''SensorTask'' (Some (UserTask 0)) 10 1024)\<lparr>tc_state := BLOCKED, tc_delayUntilTick := 11, tc_executionCount := 5\<rparr>),
        (2, (task_init 2 ''HeartbeatTask'' (Some (UserTask 1)) 5 1024)\<lparr>tc_executionCount := 5\<rparr>),
        (3, (task_init 3 ''TelemetryTask'' (Some (UserTask 2)) 5 1024)\<lparr>tc_state := RUNNING, tc_executionCount := 5\<rparr>)],
      r_readyQueue = [(5, [2, 3]), (0, [0])], r_delayQueue = [1]\<rparr>"

definition ten_out :: "out list" where
  "ten_out = odd_step 1 1 ''HIGH'' @ even_step 2 @ odd_step 3 2 ''LOW'' @ even_step 4 @ odd_step 5 3 ''HIGH'' @ even_step 6 @
     odd_step 7 4 ''LOW'' @ even_step 8 @ odd_step 9 5 ''HIGH'' @ even_step 10"

lemma ten_steps:
  "at_loop [1..<11] (demo_tasks, \<lparr>at_sensor = 0, at_heart = 0, at_comm = 0, at_cycle = 0, at_out = []\<rparr>) =
   Some (demo_done, \<lparr>at_sensor = 5, at_heart = 5, at_comm = 5, at_cycle = 10, at_out = ten_out\<rparr>)"
  by code_simp

lemma rtos_at_ten:
  assumes "c_systemBus p" and "c_powerController p = 0" and "c_rtosScheduler p"
  shows "runs rtos_at (steps (concat (map (\<lambda>step. [print [Str ''Step '', NumW 2 step, Str '': ''], rtos_demo_step 4]) [1..<11])))
    ((demo_tasks, p), \<lparr>at_sensor = 0, at_heart = 0, at_comm = 0, at_cycle = 0, at_out = xs\<rparr>)
    ((demo_done, p\<lparr>c_cycleCount := c_cycleCount p + 10\<rparr>),
     \<lparr>at_sensor = 5, at_heart = 5, at_comm = 5, at_cycle = 10, at_out = xs @ ten_out\<rparr>)"
  using rtos_at_loop [OF assms, of "[1..<11]"
      "(demo_tasks, after xs \<lparr>at_sensor = 0, at_heart = 0, at_comm = 0, at_cycle = 0, at_out = []\<rparr>)"] ten_steps
  by (simp add: at_loop_after del: at_loop.simps upt_conv_Cons upt_rec_numeral) (simp add: after_def del: at_loop.simps upt_conv_Cons upt_rec_numeral)

lemma ten_created:
  "rtos_start (snd (rtos_createTask ''TelemetryTask'' (Some (UserTask 2)) 5 1024
   (snd (rtos_createTask ''HeartbeatTask'' (Some (UserTask (Suc 0))) 5 1024
   (snd (rtos_createTask ''SensorTask'' (Some (UserTask 0)) 10 1024 rtos_init)))))) = demo_tasks"
  by (simp add: demo_tasks_def)

lemma done_lines: "task_lines demo_done =
    concat (map (\<lambda>(i, n, p, st, k). [Str ''  Task ID '', Num i, Str '' ('', LeftAdjust, StrW 15 n, Str '') | Priority: '',
      NumW 2 p, Str '' | State: '', Num st, Str '' | Executions: '', Num k, Str nl])
     [(0, ''IdleTask'', 0, 0, 0), (1, ''SensorTask'', 10, 2, 5), (2, ''HeartbeatTask'', 5, 0, 5), (3, ''TelemetryTask'', 5, 1, 5)])"
  by code_simp

lemmas rtos_at_rules =
  rtos_at_counters rtos_at_create rtos_at_start rtos_at_stop rtos_at_print rtos_at_print_of

definition rtos_demo_text :: string where
  "rtos_demo_text =
     ''Starting RTOS Task Scheduler Demo...'' @ nl @
     ''RTOS Scheduler initialized.'' @ nl @
     ''  System Clock Frequency: 0 cycles'' @ nl @ nl @
     ''--- Executing 10 CPU / RTOS Simulation Steps ---'' @ nl @
     ''Step  1:   [SensorTask (High Priority 10)] Sampling sensors... Execution #1'' @ nl @
     ''  [HeartbeatTask (Med Priority 5)] LED Pin 0 state: HIGH'' @ nl @
     ''Step  2:   [TelemetryTask (Med Priority 5)] Sent serial byte '' @ quoted ''T'' @ ''.'' @ nl @
     ''Step  3:   [SensorTask (High Priority 10)] Sampling sensors... Execution #2'' @ nl @
     ''  [HeartbeatTask (Med Priority 5)] LED Pin 0 state: LOW'' @ nl @
     ''Step  4:   [TelemetryTask (Med Priority 5)] Sent serial byte '' @ quoted ''T'' @ ''.'' @ nl @
     ''Step  5:   [SensorTask (High Priority 10)] Sampling sensors... Execution #3'' @ nl @
     ''  [HeartbeatTask (Med Priority 5)] LED Pin 0 state: HIGH'' @ nl @
     ''Step  6:   [TelemetryTask (Med Priority 5)] Sent serial byte '' @ quoted ''T'' @ ''.'' @ nl @
     ''Step  7:   [SensorTask (High Priority 10)] Sampling sensors... Execution #4'' @ nl @
     ''  [HeartbeatTask (Med Priority 5)] LED Pin 0 state: LOW'' @ nl @
     ''Step  8:   [TelemetryTask (Med Priority 5)] Sent serial byte '' @ quoted ''T'' @ ''.'' @ nl @
     ''Step  9:   [SensorTask (High Priority 10)] Sampling sensors... Execution #5'' @ nl @
     ''  [HeartbeatTask (Med Priority 5)] LED Pin 0 state: HIGH'' @ nl @
     ''Step 10:   [TelemetryTask (Med Priority 5)] Sent serial byte '' @ quoted ''T'' @ ''.'' @ nl @ nl @
     ''Task Execution Statistics:'' @ nl @
     ''  Task ID 0 (IdleTask       ) | Priority: 0  | State: 0 | Executions: 0'' @ nl @
     ''  Task ID 1 (SensorTask     ) | Priority: 10 | State: 2 | Executions: 5'' @ nl @
     ''  Task ID 2 (HeartbeatTask  ) | Priority: 5  | State: 0 | Executions: 5'' @ nl @
     ''  Task ID 3 (TelemetryTask  ) | Priority: 5  | State: 1 | Executions: 5'' @ nl @ nl @
     ''RTOS Task Scheduler Demo completed successfully.'' @ nl"

text \<open>
  C11. The task demonstration, from every machine: ten processor steps in which the sensor task preempts and
  delays itself, the two tasks of equal priority alternate, and the statistics at the end add up, printed
  character by character.
\<close>

theorem rtos_demo_transcript:
  "\<exists>c. rtos_demo c0 = Some (ret () c) \<and> os_text (cout (snd (world c))) = rtos_demo_text"
  unfolding rtos_demo_def append.simps
  by (rule rtos_demo_executes,
      ((rule runs_step, (rule rtos_at_rules; simp add: rtos_at_shown blank_cpu_def), simp add: blank_cpu_def ten_created)+)[1],
      rule runs_append, (rule rtos_at_ten; simp),
      ((rule runs_step, (rule rtos_at_rules; simp add: rtos_at_shown blank_cpu_def), simp)+)[1], rule runs_nil)
    (simp add: render ten_out_def done_lines odd_step_def even_step_def step_label_def rtos_demo_text_def)

end
