(* ===== verification/Example_Board.thy ===== *)
theory Example_Board
  imports Example_Kit
begin

text \<open>
  The board of the programs \<^verbatim>\<open>hal_demo.cpp\<close>, \<^verbatim>\<open>firmware_manager_demo.cpp\<close> and \<^verbatim>\<open>power_demo.cpp\<close>: a port, a timer
  and a UART made in this order on an empty bus, and what their operations do to its registers. No further code
  is modelled here.
\<close>

section \<open>The board\<close>

text \<open>
  The values of the registers 0 to 10, the two queues, and the timer object. The data and the status register of
  the UART, 7 and 8, are written and never read.
\<close>

record board =
  bd_word :: "nat \<Rightarrow> u32"
  bd_tx :: "u8 list"
  bd_rx :: "u8 list"
  bd_timer :: timer

definition bd_home :: "nat \<Rightarrow> u32" where
  "bd_home r = (if r = 8 then set_flag 0 0 else if r = 10 then DEFAULT_BAUD_RATE else 0)"

definition board_timer :: timer where
  "board_timer = \<lparr>t_base = 0x40001000, t_ctrlRegister = 3, t_countRegister = 4, t_compareRegister = 5,
     t_statusRegister = 6, t_interruptController = False, t_interruptId = 0, t_clock = False, t_scheduler = False,
     t_scheduledEventId = 0, t_lastClockCycles = 0\<rparr>"

definition board_at :: "board \<Rightarrow> 'z bus_st_scheme \<Rightarrow> bool" where
  "board_at a s \<longleftrightarrow>
     (\<forall>r<11. (r \<noteq> 7 \<and> r \<noteq> 8 \<longrightarrow> reg_get r s = bd_word a r) \<and> m_initialValue (reg_objs s r) = bd_home r) \<and>
     gpio0 s = \<lparr>g_base = 0x40000000, g_dirRegister = 0, g_outRegister = 1, g_inRegister = 2\<rparr> \<and>
     timers s 0 = bd_timer a \<and> timer_regs (bd_timer a) = [3, 4, 5, 6] \<and> t_scheduledEventId (bd_timer a) = 0 \<and>
     uart0 s = \<lparr>u_base = 0x40003000, u_dataRegister = 7, u_statusRegister = 8, u_controlRegister = 9,
       u_baudRegister = 10, u_txFifo = bd_tx a, u_rxFifo = bd_rx a\<rparr>"

text \<open>What the operations of the devices leave alone.\<close>

definition beside :: "'z demo_st_scheme \<Rightarrow> 'z demo_st_scheme \<Rightarrow> bool" where
  "beside s s' \<longleftrightarrow> cout s' = cout s \<and> sb s' = sb s \<and> clock s' = clock s \<and> esched s' = esched s \<and>
     demo_st.more s' = demo_st.more s"

lemma beside_refl [simp]: "beside s s"
  by (simp add: beside_def)

lemma beside_trans: "beside s t \<Longrightarrow> beside t u \<Longrightarrow> beside s u"
  by (simp add: beside_def)

text \<open>\<open>acts f a v b\<close>: on the board \<open>a\<close> the call returns \<open>v\<close> and leaves the board \<open>b\<close>.\<close>

definition acts :: "('z demo_st_scheme \<Rightarrow> ('v, 'z demo_st_scheme) outcome) \<Rightarrow> board \<Rightarrow> 'v \<Rightarrow> board \<Rightarrow> bool" where
  "acts f a v b \<longleftrightarrow> (\<forall>s. board_at a s \<longrightarrow> (\<exists>s'. f s = ret v s' \<and> board_at b s' \<and> beside s s'))"

lemma actsD: "acts f a v b \<Longrightarrow> board_at a s \<Longrightarrow> \<exists>s'. f s = ret v s' \<and> board_at b s' \<and> beside s s'"
  by (simp add: acts_def)

lemma actsI:
  assumes "\<And>s :: 'z demo_st_scheme. board_at a s \<Longrightarrow> f s = ret v (g s)"
    and "\<And>s :: 'z demo_st_scheme. board_at a s \<Longrightarrow> board_at b (g s)"
    and "\<And>s :: 'z demo_st_scheme. board_at a s \<Longrightarrow> beside s (g s)"
  shows "acts f a v b"
  using assms by (auto simp: acts_def)

text \<open>Setting registers.\<close>

abbreviation bd_put :: "nat \<Rightarrow> u32 \<Rightarrow> board \<Rightarrow> board" where
  "bd_put r v a \<equiv> a\<lparr>bd_word := (bd_word a)(r := v)\<rparr>"

lemma board_at_put: "board_at a s \<Longrightarrow> board_at (bd_put r v a) (reg_put r v s)"
  by (auto simp: board_at_def)

lemma beside_put: "beside s (reg_put r v s)"
  by (simp add: beside_def) (simp add: reg_put_def)

lemma beside_put_trans: "beside s t \<Longrightarrow> beside s (reg_put r v t)"
  by (rule beside_trans [OF _ beside_put])

lemma board_at_get: "board_at a s \<Longrightarrow> r < 11 \<Longrightarrow> r \<noteq> 7 \<Longrightarrow> r \<noteq> 8 \<Longrightarrow> reg_get r s = bd_word a r"
  by (simp add: board_at_def)

lemma board_at_unread: "board_at a s \<Longrightarrow> r = 7 \<or> r = 8 \<Longrightarrow> board_at a (reg_put r v s)"
  by (auto simp: board_at_def)

lemma board_at_gpio:
  assumes "board_at a s"
  shows "g_dirRegister (gpio0 s) = 0" "g_outRegister (gpio0 s) = 1" "g_inRegister (gpio0 s) = 2"
  using assms by (auto simp: board_at_def)

section \<open>The port\<close>

lemma acts_configure:
  assumes "unat p < 32"
  shows "acts (gpio_hal_configureOutput True p) a () (bd_put 0 (set_flag (bd_word a 0) (unat p)) a)"
  by (rule actsI [where g = "\<lambda>s. reg_put 0 (set_flag (reg_get 0 s) (unat p)) s"])
    (use assms in \<open>simp_all add: gpio_hal_configureOutput_def gpio_configurePin_def gpio_validatePin_def MAX_PINS_def put_flag_def
      board_at_gpio board_at_put beside_put board_at_get\<close>)

lemma acts_write:
  assumes "unat p < 32" and "test_flag (bd_word a 0) (unat p)"
  shows "acts (gpio_hal_write True p v) a ()
    (bd_put 2 (put_flag v (bd_word a 2) (unat p)) (bd_put 1 (put_flag v (bd_word a 1) (unat p)) a))"
proof (rule actsI [where g = "\<lambda>s. reg_put 2 (put_flag v (bd_word a 2) (unat p)) (reg_put 1 (put_flag v (bd_word a 1) (unat p)) s)"])
  fix s :: "'z demo_st_scheme" assume s: "board_at a s"
  show "gpio_hal_write True p v s =
      ret () (reg_put 2 (put_flag v (bd_word a 2) (unat p)) (reg_put 1 (put_flag v (bd_word a 1) (unat p)) s))"
    using assms s by (simp add: gpio_hal_write_def gpio_writePin_def gpio_validatePin_def MAX_PINS_def gpio_isOutputPin_def
        board_at_gpio [OF s] board_at_get [OF s])
next
  fix s :: "'z demo_st_scheme" assume s: "board_at a s"
  show "board_at (bd_put 2 (put_flag v (bd_word a 2) (unat p)) (bd_put 1 (put_flag v (bd_word a 1) (unat p)) a))
      (reg_put 2 (put_flag v (bd_word a 2) (unat p)) (reg_put 1 (put_flag v (bd_word a 1) (unat p)) s))"
    by (rule board_at_put [OF board_at_put [OF s]])
qed (simp add: beside_put beside_put_trans)

lemma acts_read:
  assumes "unat p < 32"
  shows "acts (gpio_hal_read True p) a (test_flag (bd_word a 2) (unat p)) a"
  by (rule actsI [where g = "\<lambda>s. s"])
    (use assms in \<open>simp_all add: gpio_hal_read_def gpio_readPin_def gpio_validatePin_def MAX_PINS_def board_at_gpio board_at_get\<close>)

lemma acts_toggle:
  assumes "unat p < 32" and "test_flag (bd_word a 0) (unat p)"
  shows "acts (gpio_hal_toggle True p) a ()
    (bd_put 2 (put_flag (\<not> test_flag (bd_word a 2) (unat p)) (bd_word a 2) (unat p))
      (bd_put 1 (put_flag (\<not> test_flag (bd_word a 2) (unat p)) (bd_word a 1) (unat p)) a))"
proof -
  have "gpio_hal_toggle True p s = gpio_hal_write True p (\<not> test_flag (bd_word a 2) (unat p)) s"
    if "board_at a s" for s :: "'z demo_st_scheme"
    using assms that by (simp add: gpio_hal_toggle_def gpio_togglePin_def gpio_hal_write_def gpio_validatePin_def MAX_PINS_def
        gpio_isOutputPin_def gpio_readPin_def board_at_gpio board_at_get)
  then show ?thesis
    using acts_write [OF assms, of "\<not> test_flag (bd_word a 2) (unat p)"] unfolding acts_def by metis
qed

section \<open>The timer\<close>

lemma board_at_timer:
  assumes "board_at a s"
  shows "timers s 0 = bd_timer a" "t_ctrlRegister (bd_timer a) = 3" "t_countRegister (bd_timer a) = 4"
    "t_compareRegister (bd_timer a) = 5" "t_statusRegister (bd_timer a) = 6" "t_scheduledEventId (bd_timer a) = 0"
  using assms by (auto simp: board_at_def timer_regs_def)

lemma board_at_reset:
  assumes "board_at a s" and "r < 11"
  shows "reg_rst r s = reg_put r (bd_home r) s"
  using assms by (auto simp: board_at_def reg_rst_def reg_put_def register_reset_def register_write_def)

lemma timer_cancel_none: "t_scheduledEventId (timers s i) = 0 \<Longrightarrow> timer_cancelScheduledEvent i s = s"
  by (simp add: timer_cancelScheduledEvent_def)

lemma timer_update_none:
  "t_scheduledEventId (timers s i) = 0 \<Longrightarrow> \<not> t_scheduler (timers s i) \<Longrightarrow> timer_updateScheduledEvent i s = s"
  by (simp add: timer_updateScheduledEvent_def timer_cancel_none)

lemma timer_sync_none: "\<not> t_clock (timers s i) \<Longrightarrow> timer_syncClock i s = s"
  by (simp add: timer_syncClock_def)

lemmas timer_plain = timer_cancel_none timer_update_none timer_sync_none

lemma acts_setCompare:
  assumes "\<not> t_scheduler (bd_timer a)"
  shows "acts (plainly (timer_hal_setCompare (Some 0) v)) a () (bd_put 5 v a)"
  by (rule actsI [where g = "reg_put 5 v"])
    (use assms in \<open>simp_all add: plainly_def timer_hal_setCompare_def timer_setCompare_def board_at_timer timer_plain board_at_put beside_put\<close>)

lemma acts_start:
  assumes "\<not> t_scheduler (bd_timer a)" and "\<not> t_clock (bd_timer a)"
  shows "acts (plainly (timer_hal_start (Some 0))) a () (bd_put 3 (set_flag (bd_word a 3) 0) a)"
  by (rule actsI [where g = "reg_put 3 (set_flag (bd_word a 3) 0)"])
    (use assms in \<open>simp_all add: plainly_def timer_hal_start_def timer_start_def board_at_timer timer_plain board_at_put beside_put
      board_at_get Let_def\<close>)

lemma acts_stop: "acts (plainly (timer_hal_stop (Some 0))) a () (bd_put 3 (clear_flag (bd_word a 3) 0) a)"
  by (rule actsI [where g = "reg_put 3 (clear_flag (bd_word a 3) 0)"])
    (simp_all add: plainly_def timer_hal_stop_def timer_stop_def board_at_timer timer_plain board_at_put beside_put
      board_at_get Let_def)

text \<open>A reset brings the clock of the timer up to date when it has one.\<close>

lemma reg_rst_put: "m_initialValue (reg_objs s r) = v \<Longrightarrow> reg_rst r s = reg_put r v s"
  by (simp add: reg_rst_def reg_put_def register_reset_def register_write_def)

lemma timer_reset_board:
  assumes "board_at a s" and "\<not> t_clock (bd_timer a)"
  shows "timer_reset 0 s = reg_put 3 0 (reg_put 6 0 (reg_put 4 0 s))"
proof -
  have home: "m_initialValue (reg_objs s r) = bd_home r" if "r < 11" for r using assms(1) that by (simp add: board_at_def)
  have "timer_reset 0 s = reg_put 3 0 (reg_put 6 0 (reg_put 4 0 (reg_put 3 (clear_flag (bd_word a 3) 0) s)))"
    using assms by (simp add: timer_reset_def timer_stop_def Let_def board_at_timer timer_plain reg_rst_put home bd_home_def board_at_get)
  also have "\<dots> = reg_put 3 0 (reg_put 6 0 (reg_put 4 0 s))"
    by (simp add: reg_put_def register_write_def fun_upd_twist)
  finally show ?thesis .
qed

lemma acts_reset:
  assumes "\<not> t_clock (bd_timer a)"
  shows "acts (plainly (timer_hal_reset (Some 0))) a () (bd_put 3 0 (bd_put 6 0 (bd_put 4 0 a)))"
proof (rule actsI [where g = "\<lambda>s. reg_put 3 0 (reg_put 6 0 (reg_put 4 0 s))"])
  fix s :: "'z demo_st_scheme" assume s: "board_at a s"
  show "plainly (timer_hal_reset (Some 0)) s = ret () (reg_put 3 0 (reg_put 6 0 (reg_put 4 0 s)))"
    using timer_reset_board [OF s assms] by (simp add: plainly_def timer_hal_reset_def)
  show "board_at (bd_put 3 0 (bd_put 6 0 (bd_put 4 0 a))) (reg_put 3 0 (reg_put 6 0 (reg_put 4 0 s)))"
    by (rule board_at_put [OF board_at_put [OF board_at_put [OF s]]])
qed (simp add: beside_put beside_put_trans)

text \<open>A tick without clock and scheduler: it counts, and stops the timer at the compare value.\<close>

lemma acts_tick_if:
  assumes "\<not> t_scheduler (bd_timer a)" and "\<not> t_clock (bd_timer a)" and "\<not> t_interruptController (bd_timer a)"
    and "test_flag (bd_word a 3) 0"
  shows "acts (timer_tick 0) a ()
    (if bd_word a 5 \<le> bd_word a 4 + 1
     then bd_put 3 (clear_flag (bd_word a 3) 0) (bd_put 6 (set_flag (bd_word a 6) 0) (bd_put 4 (bd_word a 5) a))
     else bd_put 4 (bd_word a 4 + 1) a)"
proof (rule actsI [where g = "\<lambda>s. if bd_word a 5 \<le> bd_word a 4 + 1
     then reg_put 3 (clear_flag (bd_word a 3) 0) (reg_put 6 (set_flag (bd_word a 6) 0) (reg_put 4 (bd_word a 5) s))
     else reg_put 4 (bd_word a 4 + 1) s"])
  fix s :: "'z demo_st_scheme" assume s: "board_at a s"
  have "reg_put 4 x (reg_put 4 y s) = reg_put 4 x s" for x y
    by (simp add: reg_put_def register_write_def)
  then show "timer_tick 0 s = ret () (if bd_word a 5 \<le> bd_word a 4 + 1
     then reg_put 3 (clear_flag (bd_word a 3) 0) (reg_put 6 (set_flag (bd_word a 6) 0) (reg_put 4 (bd_word a 5) s))
     else reg_put 4 (bd_word a 4 + 1) s)"
    using assms by (simp add: timer_tick_def Let_def timer_handleCompareMatch_def timer_stop_def board_at_timer [OF s] timer_plain
        timer_running_def timer_stepAmount_def timer_compare_def board_at_get [OF s])
  show "board_at (if bd_word a 5 \<le> bd_word a 4 + 1
     then bd_put 3 (clear_flag (bd_word a 3) 0) (bd_put 6 (set_flag (bd_word a 6) 0) (bd_put 4 (bd_word a 5) a))
     else bd_put 4 (bd_word a 4 + 1) a) (if bd_word a 5 \<le> bd_word a 4 + 1
     then reg_put 3 (clear_flag (bd_word a 3) 0) (reg_put 6 (set_flag (bd_word a 6) 0) (reg_put 4 (bd_word a 5) s))
     else reg_put 4 (bd_word a 4 + 1) s)"
    using board_at_put [OF board_at_put [OF board_at_put [OF s]]] board_at_put [OF s] by simp
qed (simp add: beside_put beside_put_trans)

lemma acts_tick:
  assumes "\<not> t_scheduler (bd_timer a)" and "\<not> t_clock (bd_timer a)" and "\<not> t_interruptController (bd_timer a)"
    and "test_flag (bd_word a 3) 0"
  shows "unat (bd_word a 4 + 1) < unat (bd_word a 5) \<Longrightarrow> acts (timer_tick 0) a () (bd_put 4 (bd_word a 4 + 1) a)"
    and "unat (bd_word a 5) \<le> unat (bd_word a 4 + 1) \<Longrightarrow> acts (timer_tick 0) a ()
      (bd_put 3 (clear_flag (bd_word a 3) 0) (bd_put 6 (set_flag (bd_word a 6) 0) (bd_put 4 (bd_word a 5) a)))"
  using acts_tick_if [OF assms] by (simp_all add: word_le_nat_alt)

section \<open>The UART\<close>

lemma board_at_uart:
  assumes "board_at a s"
  shows "u_dataRegister (uart0 s) = 7" "u_statusRegister (uart0 s) = 8" "u_controlRegister (uart0 s) = 9"
    "u_baudRegister (uart0 s) = 10" "u_txFifo (uart0 s) = bd_tx a" "u_rxFifo (uart0 s) = bd_rx a"
  using assms by (auto simp: board_at_def)

lemma board_at_fifos:
  assumes "board_at a s" and "u = (uart0 s)\<lparr>u_txFifo := t, u_rxFifo := r\<rparr>"
  shows "board_at (a\<lparr>bd_tx := t, bd_rx := r\<rparr>) (s\<lparr>uart0 := u\<rparr>)"
  using assms by (auto simp: board_at_def reg_get_def)

text \<open>A call of the UART: its queues and its control or baud register change, and the registers 7 and 8 somehow.\<close>

lemma board_at_writes:
  "board_at a s \<Longrightarrow> \<forall>(r, v) \<in> set ws. r = 7 \<or> r = 8 \<Longrightarrow> board_at a (fold (\<lambda>(r, v). reg_put r v) ws s)"
  by (induction ws arbitrary: s) (auto simp: board_at_unread)

lemma writes_fields:
  "beside s (fold (\<lambda>(r, v). reg_put r v) ws s)" "uart0 (fold (\<lambda>(r, v). reg_put r v) ws s) = uart0 s"
  by (induction ws arbitrary: s) (auto intro: beside_trans [OF beside_put])

lemma beside_uart: "beside s t \<Longrightarrow> beside s (t\<lparr>uart0 := u\<rparr>)"
  by (simp add: beside_def)

lemma acts_uart:
  assumes "\<And>s :: 'z demo_st_scheme. board_at a s \<Longrightarrow>
      \<exists>ws. f (uart0 s, s) = (Inr v, (uart0 s)\<lparr>u_txFifo := t, u_rxFifo := r\<rparr>, fold (\<lambda>(r, v). reg_put r v) ws (g s)) \<and>
        (\<forall>(r, v) \<in> set ws. r = 7 \<or> r = 8)"
    and "\<And>s :: 'z demo_st_scheme. board_at a s \<Longrightarrow> board_at b (g s) \<and> uart0 (g s) = uart0 s \<and> beside s (g s)"
  shows "acts (via_uart f) a v (b\<lparr>bd_tx := t, bd_rx := r\<rparr>)"
  unfolding acts_def
proof (intro allI impI)
  fix s :: "'z demo_st_scheme" assume s: "board_at a s"
  obtain ws where ws: "f (uart0 s, s) = (Inr v, (uart0 s)\<lparr>u_txFifo := t, u_rxFifo := r\<rparr>, fold (\<lambda>(r, v). reg_put r v) ws (g s))"
    "\<forall>(r, v) \<in> set ws. r = 7 \<or> r = 8"
    using assms(1) [OF s] by blast
  let ?s = "fold (\<lambda>(r, v). reg_put r v) ws (g s)"
  have g: "board_at b ?s" "uart0 ?s = uart0 s" "beside s ?s"
    using assms(2) [OF s] board_at_writes [OF _ ws(2)] writes_fields(1) [where ws = ws and s = "g s"] writes_fields(2) [where ws = ws and s = "g s"] by (auto intro: beside_trans)
  have "via_uart f s = ret v (?s\<lparr>uart0 := (uart0 s)\<lparr>u_txFifo := t, u_rxFifo := r\<rparr>\<rparr>)" using ws(1) by (simp add: via_uart_def)
  then show "\<exists>s'. via_uart f s = ret v s' \<and> board_at (b\<lparr>bd_tx := t, bd_rx := r\<rparr>) s' \<and> beside s s'"
    using board_at_fifos [OF g(1)] beside_uart [OF g(3)] g(2) by auto
qed

lemma acts_baud:
  assumes "rate \<noteq> 0"
  shows "acts (uart_hal_setBaudRate True rate) a () (bd_put 10 rate a)"
  by (rule actsI [where g = "reg_put 10 rate"])
    (use assms in \<open>simp_all add: uart_hal_setBaudRate_def via_uart_def uart_setBaudRate_def board_at_uart board_at_put beside_put\<close>)

text \<open>Enabled, the UART takes and gives bytes.\<close>

lemmas uart_acts_defs = Let_def uart_updateStatusRegister_def board_at_uart uart_enabled_def board_at_get

lemma acts_enable: "acts (uart_hal_enable True) a () (bd_put 9 (set_flag (bd_word a 9) 0) a)"
proof -
  have "acts (via_uart (plainly uart_enable)) a () ((bd_put 9 (set_flag (bd_word a 9) 0) a)\<lparr>bd_tx := bd_tx a, bd_rx := bd_rx a\<rparr>)"
  proof (rule acts_uart [where g = "reg_put 9 (set_flag (bd_word a 9) 0)"])
    fix s :: "'z demo_st_scheme" assume s: "board_at a s"
    let ?v = "uart_status (bd_tx a = []) (bd_rx a \<noteq> []) True"
    show "\<exists>ws. plainly uart_enable (uart0 s, s) = (Inr (), (uart0 s)\<lparr>u_txFifo := bd_tx a, u_rxFifo := bd_rx a\<rparr>,
        fold (\<lambda>(r, v). reg_put r v) ws (reg_put 9 (set_flag (bd_word a 9) 0) s)) \<and> (\<forall>(r, v) \<in> set ws. r = 7 \<or> r = 8)"
      using s by (intro exI [of _ "[(8, ?v)]"]) (simp add: plainly_def uart_enable_def uart_acts_defs flag_simps)
  qed (simp add: board_at_put beside_put)
  then show ?thesis by (simp add: uart_hal_enable_def [abs_def])
qed

lemma acts_put_byte:
  assumes "test_flag (bd_word a 9) 0"
  shows "acts (uart_hal_writeByte True b) a () (a\<lparr>bd_tx := bd_tx a @ [b]\<rparr>)"
    and "acts (via_uart (uart_pushReceivedByte b)) a () (a\<lparr>bd_rx := bd_rx a @ [b]\<rparr>)"
proof -
  have "acts (via_uart (uart_writeByte b)) a () (a\<lparr>bd_tx := bd_tx a @ [b], bd_rx := bd_rx a\<rparr>)"
  proof (rule acts_uart [where g = "\<lambda>s. s"])
    fix s :: "'z demo_st_scheme" assume s: "board_at a s"
    let ?ws = "[(7, ucast b), (8, uart_status False (bd_rx a \<noteq> []) True)]"
    show "\<exists>ws. uart_writeByte b (uart0 s, s) = (Inr (), (uart0 s)\<lparr>u_txFifo := bd_tx a @ [b], u_rxFifo := bd_rx a\<rparr>,
        fold (\<lambda>(r, v). reg_put r v) ws s) \<and> (\<forall>(r, v) \<in> set ws. r = 7 \<or> r = 8)"
      using s assms by (intro exI [of _ ?ws]) (simp add: uart_writeByte_def uart_acts_defs)
  qed simp
  then show "acts (uart_hal_writeByte True b) a () (a\<lparr>bd_tx := bd_tx a @ [b]\<rparr>)" by (simp add: uart_hal_writeByte_def [abs_def])
  have "acts (via_uart (uart_pushReceivedByte b)) a () (a\<lparr>bd_tx := bd_tx a, bd_rx := bd_rx a @ [b]\<rparr>)"
  proof (rule acts_uart [where g = "\<lambda>s. s"])
    fix s :: "'z demo_st_scheme" assume s: "board_at a s"
    let ?ws = "[(8, uart_status (bd_tx a = []) True True)]"
    show "\<exists>ws. uart_pushReceivedByte b (uart0 s, s) = (Inr (), (uart0 s)\<lparr>u_txFifo := bd_tx a, u_rxFifo := bd_rx a @ [b]\<rparr>,
        fold (\<lambda>(r, v). reg_put r v) ws s) \<and> (\<forall>(r, v) \<in> set ws. r = 7 \<or> r = 8)"
      using s assms by (intro exI [of _ ?ws]) (simp add: uart_pushReceivedByte_def uart_acts_defs)
  qed simp
  then show "acts (via_uart (uart_pushReceivedByte b)) a () (a\<lparr>bd_rx := bd_rx a @ [b]\<rparr>)" by simp
qed

lemma acts_get_byte:
  shows "test_flag (bd_word a 9) 0 \<Longrightarrow> bd_rx a = b # bs \<Longrightarrow> acts (uart_hal_readByte True) a b (a\<lparr>bd_rx := bs\<rparr>)"
    and "bd_tx a = b # bs \<Longrightarrow> acts (via_uart uart_popTxByte) a b (a\<lparr>bd_tx := bs\<rparr>)"
proof -
  assume a: "test_flag (bd_word a 9) 0" "bd_rx a = b # bs"
  have "acts (via_uart uart_readByte) a b (a\<lparr>bd_tx := bd_tx a, bd_rx := bs\<rparr>)"
  proof (rule acts_uart [where g = "\<lambda>s. s"])
    fix s :: "'z demo_st_scheme" assume s: "board_at a s"
    let ?ws = "[(7, ucast b), (8, uart_status (bd_tx a = []) (bs \<noteq> []) True)]"
    show "\<exists>ws. uart_readByte (uart0 s, s) = (Inr b, (uart0 s)\<lparr>u_txFifo := bd_tx a, u_rxFifo := bs\<rparr>,
        fold (\<lambda>(r, v). reg_put r v) ws s) \<and> (\<forall>(r, v) \<in> set ws. r = 7 \<or> r = 8)"
      using s a by (intro exI [of _ ?ws]) (simp add: uart_readByte_def uart_acts_defs)
  qed simp
  then show "acts (uart_hal_readByte True) a b (a\<lparr>bd_rx := bs\<rparr>)" by (simp add: uart_hal_readByte_def [abs_def])
next
  assume a: "bd_tx a = b # bs"
  have "acts (via_uart uart_popTxByte) a b (a\<lparr>bd_tx := bs, bd_rx := bd_rx a\<rparr>)"
  proof (rule acts_uart [where g = "\<lambda>s. s"])
    fix s :: "'z demo_st_scheme" assume s: "board_at a s"
    let ?ws = "[(8, uart_status (bs = []) (bd_rx a \<noteq> []) (test_flag (bd_word a 9) 0))]"
    show "\<exists>ws. uart_popTxByte (uart0 s, s) = (Inr b, (uart0 s)\<lparr>u_txFifo := bs, u_rxFifo := bd_rx a\<rparr>,
        fold (\<lambda>(r, v). reg_put r v) ws s) \<and> (\<forall>(r, v) \<in> set ws. r = 7 \<or> r = 8)"
      using s a by (intro exI [of _ ?ws]) (simp add: uart_popTxByte_def uart_acts_defs)
  qed simp
  then show "acts (via_uart uart_popTxByte) a b (a\<lparr>bd_tx := bs\<rparr>)" by simp
qed

section \<open>Programs on the board\<close>

text \<open>The board, the applications, what is beside them, and the output.\<close>

record host =
  ho_cpu :: cpu
  ho_powers :: "nat \<Rightarrow> power_state"
  ho_sb :: system_bus
  ho_clock :: sim_clock
  ho_esched :: "callback event_queue"

definition host_of :: "('w, 'z demo_st_scheme) computer \<Rightarrow> host" where
  "host_of c = (let s = snd (world c)
     in \<lparr>ho_cpu = cpu0 c, ho_powers = powers c, ho_sb = sb s, ho_clock = clock s, ho_esched = esched s\<rparr>)"

definition hosts :: "board \<times> 'w \<times> host \<times> out list \<Rightarrow> ('w, 'z demo_st_scheme) computer \<Rightarrow> bool" where
  "hosts = (\<lambda>(a, w, h, xs) c.
     board_at a (snd (world c)) \<and> fst (world c) = w \<and> host_of c = h \<and> cout (snd (world c)) = puts xs std_cout)"

lemma board_at_cout [simp]: "board_at a (s\<lparr>cout := x\<rparr>) = board_at a s"
  by (simp add: board_at_def)

lemma hosts_step:
  assumes "\<And>s :: 'z demo_st_scheme. board_at a s \<Longrightarrow> \<exists>s'. f (w, s) = ret () (w', s') \<and> board_at b s' \<and> beside s s'"
  shows "runs hosts (apps f :: ('w, 'z demo_st_scheme) computer \<Rightarrow> _) (a, w, h, xs) (b, w', h, xs)"
  using assms by (fastforce simp: runs_def hosts_def apps_def beside_def host_of_def Let_def)

lemma hosts_print: "runs hosts (print outs) (a, w, h, xs) (a, w, h, xs @ outs)"
  by (auto simp: runs_def hosts_def host_of_def Let_def print_def machine_def say_def via_bus_def puts_append)

lemma hosts_say:
  fixes f :: "'z demo_st_scheme \<Rightarrow> _"
  assumes "acts f a v b"
  shows "runs (hosts :: _ \<Rightarrow> ('w, 'z demo_st_scheme) computer \<Rightarrow> bool) (machine (say_result f g)) (a, w, h, xs) (b, w, h, xs @ g v)"
  unfolding runs_def
proof (intro allI impI)
  fix c :: "('w, 'z demo_st_scheme) computer" assume c: "hosts (a, w, h, xs) c"
  obtain s' where "f (snd (world c)) = ret v s'" "board_at b s'" "beside (snd (world c)) s'"
    using c actsD [OF assms] by (auto simp: hosts_def)
  then show "\<exists>s'. machine (say_result f g) c = Some (ret () s') \<and> hosts (b, w, h, xs @ g v) s'"
    using c by (auto simp: hosts_def host_of_def Let_def machine_def via_bus_def beside_def say_result_def say_def puts_append)
qed

lemma hosts_call:
  fixes f :: "'z demo_st_scheme \<Rightarrow> _"
  assumes "acts f a v b"
  shows "runs (hosts :: _ \<Rightarrow> ('w, 'z demo_st_scheme) computer \<Rightarrow> bool) (machine f) (a, w, h, xs) (b, w, h, xs)"
proof (rule runs_eq)
  show "runs (hosts :: _ \<Rightarrow> ('w, 'z demo_st_scheme) computer \<Rightarrow> bool) (machine (say_result f (\<lambda>_. []))) (a, w, h, xs) (b, w, h, xs)"
    using hosts_say [OF assms, of "\<lambda>_. []" w h xs] by simp
next
  fix c :: "('w, 'z demo_st_scheme) computer" assume c: "hosts (a, w, h, xs) c"
  obtain s' where "f (snd (world c)) = ret v s'"
    using c actsD [OF assms] by (auto simp: hosts_def)
  then show "machine f c = machine (say_result f (\<lambda>_. [])) c"
    by (simp add: machine_def via_bus_def say_result_def say_def puts_def)
qed

lemma hosts_text: "hosts (a, w, h, xs) c \<Longrightarrow> os_text (cout (snd (world c))) = os_text (puts xs std_cout)"
  by (simp add: hosts_def)

lemma acts_attach: "acts (plainly (\<lambda>s. snd (uart_hal_attach True s))) a () (bd_put 9 (set_flag (bd_word a 9) 0) a)"
proof -
  have "plainly (\<lambda>s. snd (uart_hal_attach True s)) s = uart_hal_enable True s" for s :: "'z demo_st_scheme"
    by (simp add: uart_hal_attach_def uart_hal_enable_def plainly_def via_uart_def split: prod.splits)
  then show ?thesis using acts_enable [of a] unfolding acts_def by metis
qed

lemma hosts_say_of:
  assumes "\<And>s :: 'z demo_st_scheme. board_at a s \<Longrightarrow> f s = outs"
  shows "runs hosts (machine (say_of f)) (a, w, h, xs) (a, w, h, xs @ outs)"
  using assms by (fastforce simp: runs_def hosts_def host_of_def Let_def machine_def via_bus_def say_of_def say_def puts_append)

lemma board_at_counter: "board_at a s \<Longrightarrow> timer_hal_counter (Some 0) s = bd_word a 4"
  by (simp add: timer_hal_counter_def timer_counter_def board_at_timer board_at_get)

text \<open>The constructors of the three devices.\<close>

definition board_new :: "(('w, 'z demo_st_scheme) computer \<Rightarrow> (unit, ('w, 'z demo_st_scheme) computer) outcome option) list" where
  "board_new = [machine new_mmio, machine (new_gpio 0x40000000), machine (new_timer 0 0x40001000),
     machine (new_uart 0x40003000 DEFAULT_BAUD_RATE)]"

definition new_board :: board where
  "new_board = \<lparr>bd_word = bd_home, bd_tx = [], bd_rx = [], bd_timer = board_timer\<rparr>"

lemma board_built:
  fixes c0 :: "('w, 'z demo_st_scheme) computer"
  shows "\<exists>c. main_of (print outs # board_new) c0 = Some (ret () c) \<and> hosts (new_board, fst (world c0), host_of c0, outs) c"
proof -
  obtain w s0 where ws: "world c0 = (w, s0)" by (cases "world c0")
  let ?s1 = "s0\<lparr>cout := puts outs std_cout, next_ref := 0, m_registers := []\<rparr>"
  let ?p1 = "placed [(0x40000000, 0), (0x40000000 + 4, 0), (0x40000000 + 8, 0)] ?s1"
  have f1: "fresh_at [0x40000000, 0x40000000 + 4, 0x40000000 + 8] ?s1" by (simp add: fresh_at_def)
  have g: "new_gpio 0x40000000 ?s1 = ret () (?p1\<lparr>gpio0 := \<lparr>g_base = 0x40000000, g_dirRegister = 0, g_outRegister = 1, g_inRegister = 2\<rparr>\<rparr>)"
    by (simp add: new_gpio_def gpio_init_builds [OF f1])
  let ?s2 = "?p1\<lparr>gpio0 := \<lparr>g_base = 0x40000000, g_dirRegister = 0, g_outRegister = 1, g_inRegister = 2\<rparr>\<rparr>"
  let ?p2 = "placed [(0x40001000, 0), (0x40001000 + 4, 0), (0x40001000 + 8, 0), (0x40001000 + 12, 0)] ?s2"
  have f2: "fresh_at [0x40001000, 0x40001000 + 4, 0x40001000 + 8, 0x40001000 + 12] ?s2" by (simp add: fresh_at_def)
  have "timer_init 0x40001000 ?s2 = ret board_timer ?p2" using timer_init_builds [OF f2] by (simp add: board_timer_def)
  then have t: "new_timer 0 0x40001000 ?s2 = ret () (upd_timer 0 (\<lambda>_. board_timer) ?p2)"
    unfolding new_timer_def by (simp only: and_then_simps)
  let ?s3 = "upd_timer 0 (\<lambda>_. board_timer) ?p2"
  have f3: "fresh_at [0x40003000, 0x40003000 + 4, 0x40003000 + 8, 0x40003000 + 12] ?s3" by (simp add: fresh_at_def upd_timer_def)
  let ?p3 = "placed [(0x40003000, 0), (0x40003000 + 4, set_flag 0 0), (0x40003000 + 8, 0), (0x40003000 + 12, DEFAULT_BAUD_RATE)] ?s3"
  have b: "DEFAULT_BAUD_RATE \<noteq> 0" by (simp add: DEFAULT_BAUD_RATE_def)
  obtain u where u: "uart_init 0x40003000 DEFAULT_BAUD_RATE ?s3 = ret u (uart_updateStatusRegister u ?p3)"
    and fields: "u_base u = 0x40003000" "u_dataRegister u = 7" "u_statusRegister u = 8" "u_controlRegister u = 9"
      "u_baudRegister u = 10" "u_txFifo u = []" "u_rxFifo u = []"
    using uart_init_builds [OF f3 b] by (auto simp: upd_timer_def)
  have uart: "u = \<lparr>u_base = 0x40003000, u_dataRegister = 7, u_statusRegister = 8, u_controlRegister = 9, u_baudRegister = 10,
      u_txFifo = [], u_rxFifo = []\<rparr>"
    using fields by (cases u) simp
  let ?s = "(uart_updateStatusRegister u ?p3)\<lparr>uart0 := u\<rparr>"
  have "new_uart 0x40003000 DEFAULT_BAUD_RATE ?s3 = ret () ?s"
    unfolding new_uart_def u and_then_simps ..
  with g t have "main_of (print outs # board_new) c0 = Some (ret () (c0\<lparr>world := (w, ?s)\<rparr>))"
    by (simp add: main_of_def board_new_def print_def machine_def say_def via_bus_def new_mmio_def ws)
  moreover have regs: "reg_get r ?p3 = bd_home r \<and> m_initialValue (reg_objs ?p3 r) = bd_home r" if "r < 11" for r
  proof -
    have "r \<in> {0, 1, 2, 3, 4, 5, 6, 7, 8, 9, 10}" using that by (simp only: insert_iff empty_iff) arith
    then show ?thesis
      by (elim insertE emptyE) (simp_all add: reg_get_def upd_timer_def register_init_def bd_home_def eval_nat_numeral)
  qed
  obtain v where up: "uart_updateStatusRegister u ?p3 = reg_put 8 v ?p3"
    using fields(3) by (simp add: uart_updateStatusRegister_def)
  have "board_at new_board ?s"
    unfolding board_at_def up
  proof (intro conjI allI impI)
    have put: "reg_get r ((reg_put 8 v s)\<lparr>uart0 := u\<rparr>) = (if r = 8 then v else reg_get r s)"
      "m_initialValue (reg_objs ((reg_put 8 v s)\<lparr>uart0 := u\<rparr>) r) = m_initialValue (reg_objs s r)"
      for r and s :: "'z demo_st_scheme"
      by (simp_all add: reg_get_def reg_put_def register_write_def)
    fix r :: nat assume r: "r < 11"
    show "reg_get r ((reg_put 8 v ?p3)\<lparr>uart0 := u\<rparr>) = bd_word new_board r" if "r \<noteq> 7 \<and> r \<noteq> 8"
      unfolding put using regs [OF r] that by (simp only: new_board_def board.simps if_False)
    show "m_initialValue (reg_objs ((reg_put 8 v ?p3)\<lparr>uart0 := u\<rparr>) r) = bd_home r"
      unfolding put using regs [OF r] by (rule conjunct2)
  qed (simp_all add: upd_timer_def new_board_def board_timer_def timer_regs_def uart)
  moreover have "cout ?s = puts outs std_cout" by (simp add: uart_updateStatusRegister_def)
  moreover have "host_of (c0\<lparr>world := (w, ?s)\<rparr>) = host_of c0"
    unfolding up by (simp add: host_of_def ws Let_def)
  ultimately show ?thesis by (auto simp: hosts_def ws)
qed

lemma board_executes:
  fixes c0 :: "('w, 'z demo_st_scheme) computer"
  assumes "runs (hosts :: _ \<Rightarrow> ('w, 'z demo_st_scheme) computer \<Rightarrow> bool) (steps rest) (new_board, fst (world c0), host_of c0, outs) (a, w, h, xs)"
    and "os_text (puts xs std_cout) = t"
  shows "\<exists>c. main_of (print outs # board_new @ rest) c0 = Some (ret () c) \<and> os_text (cout (snd (world c))) = t"
proof -
  have "os_text (cout (snd (world c))) = t" if "hosts (a, w, h, xs) c" for c :: "('w, 'z demo_st_scheme) computer"
    using hosts_text [OF that] assms(2) by simp
  from main_of_executes [OF board_built assms(1), of "\<lambda>c. os_text (cout (snd (world c))) = t", OF this] show ?thesis by simp
qed

section \<open>Applications on the board\<close>

text \<open>The same for a call of the applications.\<close>

definition app_acts ::
  "('w \<times> 'z demo_st_scheme \<Rightarrow> (unit, 'w \<times> 'z demo_st_scheme) outcome) \<Rightarrow> board \<times> 'w \<Rightarrow> board \<times> 'w \<Rightarrow> bool" where
  "app_acts f = (\<lambda>(a, w) (b, w'). \<forall>s. board_at a s \<longrightarrow> (\<exists>s'. f (w, s) = ret () (w', s') \<and> board_at b s' \<and> beside s s'))"

lemma app_actsD:
  "app_acts f (a, w) (b, w') \<Longrightarrow> board_at a s \<Longrightarrow> \<exists>s'. f (w, s) = ret () (w', s') \<and> board_at b s' \<and> beside s s'"
  by (simp add: app_acts_def)

lemma hosts_apps: "app_acts f (a, w) (b, w') \<Longrightarrow> runs hosts (apps f) (a, w, h, xs) (b, w', h, xs)"
  by (rule hosts_step) (rule app_actsD)

lemma hosts_new_app: "runs hosts (apps (plainly (\<lambda>(w, s). (f w, s)))) (a, w, h, xs) (a, f w, h, xs)"
  by (auto simp: runs_def hosts_def host_of_def apps_def plainly_def split: prod.splits)

abbreviation bd_drive :: "bool \<Rightarrow> nat \<Rightarrow> board \<Rightarrow> board" where
  "bd_drive v n a \<equiv> bd_put 2 (put_flag v (bd_word a 2) n) (bd_put 1 (put_flag v (bd_word a 1) n) a)"

text \<open>A pin made an output and driven low, as the applications start.\<close>

abbreviation bd_ready :: "nat \<Rightarrow> board \<Rightarrow> board" where
  "bd_ready n a \<equiv> bd_drive False n (bd_put 0 (set_flag (bd_word a 0) n) a)"

lemma ready_calls:
  fixes s :: "'z demo_st_scheme"
  assumes "unat p < 32" and "board_at a s"
  shows "\<exists>s' s''. gpio_hal_configureOutput True p s = ret () s' \<and> gpio_hal_write True p False s' = ret () s'' \<and>
    board_at (bd_ready (unat p) a) s'' \<and> beside s s''"
proof -
  let ?b = "bd_put 0 (set_flag (bd_word a 0) (unat p)) a"
  obtain s' where s': "gpio_hal_configureOutput True p s = ret () s'" "board_at ?b s'" "beside s s'"
    using actsD [OF acts_configure [OF assms(1)] assms(2)] by blast
  have "test_flag (bd_word ?b 0) (unat p)" using assms(1) by (simp add: flag_simps)
  from actsD [OF acts_write [OF assms(1) this, of False] s'(2)] s' show ?thesis by (blast intro: beside_trans)
qed

lemma app_acts_basic:
  assumes "bf_gpioHAL f" and "unat (bf_pin f) < 32" and "aw_apps w i = Basic f"
  shows "app_acts (app_initialize i) (a, w) (bd_ready (unat (bf_pin f)) a,
      put_app i (Basic (f\<lparr>bf_initialized := True, bf_shutdown := False, bf_cycleCounter := 0, bf_executionCount := 0\<rparr>)) w)"
  using ready_calls [OF assms(2), of a] assms(1,3)
  by (fastforce simp: app_acts_def app_initialize_def basic_initialize_def via_app_def hal_call_def Let_def)

lemma app_acts_basic_on:
  assumes "bf_gpioHAL f" and "unat (bf_pin f) < 32" and "bf_initialized f" and "\<not> bf_shutdown f"
    and "test_flag (bd_word a 0) (unat (bf_pin f))"
  shows "bf_cycleCounter f + 1 < bf_toggleInterval f \<Longrightarrow> aw_apps w i = Basic f \<Longrightarrow> app_acts (app_update i) (a, w)
      (a, put_app i (Basic (f\<lparr>bf_executionCount := bf_executionCount f + 1, bf_cycleCounter := bf_cycleCounter f + 1\<rparr>)) w)"
    and "bf_toggleInterval f \<le> bf_cycleCounter f + 1 \<Longrightarrow> aw_apps w i = Basic f \<Longrightarrow> app_acts (app_update i) (a, w)
      (bd_drive (\<not> test_flag (bd_word a 2) (unat (bf_pin f))) (unat (bf_pin f)) a,
       put_app i (Basic (f\<lparr>bf_executionCount := bf_executionCount f + 1, bf_cycleCounter := 0\<rparr>)) w)"
    and "aw_apps w i = Basic f \<Longrightarrow> app_acts (app_shutdown i) (a, w) (bd_drive False (unat (bf_pin f)) a, put_app i (Basic (f\<lparr>bf_shutdown := True\<rparr>)) w)"
  using actsD [OF acts_toggle [OF assms(2,5)]] actsD [OF acts_write [OF assms(2,5), of False]] assms(1,3,4)
  by (fastforce simp: app_acts_def app_update_def app_shutdown_def basic_update_def basic_shutdown_def via_app_def hal_call_def Let_def)+

text \<open>The blink firmware: its start and what it does at a compare match both leave the timer counting from zero.\<close>

abbreviation bd_counting :: "board \<Rightarrow> board" where
  "bd_counting a \<equiv> bd_put 3 (set_flag 0 0) (bd_put 6 0 (bd_put 4 0 a))"

lemma acts_plainly: "acts (plainly f) a () b \<Longrightarrow> board_at a s \<Longrightarrow> board_at b (f s) \<and> beside s (f s)"
  by (auto simp: plainly_def dest: actsD)

lemma blink_restart:
  fixes s :: "'z demo_st_scheme"
  assumes "\<not> t_scheduler (bd_timer a)" and "\<not> t_clock (bd_timer a)" and s: "board_at a s"
  shows "board_at (bd_counting a) (timer_hal_start (Some 0) (timer_hal_reset (Some 0) s)) \<and>
    beside s (timer_hal_start (Some 0) (timer_hal_reset (Some 0) s))"
proof -
  let ?b = "bd_put 3 0 (bd_put 6 0 (bd_put 4 0 a))"
  have r: "board_at ?b (timer_hal_reset (Some 0) s) \<and> beside s (timer_hal_reset (Some 0) s)"
    by (rule acts_plainly [OF acts_reset [OF assms(2)] s])
  have "board_at (bd_put 3 (set_flag (bd_word ?b 3) 0) ?b) (timer_hal_start (Some 0) (timer_hal_reset (Some 0) s)) \<and>
    beside (timer_hal_reset (Some 0) s) (timer_hal_start (Some 0) (timer_hal_reset (Some 0) s))"
    by (rule acts_plainly [OF acts_start]) (use assms(1,2) r in simp_all)
  with r show ?thesis by (simp add: beside_def)
qed

lemma blink_begin:
  fixes s :: "'z demo_st_scheme"
  assumes "\<not> t_scheduler (bd_timer a)" and "\<not> t_clock (bd_timer a)" and s: "board_at a s"
  shows "board_at (bd_put 3 (set_flag 0 0) (bd_put 5 v (bd_put 6 0 (bd_put 4 0 a))))
      (timer_hal_start (Some 0) (timer_hal_setCompare (Some 0) v (timer_hal_reset (Some 0) (timer_hal_stop (Some 0) s)))) \<and>
    beside s (timer_hal_start (Some 0) (timer_hal_setCompare (Some 0) v (timer_hal_reset (Some 0) (timer_hal_stop (Some 0) s))))"
proof -
  let ?b1 = "bd_put 3 (clear_flag (bd_word a 3) 0) a" and ?s1 = "timer_hal_stop (Some 0) s"
  let ?b2 = "bd_put 3 0 (bd_put 6 0 (bd_put 4 0 ?b1))" and ?s2 = "timer_hal_reset (Some 0) ?s1"
  let ?b3 = "bd_put 5 v ?b2" and ?s3 = "timer_hal_setCompare (Some 0) v ?s2"
  let ?b4 = "bd_put 3 (set_flag (bd_word ?b3 3) 0) ?b3" and ?s4 = "timer_hal_start (Some 0) ?s3"
  have 1: "board_at ?b1 ?s1 \<and> beside s ?s1" by (rule acts_plainly [OF acts_stop s])
  have 2: "board_at ?b2 ?s2 \<and> beside ?s1 ?s2" by (rule acts_plainly [OF acts_reset]) (use assms(2) 1 in simp_all)
  have 3: "board_at ?b3 ?s3 \<and> beside ?s2 ?s3" by (rule acts_plainly [OF acts_setCompare]) (use assms(1) 2 in simp_all)
  have 4: "board_at ?b4 ?s4 \<and> beside ?s3 ?s4" by (rule acts_plainly [OF acts_start]) (use assms(1,2) 3 in simp_all)
  have "?b4 = bd_put 3 (set_flag 0 0) (bd_put 5 v (bd_put 6 0 (bd_put 4 0 a)))"
    by (simp add: fun_eq_iff)
  then show ?thesis using 1 2 3 4 by (simp add: beside_def)
qed

lemma app_acts_blink:
  assumes "aw_gpioHAL w" and "aw_timerHAL w = Some 0" and "\<not> t_scheduler (bd_timer a)" and "\<not> t_clock (bd_timer a)"
    and "unat (tb_pin f) < 32" and "aw_apps w i = TimerBlink f"
  shows "app_acts (app_initialize i) (a, w)
    (bd_put 3 (set_flag 0 0) (bd_put 5 (tb_compareValue f) (bd_put 6 0 (bd_put 4 0 (bd_ready (unat (tb_pin f)) a)))),
     put_app i (TimerBlink (f\<lparr>tb_initialized := True, tb_shutdown := False, tb_toggleCount := 0\<rparr>)) w)"
  unfolding app_acts_def
proof (clarify)
  fix s :: "'z demo_st_scheme" assume s: "board_at a s"
  obtain s1 s2 where g: "gpio_hal_configureOutput True (tb_pin f) s = ret () s1" "gpio_hal_write True (tb_pin f) False s1 = ret () s2"
    "board_at (bd_ready (unat (tb_pin f)) a) s2" "beside s s2"
    using ready_calls [OF assms(5) s] by blast
  note t = blink_begin [OF _ _ g(3), of "tb_compareValue f"]
  show "\<exists>s'. app_initialize i (w, s) = ret () (put_app i (TimerBlink (f\<lparr>tb_initialized := True, tb_shutdown := False, tb_toggleCount := 0\<rparr>)) w, s') \<and>
      board_at (bd_put 3 (set_flag 0 0) (bd_put 5 (tb_compareValue f) (bd_put 6 0 (bd_put 4 0 (bd_ready (unat (tb_pin f)) a))))) s' \<and> beside s s'"
    using t assms g
    by (auto simp: app_initialize_def blink_initialize_def via_app_def hal_call_def Let_def intro: beside_trans)
qed

lemma board_at_match: "board_at a s \<Longrightarrow> timer_hal_hasMatch (Some 0) s = test_flag (bd_word a 6) 0"
  by (simp add: timer_hal_hasMatch_def timer_hasMatch_def board_at_timer board_at_get)

lemma app_acts_blink_on:
  assumes "aw_gpioHAL w" and "aw_timerHAL w = Some 0" and "\<not> t_scheduler (bd_timer a)" and "\<not> t_clock (bd_timer a)"
    and "unat (tb_pin f) < 32" and "tb_initialized f" and "\<not> tb_shutdown f" and on: "test_flag (bd_word a 0) (unat (tb_pin f))"
  shows "\<not> test_flag (bd_word a 6) 0 \<and> unat (bd_word a 4) < unat (tb_compareValue f) \<Longrightarrow> aw_apps w i = TimerBlink f \<Longrightarrow>
      app_acts (app_update i) (a, w) (a, put_app i (TimerBlink f) w)"
    and "test_flag (bd_word a 6) 0 \<or> unat (tb_compareValue f) \<le> unat (bd_word a 4) \<Longrightarrow> aw_apps w i = TimerBlink f \<Longrightarrow>
      app_acts (app_update i) (a, w)
        (bd_counting (bd_drive (\<not> test_flag (bd_word a 2) (unat (tb_pin f))) (unat (tb_pin f)) a),
         put_app i (TimerBlink (f\<lparr>tb_toggleCount := tb_toggleCount f + 1\<rparr>)) w)"
    and "aw_apps w i = TimerBlink f \<Longrightarrow> app_acts (app_shutdown i) (a, w)
        (bd_drive False (unat (tb_pin f)) (bd_put 3 (clear_flag (bd_word a 3) 0) a), put_app i (TimerBlink (f\<lparr>tb_shutdown := True\<rparr>)) w)"
proof -
  assume "\<not> test_flag (bd_word a 6) 0 \<and> unat (bd_word a 4) < unat (tb_compareValue f)" "aw_apps w i = TimerBlink f"
  then show "app_acts (app_update i) (a, w) (a, put_app i (TimerBlink f) w)"
    using assms by (auto simp: app_acts_def app_update_def blink_update_def via_app_def board_at_match board_at_counter word_le_nat_alt)
next
  assume hit: "test_flag (bd_word a 6) 0 \<or> unat (tb_compareValue f) \<le> unat (bd_word a 4)" and app: "aw_apps w i = TimerBlink f"
  let ?b = "bd_drive (\<not> test_flag (bd_word a 2) (unat (tb_pin f))) (unat (tb_pin f)) a"
  show "app_acts (app_update i) (a, w) (bd_counting ?b, put_app i (TimerBlink (f\<lparr>tb_toggleCount := tb_toggleCount f + 1\<rparr>)) w)"
    unfolding app_acts_def
  proof (clarify)
    fix s :: "'z demo_st_scheme" assume s: "board_at a s"
    obtain s1 where g: "gpio_hal_toggle True (tb_pin f) s = ret () s1" "board_at ?b s1" "beside s s1"
      using actsD [OF acts_toggle [OF assms(5) on] s] by blast
    note t = blink_restart [OF _ _ g(2)]
    show "\<exists>s'. app_update i (w, s) = ret () (put_app i (TimerBlink (f\<lparr>tb_toggleCount := tb_toggleCount f + 1\<rparr>)) w, s') \<and>
        board_at (bd_counting ?b) s' \<and> beside s s'"
      using t assms g hit app s
      by (auto simp: app_update_def blink_update_def via_app_def hal_call_def Let_def board_at_match board_at_counter word_le_nat_alt intro: beside_trans)
  qed
next
  assume app: "aw_apps w i = TimerBlink f"
  let ?a = "bd_put 3 (clear_flag (bd_word a 3) 0) a"
  have "test_flag (bd_word ?a 0) (unat (tb_pin f))" using on by simp
  note drive = actsD [OF acts_write [OF assms(5) this, of False]]
  show "app_acts (app_shutdown i) (a, w) (bd_drive False (unat (tb_pin f)) ?a, put_app i (TimerBlink (f\<lparr>tb_shutdown := True\<rparr>)) w)"
    unfolding app_acts_def
  proof (clarify)
    fix s :: "'z demo_st_scheme" assume s: "board_at a s"
    have stop: "board_at ?a (timer_hal_stop (Some 0) s)" "beside s (timer_hal_stop (Some 0) s)"
      using acts_plainly [OF acts_stop s] by blast+
    from drive [OF stop(1)] stop(2)
    show "\<exists>s'. app_shutdown i (w, s) = ret () (put_app i (TimerBlink (f\<lparr>tb_shutdown := True\<rparr>)) w, s') \<and>
        board_at (bd_drive False (unat (tb_pin f)) ?a) s' \<and> beside s s'"
      using assms app by (auto simp: app_shutdown_def blink_shutdown_def via_app_def hal_call_def Let_def intro: beside_trans)
  qed
qed

text \<open>The echo firmware.\<close>

lemma acts_disable: "acts (uart_hal_disable True) a () (bd_put 9 (clear_flag (bd_word a 9) 0) a)"
proof -
  have "acts (via_uart (plainly uart_disable)) a () ((bd_put 9 (clear_flag (bd_word a 9) 0) a)\<lparr>bd_tx := bd_tx a, bd_rx := bd_rx a\<rparr>)"
  proof (rule acts_uart [where g = "reg_put 9 (clear_flag (bd_word a 9) 0)"])
    fix s :: "'z demo_st_scheme" assume s: "board_at a s"
    let ?v = "uart_status (bd_tx a = []) (bd_rx a \<noteq> []) False"
    show "\<exists>ws. plainly uart_disable (uart0 s, s) = (Inr (), (uart0 s)\<lparr>u_txFifo := bd_tx a, u_rxFifo := bd_rx a\<rparr>,
        fold (\<lambda>(r, v). reg_put r v) ws (reg_put 9 (clear_flag (bd_word a 9) 0) s)) \<and> (\<forall>(r, v) \<in> set ws. r = 7 \<or> r = 8)"
      using s by (intro exI [of _ "[(8, ?v)]"]) (simp add: plainly_def uart_disable_def uart_acts_defs flag_simps)
  qed (simp add: board_at_put beside_put)
  then show ?thesis by (simp add: uart_hal_disable_def [abs_def])
qed

lemma app_acts_echo:
  assumes "aw_uartHAL w" and "ue_baudRate f \<noteq> 0" and "aw_apps w i = UARTEcho f"
  shows "app_acts (app_initialize i) (a, w) (bd_put 9 (set_flag (bd_word a 9) 0) (bd_put 10 (ue_baudRate f) a),
    put_app i (UARTEcho (f\<lparr>ue_initialized := True, ue_shutdown := False, ue_echoCount := 0\<rparr>)) w)"
  unfolding app_acts_def
proof (clarify)
  fix s :: "'z demo_st_scheme" assume s: "board_at a s"
  obtain s1 where 1: "uart_hal_setBaudRate True (ue_baudRate f) s = ret () s1" "board_at (bd_put 10 (ue_baudRate f) a) s1" "beside s s1"
    using actsD [OF acts_baud [OF assms(2)] s] by blast
  from actsD [OF acts_enable 1(2)] 1 assms(1,3)
  show "\<exists>s'. app_initialize i (w, s) = ret () (put_app i (UARTEcho (f\<lparr>ue_initialized := True, ue_shutdown := False, ue_echoCount := 0\<rparr>)) w, s') \<and>
      board_at (bd_put 9 (set_flag (bd_word a 9) 0) (bd_put 10 (ue_baudRate f) a)) s' \<and> beside s s'"
    by (fastforce simp: app_initialize_def echo_initialize_def via_app_def hal_call_def Let_def intro: beside_trans)
qed

lemma echo_loop_board:
  fixes s :: "'z demo_st_scheme"
  assumes "board_at a s" and "test_flag (bd_word a 9) 0"
  shows "\<exists>s'. echo_loop True (f, s) = ret () (f\<lparr>ue_echoCount := ue_echoCount f + of_nat (length (bd_rx a))\<rparr>, s') \<and>
    board_at (a\<lparr>bd_tx := bd_tx a @ bd_rx a, bd_rx := []\<rparr>) s' \<and> beside s s'"
  using assms
proof (induction "bd_rx a" arbitrary: a s f)
  case Nil
  then have "board_at (a\<lparr>bd_rx := []\<rparr>) s" by (cases a) simp
  with Nil show ?case
    by (simp add: echo_loop.simps [of True f s] uart_hal_hasData_def uart_hasReceivedData_def board_at_uart)
next
  case (Cons b bs)
  obtain s1 where 1: "uart_hal_readByte True s = ret b s1" "board_at (a\<lparr>bd_rx := bs\<rparr>) s1" "beside s s1"
    using actsD [OF acts_get_byte(1) [OF Cons(4) Cons(2) [symmetric]] Cons(3)] by blast
  obtain s2 where 2: "uart_hal_writeByte True b s1 = ret () s2" "board_at (a\<lparr>bd_rx := bs, bd_tx := bd_tx a @ [b]\<rparr>) s2" "beside s1 s2"
    using actsD [OF acts_put_byte(1) [of "a\<lparr>bd_rx := bs\<rparr>"] 1(2)] Cons(4) by auto
  have "uart_hal_hasData True s" using Cons(2,3) by (simp add: uart_hal_hasData_def uart_hasReceivedData_def board_at_uart flip: Cons(2))
  with 1(1) 2(1) have "echo_loop True (f, s) = echo_loop True (f\<lparr>ue_echoCount := ue_echoCount f + 1\<rparr>, s2)"
    by (simp add: echo_loop.simps [of True f s])
  moreover have "\<exists>s'. echo_loop True (f\<lparr>ue_echoCount := ue_echoCount f + 1\<rparr>, s2) =
      ret () (f\<lparr>ue_echoCount := ue_echoCount f + 1 + of_nat (length bs)\<rparr>, s') \<and>
      board_at (a\<lparr>bd_tx := (bd_tx a @ [b]) @ bs, bd_rx := []\<rparr>) s' \<and> beside s2 s'"
    using Cons.hyps(1) [of "a\<lparr>bd_rx := bs, bd_tx := bd_tx a @ [b]\<rparr>" s2 "f\<lparr>ue_echoCount := ue_echoCount f + 1\<rparr>"] 2(2) Cons(4) by simp
  ultimately show ?case
    using Cons(2) [symmetric] 1(3) 2(3) by (auto simp: add.assoc beside_def)
qed

lemma app_acts_echo_on:
  assumes "aw_uartHAL w" and "ue_initialized f" and "\<not> ue_shutdown f" and "test_flag (bd_word a 9) 0" and "aw_apps w i = UARTEcho f"
  shows "app_acts (app_update i) (a, w) (a\<lparr>bd_tx := bd_tx a @ bd_rx a, bd_rx := []\<rparr>,
      put_app i (UARTEcho (f\<lparr>ue_echoCount := ue_echoCount f + of_nat (length (bd_rx a))\<rparr>)) w)"
    and "app_acts (app_shutdown i) (a, w) (bd_put 9 (clear_flag (bd_word a 9) 0) a, put_app i (UARTEcho (f\<lparr>ue_shutdown := True\<rparr>)) w)"
  using echo_loop_board [OF _ assms(4), of _ f] actsD [OF acts_disable, of a] assms(1-3,5)
  by (fastforce simp: app_acts_def app_update_def app_shutdown_def echo_update_def echo_shutdown_def via_app_def hal_call_def)+

section \<open>The firmware manager on the board\<close>

lemma hosts_doing:
  assumes "\<And>c. hosts (a, w, h, xs) c \<Longrightarrow> \<exists>v c'. f c = ret v c' \<and> hosts (b, w', h', ys) c'"
  shows "runs hosts (doing f) (a, w, h, xs) (b, w', h', ys)"
  using assms by (fastforce simp: runs_def doing_def)

abbreviation ho_fm :: "host \<Rightarrow> fw_manager" where
  "ho_fm h \<equiv> c_firmwareManager (ho_cpu h)"

abbreviation set_fm :: "fw_manager \<Rightarrow> host \<Rightarrow> host" where
  "set_fm m h \<equiv> h\<lparr>ho_cpu := (ho_cpu h)\<lparr>c_firmwareManager := m\<rparr>\<rparr>"

lemma hosts_fm_call:
  assumes "app_acts (op i) (a, w) (b, w')" and "fm_activeFirmware (ho_fm h) = Some i"
  shows "runs (hosts :: _ \<Rightarrow> ('w, 'z demo_st_scheme) computer \<Rightarrow> bool) (doing (via_fm (fm_call op))) (a, w, h, xs) (b, w', h, xs)"
proof (rule hosts_doing)
  fix c :: "('w, 'z demo_st_scheme) computer" assume c: "hosts (a, w, h, xs) c"
  obtain s' where "op i (w, snd (world c)) = ret () (w', s')" "board_at b s'" "beside (snd (world c)) s'"
    using app_actsD [OF assms(1)] c by (auto simp: hosts_def)
  then show "\<exists>v c'. via_fm (fm_call op) c = ret v c' \<and> hosts (b, w', h, xs) c'"
    using c assms(2)
    by (cases "world c", cases "cpu0 c") (auto simp: via_fm_def fm_call_def upd_cpu_def hosts_def host_of_def Let_def beside_def)
qed

lemma hosts_fm_select:
  assumes "app_acts (fw_shutdown cls i) (a, w) (b, w')" and "fm_activeFirmware (ho_fm h) = Some i"
    and "map_of (fm_registry (ho_fm h)) n \<noteq> None" and "fm_activeName (ho_fm h) \<noteq> n"
  shows "runs (hosts :: _ \<Rightarrow> ('w, 'z demo_st_scheme) computer \<Rightarrow> bool) (doing (via_fm (fm_setActiveFirmware cls n)))
    (a, w, h, xs) (b, w', set_fm ((ho_fm h)\<lparr>fm_activeName := n\<rparr>) h, xs)"
proof (rule hosts_doing)
  fix c :: "('w, 'z demo_st_scheme) computer" assume c: "hosts (a, w, h, xs) c"
  obtain s' where "fw_shutdown cls i (w, snd (world c)) = ret () (w', s')" "board_at b s'" "beside (snd (world c)) s'"
    using app_actsD [OF assms(1)] c by (auto simp: hosts_def)
  then show "\<exists>v c'. via_fm (fm_setActiveFirmware cls n) c = ret v c' \<and> hosts (b, w', set_fm ((ho_fm h)\<lparr>fm_activeName := n\<rparr>) h, xs) c'"
    using c assms(2-4)
    by (cases "world c") (auto simp: via_fm_def fm_setActiveFirmware_def fm_shutdown_def fm_call_def upd_cpu_def hosts_def host_of_def
        Let_def beside_def)
qed

lemma hosts_fm_reselect:
  assumes "map_of (fm_registry (ho_fm h)) n \<noteq> None" and "fm_activeName (ho_fm h) = n"
  shows "runs hosts (doing (via_fm (fm_setActiveFirmware cls n))) (a, w, h, xs) (a, w, h, xs)"
  by (rule hosts_doing) (use assms in \<open>auto simp: via_fm_def fm_setActiveFirmware_def upd_cpu_def hosts_def host_of_def Let_def\<close>)

end
