(* ===== verification/Example_Hal.thy ===== *)
theory Example_Hal
  imports Example_Board
begin

text \<open>
  The program of \<^verbatim>\<open>examples/hal_demo.cpp\<close>: a pin, a timer and a serial line through their HAL objects, and the
  basic firmware on the same pins.
\<close>

section \<open>The program\<close>

definition high_low :: "bool \<Rightarrow> string" where
  "high_low b = (if b then ''High'' else ''Low'')"

definition hal_demo_received :: "'z demo_st_scheme \<Rightarrow> (unit, 'z demo_st_scheme) outcome" where
  "hal_demo_received s =
     (let received = say_result (uart_hal_readByte True) (\<lambda>b. [Str ''Received byte via UARTHAL: '', Str (quoted [char_of_byte b]), Str nl])
      in if uart_hal_hasData True s then and_then (received s) (\<lambda>_. received) else ret () s)"

text \<open>The firmware is the application 0.\<close>

definition hal_demo ::
  "(app_world, 'z demo_st_scheme) computer \<Rightarrow> (unit, (app_world, 'z demo_st_scheme) computer) outcome option" where
  "hal_demo = main_of
     ([print [line ''Starting Hardware Abstraction Layer (HAL) Demo...'']] @
      board_new @
      [machine (plainly (\<lambda>s. snd (uart_hal_attach True s))),
       print [line (nl @ ''--- GPIO HAL Demonstration ---'')],
       machine (gpio_hal_configureOutput True 5),
       print [line ''Configured GPIO Pin 5 as Output.''],
       machine (gpio_hal_write True 5 True),
       machine (say_result (gpio_hal_read True 5) (\<lambda>v. [Str ''Wrote Pin 5 = High (read back: '', Str (high_low v), line '')''])),
       machine (gpio_hal_toggle True 5),
       machine (say_result (gpio_hal_read True 5) (\<lambda>v. [Str ''Toggled Pin 5 (read back: '', Str (high_low v), line '')''])),
       print [line (nl @ ''--- Timer HAL Demonstration ---'')],
       machine (plainly (timer_hal_setCompare (Some 0) 100)),
       machine (plainly (timer_hal_start (Some 0))),
       machine (say_of (\<lambda>s. [Str ''Timer HAL started. Current counter: '', Num (unat (timer_hal_counter (Some 0) s)), Str nl])),
       machine (plainly (timer_hal_stop (Some 0))),
       machine (plainly (timer_hal_reset (Some 0))),
       machine (say_of (\<lambda>s. [Str ''Timer HAL reset. Counter after reset: '', Num (unat (timer_hal_counter (Some 0) s)), Str nl])),
       print [line (nl @ ''--- UART HAL Demonstration ---'')],
       machine (uart_hal_setBaudRate True 115200),
       machine (uart_hal_enable True),
       print [line ''UART HAL enabled with baud rate 115200.''],
       machine (uart_hal_writeByte True (byte (CHR ''H''))),
       machine (uart_hal_writeByte True (byte (CHR ''A''))),
       machine (uart_hal_writeByte True (byte (CHR ''L''))),
       print [line (''Transmitted bytes '' @ quoted ''H'' @ '', '' @ quoted ''A'' @ '', '' @ quoted ''L'' @ '' via UARTHAL.'')],
       machine (via_uart (uart_pushReceivedByte (byte (CHR ''O'')))),
       machine (via_uart (uart_pushReceivedByte (byte (CHR ''K'')))),
       machine hal_demo_received,
       print [line (nl @ ''--- Firmware Execution via HAL ---'')],
       apps (plainly (\<lambda>(w, s). (put_app 0 (Basic (basic_init True 2 2)) w, s))),
       apps (fw_initialize app_class 0),
       print [line ''BasicFirmware initialized for Pin 2 via GPIOHAL.'']] @
      concat (map (\<lambda>cycle.
        [apps (fw_execute app_class 0),
         machine (say_result (gpio_hal_read True 2) (\<lambda>v.
           [Str ''Cycle '', Num (cycle + 1), Str '' executed. Pin 2 state: '', Str (high_low v), Str nl]))]) [0..<5]) @
      [apps (fw_shutdown app_class 0),
       print [line (nl @ ''HAL Demo completed successfully.'')]])"

section \<open>The transcript\<close>

lemma hosts_received:
  assumes "test_flag (bd_word a 9) 0" and "bd_rx a = [b, d]"
  shows "runs hosts (machine hal_demo_received) (a, w, h, xs)
    (a\<lparr>bd_rx := []\<rparr>, w, h, xs @ concat (map (\<lambda>b. [Str ''Received byte via UARTHAL: '', Str (quoted [char_of_byte b]), Str nl]) [b, d]))"
proof -
  let ?say = "say_result (uart_hal_readByte True) (\<lambda>b. [Str ''Received byte via UARTHAL: '', Str (quoted [char_of_byte b]), Str nl])"
  show ?thesis
  proof (rule runs_eq)
    show "runs hosts (steps [machine ?say, machine ?say]) (a, w, h, xs)
      (a\<lparr>bd_rx := []\<rparr>, w, h, xs @ concat (map (\<lambda>b. [Str ''Received byte via UARTHAL: '', Str (quoted [char_of_byte b]), Str nl]) [b, d]))"
      by (rule runs_step, rule hosts_say, rule acts_get_byte(1) [OF assms], simp,
          rule runs_step, rule hosts_say, rule acts_get_byte(1), use assms(1) in simp, simp, simp, simp add: runs_nil)
  qed (use assms(2) in \<open>auto simp: hosts_def hal_demo_received_def uart_hal_hasData_def uart_hasReceivedData_def board_at_uart
        machine_def via_bus_def and_then_def split: prod.splits sum.splits\<close>)
qed

definition hal_demo_text :: string where
  "hal_demo_text =
     ''Starting Hardware Abstraction Layer (HAL) Demo...'' @ nl @ nl @
     ''--- GPIO HAL Demonstration ---'' @ nl @
     ''Configured GPIO Pin 5 as Output.'' @ nl @
     ''Wrote Pin 5 = High (read back: High)'' @ nl @
     ''Toggled Pin 5 (read back: Low)'' @ nl @ nl @
     ''--- Timer HAL Demonstration ---'' @ nl @
     ''Timer HAL started. Current counter: 0'' @ nl @
     ''Timer HAL reset. Counter after reset: 0'' @ nl @ nl @
     ''--- UART HAL Demonstration ---'' @ nl @
     ''UART HAL enabled with baud rate 115200.'' @ nl @
     ''Transmitted bytes '' @ quoted ''H'' @ '', '' @ quoted ''A'' @ '', '' @ quoted ''L'' @ '' via UARTHAL.'' @ nl @
     ''Received byte via UARTHAL: '' @ quoted ''O'' @ nl @
     ''Received byte via UARTHAL: '' @ quoted ''K'' @ nl @ nl @
     ''--- Firmware Execution via HAL ---'' @ nl @
     ''BasicFirmware initialized for Pin 2 via GPIOHAL.'' @ nl @
     ''Cycle 1 executed. Pin 2 state: Low'' @ nl @
     ''Cycle 2 executed. Pin 2 state: High'' @ nl @
     ''Cycle 3 executed. Pin 2 state: High'' @ nl @
     ''Cycle 4 executed. Pin 2 state: Low'' @ nl @
     ''Cycle 5 executed. Pin 2 state: Low'' @ nl @ nl @
     ''HAL Demo completed successfully.'' @ nl"

lemmas hosts_rules =
  hosts_say [OF acts_read] hosts_call [OF acts_configure] hosts_call [OF acts_write] hosts_call [OF acts_toggle]
  hosts_call [OF acts_setCompare] hosts_call [OF acts_start] hosts_call [OF acts_stop] hosts_call [OF acts_reset]
  hosts_call [OF acts_attach] hosts_call [OF acts_baud] hosts_call [OF acts_enable]
  hosts_call [OF acts_put_byte(1)] hosts_call [OF acts_put_byte(2)] hosts_received hosts_new_app
  hosts_apps [OF app_acts_basic] hosts_print hosts_say_of
  hosts_apps [OF app_acts_basic_on(1)] hosts_apps [OF app_acts_basic_on(2)] hosts_apps [OF app_acts_basic_on(3)]

text \<open>
  The HAL demonstration, from every machine: what is read back from the pin, the timer and the serial line
  through their HAL objects, and the pin that the basic firmware toggles every other update, printed character by
  character.
\<close>

lemma hal_demo_transcript:
  "\<exists>c. hal_demo c0 = Some (ret () c) \<and> os_text (cout (snd (world c))) = hal_demo_text"
  by (simp add: hal_demo_def upt_rec [of _ "numeral _"] app_class_def fw_execute_def, rule board_executes,
      ((rule runs_step, (rule hosts_rules; simp add: flag_simps new_board_def board_timer_def board_at_counter put_app_def
         basic_init_def), simp)+)[1], rule runs_nil)
    (simp add: render hal_demo_text_def flag_simps bd_home_def high_low_def)

end
