(* ===== verification/Example_Manager.thy ===== *)
theory Example_Manager
  imports Example_Board
begin

text \<open>
  The program of \<^verbatim>\<open>examples/firmware_manager_demo.cpp\<close>: three applications under a firmware manager, selected one
  after the other.
\<close>

section \<open>The program\<close>

text \<open>The manager is kept where the machine has the one of its processor, which the program does not use.\<close>

definition mgr_new :: "('w, 'b) computer \<Rightarrow> (unit, ('w, 'b) computer) outcome" where
  "mgr_new = plainly (upd_cpu (\<lambda>p. p\<lparr>c_firmwareManager := fm_init\<rparr>))"

definition mgr_register :: "string \<Rightarrow> nat \<Rightarrow> ('w, 'b) computer \<Rightarrow> (unit, ('w, 'b) computer) outcome" where
  "mgr_register n i =
     plainly (upd_cpu (\<lambda>p. p\<lparr>c_firmwareManager := snd (fm_registerFirmware n (Some i) (c_firmwareManager p))\<rparr>))"

definition mgr_of :: "('w, 'b) computer \<Rightarrow> fw_manager" where
  "mgr_of c = c_firmwareManager (cpu0 c)"

definition high_or_low :: "bool \<Rightarrow> string" where
  "high_or_low b = (if b then ''HIGH'' else ''LOW'')"

definition executions :: "app \<Rightarrow> nat" where
  "executions a = (case a of Basic f \<Rightarrow> unat (bf_executionCount f) | _ \<Rightarrow> 0)"

definition toggles :: "app \<Rightarrow> nat" where
  "toggles a = (case a of TimerBlink f \<Rightarrow> unat (tb_toggleCount f) | _ \<Rightarrow> 0)"

definition echoes :: "app \<Rightarrow> nat" where
  "echoes a = (case a of UARTEcho f \<Rightarrow> unat (ue_echoCount f) | _ \<Rightarrow> 0)"

text \<open>The loop that empties the transmit queue; every round takes a byte from it or throws.\<close>

function mgr_demo_drain :: "'z demo_st_scheme \<Rightarrow> (unit, 'z demo_st_scheme) outcome" where
  "mgr_demo_drain s =
     (if \<not> uart_hal_hasData True s \<and> \<not> uart_txFifoSize (uart0 s) > 0 then ret () s
      else case via_uart uart_popTxByte s of
        (Inl e, s) \<Rightarrow> throw e s
      | (Inr txByte, s) \<Rightarrow> mgr_demo_drain (snd (say [Str ''  Echoed byte: '', Str (quoted [char_of_byte txByte]), Str nl] s)))"
  by pat_completeness auto
termination
  by (relation "measure (\<lambda>s. length (u_txFifo (uart0 s)))")
    (auto simp: via_uart_def uart_popTxByte_def Let_def say_def split: list.splits prod.splits dest!: sym [of _ "(Inr _, _)"])

declare mgr_demo_drain.simps [simp del]

text \<open>The applications 0, 1 and 2 are the basic, the blink and the echo firmware.\<close>

definition firmware_manager_demo ::
  "(app_world, 'z demo_st_scheme) computer \<Rightarrow> (unit, (app_world, 'z demo_st_scheme) computer) outcome option" where
  "firmware_manager_demo = main_of
     ([print [line ''Starting FirmwareManager Framework Demo...'']] @
      board_new @
      [machine (plainly (\<lambda>s. snd (uart_hal_attach True s))),
       apps (plainly (\<lambda>(w, s). (w\<lparr>aw_gpioHAL := True, aw_timerHAL := Some 0, aw_uartHAL := True\<rparr>, s))),
       doing mgr_new,
       apps (plainly (\<lambda>(w, s). (put_app 0 (Basic (basic_init True 1 2)) w, s))),
       apps (plainly (\<lambda>(w, s). (put_app 1 (TimerBlink (blink_init 2 3)) w, s))),
       apps (plainly (\<lambda>(w, s). (put_app 2 (UARTEcho (echo_init 115200)) w, s))),
       print [line (nl @ ''Registering firmware applications with FirmwareManager:'')],
       doing (mgr_register ''BasicToggle'' 0),
       doing (mgr_register ''TimerBlink'' 1),
       doing (mgr_register ''UARTEcho'' 2),
       print_of (\<lambda>c. [Str ''Registered applications ('', Num (fm_count (mgr_of c)), Str (''):'' @ nl)]),
       print_of (\<lambda>c. concat (map (\<lambda>name. [Str ''  - '', Str name, Str nl]) (fm_registeredNames (mgr_of c)))),
       print [line (nl @ ''--- Activating & Executing '' @ quoted ''BasicToggle'' @ '' ---'')],
       doing (via_fm (fm_setActiveFirmware app_class ''BasicToggle'')),
       doing (via_fm (fm_initialize app_class)),
       print_of (\<lambda>c. [Str ''Active: '', Str (fm_activeName (mgr_of c)), Str nl])] @
      concat (map (\<lambda>step.
        [doing (via_fm (fm_update app_class)),
         machine (say_result (gpio_hal_read True 1) (\<lambda>v. [Str ''Step '', Num step, Str '' | Pin 1 State: '', Str (high_or_low v)])),
         print_of (\<lambda>c. [Str '' | Executions: '', Num (executions (aw_apps (fst (world c)) 0)), Str nl])]) [1..<5]) @
      [print [line (nl @ ''--- Switching Active Firmware to '' @ quoted ''TimerBlink'' @ '' ---'')],
       doing (via_fm (fm_setActiveFirmware app_class ''TimerBlink'')),
       doing (via_fm (fm_initialize app_class)),
       print_of (\<lambda>c. [Str ''Active: '', Str (fm_activeName (mgr_of c)), Str nl])] @
      concat (map (\<lambda>cycle.
        [machine (timer_tick 0),
         doing (via_fm (fm_update app_class)),
         machine (say_of (\<lambda>s. [Str ''Cycle '', Num cycle, Str '' | Timer Count: '', Num (unat (timer_hal_counter (Some 0) s))])),
         machine (say_result (gpio_hal_read True 2) (\<lambda>v. [Str '' | Pin 2 State: '', Str (high_or_low v)])),
         print_of (\<lambda>c. [Str '' | Toggles: '', Num (toggles (aw_apps (fst (world c)) 1)), Str nl])]) [1..<7]) @
      [print [line (nl @ ''--- Switching Active Firmware to '' @ quoted ''UARTEcho'' @ '' ---'')],
       doing (via_fm (fm_setActiveFirmware app_class ''UARTEcho'')),
       doing (via_fm (fm_initialize app_class)),
       print_of (\<lambda>c. [Str ''Active: '', Str (fm_activeName (mgr_of c)), Str nl]),
       print [line (''Simulating incoming UART bytes '' @ quoted ''E'' @ '', '' @ quoted ''C'' @ '', '' @ quoted ''H'' @ '', '' @
         quoted ''O'' @ ''...'')],
       machine (via_uart (uart_pushReceivedByte (byte (CHR ''E'')))),
       machine (via_uart (uart_pushReceivedByte (byte (CHR ''C'')))),
       machine (via_uart (uart_pushReceivedByte (byte (CHR ''H'')))),
       machine (via_uart (uart_pushReceivedByte (byte (CHR ''O'')))),
       doing (via_fm (fm_update app_class)),
       print_of (\<lambda>c. [Str ''Echo Count: '', Num (echoes (aw_apps (fst (world c)) 2)), Str nl]),
       print [line ''Reading echoed bytes from TX FIFO via UARTHAL:''],
       machine mgr_demo_drain,
       print [line (nl @ ''Shutting down active firmware...'')],
       doing (via_fm (fm_shutdown app_class)),
       print [line ''FirmwareManager Demo completed successfully.'']])"

section \<open>The transcript\<close>

lemma drain_board:
  fixes s :: "'z demo_st_scheme"
  assumes "board_at a s" and "bd_rx a = []" and "cout s = puts xs std_cout"
  shows "\<exists>s'. mgr_demo_drain s = ret () s' \<and> board_at (a\<lparr>bd_tx := []\<rparr>) s' \<and> beside (s\<lparr>cout := cout s'\<rparr>) s' \<and>
    cout s' = puts (xs @ concat (map (\<lambda>b. [Str ''  Echoed byte: '', Str (quoted [char_of_byte b]), Str nl]) (bd_tx a))) std_cout"
  using assms
proof (induction "bd_tx a" arbitrary: a s xs)
  case Nil
  then have "board_at (a\<lparr>bd_tx := []\<rparr>) s" by (cases a) simp
  with Nil show ?case
    by (simp add: mgr_demo_drain.simps [of s] uart_hal_hasData_def uart_hasReceivedData_def board_at_uart uart_txFifoSize_def beside_def)
next
  case (Cons b bs)
  obtain s1 where 1: "via_uart uart_popTxByte s = ret b s1" "board_at (a\<lparr>bd_tx := bs\<rparr>) s1" "beside s s1"
    using actsD [OF acts_get_byte(2) [OF Cons(2) [symmetric]] Cons(3)] by blast
  let ?o = "[Str ''  Echoed byte: '', Str (quoted [char_of_byte b]), Str nl]"
  let ?s = "s1\<lparr>cout := puts ?o (cout s1)\<rparr>"
  have "uart_txFifoSize (uart0 s) > 0" using Cons(2,3) by (simp add: board_at_uart uart_txFifoSize_def flip: Cons(2))
  with 1(1) have "mgr_demo_drain s = mgr_demo_drain ?s"
    by (simp add: mgr_demo_drain.simps [of s] say_def)
  moreover have "cout ?s = puts (xs @ ?o) std_cout" using 1(3) Cons(5) by (simp add: beside_def puts_append)
  with Cons.hyps(1) [of "a\<lparr>bd_tx := bs\<rparr>" ?s "xs @ ?o"] 1(2) Cons(4)
  obtain s' where "mgr_demo_drain ?s = ret () s'" "board_at (a\<lparr>bd_tx := []\<rparr>) s'" "beside (?s\<lparr>cout := cout s'\<rparr>) s'"
    "cout s' = puts ((xs @ ?o) @ concat (map (\<lambda>b. [Str ''  Echoed byte: '', Str (quoted [char_of_byte b]), Str nl]) bs)) std_cout"
    by auto
  moreover have "beside (s\<lparr>cout := x\<rparr>) (?s\<lparr>cout := x\<rparr>)" for x using 1(3) by (simp add: beside_def)
  ultimately show ?case using Cons(2) [symmetric] by (auto intro: beside_trans)
qed

lemma hosts_drain:
  assumes "bd_rx a = []"
  shows "runs hosts (machine mgr_demo_drain) (a, w, h, xs) (a\<lparr>bd_tx := []\<rparr>, w, h,
    xs @ concat (map (\<lambda>b. [Str ''  Echoed byte: '', Str (quoted [char_of_byte b]), Str nl]) (bd_tx a)))"
  using drain_board [OF _ assms]
  by (fastforce simp: runs_def hosts_def host_of_def Let_def machine_def via_bus_def beside_def)

lemma hosts_mgr:
  "runs hosts (doing mgr_new) (a, w, h, xs) (a, w, set_fm fm_init h, xs)"
  "runs hosts (doing (mgr_register n i)) (a, w, h, xs) (a, w, set_fm (snd (fm_registerFirmware n (Some i) (ho_fm h))) h, xs)"
  by (auto simp: runs_def doing_def mgr_new_def mgr_register_def plainly_def upd_cpu_def hosts_def host_of_def Let_def)

lemma hosts_print_of:
  assumes "\<And>c. hosts (a, w, h, xs) c \<Longrightarrow> f c = outs"
  shows "runs hosts (print_of f) (a, w, h, xs) (a, w, h, xs @ outs)"
  using hosts_print [of outs a w h xs] assms by (auto simp: runs_def print_of_def)

lemma hosts_fields: "hosts (a, w, h, xs) c \<Longrightarrow> mgr_of c = ho_fm h" "hosts (a, w, h, xs) c \<Longrightarrow> fst (world c) = w"
  by (auto simp: hosts_def host_of_def Let_def mgr_of_def)

text \<open>Calls of the manager, by the application that is selected.\<close>

lemma hosts_mgr_calls:
  fixes R :: "_ \<Rightarrow> (app_world, 'z demo_st_scheme) computer \<Rightarrow> bool"
    and init upd down :: "nat \<Rightarrow> app_world \<times> 'z demo_st_scheme \<Rightarrow> (unit, app_world \<times> 'z demo_st_scheme) outcome"
  defines "R \<equiv> hosts" and "init \<equiv> app_initialize" and "upd \<equiv> app_update" and "down \<equiv> app_shutdown"
  shows "app_acts (init i) (a, w) (b, w') \<Longrightarrow> fm_activeFirmware (ho_fm h) = Some i \<Longrightarrow>
      runs R (doing (via_fm (fm_initialize app_class))) (a, w, h, xs) (b, w', h, xs)"
    and "app_acts (upd i) (a, w) (b, w') \<Longrightarrow> fm_activeFirmware (ho_fm h) = Some i \<Longrightarrow>
      runs R (doing (via_fm (fm_update app_class))) (a, w, h, xs) (b, w', h, xs)"
    and "app_acts (down i) (a, w) (b, w') \<Longrightarrow> fm_activeFirmware (ho_fm h) = Some i \<Longrightarrow>
      runs R (doing (via_fm (fm_shutdown app_class))) (a, w, h, xs) (b, w', h, xs)"
    and "app_acts (down i) (a, w) (b, w') \<Longrightarrow> map_of (fm_registry (ho_fm h)) n \<noteq> None \<Longrightarrow> fm_activeName (ho_fm h) \<noteq> n \<Longrightarrow>
      fm_activeFirmware (ho_fm h) = Some i \<Longrightarrow>
      runs R (doing (via_fm (fm_setActiveFirmware app_class n))) (a, w, h, xs) (b, w', set_fm ((ho_fm h)\<lparr>fm_activeName := n\<rparr>) h, xs)"
proof -
  have cls: "fw_initialize app_class = init" "fw_update app_class = upd" "fw_shutdown app_class = down"
    by (simp_all add: app_class_def init_def upd_def down_def)
  show "app_acts (init i) (a, w) (b, w') \<Longrightarrow> fm_activeFirmware (ho_fm h) = Some i \<Longrightarrow>
      runs R (doing (via_fm (fm_initialize app_class))) (a, w, h, xs) (b, w', h, xs)"
    unfolding fm_initialize_def cls R_def by (rule hosts_fm_call)
  show "app_acts (upd i) (a, w) (b, w') \<Longrightarrow> fm_activeFirmware (ho_fm h) = Some i \<Longrightarrow>
      runs R (doing (via_fm (fm_update app_class))) (a, w, h, xs) (b, w', h, xs)"
    unfolding fm_update_def cls R_def by (rule hosts_fm_call)
  show "app_acts (down i) (a, w) (b, w') \<Longrightarrow> fm_activeFirmware (ho_fm h) = Some i \<Longrightarrow>
      runs R (doing (via_fm (fm_shutdown app_class))) (a, w, h, xs) (b, w', h, xs)"
    unfolding fm_shutdown_def cls R_def by (rule hosts_fm_call)
  show "app_acts (down i) (a, w) (b, w') \<Longrightarrow> map_of (fm_registry (ho_fm h)) n \<noteq> None \<Longrightarrow> fm_activeName (ho_fm h) \<noteq> n \<Longrightarrow>
      fm_activeFirmware (ho_fm h) = Some i \<Longrightarrow>
      runs R (doing (via_fm (fm_setActiveFirmware app_class n))) (a, w, h, xs) (b, w', set_fm ((ho_fm h)\<lparr>fm_activeName := n\<rparr>) h, xs)"
    unfolding cls(3) [symmetric] R_def by (rule hosts_fm_select)
qed

definition three_apps :: "string \<Rightarrow> fw_manager" where
  "three_apps n = \<lparr>fm_registry = [(''BasicToggle'', 0), (''TimerBlink'', 1), (''UARTEcho'', 2)], fm_activeName = n\<rparr>"

lemma three_registered:
  "snd (fm_registerFirmware ''UARTEcho'' (Some 2) (snd (fm_registerFirmware ''TimerBlink'' (Some (Suc 0))
     (snd (fm_registerFirmware ''BasicToggle'' (Some 0) fm_init))))) = three_apps ''BasicToggle''"
  by code_simp

definition firmware_manager_demo_text :: string where
  "firmware_manager_demo_text =
     ''Starting FirmwareManager Framework Demo...'' @ nl @ nl @
     ''Registering firmware applications with FirmwareManager:'' @ nl @
     ''Registered applications (3):'' @ nl @
     ''  - BasicToggle'' @ nl @
     ''  - TimerBlink'' @ nl @
     ''  - UARTEcho'' @ nl @ nl @
     ''--- Activating & Executing '' @ quoted ''BasicToggle'' @ '' ---'' @ nl @
     ''Active: BasicToggle'' @ nl @
     ''Step 1 | Pin 1 State: LOW | Executions: 1'' @ nl @
     ''Step 2 | Pin 1 State: HIGH | Executions: 2'' @ nl @
     ''Step 3 | Pin 1 State: HIGH | Executions: 3'' @ nl @
     ''Step 4 | Pin 1 State: LOW | Executions: 4'' @ nl @ nl @
     ''--- Switching Active Firmware to '' @ quoted ''TimerBlink'' @ '' ---'' @ nl @
     ''Active: TimerBlink'' @ nl @
     ''Cycle 1 | Timer Count: 1 | Pin 2 State: LOW | Toggles: 0'' @ nl @
     ''Cycle 2 | Timer Count: 2 | Pin 2 State: LOW | Toggles: 0'' @ nl @
     ''Cycle 3 | Timer Count: 0 | Pin 2 State: HIGH | Toggles: 1'' @ nl @
     ''Cycle 4 | Timer Count: 1 | Pin 2 State: HIGH | Toggles: 1'' @ nl @
     ''Cycle 5 | Timer Count: 2 | Pin 2 State: HIGH | Toggles: 1'' @ nl @
     ''Cycle 6 | Timer Count: 0 | Pin 2 State: LOW | Toggles: 2'' @ nl @ nl @
     ''--- Switching Active Firmware to '' @ quoted ''UARTEcho'' @ '' ---'' @ nl @
     ''Active: UARTEcho'' @ nl @
     ''Simulating incoming UART bytes '' @ quoted ''E'' @ '', '' @ quoted ''C'' @ '', '' @ quoted ''H'' @ '', '' @ quoted ''O'' @ ''...'' @ nl @
     ''Echo Count: 4'' @ nl @
     ''Reading echoed bytes from TX FIFO via UARTHAL:'' @ nl @
     ''  Echoed byte: '' @ quoted ''E'' @ nl @
     ''  Echoed byte: '' @ quoted ''C'' @ nl @
     ''  Echoed byte: '' @ quoted ''H'' @ nl @
     ''  Echoed byte: '' @ quoted ''O'' @ nl @ nl @
     ''Shutting down active firmware...'' @ nl @
     ''FirmwareManager Demo completed successfully.'' @ nl"

lemmas mgr_rules =
  hosts_say [OF acts_read] hosts_print hosts_print_of hosts_say_of hosts_call [OF acts_attach] hosts_call [OF acts_tick(1)] hosts_call [OF acts_tick(2)]
  hosts_call [OF acts_put_byte(2)] hosts_drain hosts_new_app hosts_mgr hosts_fm_reselect
  hosts_mgr_calls(1) [OF app_acts_basic] hosts_mgr_calls(1) [OF app_acts_blink] hosts_mgr_calls(1) [OF app_acts_echo]
  hosts_mgr_calls(2) [OF app_acts_basic_on(1)] hosts_mgr_calls(2) [OF app_acts_basic_on(2)]
  hosts_mgr_calls(2) [OF app_acts_blink_on(1)] hosts_mgr_calls(2) [OF app_acts_blink_on(2)]
  hosts_mgr_calls(2) [OF app_acts_echo_on(1)]
  hosts_mgr_calls(4) [OF app_acts_basic_on(3)] hosts_mgr_calls(4) [OF app_acts_blink_on(3)] hosts_mgr_calls(3) [OF app_acts_echo_on(2)]

lemmas mgr_state = three_registered new_board_def board_timer_def bd_home_def put_app_def basic_init_def blink_init_def echo_init_def

text \<open>
  C18. From every machine the demonstration of the firmware manager returns and prints exactly this text: each of the three
  applications runs only while it is selected, the pin of the basic firmware toggles every second update, that of the
  blink firmware at every third count of the timer, and the echo firmware sends the four received bytes back in order.
\<close>

theorem firmware_manager_demo_transcript:
  "\<exists>c. firmware_manager_demo c0 = Some (ret () c) \<and> os_text (cout (snd (world c))) = firmware_manager_demo_text"
  by (simp add: firmware_manager_demo_def upt_rec [of _ "numeral _"], rule board_executes,
      ((rule runs_step, (rule mgr_rules; simp add: flag_simps board_at_counter fm_activeFirmware_def three_apps_def hosts_fields),
         simp add: mgr_state)+)[1], rule runs_nil)
    (simp add: render firmware_manager_demo_text_def flag_simps high_or_low_def executions_def toggles_def echoes_def
      fm_count_def fm_registeredNames_def)

end
