(* ===== verification/Example_Power.thy ===== *)
theory Example_Power
  imports Example_Manager
begin

text \<open>
  The program of \<^verbatim>\<open>examples/power_demo.cpp\<close>: a processor with the basic firmware through sleep, wake-up and the
  three resets of the reset controller.
\<close>

section \<open>The program\<close>

text \<open>
  The power controller of the program is number 1, beside that of the processor. What the two controllers log goes
  to the standard output of the program.
\<close>

definition powerCtrl :: nat where
  "powerCtrl = 1"

definition print_log :: "std_streams \<Rightarrow> ('w, 'z demo_st_scheme) computer \<Rightarrow> ('w, 'z demo_st_scheme) computer" where
  "print_log st c = c\<lparr>world := (fst (world c), (snd (world c))\<lparr>cout := puts [Str (std_out st)] (cout (snd (world c)))\<rparr>)\<rparr>"

definition new_power :: "('w, 'b) computer \<Rightarrow> ('w, 'b) computer" where
  "new_power c = c\<lparr>powers := (powers c)(powerCtrl := ON)\<rparr>"

definition power_call ::
  "(power_state logged \<Rightarrow> power_state logged) \<Rightarrow>
   ('w, 'z demo_st_scheme) computer \<Rightarrow> (unit, ('w, 'z demo_st_scheme) computer) outcome" where
  "power_call f = plainly (\<lambda>c.
     let (st, p) = f (no_output, powers c powerCtrl) in print_log st (c\<lparr>powers := (powers c)(powerCtrl := p)\<rparr>))"

definition reset_call ::
  "(('w, 'z demo_st_scheme) computer logged \<Rightarrow> (unit, ('w, 'z demo_st_scheme) computer logged) outcome) \<Rightarrow>
   ('w, 'z demo_st_scheme) computer \<Rightarrow> (unit, ('w, 'z demo_st_scheme) computer) outcome" where
  "reset_call f c = (case f (no_output, c) of (r, (st, c)) \<Rightarrow> (r, print_log st c))"

definition yes_or_no :: "bool \<Rightarrow> string" where
  "yes_or_no b = (if b then ''Yes'' else ''No'')"

definition power_demo_cycles :: "string \<Rightarrow> string \<Rightarrow> ('w, 'z demo_st_scheme) computer \<Rightarrow> out list" where
  "power_demo_cycles pre post c = [Str pre, Num (unat (c_cycleCount (cpu0 c))), Str post]"

definition power_demo ::
  "nat \<Rightarrow> (app_world, 'z demo_st_scheme) computer \<Rightarrow> (unit, (app_world, 'z demo_st_scheme) computer) outcome option" where
  "power_demo d = (let resetCtrl = rc_init True True True in main_of
     ([print [line ''Starting Power Management & Reset Controller Demo...'']] @
      board_new @
      [machine (plainly (\<lambda>s. snd (uart_hal_attach True s))),
       machine (plainly (sb_init False False False)),
       machine (plainly (sb_setMMIO True)),
       machine (plainly (sb_attachGPIO True)),
       machine (plainly (\<lambda>s. snd (sb_attachTimer (Some 0) s))),
       machine (plainly (sb_attachUART True)),
       doing (plainly (cpu_init True)),
       doing (plainly new_power),
       doing (plainly (cpu_setPowerController (Some powerCtrl))),
       apps (plainly (\<lambda>(w, s). (put_app 0 (Basic (basic_init True 1 2)) w, s))),
       doing (cpu_loadFirmware no_closures (Some 0) ''BasicToggle''),
       print [line (nl @ ''--- Initial Power State: ON ---'')],
       doing (power_call power_powerOn),
       doing (cpu_start no_closures),
       print_of (\<lambda>c. [Str ''Is Power ON? '', Str (yes_or_no (power_isPowerOn (powers c powerCtrl))), Str nl]),
       cpu_step no_closures d,
       cpu_step no_closures d,
       print_of (power_demo_cycles ''Executed 2 steps | CPU Cycle Count: '' []),
       machine (say_result (gpio_hal_read True 1) (\<lambda>v. [Str '' | Pin 1 State: '', Str (high_or_low v), Str nl])),
       print [line (nl @ ''--- Entering SLEEP Mode ---'')],
       doing (power_call power_sleep),
       print_of (\<lambda>c. [Str ''Is Power SLEEP? '', Str (yes_or_no (power_isSleep (powers c powerCtrl))), Str nl]),
       print [line ''Attempting 5 steps while in SLEEP mode...'']] @
      replicate 5 (cpu_step no_closures d) @
      [print_of (power_demo_cycles ''CPU Cycle Count after SLEEP steps: '' ('' (Execution paused as expected)'' @ nl)),
       print [line (nl @ ''--- Waking up from SLEEP Mode ---'')],
       doing (power_call power_wake),
       print_of (\<lambda>c. [Str ''Is Power ON? '', Str (yes_or_no (power_isPowerOn (powers c powerCtrl))), Str nl]),
       cpu_step no_closures d,
       cpu_step no_closures d,
       print_of (power_demo_cycles ''Executed 2 steps post-wake | CPU Cycle Count: '' []),
       machine (say_result (gpio_hal_read True 1) (\<lambda>v. [Str '' | Pin 1 State: '', Str (high_or_low v), Str nl])),
       print [line (nl @ ''--- Testing ResetController Operations ---'')],
       print [line ''Triggering resetCPU()...''],
       doing (reset_call (rc_resetCPU no_closures resetCtrl)),
       print_of (power_demo_cycles ''CPU Cycle Count after resetCPU(): '' nl),
       print [line ''Triggering resetPeripherals()...''],
       doing (reset_call (rc_resetPeripherals resetCtrl)),
       machine (say_result (gpio_hal_read True 1) (\<lambda>v. [Str ''Pin 1 State after resetPeripherals(): '', Str (high_or_low v), Str nl])),
       print [line ''Triggering resetSystem()...''],
       doing (reset_call (rc_resetSystem no_closures resetCtrl)),
       print_of (power_demo_cycles ''CPU Cycle Count after resetSystem(): '' nl),
       print [line (nl @ ''--- Powering OFF System ---'')],
       doing (power_call power_powerOff),
       print_of (\<lambda>c. [Str ''Is Power OFF? '', Str (yes_or_no (power_isPowerOff (powers c powerCtrl))), Str nl]),
       print [line ''Power Management & Reset Controller Demo completed successfully.'']]))"

section \<open>The bus of the program\<close>

definition power_bus :: system_bus where
  "power_bus = \<lparr>sb_memory = False, sb_mmioBus = True, sb_interruptController = False, sb_dmas = [], sb_timers = [0],
     sb_gpio = True, sb_uart = True, sb_spi = False, sb_i2c = False, sb_pwm = False, sb_adc = False\<rparr>"

lemma board_at_bus [simp]:
  "board_at a (s\<lparr>sb := b\<rparr>) = board_at a s" "board_at a (s\<lparr>clock := t\<rparr>) = board_at a s" "board_at a (s\<lparr>esched := q\<rparr>) = board_at a s"
  by (simp_all add: board_at_def reg_get_def)

definition bd_sync :: "u64 \<Rightarrow> board \<Rightarrow> board" where
  "bd_sync k a = a\<lparr>bd_timer := (bd_timer a)\<lparr>t_lastClockCycles := k\<rparr>\<rparr>"

lemma board_at_sync:
  "board_at a s \<Longrightarrow> t_clock (bd_timer a) \<Longrightarrow> board_at (bd_sync (m_cycles (clock s)) a) (timer_syncClock 0 s)"
  by (auto simp: board_at_def bd_sync_def timer_syncClock_def upd_timer_def timer_regs_def reg_get_def)

lemma sync_beside: "beside s (timer_syncClock i s)"
  by (simp add: beside_def) (simp add: timer_syncClock_def upd_timer_def)

text \<open>A statement about the machine that changes its bus, and one that wires it.\<close>

lemma hosts_bus:
  assumes "\<And>s :: 'z demo_st_scheme. board_at a s \<Longrightarrow> sb s = ho_sb h \<Longrightarrow> clock s = ho_clock h \<Longrightarrow> esched s = ho_esched h \<Longrightarrow>
      board_at b (f s) \<and> sb (f s) = k \<and> clock (f s) = t \<and> esched (f s) = q \<and> cout (f s) = cout s"
  shows "runs (hosts :: _ \<Rightarrow> ('w, 'z demo_st_scheme) computer \<Rightarrow> bool) (machine (plainly f)) (a, w, h, xs)
    (b, w, h\<lparr>ho_sb := k, ho_clock := t, ho_esched := q\<rparr>, xs)"
  using assms by (auto simp: runs_def hosts_def host_of_def Let_def machine_def via_bus_def plainly_def)

lemma hosts_wiring:
  "runs hosts (machine (plainly (sb_init False False False))) (a, w, h, xs)
    (a, w, h\<lparr>ho_sb := \<lparr>sb_memory = False, sb_mmioBus = False, sb_interruptController = False, sb_dmas = [], sb_timers = [],
       sb_gpio = False, sb_uart = False, sb_spi = False, sb_i2c = False, sb_pwm = False, sb_adc = False\<rparr>,
       ho_clock := \<lparr>m_frequencyHz = DEFAULT_FREQUENCY_HZ, m_cycles = 0\<rparr>, ho_esched := sched_init\<rparr>, xs)"
  "runs hosts (machine (plainly (sb_attachGPIO True))) (a, w, h, xs)
    (a, w, h\<lparr>ho_sb := (ho_sb h)\<lparr>sb_gpio := True\<rparr>, ho_clock := ho_clock h, ho_esched := ho_esched h\<rparr>, xs)"
  "sb_dmas (ho_sb h) = [] \<Longrightarrow> runs hosts (machine (plainly (sb_setMMIO True))) (a, w, h, xs)
    (a, w, h\<lparr>ho_sb := (ho_sb h)\<lparr>sb_mmioBus := True\<rparr>, ho_clock := ho_clock h, ho_esched := ho_esched h\<rparr>, xs)"
  "sb_dmas (ho_sb h) = [] \<Longrightarrow> runs hosts (machine (plainly (sb_attachUART True))) (a, w, h, xs)
    (a, w, h\<lparr>ho_sb := (ho_sb h)\<lparr>sb_uart := True\<rparr>, ho_clock := ho_clock h, ho_esched := ho_esched h\<rparr>, xs)"
  by (rule hosts_bus; auto simp: sb_init_def sb_setMMIO_def sb_attachGPIO_def sb_attachUART_def upd_sb_def Let_def)+

lemma hosts_attachTimer:
  assumes "sb_timers (ho_sb h) = []" and "bd_timer a = board_timer" and "\<not> test_flag (bd_word a 3) 0"
  shows "runs hosts (machine (plainly (\<lambda>s. snd (sb_attachTimer (Some 0) s)))) (a, w, h, xs)
    (a\<lparr>bd_timer := board_timer\<lparr>t_clock := True, t_scheduler := True, t_lastClockCycles := m_cycles (ho_clock h)\<rparr>\<rparr>, w,
     h\<lparr>ho_sb := (ho_sb h)\<lparr>sb_timers := [0]\<rparr>, ho_clock := ho_clock h, ho_esched := ho_esched h\<rparr>, xs)"
proof (rule hosts_bus)
  fix s :: "'z demo_st_scheme"
  assume s: "board_at a s" "sb s = ho_sb h" "clock s = ho_clock h" "esched s = ho_esched h"
  let ?f = "\<lambda>t. t\<lparr>t_clock := True, t_scheduler := True, t_lastClockCycles := m_cycles (ho_clock h)\<rparr>"
  have idle: "\<not> test_flag (reg_get 3 s) 0" using assms(3) board_at_get [OF s(1)] by simp
  have reg_timers: "reg_get 3 (s\<lparr>timers := x\<rparr>) = reg_get 3 s" for x by (simp add: reg_get_def)
  have "timer_attachScheduler 0 True (timer_attachClock 0 True s) = upd_timer 0 ?f s"
    using assms s board_at_timer [OF s(1)] idle
    by (simp add: timer_attachScheduler_def timer_attachClock_def timer_syncClock_def timer_updateScheduledEvent_def
        timer_cancelScheduledEvent_def upd_timer_def timer_running_def reg_timers Let_def) (simp add: board_timer_def)
  then have "snd (sb_attachTimer (Some 0) s) = upd_sb (\<lambda>b. b\<lparr>sb_timers := [0]\<rparr>) (upd_timer 0 ?f s)"
    using assms(1) s(2) by (simp add: sb_attachTimer_def upd_sb_def upd_timer_def Let_def)
  then show "board_at (a\<lparr>bd_timer := board_timer\<lparr>t_clock := True, t_scheduler := True, t_lastClockCycles := m_cycles (ho_clock h)\<rparr>\<rparr>)
        (snd (sb_attachTimer (Some 0) s)) \<and> sb (snd (sb_attachTimer (Some 0) s)) = (ho_sb h)\<lparr>sb_timers := [0]\<rparr> \<and>
      clock (snd (sb_attachTimer (Some 0) s)) = ho_clock h \<and> esched (snd (sb_attachTimer (Some 0) s)) = ho_esched h \<and>
      cout (snd (sb_attachTimer (Some 0) s)) = cout s"
    using s assms(2) by (auto simp: upd_sb_def upd_timer_def board_at_def timer_regs_def board_timer_def reg_get_def)
qed

section \<open>The processor on the board\<close>

lemma hosts_cpu:
  assumes "\<And>c. cpu0 c = ho_cpu h \<Longrightarrow> powers c = ho_powers h \<Longrightarrow> world (f c) = world c \<and> cpu0 (f c) = p \<and> powers (f c) = q"
  shows "runs hosts (doing (plainly f)) (a, w, h, xs) (a, w, h\<lparr>ho_cpu := p, ho_powers := q\<rparr>, xs)"
  by (rule hosts_doing) (use assms in \<open>auto simp: plainly_def hosts_def host_of_def Let_def\<close>)

lemma hosts_cpu_setup:
  "runs hosts (doing (plainly (cpu_init True))) (a, w, h, xs) (a, w, h\<lparr>ho_cpu := blank_cpu, ho_powers := (ho_powers h)(0 := ON)\<rparr>, xs)"
  "runs hosts (doing (plainly (cpu_setPowerController (Some k)))) (a, w, h, xs)
    (a, w, h\<lparr>ho_cpu := (ho_cpu h)\<lparr>c_powerController := k\<rparr>, ho_powers := ho_powers h\<rparr>, xs)"
  "runs hosts (doing (plainly new_power)) (a, w, h, xs)
    (a, w, h\<lparr>ho_cpu := ho_cpu h, ho_powers := (ho_powers h)(powerCtrl := ON)\<rparr>, xs)"
  by (rule hosts_cpu; simp add: cpu_init_def cpu_setPowerController_def upd_cpu_def new_power_def)+

text \<open>What is logged joins what is printed.\<close>

lemma hosts_print_log:
  "hosts (a, w, h, xs) c \<Longrightarrow> hosts (a, w, h, xs @ [Str (std_out st)]) (print_log st c)"
  by (auto simp: hosts_def host_of_def Let_def print_log_def puts_append)

lemma hosts_power:
  "runs (hosts :: _ \<Rightarrow> ('w, 'z demo_st_scheme) computer \<Rightarrow> bool) (doing (power_call g)) (a, w, h, xs)
    (a, w, h\<lparr>ho_powers := (ho_powers h)(powerCtrl := snd (g (no_output, ho_powers h powerCtrl)))\<rparr>,
     xs @ [Str (std_out (fst (g (no_output, ho_powers h powerCtrl))))])"
proof (rule hosts_doing)
  fix c :: "('w, 'z demo_st_scheme) computer" assume c: "hosts (a, w, h, xs) c"
  obtain st p where g: "g (no_output, ho_powers h powerCtrl) = (st, p)" by fastforce
  have "hosts (a, w, h\<lparr>ho_powers := (ho_powers h)(powerCtrl := p)\<rparr>, xs) (c\<lparr>powers := (powers c)(powerCtrl := p)\<rparr>)"
    using c by (auto simp: hosts_def host_of_def Let_def)
  from hosts_print_log [OF this, of st]
  show "\<exists>v c'. power_call g c = ret v c' \<and> hosts (a, w, h\<lparr>ho_powers := (ho_powers h)(powerCtrl := snd (g (no_output, ho_powers h powerCtrl)))\<rparr>,
      xs @ [Str (std_out (fst (g (no_output, ho_powers h powerCtrl))))]) c'"
    using g c by (auto simp: power_call_def plainly_def hosts_def host_of_def Let_def)
qed

lemma hosts_logged:
  assumes "runs (hosts :: _ \<Rightarrow> ('w, 'z demo_st_scheme) computer \<Rightarrow> bool) (doing F) (a, w, h, xs) (b, w', h', xs)"
    and "\<And>c c'. F c = ret () c' \<Longrightarrow> G (no_output, c) = ret () (st, c')"
  shows "runs (hosts :: _ \<Rightarrow> ('w, 'z demo_st_scheme) computer \<Rightarrow> bool) (doing (reset_call G)) (a, w, h, xs)
    (b, w', h', xs @ [Str (std_out st)])"
proof (rule hosts_doing)
  fix c :: "('w, 'z demo_st_scheme) computer" assume "hosts (a, w, h, xs) c"
  then obtain c' where "doing F c = Some (ret () c')" "hosts (b, w', h', xs) c'" using runsD [OF assms(1)] by blast
  moreover then have "F c = ret () c'" by (cases "F c") (auto simp: doing_def and_then_def split: sum.splits)
  ultimately show "\<exists>v c'. reset_call G c = ret v c' \<and> hosts (b, w', h', xs @ [Str (std_out st)]) c'"
    using assms(2) hosts_print_log by (fastforce simp: reset_call_def)
qed

lemma hosts_load:
  assumes "\<not> c_running (ho_cpu h)" and "ho_fm h = fm_init" and "n \<noteq> []"
  shows "runs (hosts :: _ \<Rightarrow> ('w, 'z demo_st_scheme) computer \<Rightarrow> bool) (doing (cpu_loadFirmware e (Some i) n)) (a, w, h, xs)
    (a, w, set_fm \<lparr>fm_registry = [(n, i)], fm_activeName = n\<rparr> h, xs)"
proof (rule hosts_doing)
  fix c :: "('w, 'z demo_st_scheme) computer" assume c: "hosts (a, w, h, xs) c"
  have reg: "snd (fm_registerFirmware n (Some i) fm_init) = \<lparr>fm_registry = [(n, i)], fm_activeName = n\<rparr>"
    using assms(3) by (simp add: fm_registerFirmware_def fm_init_def)
  show "\<exists>v c'. cpu_loadFirmware e (Some i) n c = ret v c' \<and> hosts (a, w, set_fm \<lparr>fm_registry = [(n, i)], fm_activeName = n\<rparr> h, xs) c'"
    using c assms by (auto simp: cpu_loadFirmware_def Let_def via_fm_def fm_setActiveFirmware_def upd_cpu_def hosts_def host_of_def reg)
qed

lemma no_closures_class: "fw_initialize (e_class no_closures) = app_initialize" "fw_update (e_class no_closures) = app_update"
  "fw_reset (e_class no_closures) = app_reset"
  by (simp_all add: no_closures_def app_class_def)

lemma hosts_via_fm:
  assumes "app_acts (op i) (a, w) (b, w')" and "fm_activeFirmware (ho_fm h) = Some i" and "hosts (a, w, h, xs) c"
  shows "\<exists>c'. via_fm (fm_call op) c = ret () c' \<and> hosts (b, w', h, xs) c' \<and> rtos0 c' = rtos0 c"
proof -
  obtain s' where "op i (w, snd (world c)) = ret () (w', s')" "board_at b s'" "beside (snd (world c)) s'"
    using app_actsD [OF assms(1)] assms(3) by (auto simp: hosts_def)
  then show ?thesis
    using assms(2,3)
    by (cases "world c", cases "cpu0 c") (auto simp: via_fm_def fm_call_def upd_cpu_def hosts_def host_of_def Let_def beside_def)
qed

lemma host_fields:
  assumes "hosts (a, w, h, xs) c"
  shows "cpu0 c = ho_cpu h" "powers c = ho_powers h" "sb (snd (world c)) = ho_sb h" "clock (snd (world c)) = ho_clock h"
    "esched (snd (world c)) = ho_esched h" "board_at a (snd (world c))"
  using assms by (auto simp: hosts_def host_of_def Let_def)

lemma hosts_start:
  assumes "app_acts (app_initialize i :: app_world \<times> 'z demo_st_scheme \<Rightarrow> _) (a, w) (b, w')" and "fm_activeFirmware (ho_fm h) = Some i"
    and "\<not> c_running (ho_cpu h)" and "\<not> c_rtosScheduler (ho_cpu h)"
  shows "runs (hosts :: _ \<Rightarrow> (app_world, 'z demo_st_scheme) computer \<Rightarrow> bool) (doing (cpu_start no_closures)) (a, w, h, xs)
    (b, w', h\<lparr>ho_cpu := (ho_cpu h)\<lparr>c_running := True\<rparr>\<rparr>, xs)"
proof (rule hosts_doing)
  fix c :: "(app_world, 'z demo_st_scheme) computer" assume c: "hosts (a, w, h, xs) c"
  let ?h = "h\<lparr>ho_cpu := (ho_cpu h)\<lparr>c_running := True\<rparr>\<rparr>" and ?c = "upd_cpu (\<lambda>p. p\<lparr>c_running := True\<rparr>) c"
  have c1: "hosts (a, w, ?h, xs) ?c" using c by (auto simp: hosts_def host_of_def Let_def upd_cpu_def)
  have "fm_activeFirmware (ho_fm ?h) = Some i" using assms(2) by simp
  from hosts_via_fm [where op = app_initialize and i = i, OF assms(1) this c1] obtain c' where
    c': "via_fm (fm_call app_initialize) ?c = ret () c'" "hosts (b, w', ?h, xs) c'" by blast
  have "\<not> c_rtosScheduler (cpu0 c')" using host_fields(1) [OF c'(2)] assms(4) by simp
  with c' show "\<exists>v c'. cpu_start no_closures c = ret v c' \<and> hosts (b, w', ?h, xs) c'"
    using c assms(3) by (auto simp: cpu_start_def fm_initialize_def no_closures_class hosts_def host_of_def Let_def)
qed

text \<open>A cycle of the bus with its idle timer.\<close>

definition ho_tick :: "host \<Rightarrow> host" where
  "ho_tick h = h\<lparr>ho_clock := clock_tick 1 (ho_clock h)\<rparr>"

lemma power_cycle:
  fixes s :: "'z demo_st_scheme"
  assumes "board_at a s" and "\<not> test_flag (bd_word a 3) 0" and "t_clock (bd_timer a)" and "sb s = power_bus" and "m_events (esched s) = []"
  shows "\<exists>s'. sb_cycle u v s = ret () s' \<and> board_at (bd_sync (m_cycles (clock_tick 1 (clock s))) a) s' \<and>
    clock s' = clock_tick 1 (clock s) \<and> sb s' = sb s \<and> esched s' = esched s \<and> cout s' = cout s"
proof -
  let ?s = "s\<lparr>clock := clock_tick 1 (clock s)\<rparr>"
  have b: "board_at a ?s" using assms(1) by simp
  have "timer_tick 0 ?s = ret () (timer_syncClock 0 ?s)"
    using assms(2) board_at_get [OF assms(1), of 3] by (simp add: timer_tick_def timer_running_def board_at_timer [OF assms(1)])
  moreover have "beside ?s (timer_syncClock 0 ?s)" by (rule sync_beside)
  ultimately have "sb_cycle u v s = ret () (timer_syncClock 0 ?s)"
    using assms(4,5) by (simp add: sb_cycle_def sb_tickTimers_def Let_def power_bus_def sched_executeReadyEvents_def beside_def)
  then show ?thesis using board_at_sync [OF b assms(3)] sync_beside [of ?s 0] by (auto simp: beside_def)
qed

text \<open>A step of the processor, with and without power.\<close>

lemma hosts_asleep:
  assumes "ho_powers h (c_powerController (ho_cpu h)) \<noteq> ON"
  shows "runs (hosts :: _ \<Rightarrow> ('w, 'z demo_st_scheme) computer \<Rightarrow> bool) (cpu_step e d) (a, w, h, xs) (a, w, h, xs)"
  using assms by (auto simp: runs_def cpu_step_def cpu_isPowerOn_def power_isPowerOn_def hosts_def host_of_def Let_def)

definition ho_stepped :: "host \<Rightarrow> host" where
  "ho_stepped h = h\<lparr>ho_cpu := (ho_cpu h)\<lparr>c_cycleCount := c_cycleCount (ho_cpu h) + 1\<rparr>, ho_clock := clock_tick 1 (ho_clock h)\<rparr>"

lemma hosts_awake:
  assumes "app_acts (app_update i :: app_world \<times> 'z demo_st_scheme \<Rightarrow> _) (bd_sync (m_cycles (clock_tick 1 (ho_clock h))) a, w) (b, w')"
    and "ho_powers h (c_powerController (ho_cpu h)) = ON" and "c_systemBus (ho_cpu h)" and "c_running (ho_cpu h)"
    and "\<not> c_rtosScheduler (ho_cpu h)" and "ho_sb h = power_bus" and "m_events (ho_esched h) = []"
    and "\<not> test_flag (bd_word a 3) 0" and "t_clock (bd_timer a)" and "fm_activeFirmware (ho_fm h) = Some i"
  shows "runs (hosts :: _ \<Rightarrow> (app_world, 'z demo_st_scheme) computer \<Rightarrow> bool) (cpu_step no_closures d) (a, w, h, xs) (b, w', ho_stepped h, xs)"
  unfolding runs_def
proof (intro allI impI)
  fix c :: "(app_world, 'z demo_st_scheme) computer" assume c: "hosts (a, w, h, xs) c"
  let ?c = "upd_cpu (\<lambda>p. p\<lparr>c_cycleCount := c_cycleCount p + 1\<rparr>) c" and ?s = "snd (world c)"
  let ?a = "bd_sync (m_cycles (clock_tick 1 (ho_clock h))) a"
  have host: "cpu0 c = ho_cpu h" "powers c = ho_powers h" "sb ?s = ho_sb h" "clock ?s = ho_clock h" "esched ?s = ho_esched h" "board_at a ?s"
    using host_fields [OF c] .
  obtain s' where s': "sb_cycle (e_callback no_closures) (e_handler no_closures) ?s = ret () s'" "board_at ?a s'"
    "clock s' = clock_tick 1 (ho_clock h)" "sb s' = ho_sb h" "esched s' = ho_esched h" "cout s' = cout ?s"
    using power_cycle [of a ?s "e_callback no_closures" "e_handler no_closures"] host assms(6-9) by auto
  let ?c' = "?c\<lparr>world := (w, s')\<rparr>"
  have c': "hosts (?a, w, ho_stepped h, xs) ?c'"
    using c s' host by (auto simp: hosts_def host_of_def Let_def upd_cpu_def ho_stepped_def)
  have "fm_activeFirmware (ho_fm (ho_stepped h)) = Some i" using assms(10) by (simp add: ho_stepped_def)
  from hosts_via_fm [where op = app_update and i = i, OF assms(1) this c'] obtain c2 where
    c2: "via_fm (fm_call app_update) ?c' = ret () c2" "hosts (b, w', ho_stepped h, xs) c2" by blast
  moreover have "via_bus (sb_cycle (e_callback no_closures) (e_handler no_closures)) ?c = ret () ?c'"
    using s'(1) c by (auto simp: via_bus_def upd_cpu_def hosts_def)
  ultimately have "cpu_step no_closures d c = Some (ret () c2)"
    using assms(2-5) host by (simp add: cpu_step_def cpu_isPowerOn_def power_isPowerOn_def Let_def upd_cpu_def fm_update_def no_closures_class)
  with c2(2) show "\<exists>s'. cpu_step no_closures d c = Some (ret () s') \<and> hosts (b, w', ho_stepped h, xs) s'" by blast
qed

section \<open>The resets\<close>

definition bd_reset :: "u64 \<Rightarrow> board \<Rightarrow> board" where
  "bd_reset k a = bd_sync k (a\<lparr>bd_word := (bd_word a)(0 := 0, 1 := 0, 2 := 0, 3 := 0, 4 := 0, 6 := 0, 9 := 0), bd_tx := [], bd_rx := []\<rparr>)"

lemma acts_gpio_reset: "acts (plainly (\<lambda>s. gpio_reset (gpio0 s) s)) a () (bd_put 2 0 (bd_put 1 0 (bd_put 0 0 a)))"
proof (rule actsI [where g = "\<lambda>s. reg_put 2 0 (reg_put 1 0 (reg_put 0 0 s))"])
  fix s :: "'z demo_st_scheme" assume s: "board_at a s"
  have home: "m_initialValue (reg_objs s r) = bd_home r" if "r < 11" for r using s that by (simp add: board_at_def)
  show "plainly (\<lambda>s. gpio_reset (gpio0 s) s) s = ret () (reg_put 2 0 (reg_put 1 0 (reg_put 0 0 s)))"
    by (simp add: plainly_def gpio_reset_def board_at_gpio [OF s] reg_rst_put home bd_home_def)
  show "board_at (bd_put 2 0 (bd_put 1 0 (bd_put 0 0 a))) (reg_put 2 0 (reg_put 1 0 (reg_put 0 0 s)))"
    by (rule board_at_put [OF board_at_put [OF board_at_put [OF s]]])
qed (simp add: beside_put beside_put_trans)

lemma acts_timer_reset:
  fixes s :: "'z demo_st_scheme"
  assumes "board_at a s" and "t_clock (bd_timer a)"
  shows "board_at (bd_sync (m_cycles (clock s)) (bd_put 3 0 (bd_put 6 0 (bd_put 4 0 a)))) (timer_reset 0 s) \<and> beside s (timer_reset 0 s)"
proof -
  have home: "m_initialValue (reg_objs s r) = bd_home r" if "r < 11" for r using assms(1) that by (simp add: board_at_def)
  let ?t = "reg_put 3 0 (reg_put 6 0 (reg_put 4 0 s))"
  have "timer_reset 0 s = timer_syncClock 0 (reg_put 3 0 (reg_put 6 0 (reg_put 4 0 (reg_put 3 (clear_flag (bd_word a 3) 0) s))))"
    using assms by (simp add: timer_reset_def timer_stop_def Let_def board_at_timer timer_cancel_none reg_rst_put home bd_home_def board_at_get)
  also have "reg_put 3 0 (reg_put 6 0 (reg_put 4 0 (reg_put 3 (clear_flag (bd_word a 3) 0) s))) = ?t"
    by (simp add: reg_put_def register_write_def fun_upd_twist)
  finally have r: "timer_reset 0 s = timer_syncClock 0 ?t" .
  have b: "board_at (bd_put 3 0 (bd_put 6 0 (bd_put 4 0 a))) ?t"
    by (rule board_at_put [OF board_at_put [OF board_at_put [OF assms(1)]]])
  have k: "beside s ?t" by (simp add: beside_put beside_put_trans)
  show ?thesis
    unfolding r using board_at_sync [OF b] assms(2) k beside_trans [OF k sync_beside] by (simp add: beside_def)
qed

lemma acts_uart_reset: "acts (via_uart (plainly uart_reset)) a () ((bd_put 9 0 a)\<lparr>bd_tx := [], bd_rx := []\<rparr>)"
proof (rule acts_uart [where g = "\<lambda>s. reg_put 9 0 (reg_put 7 0 (reg_put 8 (uart_status (bd_tx a = []) (bd_rx a \<noteq> []) False)
      (reg_put 9 (clear_flag (bd_word a 9) 0) s)))"])
  fix s :: "'z demo_st_scheme" assume s: "board_at a s"
  have home: "m_initialValue (reg_objs s r) = bd_home r" if "r < 11" for r using s that by (simp add: board_at_def)
  show "\<exists>ws. plainly uart_reset (uart0 s, s) = (Inr (), (uart0 s)\<lparr>u_txFifo := [], u_rxFifo := []\<rparr>,
      fold (\<lambda>(r, v). reg_put r v) ws (reg_put 9 0 (reg_put 7 0 (reg_put 8 (uart_status (bd_tx a = []) (bd_rx a \<noteq> []) False)
        (reg_put 9 (clear_flag (bd_word a 9) 0) s))))) \<and> (\<forall>(r, v) \<in> set ws. r = 7 \<or> r = 8)"
    by (intro exI [of _ "[(8, uart_status True False False)]"])
      (simp add: plainly_def uart_reset_def uart_disable_def board_at_uart [OF s] board_at_get [OF s] Let_def uart_updateStatusRegister_def uart_enabled_def
        reg_rst_put home bd_home_def flag_simps)
  let ?b = "bd_put 9 0 (bd_put 9 (clear_flag (bd_word a 9) 0) a)"
  have "board_at ?b (reg_put 9 0 (reg_put 7 0 (reg_put 8 (uart_status (bd_tx a = []) (bd_rx a \<noteq> []) False)
      (reg_put 9 (clear_flag (bd_word a 9) 0) s))))"
    by (intro board_at_put board_at_unread s) simp_all
  then show "board_at (bd_put 9 0 a) (reg_put 9 0 (reg_put 7 0 (reg_put 8 (uart_status (bd_tx a = []) (bd_rx a \<noteq> []) False)
      (reg_put 9 (clear_flag (bd_word a 9) 0) s)))) \<and>
    uart0 (reg_put 9 0 (reg_put 7 0 (reg_put 8 (uart_status (bd_tx a = []) (bd_rx a \<noteq> []) False)
      (reg_put 9 (clear_flag (bd_word a 9) 0) s)))) = uart0 s \<and>
    beside s (reg_put 9 0 (reg_put 7 0 (reg_put 8 (uart_status (bd_tx a = []) (bd_rx a \<noteq> []) False)
      (reg_put 9 (clear_flag (bd_word a 9) 0) s))))"
    by (simp add: beside_put beside_put_trans)
qed

lemma bus_reset:
  fixes s :: "'z demo_st_scheme"
  assumes "board_at a s" and "t_clock (bd_timer a)" and "sb s = power_bus"
  shows "board_at (bd_reset (m_cycles (clock s)) a) (sb_reset s) \<and> clock (sb_reset s) = clock_reset (clock s) \<and>
    esched (sb_reset s) = sched_clear (esched s) \<and> sb (sb_reset s) = sb s \<and> cout (sb_reset s) = cout s"
proof -
  let ?a1 = "bd_put 2 0 (bd_put 1 0 (bd_put 0 0 a))" and ?s1 = "gpio_reset (gpio0 s) s"
  let ?a2 = "bd_sync (m_cycles (clock s)) (bd_put 3 0 (bd_put 6 0 (bd_put 4 0 ?a1)))" and ?s2 = "timer_reset 0 ?s1"
  let ?a3 = "(bd_put 9 0 ?a2)\<lparr>bd_tx := [], bd_rx := []\<rparr>"
  have 1: "board_at ?a1 ?s1" "beside s ?s1" using acts_plainly [OF acts_gpio_reset assms(1)] by simp_all
  have "t_clock (bd_timer ?a1)" using assms(2) by simp
  moreover have "clock ?s1 = clock s" using 1(2) by (simp add: beside_def)
  ultimately have 2: "board_at ?a2 ?s2" "beside ?s1 ?s2" using acts_timer_reset [OF 1(1)] by simp_all
  obtain s3 where 3: "via_uart (plainly uart_reset) ?s2 = ret () s3" "board_at ?a3 s3" "beside ?s2 s3"
    using actsD [OF acts_uart_reset 2(1)] by blast
  have "sb ?s1 = power_bus" "sb ?s2 = power_bus" "sb s3 = power_bus" using 1(2) 2(2) 3(3) assms(3) by (simp_all add: beside_def)
  then have "sb_reset s = s3\<lparr>clock := clock_reset (clock s3), esched := sched_clear (esched s3)\<rparr>"
    using assms(3) 3(1) by (simp add: sb_reset_def power_bus_def Let_def)
  moreover have "?a3 = bd_reset (m_cycles (clock s)) a"
    by (simp add: bd_reset_def bd_sync_def fun_upd_twist)
  ultimately show ?thesis using 1(2) 2(2) 3(2,3) by (simp add: beside_def)
qed

definition ho_reset :: "host \<Rightarrow> host" where
  "ho_reset h = h\<lparr>ho_clock := clock_reset (ho_clock h), ho_esched := sched_clear (ho_esched h)\<rparr>"

lemma hosts_via_reset:
  fixes c :: "('w, 'z demo_st_scheme) computer"
  assumes "hosts (a, w, h, xs) c" and "t_clock (bd_timer a)" and "ho_sb h = power_bus"
  shows "\<exists>c'. via_bus (plainly sb_reset) c = ret () c' \<and> hosts (bd_reset (m_cycles (ho_clock h)) a, w, ho_reset h, xs) c'"
proof -
  note f = host_fields [OF assms(1)]
  show ?thesis
    using bus_reset [OF f(6) assms(2)] f assms(1,3)
    by (auto simp: via_bus_def plainly_def hosts_def host_of_def Let_def ho_reset_def)
qed

lemma hosts_resetPeripherals:
  assumes "t_clock (bd_timer a)" and "ho_sb h = power_bus"
  shows "runs (hosts :: _ \<Rightarrow> ('w, 'z demo_st_scheme) computer \<Rightarrow> bool) (doing (via_bus (plainly sb_reset))) (a, w, h, xs)
    (bd_reset (m_cycles (ho_clock h)) a, w, ho_reset h, xs)"
  by (rule hosts_doing) (use hosts_via_reset [OF _ assms] in fastforce)

definition ho_restart :: "host \<Rightarrow> host" where
  "ho_restart h = h\<lparr>ho_cpu := (ho_cpu h)\<lparr>c_cycleCount := 0, c_registerFile := rf_reset (c_registerFile (ho_cpu h))\<rparr>\<rparr>"

lemma hosts_resetCPU:
  assumes "app_acts (app_reset i :: app_world \<times> 'z demo_st_scheme \<Rightarrow> _) (a, w) (b, w')" and "t_clock (bd_timer b)"
    and "ho_sb h = power_bus" and "c_systemBus (ho_cpu h)" and "\<not> c_rtosScheduler (ho_cpu h)" and "fm_activeFirmware (ho_fm h) = Some i"
  shows "runs (hosts :: _ \<Rightarrow> (app_world, 'z demo_st_scheme) computer \<Rightarrow> bool) (doing (cpu_reset no_closures))
    (a, w, h, xs) (bd_reset (m_cycles (ho_clock h)) b, w', ho_reset (ho_restart h), xs)"
proof (rule hosts_doing)
  fix c :: "(app_world, 'z demo_st_scheme) computer" assume c: "hosts (a, w, h, xs) c"
  let ?c = "upd_cpu (\<lambda>p. p\<lparr>c_registerFile := rf_reset (c_registerFile p)\<rparr>) (upd_cpu (\<lambda>p. p\<lparr>c_cycleCount := 0\<rparr>) c)"
  have c1: "hosts (a, w, ho_restart h, xs) ?c" using c by (auto simp: hosts_def host_of_def Let_def upd_cpu_def ho_restart_def)
  have "fm_activeFirmware (ho_fm (ho_restart h)) = Some i" using assms(6) by (simp add: ho_restart_def)
  from hosts_via_fm [where op = app_reset and i = i, OF assms(1) this c1] obtain c2 where
    c2: "via_fm (fm_call app_reset) ?c = ret () c2" "hosts (b, w', ho_restart h, xs) c2" by blast
  have sb: "ho_sb (ho_restart h) = power_bus" using assms(3) by (simp add: ho_restart_def)
  obtain c3 where c3: "via_bus (plainly sb_reset) c2 = ret () c3"
    "hosts (bd_reset (m_cycles (ho_clock (ho_restart h))) b, w', ho_reset (ho_restart h), xs) c3"
    using hosts_via_reset [OF c2(2) assms(2) sb] by blast
  have "cpu_reset no_closures c = ret () c3"
    using c2(1) c3(1) host_fields(1) [OF c2(2)] assms(4,5)
    by (simp add: cpu_reset_def Let_def fm_reset_def no_closures_class ho_restart_def)
  with c3(2) show "\<exists>v c'. cpu_reset no_closures c = ret v c' \<and>
      hosts (bd_reset (m_cycles (ho_clock h)) b, w', ho_reset (ho_restart h), xs) c'"
    by (auto simp: ho_restart_def)
qed

lemma hosts_and_then:
  assumes "runs (hosts :: _ \<Rightarrow> ('w, 'z demo_st_scheme) computer \<Rightarrow> bool) (doing f) A B" and "runs hosts (doing g) B C"
  shows "runs (hosts :: _ \<Rightarrow> ('w, 'z demo_st_scheme) computer \<Rightarrow> bool) (doing (\<lambda>c. and_then (f c) (\<lambda>_. g))) A C"
  unfolding runs_def
proof (intro allI impI)
  fix c :: "('w, 'z demo_st_scheme) computer" assume "hosts A c"
  then obtain c1 where "doing f c = Some (ret () c1)" "hosts B c1" using runsD [OF assms(1)] by blast
  moreover then obtain c2 where "doing g c1 = Some (ret () c2)" "hosts C c2" using runsD [OF assms(2)] by blast
  ultimately show "\<exists>s'. doing (\<lambda>c. and_then (f c) (\<lambda>_. g)) c = Some (ret () s') \<and> hosts C s'"
    by (auto simp: doing_def and_then_def split: prod.splits sum.splits)
qed

section \<open>The basic firmware through a reset\<close>

lemma app_acts_basic_reset:
  shows "bf_initialized f \<Longrightarrow> \<not> bf_shutdown f \<Longrightarrow> bf_gpioHAL f \<Longrightarrow> unat (bf_pin f) < 32 \<Longrightarrow> test_flag (bd_word a 0) (unat (bf_pin f)) \<Longrightarrow>
      aw_apps w i = Basic f \<Longrightarrow> app_acts (app_reset i) (a, w) (bd_drive False (unat (bf_pin f)) a,
        put_app i (Basic (f\<lparr>bf_initialized := False, bf_shutdown := False, bf_cycleCounter := 0, bf_executionCount := 0\<rparr>)) w)"
    and "\<not> bf_initialized f \<Longrightarrow> aw_apps w i = Basic f \<Longrightarrow> app_acts (app_reset i) (a, w)
      (a, put_app i (Basic (f\<lparr>bf_initialized := False, bf_shutdown := False, bf_cycleCounter := 0, bf_executionCount := 0\<rparr>)) w)"
  using actsD [OF acts_write [of "bf_pin f" a False]]
  by (fastforce simp: app_acts_def app_reset_def basic_reset_def via_app_def hal_call_def Let_def)+

text \<open>The reset of the system without what it logs.\<close>

definition system_reset ::
  "(app_world, 'z demo_st_scheme) computer \<Rightarrow> (unit, (app_world, 'z demo_st_scheme) computer) outcome" where
  "system_reset c = and_then (cpu_reset no_closures c) (\<lambda>_ c. and_then (via_bus (plainly sb_reset) c) (\<lambda>_ c.
     and_then (via_fm (fm_reset (e_class no_closures)) c) (\<lambda>_. via_fm (fm_initialize (e_class no_closures)))))"

lemma hosts_resetSystem:
  assumes "\<not> bf_initialized f" and "bf_gpioHAL f" and "unat (bf_pin f) < 32"
    and "t_clock (bd_timer a)" and "ho_sb h = power_bus" and "c_systemBus (ho_cpu h)" and "\<not> c_rtosScheduler (ho_cpu h)"
    and "aw_apps w i = Basic f" and "fm_activeFirmware (ho_fm h) = Some i"
  shows "runs (hosts :: _ \<Rightarrow> (app_world, 'z demo_st_scheme) computer \<Rightarrow> bool) (doing system_reset)
    (a, w, h, xs) (bd_ready (unat (bf_pin f)) (bd_reset (m_cycles (clock_reset (ho_clock h))) (bd_reset (m_cycles (ho_clock h)) a)),
      put_app i (Basic (f\<lparr>bf_initialized := True, bf_shutdown := False, bf_cycleCounter := 0, bf_executionCount := 0\<rparr>)) w,
      ho_reset (ho_reset (ho_restart h)), xs)"
proof -
  let ?R = "hosts :: _ \<Rightarrow> (app_world, 'z demo_st_scheme) computer \<Rightarrow> bool"
  let ?f = "f\<lparr>bf_initialized := False, bf_shutdown := False, bf_cycleCounter := 0, bf_executionCount := 0\<rparr>"
  let ?w = "put_app i (Basic ?f) w" and ?h = "ho_reset (ho_reset (ho_restart h))"
  let ?a1 = "bd_reset (m_cycles (ho_clock h)) a" and ?a2 = "bd_reset (m_cycles (clock_reset (ho_clock h))) (bd_reset (m_cycles (ho_clock h)) a)"
  have 1: "runs ?R (doing (cpu_reset no_closures)) (a, w, h, xs) (?a1, ?w, ho_reset (ho_restart h), xs)"
    by (rule hosts_resetCPU [OF app_acts_basic_reset(2) [OF assms(1,8)] assms(4-7,9)])
  have 2: "runs ?R (doing (via_bus (plainly sb_reset))) (?a1, ?w, ho_reset (ho_restart h), xs) (?a2, ?w, ?h, xs)"
    using hosts_resetPeripherals [of ?a1 "ho_reset (ho_restart h)"] assms(4,5) by (simp add: bd_reset_def bd_sync_def ho_reset_def ho_restart_def)
  have act: "fm_activeFirmware (ho_fm ?h) = Some i" using assms(9) by (simp add: ho_reset_def ho_restart_def)
  have r: "app_acts (app_reset i :: app_world \<times> 'z demo_st_scheme \<Rightarrow> _) (?a2, ?w) (?a2, ?w)"
    using app_acts_basic_reset(2) [of ?f ?w i] by (simp add: put_app_def)
  have n: "app_acts (app_initialize i :: app_world \<times> 'z demo_st_scheme \<Rightarrow> _) (?a2, ?w) (bd_ready (unat (bf_pin f)) ?a2,
      put_app i (Basic (f\<lparr>bf_initialized := True, bf_shutdown := False, bf_cycleCounter := 0, bf_executionCount := 0\<rparr>)) w)"
    using app_acts_basic [of ?f ?w i ?a2] assms(2,3) by (simp add: put_app_def)
  have "runs ?R (doing (via_fm (fm_reset (e_class no_closures)))) (?a2, ?w, ?h, xs) (?a2, ?w, ?h, xs)"
      unfolding fm_reset_def no_closures_class by (rule hosts_fm_call [where op = app_reset and i = i, OF r act])
  moreover have "runs ?R (doing (via_fm (fm_initialize (e_class no_closures)))) (?a2, ?w, ?h, xs) (bd_ready (unat (bf_pin f)) ?a2,
      put_app i (Basic (f\<lparr>bf_initialized := True, bf_shutdown := False, bf_cycleCounter := 0, bf_executionCount := 0\<rparr>)) w, ?h, xs)"
      unfolding fm_initialize_def no_closures_class by (rule hosts_fm_call [where op = app_initialize and i = i, OF n act])
  ultimately have "runs ?R (doing (\<lambda>c. and_then (via_fm (fm_reset (e_class no_closures)) c) (\<lambda>_. via_fm (fm_initialize (e_class no_closures)))))
      (?a2, ?w, ?h, xs) (bd_ready (unat (bf_pin f)) ?a2,
      put_app i (Basic (f\<lparr>bf_initialized := True, bf_shutdown := False, bf_cycleCounter := 0, bf_executionCount := 0\<rparr>)) w, ?h, xs)"
      by (rule hosts_and_then)
  from hosts_and_then [OF 1 hosts_and_then [OF 2 this]] show ?thesis by (simp add: system_reset_def [abs_def])
qed

lemma rc_resetCPU_logs:
  "cpu_reset no_closures c = ret () c' \<Longrightarrow> rc_resetCPU no_closures (rc_init True True True) (st, c) =
    ret () (logger_info ''ResetController: Resetting CPU'' st, c')"
  by (simp add: rc_resetCPU_def rc_init_def)

lemma rc_resetPeripherals_logs:
  "via_bus (plainly sb_reset) c = ret () c' \<Longrightarrow> rc_resetPeripherals (rc_init True True True) (st, c) =
    ret () (logger_info ''ResetController: Resetting Peripherals'' st, c')"
  by (simp add: rc_resetPeripherals_def rc_init_def)

lemma rc_resetSystem_logs:
  assumes "system_reset c = ret () c'"
  shows "rc_resetSystem no_closures (rc_init True True True) (st, c) =
    ret () (logger_info ''ResetController: Resetting Firmware'' (logger_info ''ResetController: Resetting Peripherals''
      (logger_info ''ResetController: Resetting CPU'' (logger_info ''ResetController: Performing Full System Reset'' st))), c')"
proof -
  obtain c1 c2 c3 where "cpu_reset no_closures c = ret () c1" "via_bus (plainly sb_reset) c1 = ret () c2"
    "via_fm (fm_reset (e_class no_closures)) c2 = ret () c3" "via_fm (fm_initialize (e_class no_closures)) c3 = ret () c'"
    using assms by (auto simp: system_reset_def and_then_Inr_iff)
  then show ?thesis
    by (simp add: rc_resetSystem_def rc_resetCPU_def rc_resetPeripherals_def rc_resetFirmware_def rc_init_def Let_def)
qed

text \<open>The three resets as the program calls them.\<close>

lemmas hosts_reset_cpu = hosts_logged [where G = "rc_resetCPU no_closures (rc_init True True True)", OF hosts_resetCPU rc_resetCPU_logs]

lemmas hosts_reset_peripherals =
  hosts_logged [where G = "rc_resetPeripherals (rc_init True True True)", OF hosts_resetPeripherals rc_resetPeripherals_logs]

lemmas hosts_reset_system =
  hosts_logged [where G = "rc_resetSystem no_closures (rc_init True True True)", OF hosts_resetSystem rc_resetSystem_logs]

section \<open>The transcript\<close>

definition power_demo_text :: string where
  "power_demo_text =
     ''Starting Power Management & Reset Controller Demo...'' @ nl @ nl @
     ''--- Initial Power State: ON ---'' @ nl @
     ''Is Power ON? Yes'' @ nl @
     ''Executed 2 steps | CPU Cycle Count: 2 | Pin 1 State: HIGH'' @ nl @ nl @
     ''--- Entering SLEEP Mode ---'' @ nl @
     ''[INFO] PowerController: Entering SLEEP mode'' @ nl @
     ''Is Power SLEEP? Yes'' @ nl @
     ''Attempting 5 steps while in SLEEP mode...'' @ nl @
     ''CPU Cycle Count after SLEEP steps: 2 (Execution paused as expected)'' @ nl @ nl @
     ''--- Waking up from SLEEP Mode ---'' @ nl @
     ''[INFO] PowerController: Waking up from SLEEP mode'' @ nl @
     ''Is Power ON? Yes'' @ nl @
     ''Executed 2 steps post-wake | CPU Cycle Count: 4 | Pin 1 State: LOW'' @ nl @ nl @
     ''--- Testing ResetController Operations ---'' @ nl @
     ''Triggering resetCPU()...'' @ nl @
     ''[INFO] ResetController: Resetting CPU'' @ nl @
     ''CPU Cycle Count after resetCPU(): 0'' @ nl @
     ''Triggering resetPeripherals()...'' @ nl @
     ''[INFO] ResetController: Resetting Peripherals'' @ nl @
     ''Pin 1 State after resetPeripherals(): LOW'' @ nl @
     ''Triggering resetSystem()...'' @ nl @
     ''[INFO] ResetController: Performing Full System Reset'' @ nl @
     ''[INFO] ResetController: Resetting CPU'' @ nl @
     ''[INFO] ResetController: Resetting Peripherals'' @ nl @
     ''[INFO] ResetController: Resetting Firmware'' @ nl @
     ''CPU Cycle Count after resetSystem(): 0'' @ nl @ nl @
     ''--- Powering OFF System ---'' @ nl @
     ''[INFO] PowerController: Power OFF'' @ nl @
     ''Is Power OFF? Yes'' @ nl @
     ''Power Management & Reset Controller Demo completed successfully.'' @ nl"

lemmas power_rules =
  hosts_say [OF acts_read] hosts_print hosts_print_of hosts_call [OF acts_attach] hosts_wiring hosts_attachTimer hosts_cpu_setup hosts_new_app
  hosts_load hosts_start [OF app_acts_basic] hosts_asleep
  hosts_awake [OF app_acts_basic_on(1)] hosts_awake [OF app_acts_basic_on(2)]
  hosts_power hosts_reset_cpu [OF app_acts_basic_reset(1)] hosts_reset_peripherals hosts_reset_system

lemmas power_state = new_board_def board_timer_def bd_home_def put_app_def basic_init_def blank_cpu_def sched_init_def sched_clear_def
  power_powerOn_def power_sleep_def power_wake_def power_powerOff_def powerCtrl_def bd_sync_def bd_reset_def ho_stepped_def ho_reset_def
  ho_restart_def logger_defs no_output_def

lemma host_powers: "hosts (a, w, h, xs) c \<Longrightarrow> power_isPowerOn (powers c k) = (ho_powers h k = ON) \<and>
    power_isSleep (powers c k) = (ho_powers h k = SLEEP) \<and> power_isPowerOff (powers c k) = (ho_powers h k = OFF)"
  by (auto dest!: host_fields(2) simp: power_isPowerOn_def power_isSleep_def power_isPowerOff_def)

text \<open>
  C19. From every machine the power demonstration returns, at every depth of the task scheduler, and prints exactly this
  text, the lines that the two controllers log included: the processor executes two steps with power, none of the five while it sleeps and two more after it wakes, the
  pin follows, and the resets set the cycle count to zero and the pin low.
\<close>

theorem power_demo_transcript:
  "\<exists>c. power_demo d c0 = Some (ret () c) \<and> os_text (cout (snd (world c))) = power_demo_text"
  by (simp add: power_demo_def Let_def eval_nat_numeral, rule board_executes,
      ((rule runs_step, (rule power_rules;
          simp add: flag_simps fm_activeFirmware_def host_fields host_powers power_demo_cycles_def power_bus_def power_state),
         simp add: power_state)+)[1], rule runs_nil)
    (simp add: render power_demo_text_def flag_simps high_or_low_def yes_or_no_def power_isPowerOn_def power_isSleep_def power_isPowerOff_def)

end
