(* ===== verification/Example_Firmware.thy ===== *)
theory Example_Firmware
  imports Example_Kit
begin

text \<open>
  The program of \<^verbatim>\<open>examples/firmware_demo.cpp\<close>: a processor with a bus of its own, an event-driven timer with an
  interrupt handler, and the basic firmware on a pin of the port.
\<close>

section \<open>The program\<close>

text \<open>The handler of the timer's line, 0.\<close>

definition firmware_isr :: "'z demo_st_scheme \<Rightarrow> (unit, 'z demo_st_scheme) outcome" where
  "firmware_isr = say [line ''  [ISR] Timer interrupt match handler executed!'']"

definition firmware_closures :: "(app_world, 'z demo_st_scheme) environment" where
  "firmware_closures = \<lparr>e_class = app_class, e_callback = \<lambda>_. ret (), e_handler = \<lambda>_. firmware_isr, e_tasks = \<lambda>_ ws. ([], ws)\<rparr>"

definition firmware_report :: "pin_state \<Rightarrow> ('w, 'z demo_st_scheme) computer \<Rightarrow> out list" where
  "firmware_report pinState c =
     [Str ''  Cycle '', Num (unat (c_cycleCount (cpu0 c))),
      Str '' | GPIO Pin 2: '', Str (if pinState = High then ''HIGH'' else ''LOW''),
      Str '' | Timer Count: '', Num (unat (timer_counter 0 (snd (world c)))), Str nl]"

definition firmware_report_step ::
  "('w, 'z demo_st_scheme) computer \<Rightarrow> (unit, ('w, 'z demo_st_scheme) computer) outcome option" where
  "firmware_report_step c =
     (case via_bus (\<lambda>s. gpio_readPin (gpio0 s) 2 s) c of
        (Inl e, c) \<Rightarrow> Some (throw e c)
      | (Inr pinState, c) \<Rightarrow> print (firmware_report pinState c) c)"

definition firmware_demo ::
  "nat \<Rightarrow> (app_world, 'z demo_st_scheme) computer \<Rightarrow> (unit, (app_world, 'z demo_st_scheme) computer) outcome option" where
  "firmware_demo d = main_of
     ([print [line ''Starting Embedded Firmware Simulator Demo...''],
       machine new_mmio,
       machine (new_gpio 0x40000000),
       machine (new_timer 0 0x40001000),
       machine (new_ic 0x40002000),
       machine (ic_registerInterrupt 0),
       machine (ic_enable 0),
       machine (plainly (timer_attachInterruptController 0 True 0)),
       machine (plainly (timer_setCompare 0 5)),
       machine (plainly (timer_start 0)),
       machine (ic_registerHandler 0 (Some 0)),
       doing (plainly (cpu_initIrq True)),
       doing (plainly (\<lambda>c. snd (cpu_attachTimer (Some 0) c))),
       apps (plainly (\<lambda>(w, s). (put_app 0 (Basic (basic_init True 2 2)) w, s))),
       doing (cpu_loadFirmware firmware_closures (Some 0) ''default''),
       print [line ''Running 10 simulation cycles...''],
       doing (cpu_start firmware_closures)] @
      concat (replicate 10 [cpu_step firmware_closures d, firmware_report_step]) @
      [doing (cpu_stop firmware_closures),
       print [line ''Simulation Demo finished successfully.'']])"

section \<open>The machine of the program\<close>

record fdm =
  fd_word :: "nat \<Rightarrow> u32"
  fd_timer :: timer
  fd_ic :: ic_ctl
  fd_bus :: system_bus
  fd_clock :: sim_clock
  fd_events :: "callback event_queue"
  fd_out :: "out list"

definition fd_at :: "fdm \<Rightarrow> 'z demo_st_scheme \<Rightarrow> bool" where
  "fd_at a s \<longleftrightarrow> (\<forall>r<10. reg_get r s = fd_word a r) \<and>
     gpio0 s = \<lparr>g_base = 0x40000000, g_dirRegister = 0, g_outRegister = 1, g_inRegister = 2\<rparr> \<and>
     timers s 0 = fd_timer a \<and> ic s = fd_ic a \<and> sb s = fd_bus a \<and> clock s = fd_clock a \<and> esched s = fd_events a \<and>
     cout s = puts (fd_out a) std_cout"

lemma fd_atD:
  assumes "fd_at a s"
  shows "r < 10 \<Longrightarrow> reg_get r s = fd_word a r" "gpio0 s = \<lparr>g_base = 0x40000000, g_dirRegister = 0, g_outRegister = 1, g_inRegister = 2\<rparr>"
    "timers s 0 = fd_timer a" "ic s = fd_ic a" "sb s = fd_bus a" "clock s = fd_clock a" "esched s = fd_events a"
    "cout s = puts (fd_out a) std_cout"
  using assms by (auto simp: fd_at_def)

abbreviation fd_put :: "nat \<Rightarrow> u32 \<Rightarrow> fdm \<Rightarrow> fdm" where
  "fd_put r v a \<equiv> a\<lparr>fd_word := (fd_word a)(r := v)\<rparr>"

lemma fd_at_put: "fd_at a s \<Longrightarrow> fd_at (fd_put r v a) (reg_put r v s)"
  by (auto simp: fd_at_def)

lemma fd_at_timer: "fd_at a s \<Longrightarrow> f (fd_timer a) = t \<Longrightarrow> fd_at (a\<lparr>fd_timer := t\<rparr>) (upd_timer 0 f s)"
  by (auto simp: fd_at_def upd_timer_def) (simp add: reg_get_def)

lemma fd_at_fields:
  assumes "fd_at a s"
  shows "fd_at (a\<lparr>fd_clock := k\<rparr>) (s\<lparr>clock := k\<rparr>)" "fd_at (a\<lparr>fd_events := q\<rparr>) (s\<lparr>esched := q\<rparr>)"
    "fd_at (a\<lparr>fd_ic := i\<rparr>) (s\<lparr>ic := i\<rparr>)" "fd_at (a\<lparr>fd_bus := b\<rparr>) (s\<lparr>sb := b\<rparr>)"
    "fd_at (a\<lparr>fd_out := fd_out a @ xs\<rparr>) (s\<lparr>cout := puts xs (cout s)\<rparr>)"
  using assms by (auto simp: fd_at_def reg_get_def puts_append)

definition does :: "('z demo_st_scheme \<Rightarrow> ('v, 'z demo_st_scheme) outcome) \<Rightarrow> fdm \<Rightarrow> 'v \<Rightarrow> fdm \<Rightarrow> bool" where
  "does f a v b \<longleftrightarrow> (\<forall>s. fd_at a s \<longrightarrow> (\<exists>s'. f s = ret v s' \<and> fd_at b s'))"

lemma doesD: "does f a v b \<Longrightarrow> fd_at a s \<Longrightarrow> \<exists>s'. f s = ret v s' \<and> fd_at b s'"
  by (simp add: does_def)

lemma doesI: "(\<And>s :: 'z demo_st_scheme. fd_at a s \<Longrightarrow> f s = ret v (g s) \<and> fd_at b (g s)) \<Longrightarrow> does f a v b"
  by (auto simp: does_def)

text \<open>The port.\<close>

abbreviation fd_drive :: "bool \<Rightarrow> nat \<Rightarrow> fdm \<Rightarrow> fdm" where
  "fd_drive v n a \<equiv> fd_put 2 (put_flag v (fd_word a 2) n) (fd_put 1 (put_flag v (fd_word a 1) n) a)"

lemma does_configure: "unat p < 32 \<Longrightarrow> does (gpio_hal_configureOutput True p) a () (fd_put 0 (set_flag (fd_word a 0) (unat p)) a)"
  by (rule doesI [where g = "\<lambda>s. reg_put 0 (set_flag (reg_get 0 s) (unat p)) s"])
    (simp add: gpio_hal_configureOutput_def gpio_configurePin_def gpio_validatePin_def MAX_PINS_def put_flag_def fd_atD fd_at_put)

lemma does_write:
  assumes "unat p < 32" and "test_flag (fd_word a 0) (unat p)"
  shows "does (gpio_hal_write True p v) a () (fd_drive v (unat p) a)"
proof (rule doesI [where g = "\<lambda>s. reg_put 2 (put_flag v (fd_word a 2) (unat p)) (reg_put 1 (put_flag v (fd_word a 1) (unat p)) s)"])
  fix s :: "'z demo_st_scheme" assume s: "fd_at a s"
  show "gpio_hal_write True p v s =
      ret () (reg_put 2 (put_flag v (fd_word a 2) (unat p)) (reg_put 1 (put_flag v (fd_word a 1) (unat p)) s)) \<and>
    fd_at (fd_drive v (unat p) a) (reg_put 2 (put_flag v (fd_word a 2) (unat p)) (reg_put 1 (put_flag v (fd_word a 1) (unat p)) s))"
    using assms fd_at_put [OF fd_at_put [OF s]]
    by (simp add: gpio_hal_write_def gpio_writePin_def gpio_validatePin_def MAX_PINS_def gpio_isOutputPin_def fd_atD [OF s])
qed

lemma does_toggle:
  assumes "unat p < 32" and "test_flag (fd_word a 0) (unat p)"
  shows "does (gpio_hal_toggle True p) a () (fd_drive (\<not> test_flag (fd_word a 2) (unat p)) (unat p) a)"
proof -
  have "gpio_hal_toggle True p s = gpio_hal_write True p (\<not> test_flag (fd_word a 2) (unat p)) s" if "fd_at a s" for s :: "'z demo_st_scheme"
    using assms by (simp add: gpio_hal_toggle_def gpio_togglePin_def gpio_hal_write_def gpio_validatePin_def MAX_PINS_def
        gpio_isOutputPin_def gpio_readPin_def fd_atD [OF that])
  then show ?thesis using does_write [OF assms, of "\<not> test_flag (fd_word a 2) (unat p)"] unfolding does_def by metis
qed

section \<open>A cycle of its bus\<close>

definition fw_timer :: "u64 \<Rightarrow> u64 \<Rightarrow> timer" where
  "fw_timer e k = \<lparr>t_base = 0x40001000, t_ctrlRegister = 3, t_countRegister = 4, t_compareRegister = 5,
     t_statusRegister = 6, t_interruptController = True, t_interruptId = 0, t_clock = True, t_scheduler = True,
     t_scheduledEventId = e, t_lastClockCycles = k\<rparr>"

definition fw_ic :: ic_ctl where
  "fw_ic = \<lparr>ic_base = 0x40002000, ic_enableRegister = 7, ic_pendingRegister = 8, ic_priorityRegister = 9,
     ic_registered = (replicate MAX_INTERRUPTS False)[0 := True], ic_priorities = replicate MAX_INTERRUPTS 128,
     ic_handlers = (replicate MAX_INTERRUPTS None)[0 := Some 0]\<rparr>"

definition fw_bus :: "nat list \<Rightarrow> system_bus" where
  "fw_bus ts = \<lparr>sb_memory = False, sb_mmioBus = False, sb_interruptController = True, sb_dmas = [], sb_timers = ts,
     sb_gpio = False, sb_uart = False, sb_spi = False, sb_i2c = False, sb_pwm = False, sb_adc = False\<rparr>"

definition fw_event :: "u64 \<Rightarrow> callback event" where
  "fw_event c = \<lparr>ev_id = 1, ev_cycle = c, ev_callback = Some (TimerMatch 0), ev_description = ''Timer Compare Match''\<rparr>"

abbreviation fw_cycle :: "'z demo_st_scheme \<Rightarrow> (unit, 'z demo_st_scheme) outcome" where
  "fw_cycle \<equiv> sb_cycle (e_callback firmware_closures) (e_handler firmware_closures)"

lemma fw_dispatch_none:
  fixes s :: "'z demo_st_scheme"
  assumes "fd_at a s" and "fd_ic a = fw_ic" and "fd_word a 7 AND fd_word a 8 = 0"
  shows "ic_dispatch h s = ret False s"
  using assms(2,3) by (simp add: ic_dispatch_def ic_active_def fd_atD [OF assms(1)] fw_ic_def)

lemma fw_dispatch_isr:
  assumes "fd_ic a = fw_ic" and "test_flag (fd_word a 7) 0" and "test_flag (fd_word a 8) 0"
  shows "does (ic_dispatch (e_handler firmware_closures)) a True
    ((fd_put 8 (clear_flag (fd_word a 8) 0) a)\<lparr>fd_out := fd_out a @ [line ''  [ISR] Timer interrupt match handler executed!'']\<rparr>)"
proof (rule doesI [where g = "\<lambda>s. (reg_put 8 (clear_flag (fd_word a 8) 0) s)\<lparr>cout := puts [line ''  [ISR] Timer interrupt match handler executed!''] (cout s)\<rparr>"])
  fix s :: "'z demo_st_scheme" assume s: "fd_at a s"
  have f: "test_flag (fd_word a 7 AND fd_word a 8) 0" using assms(2,3) by (simp add: flag_simps)
  then have nz: "fd_word a 7 AND fd_word a 8 \<noteq> 0" by auto
  have "dispatch_pick (fd_word a 7 AND fd_word a 8) (ic_handlers fw_ic) (ic_priorities fw_ic) = Some 0"
    using f by (simp add: dispatch_pick_def MAX_INTERRUPTS_def fw_ic_def dispatch_scan_def upt_rec [of _ "numeral _"])
  then show "ic_dispatch (e_handler firmware_closures) s = ret True
      ((reg_put 8 (clear_flag (fd_word a 8) 0) s)\<lparr>cout := puts [line ''  [ISR] Timer interrupt match handler executed!''] (cout s)\<rparr>) \<and>
    fd_at ((fd_put 8 (clear_flag (fd_word a 8) 0) a)\<lparr>fd_out := fd_out a @ [line ''  [ISR] Timer interrupt match handler executed!'']\<rparr>)
      ((reg_put 8 (clear_flag (fd_word a 8) 0) s)\<lparr>cout := puts [line ''  [ISR] Timer interrupt match handler executed!''] (cout s)\<rparr>)"
    using nz assms(1) fd_at_fields(5) [OF fd_at_put [OF s]]
    by (simp add: ic_dispatch_def ic_active_def fd_atD [OF s] fw_ic_def ic_clear_def ic_validId_def MAX_INTERRUPTS_def Let_def
        firmware_closures_def firmware_isr_def say_def)
qed

text \<open>The clock advances and the timer counts; then what is due is run and an interrupt dispatched.\<close>

definition fd_tick :: "fdm \<Rightarrow> fdm" where
  "fd_tick a = a\<lparr>fd_clock := clock_tick 1 (fd_clock a),
     fd_timer := (fd_timer a)\<lparr>t_lastClockCycles := m_cycles (clock_tick 1 (fd_clock a))\<rparr>\<rparr>"

lemma fd_tick_at: "fd_at a s \<Longrightarrow> t_clock (fd_timer a) \<Longrightarrow> fd_at (fd_tick a) (timer_syncClock 0 (s\<lparr>clock := clock_tick 1 (clock s)\<rparr>))"
  using fd_at_timer [OF fd_at_fields(1) [of a s "clock_tick 1 (clock s)"], of "\<lambda>t. t\<lparr>t_lastClockCycles := m_cycles (clock_tick 1 (clock s))\<rparr>"]
  by (simp add: timer_syncClock_def fd_tick_def fd_atD)

lemma does_tick_idle:
  assumes "fd_bus a = fw_bus [0]" and "fd_timer a = fw_timer e k" and "\<not> test_flag (fd_word a 3) 0"
  shows "does sb_tickTimers a () (fd_tick a)"
proof (rule doesI [where g = "\<lambda>s. timer_syncClock 0 (s\<lparr>clock := clock_tick 1 (clock s)\<rparr>)"])
  fix s :: "'z demo_st_scheme" assume s: "fd_at a s"
  let ?s = "timer_syncClock 0 (s\<lparr>clock := clock_tick 1 (clock s)\<rparr>)"
  have t: "fd_at (fd_tick a) ?s" by (rule fd_tick_at [OF s]) (simp add: assms(2) fw_timer_def)
  have "timer_tick 0 (s\<lparr>clock := clock_tick 1 (clock s)\<rparr>) = ret () ?s"
    using assms(2,3) by (simp add: timer_tick_def timer_running_def fd_atD [OF s] fd_atD(1) [OF s] fw_timer_def)
  then show "sb_tickTimers s = ret () ?s \<and> fd_at (fd_tick a) ?s"
    using t assms(1) fd_atD(5) [OF t] by (simp add: sb_tickTimers_def Let_def fd_atD [OF s] fw_bus_def fd_tick_def)
qed

lemma does_tick:
  assumes "fd_bus a = fw_bus [0]" and "fd_timer a = fw_timer e (m_cycles (fd_clock a))" and "test_flag (fd_word a 3) 0"
    and "unat (m_cycles (fd_clock a)) < 1000"
  shows "does sb_tickTimers a () (fd_put 4 (fd_word a 4 + 1) (fd_tick a))"
proof (rule doesI [where g = "\<lambda>s. reg_put 4 (fd_word a 4 + 1) (timer_syncClock 0 (s\<lparr>clock := clock_tick 1 (clock s)\<rparr>))"])
  fix s :: "'z demo_st_scheme" assume s: "fd_at a s"
  let ?s = "timer_syncClock 0 (s\<lparr>clock := clock_tick 1 (clock s)\<rparr>)"
  have t: "fd_at (fd_tick a) ?s" by (rule fd_tick_at [OF s]) (simp add: assms(2) fw_timer_def)
  have "unat (m_cycles (fd_clock a) + 1) = unat (m_cycles (fd_clock a)) + 1" using assms(4) by (simp add: unat_word_ariths)
  then have "m_cycles (fd_clock a) < m_cycles (fd_clock a) + 1" by (simp add: word_less_nat_alt)
  then have "timer_stepAmount 0 (s\<lparr>clock := clock_tick 1 (clock s)\<rparr>) = 1"
    using assms(2) by (simp add: timer_stepAmount_def fd_atD [OF s] fw_timer_def clock_tick_def)
  then have "timer_tick 0 (s\<lparr>clock := clock_tick 1 (clock s)\<rparr>) = ret () (reg_put 4 (fd_word a 4 + 1) ?s)"
    using assms(2,3) by (simp add: timer_tick_def timer_running_def Let_def fd_atD [OF s] fd_atD [OF t] fd_tick_def fw_timer_def)
  then show "sb_tickTimers s = ret () (reg_put 4 (fd_word a 4 + 1) ?s) \<and> fd_at (fd_put 4 (fd_word a 4 + 1) (fd_tick a)) (reg_put 4 (fd_word a 4 + 1) ?s)"
    using fd_at_put [OF t] assms(1) fd_atD(5) [OF t] by (simp add: sb_tickTimers_def Let_def fd_atD [OF s] fw_bus_def fd_tick_def)
qed

text \<open>Three kinds of cycles: without a timer that runs, before its match, and at its match.\<close>

lemma does_cycle:
  assumes "does (sb_tickTimers :: 'z demo_st_scheme \<Rightarrow> _) a () b" and "fd_bus b = fw_bus [0]" and "fd_ic b = fw_ic"
    and "does (\<lambda>s :: 'z demo_st_scheme. sched_executeReadyEvents (run_callback (e_callback firmware_closures)) (m_cycles (clock s)) s) b n c"
    and "does (ic_dispatch (e_handler firmware_closures) :: 'z demo_st_scheme \<Rightarrow> _) c v d" and "fd_bus c = fw_bus [0]"
  shows "does (fw_cycle :: 'z demo_st_scheme \<Rightarrow> _) a () d"
proof -
  have "\<exists>s'. fw_cycle s = ret () s' \<and> fd_at d s'" if s: "fd_at a s" for s :: "'z demo_st_scheme"
  proof -
    obtain s1 where 1: "sb_tickTimers s = ret () s1" "fd_at b s1" using doesD [OF assms(1) s] by blast
    obtain s2 where 2: "sched_executeReadyEvents (run_callback (e_callback firmware_closures)) (m_cycles (clock s1)) s1 = ret n s2" "fd_at c s2"
      using doesD [OF assms(4) 1(2)] by blast
    obtain s3 where 3: "ic_dispatch (e_handler firmware_closures) s2 = ret v s3" "fd_at d s3" using doesD [OF assms(5) 2(2)] by blast
    show ?thesis using 1 2 3 fd_atD(5) [OF 2(2)] assms(6) by (simp add: sb_cycle_def fw_bus_def)
  qed
  then show ?thesis by (simp add: does_def)
qed

lemma does_wait:
  assumes "m_events (fd_events a) = [] \<or> m_events (fd_events a) = [fw_event c] \<and> unat (m_cycles (fd_clock a)) < unat c"
  shows "does (\<lambda>s :: 'z demo_st_scheme. sched_executeReadyEvents (run_callback u) (m_cycles (clock s)) s) a 0 a"
proof (rule doesI [where g = "\<lambda>s. s"])
  fix s :: "'z demo_st_scheme" assume s: "fd_at a s"
  have "s\<lparr>esched := (fd_events a)\<rparr> = s" using fd_atD(7) [OF s] by simp
  moreover have "(fd_events a)\<lparr>m_events := m_events (fd_events a)\<rparr> = fd_events a" by simp
  ultimately show "sched_executeReadyEvents (run_callback u) (m_cycles (clock s)) s = ret 0 s \<and> fd_at a s"
    using s assms by (auto simp: sched_executeReadyEvents_def Let_def fd_atD [OF s] fw_event_def sort_events_def word_le_nat_alt)
qed

lemma does_match:
  assumes "m_events (fd_events a) = [fw_event c]" and "unat c \<le> unat (m_cycles (fd_clock a))" and "fd_timer a = fw_timer 1 k"
    and "test_flag (fd_word a 3) 0" and "fd_ic a = fw_ic"
  shows "does (\<lambda>s :: 'z demo_st_scheme. sched_executeReadyEvents (run_callback u) (m_cycles (clock s)) s) a 1
    (fd_put 8 (set_flag (fd_word a 8) 0) (fd_put 3 (clear_flag (fd_word a 3) 0) (fd_put 6 (set_flag (fd_word a 6) 0) (fd_put 4 (fd_word a 5)
      (a\<lparr>fd_events := (fd_events a)\<lparr>m_events := []\<rparr>, fd_timer := fw_timer 0 k\<rparr>)))))"
proof -
  let ?q = "(fd_events a)\<lparr>m_events := []\<rparr>"
  let ?regs = "\<lambda>s. reg_put 3 (clear_flag (fd_word a 3) 0) (reg_put 6 (set_flag (fd_word a 6) 0) (reg_put 4 (fd_word a 5) s))"
  let ?g = "\<lambda>s. reg_put 8 (set_flag (fd_word a 8) 0) (upd_timer 0 (\<lambda>t. t\<lparr>t_scheduledEventId := 0\<rparr>) ((?regs (s\<lparr>esched := ?q\<rparr>))\<lparr>esched := ?q\<rparr>))"
  show ?thesis
  proof (rule doesI [where g = ?g])
    fix s :: "'z demo_st_scheme" assume s: "fd_at a s"
    let ?s = "s\<lparr>esched := ?q\<rparr>"
    have s1: "fd_at (a\<lparr>fd_events := ?q\<rparr>) ?s" by (rule fd_at_fields(2) [OF s])
    let ?a1 = "fd_put 3 (clear_flag (fd_word a 3) 0) (fd_put 6 (set_flag (fd_word a 6) 0) (fd_put 4 (fd_word a 5) (a\<lparr>fd_events := ?q\<rparr>)))"
    have s2: "fd_at ?a1 (?regs ?s)" using fd_at_put [OF fd_at_put [OF fd_at_put [OF s1]]] by simp
    have regs: "reg_get r (t\<lparr>timers := x\<rparr>) = reg_get r t" for r x and t :: "'z demo_st_scheme" by (simp add: reg_get_def)
    have "timer_handleCompareMatch 0 ?s = ret () (?g s)"
      using assms(3-5)
      by (simp add: regs timer_handleCompareMatch_def timer_stop_def timer_running_def timer_compare_def Let_def fd_atD [OF s]
          timer_cancelScheduledEvent_def fw_timer_def sched_cancel_def ic_trigger_def ic_validId_def MAX_INTERRUPTS_def fw_ic_def upd_timer_def)
    moreover have "fd_at ((fd_put 8 (set_flag (fd_word a 8) 0) (?a1\<lparr>fd_events := ?q\<rparr>\<lparr>fd_timer := fw_timer 0 k\<rparr>))) (?g s)"
      by (rule fd_at_put [OF fd_at_timer [OF fd_at_fields(2) [OF s2]]]) (simp add: assms(3) fw_timer_def)
    ultimately show "sched_executeReadyEvents (run_callback u) (m_cycles (clock s)) s = ret 1 (?g s) \<and>
      fd_at (fd_put 8 (set_flag (fd_word a 8) 0) (fd_put 3 (clear_flag (fd_word a 3) 0) (fd_put 6 (set_flag (fd_word a 6) 0) (fd_put 4 (fd_word a 5)
        (a\<lparr>fd_events := ?q, fd_timer := fw_timer 0 k\<rparr>))))) (?g s)"
      using assms(1,2)
      by (simp add: sched_executeReadyEvents_def Let_def fd_atD [OF s] fw_event_def sort_events_def word_le_nat_alt run_callback_def)
  qed
qed

section \<open>The processor\<close>

definition fhosts :: "fdm \<times> 'w \<times> cpu \<times> power_state \<Rightarrow> ('w, 'z demo_st_scheme) computer \<Rightarrow> bool" where
  "fhosts = (\<lambda>(a, w, p, q) c. fd_at a (snd (world c)) \<and> fst (world c) = w \<and> cpu0 c = p \<and> powers c 0 = q)"

lemma f_machine:
  fixes f :: "'z demo_st_scheme \<Rightarrow> _"
  assumes "does f a v b"
  shows "runs (fhosts :: _ \<Rightarrow> ('w, 'z demo_st_scheme) computer \<Rightarrow> bool) (machine f) (a, w, p, q) (b, w, p, q)"
  unfolding runs_def
proof (intro allI impI)
  fix c :: "('w, 'z demo_st_scheme) computer" assume c: "fhosts (a, w, p, q) c"
  obtain s' where "f (snd (world c)) = ret v s'" "fd_at b s'" using doesD [OF assms] c by (auto simp: fhosts_def)
  then show "\<exists>s'. machine f c = Some (ret () s') \<and> fhosts (b, w, p, q) s'" using c by (auto simp: machine_def via_bus_def fhosts_def)
qed

lemma does_say: "does (say outs) a () (a\<lparr>fd_out := fd_out a @ outs\<rparr>)"
  by (rule doesI [where g = "\<lambda>s. s\<lparr>cout := puts outs (cout s)\<rparr>"]) (simp add: say_def fd_at_fields(5))

lemma f_print: "runs fhosts (print outs) (a, w, p, q) (a\<lparr>fd_out := fd_out a @ outs\<rparr>, w, p, q)"
  unfolding print_def by (rule f_machine [OF does_say])

lemma f_new_app: "runs fhosts (apps (plainly (\<lambda>(w, s). (f w, s)))) (a, w, p, q) (a, f w, p, q)"
  by (auto simp: runs_def fhosts_def apps_def plainly_def split: prod.splits)

lemma f_doing:
  assumes "\<And>c :: ('w, 'z demo_st_scheme) computer. fhosts (a, w, p, q) c \<Longrightarrow> \<exists>v c'. f c = ret v c' \<and> fhosts (b, w', p', q') c'"
  shows "runs fhosts (doing f) (a, w, p, q) (b, w', p', q')"
  using assms by (fastforce simp: runs_def doing_def)

definition adoes ::
  "('w \<times> 'z demo_st_scheme \<Rightarrow> (unit, 'w \<times> 'z demo_st_scheme) outcome) \<Rightarrow> fdm \<times> 'w \<Rightarrow> fdm \<times> 'w \<Rightarrow> bool" where
  "adoes f = (\<lambda>(a, w) (b, w'). \<forall>s. fd_at a s \<longrightarrow> (\<exists>s'. f (w, s) = ret () (w', s') \<and> fd_at b s'))"

lemma adoesD: "adoes f (a, w) (b, w') \<Longrightarrow> fd_at a s \<Longrightarrow> \<exists>s'. f (w, s) = ret () (w', s') \<and> fd_at b s'"
  by (simp add: adoes_def)

lemma f_via_fm:
  assumes "adoes (op i) (a, w) (b, w')" and "fm_activeFirmware (c_firmwareManager p) = Some i" and "fhosts (a, w, p, q) c"
  shows "\<exists>c'. via_fm (fm_call op) c = ret () c' \<and> fhosts (b, w', p, q) c'"
proof -
  obtain s' where "op i (w, snd (world c)) = ret () (w', s')" "fd_at b s'" using adoesD [OF assms(1)] assms(3) by (auto simp: fhosts_def)
  then show ?thesis using assms(2,3) by (cases "world c", cases p) (auto simp: via_fm_def fm_call_def upd_cpu_def fhosts_def)
qed

lemma closures_class: "fw_initialize (e_class firmware_closures) = app_initialize" "fw_update (e_class firmware_closures) = app_update"
  "fw_shutdown (e_class firmware_closures) = app_shutdown"
  by (simp_all add: firmware_closures_def app_class_def)

lemma fhosts_cpu: "fhosts (a, w, p, q) c \<Longrightarrow> fhosts (a, w, f p, q) (upd_cpu f c)"
  by (simp add: fhosts_def upd_cpu_def)

lemma f_start:
  assumes "adoes (app_initialize i :: app_world \<times> 'z demo_st_scheme \<Rightarrow> _) (a, w) (b, w')"
    and "\<not> c_running p" and "\<not> c_rtosScheduler p" and "fm_activeFirmware (c_firmwareManager p) = Some i"
  shows "runs (fhosts :: _ \<Rightarrow> (app_world, 'z demo_st_scheme) computer \<Rightarrow> bool) (doing (cpu_start firmware_closures)) (a, w, p, q)
    (b, w', p\<lparr>c_running := True\<rparr>, q)"
proof (rule f_doing)
  fix c :: "(app_world, 'z demo_st_scheme) computer" assume c: "fhosts (a, w, p, q) c"
  let ?p = "p\<lparr>c_running := True\<rparr>"
  have "fm_activeFirmware (c_firmwareManager ?p) = Some i" using assms(4) by simp
  from f_via_fm [where op = app_initialize and i = i, OF assms(1) this fhosts_cpu [where f = "\<lambda>p. p\<lparr>c_running := True\<rparr>", OF c]] obtain c' where
    "via_fm (fm_call app_initialize) (upd_cpu (\<lambda>p. p\<lparr>c_running := True\<rparr>) c) = ret () c'" "fhosts (b, w', ?p, q) c'" by blast
  then show "\<exists>v c'. cpu_start firmware_closures c = ret v c' \<and> fhosts (b, w', ?p, q) c'"
    using assms(2,3) c by (simp add: cpu_start_def fm_initialize_def closures_class fhosts_def Let_def)
qed

lemma f_stop:
  assumes "adoes (app_shutdown i :: app_world \<times> 'z demo_st_scheme \<Rightarrow> _) (a, w) (b, w')"
    and "c_running p" and "\<not> c_rtosScheduler p" and "fm_activeFirmware (c_firmwareManager p) = Some i"
  shows "runs (fhosts :: _ \<Rightarrow> (app_world, 'z demo_st_scheme) computer \<Rightarrow> bool) (doing (cpu_stop firmware_closures)) (a, w, p, q)
    (b, w', p\<lparr>c_running := False\<rparr>, q)"
proof (rule f_doing)
  fix c :: "(app_world, 'z demo_st_scheme) computer" assume c: "fhosts (a, w, p, q) c"
  let ?p = "p\<lparr>c_running := False\<rparr>"
  have "fm_activeFirmware (c_firmwareManager ?p) = Some i" using assms(4) by simp
  from f_via_fm [where op = app_shutdown and i = i, OF assms(1) this fhosts_cpu [where f = "\<lambda>p. p\<lparr>c_running := False\<rparr>", OF c]] obtain c' where
    "via_fm (fm_call app_shutdown) (upd_cpu (\<lambda>p. p\<lparr>c_running := False\<rparr>) c) = ret () c'" "fhosts (b, w', ?p, q) c'" by blast
  then show "\<exists>v c'. cpu_stop firmware_closures c = ret v c' \<and> fhosts (b, w', ?p, q) c'"
    using assms(2,3) c by (simp add: cpu_stop_def fm_shutdown_def closures_class fhosts_def Let_def)
qed

lemma f_step:
  assumes "does (fw_cycle :: 'z demo_st_scheme \<Rightarrow> _) a () b"
    and "adoes (app_update i :: app_world \<times> 'z demo_st_scheme \<Rightarrow> _) (b, w) (b', w')"
    and "c_systemBus p" and "c_running p" and "\<not> c_rtosScheduler p" and "c_powerController p = 0"
    and "fm_activeFirmware (c_firmwareManager p) = Some i"
  shows "runs (fhosts :: _ \<Rightarrow> (app_world, 'z demo_st_scheme) computer \<Rightarrow> bool) (cpu_step firmware_closures d) (a, w, p, ON)
    (b', w', p\<lparr>c_cycleCount := c_cycleCount p + 1\<rparr>, ON)"
  unfolding runs_def
proof (intro allI impI)
  fix c :: "(app_world, 'z demo_st_scheme) computer" assume c: "fhosts (a, w, p, ON) c"
  let ?p = "p\<lparr>c_cycleCount := c_cycleCount p + 1\<rparr>" and ?c = "upd_cpu (\<lambda>p. p\<lparr>c_cycleCount := c_cycleCount p + 1\<rparr>) c"
  have c1: "fhosts (a, w, ?p, ON) ?c" by (rule fhosts_cpu [OF c])
  obtain s' where s': "fw_cycle (snd (world ?c)) = ret () s'" "fd_at b s'" using doesD [OF assms(1)] c1 by (auto simp: fhosts_def)
  have v: "via_bus fw_cycle ?c = ret () (?c\<lparr>world := (w, s')\<rparr>)" using s'(1) c1 by (simp add: via_bus_def fhosts_def)
  have c2: "fhosts (b, w, ?p, ON) (?c\<lparr>world := (w, s')\<rparr>)" using c1 s'(2) by (simp add: fhosts_def)
  have "fm_activeFirmware (c_firmwareManager ?p) = Some i" using assms(7) by simp
  from f_via_fm [where op = app_update and i = i, OF assms(2) this c2] obtain c3 where
    c3: "via_fm (fm_call app_update) (?c\<lparr>world := (w, s')\<rparr>) = ret () c3" "fhosts (b', w', ?p, ON) c3" by blast
  have "cpu_step firmware_closures d c = Some (ret () c3)"
    using v c3(1) c assms(3-6)
    by (simp add: cpu_step_def cpu_isPowerOn_def power_isPowerOn_def Let_def fm_update_def closures_class fhosts_def) (simp add: upd_cpu_def)
  with c3(2) show "\<exists>s'. cpu_step firmware_closures d c = Some (ret () s') \<and> fhosts (b', w', ?p, ON) s'" by blast
qed

text \<open>The line of a cycle.\<close>

lemma f_report:
  assumes "t_countRegister (fd_timer a) = 4"
  shows "runs (fhosts :: _ \<Rightarrow> ('w, 'z demo_st_scheme) computer \<Rightarrow> bool) firmware_report_step (a, w, p, q)
    (a\<lparr>fd_out := fd_out a @ [Str ''  Cycle '', Num (unat (c_cycleCount p)),
      Str '' | GPIO Pin 2: '', Str (if test_flag (fd_word a 2) 2 then ''HIGH'' else ''LOW''),
      Str '' | Timer Count: '', Num (unat (fd_word a 4)), Str nl]\<rparr>, w, p, q)" (is "runs _ _ _ (?b, _)")
proof -
  have "firmware_report_step c = print [Str ''  Cycle '', Num (unat (c_cycleCount p)),
      Str '' | GPIO Pin 2: '', Str (if test_flag (fd_word a 2) 2 then ''HIGH'' else ''LOW''),
      Str '' | Timer Count: '', Num (unat (fd_word a 4)), Str nl] c"
    if c: "fhosts (a, w, p, q) c" for c :: "('w, 'z demo_st_scheme) computer"
  proof -
    have s: "fd_at a (snd (world c))" and p: "cpu0 c = p" using c by (simp_all add: fhosts_def)
    have "c\<lparr>world := (fst (world c), snd (world c))\<rparr> = c" by simp
    with s p show ?thesis
      using assms by (simp add: firmware_report_step_def via_bus_def gpio_readPin_def gpio_validatePin_def MAX_PINS_def
          fd_atD [OF s] firmware_report_def timer_counter_def)
  qed
  then show ?thesis by (rule runs_eq [OF f_print])
qed

section \<open>Setting up\<close>

definition plain_timer :: timer where
  "plain_timer = \<lparr>t_base = 0x40001000, t_ctrlRegister = 3, t_countRegister = 4, t_compareRegister = 5,
     t_statusRegister = 6, t_interruptController = False, t_interruptId = 0, t_clock = False, t_scheduler = False,
     t_scheduledEventId = 0, t_lastClockCycles = 0\<rparr>"

definition plain_ic :: ic_ctl where
  "plain_ic = \<lparr>ic_base = 0x40002000, ic_enableRegister = 7, ic_pendingRegister = 8, ic_priorityRegister = 9,
     ic_registered = replicate MAX_INTERRUPTS False, ic_priorities = replicate MAX_INTERRUPTS 128,
     ic_handlers = replicate MAX_INTERRUPTS None\<rparr>"

lemma does_ic:
  "fd_ic a = plain_ic \<Longrightarrow> does (ic_registerInterrupt 0) a True
    (a\<lparr>fd_ic := plain_ic\<lparr>ic_registered := (replicate MAX_INTERRUPTS False)[0 := True]\<rparr>\<rparr>)"
  "fd_ic a = plain_ic\<lparr>ic_registered := (replicate MAX_INTERRUPTS False)[0 := True]\<rparr> \<Longrightarrow>
    does (ic_enable 0) a () (fd_put 7 (set_flag (fd_word a 7) 0) a)"
  "fd_ic a = plain_ic\<lparr>ic_registered := (replicate MAX_INTERRUPTS False)[0 := True]\<rparr> \<Longrightarrow>
    does (ic_registerHandler 0 (Some 0)) a True (a\<lparr>fd_ic := fw_ic\<rparr>)"
proof -
  note d = plain_ic_def fw_ic_def ic_registerInterrupt_def ic_enable_def ic_registerHandler_def ic_validId_def MAX_INTERRUPTS_def Let_def
  show "fd_ic a = plain_ic \<Longrightarrow> does (ic_registerInterrupt 0) a True
      (a\<lparr>fd_ic := plain_ic\<lparr>ic_registered := (replicate MAX_INTERRUPTS False)[0 := True]\<rparr>\<rparr>)"
    by (rule doesI [where g = "\<lambda>s. s\<lparr>ic := plain_ic\<lparr>ic_registered := (replicate MAX_INTERRUPTS False)[0 := True]\<rparr>\<rparr>"])
      (use fd_at_fields(3) in \<open>simp add: d fd_atD\<close>)
  show "fd_ic a = plain_ic\<lparr>ic_registered := (replicate MAX_INTERRUPTS False)[0 := True]\<rparr> \<Longrightarrow>
      does (ic_enable 0) a () (fd_put 7 (set_flag (fd_word a 7) 0) a)"
    by (rule doesI [where g = "reg_put 7 (set_flag (fd_word a 7) 0)"]) (simp add: d fd_atD fd_at_put)
  show "fd_ic a = plain_ic\<lparr>ic_registered := (replicate MAX_INTERRUPTS False)[0 := True]\<rparr> \<Longrightarrow>
      does (ic_registerHandler 0 (Some 0)) a True (a\<lparr>fd_ic := fw_ic\<rparr>)"
    by (rule doesI [where g = "\<lambda>s. s\<lparr>ic := fw_ic\<rparr>"]) (use fd_at_fields(3) in \<open>simp add: d fd_atD\<close>)
qed

lemma does_timer:
  "fd_timer a = plain_timer \<Longrightarrow> does (plainly (timer_attachInterruptController 0 True 0)) a ()
    (a\<lparr>fd_timer := plain_timer\<lparr>t_interruptController := True\<rparr>\<rparr>)"
  "fd_timer a = plain_timer\<lparr>t_interruptController := True\<rparr> \<Longrightarrow> does (plainly (timer_setCompare 0 v)) a () (fd_put 5 v a)"
  "fd_timer a = plain_timer\<lparr>t_interruptController := True\<rparr> \<Longrightarrow>
    does (plainly (timer_start 0)) a () (fd_put 3 (set_flag (fd_word a 3) 0) a)"
proof -
  note d = plain_timer_def timer_setCompare_def timer_start_def timer_updateScheduledEvent_def timer_cancelScheduledEvent_def
    timer_syncClock_def plainly_def Let_def
  show "fd_timer a = plain_timer \<Longrightarrow> does (plainly (timer_attachInterruptController 0 True 0)) a ()
      (a\<lparr>fd_timer := plain_timer\<lparr>t_interruptController := True\<rparr>\<rparr>)"
    by (rule doesI [where g = "upd_timer 0 (\<lambda>t. t\<lparr>t_interruptController := True, t_interruptId := 0\<rparr>)"])
      (simp add: plainly_def timer_attachInterruptController_def fd_at_timer plain_timer_def)
  show "fd_timer a = plain_timer\<lparr>t_interruptController := True\<rparr> \<Longrightarrow> does (plainly (timer_setCompare 0 v)) a () (fd_put 5 v a)"
    by (rule doesI [where g = "reg_put 5 v"]) (simp add: d fd_atD fd_at_put)
  show "fd_timer a = plain_timer\<lparr>t_interruptController := True\<rparr> \<Longrightarrow>
      does (plainly (timer_start 0)) a () (fd_put 3 (set_flag (fd_word a 3) 0) a)"
    by (rule doesI [where g = "reg_put 3 (set_flag (fd_word a 3) 0)"]) (simp add: d fd_atD fd_at_put)
qed

lemma f_init: "runs fhosts (doing (plainly (cpu_initIrq True))) (a, w, p, q)
    (a\<lparr>fd_bus := fw_bus [], fd_clock := \<lparr>m_frequencyHz = DEFAULT_FREQUENCY_HZ, m_cycles = 0\<rparr>, fd_events := sched_init\<rparr>, w,
     blank_cpu\<lparr>c_ownedSystemBus := True\<rparr>, ON)"
  by (rule f_doing)
    (auto simp: plainly_def cpu_initIrq_def Let_def via_bus_def sb_init_def fhosts_def upd_cpu_def fd_at_def fw_bus_def reg_get_def)

lemma f_attach:
  assumes "fd_timer a = plain_timer\<lparr>t_interruptController := True\<rparr>" and "fd_word a 4 = 0" and "unat (fd_word a 5) > 0"
    and "test_flag (fd_word a 3) 0" and "fd_events a = sched_init" and "m_cycles (fd_clock a) = 0" and "fd_bus a = fw_bus []" and "c_systemBus p"
  shows "runs (fhosts :: _ \<Rightarrow> ('w, 'z demo_st_scheme) computer \<Rightarrow> bool) (doing (plainly (\<lambda>c. snd (cpu_attachTimer (Some 0) c)))) (a, w, p, q)
    (a\<lparr>fd_timer := fw_timer 1 0, fd_events := \<lparr>m_nextId = 2, m_events = [fw_event (ucast (fd_word a 5))]\<rparr>, fd_bus := fw_bus [0]\<rparr>, w, p, q)"
proof (rule f_doing)
  fix c :: "('w, 'z demo_st_scheme) computer" assume c: "fhosts (a, w, p, q) c"
  let ?s = "snd (world c)"
  have s: "fd_at a ?s" using c by (simp add: fhosts_def)
  have regs: "reg_get r (t\<lparr>timers := x\<rparr>) = reg_get r t" for r x and t :: "'z demo_st_scheme" by (simp add: reg_get_def)
  let ?q = "\<lparr>m_nextId = 2, m_events = [fw_event (ucast (fd_word a 5))]\<rparr>"
  have less: "\<not> fd_word a 5 \<le> 0" using assms(3) by (simp add: word_le_nat_alt)
  have 1: "timer_attachScheduler 0 True (timer_attachClock 0 True ?s) = upd_timer 0 (\<lambda>_. fw_timer 1 0) (?s\<lparr>esched := ?q\<rparr>)"
    using assms less
    by (simp add: timer_attachScheduler_def timer_attachClock_def timer_syncClock_def timer_updateScheduledEvent_def
        timer_cancelScheduledEvent_def timer_running_def timer_counter_def timer_compare_def regs Let_def fd_atD [OF s] upd_timer_def plain_timer_def
        sched_schedule_def sched_init_def fw_timer_def fw_event_def)
  have "snd (sb_attachTimer (Some 0) ?s) = upd_sb (\<lambda>b. b\<lparr>sb_timers := sb_timers b @ [0]\<rparr>) (upd_timer 0 (\<lambda>_. fw_timer 1 0) (?s\<lparr>esched := ?q\<rparr>))"
    using assms(7) by (simp add: sb_attachTimer_def 1 fd_atD [OF s] fw_bus_def Let_def)
  moreover have "fd_at (a\<lparr>fd_timer := fw_timer 1 0, fd_events := ?q, fd_bus := fw_bus [0]\<rparr>)
      (upd_sb (\<lambda>b. b\<lparr>sb_timers := sb_timers b @ [0]\<rparr>) (upd_timer 0 (\<lambda>_. fw_timer 1 0) (?s\<lparr>esched := ?q\<rparr>)))"
    using s assms(7) by (auto simp: fd_at_def upd_sb_def upd_timer_def fw_bus_def reg_get_def)
  ultimately show "\<exists>v c'. plainly (\<lambda>c. snd (cpu_attachTimer (Some 0) c)) c = ret v c' \<and>
      fhosts (a\<lparr>fd_timer := fw_timer 1 0, fd_events := ?q, fd_bus := fw_bus [0]\<rparr>, w, p, q) c'"
    using c assms(8) by (auto simp: plainly_def cpu_attachTimer_def on_bus_def fhosts_def split: prod.splits)
qed

lemma f_load:
  assumes "\<not> c_running p" and "c_firmwareManager p = fm_init" and "n \<noteq> []"
  shows "runs (fhosts :: _ \<Rightarrow> ('w, 'z demo_st_scheme) computer \<Rightarrow> bool) (doing (cpu_loadFirmware e (Some i) n)) (a, w, p, q)
    (a, w, p\<lparr>c_firmwareManager := \<lparr>fm_registry = [(n, i)], fm_activeName = n\<rparr>\<rparr>, q)"
proof (rule f_doing)
  fix c :: "('w, 'z demo_st_scheme) computer" assume c: "fhosts (a, w, p, q) c"
  have reg: "snd (fm_registerFirmware n (Some i) fm_init) = \<lparr>fm_registry = [(n, i)], fm_activeName = n\<rparr>"
    using assms(3) by (simp add: fm_registerFirmware_def fm_init_def)
  show "\<exists>v c'. cpu_loadFirmware e (Some i) n c = ret v c' \<and>
      fhosts (a, w, p\<lparr>c_firmwareManager := \<lparr>fm_registry = [(n, i)], fm_activeName = n\<rparr>\<rparr>, q) c'"
    using c assms by (auto simp: cpu_loadFirmware_def Let_def via_fm_def fm_setActiveFirmware_def upd_cpu_def fhosts_def reg)
qed

section \<open>The basic firmware\<close>

lemma f_ready:
  fixes s :: "'z demo_st_scheme"
  assumes "unat p < 32" and "fd_at a s"
  shows "\<exists>s' s''. gpio_hal_configureOutput True p s = ret () s' \<and> gpio_hal_write True p False s' = ret () s'' \<and>
    fd_at (fd_drive False (unat p) (fd_put 0 (set_flag (fd_word a 0) (unat p)) a)) s''"
proof -
  let ?b = "fd_put 0 (set_flag (fd_word a 0) (unat p)) a"
  obtain s' where s': "gpio_hal_configureOutput True p s = ret () s'" "fd_at ?b s'"
    using doesD [OF does_configure [OF assms(1)] assms(2)] by blast
  have "test_flag (fd_word ?b 0) (unat p)" using assms(1) by (simp add: flag_simps)
  from doesD [OF does_write [OF assms(1) this, of False] s'(2)] s' show ?thesis by blast
qed

lemma adoes_basic:
  assumes "bf_gpioHAL f" and "unat (bf_pin f) < 32" and "aw_apps w i = Basic f"
  shows "adoes (app_initialize i) (a, w) (fd_drive False (unat (bf_pin f)) (fd_put 0 (set_flag (fd_word a 0) (unat (bf_pin f))) a),
      put_app i (Basic (f\<lparr>bf_initialized := True, bf_shutdown := False, bf_cycleCounter := 0, bf_executionCount := 0\<rparr>)) w)"
  using f_ready [OF assms(2), of a] assms(1,3)
  by (fastforce simp: adoes_def app_initialize_def basic_initialize_def via_app_def hal_call_def Let_def)

lemma adoes_basic_on:
  assumes "bf_gpioHAL f" and "unat (bf_pin f) < 32" and "bf_initialized f" and "\<not> bf_shutdown f"
    and "test_flag (fd_word a 0) (unat (bf_pin f))"
  shows "unat (bf_cycleCounter f + 1) < unat (bf_toggleInterval f) \<Longrightarrow> aw_apps w i = Basic f \<Longrightarrow> adoes (app_update i) (a, w)
      (a, put_app i (Basic (f\<lparr>bf_executionCount := bf_executionCount f + 1, bf_cycleCounter := bf_cycleCounter f + 1\<rparr>)) w)"
    and "unat (bf_toggleInterval f) \<le> unat (bf_cycleCounter f + 1) \<Longrightarrow> aw_apps w i = Basic f \<Longrightarrow> adoes (app_update i) (a, w)
      (fd_drive (\<not> test_flag (fd_word a 2) (unat (bf_pin f))) (unat (bf_pin f)) a,
       put_app i (Basic (f\<lparr>bf_executionCount := bf_executionCount f + 1, bf_cycleCounter := 0\<rparr>)) w)"
    and "aw_apps w i = Basic f \<Longrightarrow> adoes (app_shutdown i) (a, w) (fd_drive False (unat (bf_pin f)) a, put_app i (Basic (f\<lparr>bf_shutdown := True\<rparr>)) w)"
  using doesD [OF does_toggle [OF assms(2,5)]] doesD [OF does_write [OF assms(2,5), of False]] assms(1,3,4)
  by (fastforce simp: adoes_def app_update_def app_shutdown_def basic_update_def basic_shutdown_def via_app_def hal_call_def Let_def word_le_nat_alt)+

section \<open>The transcript\<close>

text \<open>The three cycles, on the fields of the machine.\<close>

lemma fw_wait:
  assumes "fd_bus a = fw_bus [0]" and "fd_timer a = fw_timer 1 (m_cycles (fd_clock a))" and "test_flag (fd_word a 3) 0"
    and "unat (m_cycles (fd_clock a)) < 1000" and "unat (m_cycles (clock_tick 1 (fd_clock a))) < unat e"
    and "fd_ic a = fw_ic" and "fd_word a 8 = 0" and "m_events (fd_events a) = [fw_event e]"
  shows "does fw_cycle a () (fd_put 4 (fd_word a 4 + 1) (fd_tick a))"
proof (rule does_cycle [OF does_tick [OF assms(1-4)]])
  let ?b = "fd_put 4 (fd_word a 4 + 1) (fd_tick a)"
  show "does (\<lambda>s. sched_executeReadyEvents (run_callback (e_callback firmware_closures)) (m_cycles (clock s)) s) ?b 0 ?b"
    by (rule does_wait [where c = e]) (simp add: fd_tick_def assms)
  show "does (ic_dispatch (e_handler firmware_closures)) ?b False ?b"
    by (rule doesI [where g = "\<lambda>s. s"]) (simp add: fw_dispatch_none assms fd_tick_def)
qed (simp_all add: fd_tick_def assms)

lemma fw_idle:
  assumes "fd_bus a = fw_bus [0]" and "\<not> test_flag (fd_word a 3) 0" and "fd_ic a = fw_ic" and "fd_word a 8 = 0"
    and "m_events (fd_events a) = []" and "fd_timer a = fw_timer 0 k"
  shows "does fw_cycle a () (fd_tick a)"
proof (rule does_cycle [OF does_tick_idle [OF assms(1,6,2)]])
  show "does (\<lambda>s. sched_executeReadyEvents (run_callback (e_callback firmware_closures)) (m_cycles (clock s)) s) (fd_tick a) 0 (fd_tick a)"
    by (rule does_wait) (simp add: fd_tick_def assms)
  show "does (ic_dispatch (e_handler firmware_closures)) (fd_tick a) False (fd_tick a)"
    by (rule doesI [where g = "\<lambda>s. s"]) (simp add: fw_dispatch_none assms fd_tick_def)
qed (simp_all add: fd_tick_def assms)

lemma fw_match:
  assumes "fd_bus a = fw_bus [0]" and "fd_timer a = fw_timer 1 (m_cycles (fd_clock a))" and "test_flag (fd_word a 3) 0"
    and "unat (m_cycles (fd_clock a)) < 1000" and "unat e \<le> unat (m_cycles (clock_tick 1 (fd_clock a)))"
    and "fd_ic a = fw_ic" and "fd_word a 8 = 0" and "test_flag (fd_word a 7) 0" and "m_events (fd_events a) = [fw_event e]"
  shows "does fw_cycle a ()
    (a\<lparr>fd_word := (fd_word a)(4 := fd_word a 5, 6 := set_flag (fd_word a 6) 0, 3 := clear_flag (fd_word a 3) 0, 8 := 0),
       fd_clock := clock_tick 1 (fd_clock a), fd_timer := fw_timer 0 (m_cycles (clock_tick 1 (fd_clock a))),
       fd_events := (fd_events a)\<lparr>m_events := []\<rparr>,
       fd_out := fd_out a @ [line ''  [ISR] Timer interrupt match handler executed!'']\<rparr>)" (is "does _ _ _ ?d")
proof -
  let ?b = "fd_put 4 (fd_word a 4 + 1) (fd_tick a)" and ?k = "m_cycles (clock_tick 1 (fd_clock a))"
  let ?c = "fd_put 8 (set_flag (fd_word ?b 8) 0) (fd_put 3 (clear_flag (fd_word ?b 3) 0) (fd_put 6 (set_flag (fd_word ?b 6) 0)
    (fd_put 4 (fd_word ?b 5) (?b\<lparr>fd_events := (fd_events ?b)\<lparr>m_events := []\<rparr>, fd_timer := fw_timer 0 ?k\<rparr>))))"
  have "does fw_cycle a () ((fd_put 8 (clear_flag (fd_word ?c 8) 0) ?c)\<lparr>fd_out := fd_out ?c @ [line ''  [ISR] Timer interrupt match handler executed!'']\<rparr>)"
  proof (rule does_cycle [OF does_tick [OF assms(1-4)]])
    show "does (\<lambda>s. sched_executeReadyEvents (run_callback (e_callback firmware_closures)) (m_cycles (clock s)) s) ?b 1 ?c"
      by (rule does_match [where c = e]) (simp_all add: fd_tick_def assms fw_timer_def)
    show "does (ic_dispatch (e_handler firmware_closures)) ?c True
        ((fd_put 8 (clear_flag (fd_word ?c 8) 0) ?c)\<lparr>fd_out := fd_out ?c @ [line ''  [ISR] Timer interrupt match handler executed!'']\<rparr>)"
      by (rule fw_dispatch_isr) (simp_all add: fd_tick_def assms flag_simps)
  qed (simp_all add: fd_tick_def assms)
  moreover have "(fd_put 8 (clear_flag (fd_word ?c 8) 0) ?c)\<lparr>fd_out := fd_out ?c @ [line ''  [ISR] Timer interrupt match handler executed!'']\<rparr> = ?d"
    using assms(7) by (simp add: fd_tick_def clear_set_flag)
  ultimately show ?thesis by simp
qed

lemma fw_built:
  fixes c0 :: "('w, 'z demo_st_scheme) computer"
  shows "\<exists>c. main_of [print outs, machine new_mmio, machine (new_gpio 0x40000000), machine (new_timer 0 0x40001000),
      machine (new_ic 0x40002000)] c0 = Some (ret () c) \<and>
    fhosts (\<lparr>fd_word = \<lambda>_. 0, fd_timer = plain_timer, fd_ic = plain_ic, fd_bus = sb (snd (world c0)), fd_clock = clock (snd (world c0)),
      fd_events = esched (snd (world c0)), fd_out = outs\<rparr>, fst (world c0), cpu0 c0, powers c0 0) c"
proof -
  obtain w s0 where ws: "world c0 = (w, s0)" by (cases "world c0")
  let ?s1 = "s0\<lparr>cout := puts outs std_cout, next_ref := 0, m_registers := []\<rparr>"
  let ?p1 = "placed [(0x40000000, 0), (0x40000000 + 4, 0), (0x40000000 + 8, 0)] ?s1"
  let ?s2 = "?p1\<lparr>gpio0 := \<lparr>g_base = 0x40000000, g_dirRegister = 0, g_outRegister = 1, g_inRegister = 2\<rparr>\<rparr>"
  let ?p2 = "placed [(0x40001000, 0), (0x40001000 + 4, 0), (0x40001000 + 8, 0), (0x40001000 + 12, 0)] ?s2"
  let ?s3 = "upd_timer 0 (\<lambda>_. plain_timer) ?p2"
  let ?p3 = "placed [(0x40002000, 0), (0x40002000 + 4, 0), (0x40002000 + 8, 0)] ?s3"
  let ?s = "?p3\<lparr>ic := plain_ic\<rparr>"
  have f1: "fresh_at [0x40000000, 0x40000000 + 4, 0x40000000 + 8] ?s1" by (simp add: fresh_at_def)
  have g: "new_gpio 0x40000000 ?s1 = ret () ?s2" by (simp add: new_gpio_def gpio_init_builds [OF f1])
  have f2: "fresh_at [0x40001000, 0x40001000 + 4, 0x40001000 + 8, 0x40001000 + 12] ?s2" by (simp add: fresh_at_def)
  have "timer_init 0x40001000 ?s2 = ret plain_timer ?p2" using timer_init_builds [OF f2] by (simp add: plain_timer_def)
  then have t: "new_timer 0 0x40001000 ?s2 = ret () ?s3" unfolding new_timer_def by (simp only: and_then_simps)
  have f3: "fresh_at [0x40002000, 0x40002000 + 4, 0x40002000 + 8] ?s3" by (simp add: fresh_at_def upd_timer_def)
  have "ic_init 0x40002000 ?s3 = ret plain_ic ?p3" using ic_init_builds [OF f3] by (simp add: plain_ic_def upd_timer_def)
  then have i: "new_ic 0x40002000 ?s3 = ret () ?s" unfolding new_ic_def by (simp only: and_then_simps)
  have "main_of [print outs, machine new_mmio, machine (new_gpio 0x40000000), machine (new_timer 0 0x40001000),
      machine (new_ic 0x40002000)] c0 = Some (ret () (c0\<lparr>world := (w, ?s)\<rparr>))"
    using g t i by (simp add: main_of_def print_def machine_def say_def via_bus_def new_mmio_def ws)
  moreover have "reg_get r ?s = 0" if "r < 10" for r
  proof -
    have "r \<in> {0, 1, 2, 3, 4, 5, 6, 7, 8, 9}" using that by (simp only: insert_iff empty_iff) arith
    then show ?thesis by (elim insertE emptyE) (simp_all add: reg_get_def upd_timer_def register_init_def eval_nat_numeral)
  qed
  then have "fd_at \<lparr>fd_word = \<lambda>_. 0, fd_timer = plain_timer, fd_ic = plain_ic, fd_bus = sb s0, fd_clock = clock s0,
      fd_events = esched s0, fd_out = outs\<rparr> ?s"
    by (simp add: fd_at_def upd_timer_def)
  ultimately show ?thesis by (auto simp: fhosts_def ws)
qed

definition firmware_demo_text :: string where
  "firmware_demo_text =
     ''Starting Embedded Firmware Simulator Demo...'' @ nl @
     ''Running 10 simulation cycles...'' @ nl @
     ''  Cycle 1 | GPIO Pin 2: LOW | Timer Count: 1'' @ nl @
     ''  Cycle 2 | GPIO Pin 2: HIGH | Timer Count: 2'' @ nl @
     ''  Cycle 3 | GPIO Pin 2: HIGH | Timer Count: 3'' @ nl @
     ''  Cycle 4 | GPIO Pin 2: LOW | Timer Count: 4'' @ nl @
     ''  [ISR] Timer interrupt match handler executed!'' @ nl @
     ''  Cycle 5 | GPIO Pin 2: LOW | Timer Count: 5'' @ nl @
     ''  Cycle 6 | GPIO Pin 2: HIGH | Timer Count: 5'' @ nl @
     ''  Cycle 7 | GPIO Pin 2: HIGH | Timer Count: 5'' @ nl @
     ''  Cycle 8 | GPIO Pin 2: LOW | Timer Count: 5'' @ nl @
     ''  Cycle 9 | GPIO Pin 2: LOW | Timer Count: 5'' @ nl @
     ''  Cycle 10 | GPIO Pin 2: HIGH | Timer Count: 5'' @ nl @
     ''Simulation Demo finished successfully.'' @ nl"

lemmas firmware_rules =
  f_report f_print f_machine [OF does_ic(1)] f_machine [OF does_ic(2)] f_machine [OF does_ic(3)] f_machine [OF does_timer(1)]
  f_machine [OF does_timer(2)] f_machine [OF does_timer(3)] f_init f_attach f_new_app f_load f_start [OF adoes_basic] f_stop [OF adoes_basic_on(3)]
  f_step [OF fw_wait adoes_basic_on(1)] f_step [OF fw_wait adoes_basic_on(2)] f_step [OF fw_match adoes_basic_on(1)]
  f_step [OF fw_match adoes_basic_on(2)] f_step [OF fw_idle adoes_basic_on(1)] f_step [OF fw_idle adoes_basic_on(2)]

lemmas firmware_state = put_app_def basic_init_def blank_cpu_def sched_init_def fd_tick_def fw_timer_def clock_tick_def

lemma firmware_executes:
  fixes c0 :: "('w, 'z demo_st_scheme) computer"
  assumes "runs (fhosts :: _ \<Rightarrow> ('w, 'z demo_st_scheme) computer \<Rightarrow> bool) (steps rest)
      (\<lparr>fd_word = \<lambda>_. 0, fd_timer = plain_timer, fd_ic = plain_ic, fd_bus = sb (snd (world c0)), fd_clock = clock (snd (world c0)),
        fd_events = esched (snd (world c0)), fd_out = outs\<rparr>, fst (world c0), cpu0 c0, powers c0 0) (a, w, p, q)"
    and "os_text (puts (fd_out a) std_cout) = t"
  shows "\<exists>c. main_of (print outs # machine new_mmio # machine (new_gpio 0x40000000) # machine (new_timer 0 0x40001000) #
      machine (new_ic 0x40002000) # rest) c0 = Some (ret () c) \<and> os_text (cout (snd (world c))) = t"
proof -
  have "os_text (cout (snd (world c))) = t" if "fhosts (a, w, p, q) c" for c :: "('w, 'z demo_st_scheme) computer"
    using that assms(2) by (simp add: fhosts_def fd_at_def)
  from main_of_executes [OF fw_built assms(1), of "\<lambda>c. os_text (cout (snd (world c))) = t", OF this] show ?thesis by simp
qed

text \<open>
  C20. From every machine the first demonstration returns, at every depth of the task scheduler, and prints exactly this
  text: the timer counts the cycles and stops at its compare value, its match is an event whose interrupt is handled in
  the cycle it is due, before the line of that cycle, and the firmware toggles its pin every second cycle.
\<close>

theorem firmware_demo_transcript:
  "\<exists>c. firmware_demo d c0 = Some (ret () c) \<and> os_text (cout (snd (world c))) = firmware_demo_text"
  by (simp add: firmware_demo_def eval_nat_numeral, rule firmware_executes,
      ((rule runs_step, (rule firmware_rules; simp add: flag_simps fm_activeFirmware_def firmware_state),
         simp add: firmware_state)+)[1], rule runs_nil)
    (simp add: render firmware_demo_text_def flag_simps)

end
