(* ===== verification/Example_Dma.thy ===== *)
theory Example_Dma
  imports Example_Kit
begin

text \<open>
  The program of \<^verbatim>\<open>examples/dma_demo.cpp\<close>: a processor that runs while a DMA controller copies a text in memory, and
  one to the UART, each with an interrupt at its end.
\<close>

section \<open>The program\<close>

text \<open>The variable of the program that its handler sets.\<close>

record dma_demo_st = demo_st +
  interruptFired :: bool

definition dma_isr :: "'z dma_demo_st_scheme \<Rightarrow> (unit, 'z dma_demo_st_scheme) outcome" where
  "dma_isr s = say [Str ''  [ISR] DMA Completion Interrupt (ID '', Num 5, Str ('') fired!'' @ nl)] (s\<lparr>interruptFired := True\<rparr>)"

definition dma_closures :: "(app_world, 'z dma_demo_st_scheme) environment" where
  "dma_closures = no_closures\<lparr>e_handler := \<lambda>_. dma_isr\<rparr>"

definition mem_write :: "address \<Rightarrow> u8 \<Rightarrow> 'z dma_st_scheme \<Rightarrow> (unit, 'z dma_st_scheme) outcome" where
  "mem_write a v s = (case memory_write a v (mem0 s) of (r, m) \<Rightarrow> (r, s\<lparr>mem0 := m\<rparr>))"

definition mem_read :: "address \<Rightarrow> 'z dma_st_scheme \<Rightarrow> (u8, 'z dma_st_scheme) outcome" where
  "mem_read a s = (case memory_read a (mem0 s) of (r, m) \<Rightarrow> (r, s\<lparr>mem0 := m\<rparr>))"

text \<open>The loops that fill a buffer and read one, over the indices of the text.\<close>

definition dma_demo_fill :: "address \<Rightarrow> string \<Rightarrow> 'z dma_st_scheme \<Rightarrow> (unit, 'z dma_st_scheme) outcome" where
  "dma_demo_fill base text = for_each (\<lambda>(i, ch). mem_write (base + of_nat i) (byte ch)) (enumerate 0 text)"

fun dma_demo_read :: "address \<Rightarrow> nat list \<Rightarrow> string \<Rightarrow> 'z dma_st_scheme \<Rightarrow> (string, 'z dma_st_scheme) outcome" where
  "dma_demo_read base [] buf s = ret buf s"
| "dma_demo_read base (i # is) buf s =
     and_then (mem_read (base + of_nat i) s) (\<lambda>b. dma_demo_read base is (buf @ [char_of_byte b]))"

text \<open>The loop that prints the transmit queue; every round takes a byte from it.\<close>

function dma_demo_drain :: "'z demo_st_scheme \<Rightarrow> (unit, 'z demo_st_scheme) outcome" where
  "dma_demo_drain s =
     (if uart_txFifoSize (uart0 s) > 0
      then case via_uart uart_popTxByte s of
        (Inl e, s) \<Rightarrow> throw e s
      | (Inr b, s) \<Rightarrow> dma_demo_drain (snd (say [Str [char_of_byte b]] s))
      else ret () s)"
  by pat_completeness auto
termination
  by (relation "measure (\<lambda>s. length (u_txFifo (uart0 s)))")
    (auto simp: via_uart_def uart_popTxByte_def Let_def say_def split: list.splits prod.splits dest!: sym [of _ "(Inr _, _)"])

declare dma_demo_drain.simps [simp del]

definition testData :: string where
  "testData = ''DMA Memory Copy Test Payload!''"

definition uartMsg :: string where
  "uartMsg = ''Hello via DMA to UART!''"

definition dquoted :: "string \<Rightarrow> string" where
  "dquoted s = [CHR 0x22] @ s @ [CHR 0x22]"

definition yes_no_line :: "string \<Rightarrow> bool \<Rightarrow> out list" where
  "yes_no_line s b = [Str s, Str (if b then ''Yes'' else ''No''), Str nl]"

definition configure_dma :: "address \<Rightarrow> address \<Rightarrow> nat \<Rightarrow> 'z bus_st_scheme \<Rightarrow> (unit, 'z bus_st_scheme) outcome" where
  "configure_dma src dst n = plainly (\<lambda>s. upd_dma 0 (\<lambda>d. snd (dma_configure src dst (of_nat n) d s)) s)"

definition dma_demo ::
  "nat \<Rightarrow> (app_world, 'z dma_demo_st_scheme) computer \<Rightarrow> (unit, (app_world, 'z dma_demo_st_scheme) computer) outcome option" where
  "dma_demo d = main_of
     [print [line ''Starting Direct Memory Access (DMA) Controller Demo...''],
      machine (new_memory 2048),
      machine new_mmio,
      machine (new_uart 0x40003000 DEFAULT_BAUD_RATE),
      machine (via_uart (plainly uart_enable)),
      machine (new_ic 0x40002000),
      machine (ic_registerInterrupt 5),
      machine (ic_enable 5),
      machine (plainly (\<lambda>s. s\<lparr>interruptFired := False\<rparr>)),
      machine (ic_registerHandler 5 (Some 0)),
      machine (plainly (sb_init True True True)),
      machine (plainly (sb_attachUART True)),
      machine (plainly (upd_dma 0 (\<lambda>_. dma_init True True True False))),
      machine (plainly (upd_dma 0 (dma_attachInterruptController True 5))),
      machine (plainly (\<lambda>s. snd (sb_attachDMA (Some 0) s))),
      doing (plainly (cpu_init True)),
      print [line (nl @ ''--- Demo 1: Memory-to-Memory DMA Copy ---'')],
      machine (dma_demo_fill 0x0100 testData),
      print [Str ''Configuring DMA: Source=0x'', Hex, Num 0x0100, Str '', Dest=0x'', Num 0x0200, Str '', Length='', Dec,
        Num (length testData), Str ('' bytes'' @ nl)],
      machine (configure_dma 0x0100 0x0200 (length testData)),
      machine (via_dma 0 dma_start),
      print [line ''Running CPU simulation cycles for DMA transfer...''],
      cpu_run dma_closures d (of_nat (length testData)),
      print_of (\<lambda>c. yes_no_line ''Transfer Busy? '' (d_busy (dmas (snd (world c)) 0))),
      print_of (\<lambda>c. yes_no_line ''Transfer Completed? '' (d_completed (dmas (snd (world c)) 0))),
      machine (say_result (dma_demo_read 0x0200 [0..<length testData] [])
        (\<lambda>resultBuf. [Str ''Copied Memory Content: '', Str (dquoted resultBuf), Str nl])),
      print [line (nl @ ''--- Demo 2: Memory-to-MMIO (UART TX) DMA Transfer ---'')],
      machine (dma_demo_fill 0x0300 uartMsg),
      machine (configure_dma 0x0300 0x40003000 (length uartMsg)),
      machine (via_dma 0 dma_start),
      print [line ''Running CPU cycles to stream data to UART TX register via DMA...''],
      cpu_run dma_closures d (of_nat (length uartMsg)),
      print_of (\<lambda>c. [Str ''UART TX FIFO Size: '', Num (uart_txFifoSize (uart0 (snd (world c)))), Str ('' bytes'' @ nl)]),
      print [Str (''UART Streamed Message: '' @ [CHR 0x22])],
      machine dma_demo_drain,
      print [line [CHR 0x22]],
      print_of (\<lambda>c. yes_no_line ''Interrupt Fired? '' (interruptFired (snd (world c)))),
      print [line (nl @ ''Direct Memory Access (DMA) Controller Demo completed successfully.'')]]"

section \<open>The machine of the program\<close>

record ddm =
  dd_mem :: "nat \<Rightarrow> u8"
  dd_tx :: "u8 list"
  dd_dma :: dma
  dd_pend :: u32
  dd_sched :: "callback event_queue"
  dd_fired :: bool
  dd_out :: "out list"

definition dma_ic :: ic_ctl where
  "dma_ic = \<lparr>ic_base = 0x40002000, ic_enableRegister = 4, ic_pendingRegister = 5, ic_priorityRegister = 6,
     ic_registered = (replicate MAX_INTERRUPTS False)[5 := True], ic_priorities = replicate MAX_INTERRUPTS 128,
     ic_handlers = (replicate MAX_INTERRUPTS None)[5 := Some 0]\<rparr>"

definition dma_bus :: system_bus where
  "dma_bus = \<lparr>sb_memory = True, sb_mmioBus = True, sb_interruptController = True, sb_dmas = [0], sb_timers = [],
     sb_gpio = False, sb_uart = True, sb_spi = False, sb_i2c = False, sb_pwm = False, sb_adc = False\<rparr>"

definition dd_at :: "ddm \<Rightarrow> 'z dma_demo_st_scheme \<Rightarrow> bool" where
  "dd_at a s \<longleftrightarrow>
     uart0 s = \<lparr>u_base = 0x40003000, u_dataRegister = 0, u_statusRegister = 1, u_controlRegister = 2, u_baudRegister = 3,
       u_txFifo = dd_tx a, u_rxFifo = []\<rparr> \<and>
     test_flag (reg_get 2 s) 0 \<and> reg_get 4 s = set_flag 0 5 \<and> reg_get 5 s = dd_pend a \<and> ic s = dma_ic \<and> sb s = dma_bus \<and>
     dmas s 0 = dd_dma a \<and> length (m_storage (mem0 s)) = 2048 \<and> (\<forall>i<2048. m_storage (mem0 s) ! i = dd_mem a i) \<and>
     (\<forall>x. unat x < 2048 \<longrightarrow> \<not> mmio_contains x s) \<and>
     esched s = dd_sched a \<and> interruptFired s = dd_fired a \<and> cout s = puts (dd_out a) std_cout"

lemma dd_atD:
  assumes "dd_at a s"
  shows "uart0 s = \<lparr>u_base = 0x40003000, u_dataRegister = 0, u_statusRegister = 1, u_controlRegister = 2, u_baudRegister = 3,
      u_txFifo = dd_tx a, u_rxFifo = []\<rparr>"
    "test_flag (reg_get 2 s) 0" "reg_get 4 s = set_flag 0 5" "reg_get 5 s = dd_pend a" "ic s = dma_ic" "sb s = dma_bus"
    "dmas s 0 = dd_dma a" "length (m_storage (mem0 s)) = 2048" "i < 2048 \<Longrightarrow> m_storage (mem0 s) ! i = dd_mem a i"
    "unat x < 2048 \<Longrightarrow> \<not> mmio_contains x s" "esched s = dd_sched a" "interruptFired s = dd_fired a" "cout s = puts (dd_out a) std_cout"
  using assms by (auto simp: dd_at_def)

lemma contains_fields [simp]:
  "mmio_contains x (s\<lparr>mem0 := m\<rparr>) = mmio_contains x s" "mmio_contains x (s\<lparr>esched := q\<rparr>) = mmio_contains x s"
  "mmio_contains x (t\<lparr>dmas := ds\<rparr>) = mmio_contains x t" "mmio_contains x (t\<lparr>clock := k\<rparr>) = mmio_contains x t"
  "mmio_contains x (u\<lparr>cout := os\<rparr>) = mmio_contains x u" "mmio_contains x (v\<lparr>interruptFired := b\<rparr>) = mmio_contains x v"
  "mmio_contains x (t\<lparr>uart0 := ua\<rparr>) = mmio_contains x t" "mmio_contains x (reg_put r w t) = mmio_contains x t"
  by (simp_all add: mmio_contains_def reg_put_def)

lemma get_fields [simp]:
  "reg_get r (s\<lparr>mem0 := m\<rparr>) = reg_get r s" "reg_get r (t\<lparr>dmas := ds\<rparr>) = reg_get r t" "reg_get r (v\<lparr>interruptFired := b\<rparr>) = reg_get r v"
  "reg_get r (t\<lparr>uart0 := ua\<rparr>) = reg_get r t" "reg_get r (t\<lparr>ic := c\<rparr>) = reg_get r t" "reg_get r (t\<lparr>sb := sbv\<rparr>) = reg_get r t"
  by (simp_all add: reg_get_def)

lemma fired_frame [simp]: "interruptFired (reg_put r w s) = interruptFired s" "m_registers (reg_put r w t) = m_registers t" "dmas (reg_put r w u) = dmas u"
  by (simp_all add: reg_put_def)

lemma dd_at_fields:
  assumes "dd_at a s"
  shows "dd_at (a\<lparr>dd_dma := d\<rparr>) (s\<lparr>dmas := (dmas s)(0 := d)\<rparr>)" "dd_at a (s\<lparr>clock := k\<rparr>)" "dd_at (a\<lparr>dd_sched := q\<rparr>) (s\<lparr>esched := q\<rparr>)"
    "dd_at (a\<lparr>dd_out := dd_out a @ xs\<rparr>) (s\<lparr>cout := puts xs (cout s)\<rparr>)" "dd_at (a\<lparr>dd_fired := b\<rparr>) (s\<lparr>interruptFired := b\<rparr>)"
    "dd_at (a\<lparr>dd_pend := w\<rparr>) (reg_put 5 w s)"
  using assms by (auto simp: dd_at_def puts_append)

lemma dd_at_store:
  "dd_at a s \<Longrightarrow> i < 2048 \<Longrightarrow> dd_at (a\<lparr>dd_mem := (dd_mem a)(i := v)\<rparr>) (s\<lparr>mem0 := (mem0 s)\<lparr>m_storage := (m_storage (mem0 s))[i := v]\<rparr>\<rparr>)"
  by (auto simp: dd_at_def nth_list_update)

lemma dd_at_send:
  assumes "dd_at a s"
  shows "\<exists>s'. via_uart (uart_writeByte b) s = ret () s' \<and> dd_at (a\<lparr>dd_tx := dd_tx a @ [b]\<rparr>) s'"
  using assms
  by (simp add: via_uart_def uart_writeByte_def uart_enabled_def Let_def uart_updateStatusRegister_def dd_atD) (auto simp: dd_at_def)

lemma dd_at_pop:
  assumes "dd_at a s" and "dd_tx a = b # bs"
  shows "\<exists>s'. via_uart uart_popTxByte s = ret b s' \<and> dd_at (a\<lparr>dd_tx := bs\<rparr>) s'"
  using assms
  by (simp add: via_uart_def uart_popTxByte_def Let_def uart_updateStatusRegister_def dd_atD) (auto simp: dd_at_def)

definition d_does :: "('z dma_demo_st_scheme \<Rightarrow> ('v, 'z dma_demo_st_scheme) outcome) \<Rightarrow> ddm \<Rightarrow> 'v \<Rightarrow> ddm \<Rightarrow> bool" where
  "d_does f a v b \<longleftrightarrow> (\<forall>s. dd_at a s \<longrightarrow> (\<exists>s'. f s = ret v s' \<and> dd_at b s'))"

lemma d_doesD: "d_does f a v b \<Longrightarrow> dd_at a s \<Longrightarrow> \<exists>s'. f s = ret v s' \<and> dd_at b s'"
  by (simp add: d_does_def)

section \<open>Buffers in memory\<close>

definition filled :: "nat \<Rightarrow> u8 list \<Rightarrow> (nat \<Rightarrow> u8) \<Rightarrow> nat \<Rightarrow> u8" where
  "filled b xs f = (\<lambda>i. if b \<le> i \<and> i < b + length xs then xs ! (i - b) else f i)"

lemma filled_Nil [simp]: "filled b [] f = f"
  by (auto simp: filled_def fun_eq_iff)

lemma filled_snoc: "(filled b xs f)(b + length xs := x) = filled b (xs @ [x]) f"
  by (auto simp: filled_def fun_eq_iff nth_append)

lemma filled_Cons: "filled (Suc b) xs (f(b := x)) = filled b (x # xs) f"
  by (auto simp: filled_def fun_eq_iff nth_Cons split: nat.split) (metis Suc_diff_le diff_Suc_Suc nat.inject Suc_le_eq)+

lemma offset_unat: "unat base + i < 2048 \<Longrightarrow> unat ((base :: u64) + of_nat i) = unat base + i"
  by (simp add: unat_word_ariths unat_of_nat take_bit_nat_eq_self)

lemma fill_does:
  "unat base + n + length cs \<le> 2048 \<Longrightarrow>
    d_does (for_each (\<lambda>(i, ch). mem_write (base + of_nat i) (byte ch)) (enumerate n cs) :: 'z dma_demo_st_scheme \<Rightarrow> _) a ()
      (a\<lparr>dd_mem := filled (unat base + n) (map byte cs) (dd_mem a)\<rparr>)"
proof (induction cs arbitrary: n a)
  case Nil
  then show ?case by (simp add: d_does_def)
next
  case (Cons ch cs)
  let ?b = "a\<lparr>dd_mem := (dd_mem a)(unat base + n := byte ch)\<rparr>"
  have u: "unat (base + of_nat n) = unat base + n" by (rule offset_unat) (use Cons.prems in simp)
  have "\<exists>s'. for_each (\<lambda>(i, ch). mem_write (base + of_nat i) (byte ch)) (enumerate n (ch # cs)) s = ret () s' \<and>
      dd_at (a\<lparr>dd_mem := filled (unat base + n) (map byte (ch # cs)) (dd_mem a)\<rparr>) s'" if s: "dd_at a s" for s :: "'z dma_demo_st_scheme"
  proof -
    let ?s = "s\<lparr>mem0 := (mem0 s)\<lparr>m_storage := (m_storage (mem0 s))[unat base + n := byte ch]\<rparr>\<rparr>"
    have "mem_write (base + of_nat n) (byte ch) s = ret () ?s"
      using Cons.prems dd_atD(8) [OF s] by (simp add: mem_write_def memory_write_def memory_isValidAddress_def u)
    moreover have "dd_at ?b ?s" by (rule dd_at_store [OF s]) (use Cons.prems in simp)
    moreover have "d_does (for_each (\<lambda>(i, ch). mem_write (base + of_nat i) (byte ch)) (enumerate (Suc n) cs) :: 'z dma_demo_st_scheme \<Rightarrow> _) ?b ()
        (?b\<lparr>dd_mem := filled (unat base + Suc n) (map byte cs) (dd_mem ?b)\<rparr>)"
      by (rule Cons.IH) (use Cons.prems in simp)
    ultimately show ?thesis by (auto simp: filled_Cons dest: d_doesD)
  qed
  then show ?case by (simp add: d_does_def)
qed

lemma read_does:
  "\<forall>i \<in> set is. unat base + i < 2048 \<Longrightarrow>
    d_does (dma_demo_read base is buf :: 'z dma_demo_st_scheme \<Rightarrow> _) a (buf @ map (\<lambda>i. char_of_byte (dd_mem a (unat base + i))) is) a"
proof (induction "is" arbitrary: buf)
  case Nil
  then show ?case by (simp add: d_does_def)
next
  case (Cons i ns)
  have "mem_read (base + of_nat i) s = ret (dd_mem a (unat base + i)) s" if "dd_at a s" for s :: "'z dma_demo_st_scheme"
    using Cons.prems that
    by (simp add: mem_read_def memory_read_def memory_isValidAddress_def offset_unat dd_atD(8) [OF that] dd_atD(9) [OF that])
  moreover have "d_does (dma_demo_read base ns (buf @ [char_of_byte (dd_mem a (unat base + i))]) :: 'z dma_demo_st_scheme \<Rightarrow> _) a
      ((buf @ [char_of_byte (dd_mem a (unat base + i))]) @ map (\<lambda>i. char_of_byte (dd_mem a (unat base + i))) ns) a"
    by (rule Cons.IH) (use Cons.prems in simp)
  ultimately show ?case by (simp add: d_does_def)
qed

lemma drain_does:
  "d_does (dma_demo_drain :: 'z dma_demo_st_scheme \<Rightarrow> _) a () (a\<lparr>dd_tx := [], dd_out := dd_out a @ map (\<lambda>b. Str [char_of_byte b]) (dd_tx a)\<rparr>)"
proof (induction "dd_tx a" arbitrary: a)
  case Nil
  then have "a\<lparr>dd_tx := []\<rparr> = a" by (cases a) simp
  with Nil show ?case by (auto simp: d_does_def dma_demo_drain.simps uart_txFifoSize_def dd_atD) (cases a, simp)
next
  case (Cons b bs)
  let ?a = "a\<lparr>dd_tx := bs, dd_out := dd_out a @ [Str [char_of_byte b]]\<rparr>"
  have "\<exists>s'. dma_demo_drain s = ret () s' \<and> dd_at (a\<lparr>dd_tx := [], dd_out := dd_out a @ map (\<lambda>b. Str [char_of_byte b]) (dd_tx a)\<rparr>) s'"
    if s: "dd_at a s" for s :: "'z dma_demo_st_scheme"
  proof -
    obtain s1 where s1: "via_uart uart_popTxByte s = ret b s1" "dd_at (a\<lparr>dd_tx := bs\<rparr>) s1" using dd_at_pop [OF s] Cons(2) by metis
    let ?s = "s1\<lparr>cout := puts [Str [char_of_byte b]] (cout s1)\<rparr>"
    have "dma_demo_drain s = dma_demo_drain ?s"
      using s1(1) Cons(2) by (simp add: dma_demo_drain.simps [of s] uart_txFifoSize_def dd_atD [OF s] say_def flip: Cons(2))
    moreover have "dd_at ?a ?s" using dd_at_fields(4) [OF s1(2)] by simp
    moreover have "d_does (dma_demo_drain :: 'z dma_demo_st_scheme \<Rightarrow> _) ?a () (?a\<lparr>dd_tx := [], dd_out := dd_out ?a @ map (\<lambda>b. Str [char_of_byte b]) (dd_tx ?a)\<rparr>)"
      by (rule Cons.hyps(1)) simp
    ultimately show ?thesis using Cons(2) [symmetric] by (auto dest: d_doesD)
  qed
  then show ?case by (simp add: d_does_def)
qed

section \<open>A transfer\<close>

text \<open>The controller after \<open>i\<close> of \<open>n\<close> bytes; a UART as destination keeps its address.\<close>

definition xfer :: "address \<Rightarrow> address \<Rightarrow> nat \<Rightarrow> bool \<Rightarrow> bool \<Rightarrow> nat \<Rightarrow> dma" where
  "xfer src dst n inc on i =
     \<lparr>d_memory = True, d_mmioBus = True, d_interruptController = True, d_scheduler = True, d_uart = True, d_interruptId = 5,
      d_sourceAddress = src, d_destinationAddress = dst, d_length = of_nat n, d_currentSrc = src + of_nat i,
      d_currentDst = (if inc then dst + of_nat i else dst), d_transferredBytes = of_nat i, d_srcIncrement = True,
      d_dstIncrement = inc, d_userSetSrcIncrement = False, d_userSetDstIncrement = False, d_busy = on, d_completed = \<not> on,
      d_error = False\<rparr>"

lemma xfer_advance: "dma_advance (xfer src dst n inc True i) = xfer src dst n inc True (Suc i)"
  by (simp add: dma_advance_def xfer_def Let_def)

definition dd_done :: "ddm \<Rightarrow> ddm" where
  "dd_done a = a\<lparr>dd_pend := set_flag (dd_pend a) 5,
     dd_sched := snd (sched_schedule (Some DmaNotice) 0 ''DMA Transfer Complete'' (dd_sched a))\<rparr>"

lemma small_nat: "n < 2048 \<Longrightarrow> unat (of_nat n :: u64) = n"
  by (simp add: unat_of_nat take_bit_nat_eq_self)

lemma xfer_finish:
  assumes "dd_at a s" and "Suc i \<le> n" and "n < 2048"
  shows "\<exists>s'. dma_finish (xfer src dst n inc True (Suc i), s) = ret () (xfer src dst n inc (Suc i < n) (Suc i), s') \<and>
    dd_at (if Suc i < n then a else dd_done a) s'"
proof (cases "Suc i < n")
  case True
  then have "\<not> (of_nat n :: u64) \<le> of_nat (Suc i)" using assms(3) by (simp add: word_le_nat_alt small_nat del: of_nat_Suc)
  then show ?thesis using True assms(1) by (simp add: dma_finish_def xfer_def del: of_nat_Suc)
next
  case False
  then have n: "n = Suc i" using assms(2) by simp
  let ?s = "reg_put 5 (set_flag (dd_pend a) 5) s"
  have "ic_trigger 5 s = ret () ?s"
    by (simp add: ic_trigger_def ic_validId_def MAX_INTERRUPTS_def dd_atD [OF assms(1)] dma_ic_def Let_def)
  then have "dma_finish (xfer src dst n inc True (Suc i), s) = ret () (xfer src dst n inc False (Suc i),
      ?s\<lparr>esched := snd (sched_schedule (Some DmaNotice) 0 ''DMA Transfer Complete'' (esched ?s))\<rparr>)"
    by (simp add: n dma_finish_def xfer_def dma_trigger_def Let_def del: of_nat_Suc)
  moreover have "dd_at (dd_done a) (?s\<lparr>esched := snd (sched_schedule (Some DmaNotice) 0 ''DMA Transfer Complete'' (esched ?s))\<rparr>)"
    using dd_at_fields(3) [OF dd_at_fields(6) [OF assms(1)]] by (simp add: dd_done_def dd_atD [OF assms(1)])
  ultimately show ?thesis using False by simp
qed

definition moved :: "nat \<Rightarrow> nat \<Rightarrow> dma \<Rightarrow> ddm \<Rightarrow> ddm" where
  "moved i n d b = (if Suc i < n then b else dd_done b)\<lparr>dd_dma := d\<rparr>"

lemma moved_dma:
  "moved i n d (b\<lparr>dd_dma := x, dd_mem := m\<rparr>) = moved i n d (b\<lparr>dd_mem := m\<rparr>)"
  "moved i n d (b\<lparr>dd_dma := x, dd_tx := t\<rparr>) = moved i n d (b\<lparr>dd_tx := t\<rparr>)"
  by (cases b; simp add: moved_def dd_done_def)+

lemma xfer_tick:
  assumes "dd_at a s" and "dma_step (xfer src dst n inc True i, s) = dma_finish (xfer src dst n inc True (Suc i), s1)"
    and "dd_at b s1" and "dd_dma a = xfer src dst n inc True i" and "Suc i \<le> n" and "n < 2048"
  shows "\<exists>s'. via_dma 0 dma_tick s = ret () s' \<and> dd_at (moved i n (xfer src dst n inc (Suc i < n) (Suc i)) b) s'"
proof -
  obtain s' where s': "dma_finish (xfer src dst n inc True (Suc i), s1) = ret () (xfer src dst n inc (Suc i < n) (Suc i), s')"
    "dd_at (if Suc i < n then b else dd_done b) s'"
    using xfer_finish [OF assms(3,5,6)] by blast
  have "via_dma 0 dma_tick s = ret () (s'\<lparr>dmas := (dmas s')(0 := xfer src dst n inc (Suc i < n) (Suc i))\<rparr>)"
    using assms(2,4) s'(1) by (simp add: via_dma_def dma_tick_def dd_atD [OF assms(1)])
  then show ?thesis using dd_at_fields(1) [OF s'(2)] by (auto simp: moved_def)
qed

lemma offset_plain:
  assumes "dd_at a s" and "unat base + i < 2048"
  shows "dma_plain (xfer src dst n inc on j) (base + of_nat i) s"
proof -
  have u: "unat (base + of_nat i) < 2048" using assms(2) by (simp add: offset_unat)
  have "base + of_nat i \<noteq> 0x40003000" using u by auto
  then show ?thesis
    using u dd_atD(10) [OF assms(1) u]
    by (simp add: dma_plain_def dma_isUartData_def dma_isMmioReg_def dma_isMemory_def memory_isValidAddress_def xfer_def
        dd_atD(1) [OF assms(1)] dd_atD(8) [OF assms(1)])
qed

lemma copy_tick:
  assumes "dd_dma a = xfer src dst n True True i" and "i < n" and "n < 2048" and "unat src + n \<le> 2048" and "unat dst + n \<le> 2048"
  shows "d_does (via_dma 0 dma_tick) a ()
    (moved i n (xfer src dst n True (Suc i < n) (Suc i)) (a\<lparr>dd_mem := (dd_mem a)(unat dst + i := dd_mem a (unat src + i))\<rparr>))"
proof -
  have "\<exists>s'. via_dma 0 dma_tick s = ret () s' \<and>
      dd_at (moved i n (xfer src dst n True (Suc i < n) (Suc i)) (a\<lparr>dd_mem := (dd_mem a)(unat dst + i := dd_mem a (unat src + i))\<rparr>)) s'"
    if s: "dd_at a s" for s :: "'a dma_demo_st_scheme"
  proof (rule xfer_tick [OF s])
    let ?d = "xfer src dst n True True i"
    let ?s = "s\<lparr>mem0 := (mem0 s)\<lparr>m_storage := (m_storage (mem0 s))[unat dst + i := dd_mem a (unat src + i)]\<rparr>\<rparr>"
    have cur: "d_currentSrc ?d = src + of_nat i" "d_currentDst ?d = dst + of_nat i" by (simp_all add: xfer_def)
    have u: "unat (src + of_nat i) = unat src + i" "unat (dst + of_nat i) = unat dst + i"
      using assms(2,4,5) by (simp_all add: offset_unat)
    have "dma_step (?d, s) = dma_finish (dma_advance ?d, dma_move ?d s)"
    proof (rule dma_step_plain)
      show "d_transferredBytes ?d < d_length ?d" using assms(2,3) by (simp add: xfer_def word_less_nat_alt small_nat)
    qed (use offset_plain [OF s] assms(2,4,5) in \<open>simp_all add: cur, simp_all add: xfer_def\<close>)
    also have "dma_move ?d s = ?s"
      using assms(2,4) dd_atD(9) [OF s, of "unat src + i"] by (simp add: dma_move_def cur memory_store_def memory_load_def u)
    finally show "dma_step (?d, s) = dma_finish (xfer src dst n True True (Suc i), ?s)" by (simp add: xfer_advance)
    show "dd_at (a\<lparr>dd_mem := (dd_mem a)(unat dst + i := dd_mem a (unat src + i))\<rparr>) ?s"
      by (rule dd_at_store [OF s]) (use assms(2,5) in simp)
  qed (use assms in simp_all)
  then show ?thesis by (simp add: d_does_def)
qed

lemma stream_tick:
  assumes "dd_dma a = xfer src 0x40003000 n False True i" and "i < n" and "n < 2048" and "unat src + n \<le> 2048"
  shows "d_does (via_dma 0 dma_tick) a ()
    (moved i n (xfer src 0x40003000 n False (Suc i < n) (Suc i)) (a\<lparr>dd_tx := dd_tx a @ [dd_mem a (unat src + i)]\<rparr>))"
proof -
  have "\<exists>s'. via_dma 0 dma_tick s = ret () s' \<and>
      dd_at (moved i n (xfer src 0x40003000 n False (Suc i < n) (Suc i)) (a\<lparr>dd_tx := dd_tx a @ [dd_mem a (unat src + i)]\<rparr>)) s'"
    if s: "dd_at a s" for s :: "'a dma_demo_st_scheme"
  proof -
    let ?d = "xfer src 0x40003000 n False True i" and ?v = "dd_mem a (unat src + i)"
    obtain s1 where s1: "via_uart (uart_writeByte ?v) s = ret () s1" "dd_at (a\<lparr>dd_tx := dd_tx a @ [?v]\<rparr>) s1"
      using dd_at_send [OF s] by blast
    have cur: "d_currentSrc ?d = src + of_nat i" "d_currentDst ?d = 0x40003000" by (simp_all add: xfer_def)
    have u: "unat (src + of_nat i) = unat src + i" using assms(2,4) by (simp add: offset_unat)
    have lt: "\<not> d_length ?d \<le> d_transferredBytes ?d" using assms(2,3) by (simp add: xfer_def word_le_nat_alt small_nat)
    have p: "dma_plain ?d (src + of_nat i) s" by (rule offset_plain [OF s]) (use assms(2,4) in simp)
    then have "dma_fetch ?d s = ret (Some (memory_load (src + of_nat i) (mem0 s))) s"
      by (simp add: dma_fetch_def cur dma_plain_def dma_isMemory_def memory_read_eq)
    moreover have "memory_load (src + of_nat i) (mem0 s) = ?v"
      using assms(2,4) dd_atD(9) [OF s, of "unat src + i"] by (simp add: memory_load_def u)
    moreover have "dma_store ?d ?v s = ret True s1"
      using s1(1) by (simp add: dma_store_def cur dma_isUartData_def dd_atD(1) [OF s]) (simp add: xfer_def)
    moreover have "d_busy ?d" by (simp add: xfer_def)
    ultimately have "dma_step (?d, s) = dma_finish (xfer src 0x40003000 n False True (Suc i), s1)"
      using lt by (simp add: dma_step_def xfer_advance)
    from xfer_tick [OF s this s1(2) assms(1)] show ?thesis using assms(2,3) by simp
  qed
  then show ?thesis by (simp add: d_does_def)
qed

section \<open>A cycle of the bus\<close>

abbreviation dma_cycle :: "'z dma_demo_st_scheme \<Rightarrow> (unit, 'z dma_demo_st_scheme) outcome" where
  "dma_cycle \<equiv> sb_cycle (e_callback dma_closures) (e_handler dma_closures)"

definition isr_text :: "out list" where
  "isr_text = [Str ''  [ISR] DMA Completion Interrupt (ID '', Num 5, Str ('') fired!'' @ nl)]"

definition dd_served :: "ddm \<Rightarrow> ddm" where
  "dd_served a = a\<lparr>dd_sched := (dd_sched a)\<lparr>m_events := []\<rparr>, dd_pend := 0, dd_fired := True, dd_out := dd_out a @ isr_text\<rparr>"

lemma cycle_tick:
  fixes s :: "'z dma_demo_st_scheme"
  assumes "d_does (via_dma 0 dma_tick :: 'z dma_demo_st_scheme \<Rightarrow> _) a () b" and "dd_at a s"
  shows "\<exists>s'. sb_tickTimers s = ret () (s' :: 'z dma_demo_st_scheme) \<and> dd_at b s'"
proof -
  let ?s = "s\<lparr>clock := clock_tick 1 (clock s)\<rparr>"
  obtain s' where "via_dma 0 dma_tick ?s = ret () s'" "dd_at b s'" using d_doesD [OF assms(1) dd_at_fields(2) [OF assms(2)]] by blast
  then show ?thesis using dd_atD(6) [of b s'] dd_atD(6) [OF assms(2)] by (simp add: sb_tickTimers_def Let_def dma_bus_def)
qed

lemma cycle_quiet:
  fixes f :: "'z dma_demo_st_scheme \<Rightarrow> _"
  defines "f \<equiv> via_dma 0 dma_tick"
  assumes "d_does f a () b" and "m_events (dd_sched b) = []" and "dd_pend b = 0"
  shows "d_does (dma_cycle :: 'z dma_demo_st_scheme \<Rightarrow> _) a () b"
proof -
  have "\<exists>s'. dma_cycle s = ret () s' \<and> dd_at b s'" if s: "dd_at a s" for s :: "'z dma_demo_st_scheme"
  proof -
    obtain s1 where "sb_tickTimers s = ret () s1" "dd_at b s1" using cycle_tick [OF assms(2) [unfolded f_def] s] by blast
    then show ?thesis
      using assms(3,4) by (simp add: sb_cycle_def sched_executeReadyEvents_def dd_atD dma_bus_def ic_dispatch_def ic_active_def dma_ic_def)
  qed
  then show ?thesis by (simp add: d_does_def)
qed

lemma dispatch_served:
  fixes s :: "'z dma_demo_st_scheme"
  assumes "dd_at a s" and "dd_pend a = set_flag 0 5"
  shows "\<exists>s'. ic_dispatch (e_handler dma_closures) s = ret True s' \<and> dd_at (a\<lparr>dd_pend := 0, dd_fired := True, dd_out := dd_out a @ isr_text\<rparr>) s'"
proof -
  let ?s = "reg_put 5 0 s"
  have f: "test_flag (set_flag 0 5 :: u32) j \<longleftrightarrow> j = 5" for j by (simp add: flag_simps)
  then have nz: "(set_flag 0 5 :: u32) \<noteq> 0" by (metis test_flag_zero)
  have h: "ic_handlers dma_ic ! j = (if j = 5 then Some 0 else None)" "ic_priorities dma_ic ! j = 128" if "j < 32" for j
    using that by (simp_all add: dma_ic_def MAX_INTERRUPTS_def nth_list_update)
  have "dispatch_pick (set_flag 0 5) (ic_handlers dma_ic) (ic_priorities dma_ic) = Some 5"
    using f by (simp add: dispatch_pick_def MAX_INTERRUPTS_def dispatch_scan_def h upt_rec [of _ "numeral _"])
  then have "ic_dispatch (e_handler dma_closures) s = ret True ((?s\<lparr>interruptFired := True\<rparr>)\<lparr>cout := puts isr_text (cout (?s\<lparr>interruptFired := True\<rparr>))\<rparr>)"
    using nz assms(2)
    by (simp add: ic_dispatch_def ic_active_def dd_atD [OF assms(1)] dma_ic_def ic_clear_def ic_validId_def MAX_INTERRUPTS_def Let_def
        clear_set_flag dma_closures_def dma_isr_def say_def isr_text_def)
  moreover have "dd_at (a\<lparr>dd_pend := 0, dd_fired := True, dd_out := dd_out a @ isr_text\<rparr>)
      ((?s\<lparr>interruptFired := True\<rparr>)\<lparr>cout := puts isr_text (cout (?s\<lparr>interruptFired := True\<rparr>))\<rparr>)"
    using dd_at_fields(4) [OF dd_at_fields(5) [OF dd_at_fields(6) [OF assms(1)]]] by simp
  ultimately show ?thesis by blast
qed

lemma cycle_served:
  fixes f :: "'z dma_demo_st_scheme \<Rightarrow> _"
  defines "f \<equiv> via_dma 0 dma_tick"
  assumes "d_does f a () b" and "m_events (dd_sched b) = [e]" and "ev_cycle e = 0" and "ev_callback e = Some DmaNotice"
    and "dd_pend b = set_flag 0 5"
  shows "d_does (dma_cycle :: 'z dma_demo_st_scheme \<Rightarrow> _) a () (dd_served b)"
proof -
  have "\<exists>s'. dma_cycle s = ret () s' \<and> dd_at (dd_served b) s'" if s: "dd_at a s" for s :: "'z dma_demo_st_scheme"
  proof -
    obtain s1 where s1: "sb_tickTimers s = ret () s1" "dd_at b s1" using cycle_tick [OF assms(2) [unfolded f_def] s] by blast
    let ?q = "(dd_sched b)\<lparr>m_events := []\<rparr>"
    have ev: "sched_executeReadyEvents (run_callback u) (m_cycles (clock s1)) s1 = ret 1 (s1\<lparr>esched := ?q\<rparr>)" for u
      using assms(3-5) by (simp add: sched_executeReadyEvents_def Let_def dd_atD [OF s1(2)] sort_events_def run_callback_def)
    obtain s2 where "ic_dispatch (e_handler dma_closures) (s1\<lparr>esched := ?q\<rparr>) = ret True s2"
      "dd_at (b\<lparr>dd_sched := ?q, dd_pend := 0, dd_fired := True, dd_out := dd_out b @ isr_text\<rparr>) s2"
      using dispatch_served [OF dd_at_fields(3) [OF s1(2)]] assms(6) by auto
    then show ?thesis using s1(1) ev dd_atD(6) [OF s1(2)] by (simp add: sb_cycle_def dma_bus_def dd_served_def)
  qed
  then show ?thesis by (simp add: d_does_def)
qed

section \<open>The processor during a transfer\<close>

definition dhosts :: "ddm \<times> bool \<Rightarrow> (app_world, 'z dma_demo_st_scheme) computer \<Rightarrow> bool" where
  "dhosts = (\<lambda>(a, r) c. dd_at a (snd (world c)) \<and> powers c 0 = ON \<and> c_systemBus (cpu0 c) \<and> \<not> c_rtosScheduler (cpu0 c) \<and>
     c_powerController (cpu0 c) = 0 \<and> c_firmwareManager (cpu0 c) = fm_init \<and> c_running (cpu0 c) = r)"

lemma d_step:
  assumes "d_does (dma_cycle :: 'z dma_demo_st_scheme \<Rightarrow> _) a () b"
  shows "runs (dhosts :: _ \<Rightarrow> (app_world, 'z dma_demo_st_scheme) computer \<Rightarrow> bool) (cpu_step dma_closures d) (a, True) (b, True)"
  unfolding runs_def
proof (intro allI impI)
  fix c :: "(app_world, 'z dma_demo_st_scheme) computer" assume c: "dhosts (a, True) c"
  obtain s' where "dma_cycle (snd (world c)) = ret () s'" "dd_at b s'" using d_doesD [OF assms] c by (auto simp: dhosts_def)
  then show "\<exists>c'. cpu_step dma_closures d c = Some (ret () c') \<and> dhosts (b, True) c'"
    using c by (auto simp: dhosts_def cpu_step_def cpu_isPowerOn_def power_isPowerOn_def Let_def upd_cpu_def via_bus_def via_fm_def fm_idle)
qed

lemma d_run:
  assumes "runs (dhosts :: _ \<Rightarrow> (app_world, 'z dma_demo_st_scheme) computer \<Rightarrow> bool) (cpu_steps dma_closures d n) (a, True) (b, True)"
    and "n < 2048"
  shows "runs (dhosts :: _ \<Rightarrow> (app_world, 'z dma_demo_st_scheme) computer \<Rightarrow> bool) (cpu_run dma_closures d (of_nat n)) (a, r) (b, True)"
  unfolding runs_def
proof (intro allI impI)
  fix c :: "(app_world, 'z dma_demo_st_scheme) computer" assume c: "dhosts (a, r) c"
  have "\<exists>c'. cpu_start dma_closures c = ret () c' \<and> dhosts (a, True) c'"
    using c by (cases "c_running (cpu0 c)") (auto simp: dhosts_def cpu_start_def Let_def upd_cpu_def via_fm_def fm_idle)
  then show "\<exists>c'. cpu_run dma_closures d (of_nat n) c = Some (ret () c') \<and> dhosts (b, True) c'"
    using runsD [OF assms(1)] by (auto simp: cpu_run_steps small_nat [OF assms(2)])
qed

text \<open>A transfer of \<open>n\<close> bytes, from the steps of the controller.\<close>

lemma transfer_run:
  fixes f :: "'z dma_demo_st_scheme \<Rightarrow> _"
  defines "f \<equiv> via_dma 0 dma_tick"
  assumes "\<And>i. i < n \<Longrightarrow> d_does f (g i) () (moved i n (e (Suc i)) (g' (Suc i)))"
    and "\<And>i. i < n \<Longrightarrow> (g' i)\<lparr>dd_dma := e i\<rparr> = g i"
    and "\<And>i. dd_pend (g' i) = 0" and "\<And>i. m_events (dd_sched (g' i)) = []" and "0 < n"
  shows "runs (dhosts :: _ \<Rightarrow> (app_world, 'z dma_demo_st_scheme) computer \<Rightarrow> bool) (cpu_steps dma_closures d n) (g 0, True)
    (dd_served ((dd_done (g' n))\<lparr>dd_dma := e n\<rparr>), True)"
proof -
  obtain m where n: "n = Suc m" using assms(6) by (cases n) auto
  have "runs (dhosts :: _ \<Rightarrow> (app_world, 'z dma_demo_st_scheme) computer \<Rightarrow> bool) (cpu_step dma_closures d) (g i, True) (g (Suc i), True)"
    if "i < m" for i
  proof -
    have "moved i n (e (Suc i)) (g' (Suc i)) = g (Suc i)" using assms(3) [of "Suc i"] that by (simp add: moved_def n)
    then have "d_does f (g i) () (g (Suc i))" using assms(2) [of i] that by (simp add: n)
    moreover have "m_events (dd_sched (g (Suc i))) = []" "dd_pend (g (Suc i)) = 0"
      using assms(3) [of "Suc i", symmetric] assms(4,5) that by (simp_all add: n)
    ultimately show ?thesis unfolding f_def by (intro d_step cycle_quiet)
  qed
  then have "runs (dhosts :: _ \<Rightarrow> (app_world, 'z dma_demo_st_scheme) computer \<Rightarrow> bool) (cpu_steps dma_closures d m) (g 0, True) (g m, True)"
    by (rule runs_steps [where f = "\<lambda>i. (g i, True)"])
  moreover have "runs (dhosts :: _ \<Rightarrow> (app_world, 'z dma_demo_st_scheme) computer \<Rightarrow> bool) (cpu_step dma_closures d) (g m, True)
      (dd_served ((dd_done (g' n))\<lparr>dd_dma := e n\<rparr>), True)"
  proof (rule d_step, rule cycle_served)
    show "d_does (via_dma 0 dma_tick :: 'z dma_demo_st_scheme \<Rightarrow> _) (g m) () ((dd_done (g' n))\<lparr>dd_dma := e n\<rparr>)"
      using assms(2) [of m] by (simp add: moved_def n f_def)
  qed (simp_all add: dd_done_def sched_schedule_def assms(4,5), simp_all)
  ultimately show ?thesis using runs_steps_add [OF _ runs_steps_one, of dhosts dma_closures d m "(g 0, True)" "(g m, True)"] by (simp add: n)
qed

definition bytes_at :: "ddm \<Rightarrow> nat \<Rightarrow> nat \<Rightarrow> u8 list" where
  "bytes_at a b n = map (\<lambda>i. dd_mem a (b + i)) [0..<n]"

lemma bytes_at_Suc: "bytes_at a b (Suc n) = bytes_at a b n @ [dd_mem a (b + n)]"
  by (simp add: bytes_at_def)

lemma d_copy:
  assumes "0 < n" and "unat src + n \<le> unat dst" and "unat dst + n \<le> 2048" and "dd_pend a = 0" and "m_events (dd_sched a) = []"
    and "dd_dma a = xfer src dst n True True 0"
  shows "runs (dhosts :: _ \<Rightarrow> (app_world, 'z dma_demo_st_scheme) computer \<Rightarrow> bool) (cpu_run dma_closures d (of_nat n)) (a, r)
    (dd_served ((dd_done (a\<lparr>dd_mem := filled (unat dst) (bytes_at a (unat src) n) (dd_mem a)\<rparr>))\<lparr>dd_dma := xfer src dst n True False n\<rparr>), True)"
proof -
  let ?g' = "\<lambda>i. a\<lparr>dd_mem := filled (unat dst) (bytes_at a (unat src) i) (dd_mem a)\<rparr>"
  let ?e = "\<lambda>i. xfer src dst n True (i < n) i"
  have n: "n < 2048" using assms(1-3) by simp
  have "d_does (via_dma 0 dma_tick :: 'z dma_demo_st_scheme \<Rightarrow> _) ((?g' i)\<lparr>dd_dma := ?e i\<rparr>) () (moved i n (?e (Suc i)) (?g' (Suc i)))" if i: "i < n" for i
  proof -
    let ?b = "(?g' i)\<lparr>dd_dma := ?e i\<rparr>"
    have "dd_mem ?b (unat src + i) = dd_mem a (unat src + i)" using assms(2) i by (simp add: filled_def)
    then have "(dd_mem ?b)(unat dst + i := dd_mem ?b (unat src + i)) = filled (unat dst) (bytes_at a (unat src) (Suc i)) (dd_mem a)"
      using filled_snoc [of "unat dst" "bytes_at a (unat src) i" "dd_mem a" "dd_mem a (unat src + i)"]
      by (simp add: bytes_at_Suc) (simp add: bytes_at_def)
    moreover have "d_does (via_dma 0 dma_tick :: 'z dma_demo_st_scheme \<Rightarrow> _) ?b ()
        (moved i n (?e (Suc i)) (?b\<lparr>dd_mem := (dd_mem ?b)(unat dst + i := dd_mem ?b (unat src + i))\<rparr>))"
      by (rule copy_tick) (use i n assms(2,3) in simp_all)
    ultimately show ?thesis using i by (simp add: moved_dma)
  qed
  from transfer_run [where g = "\<lambda>i. (?g' i)\<lparr>dd_dma := ?e i\<rparr>" and g' = ?g' and e = ?e and d = d, OF this] assms
  have "runs (dhosts :: _ \<Rightarrow> (app_world, 'z dma_demo_st_scheme) computer \<Rightarrow> bool) (cpu_steps dma_closures d n) ((?g' 0)\<lparr>dd_dma := ?e 0\<rparr>, True)
      (dd_served ((dd_done (?g' n))\<lparr>dd_dma := ?e n\<rparr>), True)"
    by simp
  moreover have "(?g' 0)\<lparr>dd_dma := ?e 0\<rparr> = a" using assms(1,6) by (cases a) (simp add: bytes_at_def)
  ultimately show ?thesis by (intro d_run [OF _ n]) simp
qed

lemma d_stream:
  assumes "0 < n" and "unat src + n \<le> 2048" and "n < 2048" and "dd_pend a = 0" and "m_events (dd_sched a) = []"
    and "dd_dma a = xfer src 0x40003000 n False True 0"
  shows "runs (dhosts :: _ \<Rightarrow> (app_world, 'z dma_demo_st_scheme) computer \<Rightarrow> bool) (cpu_run dma_closures d (of_nat n)) (a, r)
    (dd_served ((dd_done (a\<lparr>dd_tx := dd_tx a @ bytes_at a (unat src) n\<rparr>))\<lparr>dd_dma := xfer src 0x40003000 n False False n\<rparr>), True)"
proof -
  let ?g' = "\<lambda>i. a\<lparr>dd_tx := dd_tx a @ bytes_at a (unat src) i\<rparr>"
  let ?e = "\<lambda>i. xfer src 0x40003000 n False (i < n) i"
  have "d_does (via_dma 0 dma_tick :: 'z dma_demo_st_scheme \<Rightarrow> _) ((?g' i)\<lparr>dd_dma := ?e i\<rparr>) () (moved i n (?e (Suc i)) (?g' (Suc i)))" if i: "i < n" for i
  proof -
    let ?b = "(?g' i)\<lparr>dd_dma := ?e i\<rparr>"
    have "d_does (via_dma 0 dma_tick :: 'z dma_demo_st_scheme \<Rightarrow> _) ?b () (moved i n (?e (Suc i)) (?b\<lparr>dd_tx := dd_tx ?b @ [dd_mem ?b (unat src + i)]\<rparr>))"
      by (rule stream_tick) (use i assms(2,3) in simp_all)
    then show ?thesis using i by (simp add: moved_dma bytes_at_Suc)
  qed
  from transfer_run [where g = "\<lambda>i. (?g' i)\<lparr>dd_dma := ?e i\<rparr>" and g' = ?g' and e = ?e and d = d, OF this] assms
  have "runs (dhosts :: _ \<Rightarrow> (app_world, 'z dma_demo_st_scheme) computer \<Rightarrow> bool) (cpu_steps dma_closures d n) ((?g' 0)\<lparr>dd_dma := ?e 0\<rparr>, True)
      (dd_served ((dd_done (?g' n))\<lparr>dd_dma := ?e n\<rparr>), True)"
    by simp
  moreover have "(?g' 0)\<lparr>dd_dma := ?e 0\<rparr> = a" using assms(1,6) by (cases a) (simp add: bytes_at_def)
  ultimately show ?thesis by (intro d_run [OF _ assms(3)]) simp
qed

section \<open>The other statements\<close>

lemma d_machine:
  fixes f :: "'z dma_demo_st_scheme \<Rightarrow> _"
  assumes "d_does f a v b"
  shows "runs (dhosts :: _ \<Rightarrow> (app_world, 'z dma_demo_st_scheme) computer \<Rightarrow> bool) (machine f) (a, r) (b, r)"
    and "runs (dhosts :: _ \<Rightarrow> (app_world, 'z dma_demo_st_scheme) computer \<Rightarrow> bool) (machine (say_result f g)) (a, r)
      (b\<lparr>dd_out := dd_out b @ g v\<rparr>, r)"
proof -
  have s: "\<exists>s'. f (snd (world c)) = ret v s' \<and> dd_at b s'" if "dhosts (a, r) c" for c :: "(app_world, 'z dma_demo_st_scheme) computer"
    using d_doesD [OF assms] that by (auto simp: dhosts_def)
  show "runs (dhosts :: _ \<Rightarrow> (app_world, 'z dma_demo_st_scheme) computer \<Rightarrow> bool) (machine f) (a, r) (b, r)"
    using s by (fastforce simp: runs_def machine_def via_bus_def dhosts_def)
  show "runs (dhosts :: _ \<Rightarrow> (app_world, 'z dma_demo_st_scheme) computer \<Rightarrow> bool) (machine (say_result f g)) (a, r)
      (b\<lparr>dd_out := dd_out b @ g v\<rparr>, r)"
    unfolding runs_def
  proof (intro allI impI)
    fix c :: "(app_world, 'z dma_demo_st_scheme) computer" assume c: "dhosts (a, r) c"
    obtain s' where s': "f (snd (world c)) = ret v s'" "dd_at b s'" using s [OF c] by blast
    then show "\<exists>c'. machine (say_result f g) c = Some (ret () c') \<and> dhosts (b\<lparr>dd_out := dd_out b @ g v\<rparr>, r) c'"
      using c dd_at_fields(4) [OF s'(2), of "g v"] by (auto simp: machine_def via_bus_def dhosts_def say_result_def say_def)
  qed
qed

lemma d_print: "runs dhosts (print outs) (a, r) (a\<lparr>dd_out := dd_out a @ outs\<rparr>, r)"
proof -
  have "d_does (say outs) a () (a\<lparr>dd_out := dd_out a @ outs\<rparr>)" using dd_at_fields(4) by (fastforce simp: d_does_def say_def)
  then show ?thesis unfolding print_def by (rule d_machine(1))
qed

lemma d_print_of:
  assumes "\<And>c. dhosts (a, r) c \<Longrightarrow> f c = outs"
  shows "runs dhosts (print_of f) (a, r) (a\<lparr>dd_out := dd_out a @ outs\<rparr>, r)"
  using d_print [of outs a r] assms by (auto simp: runs_def print_of_def)

lemma dhosts_fields: "dhosts (a, r) c \<Longrightarrow> dmas (snd (world c)) 0 = dd_dma a"
  "dhosts (a, r) c \<Longrightarrow> uart_txFifoSize (uart0 (snd (world c))) = length (dd_tx a)" "dhosts (a, r) c \<Longrightarrow> interruptFired (snd (world c)) = dd_fired a"
  by (auto simp: dhosts_def dd_atD uart_txFifoSize_def)

definition wired :: "dma \<Rightarrow> bool" where
  "wired d \<longleftrightarrow> d_memory d \<and> d_mmioBus d \<and> d_interruptController d \<and> d_scheduler d \<and> d_uart d \<and> d_interruptId d = 5 \<and>
     \<not> d_userSetSrcIncrement d \<and> \<not> d_userSetDstIncrement d \<and> \<not> d_busy d"

abbreviation configured :: "address \<Rightarrow> address \<Rightarrow> nat \<Rightarrow> bool \<Rightarrow> dma" where
  "configured src dst n inc \<equiv> (xfer src dst n inc False 0)\<lparr>d_completed := False\<rparr>"

lemma configure_does:
  assumes "wired (dd_dma a)" and "unat src < 2048" and "inc \<longleftrightarrow> unat dst < 2048" and "inc \<or> dst = 0x40003000"
  shows "d_does (configure_dma src dst n) a () (a\<lparr>dd_dma := configured src dst n inc\<rparr>)"
proof -
  have "configure_dma src dst n s = ret () (s\<lparr>dmas := (dmas s)(0 := configured src dst n inc)\<rparr>)" if s: "dd_at a s" for s :: "'a dma_demo_st_scheme"
  proof -
    have ne: "x \<noteq> 0x40003000" if "unat x < 2048" for x :: address using that by auto
    have "dma_configure src dst (of_nat n) (dd_dma a) s = (True, configured src dst n inc)"
      using assms dd_atD(10) [OF s assms(2)] dd_atD(10) [OF s, of dst] ne [of src] ne [of dst]
      by (cases "dd_dma a") (auto simp: dma_configure_def wired_def Let_def dma_isUartData_def dma_isMmioReg_def dd_atD(1) [OF s] xfer_def)
    then show ?thesis by (simp add: configure_dma_def plainly_def upd_dma_def dd_atD(7) [OF s])
  qed
  then show ?thesis using dd_at_fields(1) by (fastforce simp: d_does_def)
qed

lemma start_does:
  assumes "unat src < 2048" and "inc \<Longrightarrow> unat dst < 2048" and "\<not> inc \<Longrightarrow> dst = 0x40003000" and "0 < n" and "n < 2048"
    and "dd_dma a = configured src dst n inc"
  shows "d_does (via_dma 0 dma_start) a True (a\<lparr>dd_dma := xfer src dst n inc True 0\<rparr>)"
proof -
  have "via_dma 0 dma_start s = ret True (s\<lparr>dmas := (dmas s)(0 := xfer src dst n inc True 0)\<rparr>)" if s: "dd_at a s" for s :: "'a dma_demo_st_scheme"
  proof -
    have len: "(of_nat n :: u64) \<noteq> 0" using assms(4,5) small_nat [of n] by (metis less_irrefl unat_0)
    have src: "dma_isMemory (configured src dst n inc) src s"
      using assms(1) dd_atD(8) [OF s] by (simp add: dma_isMemory_def memory_isValidAddress_def xfer_def)
    have dst: "dma_isUartData (configured src dst n inc) dst s \<or> dma_isMemory (configured src dst n inc) dst s"
      using assms(2,3) dd_atD(1,8) [OF s] by (cases inc) (simp_all add: dma_isMemory_def dma_isUartData_def memory_isValidAddress_def xfer_def)
    have "dma_start (configured src dst n inc, s) = ret True (xfer src dst n inc True 0, s)"
    proof -
      obtain d where d: "d = configured src dst n inc" by simp
      have f: "d_memory d" "d_length d \<noteq> 0" "d_sourceAddress d = src" "d_destinationAddress d = dst"
        using len by (simp_all add: d xfer_def)
      have "dma_start (d, s) = ret True (d\<lparr>d_currentSrc := d_sourceAddress d, d_currentDst := d_destinationAddress d,
          d_transferredBytes := 0, d_busy := True, d_completed := False, d_error := False\<rparr>, s)"
        using f src dst by (simp add: dma_start_def Let_def flip: d) blast
      then show ?thesis by (simp add: d xfer_def)
    qed
    then show ?thesis using assms(6) by (simp add: via_dma_def dd_atD(7) [OF s])
  qed
  then show ?thesis using dd_at_fields(1) by (fastforce simp: d_does_def)
qed

section \<open>Construction\<close>

lemma dma_built:
  fixes c0 :: "(app_world, 'z dma_demo_st_scheme) computer"
  shows "\<exists>c. main_of [print outs, machine (new_memory 2048), machine new_mmio, machine (new_uart 0x40003000 DEFAULT_BAUD_RATE),
      machine (via_uart (plainly uart_enable)), machine (new_ic 0x40002000), machine (ic_registerInterrupt 5), machine (ic_enable 5),
      machine (plainly (\<lambda>s. s\<lparr>interruptFired := False\<rparr>)), machine (ic_registerHandler 5 (Some 0)), machine (plainly (sb_init True True True)),
      machine (plainly (sb_attachUART True)), machine (plainly (upd_dma 0 (\<lambda>_. dma_init True True True False))),
      machine (plainly (upd_dma 0 (dma_attachInterruptController True 5))), machine (plainly (\<lambda>s. snd (sb_attachDMA (Some 0) s))),
      doing (plainly (cpu_init True))] c0 = Some (ret () c) \<and>
    dhosts (\<lparr>dd_mem = \<lambda>_. 0, dd_tx = [], dd_dma = configured 0 0 0 True, dd_pend = 0, dd_sched = sched_init, dd_fired = False,
      dd_out = outs\<rparr>, False) c"
proof -
  obtain w s0 where ws: "world c0 = (w, s0)" by (cases "world c0")
  let ?s1 = "s0\<lparr>cout := puts outs std_cout, mem0 := memory_init 2048, next_ref := 0, m_registers := []\<rparr>"
  let ?p1 = "placed [(0x40003000, 0), (0x40003000 + 4, set_flag 0 0), (0x40003000 + 8, 0), (0x40003000 + 12, DEFAULT_BAUD_RATE)] ?s1"
  have f1: "fresh_at [0x40003000, 0x40003000 + 4, 0x40003000 + 8, 0x40003000 + 12] ?s1" by (simp add: fresh_at_def)
  have b: "DEFAULT_BAUD_RATE \<noteq> 0" by (simp add: DEFAULT_BAUD_RATE_def)
  let ?u = "\<lparr>u_base = 0x40003000, u_dataRegister = 0, u_statusRegister = 1, u_controlRegister = 2, u_baudRegister = 3, u_txFifo = [], u_rxFifo = []\<rparr>"
  obtain u where u: "uart_init 0x40003000 DEFAULT_BAUD_RATE ?s1 = ret u (uart_updateStatusRegister u ?p1)" and fields: "u_base u = 0x40003000"
      "u_dataRegister u = 0" "u_statusRegister u = 1" "u_controlRegister u = 2" "u_baudRegister u = 3" "u_txFifo u = []" "u_rxFifo u = []"
    using uart_init_builds [OF f1 b] by auto
  have "u = ?u" using fields by (cases u) simp
  obtain v where v: "uart_updateStatusRegister ?u ?p1 = reg_put 1 v ?p1" by (simp add: uart_updateStatusRegister_def)
  let ?s2 = "(reg_put 1 v ?p1)\<lparr>uart0 := ?u\<rparr>"
  have uart: "new_uart 0x40003000 DEFAULT_BAUD_RATE ?s1 = ret () ?s2" using u v \<open>u = ?u\<close> by (simp add: new_uart_def)
  obtain x where en: "via_uart (plainly uart_enable) ?s2 = ret () ((reg_put 1 x (reg_put 2 (set_flag 0 0) ?s2))\<lparr>uart0 := ?u\<rparr>)"
  proof -
    have "reg_get 2 ?s2 = 0" by (simp add: reg_get_def register_init_def reg_put_def register_write_def)
    then show ?thesis by (intro that) (simp add: via_uart_def plainly_def uart_enable_def Let_def uart_updateStatusRegister_def)
  qed
  let ?s3 = "(reg_put 1 x (reg_put 2 (set_flag 0 0) ?s2))\<lparr>uart0 := ?u\<rparr>"
  let ?p2 = "placed [(0x40002000, 0), (0x40002000 + 4, 0), (0x40002000 + 8, 0)] ?s3"
  have f2: "fresh_at [0x40002000, 0x40002000 + 4, 0x40002000 + 8] ?s3" by (simp add: fresh_at_def)
  let ?c1 = "\<lparr>ic_base = 0x40002000, ic_enableRegister = 4, ic_pendingRegister = 5, ic_priorityRegister = 6,
    ic_registered = replicate MAX_INTERRUPTS False, ic_priorities = replicate MAX_INTERRUPTS 128, ic_handlers = replicate MAX_INTERRUPTS None\<rparr>"
  have "ic_init 0x40002000 ?s3 = ret ?c1 ?p2" using ic_init_builds [OF f2] by simp
  then have irq: "new_ic 0x40002000 ?s3 = ret () (?p2\<lparr>ic := ?c1\<rparr>)" unfolding new_ic_def by (simp only: and_then_simps)
  let ?s4 = "reg_put 4 (set_flag 0 5) (?p2\<lparr>ic := ?c1\<lparr>ic_registered := (replicate MAX_INTERRUPTS False)[5 := True]\<rparr>\<rparr>)"
  have r0: "reg_get 4 (?p2\<lparr>ic := i\<rparr>) = 0" for i by (simp add: reg_get_def register_init_def)
  have ops: "ic_registerInterrupt 5 (?p2\<lparr>ic := ?c1\<rparr>) = ret True (?p2\<lparr>ic := ?c1\<lparr>ic_registered := (replicate MAX_INTERRUPTS False)[5 := True]\<rparr>\<rparr>)"
    "ic_enable 5 (?p2\<lparr>ic := ?c1\<lparr>ic_registered := (replicate MAX_INTERRUPTS False)[5 := True]\<rparr>\<rparr>) = ret () ?s4"
    using r0 by (simp_all add: ic_registerInterrupt_def ic_enable_def ic_validId_def MAX_INTERRUPTS_def Let_def)
  let ?s5 = "(?s4\<lparr>interruptFired := False\<rparr>)\<lparr>ic := dma_ic\<rparr>"
  have h: "ic_registerHandler 5 (Some 0) (?s4\<lparr>interruptFired := False\<rparr>) = ret True ?s5"
    by (simp add: ic_registerHandler_def ic_validId_def MAX_INTERRUPTS_def dma_ic_def)
  let ?s6 = "sb_init True True True ?s5"
  let ?s7 = "?s6\<lparr>sb := dma_bus, dmas := (dmas ?s6)(0 := configured 0 0 0 True)\<rparr>"
  have bus: "snd (sb_attachDMA (Some 0) (upd_dma 0 (dma_attachInterruptController True 5) (upd_dma 0 (\<lambda>_. dma_init True True True False)
      (sb_attachUART True ?s6)))) = ?s7"
    by (simp add: sb_attachDMA_def sb_attachUART_def sb_init_def upd_dma_def upd_sb_def Let_def dma_bus_def dma_init_def xfer_def
        dma_attachInterruptController_def dma_attachMemory_def dma_attachMMIO_def dma_attachUART_def dma_attachScheduler_def)
  let ?c = "cpu_init True (c0\<lparr>world := (w, ?s7)\<rparr>)"
  have "main_of [print outs, machine (new_memory 2048), machine new_mmio, machine (new_uart 0x40003000 DEFAULT_BAUD_RATE),
      machine (via_uart (plainly uart_enable)), machine (new_ic 0x40002000), machine (ic_registerInterrupt 5), machine (ic_enable 5),
      machine (plainly (\<lambda>s. s\<lparr>interruptFired := False\<rparr>)), machine (ic_registerHandler 5 (Some 0)), machine (plainly (sb_init True True True)),
      machine (plainly (sb_attachUART True)), machine (plainly (upd_dma 0 (\<lambda>_. dma_init True True True False))),
      machine (plainly (upd_dma 0 (dma_attachInterruptController True 5))), machine (plainly (\<lambda>s. snd (sb_attachDMA (Some 0) s))),
      doing (plainly (cpu_init True))] c0 = Some (ret () ?c)"
    using uart en irq ops h bus
    by (simp add: main_of_def print_def machine_def say_def via_bus_def new_mmio_def new_memory_def ws doing_def plainly_def [of "sb_init True True True"]
        plainly_def [of "sb_attachUART True"] plainly_def [of "upd_dma 0 f" for f] plainly_def [of "\<lambda>s. snd (sb_attachDMA (Some 0) s)"]
        plainly_def [of "cpu_init True"] plainly_def [of "\<lambda>s. s\<lparr>interruptFired := False\<rparr>"])
  moreover have "dd_at \<lparr>dd_mem = \<lambda>_. 0, dd_tx = [], dd_dma = configured 0 0 0 True, dd_pend = 0, dd_sched = sched_init, dd_fired = False,
      dd_out = outs\<rparr> ?s7"
  proof -
    have regs: "reg_get 2 ?s7 = set_flag 0 0" "reg_get 4 ?s7 = set_flag 0 5" "reg_get 5 ?s7 = 0"
      by (simp_all add: reg_get_def sb_init_def register_init_def reg_put_def register_write_def)
    have "fst ` set (m_registers ?s7) = {0x40003000, 0x40003000 + 4, 0x40003000 + 8, 0x40003000 + 12, 0x40002000, 0x40002000 + 4, 0x40002000 + 8}"
      by (simp add: sb_init_def)
    moreover have "mmio_contains y ?s7 \<longleftrightarrow> y \<in> fst ` set (m_registers ?s7)" for y
      by (simp add: mmio_contains_def map_of_eq_None_iff)
    ultimately have "mmio_contains y ?s7 \<Longrightarrow> y \<in> {0x40003000, 0x40003000 + 4, 0x40003000 + 8, 0x40003000 + 12, 0x40002000, 0x40002000 + 4, 0x40002000 + 8}" for y
      by simp
    then have out: "\<not> mmio_contains y ?s7" if "unat y < 2048" for y using that by fastforce
    show ?thesis
      unfolding dd_at_def using regs out
      by (simp add: sb_init_def flag_simps memory_init_def)
  qed
  ultimately show ?thesis by (auto simp: dhosts_def cpu_init_def Let_def blank_cpu_def)
qed

section \<open>The transcript\<close>

lemma dma_executes:
  assumes "runs dhosts (steps rest) (\<lparr>dd_mem = \<lambda>_. 0, dd_tx = [], dd_dma = configured 0 0 0 True, dd_pend = 0, dd_sched = sched_init,
      dd_fired = False, dd_out = outs\<rparr>, False) (a, r)"
    and "os_text (puts (dd_out a) std_cout) = t"
  shows "\<exists>c. main_of (print outs # machine (new_memory 2048) # machine new_mmio # machine (new_uart 0x40003000 DEFAULT_BAUD_RATE) #
      machine (via_uart (plainly uart_enable)) # machine (new_ic 0x40002000) # machine (ic_registerInterrupt 5) # machine (ic_enable 5) #
      machine (plainly (\<lambda>s. s\<lparr>interruptFired := False\<rparr>)) # machine (ic_registerHandler 5 (Some 0)) # machine (plainly (sb_init True True True)) #
      machine (plainly (sb_attachUART True)) # machine (plainly (upd_dma 0 (\<lambda>_. dma_init True True True False))) #
      machine (plainly (upd_dma 0 (dma_attachInterruptController True 5))) # machine (plainly (\<lambda>s. snd (sb_attachDMA (Some 0) s))) #
      doing (plainly (cpu_init True)) # rest) c0 = Some (ret () c) \<and> os_text (cout (snd (world c))) = t"
proof -
  have "os_text (cout (snd (world c))) = t" if "dhosts (a, r) c" for c
    using that assms(2) by (auto simp: dhosts_def dest: dd_atD(13))
  from main_of_executes [OF dma_built assms(1), of "\<lambda>c. os_text (cout (snd (world c))) = t", OF this] show ?thesis by simp
qed

lemma d_fill:
  assumes "unat base + length cs \<le> 2048"
  shows "runs (dhosts :: _ \<Rightarrow> (app_world, 'z dma_demo_st_scheme) computer \<Rightarrow> bool) (machine (dma_demo_fill base cs)) (a, r)
    (a\<lparr>dd_mem := filled (unat base) (map byte cs) (dd_mem a)\<rparr>, r)"
proof -
  have "d_does (for_each (\<lambda>(i, ch). mem_write (base + of_nat i) (byte ch)) (enumerate 0 cs) :: 'z dma_demo_st_scheme \<Rightarrow> _) a ()
      (a\<lparr>dd_mem := filled (unat base + 0) (map byte cs) (dd_mem a)\<rparr>)"
    by (rule fill_does) (use assms in simp)
  then have "d_does (dma_demo_fill base cs :: 'z dma_demo_st_scheme \<Rightarrow> _) a () (a\<lparr>dd_mem := filled (unat base) (map byte cs) (dd_mem a)\<rparr>)"
    unfolding dma_demo_fill_def by simp
  then show ?thesis by (rule d_machine(1))
qed

lemma filled_read:
  "n = length xs \<Longrightarrow> map (\<lambda>i. filled b xs f (b + i)) [0..<n] = xs"
  "n = length xs \<Longrightarrow> map (\<lambda>i. char_of_byte (filled b xs f (b + i))) [0..<n] = map char_of_byte xs"
  by (rule nth_equalityI; simp add: filled_def)+

lemma xfer_states:
  "d_busy (xfer src dst n inc on i) = on" "d_completed (xfer src dst n inc on i) = (\<not> on)"
  "wired (xfer src dst n inc False i)" "wired (configured src dst n inc)"
  by (simp_all add: xfer_def wired_def)

definition dma_demo_text :: string where
  "dma_demo_text =
     ''Starting Direct Memory Access (DMA) Controller Demo...'' @ nl @ nl @
     ''--- Demo 1: Memory-to-Memory DMA Copy ---'' @ nl @
     ''Configuring DMA: Source=0x100, Dest=0x200, Length=29 bytes'' @ nl @
     ''Running CPU simulation cycles for DMA transfer...'' @ nl @
     ''  [ISR] DMA Completion Interrupt (ID 5) fired!'' @ nl @
     ''Transfer Busy? No'' @ nl @
     ''Transfer Completed? Yes'' @ nl @
     ''Copied Memory Content: '' @ dquoted ''DMA Memory Copy Test Payload!'' @ nl @ nl @
     ''--- Demo 2: Memory-to-MMIO (UART TX) DMA Transfer ---'' @ nl @
     ''Running CPU cycles to stream data to UART TX register via DMA...'' @ nl @
     ''  [ISR] DMA Completion Interrupt (ID 5) fired!'' @ nl @
     ''UART TX FIFO Size: 22 bytes'' @ nl @
     ''UART Streamed Message: '' @ dquoted ''Hello via DMA to UART!'' @ nl @
     ''Interrupt Fired? Yes'' @ nl @ nl @
     ''Direct Memory Access (DMA) Controller Demo completed successfully.'' @ nl"

lemmas dma_rules =
  d_print d_print_of d_fill d_machine(1) [OF configure_does [where inc = True]] d_machine(1) [OF configure_does [where inc = False]]
  d_machine(1) [OF start_does] d_copy d_stream d_machine(2) [OF read_does] d_machine(1) [OF drain_does]

lemma text_lengths: "length testData = 29" "length uartMsg = 22"
  by (simp_all add: testData_def uartMsg_def)

lemmas dma_state = dd_served_def dd_done_def sched_schedule_def sched_init_def bytes_at_def filled_read text_lengths

text \<open>
  C21. From every machine the DMA demonstration returns, at every depth of the task scheduler, and prints exactly this
  text: the controller moves one byte per processor cycle, the text arrives in the second buffer and, byte by byte and
  in order, in the transmit queue of the UART, and the completion interrupt is served in the cycle of the last byte.
\<close>

theorem dma_demo_transcript:
  "\<exists>c. dma_demo d c0 = Some (ret () c) \<and> os_text (cout (snd (world c))) = dma_demo_text"
  unfolding dma_demo_def
  by (rule dma_executes,
      ((rule runs_step, (rule dma_rules; (simp add: text_lengths xfer_states dhosts_fields sched_init_def; fail)),
        simp add: dma_state)+)[1], rule runs_nil)
    (simp add: render dma_demo_text_def isr_text_def yes_no_line_def dquoted_def testData_def uartMsg_def)

end
