(* ===== verification/Example_Adc.thy ===== *)
theory Example_Adc
  imports Example_Kit
begin

text \<open>
  The program of \<^verbatim>\<open>examples/adc_demo.cpp\<close>. Its floating-point operations round with the argument \<open>rnd\<close>, its
  literals included, and its transcript is the same for every rounding that is close enough and commutes with
  doubling, which IEEE double precision is on the numbers that occur.
\<close>

section \<open>Decimal output of doubles\<close>

text \<open>The nearest integer, ties to even, as the output of a double rounds.\<close>

definition nearest :: "real \<Rightarrow> int" where
  "nearest x = (let n = \<lfloor>x\<rfloor>; d = x - of_int n
     in if d < 1 / 2 then n else if d > 1 / 2 then n + 1 else if even n then n else n + 1)"

text \<open>\<^verbatim>\<open>std::fixed\<close> with a precision of at least one.\<close>

definition show_fixed :: "nat \<Rightarrow> real \<Rightarrow> string" where
  "show_fixed p v =
     (let n = nat (nearest (\<bar>v\<bar> * 10 ^ p)); fraction = show_dec (n mod 10 ^ p)
      in (if v < 0 then ''-'' else []) @ show_dec (n div 10 ^ p) @ ''.'' @
         replicate (p - length fraction) (CHR ''0'') @ fraction)"

text \<open>
  The default format, of precision 6, for a number from 1 on with fewer than six digits before the point: six
  significant digits without the zeros at the end.
\<close>

definition show_default :: "real \<Rightarrow> string" where
  "show_default v =
     (let s = rev (dropWhile (\<lambda>c. c = CHR ''0'') (rev (show_fixed (6 - length (show_dec (nat \<lfloor>v\<rfloor>))) v)))
      in if last s = CHR ''.'' then butlast s else s)"

section \<open>The program\<close>

definition adc_demo_channel ::
  "(real \<Rightarrow> real) \<Rightarrow> nat \<Rightarrow> 'z demo_st_scheme \<Rightarrow> (unit, 'z demo_st_scheme) outcome" where
  "adc_demo_channel rnd ch s =
     and_then (adc_hal_read rnd True ch s) (\<lambda>rawDigital s.
     and_then (via_adc (adc_analogInput ch) s) (\<lambda>inputVolt s.
     and_then (adc_hal_referenceVoltage True s) (\<lambda>vref s.
     let reconstructedVolt = rnd (rnd (real (unat rawDigital) / 4095) * vref) in
     and_then (adc_hal_referenceVoltage True s) (\<lambda>vref.
       say [Str ''  Channel '', Num ch, Str '' | Analog Input: '', Str (show_fixed 2 inputVolt),
            Str '' V | Digital Raw: '', NumW 4 (unat rawDigital), Str '' | Reconstructed: '',
            Str (show_fixed 2 reconstructedVolt), Str '' V'',
            Str (if inputVolt > vref then '' [SATURATED]'' else []), Str nl]))))"

text \<open>The loop over the channels, whose number only the constructor sets.\<close>

fun adc_demo_channels ::
  "(real \<Rightarrow> real) \<Rightarrow> nat list \<Rightarrow> 'z demo_st_scheme \<Rightarrow> (unit, 'z demo_st_scheme) outcome" where
  "adc_demo_channels rnd [] s = ret () s"
| "adc_demo_channels rnd (ch # chs) s = and_then (adc_demo_channel rnd ch s) (\<lambda>_. adc_demo_channels rnd chs)"

definition adc_demo_resolution ::
  "(real \<Rightarrow> real) \<Rightarrow> u8 \<Rightarrow> 'z demo_st_scheme \<Rightarrow> (unit, 'z demo_st_scheme) outcome" where
  "adc_demo_resolution rnd res s =
     and_then (via_adc (adc_setResolution res) s) (\<lambda>_ s.
       let maxDigital = push_bit (unat res) 1 - 1 :: u32 in
       and_then (adc_hal_read rnd True 0 s) (\<lambda>raw.
         say [Str ''  Resolution: '', NumW 2 (unat res), Str ''-bit | Max Digital: '', NumW 4 (unat maxDigital),
              Str '' | Raw Output: '', NumW 4 (unat raw), Str nl]))"

definition adc_demo ::
  "(real \<Rightarrow> real) \<Rightarrow> (app_world, 'z demo_st_scheme) computer \<Rightarrow>
   (unit, (app_world, 'z demo_st_scheme) computer) outcome option" where
  "adc_demo rnd = main_of
     ([print [line ''Starting Analog-to-Digital Converter (ADC) Demo...''],
       machine new_mmio,
       machine (plainly (sb_init False True False)),
       machine (new_adc 0x40007000 12 (rnd (33 / 10)) 4),
       machine (plainly (sb_attachADC True)),
       machine (adc_hal_enable True),
       print [line ''ADC Peripheral enabled.''],
       print [Str ''  Base Address:       0x'', Hex, Num 0x40007000, Dec, Str nl],
       machine (say_of (\<lambda>s. [Str ''  Resolution:         '', Num (unat (a_resolutionBits (adc0 s))), Str ''-bit (0..'',
         Num (unat (push_bit (unat (a_resolutionBits (adc0 s))) 1 - 1 :: u32)), Str ('')'' @ nl)])),
       machine (say_result (adc_hal_referenceVoltage True)
         (\<lambda>v. [Str ''  Reference Voltage:  '', Str (show_default v), Str ('' V'' @ nl)])),
       machine (say_of (\<lambda>s. [Str ''  Channel Count:      '', Num (adc_channelCount (adc0 s)), Str (nl @ nl)])),
       print [line ''--- Demo 1: Multi-Channel Analog Sensor Sampling ---''],
       machine (via_adc (adc_setAnalogInput 0 (rnd (165 / 100)))),
       machine (via_adc (adc_setAnalogInput 1 (rnd (75 / 100)))),
       machine (via_adc (adc_setAnalogInput 2 (rnd 3))),
       machine (via_adc (adc_setAnalogInput 3 (rnd (42 / 10)))),
       machine (\<lambda>s. adc_demo_channels rnd [0..<adc_channelCount (adc0 s)] s),
       print [line (nl @ ''--- Demo 2: Resolution Dynamics (8-bit, 10-bit, 12-bit) ---'')],
       machine (via_adc (adc_setAnalogInput 0 (rnd (2475 / 1000))))] @
      map (\<lambda>res. machine (adc_demo_resolution rnd res)) [8, 10, 12] @
      [print [line (nl @ ''Resetting SystemBus...'')],
       machine (plainly sb_reset),
       machine (say_of (\<lambda>s. [Str ''ADC Enabled after reset? '', Str (if adc_hal_enabled True s then ''Yes'' else ''No''), Str nl])),
       print [line (nl @ ''ADC Controller Demo completed successfully.'')]])"

section \<open>Roundings\<close>

text \<open>
  What is used of the rounding of doubles: it is monotone and leaves small integers alone, its relative error
  is less than \<open>10^-9\<close> (that of IEEE double precision is at most \<open>2^-53\<close>) and it commutes with doubling, both on
  numbers between one thousandth and ten thousand.
\<close>

definition rounds_closely :: "(real \<Rightarrow> real) \<Rightarrow> bool" where
  "rounds_closely rnd \<longleftrightarrow> rounds_well rnd \<and>
     (\<forall>x. 1 / 1000 \<le> x \<and> x \<le> 10000 \<longrightarrow> \<bar>rnd x - x\<bar> \<le> x / 10 ^ 9 \<and> rnd (2 * x) = 2 * rnd x)"

lemma rounds_closely_id: "rounds_closely (\<lambda>x. x)"
  by (simp add: rounds_closely_def rounds_well_id)

definition between :: "real \<Rightarrow> real \<Rightarrow> real \<Rightarrow> bool" where
  "between lo hi x \<longleftrightarrow> lo \<le> x \<and> x \<le> hi"

lemma between_rnd:
  assumes "rounds_closely rnd" and "between lo hi x" and "1 / 1000 \<le> lo" and "hi \<le> 10000"
  shows "between (lo * (1 - 1 / 10 ^ 9)) (hi * (1 + 1 / 10 ^ 9)) (rnd x)"
proof -
  have "1 / 1000 \<le> x" "x \<le> 10000" "lo \<le> x" "x \<le> hi" using assms(2-4) by (auto simp: between_def)
  moreover then have "\<bar>rnd x - x\<bar> \<le> x / 10 ^ 9" using assms(1) by (simp add: rounds_closely_def)
  from abs_le_D1 [OF this] abs_le_D2 [OF this] have "rnd x - x \<le> x / 10 ^ 9" "x - rnd x \<le> x / 10 ^ 9" by simp_all
  ultimately show ?thesis by (simp add: between_def)
qed

lemma between_divide: "between a b x \<Longrightarrow> between c d y \<Longrightarrow> 0 < a \<Longrightarrow> 0 < c \<Longrightarrow> between (a / d) (b / c) (x / y)"
  by (auto simp: between_def intro!: frac_le)

lemma between_mult: "between a b x \<Longrightarrow> between c d y \<Longrightarrow> 0 < a \<Longrightarrow> 0 < c \<Longrightarrow> between (a * c) (b * d) (x * y)"
  by (auto simp: between_def intro!: mult_mono)

lemma between_self: "between x x x"
  by (simp add: between_def)

lemma nearest_eq: "\<bar>x - of_int n\<bar> < 1 / 2 \<Longrightarrow> nearest x = n"
proof -
  assume a: "\<bar>x - of_int n\<bar> < 1 / 2"
  then have "\<lfloor>x\<rfloor> = n \<or> \<lfloor>x\<rfloor> = n - 1" by linarith
  then show ?thesis using a by (auto simp: nearest_def Let_def)
qed

lemma round_between: "between lo hi x \<Longrightarrow> of_int n - 1 / 2 < lo \<Longrightarrow> hi < of_int n + 1 / 2 \<Longrightarrow> round x = n"
  unfolding between_def by (intro round_unique') linarith

section \<open>Its execution\<close>

text \<open>Whether the converter is on, its resolution, its reference and its inputs.\<close>

type_synonym abs_adc = "bool \<times> u8 \<times> real \<times> real list"

definition adc_state :: "abs_adc \<Rightarrow> 'z bus_st_scheme \<Rightarrow> bool" where
  "adc_state = (\<lambda>(on, bits, vref, vs) s.
     (\<exists>last. adc0 s = \<lparr>a_base = 0x40007000, a_resolutionBits = bits, a_referenceVoltage = vref, a_channels = vs,
        a_controlRegister = 0, a_statusRegister = 1, a_resRegister = 2, a_dataRegister = 3, a_lastSample = last\<rparr>) \<and>
     test_flag (reg_get 0 s) 0 = on \<and> m_initialValue (reg_objs s 0) = 0 \<and>
     sb s = \<lparr>sb_memory = False, sb_mmioBus = True, sb_interruptController = False, sb_dmas = [], sb_timers = [],
       sb_gpio = False, sb_uart = False, sb_spi = False, sb_i2c = False, sb_pwm = False, sb_adc = True\<rparr>)"

lemma adc_machine_put [simp]:
  "adc0 (reg_put r v s) = adc0 s" "sb (reg_put r v s) = sb s" "adc0 (reg_rst r s) = adc0 s" "sb (reg_rst r s) = sb s"
  "reg_get r (t\<lparr>adc0 := a\<rparr>) = reg_get r t" "reg_get r (t\<lparr>clock := k\<rparr>) = reg_get r t" "reg_get r (t\<lparr>esched := q\<rparr>) = reg_get r t"
  "reg_get r (t\<lparr>sb := b\<rparr>) = reg_get r t"
  by (simp_all add: reg_put_def reg_rst_def reg_get_def)

lemma adc_state_print [simp]: "adc_state a (s\<lparr>cout := os\<rparr>) = adc_state a s"
  by (cases a) (simp add: adc_state_def reg_get_def)

definition adc_at :: "abs_adc \<times> out list \<Rightarrow> ('w, 'z demo_st_scheme) computer \<Rightarrow> bool" where
  "adc_at = printing adc_state"

interpretation adc_out: printer adc_at
  by unfold_locales (auto simp: adc_at_def printing_def puts_append)

lemmas adc_at_call = printing_call [where R = adc_state, folded adc_at_def]

lemmas adc_at_quiet = printing_quiet [where R = adc_state, folded adc_at_def]

lemmas adc_call_defs =
  via_adc_def plainly_def adc_state_def adc_updateStatusRegister_def adc_enabled_def Let_def

lemma adc_at_enable: "runs adc_at (machine (adc_hal_enable True)) ((on, bits, vref, vs), xs) ((True, bits, vref, vs), xs)"
  by (rule adc_at_quiet) (auto simp: adc_call_defs adc_hal_enable_def adc_enable_def flag_simps)

lemma adc_at_input:
  "ch < length vs \<Longrightarrow> 0 \<le> v \<Longrightarrow>
   runs adc_at (machine (via_adc (adc_setAnalogInput ch v))) ((on, bits, vref, vs), xs) ((on, bits, vref, vs[ch := v]), xs)"
  by (rule adc_at_quiet) (auto simp: adc_call_defs adc_setAnalogInput_def)

lemma adc_at_say_of:
  assumes "\<And>s :: 'z demo_st_scheme. adc_state a s \<Longrightarrow> f s = outs"
  shows "runs adc_at (machine (say_of f)) (a, xs) (a, xs @ outs)"
  by (rule adc_at_call) (use assms in \<open>auto simp: say_of_def say_def\<close>)

lemma adc_at_reference:
  "runs adc_at (machine (say_result (adc_hal_referenceVoltage True) f)) ((on, bits, vref, vs), xs)
     ((on, bits, vref, vs), xs @ f vref)"
  by (rule adc_at_call) (auto simp: say_result_def say_def adc_hal_referenceVoltage_def adc_state_def reg_get_def)

lemma adc_state_read:
  assumes "adc_state (True, bits, vref, vs) s" and "ch < length vs"
  shows "\<exists>s'. adc_hal_read rnd True ch s = ret (adc_convert rnd (vs ! ch) vref bits) s' \<and>
    adc_state (True, bits, vref, vs) s' \<and> cout s' = cout s"
  using assms by (auto simp: adc_call_defs adc_hal_read_def adc_sample_def)

definition channel_out :: "(real \<Rightarrow> real) \<Rightarrow> u8 \<Rightarrow> real \<Rightarrow> real list \<Rightarrow> nat \<Rightarrow> out list" where
  "channel_out rnd bits vref vs ch =
     (let raw = unat (adc_convert rnd (vs ! ch) vref bits)
      in [Str ''  Channel '', Num ch, Str '' | Analog Input: '', Str (show_fixed 2 (vs ! ch)), Str '' V | Digital Raw: '',
          NumW 4 raw, Str '' | Reconstructed: '', Str (show_fixed 2 (rnd (rnd (real raw / 4095) * vref))), Str '' V'',
          Str (if vs ! ch > vref then '' [SATURATED]'' else []), Str nl])"

lemma adc_demo_channel_runs:
  assumes "adc_state (True, bits, vref, vs) s" and "ch < length vs"
  shows "\<exists>s'. adc_demo_channel rnd ch s = ret () s' \<and> adc_state (True, bits, vref, vs) s' \<and>
    cout s' = puts (channel_out rnd bits vref vs ch) (cout s)"
proof -
  obtain t where t: "adc_hal_read rnd True ch s = ret (adc_convert rnd (vs ! ch) vref bits) t"
    "adc_state (True, bits, vref, vs) t" "cout t = cout s"
    using adc_state_read [OF assms] by blast
  have "via_adc (adc_analogInput ch) t = ret (vs ! ch) t" "adc_hal_referenceVoltage True t = ret vref t"
    using t(2) assms(2) by (auto simp: adc_state_def via_adc_def adc_analogInput_def adc_hal_referenceVoltage_def)
  with t show ?thesis by (simp add: adc_demo_channel_def channel_out_def say_def Let_def)
qed

lemma adc_demo_channels_run:
  "adc_state (True, bits, vref, vs) s \<Longrightarrow> \<forall>ch \<in> set chs. ch < length vs \<Longrightarrow>
   \<exists>s'. adc_demo_channels rnd chs s = ret () s' \<and> adc_state (True, bits, vref, vs) s' \<and>
     cout s' = puts (concat (map (channel_out rnd bits vref vs) chs)) (cout s)"
proof (induction chs arbitrary: s)
  case (Cons ch chs)
  then obtain t where "adc_demo_channel rnd ch s = ret () t" "adc_state (True, bits, vref, vs) t"
    "cout t = puts (channel_out rnd bits vref vs ch) (cout s)"
    using adc_demo_channel_runs [OF Cons.prems(1), of ch rnd] by auto
  with Cons.IH [of t] Cons.prems(2) show ?case by (auto simp: puts_append)
qed (simp add: puts_def)

lemma adc_at_channels:
  "runs adc_at (machine (\<lambda>s. adc_demo_channels rnd [0..<adc_channelCount (adc0 s)] s)) ((True, bits, vref, vs), xs)
     ((True, bits, vref, vs), xs @ concat (map (channel_out rnd bits vref vs) [0..<length vs]))"
proof (rule adc_at_call)
  fix s :: "'z demo_st_scheme"
  assume s: "adc_state (True, bits, vref, vs) s"
  then have "adc_channelCount (adc0 s) = length vs" by (auto simp: adc_state_def adc_channelCount_def)
  with adc_demo_channels_run [OF s, of "[0..<length vs]" rnd]
  show "\<exists>v s'. adc_demo_channels rnd [0..<adc_channelCount (adc0 s)] s = ret v s' \<and> adc_state (True, bits, vref, vs) s' \<and>
      cout s' = puts (concat (map (channel_out rnd bits vref vs) [0..<length vs])) (cout s)" by auto
qed

definition resolution_out :: "(real \<Rightarrow> real) \<Rightarrow> u8 \<Rightarrow> real \<Rightarrow> real list \<Rightarrow> out list" where
  "resolution_out rnd bits vref vs =
     [Str ''  Resolution: '', NumW 2 (unat bits), Str ''-bit | Max Digital: '',
      NumW 4 (unat (push_bit (unat bits) 1 - 1 :: u32)), Str '' | Raw Output: '',
      NumW 4 (unat (adc_convert rnd (vs ! 0) vref bits)), Str nl]"

lemma adc_at_resolution:
  assumes "adc_resolution_ok bits" and "vs \<noteq> []"
  shows "runs adc_at (machine (adc_demo_resolution rnd bits)) ((True, b, vref, vs), xs)
    ((True, bits, vref, vs), xs @ resolution_out rnd bits vref vs)"
proof (rule adc_at_call)
  fix s :: "'z demo_st_scheme"
  assume "adc_state (True, b, vref, vs) s"
  with assms(1) obtain t where t: "via_adc (adc_setResolution bits) s = ret () t" "adc_state (True, bits, vref, vs) t" "cout t = cout s"
    by (auto simp: adc_call_defs adc_setResolution_def)
  with adc_state_read [OF t(2), of 0 rnd] assms(2) obtain u where
    "adc_hal_read rnd True 0 t = ret (adc_convert rnd (vs ! 0) vref bits) u" "adc_state (True, bits, vref, vs) u" "cout u = cout s"
    by auto
  with t(1) show "\<exists>v s'. adc_demo_resolution rnd bits s = ret v s' \<and> adc_state (True, bits, vref, vs) s' \<and>
      cout s' = puts (resolution_out rnd bits vref vs) (cout s)"
    by (simp add: adc_demo_resolution_def resolution_out_def say_def Let_def)
qed

lemma adc_at_reset:
  "runs adc_at (machine (plainly sb_reset)) ((on, bits, vref, vs), xs) ((False, 12, default_reference, replicate (length vs) 0), xs)"
  by (rule adc_at_quiet) (auto simp: adc_call_defs sb_reset_def adc_reset_def adc_disable_def flag_simps)

text \<open>The machine when the converter is built.\<close>

lemma adc_init_builds:
  assumes "fresh_at [base, base + 4, base + 8, base + 12] s" and "next_ref s = 0"
    and "adc_resolution_ok bits" and "0 < vref" and "0 < n"
  shows "\<exists>v. adc_init base bits vref n s =
    ret \<lparr>a_base = base, a_resolutionBits = bits, a_referenceVoltage = vref, a_channels = replicate n 0,
        a_controlRegister = 0, a_statusRegister = 1, a_resRegister = 2, a_dataRegister = 3, a_lastSample = 0\<rparr>
      (reg_put 1 v (placed [(base, 0), (base + 4, 0), (base + 8, ucast bits), (base + 12, 0)] s))"
  using placed_chains(2) [OF assms(1), of 0 0 "ucast bits" 0] assms(2-)
  by (auto simp: adc_init_def make_chain Let_def numeral_2_eq_2 numeral_3_eq_3 adc_updateStatusRegister_def)

lemma adc_demo_begin:
  assumes "0 < vref"
  shows "\<exists>c. main_of [print outs, machine new_mmio, machine (plainly (sb_init False True False)),
      machine (new_adc 0x40007000 12 vref 4), machine (plainly (sb_attachADC True))] c0 = Some (ret () c) \<and>
    adc_at ((False, 12, vref, [0, 0, 0, 0]), outs) c"
proof -
  obtain w s0 where ws: "world c0 = (w, s0)" by (cases "world c0")
  let ?s = "sb_init False True False (s0\<lparr>cout := puts outs std_cout, next_ref := 0, m_registers := []\<rparr>)"
  let ?p = "placed [(0x40007000, 0), (0x40007000 + 4, 0), (0x40007000 + 8, 12), (0x40007000 + 12, 0)] ?s"
  let ?a = "\<lparr>a_base = 0x40007000, a_resolutionBits = 12, a_referenceVoltage = vref, a_channels = replicate 4 0,
      a_controlRegister = 0, a_statusRegister = 1, a_resRegister = 2, a_dataRegister = 3, a_lastSample = 0\<rparr>"
  have "fresh_at [0x40007000, 0x40007000 + 4, 0x40007000 + 8, 0x40007000 + 12] ?s" by (simp add: fresh_at_def sb_init_def)
  from adc_init_builds [where bits = 12 and n = 4, OF this _ _ assms]
  obtain v where a: "adc_init 0x40007000 12 vref 4 ?s = ret ?a (reg_put 1 v ?p)"
    by (auto simp: adc_resolution_ok_def sb_init_def)
  let ?c = "c0\<lparr>world := (w, (sb_attachADC True (reg_put 1 v ?p))\<lparr>adc0 := ?a\<rparr>)\<rparr>"
  have "main_of [print outs, machine new_mmio, machine (plainly (sb_init False True False)),
      machine (new_adc 0x40007000 12 vref 4), machine (plainly (sb_attachADC True))] c0 = Some (ret () ?c)"
    using a by (simp add: main_of_def print_def machine_def say_def via_bus_def new_mmio_def new_adc_def ws plainly_def
      sb_attachADC_def upd_sb_def)
  moreover have "adc_at ((False, 12, vref, [0, 0, 0, 0]), outs) ?c"
    by (simp add: adc_at_def printing_def adc_state_def sb_attachADC_def upd_sb_def sb_init_def numeral_eq_Suc)
      (simp add: placed_def Let_def reg_get_def register_init_def numeral_2_eq_2 numeral_3_eq_3)
  ultimately show ?thesis by blast
qed

section \<open>The numbers that are printed\<close>

text \<open>A number in an interval around a decimal is printed as the decimal.\<close>

lemma show_fixed_between:
  assumes "between lo hi v" and "0 \<le> lo" and "real n - 1 / 2 < lo * 10 ^ p" and "hi * 10 ^ p < real n + 1 / 2"
  shows "show_fixed p v =
    (let fraction = show_dec (n mod 10 ^ p)
     in show_dec (n div 10 ^ p) @ ''.'' @ replicate (p - length fraction) (CHR ''0'') @ fraction)"
proof -
  have v: "0 \<le> v" "lo * 10 ^ p \<le> v * 10 ^ p" "v * 10 ^ p \<le> hi * 10 ^ p" using assms(1,2) by (simp_all add: between_def)
  then have "\<bar>v * 10 ^ p - of_int (int n)\<bar> < 1 / 2" using assms(3,4) unfolding of_int_of_nat_eq by linarith
  then have "nearest (\<bar>v\<bar> * 10 ^ p) = int n" using v(1) by (simp add: nearest_eq)
  then show ?thesis using v(1) by (simp add: show_fixed_def Let_def)
qed

lemma barely_less: "1 / 100 \<le> x \<Longrightarrow> 0 < x * (1 - 1 / 10 ^ 9) \<and> 1 / 1000 \<le> x * (1 - 1 / 10 ^ 9)" for x :: real
  by simp

lemma convert_between:
  assumes rnd: "rounds_closely rnd" and ok: "adc_resolution_ok bits" and v: "between a b v" "0 < a" and vref: "between c d vref" "0 < c"
    and lt: "b < c" and small: "1 / 100 \<le> a / d" and
    k: "real k - 1 / 2 < a / d * (1 - 1 / 10 ^ 9) * adc_top bits * (1 - 1 / 10 ^ 9)"
      "b / c * (1 + 1 / 10 ^ 9) * adc_top bits * (1 + 1 / 10 ^ 9) < real k + 1 / 2"
  shows "unat (adc_convert rnd v vref bits) = k"
proof -
  have well: "rounds_well rnd" using rnd by (simp add: rounds_closely_def)
  have top: "1 \<le> adc_top bits" "adc_top bits \<le> 4095" using adc_top_cases [OF ok] by simp_all
  have "b / c \<le> 1" using lt v vref by (auto simp: between_def)
  with small have "1 / 1000 \<le> a / d" "b / c \<le> 10000" by linarith+
  note q = between_rnd [OF rnd between_divide [OF v(1) vref(1) v(2) vref(2)] this]
  have pos: "0 < a / d * (1 - 1 / 10 ^ 9)" using barely_less [OF small] by simp
  have "1 / 1000 \<le> a / d * (1 - 1 / 10 ^ 9) * 1" using barely_less [OF small] by simp
  also have "\<dots> \<le> a / d * (1 - 1 / 10 ^ 9) * adc_top bits" by (rule mult_left_mono) (use top small in simp_all)
  finally have lo: "1 / 1000 \<le> a / d * (1 - 1 / 10 ^ 9) * adc_top bits" .
  have "b / c * (1 + 1 / 10 ^ 9) * adc_top bits \<le> (1 + 1 / 10 ^ 9) * 4095"
    by (rule mult_mono) (use \<open>b / c \<le> 1\<close> top in simp_all)
  then have hi: "b / c * (1 + 1 / 10 ^ 9) * adc_top bits \<le> 10000" by simp
  have "0 < real (adc_top bits)" using top by simp
  note between_rnd [OF rnd between_mult [OF q between_self pos this] lo hi]
  from round_between [OF this, of "int k"] k have "adc_code rnd v vref (adc_top bits) = int k" by (simp add: adc_code_def)
  moreover have "\<not> v \<le> 0" "\<not> vref \<le> v" using v vref lt by (auto simp: between_def)
  ultimately have "int (unat (adc_convert rnd v vref bits)) = int k" using adc_convert_nat [OF well ok, of v vref] by simp
  then show ?thesis by (simp only: of_nat_eq_iff)
qed

text \<open>What a code of twelve bits is printed as when it is turned back to a voltage.\<close>

lemma between_volt:
  assumes "rounds_closely rnd" and "1 / 1000 \<le> x" and "x \<le> 10000"
  shows "between (x * (1 - 1 / 10 ^ 9)) (x * (1 + 1 / 10 ^ 9)) (rnd x)"
  using between_rnd [OF assms(1) between_self assms(2,3)] .

lemma between_back:
  assumes rnd: "rounds_closely rnd" and k: "100 \<le> k" "k \<le> 4095"
  shows "between (k / 4095 * 33 / 10 * (1 - 1 / 10 ^ 7)) (k / 4095 * 33 / 10 * (1 + 1 / 10 ^ 7)) (rnd (rnd (real k / 4095) * rnd (33 / 10)))"
proof -
  let ?x = "real k / 4095" and ?lo = "1 - 1 / 10 ^ 9 :: real" and ?hi = "1 + 1 / 10 ^ 9 :: real"
  have x: "100 / 4095 \<le> ?x" "?x \<le> 1" using k by simp_all
  have "between (?x * ?lo) (?x * ?hi) (rnd ?x)" by (rule between_volt [OF rnd]) (use x in linarith)+
  moreover have "between (33 / 10 * ?lo) (33 / 10 * ?hi) (rnd (33 / 10))" by (rule between_volt [OF rnd]) simp_all
  ultimately have "between (?x * ?lo * (33 / 10 * ?lo)) (?x * ?hi * (33 / 10 * ?hi)) (rnd ?x * rnd (33 / 10))"
    by (rule between_mult) (use x in simp_all)
  from between_rnd [OF rnd this] x
  have "between (?x * ?lo * (33 / 10 * ?lo) * ?lo) (?x * ?hi * (33 / 10 * ?hi) * ?hi) (rnd (rnd ?x * rnd (33 / 10)))" by simp
  then show ?thesis using x unfolding between_def by (simp add: field_simps)
qed

lemma rnd_half:
  assumes "rounds_closely rnd"
  shows "rnd (33 / 20) / rnd (33 / 10) = 1 / 2" and "rnd (1 / 2) = 1 / 2" and "rnd (4095 / 2) = 4095 / 2"
proof -
  have two: "rnd (2 * x) = 2 * rnd x" if "1 / 1000 \<le> x" "x \<le> 10000" for x using assms that by (simp add: rounds_closely_def)
  have small: "rnd (real n) = real n" if "n \<le> 4095" for n using assms that by (simp add: rounds_closely_def rounds_well_def)
  show "rnd (1 / 2) = 1 / 2" using two [of "1 / 2"] small [of 1] by simp
  show "rnd (4095 / 2) = 4095 / 2" using two [of "4095 / 2"] small [of 4095] by simp
  have "0 < rnd (33 / 20)" using between_volt [OF assms, of "33 / 20"] by (simp add: between_def)
  then show "rnd (33 / 20) / rnd (33 / 10) = 1 / 2" using two [of "33 / 20"] by simp
qed

text \<open>The input at half of the reference falls between two codes, and rounds up.\<close>

lemma convert_half:
  assumes "rounds_closely rnd"
  shows "unat (adc_convert rnd (rnd (33 / 20)) (rnd (33 / 10)) 12) = 2048"
proof -
  have "between (33 / 20 * (1 - 1 / 10 ^ 9)) (33 / 20 * (1 + 1 / 10 ^ 9)) (rnd (33 / 20))"
    "between (33 / 10 * (1 - 1 / 10 ^ 9)) (33 / 10 * (1 + 1 / 10 ^ 9)) (rnd (33 / 10))"
    by (rule between_volt [OF assms]; simp)+
  then have "0 < rnd (33 / 20)" "rnd (33 / 20) < rnd (33 / 10)" by (simp_all add: between_def)
  moreover have "round (4095 / 2 :: real) = 2048" by (simp add: round_def)
  ultimately have "int (unat (adc_convert rnd (rnd (33 / 20)) (rnd (33 / 10)) 12)) = int 2048"
    using adc_convert_nat [of rnd 12 "rnd (33 / 20)" "rnd (33 / 10)"] assms rnd_half [OF assms]
    by (simp add: rounds_closely_def adc_resolution_ok_def adc_code_def adc_top_def)
  then show ?thesis by (simp only: of_nat_eq_iff)
qed

lemma adc_demo_codes:
  assumes "rounds_closely rnd"
  shows "unat (adc_convert rnd (rnd (3 / 4)) (rnd (33 / 10)) 12) = 931"
    and "unat (adc_convert rnd (rnd 3) (rnd (33 / 10)) 12) = 3723"
    and "unat (adc_convert rnd (rnd (99 / 40)) (rnd (33 / 10)) 8) = 191"
    and "unat (adc_convert rnd (rnd (99 / 40)) (rnd (33 / 10)) 10) = 767"
    and "unat (adc_convert rnd (rnd (99 / 40)) (rnd (33 / 10)) 12) = 3071"
proof -
  note volt = between_volt [OF assms]
  show "unat (adc_convert rnd (rnd (3 / 4)) (rnd (33 / 10)) 12) = 931"
    by (rule convert_between [OF assms _ volt _ volt]) (simp_all add: adc_resolution_ok_def adc_top_def)
  show "unat (adc_convert rnd (rnd 3) (rnd (33 / 10)) 12) = 3723"
    by (rule convert_between [OF assms _ volt _ volt]) (simp_all add: adc_resolution_ok_def adc_top_def)
  show "unat (adc_convert rnd (rnd (99 / 40)) (rnd (33 / 10)) 8) = 191"
    by (rule convert_between [OF assms _ volt _ volt]) (simp_all add: adc_resolution_ok_def adc_top_def)
  show "unat (adc_convert rnd (rnd (99 / 40)) (rnd (33 / 10)) 10) = 767"
    by (rule convert_between [OF assms _ volt _ volt]) (simp_all add: adc_resolution_ok_def adc_top_def)
  show "unat (adc_convert rnd (rnd (99 / 40)) (rnd (33 / 10)) 12) = 3071"
    by (rule convert_between [OF assms _ volt _ volt]) (simp_all add: adc_resolution_ok_def adc_top_def)
qed

lemma adc_demo_order:
  assumes "rounds_closely rnd"
  shows "0 < rnd (33 / 10)" "0 \<le> rnd (33 / 20)" "0 \<le> rnd (3 / 4)" "0 \<le> rnd 3" "0 \<le> rnd (21 / 5)" "0 \<le> rnd (99 / 40)"
    "\<not> rnd (33 / 10) < rnd (33 / 20)" "\<not> rnd (33 / 10) < rnd (3 / 4)" "\<not> rnd (33 / 10) < rnd 3" "rnd (33 / 10) < rnd (21 / 5)"
proof -
  note volt = between_volt [OF assms, unfolded between_def]
  show "0 < rnd (33 / 10)" "0 \<le> rnd (33 / 20)" "0 \<le> rnd (3 / 4)" "0 \<le> rnd 3" "0 \<le> rnd (21 / 5)" "0 \<le> rnd (99 / 40)"
    "\<not> rnd (33 / 10) < rnd (33 / 20)" "\<not> rnd (33 / 10) < rnd (3 / 4)" "\<not> rnd (33 / 10) < rnd 3" "rnd (33 / 10) < rnd (21 / 5)"
    using volt [of "33 / 10"] volt [of "33 / 20"] volt [of "3 / 4"] volt [of 3] volt [of "21 / 5"] volt [of "99 / 40"]
    by simp_all
qed

lemma adc_demo_volts:
  assumes "rounds_closely rnd"
  shows "show_fixed 2 (rnd (33 / 20)) = ''1.65''" and "show_fixed 2 (rnd (3 / 4)) = ''0.75''"
    and "show_fixed 2 (rnd 3) = ''3.00''" and "show_fixed 2 (rnd (21 / 5)) = ''4.20''"
proof -
  note printed = show_fixed_between [OF between_volt [OF assms]]
  show "show_fixed 2 (rnd (33 / 20)) = ''1.65''" by (subst printed [where n = 165]) (simp_all add: render)
  show "show_fixed 2 (rnd (3 / 4)) = ''0.75''" by (subst printed [where n = 75]) (simp_all add: render)
  show "show_fixed 2 (rnd 3) = ''3.00''" by (subst printed [where n = 300]) (simp_all add: render)
  show "show_fixed 2 (rnd (21 / 5)) = ''4.20''" by (subst printed [where n = 420]) (simp_all add: render)
qed

lemma adc_demo_back:
  assumes "rounds_closely rnd"
  shows "show_fixed 2 (rnd (rnd (real 2048 / 4095) * rnd (33 / 10))) = ''1.65''"
    and "show_fixed 2 (rnd (rnd (real 931 / 4095) * rnd (33 / 10))) = ''0.75''"
    and "show_fixed 2 (rnd (rnd (real 3723 / 4095) * rnd (33 / 10))) = ''3.00''"
    and "show_fixed 2 (rnd (rnd (real 4095 / 4095) * rnd (33 / 10))) = ''3.30''"
proof -
  show "show_fixed 2 (rnd (rnd (real 2048 / 4095) * rnd (33 / 10))) = ''1.65''"
    by (subst show_fixed_between [OF between_back [OF assms, of 2048], where n = 165])  (simp_all add: render)
  show "show_fixed 2 (rnd (rnd (real 931 / 4095) * rnd (33 / 10))) = ''0.75''"
    by (subst show_fixed_between [OF between_back [OF assms, of 931], where n = 75])  (simp_all add: render)
  show "show_fixed 2 (rnd (rnd (real 3723 / 4095) * rnd (33 / 10))) = ''3.00''"
    by (subst show_fixed_between [OF between_back [OF assms, of 3723], where n = 300])  (simp_all add: render)
  show "show_fixed 2 (rnd (rnd (real 4095 / 4095) * rnd (33 / 10))) = ''3.30''"
    by (subst show_fixed_between [OF between_back [OF assms, of 4095], where n = 330])  (simp_all add: render)
qed

lemma adc_demo_reference:
  assumes "rounds_closely rnd"
  shows "show_default (rnd (33 / 10)) = ''3.3''"
proof -
  note volt = between_volt [OF assms, of "33 / 10"]
  have "\<lfloor>rnd (33 / 10)\<rfloor> = 3" using volt by (simp add: between_def floor_unique)
  moreover have "show_fixed 5 (rnd (33 / 10)) = ''3.30000''"
    by (subst show_fixed_between [OF volt, where n = 330000]) (simp_all add: render)
  ultimately show ?thesis by (simp add: show_default_def render)
qed

section \<open>The transcript\<close>

lemma channel_out_eq:
  assumes "ch < length vs" and "unat (adc_convert rnd (vs ! ch) vref bits) = k" and "show_fixed 2 (vs ! ch) = volts"
    and "show_fixed 2 (rnd (rnd (real k / 4095) * vref)) = back" and "(vs ! ch > vref) = sat"
  shows "channel_out rnd bits vref vs ch =
    [Str ''  Channel '', Num ch, Str '' | Analog Input: '', Str volts, Str '' V | Digital Raw: '', NumW 4 k,
     Str '' | Reconstructed: '', Str back, Str '' V'', Str (if sat then '' [SATURATED]'' else []), Str nl]"
  using assms by (simp add: channel_out_def)

lemma adc_demo_lines:
  assumes rnd: "rounds_closely rnd"
  shows "channel_out rnd 12 (rnd (33 / 10)) [rnd (33 / 20), rnd (3 / 4), rnd 3, rnd (21 / 5)] 0 =
      [Str ''  Channel '', Num 0, Str '' | Analog Input: '', Str ''1.65'', Str '' V | Digital Raw: '', NumW 4 2048,
       Str '' | Reconstructed: '', Str ''1.65'', Str '' V'', Str [], Str nl]"
    and "channel_out rnd 12 (rnd (33 / 10)) [rnd (33 / 20), rnd (3 / 4), rnd 3, rnd (21 / 5)] (Suc 0) =
      [Str ''  Channel '', Num (Suc 0), Str '' | Analog Input: '', Str ''0.75'', Str '' V | Digital Raw: '', NumW 4 931,
       Str '' | Reconstructed: '', Str ''0.75'', Str '' V'', Str [], Str nl]"
    and "channel_out rnd 12 (rnd (33 / 10)) [rnd (33 / 20), rnd (3 / 4), rnd 3, rnd (21 / 5)] (Suc (Suc 0)) =
      [Str ''  Channel '', Num (Suc (Suc 0)), Str '' | Analog Input: '', Str ''3.00'', Str '' V | Digital Raw: '', NumW 4 3723,
       Str '' | Reconstructed: '', Str ''3.00'', Str '' V'', Str [], Str nl]"
    and "channel_out rnd 12 (rnd (33 / 10)) [rnd (33 / 20), rnd (3 / 4), rnd 3, rnd (21 / 5)] (Suc (Suc (Suc 0))) =
      [Str ''  Channel '', Num (Suc (Suc (Suc 0))), Str '' | Analog Input: '', Str ''4.20'', Str '' V | Digital Raw: '', NumW 4 4095,
       Str '' | Reconstructed: '', Str ''3.30'', Str '' V'', Str '' [SATURATED]'', Str nl]"
proof -
  note facts = convert_half [OF rnd] adc_demo_codes [OF rnd] adc_demo_order [OF rnd] adc_demo_volts [OF rnd]
  note printed = adc_demo_back [OF rnd]
  have top: "unat (adc_convert rnd (rnd (21 / 5)) (rnd (33 / 10)) 12) = 4095"
    using adc_demo_order [OF rnd] by (simp add: adc_convert_def)
  show "channel_out rnd 12 (rnd (33 / 10)) [rnd (33 / 20), rnd (3 / 4), rnd 3, rnd (21 / 5)] 0 =
      [Str ''  Channel '', Num 0, Str '' | Analog Input: '', Str ''1.65'', Str '' V | Digital Raw: '', NumW 4 2048,
       Str '' | Reconstructed: '', Str ''1.65'', Str '' V'', Str [], Str nl]"
    using channel_out_eq [of "0" "[rnd (33 / 20), rnd (3 / 4), rnd 3, rnd (21 / 5)]" rnd "rnd (33 / 10)" 12 2048 "''1.65''" "''1.65''" False, OF _ _ _ printed(1)]
      facts top
    by simp
  show "channel_out rnd 12 (rnd (33 / 10)) [rnd (33 / 20), rnd (3 / 4), rnd 3, rnd (21 / 5)] (Suc 0) =
      [Str ''  Channel '', Num (Suc 0), Str '' | Analog Input: '', Str ''0.75'', Str '' V | Digital Raw: '', NumW 4 931,
       Str '' | Reconstructed: '', Str ''0.75'', Str '' V'', Str [], Str nl]"
    using channel_out_eq [of "(Suc 0)" "[rnd (33 / 20), rnd (3 / 4), rnd 3, rnd (21 / 5)]" rnd "rnd (33 / 10)" 12 931 "''0.75''" "''0.75''" False, OF _ _ _ printed(2)]
      facts top
    by simp
  show "channel_out rnd 12 (rnd (33 / 10)) [rnd (33 / 20), rnd (3 / 4), rnd 3, rnd (21 / 5)] (Suc (Suc 0)) =
      [Str ''  Channel '', Num (Suc (Suc 0)), Str '' | Analog Input: '', Str ''3.00'', Str '' V | Digital Raw: '', NumW 4 3723,
       Str '' | Reconstructed: '', Str ''3.00'', Str '' V'', Str [], Str nl]"
    using channel_out_eq [of "(Suc (Suc 0))" "[rnd (33 / 20), rnd (3 / 4), rnd 3, rnd (21 / 5)]" rnd "rnd (33 / 10)" 12 3723 "''3.00''" "''3.00''" False, OF _ _ _ printed(3)]
      facts top
    by simp
  show "channel_out rnd 12 (rnd (33 / 10)) [rnd (33 / 20), rnd (3 / 4), rnd 3, rnd (21 / 5)] (Suc (Suc (Suc 0))) =
      [Str ''  Channel '', Num (Suc (Suc (Suc 0))), Str '' | Analog Input: '', Str ''4.20'', Str '' V | Digital Raw: '', NumW 4 4095,
       Str '' | Reconstructed: '', Str ''3.30'', Str '' V'', Str '' [SATURATED]'', Str nl]"
    using channel_out_eq [of "(Suc (Suc (Suc 0)))" "[rnd (33 / 20), rnd (3 / 4), rnd 3, rnd (21 / 5)]" rnd "rnd (33 / 10)" 12 4095 "''4.20''" "''3.30''" True, OF _ _ _ printed(4)]
      facts top
    by simp
qed

lemma adc_demo_executes:
  fixes c0 :: "(app_world, 'z demo_st_scheme) computer"
  assumes "runs adc_at (steps rest) ((False, 12, vref, [0, 0, 0, 0]), outs) (a, xs)" and "0 < vref"
    and "os_text (puts xs std_cout) = t"
  shows "\<exists>c. main_of (print outs # machine new_mmio # machine (plainly (sb_init False True False)) #
      machine (new_adc 0x40007000 12 vref 4) # machine (plainly (sb_attachADC True)) # rest) c0 = Some (ret () c) \<and>
    os_text (cout (snd (world c))) = t"
proof -
  have "os_text (cout (snd (world c))) = t" if "adc_at (a, xs) c" for c :: "(app_world, 'z demo_st_scheme) computer"
    using that assms(3) by (simp add: adc_at_def printing_def)
  from main_of_executes [OF adc_demo_begin [OF assms(2)] assms(1), of "\<lambda>c. os_text (cout (snd (world c))) = t", OF this]
  show ?thesis by simp
qed

lemma adc_at_bits:
  "runs adc_at (machine (say_of (\<lambda>s. f (a_resolutionBits (adc0 s))))) ((on, bits, vref, vs), xs) ((on, bits, vref, vs), xs @ f bits)"
  by (rule adc_at_say_of) (auto simp: adc_state_def)

lemma adc_at_count:
  "runs adc_at (machine (say_of (\<lambda>s. f (adc_channelCount (adc0 s))))) ((on, bits, vref, vs), xs)
     ((on, bits, vref, vs), xs @ f (length vs))"
  by (rule adc_at_say_of) (auto simp: adc_state_def adc_channelCount_def)

lemma adc_at_enabled:
  "runs adc_at (machine (say_of (\<lambda>s. f (adc_hal_enabled True s)))) ((on, bits, vref, vs), xs) ((on, bits, vref, vs), xs @ f on)"
  by (rule adc_at_say_of) (auto simp: adc_state_def adc_hal_enabled_def adc_enabled_def)

lemmas adc_at_rules =
  adc_at_enable adc_at_input adc_at_reference adc_at_channels adc_at_resolution adc_at_reset adc_out.at_print

definition adc_demo_text :: string where
  "adc_demo_text =
     ''Starting Analog-to-Digital Converter (ADC) Demo...'' @ nl @
     ''ADC Peripheral enabled.'' @ nl @
     ''  Base Address:       0x40007000'' @ nl @
     ''  Resolution:         12-bit (0..4095)'' @ nl @
     ''  Reference Voltage:  3.3 V'' @ nl @
     ''  Channel Count:      4'' @ nl @ nl @
     ''--- Demo 1: Multi-Channel Analog Sensor Sampling ---'' @ nl @
     ''  Channel 0 | Analog Input: 1.65 V | Digital Raw: 2048 | Reconstructed: 1.65 V'' @ nl @
     ''  Channel 1 | Analog Input: 0.75 V | Digital Raw:  931 | Reconstructed: 0.75 V'' @ nl @
     ''  Channel 2 | Analog Input: 3.00 V | Digital Raw: 3723 | Reconstructed: 3.00 V'' @ nl @
     ''  Channel 3 | Analog Input: 4.20 V | Digital Raw: 4095 | Reconstructed: 3.30 V [SATURATED]'' @ nl @ nl @
     ''--- Demo 2: Resolution Dynamics (8-bit, 10-bit, 12-bit) ---'' @ nl @
     ''  Resolution:  8-bit | Max Digital:  255 | Raw Output:  191'' @ nl @
     ''  Resolution: 10-bit | Max Digital: 1023 | Raw Output:  767'' @ nl @
     ''  Resolution: 12-bit | Max Digital: 4095 | Raw Output: 3071'' @ nl @ nl @
     ''Resetting SystemBus...'' @ nl @
     ''ADC Enabled after reset? No'' @ nl @ nl @
     ''ADC Controller Demo completed successfully.'' @ nl"

text \<open>
  The whole of the ADC demonstration, printed character by character, from every machine and with every rounding
  that is close enough: the codes and the decimals do not depend on how the last bits are rounded, but for the
  input at half of the reference, whose code is exact.
\<close>

lemma adc_demo_transcript:
  assumes "rounds_closely rnd"
  shows "\<exists>c. adc_demo rnd c0 = Some (ret () c) \<and> os_text (cout (snd (world c))) = adc_demo_text"
  unfolding adc_demo_def list.map append.simps
  by (rule adc_demo_executes,
      ((rule runs_step, (rule adc_at_rules adc_at_bits adc_at_count adc_at_enabled; simp add: adc_demo_order [OF assms] adc_resolution_ok_def),
        simp add: adc_demo_lines [OF assms] adc_demo_reference [OF assms])+)[1], rule runs_nil)
    (simp_all add: adc_demo_order [OF assms] adc_demo_codes [OF assms] resolution_out_def render adc_demo_text_def)

end
