(* ===== verification/Spec2Isabelle.thy ===== *)
theory Spec2Isabelle
  imports Main_Safety Rtos_Scheduling Logger Example_Uart Example_Spi Example_I2c Example_Pwm Example_Events Example_Rtos Example_Hal Example_Power Example_Firmware Example_Dma Example_Adc
begin

text \<open>
  A model of the Embedded Firmware Simulator: a processor, a system bus with memory, memory-mapped
  registers, a clock, an event queue, an interrupt controller and eight kinds of peripheral, a hardware
  abstraction layer, firmware applications under a firmware manager, a task scheduler, an interactive
  monitor, and the program that puts them together.

  \<^bold>\<open>How the parts interact.\<close> \<^verbatim>\<open>CPU::step\<close> counts a cycle and lets the bus tick: the clock
  advances, the attached DMA controllers, timers and the PWM controller tick, the event queue runs what
  is due at the new time (the compare match of an event-driven timer is such an event), and the interrupt
  controller dispatches one line to its handler. Then the task scheduler ticks and schedules, if one is
  attached and runs; otherwise the firmware manager updates the selected application, which reaches the
  drivers through the hardware abstraction layer. The drivers keep their state in register objects that
  are also visible at addresses of the MMIO bus, so that the DMA controller and the monitor see them.

  \<^bold>\<open>Conventions.\<close> Every operation is a function from the state to an outcome, a pair of an
  exception or a result, and the state that is left, also after an exception (Prelude). A C++ object is a
  record; the objects it points to live in a machine record that grows from theory to theory (registers,
  then interrupt controller, then clock and event queue, then timers, and so on), and every operation
  works on any extension of the part it needs. A pointer to the only object of its class is a flag, to one
  of several objects a number. Integers are words of the width of the source, bus addresses and cycles 64
  bits, registers 32 bits. Registers are numbered objects in a store; the bus maps addresses to numbers.

  \<^bold>\<open>Theories.\<close>
  \<^item> Prelude: outcomes and their sequencing, bits of a word, words and numbers, the locale \<open>stepper\<close> of
    invariants kept by every operation. Text_Format: the streams, number formats and parsers of the C++
    library.
  \<^item> Mmio: \<^verbatim>\<open>mmio/register.hpp\<close>, \<^verbatim>\<open>mmio/mmio_bus.hpp\<close>, with the locale of a register store. Ram:
    \<^verbatim>\<open>memory/memory.hpp\<close>, with the locale of a byte store. Sim_Clock:
    \<^verbatim>\<open>system/clock/simulation_clock.hpp\<close>.
  \<^item> Interrupts: \<^verbatim>\<open>kernel/interrupt_controller.hpp\<close>. Event_Scheduler:
    \<^verbatim>\<open>system/scheduler/event_scheduler.hpp\<close>, with the locale of an event service.
  \<^item> Timer_Driver, Gpio_Driver, Uart_Driver, Spi_Driver, I2c_Driver, Pwm_Driver, Dma_Driver, Adc_Driver: the
    classes under \<^verbatim>\<open>drivers\<close>, those of SPI and I2C with a locale for the slaves on their bus.
  \<^item> Rtos and Rtos_Scheduling: \<^verbatim>\<open>rtos/rtos_scheduler.hpp\<close>, \<^verbatim>\<open>rtos/task.hpp\<close>.
  \<^item> System_Bus: \<^verbatim>\<open>system/system_bus.hpp\<close> and the bus part of \<^verbatim>\<open>CPU::step\<close>. Bus_Timing and
    Bus_Frames: what a bus cycle does to an attached timer, and what it leaves alone.
  \<^item> Hal: the seven classes under \<^verbatim>\<open>hal\<close>. Firmware_Manager: \<^verbatim>\<open>firmware/firmware.hpp\<close>,
    \<^verbatim>\<open>firmware/firmware_manager.hpp\<close>, with the locale of a class of applications. Firmware_Apps: the
    three applications, which interpret it.
  \<^item> Cpu_Core: \<^verbatim>\<open>cpu/cpu.hpp\<close>, \<^verbatim>\<open>cpu/registers/register_file.hpp\<close>, \<^verbatim>\<open>system/power\<close>.
    Cpu_Runs: runs, power and reset, and what a run does when there is no power: it initializes the application
    of a stopped processor, as \<^verbatim>\<open>run\<close> starts it, and nothing more.
  \<^item> Monitor: \<^verbatim>\<open>monitor/monitor.hpp\<close>. Logger: \<^verbatim>\<open>common/logger.hpp\<close>. Main_Program: \<^verbatim>\<open>main.cpp\<close>.
    Main_Safety: what holds after every input of that program.
  \<^item> Example_Uart, Example_Spi, Example_I2c, Example_Pwm, Example_Events, Example_Rtos, Example_Hal, Example_Manager,
    Example_Power, Example_Firmware, Example_Dma, Example_Adc: the programs under \<^verbatim>\<open>examples\<close>, statement
    by statement. Example_Kit: the statements they are made of, triples by which a program is executed on an
    abstraction of its machine, and the locale of the abstractions that know what was printed. Example_Board: that abstraction for a port, a timer and a
    UART on one bus.

  \<^bold>\<open>What the theorems show.\<close>
  \<^item> End to end: the program, given a line \<^verbatim>\<open>run k\<close>, prints exactly the expected transcript and leaves
    clock, pin, timer and interrupt line as \<open>k\<close> cycles must (Main_Program); the processor with the basic
    firmware toggles its pin once per interval (Cpu_Runs).
  \<^item> Type soundness: for every input and every initial memory the program returns without an exception and leaves a
    well-formed machine (Main_Safety). The commands of the monitor read memory, registers, pins, interrupt lines and
    the MMIO bus with the operations that throw, so that they return because what they ask for is there.
  \<^item> Transcripts: each example program, started on any machine, returns and has printed exactly the given
    text, character by character; where the text is not what the program is meant to show, the theorem says so.
  \<^item> Refinement of an abstract specification: the bus is a partial map, the port an array of pins, the UART
    two queues, a timer, polled or on the bus, a counter that stops at its compare value.
  \<^item> Invariants of every sequence of operations: only registered lines run, one pending event per timer,
    only the selected application is live, no task is lost by the task scheduler, a DMA controller never
    counts past its length, the I2C bus is busy only while enabled. The invariant of the task scheduler covers tasks
    that create tasks, and its bound is the one of the code: identifiers are 32 bits wide, and a run that creates
    that many tasks is excluded (\<open>rtos_calls_ids\<close>).
  \<^item> Functional behaviour on every branch: events in order, the best interrupt served, transfers over DMA,
    SPI and I2C, rotation and exact delays of tasks, accuracy of a sample, the effect of a reset.
  \<^item> Round trips of the UART and of the cycle count of \<^verbatim>\<open>run\<close>; bounds of the event-driven timer, the DMA
    counter and the converter; a run is its steps; what a run without power does; looking
    at the machine through the monitor throws nothing and does not change it.
  \<^item> Termination: a transfer ends after as many steps as bytes, the echo application returns, and the task
    scheduler does not return when all tasks of the highest priority begin with a yield.

  \<^bold>\<open>Fuel.\<close> Only the task scheduler needs it: task bodies call \<^verbatim>\<open>schedule\<close> again, so \<open>rtos_schedule\<close>
  has a depth and the value \<open>None\<close> when it is not enough, and \<open>cpu_step\<close>, \<open>cpu_run\<close> and the monitor pass
  the depth on. Properties of results hold at every depth that returns; those that say that it returns
  name the depth or hold for all of them, as do the runs without a task scheduler. The delay of a task is exact
  for the calls that return, and its theorem names bodies for which they do: those that only delay, suspend, delete
  and stop. The loops of \<^verbatim>\<open>run\<close>, of the monitor and of the echo application are total functions.

  \<^bold>\<open>The embedding program\<close> supplies closures: event callbacks, interrupt handlers, task bodies,
  slaves and applications other than those of the sources. They are parameters. A callback or handler acts
  on the bus and its peripherals, a task body also on the applications' world and, through its list of
  calls, on the task scheduler; none acts on the processor that runs it.

  \<^bold>\<open>Numbers of the converter.\<close> The converter computes with doubles. The model takes a rounding of real
  numbers as a parameter, applied after every operation and literal of the source; the theorem on its accuracy asks of
  the rounding what \<^verbatim>\<open>double\<close> promises, a small relative error, and has a witness with such a rounding
  that is not the identity.

  \<^bold>\<open>Not modelled.\<close> The errors and warnings that the classes log on misuse (only the power and the reset
  controller log in normal use; their lines are modelled, as they are part of the output of the program that uses
  them); a second event scheduler for one timer, of which \<open>timer_second_scheduler\<close> (Timer_Driver) shows what
  the code does with it; accessors
  that return a pointer or a field, which are the fields of the records; the destructors that run when
  a program returns; a second system bus for one processor; the unused bus pointer of the task scheduler; NaN and
  infinities in the converter, whose roundings are a parameter; of the output of doubles what its example prints; the
  version constants; the tests.
\<close>

end
